(* ===== verification/Prelude.thy ===== *)
theory Prelude
  imports Main "HOL-Library.Char_ord" "HOL-Library.List_Lexorder" "HOL-Library.Product_Lexorder"
begin

text \<open>
  Shared vocabulary of the development: JavaScript numbers and strings as the sources use
  them, results that may carry a thrown error, operations over a state, and the generic
  lemmas every component proof draws on.

  Strings are HOL strings, one \<^typ>\<open>char\<close> per UTF-16 code unit of the Latin-1 range;
  \<open>trim\<close>, \<open>toLowerCase\<close> and the comparisons below are exact on that range.
  Timestamps and identifiers that the code takes from \<open>now()\<close> and \<open>createId()\<close> are
  arguments of the operations.
\<close>

section \<open>Collections of facts\<close>

named_theorems keeps_intro \<open>rules that show an operation keeps an invariant\<close>
named_theorems op_simps \<open>equations that run an operation on a state\<close>
named_theorems result_elims \<open>elimination of successful results\<close>

section \<open>JavaScript numbers\<close>

text \<open>
  A \<open>number\<close> a caller may pass: an integral value, a finite value strictly between
  \<open>n\<close> and \<open>n + 1\<close>, or one of the special values. The validations of the sources
  (\<open>Number.isSafeInteger\<close>) accept only integral values within \<open>2^53 - 1\<close>.
\<close>

datatype js_num = JInt int | JFrac int | JNaN | JPosInf | JNegInf

definition MAX_SAFE_INTEGER :: int where
  "MAX_SAFE_INTEGER = 9007199254740991"

definition is_safe_int :: "int \<Rightarrow> bool" where
  "is_safe_int i \<longleftrightarrow> - MAX_SAFE_INTEGER \<le> i \<and> i \<le> MAX_SAFE_INTEGER"

fun is_safe_integer :: "js_num \<Rightarrow> bool" where
  "is_safe_integer (JInt i) = is_safe_int i"
| "is_safe_integer _ = False"

text \<open>The integer behind a validated number; the other values never reach it.\<close>

fun int_value :: "js_num \<Rightarrow> int" where
  "int_value (JInt i) = i"
| "int_value (JFrac i) = i"
| "int_value _ = 0"

lemma is_safe_integer_iff:
  "is_safe_integer v \<longleftrightarrow> (\<exists>i. v = JInt i \<and> is_safe_int i)"
  by (cases v) auto

section \<open>JavaScript strings\<close>

definition js_space :: "char \<Rightarrow> bool" where
  "js_space c \<longleftrightarrow> (of_char c :: nat) \<in> {9, 10, 11, 12, 13, 32, 160}"

definition trim :: "string \<Rightarrow> string" where
  "trim s = rev (dropWhile js_space (rev (dropWhile js_space s)))"

definition lower_char :: "char \<Rightarrow> char" where
  "lower_char c =
     (let n = of_char c :: nat in
      if (65 \<le> n \<and> n \<le> 90) \<or> (192 \<le> n \<and> n \<le> 222 \<and> n \<noteq> 215) then char_of (n + 32) else c)"

definition toLowerCase :: "string \<Rightarrow> string" where
  "toLowerCase s = map lower_char s"

text \<open>
  \<open>toUpperCase\<close>: the sharp s becomes two letters; the two Latin-1 letters whose capital
  lies outside Latin-1 (micro sign, y with diaeresis) are left as they are.
\<close>

definition upper_char :: "char \<Rightarrow> string" where
  "upper_char c =
     (let n = of_char c :: nat in
      if (97 \<le> n \<and> n \<le> 122) \<or> (224 \<le> n \<and> n \<le> 254 \<and> n \<noteq> 247) then [char_of (n - 32)]
      else if n = 223 then ''SS'' else [c])"

definition toUpperCase :: "string \<Rightarrow> string" where
  "toUpperCase s = concat (map upper_char s)"

definition is_digit :: "char \<Rightarrow> bool" where
  "is_digit c \<longleftrightarrow> CHR ''0'' \<le> c \<and> c \<le> CHR ''9''"

definition is_lower_letter :: "char \<Rightarrow> bool" where
  "is_lower_letter c \<longleftrightarrow> CHR ''a'' \<le> c \<and> c \<le> CHR ''z''"

definition is_upper_letter :: "char \<Rightarrow> bool" where
  "is_upper_letter c \<longleftrightarrow> CHR ''A'' \<le> c \<and> c \<le> CHR ''Z''"

definition is_lower_hex :: "char \<Rightarrow> bool" where
  "is_lower_hex c \<longleftrightarrow> is_digit c \<or> (CHR ''a'' \<le> c \<and> c \<le> CHR ''f'')"

text \<open>The digest pattern \<open>/^[a-f0-9]{64}$/\<close>.\<close>

definition is_sha256_hex :: "string \<Rightarrow> bool" where
  "is_sha256_hex s \<longleftrightarrow> length s = 64 \<and> list_all is_lower_hex s"

text \<open>\<open>/[\u0000-\u001f\u007f]/\<close>: the string holds a control character.\<close>

definition has_control_char :: "string \<Rightarrow> bool" where
  "has_control_char s \<longleftrightarrow> list_ex (\<lambda>c. let n = of_char c :: nat in n < 32 \<or> n = 127) s"

text \<open>\<open>/^[a-z0-9](?:[a-z0-9-]{0,n}[a-z0-9])?$/\<close>, the shape of names and host labels.\<close>

definition is_lower_alnum :: "char \<Rightarrow> bool" where
  "is_lower_alnum c \<longleftrightarrow> is_lower_letter c \<or> is_digit c"

definition label_pattern :: "nat \<Rightarrow> string \<Rightarrow> bool" where
  "label_pattern n s \<longleftrightarrow>
     s \<noteq> [] \<and> length s \<le> n + 2 \<and> is_lower_alnum (hd s) \<and> is_lower_alnum (last s)
     \<and> list_all (\<lambda>c. is_lower_alnum c \<or> c = CHR ''-'') s"

text \<open>\<open>value.slice(0, n)\<close> is \<open>take n\<close>; \<open>x?.trim() || null\<close> is the following.\<close>

definition trim_or_null :: "string option \<Rightarrow> string option" where
  "trim_or_null v =
     (case v of None \<Rightarrow> None | Some s \<Rightarrow> (if trim s = [] then None else Some (trim s)))"

text \<open>SQLite's \<open>COLLATE NOCASE\<close> folds the ASCII capitals only.\<close>

definition nocase :: "string \<Rightarrow> string" where
  "nocase s = map (\<lambda>c. if is_upper_letter c then char_of ((of_char c :: nat) + 32) else c) s"

lemma dropWhile_idem: "dropWhile P (dropWhile P xs) = dropWhile P xs"
  by (induction xs) auto

lemma dropWhile_rev_dropWhile:
  assumes "dropWhile P xs = xs"
  shows "dropWhile P (rev (dropWhile P (rev xs))) = rev (dropWhile P (rev xs))"
proof (cases "rev (dropWhile P (rev xs))")
  case Nil
  show ?thesis unfolding Nil by simp
next
  case (Cons y ys)
  obtain zs where "xs = rev (dropWhile P (rev xs)) @ zs"
    by (metis rev_append rev_rev_ident takeWhile_dropWhile_id)
  with Cons obtain zs' where "xs = y # zs'" by auto
  with assms have "\<not> P y"
    by (metis dropWhile.simps(2) impossible_Cons length_dropWhile_le)
  with Cons show ?thesis by simp
qed

lemma trim_idem [simp]: "trim (trim s) = trim s"
  by (simp add: trim_def dropWhile_rev_dropWhile dropWhile_idem)

lemma length_trim: "length (trim s) \<le> length s"
proof -
  have "length (trim s) \<le> length (dropWhile js_space s)"
    unfolding trim_def by (metis length_dropWhile_le length_rev)
  also have "\<dots> \<le> length s" by (rule length_dropWhile_le)
  finally show ?thesis .
qed

lemma trim_Nil [simp]: "trim [] = []"
  by (simp add: trim_def)

lemma trim_or_null_SomeD: "trim_or_null v = Some s \<Longrightarrow> s \<noteq> [] \<and> trim s = s"
  by (auto simp: trim_or_null_def split: option.splits if_splits)

section \<open>Numbers in messages\<close>

definition digit_char :: "nat \<Rightarrow> char" where
  "digit_char d = char_of (48 + d)"

fun show_nat :: "nat \<Rightarrow> string" where
  "show_nat n = (if n < 10 then [digit_char n] else show_nat (n div 10) @ [digit_char (n mod 10)])"

declare show_nat.simps [simp del]

definition show_int :: "int \<Rightarrow> string" where
  "show_int i = (if i < 0 then CHR ''-'' # show_nat (nat (- i)) else show_nat (nat i))"

section \<open>Results that may carry a thrown error\<close>

text \<open>
  \<open>Inl e\<close> is a thrown error, \<open>Inr x\<close> a returned value. \<open>sbind\<close> is sequencing: a throw
  skips the rest.
\<close>

fun sbind :: "'e + 'a \<Rightarrow> ('a \<Rightarrow> 'e + 'b) \<Rightarrow> 'e + 'b" where
  "sbind (Inl e) f = Inl e"
| "sbind (Inr x) f = f x"

definition require :: "bool \<Rightarrow> 'e \<Rightarrow> 'e + unit" where
  "require b e = (if b then Inr () else Inl e)"

lemma sbind_eq_Inr: "sbind m f = Inr y \<longleftrightarrow> (\<exists>x. m = Inr x \<and> f x = Inr y)"
  by (cases m) auto

lemma sbind_eq_Inl: "sbind m f = Inl e \<longleftrightarrow> m = Inl e \<or> (\<exists>x. m = Inr x \<and> f x = Inl e)"
  by (cases m) auto

lemma require_eq_Inr [simp]: "require b e = Inr u \<longleftrightarrow> b"
  by (simp add: require_def)

lemma require_eq_Inl [simp]: "require b e = Inl e' \<longleftrightarrow> \<not> b \<and> e' = e"
  by (auto simp: require_def)

lemma require_True [simp]: "require True e = Inr ()"
  and require_False [simp]: "require False e = Inl e"
  by (simp_all add: require_def)

lemma sbind_InrE [elim!, result_elims]:
  assumes "sbind m f = Inr y"
  obtains x where "m = Inr x" and "f x = Inr y"
  using assms by (auto simp: sbind_eq_Inr)

section \<open>Operations over a state\<close>

text \<open>
  An operation maps a state to a result and the state it leaves. A throw keeps what was
  written before it, unless the writes ran inside \<open>atomic\<close>, the model of
  \<open>database.transaction(\<dots>)()\<close>, which rolls back.
\<close>

type_synonym ('s, 'e, 'a) operation = "'s \<Rightarrow> ('e + 'a) \<times> 's"

definition oreturn :: "'a \<Rightarrow> ('s, 'e, 'a) operation" where
  "oreturn x s = (Inr x, s)"

definition othrow :: "'e \<Rightarrow> ('s, 'e, 'a) operation" where
  "othrow e s = (Inl e, s)"

definition oget :: "('s \<Rightarrow> 'a) \<Rightarrow> ('s, 'e, 'a) operation" where
  "oget f s = (Inr (f s), s)"

definition olift :: "'e + 'a \<Rightarrow> ('s, 'e, 'a) operation" where
  "olift r s = (r, s)"

definition oread :: "('s \<Rightarrow> 'e + 'a) \<Rightarrow> ('s, 'e, 'a) operation" where
  "oread f s = (f s, s)"

definition obind :: "('s, 'e, 'a) operation \<Rightarrow> ('a \<Rightarrow> ('s, 'e, 'b) operation) \<Rightarrow> ('s, 'e, 'b) operation"
where
  "obind m f s = (case m s of (Inl e, s') \<Rightarrow> (Inl e, s') | (Inr x, s') \<Rightarrow> f x s')"

definition atomic :: "('s, 'e, 'a) operation \<Rightarrow> ('s, 'e, 'a) operation" where
  "atomic m s = (case m s of (Inl e, _) \<Rightarrow> (Inl e, s) | (Inr x, s') \<Rightarrow> (Inr x, s'))"

text \<open>\<open>try { m } catch (error) { h error }\<close>: the handler starts in the state the throw left.\<close>

definition ocatch :: "('s, 'e, 'a) operation \<Rightarrow> ('e \<Rightarrow> ('s, 'e, 'a) operation) \<Rightarrow> ('s, 'e, 'a) operation"
where
  "ocatch m h s = (case m s of (Inl e, s') \<Rightarrow> h e s' | (Inr x, s') \<Rightarrow> (Inr x, s'))"

lemmas operation_defs = oreturn_def othrow_def oget_def olift_def oread_def

lemma obind_oreturn [simp, op_simps]: "obind (oreturn x) f = f x"
  and obind_othrow [simp, op_simps]: "obind (othrow e) f = othrow e"
  and obind_oget [simp, op_simps]: "obind (oget g) f s = f (g s) s"
  and obind_olift_Inr [simp, op_simps]: "obind (olift (Inr x)) f = f x"
  and obind_olift_Inl [simp, op_simps]: "obind (olift (Inl e)) f = othrow e"
  by (auto simp: obind_def operation_defs fun_eq_iff)

lemma obind_eq_Inr:
  "obind m f s = (Inr y, t) \<longleftrightarrow> (\<exists>x s'. m s = (Inr x, s') \<and> f x s' = (Inr y, t))"
  by (auto simp: obind_def split: prod.splits sum.splits)

lemma obind_eq_Inl:
  "obind m f s = (Inl e, t) \<longleftrightarrow>
     m s = (Inl e, t) \<or> (\<exists>x s'. m s = (Inr x, s') \<and> f x s' = (Inl e, t))"
  by (auto simp: obind_def split: prod.splits sum.splits)

lemma obind_InrE [elim!, result_elims]:
  assumes "obind m f s = (Inr y, t)"
  obtains x s' where "m s = (Inr x, s')" and "f x s' = (Inr y, t)"
  using assms by (auto simp: obind_eq_Inr)

lemma atomic_eq_Inr [simp]: "atomic m s = (Inr y, t) \<longleftrightarrow> m s = (Inr y, t)"
  by (auto simp: atomic_def split: prod.splits sum.splits)

lemma atomic_eq_Inl: "atomic m s = (Inl e, t) \<longleftrightarrow> t = s \<and> (\<exists>t'. m s = (Inl e, t'))"
  by (auto simp: atomic_def split: prod.splits sum.splits)

lemma atomic_rolls_back: "atomic m s = (Inl e, t) \<Longrightarrow> t = s"
  by (simp add: atomic_eq_Inl)

lemma operation_eq_Inr [simp]:
  "oreturn x s = (Inr y, t) \<longleftrightarrow> y = x \<and> t = s"
  "othrow e s = (Inr y, t) \<longleftrightarrow> False"
  "oget f s = (Inr y, t) \<longleftrightarrow> y = f s \<and> t = s"
  "olift r s = (Inr y, t) \<longleftrightarrow> r = Inr y \<and> t = s"
  "oread g s = (Inr y, t) \<longleftrightarrow> g s = Inr y \<and> t = s"
  by (auto simp: operation_defs)

subsection \<open>Invariants of operations\<close>

definition keeps :: "('s \<Rightarrow> bool) \<Rightarrow> ('s, 'e, 'a) operation \<Rightarrow> bool" where
  "keeps I m \<longleftrightarrow> (\<forall>s. I s \<longrightarrow> I (snd (m s)))"

lemma keepsI: "(\<And>s r t. I s \<Longrightarrow> m s = (r, t) \<Longrightarrow> I t) \<Longrightarrow> keeps I m"
  unfolding keeps_def by (metis prod.collapse)

lemma keepsD: "keeps I m \<Longrightarrow> I s \<Longrightarrow> m s = (r, t) \<Longrightarrow> I t"
  unfolding keeps_def by (metis snd_conv)

lemma keeps_reads [keeps_intro]:
  "keeps I (oreturn x)" "keeps I (othrow e)" "keeps I (oget f)" "keeps I (olift r)" "keeps I (oread g)"
  by (simp_all add: keeps_def operation_defs)

lemma keeps_obind [keeps_intro]:
  "keeps I m \<Longrightarrow> (\<And>x. keeps I (f x)) \<Longrightarrow> keeps I (obind m f)"
  by (auto simp: keeps_def obind_def split: prod.splits sum.splits)

lemma keeps_atomic [keeps_intro]: "keeps I m \<Longrightarrow> keeps I (atomic m)"
  by (auto simp: keeps_def atomic_def split: prod.splits sum.splits)

lemma keeps_ocatch [keeps_intro]:
  "keeps I m \<Longrightarrow> (\<And>e. keeps I (h e)) \<Longrightarrow> keeps I (ocatch m h)"
  by (auto simp: keeps_def ocatch_def split: prod.splits sum.splits)

lemma keeps_if [keeps_intro]: "(b \<Longrightarrow> keeps I m) \<Longrightarrow> (\<not> b \<Longrightarrow> keeps I n) \<Longrightarrow> keeps I (if b then m else n)"
  by simp

lemma keeps_case_option [keeps_intro]:
  "keeps I m \<Longrightarrow> (\<And>x. keeps I (f x)) \<Longrightarrow> keeps I (case v of None \<Rightarrow> m | Some x \<Rightarrow> f x)"
  by (simp split: option.split)

lemma keeps_conj: "keeps I m \<Longrightarrow> keeps J m \<Longrightarrow> keeps (\<lambda>s. I s \<and> J s) m"
  by (simp add: keeps_def)

subsection \<open>Step relations and their invariants\<close>

text \<open>
  A component that runs for ever is a step relation; what one step keeps holds along every
  run. Interpreted by the components on their own steps.
\<close>

locale invariant_system =
  fixes step :: "'s \<Rightarrow> 's \<Rightarrow> bool"
    and inv :: "'s \<Rightarrow> bool"
  assumes step_inv: "step s t \<Longrightarrow> inv s \<Longrightarrow> inv t"
begin

lemma run_inv: "rtranclp step s t \<Longrightarrow> inv s \<Longrightarrow> inv t"
  by (induction rule: rtranclp_induct) (auto intro: step_inv)

end

text \<open>A quantity that no step decreases, in some order given by its reflexive steps.\<close>

locale monotone_system =
  fixes step :: "'s \<Rightarrow> 's \<Rightarrow> bool"
    and rel :: "'s \<Rightarrow> 's \<Rightarrow> bool"
  assumes rel_refl: "rel s s"
    and rel_trans: "rel s t \<Longrightarrow> rel t u \<Longrightarrow> rel s u"
    and step_rel: "step s t \<Longrightarrow> rel s t"
begin

lemma run_rel: "rtranclp step s t \<Longrightarrow> rel s t"
  by (induction rule: rtranclp_induct) (auto intro: rel_refl rel_trans step_rel)

end

section \<open>Searching lists\<close>

lemma find_SomeD: "find P xs = Some x \<Longrightarrow> x \<in> set xs \<and> P x"
  by (auto simp: find_Some_iff)

lemma find_map_update:
  assumes "\<And>r. r \<in> set rows \<Longrightarrow> P (g r) = P r"
  shows "find P (map g rows) = map_option g (find P rows)"
  using assms by (induction rows) auto

lemma find_keyed_update:
  assumes "\<And>r. k (f r) = k r"
  shows "find (\<lambda>r. k r = i) (map (\<lambda>r. if k r = i then f r else r) rows)
    = map_option f (find (\<lambda>r. k r = i) rows)"
  using assms by (induction rows) auto

lemma find_other_update:
  assumes "\<And>r. k (f r) = k r" and "i \<noteq> j"
  shows "find (\<lambda>r. k r = i) (map (\<lambda>r. if k r = j then f r else r) rows) = find (\<lambda>r. k r = i) rows"
  using assms by (induction rows) auto

lemma map_distinct_tail: "distinct (map k (y # rows)) \<Longrightarrow> \<forall>x \<in> set rows. k x \<noteq> k y"
  by simp (metis imageI)

lemma filter_key_single: "distinct (map k rows) \<Longrightarrow> x \<in> set rows \<Longrightarrow> filter (\<lambda>r. k r = k x) rows = [x]"
proof (induction rows)
  case (Cons y rows)
  have "filter (\<lambda>r. k r = k y) rows = []"
    using map_distinct_tail [OF Cons.prems(1)] by (simp add: filter_empty_conv)
  with Cons show ?case by (cases "x = y") auto
qed simp

lemma find_append: "find P (xs @ ys) = (case find P xs of None \<Rightarrow> find P ys | Some x \<Rightarrow> Some x)"
  by (induction xs) auto

lemma find_eq_NoneD: "find P xs = None \<Longrightarrow> x \<in> set xs \<Longrightarrow> \<not> P x"
  by (auto simp: find_None_iff)

lemma find_ex: "x \<in> set xs \<Longrightarrow> P x \<Longrightarrow> \<exists>y. find P xs = Some y"
  by (cases "find P xs") (auto simp: find_None_iff)

text \<open>A column sum after one row, found by its key, is rewritten or removed.\<close>

lemma sum_list_key_update:
  fixes f :: "'r \<Rightarrow> 'n :: ab_group_add"
  assumes "distinct (map k rows)" and "x \<in> set rows"
  shows "sum_list (map f (map (\<lambda>r. if k r = k x then g r else r) rows)) = sum_list (map f rows) - f x + f (g x)"
  using assms
proof (induction rows)
  case (Cons y rows)
  have "map (\<lambda>r. if k r = k y then g r else r) rows = rows"
    using map_distinct_tail [OF Cons.prems(1)] by (intro map_idI) simp
  with Cons show ?case by (cases "x = y") (auto simp: algebra_simps)
qed simp

lemma sum_list_key_delete:
  fixes f :: "'r \<Rightarrow> 'n :: ab_group_add"
  assumes "distinct (map k rows)" and "x \<in> set rows"
  shows "sum_list (map f (filter (\<lambda>r. k r \<noteq> k x) rows)) = sum_list (map f rows) - f x"
  using assms
proof (induction rows)
  case (Cons y rows)
  have "filter (\<lambda>r. k r \<noteq> k y) rows = rows"
    using map_distinct_tail [OF Cons.prems(1)] by (intro filter_True) simp
  with Cons show ?case by (cases "x = y") (auto simp: algebra_simps)
qed simp

lemma count_key_update:
  assumes "distinct (map k rows)" and "x \<in> set rows"
  shows "int (length (filter P (map (\<lambda>r. if k r = k x then g r else r) rows)))
    = int (length (filter P rows)) - of_bool (P x) + of_bool (P (g x))"
  using assms
proof (induction rows)
  case (Cons y rows)
  have "map (\<lambda>r. if k r = k y then g r else r) rows = rows"
    using map_distinct_tail [OF Cons.prems(1)] by (intro map_idI) simp
  with Cons show ?case by (cases "x = y") (auto simp del: filter_map)
qed simp

lemma length_filter_map_le:
  "(\<And>x. x \<in> set xs \<Longrightarrow> P (f x) \<Longrightarrow> P x) \<Longrightarrow> length (filter P (map f xs)) \<le> length (filter P xs)"
  by (induction xs) (auto simp: le_SucI)

lemma length_filter_conj_le: "length (filter (\<lambda>x. P x \<and> Q x) xs) \<le> length (filter P xs)"
  by (induction xs) auto

lemma length_filter_mono: "(\<And>x. x \<in> set xs \<Longrightarrow> P x \<Longrightarrow> Q x) \<Longrightarrow> length (filter P xs) \<le> length (filter Q xs)"
  by (induction xs) (auto simp: le_SucI)

lemma sort_key_hd_le:
  assumes "sort_key k xs = y # ys"
  shows "y \<in> set xs" and "x \<in> set xs \<Longrightarrow> k y \<le> k x"
proof -
  have "set (sort_key k xs) = set xs" by simp
  with assms show "y \<in> set xs" by auto
  have "sorted (map k (y # ys))" using sorted_sort_key [of k xs] assms by simp
  moreover assume "x \<in> set xs"
  then have "x \<in> set (y # ys)" using assms by (metis set_sort)
  ultimately show "k y \<le> k x" by auto
qed

lemma sort_key_Nil_iff: "sort_key k xs = [] \<longleftrightarrow> xs = []"
  by (metis length_0_conv length_sort)

section \<open>Registers that keep the newest write\<close>

text \<open>
  A stored row and an offered one, each with a version: an offer that is not newer is
  dropped, a newer one replaces the content and keeps what belongs to the row.
\<close>

definition register_write :: "('r \<Rightarrow> 'v :: linorder) \<Rightarrow> ('r \<Rightarrow> 'r \<Rightarrow> 'r) \<Rightarrow> 'r \<Rightarrow> 'r option \<Rightarrow> 'r option" where
  "register_write version merge new stored =
     (case stored of
        None \<Rightarrow> Some new
      | Some old \<Rightarrow> Some (if version old < version new then merge new old else old))"

lemma register_write_Some:
  "register_write version merge new (Some old) = Some (if version old < version new then merge new old else old)"
  by (simp add: register_write_def)

locale versioned_register =
  fixes version :: "'r \<Rightarrow> 'v :: linorder"
    and merge :: "'r \<Rightarrow> 'r \<Rightarrow> 'r"
    and content :: "'r \<Rightarrow> 'c"
  assumes version_merge: "version (merge new old) = version new"
    and content_merge: "content (merge new old) = content new"
begin

text \<open>After any writes the register holds the content of a newest one.\<close>

lemma holds_newest:
  "ns \<noteq> [] \<Longrightarrow> \<exists>r n. fold (register_write version merge) ns None = Some r \<and> n \<in> set ns
     \<and> version r = version n \<and> content r = content n \<and> (\<forall>m \<in> set ns. version m \<le> version n)"
proof (induction ns rule: rev_induct)
  case (snoc x ns)
  show ?case
  proof (cases "ns = []")
    case True
    then show ?thesis by (simp add: register_write_def)
  next
    case False
    with snoc.IH obtain r n where r: "fold (register_write version merge) ns None = Some r" "n \<in> set ns"
      "version r = version n" "content r = content n" "\<forall>m \<in> set ns. version m \<le> version n" by blast
    have last_write: "fold (register_write version merge) (ns @ [x]) None
        = Some (if version r < version x then merge x r else r)"
      by (simp add: r(1) register_write_Some)
    show ?thesis
    proof (cases "version r < version x")
      case True
      then have "\<forall>m \<in> set (ns @ [x]). version m \<le> version x" using r(3,5) by fastforce
      with True show ?thesis unfolding last_write
        by (intro exI [of _ "merge x r"] exI [of _ x]) (simp add: version_merge content_merge)
    next
      case False
      then have "\<forall>m \<in> set (ns @ [x]). version m \<le> version n" using r(3,5) by auto
      with False r show ?thesis unfolding last_write
        by (intro exI [of _ r] exI [of _ n]) simp
    qed
  qed
qed simp

text \<open>So the order in which the same writes arrive does not matter.\<close>

lemma order_free:
  assumes "ns \<noteq> []" and "content ` set ns = content ` set ms"
    and "\<And>a b. a \<in> set ns \<union> set ms \<Longrightarrow> b \<in> set ns \<union> set ms \<Longrightarrow>
          content a = content b \<longleftrightarrow> version a = version b"
  shows "\<exists>r q. fold (register_write version merge) ns None = Some r
    \<and> fold (register_write version merge) ms None = Some q \<and> content r = content q"
proof -
  have "ms \<noteq> []" using assms(1,2) by auto
  obtain r n where r: "fold (register_write version merge) ns None = Some r" "n \<in> set ns"
    "content r = content n" "\<forall>m \<in> set ns. version m \<le> version n"
    using holds_newest [OF assms(1)] by blast
  obtain q k where q: "fold (register_write version merge) ms None = Some q" "k \<in> set ms"
    "content q = content k" "\<forall>m \<in> set ms. version m \<le> version k"
    using holds_newest [OF \<open>ms \<noteq> []\<close>] by blast
  obtain k' where k': "k' \<in> set ns" "content k' = content k" using q(2) assms(2) by (metis imageE imageI)
  obtain n' where n': "n' \<in> set ms" "content n' = content n" using r(2) assms(2) by (metis imageE imageI)
  have "version k' = version k" "version n' = version n"
    using assms(3) k' n' q(2) r(2) by auto
  with r(4) q(4) k'(1) n'(1) have "version n = version k" by (metis antisym)
  then have "content n = content k" using assms(3) r(2) q(2) by auto
  with r q show ?thesis by auto
qed

end

end
