(* ===== verification/Errors.thy ===== *)
theory Errors
  imports Prelude
begin

text \<open>
  The errors the control plane throws: the two built-in classes \<open>Error\<close> and
  \<open>TypeError\<close> with their message, the named classes of the database package, and the
  failures SQLite raises for a statement that breaks a constraint.
  \<open>error_message\<close> is \<open>error.message\<close>, \<open>error_code\<close> the \<open>code\<close> field of the named
  classes.
\<close>

datatype db_error =
    JsError string
  | JsTypeError string
  | PlatformControlPausedError string
  | PlanAccountConflictError string
  | OperatorSeatCapacityError
  | BillingSubscriptionRequiredError
  | OperatorSeatQuantityConflictError
  | OperatorEntitlementRequiredError
  | PublishedServiceLimitError
  | OrganizationPublishedServiceLimitError
  | PublishedServiceIngressCapacityError
  | ContactRateLimitError
  | WorkspaceMembershipNotFoundError
  | UsageAccessDeniedError
  | OrganizationAccessDeniedError
  | OrganizationMemberMutationError string string
  | WorkerPlacementUnavailableError
  | ProvisioningJobLeaseLostError
  | SqliteUnique string
  | SqliteCheck string
  | SqliteForeignKey
  | SqliteAbort string

text \<open>\<open>control.replace('_', ' ')\<close> replaces the first underscore.\<close>

fun replace_underscore :: "string \<Rightarrow> string" where
  "replace_underscore [] = []"
| "replace_underscore (c # cs) = (if c = CHR ''_'' then CHR '' '' # cs else c # replace_underscore cs)"

fun error_message :: "db_error \<Rightarrow> string" where
  "error_message (JsError m) = m"
| "error_message (JsTypeError m) = m"
| "error_message (PlatformControlPausedError c) = ''Platform '' @ replace_underscore c @ '' is paused''"
| "error_message (PlanAccountConflictError m) = m"
| "error_message OperatorSeatCapacityError = ''All purchased Operator seats are already assigned''"
| "error_message BillingSubscriptionRequiredError =
     ''A Stripe subscription is required before assigning paid Operator seats''"
| "error_message OperatorSeatQuantityConflictError =
     ''Stripe seat quantity cannot be lower than assigned Operator seats''"
| "error_message OperatorEntitlementRequiredError = ''An active Operator entitlement is required''"
| "error_message PublishedServiceLimitError = ''Published service limit reached''"
| "error_message OrganizationPublishedServiceLimitError = ''Organization published service limit reached''"
| "error_message PublishedServiceIngressCapacityError = ''Published service TCP ingress capacity reached''"
| "error_message ContactRateLimitError = ''Too many contact requests''"
| "error_message WorkspaceMembershipNotFoundError = ''The user is not a member of this organization''"
| "error_message UsageAccessDeniedError = ''The user cannot inspect organization usage''"
| "error_message OrganizationAccessDeniedError = ''The user cannot administer this organization''"
| "error_message (OrganizationMemberMutationError c m) = m"
| "error_message WorkerPlacementUnavailableError = ''No healthy worker host has enough available capacity''"
| "error_message ProvisioningJobLeaseLostError =
     ''The provisioning job lease is no longer owned by this processor''"
| "error_message (SqliteUnique c) = ''UNIQUE constraint failed: '' @ c"
| "error_message (SqliteCheck c) = ''CHECK constraint failed: '' @ c"
| "error_message SqliteForeignKey = ''FOREIGN KEY constraint failed''"
| "error_message (SqliteAbort m) = m"

fun error_code :: "db_error \<Rightarrow> string option" where
  "error_code (PlatformControlPausedError c) = Some (''platform_'' @ c @ ''_paused'')"
| "error_code (PlanAccountConflictError m) = Some ''plan_account_conflict''"
| "error_code OperatorSeatCapacityError = Some ''operator_seat_capacity_reached''"
| "error_code BillingSubscriptionRequiredError = Some ''billing_subscription_required''"
| "error_code OperatorSeatQuantityConflictError = Some ''operator_seat_quantity_below_assignments''"
| "error_code OperatorEntitlementRequiredError = Some ''operator_entitlement_required''"
| "error_code PublishedServiceLimitError = Some ''published_service_limit_reached''"
| "error_code OrganizationPublishedServiceLimitError = Some ''organization_published_service_limit_reached''"
| "error_code PublishedServiceIngressCapacityError = Some ''published_service_ingress_capacity_reached''"
| "error_code ContactRateLimitError = Some ''contact_rate_limited''"
| "error_code WorkspaceMembershipNotFoundError = Some ''workspace_membership_not_found''"
| "error_code UsageAccessDeniedError = Some ''usage_access_denied''"
| "error_code OrganizationAccessDeniedError = Some ''organization_access_denied''"
| "error_code (OrganizationMemberMutationError c m) = Some c"
| "error_code WorkerPlacementUnavailableError = Some ''worker_placement_unavailable''"
| "error_code ProvisioningJobLeaseLostError = Some ''provisioning_job_lease_lost''"
| "error_code _ = None"

text \<open>The checks on text and numbers that several components of the package share.\<close>

definition nonNegativeInteger :: "js_num \<Rightarrow> string \<Rightarrow> db_error + int" where
  "nonNegativeInteger v field =
     (if \<not> is_safe_integer v \<or> int_value v < 0
      then Inl (JsError (field @ '' must be a non-negative safe integer''))
      else Inr (int_value v))"

definition requiredUsageText :: "string \<Rightarrow> string \<Rightarrow> db_error + string" where
  "requiredUsageText v field =
     (let normalized = trim v in
      if normalized = [] then Inl (JsError (field @ '' is required'')) else Inr normalized)"

definition requiredWorkerText :: "string \<Rightarrow> string \<Rightarrow> nat \<Rightarrow> db_error + string" where
  "requiredWorkerText v field maximum =
     (let normalized = trim v in
      if normalized = [] then Inl (JsError (field @ '' is required''))
      else if length normalized > maximum then Inl (JsError (field @ '' is too long''))
      else Inr normalized)"

definition publishedServiceText :: "string \<Rightarrow> string \<Rightarrow> nat \<Rightarrow> db_error + string" where
  "publishedServiceText v field maximum =
     (let normalized = trim v in
      if normalized = [] \<or> length normalized > maximum then Inl (JsError (field @ '' is invalid''))
      else Inr normalized)"

definition emailDiagnosticText :: "string \<Rightarrow> string \<Rightarrow> nat \<Rightarrow> db_error + string" where
  "emailDiagnosticText v field maximum =
     (let normalized = trim v in
      if normalized = [] \<or> length normalized > maximum then Inl (JsError (field @ '' is invalid''))
      else Inr normalized)"

definition boundedContactText :: "string \<Rightarrow> string \<Rightarrow> nat \<Rightarrow> nat \<Rightarrow> db_error + string" where
  "boundedContactText v field minimum maximum =
     (let normalized = trim v in
      if length normalized < minimum \<or> length normalized > maximum
      then Inl (JsError (field @ '' must contain between '' @ show_nat minimum @ '' and ''
        @ show_nat maximum @ '' characters''))
      else Inr normalized)"

definition requiredStripeText :: "string \<Rightarrow> string \<Rightarrow> nat \<Rightarrow> db_error + string" where
  "requiredStripeText v field maximum =
     (let normalized = trim v in
      if normalized = [] \<or> length normalized > maximum
      then Inl (JsTypeError (field @ '' must contain between 1 and '' @ show_nat maximum @ '' characters''))
      else Inr normalized)"

definition stripeTimestamp :: "js_num \<Rightarrow> string \<Rightarrow> db_error + int" where
  "stripeTimestamp v field =
     (if \<not> is_safe_integer v \<or> int_value v < 0
      then Inl (JsTypeError (field @ '' must be a non-negative safe integer''))
      else Inr (int_value v))"

definition is_audit_char :: "char \<Rightarrow> bool" where
  "is_audit_char c \<longleftrightarrow> is_lower_letter c \<or> is_upper_letter c \<or> is_digit c \<or> c \<in> set ''._:-''"

text \<open>\<open>auditIdentifierPattern\<close>: \<open>/^[a-z0-9][a-z0-9._:-]{0,127}$/i\<close>.\<close>

definition auditIdentifierPattern :: "string \<Rightarrow> bool" where
  "auditIdentifierPattern s \<longleftrightarrow>
     s \<noteq> [] \<and> length s \<le> 128
     \<and> (is_lower_letter (hd s) \<or> is_upper_letter (hd s) \<or> is_digit (hd s))
     \<and> list_all is_audit_char s"

definition requireAuditIdentifier :: "string \<Rightarrow> string \<Rightarrow> db_error + string" where
  "requireAuditIdentifier v field =
     (let normalized = trim v in
      if \<not> auditIdentifierPattern normalized
      then Inl (JsTypeError (field @ '' must be a non-empty audit identifier''))
      else Inr normalized)"

lemmas text_check_defs =
  requiredUsageText_def requiredWorkerText_def publishedServiceText_def emailDiagnosticText_def
  boundedContactText_def requiredStripeText_def requireAuditIdentifier_def

lemma nonNegativeInteger_Inr:
  "nonNegativeInteger v f = Inr n \<longleftrightarrow> v = JInt n \<and> 0 \<le> n \<and> n \<le> MAX_SAFE_INTEGER"
  by (cases v) (auto simp: nonNegativeInteger_def is_safe_int_def MAX_SAFE_INTEGER_def)

lemma stripeTimestamp_Inr:
  "stripeTimestamp v f = Inr n \<longleftrightarrow> v = JInt n \<and> 0 \<le> n \<and> n \<le> MAX_SAFE_INTEGER"
  by (cases v) (auto simp: stripeTimestamp_def is_safe_int_def MAX_SAFE_INTEGER_def)

lemma requiredStripeText_Inr:
  "requiredStripeText v f m = Inr s \<longleftrightarrow> s = trim v \<and> s \<noteq> [] \<and> length s \<le> m"
  by (auto simp: requiredStripeText_def Let_def)

lemma requiredWorkerText_Inr:
  "requiredWorkerText v f m = Inr s \<longleftrightarrow> s = trim v \<and> s \<noteq> [] \<and> length s \<le> m"
  by (auto simp: requiredWorkerText_def Let_def)

lemma requiredUsageText_Inr:
  "requiredUsageText v f = Inr s \<longleftrightarrow> s = trim v \<and> s \<noteq> []"
  by (auto simp: requiredUsageText_def Let_def)

lemma publishedServiceText_Inr:
  "publishedServiceText v f m = Inr s \<longleftrightarrow> s = trim v \<and> s \<noteq> [] \<and> length s \<le> m"
  by (auto simp: publishedServiceText_def Let_def)

lemma emailDiagnosticText_Inr:
  "emailDiagnosticText v f m = Inr s \<longleftrightarrow> s = trim v \<and> s \<noteq> [] \<and> length s \<le> m"
  by (auto simp: emailDiagnosticText_def Let_def)

lemma boundedContactText_Inr:
  "boundedContactText v f lo hi = Inr s \<longleftrightarrow> s = trim v \<and> lo \<le> length s \<and> length s \<le> hi"
  by (auto simp: boundedContactText_def Let_def)

lemma requireAuditIdentifier_Inr:
  "requireAuditIdentifier v f = Inr s \<longleftrightarrow> s = trim v \<and> auditIdentifierPattern s"
  by (auto simp: requireAuditIdentifier_def Let_def)

lemmas checked_Inr =
  nonNegativeInteger_Inr stripeTimestamp_Inr requiredStripeText_Inr requiredWorkerText_Inr
  requiredUsageText_Inr publishedServiceText_Inr emailDiagnosticText_Inr boundedContactText_Inr
  requireAuditIdentifier_Inr

end
