(* ===== verification/Quotas.thy ===== *)
theory Quotas
  imports Errors "HOL-Library.Multiset"
begin

text \<open>
  The admission limits of the publication gateways: concurrent connections
  (\<open>src/apps/control-plane/src/publicationConnectionLimiter.ts\<close>) and bytes per window
  (\<open>src/apps/control-plane/src/publicationBandwidthLimiter.ts\<close>), with the lemmas on
  fixed windows that every windowed limit of the program shares.

  The code counts with JavaScript numbers; the counters stay far below \<open>2^53\<close>, so they are integers here.
\<close>

section \<open>Fixed windows\<close>

text \<open>
  A history is the list of admitted events, each a time and a weight. A fixed window that starts at \<open>ws\<close>
  and admits at most \<open>L\<close> keeps \<open>fits\<close>; whatever two windows meet in an interval of one window length,
  the interval holds at most twice the limit.
\<close>

definition span :: "(int \<times> int) list \<Rightarrow> int \<Rightarrow> int \<Rightarrow> int" where
  "span h a b = sum_list (map snd (filter (\<lambda>e. a \<le> fst e \<and> fst e < b) h))"

definition fits :: "int \<Rightarrow> int \<Rightarrow> (int \<times> int) list \<Rightarrow> int \<Rightarrow> int \<Rightarrow> bool" where
  "fits w L h ws clock \<longleftrightarrow>
     0 < w \<and> 0 \<le> L \<and> ws \<le> clock
     \<and> (\<forall>e \<in> set h. fst e \<le> clock \<and> 0 \<le> snd e \<and> fst e < ws + w)
     \<and> span h ws (ws + w) \<le> L \<and> span h (ws - w + 1) ws \<le> L
     \<and> (\<forall>T. span h T (T + w) \<le> 2 * L)"

lemma span_Nil [simp]: "span [] a b = 0"
  by (simp add: span_def)

lemma span_Cons [simp]: "span ((t, x) # h) a b = (if a \<le> t \<and> t < b then x else 0) + span h a b"
  by (simp add: span_def)

lemma span_nonneg: "\<forall>e \<in> set h. 0 \<le> snd e \<Longrightarrow> 0 \<le> span h a b"
  by (induction h) auto

lemma span_mono:
  "\<forall>e \<in> set h. 0 \<le> snd e \<Longrightarrow> (\<And>e. e \<in> set h \<Longrightarrow> a \<le> fst e \<Longrightarrow> fst e < b \<Longrightarrow> c \<le> fst e \<and> fst e < d)
     \<Longrightarrow> span h a b \<le> span h c d"
proof (induction h)
  case (Cons e h)
  have "span h a b \<le> span h c d" using Cons.prems by (intro Cons.IH) auto
  moreover have "a \<le> fst e \<and> fst e < b \<longrightarrow> c \<le> fst e \<and> fst e < d" using Cons.prems(2) [of e] by simp
  ultimately show ?case using Cons.prems(1) by (cases e) auto
qed simp

lemma span_split: "a \<le> b \<Longrightarrow> b \<le> c \<Longrightarrow> span h a c = span h a b + span h b c"
  by (induction h) auto

lemma fits_start: "0 < w \<Longrightarrow> 0 \<le> L \<Longrightarrow> ws \<le> clock \<Longrightarrow> fits w L [] ws clock"
  by (simp add: fits_def)

lemma fits_later: "fits w L h ws clock \<Longrightarrow> clock \<le> t \<Longrightarrow> fits w L h ws t"
  by (auto simp: fits_def)

lemma fits_bound: "fits w L h ws clock \<Longrightarrow> span h T (T + w) \<le> 2 * L"
  by (simp add: fits_def)

text \<open>An expired window starts anew.\<close>

lemma fits_restart:
  assumes "fits w L h ws clock" and "clock \<le> t" and "ws + w \<le> t"
  shows "fits w L h t t"
proof -
  have h: "\<forall>e \<in> set h. 0 \<le> snd e" "\<forall>e \<in> set h. fst e < ws + w" using assms(1) by (auto simp: fits_def)
  have "span h t (t + w) \<le> span h t t" using h assms(3) by (intro span_mono) auto
  moreover have "span h t t = 0" by (induction h) auto
  moreover have "span h (t - w + 1) t \<le> span h ws (ws + w)" using h assms(3) by (intro span_mono) auto
  ultimately show ?thesis using assms h by (fastforce simp: fits_def)
qed

text \<open>An event within the running window that the limit admits.\<close>

lemma fits_admit:
  assumes "fits w L h ws clock" and "clock \<le> t" and "t < ws + w" and "0 \<le> x"
    and "span h ws (ws + w) + x \<le> L"
  shows "fits w L ((t, x) # h) ws t"
proof -
  have h: "\<forall>e \<in> set h. 0 \<le> snd e" "\<forall>e \<in> set h. fst e < ws + w" "ws \<le> t" "0 < w" "0 \<le> L"
    and before: "span h (ws - w + 1) ws \<le> L" and within: "\<forall>T. span h T (T + w) \<le> 2 * L"
    using assms(1,2) by (auto simp: fits_def)
  have "span ((t, x) # h) T (T + w) \<le> 2 * L" for T
  proof (cases "T \<le> t \<and> t < T + w")
    case True
    then have "span h T (T + w) \<le> span h (ws - w + 1) (ws + w)"
      using h by (intro span_mono) auto
    also have "\<dots> = span h (ws - w + 1) ws + span h ws (ws + w)" using h by (intro span_split) auto
    finally show ?thesis using True before assms(5) by simp
  next
    case False
    then show ?thesis using within by auto
  qed
  moreover have "\<forall>e \<in> set ((t, x) # h). fst e \<le> t \<and> 0 \<le> snd e \<and> fst e < ws + w"
    using assms(1-4) by (auto simp: fits_def)
  ultimately show ?thesis using h before assms(3,5) by (simp add: fits_def)
qed

section \<open>Connections\<close>

record connection_limits =
  cl_global :: int
  cl_perWorker :: int
  cl_perOrganization :: int
  cl_perRoute :: int

record connection_scope =
  sc_workerId :: string
  sc_organizationId :: string
  sc_routeId :: string

text \<open>
  The limiter with its counters. A lease is the closure \<open>release\<close> over its scope and its flag
  \<open>released\<close>: the leases handed out so far are a list, and a lease is its position.
\<close>

record connection_limiter =
  lm_limits :: connection_limits
  lm_global :: int
  lm_workers :: "string \<Rightarrow> int option"
  lm_organizations :: "string \<Rightarrow> int option"
  lm_routes :: "string \<Rightarrow> int option"
  lm_leases :: "(connection_scope \<times> bool) list"

definition positiveLimit :: "js_num \<Rightarrow> string \<Rightarrow> db_error + int" where
  "positiveLimit v field =
     (if \<not> is_safe_integer v \<or> int_value v < 1 then Inl (JsError (field @ '' must be a positive safe integer''))
      else Inr (int_value v))"

definition new_connection_limiter :: "js_num \<Rightarrow> js_num \<Rightarrow> js_num \<Rightarrow> js_num \<Rightarrow> db_error + connection_limiter" where
  "new_connection_limiter rawGlobal rawWorker rawOrganization rawRoute =
     sbind (positiveLimit rawGlobal ''global connection limit'') (\<lambda>g.
     sbind (positiveLimit rawWorker ''per-worker connection limit'') (\<lambda>w.
     sbind (positiveLimit rawOrganization ''per-organization connection limit'') (\<lambda>q.
     sbind (positiveLimit rawRoute ''per-route connection limit'') (\<lambda>r.
     if w > g \<or> q > g \<or> r > g
     then Inl (JsError ''Scoped publication connection limits cannot exceed the global limit'')
     else Inr \<lparr>lm_limits = \<lparr>cl_global = g, cl_perWorker = w, cl_perOrganization = q, cl_perRoute = r\<rparr>,
            lm_global = 0, lm_workers = Map.empty, lm_organizations = Map.empty, lm_routes = Map.empty,
            lm_leases = []\<rparr>))))"

definition current_count :: "(string \<Rightarrow> int option) \<Rightarrow> string \<Rightarrow> int" where
  "current_count counts key = (case counts key of None \<Rightarrow> 0 | Some c \<Rightarrow> c)"

definition tryAcquire :: "connection_scope \<Rightarrow> connection_limiter \<Rightarrow> nat option \<times> connection_limiter" where
  "tryAcquire scope lim =
     (let worker = current_count (lm_workers lim) (sc_workerId scope);
          organization = current_count (lm_organizations lim) (sc_organizationId scope);
          route = current_count (lm_routes lim) (sc_routeId scope)
      in if lm_global lim \<ge> cl_global (lm_limits lim) \<or> worker \<ge> cl_perWorker (lm_limits lim)
            \<or> organization \<ge> cl_perOrganization (lm_limits lim) \<or> route \<ge> cl_perRoute (lm_limits lim)
         then (None, lim)
         else (Some (length (lm_leases lim)), lim
           \<lparr>lm_global := lm_global lim + 1,
            lm_workers := (lm_workers lim)(sc_workerId scope \<mapsto> worker + 1),
            lm_organizations := (lm_organizations lim)(sc_organizationId scope \<mapsto> organization + 1),
            lm_routes := (lm_routes lim)(sc_routeId scope \<mapsto> route + 1),
            lm_leases := lm_leases lim @ [(scope, False)]\<rparr>))"

definition decrement :: "(string \<Rightarrow> int option) \<Rightarrow> string \<Rightarrow> string \<Rightarrow> int option" where
  "decrement counts key =
     (let remaining = (case counts key of None \<Rightarrow> 1 | Some c \<Rightarrow> c) - 1 in
      if remaining > 0 then counts(key \<mapsto> remaining) else counts(key := None))"

definition release :: "nat \<Rightarrow> connection_limiter \<Rightarrow> connection_limiter" where
  "release lease lim =
     (if lease \<ge> length (lm_leases lim) then lim
      else case lm_leases lim ! lease of (scope, released) \<Rightarrow>
        if released then lim
        else lim
          \<lparr>lm_leases := (lm_leases lim)[lease := (scope, True)],
           lm_global := lm_global lim - 1,
           lm_workers := decrement (lm_workers lim) (sc_workerId scope),
           lm_organizations := decrement (lm_organizations lim) (sc_organizationId scope),
           lm_routes := decrement (lm_routes lim) (sc_routeId scope)\<rparr>)"

subsection \<open>The limiter counts the open leases\<close>

text \<open>The abstract limiter is the multiset of the scopes of the open connections.\<close>

definition open_scopes :: "connection_limiter \<Rightarrow> connection_scope multiset" where
  "open_scopes lim = mset (map fst (filter (\<lambda>l. \<not> snd l) (lm_leases lim)))"

definition open_with :: "(connection_scope \<Rightarrow> string) \<Rightarrow> connection_scope multiset \<Rightarrow> string \<Rightarrow> nat" where
  "open_with f M k = size (filter_mset (\<lambda>s. f s = k) M)"

definition admits :: "connection_limits \<Rightarrow> connection_scope \<Rightarrow> connection_scope multiset \<Rightarrow> bool" where
  "admits limits scope M \<longleftrightarrow>
     int (size M) < cl_global limits
     \<and> int (open_with sc_workerId M (sc_workerId scope)) < cl_perWorker limits
     \<and> int (open_with sc_organizationId M (sc_organizationId scope)) < cl_perOrganization limits
     \<and> int (open_with sc_routeId M (sc_routeId scope)) < cl_perRoute limits"

definition within_limits :: "connection_limits \<Rightarrow> connection_scope multiset \<Rightarrow> bool" where
  "within_limits limits M \<longleftrightarrow>
     int (size M) \<le> cl_global limits
     \<and> (\<forall>k. int (open_with sc_workerId M k) \<le> cl_perWorker limits)
     \<and> (\<forall>k. int (open_with sc_organizationId M k) \<le> cl_perOrganization limits)
     \<and> (\<forall>k. int (open_with sc_routeId M k) \<le> cl_perRoute limits)"

definition counts_of :: "(connection_scope \<Rightarrow> string) \<Rightarrow> connection_scope multiset \<Rightarrow> string \<Rightarrow> int option" where
  "counts_of f M k = (if open_with f M k = 0 then None else Some (int (open_with f M k)))"

definition limiter_inv :: "connection_limiter \<Rightarrow> bool" where
  "limiter_inv lim \<longleftrightarrow>
     lm_global lim = int (size (open_scopes lim))
     \<and> lm_workers lim = counts_of sc_workerId (open_scopes lim)
     \<and> lm_organizations lim = counts_of sc_organizationId (open_scopes lim)
     \<and> lm_routes lim = counts_of sc_routeId (open_scopes lim)
     \<and> within_limits (lm_limits lim) (open_scopes lim)"

lemma open_with_add [simp]:
  "open_with f (add_mset s M) k = open_with f M k + (if f s = k then 1 else 0)"
  by (simp add: open_with_def)

lemma open_with_remove:
  assumes "s \<in># M"
  shows "open_with f (M - {#s#}) k = open_with f M k - (if f s = k then 1 else 0)"
proof -
  have "open_with f M k = open_with f (add_mset s (M - {#s#})) k" using assms by simp
  then show ?thesis unfolding open_with_add by simp
qed

lemma open_with_pos:
  assumes "s \<in># M"
  shows "0 < open_with f M (f s)"
proof -
  have "open_with f M (f s) = open_with f (add_mset s (M - {#s#})) (f s)" using assms by simp
  then show ?thesis unfolding open_with_add by simp
qed

lemma current_count_of [simp]: "current_count (counts_of f M) k = int (open_with f M k)"
  by (simp add: current_count_def counts_of_def)

lemma counts_of_add: "(counts_of f M)(f s \<mapsto> int (open_with f M (f s)) + 1) = counts_of f (add_mset s M)"
  by (auto simp: counts_of_def)

lemma decrement_counts:
  assumes "s \<in># M"
  shows "decrement (counts_of f M) (f s) = counts_of f (M - {#s#})"
  using open_with_pos [OF assms, of f]
  by (auto simp: decrement_def counts_of_def open_with_remove [OF assms] Let_def)

lemma within_limits_remove:
  assumes "within_limits limits M"
  shows "within_limits limits (M - {#s#})"
proof -
  have "open_with f (M - {#s#}) k \<le> open_with f M k" for f k
    unfolding open_with_def by (intro size_mset_mono multiset_filter_mono) simp
  moreover have "size (M - {#s#}) \<le> size M" by (simp add: size_mset_mono)
  ultimately show ?thesis
    using assms unfolding within_limits_def by (meson le_trans of_nat_mono order.trans)
qed

lemma within_limits_add: "within_limits limits M \<Longrightarrow> admits limits s M \<Longrightarrow> within_limits limits (add_mset s M)"
  by (auto simp: within_limits_def admits_def)

lemma open_scopes_release:
  assumes "i < length (lm_leases lim)" and "lm_leases lim ! i = (s, False)"
  shows "s \<in># open_scopes lim"
    and "mset (map fst (filter (\<lambda>l. \<not> snd l) ((lm_leases lim)[i := (s, True)]))) = open_scopes lim - {#s#}"
proof -
  have split: "lm_leases lim = take i (lm_leases lim) @ (s, False) # drop (Suc i) (lm_leases lim)"
    using id_take_nth_drop [OF assms(1)] assms(2) by simp
  show "s \<in># open_scopes lim" unfolding open_scopes_def by (subst split) simp
  show "mset (map fst (filter (\<lambda>l. \<not> snd l) ((lm_leases lim)[i := (s, True)]))) = open_scopes lim - {#s#}"
    unfolding upd_conv_take_nth_drop [OF assms(1)] open_scopes_def by (subst (3) split) simp
qed

text \<open>The two operations of the code do to the counters what the abstract ones do to the multiset.\<close>

lemma tryAcquire_refines:
  assumes "limiter_inv lim" and "tryAcquire scope lim = (r, lim')"
  shows "limiter_inv lim'" and "lm_limits lim' = lm_limits lim"
    and "if admits (lm_limits lim) scope (open_scopes lim)
      then r = Some (length (lm_leases lim)) \<and> open_scopes lim' = add_mset scope (open_scopes lim)
      else r = None \<and> lim' = lim"
proof -
  have guard: "\<not> (lm_global lim \<ge> cl_global (lm_limits lim)
      \<or> current_count (lm_workers lim) (sc_workerId scope) \<ge> cl_perWorker (lm_limits lim)
      \<or> current_count (lm_organizations lim) (sc_organizationId scope) \<ge> cl_perOrganization (lm_limits lim)
      \<or> current_count (lm_routes lim) (sc_routeId scope) \<ge> cl_perRoute (lm_limits lim))
    \<longleftrightarrow> admits (lm_limits lim) scope (open_scopes lim)"
    using assms(1) by (auto simp: limiter_inv_def admits_def)
  have "limiter_inv lim' \<and> lm_limits lim' = lm_limits lim \<and> (if admits (lm_limits lim) scope (open_scopes lim)
      then r = Some (length (lm_leases lim)) \<and> open_scopes lim' = add_mset scope (open_scopes lim)
      else r = None \<and> lim' = lim)"
  proof (cases "admits (lm_limits lim) scope (open_scopes lim)")
    case False
    with guard assms show ?thesis by (auto simp: tryAcquire_def Let_def)
  next
    case True
    with guard have "tryAcquire scope lim = (Some (length (lm_leases lim)), lim
           \<lparr>lm_global := lm_global lim + 1,
            lm_workers := (lm_workers lim)(sc_workerId scope \<mapsto> current_count (lm_workers lim) (sc_workerId scope) + 1),
            lm_organizations := (lm_organizations lim)(sc_organizationId scope
               \<mapsto> current_count (lm_organizations lim) (sc_organizationId scope) + 1),
            lm_routes := (lm_routes lim)(sc_routeId scope \<mapsto> current_count (lm_routes lim) (sc_routeId scope) + 1),
            lm_leases := lm_leases lim @ [(scope, False)]\<rparr>)"
      by (simp add: tryAcquire_def Let_def)
    moreover have "open_scopes lim' = add_mset scope (open_scopes lim)"
      using calculation assms(2) by (auto simp: open_scopes_def)
    ultimately show ?thesis
      using assms True by (auto simp: limiter_inv_def counts_of_add within_limits_add)
  qed
  then show "limiter_inv lim'" "lm_limits lim' = lm_limits lim"
    "if admits (lm_limits lim) scope (open_scopes lim)
      then r = Some (length (lm_leases lim)) \<and> open_scopes lim' = add_mset scope (open_scopes lim)
      else r = None \<and> lim' = lim" by blast+
qed

lemma release_refines:
  assumes "limiter_inv lim"
  shows "limiter_inv (release i lim)" and "lm_limits (release i lim) = lm_limits lim"
    and "i < length (lm_leases lim) \<Longrightarrow> lm_leases lim ! i = (s, False) \<Longrightarrow>
      open_scopes (release i lim) = open_scopes lim - {#s#}"
    and "i \<ge> length (lm_leases lim) \<or> snd (lm_leases lim ! i) \<Longrightarrow> release i lim = lim"
proof -
  show idle: "i \<ge> length (lm_leases lim) \<or> snd (lm_leases lim ! i) \<Longrightarrow> release i lim = lim"
    by (auto simp: release_def split: prod.splits)
  have live: "open_scopes (release i lim) = open_scopes lim - {#s#} \<and> limiter_inv (release i lim)
      \<and> lm_limits (release i lim) = lm_limits lim"
    if "i < length (lm_leases lim)" "lm_leases lim ! i = (s, False)" for s
  proof -
    note freed = open_scopes_release [OF that]
    have run: "release i lim = lim
          \<lparr>lm_leases := (lm_leases lim)[i := (s, True)],
           lm_global := lm_global lim - 1,
           lm_workers := decrement (lm_workers lim) (sc_workerId s),
           lm_organizations := decrement (lm_organizations lim) (sc_organizationId s),
           lm_routes := decrement (lm_routes lim) (sc_routeId s)\<rparr>"
      using that by (simp add: release_def)
    then have opened: "open_scopes (release i lim) = open_scopes lim - {#s#}"
      using freed(2) by (simp add: open_scopes_def)
    have "size (open_scopes lim - {#s#}) = size (open_scopes lim) - 1" "0 < size (open_scopes lim)"
      using freed(1) by (auto simp: size_Diff_singleton nonempty_has_size [symmetric])
    with opened run assms freed(1) show ?thesis
      by (simp add: limiter_inv_def decrement_counts within_limits_remove)
  qed
  show "i < length (lm_leases lim) \<Longrightarrow> lm_leases lim ! i = (s, False) \<Longrightarrow>
      open_scopes (release i lim) = open_scopes lim - {#s#}" using live by blast
  show "limiter_inv (release i lim)" "lm_limits (release i lim) = lm_limits lim"
    using live idle assms by (cases "i < length (lm_leases lim)"; cases "lm_leases lim ! i"; force)+
qed

inductive limiter_step :: "connection_limiter \<Rightarrow> connection_limiter \<Rightarrow> bool" where
  acquire: "tryAcquire scope lim = (r, lim') \<Longrightarrow> limiter_step lim lim'"
| let_go: "limiter_step lim (release i lim)"

interpretation limiter: invariant_system limiter_step "\<lambda>lim. limiter_inv lim \<and> lm_limits lim = limits" for limits
proof
  fix s t
  assume "limiter_step s t" and "limiter_inv s \<and> lm_limits s = limits"
  then show "limiter_inv t \<and> lm_limits t = limits"
    by cases (auto dest: tryAcquire_refines(1,2) simp: release_refines)
qed

subsection \<open>Who holds which lease\<close>

lemma acquire_leases:
  "tryAcquire sc lim = (r, lim') \<Longrightarrow>
     (r = None \<and> lim' = lim) \<or> (r = Some (length (lm_leases lim)) \<and> lm_leases lim' = lm_leases lim @ [(sc, False)])"
  by (auto simp: tryAcquire_def Let_def split: if_splits)

lemma release_leases:
  "lm_leases (release l lim) =
     (if l < length (lm_leases lim) then (lm_leases lim)[l := (fst (lm_leases lim ! l), True)] else lm_leases lim)"
  using list_update_id [of "lm_leases lim" l] by (cases "lm_leases lim ! l") (auto simp: release_def)

text \<open>A gateway's view of its leases: the scope and lease of each of its connections, and whether it gave the lease back.\<close>

definition leases_held :: "(connection_scope \<times> nat \<times> bool) list \<Rightarrow> connection_limiter \<Rightarrow> bool" where
  "leases_held hs lim \<longleftrightarrow>
     distinct (map (fst \<circ> snd) hs)
     \<and> (\<forall>h \<in> set hs. fst (snd h) < length (lm_leases lim) \<and> lm_leases lim ! fst (snd h) = (fst h, snd (snd h)))"

lemma leases_held_Nil [simp]: "leases_held [] lim"
  by (simp add: leases_held_def)

lemma leases_held_acquire:
  assumes "tryAcquire sc lim = (r, lim')" and "leases_held hs lim"
  shows "leases_held hs lim'" and "r = Some l \<Longrightarrow> leases_held (hs @ [(sc, l, False)]) lim'"
  using assms(2) acquire_leases [OF assms(1)] by (auto simp: leases_held_def nth_append)

lemma leases_held_elsewhere:
  "leases_held hs lim \<Longrightarrow> l \<notin> fst ` snd ` set hs \<Longrightarrow> leases_held hs (release l lim)"
  by (auto simp: leases_held_def release_leases nth_list_update image_iff)

lemma leases_held_release:
  assumes "leases_held hs lim" and "i < length hs" and "hs ! i = (sc, l, f)"
  shows "leases_held (hs[i := (sc, l, True)]) (release l lim)"
proof -
  have own: "l < length (lm_leases lim)" "lm_leases lim ! l = (sc, f)"
    using assms nth_mem [OF assms(2)] by (auto simp: leases_held_def)
  have "map (fst \<circ> snd) (hs[i := (sc, l, True)]) = map (fst \<circ> snd) hs"
    using assms(2,3) by (simp add: map_update list_update_same_conv)
  moreover have "fst (snd h) < length (lm_leases (release l lim))
      \<and> lm_leases (release l lim) ! fst (snd h) = (fst h, snd (snd h))" if h: "h \<in> set (hs[i := (sc, l, True)])" for h
  proof -
    from h obtain j where j: "j < length hs" "h = hs[i := (sc, l, True)] ! j" by (auto simp: in_set_conv_nth)
    show ?thesis
    proof (cases "j = i")
      case True
      with j own show ?thesis by (simp add: release_leases)
    next
      case False
      with j assms have "h \<in> set hs" "h = hs ! j" by simp_all
      moreover have "fst (snd (hs ! j)) \<noteq> fst (snd (hs ! i))"
        using assms(1,2) j(1) False by (auto simp: leases_held_def distinct_conv_nth)
      then have "fst (snd (hs ! j)) \<noteq> l" using assms(3) by simp
      ultimately show ?thesis using own assms(1) by (simp add: leases_held_def release_leases)
    qed
  qed
  ultimately show ?thesis using assms(1) by (simp add: leases_held_def)
qed

lemma new_limiter_inv:
  "new_connection_limiter a b c d = Inr lim \<Longrightarrow> limiter_inv lim \<and> open_scopes lim = {#}"
  by (auto simp: new_connection_limiter_def positiveLimit_def limiter_inv_def open_scopes_def counts_of_def
      open_with_def within_limits_def split: if_splits)

section \<open>Bytes\<close>

record bandwidth_limits =
  bl_windowMs :: int
  bl_globalBytes :: int
  bl_perWorkerBytes :: int
  bl_perOrganizationBytes :: int
  bl_perRouteBytes :: int

type_synonym byte_counters = "string \<Rightarrow> (int \<times> int) option"

text \<open>A counter is its window's start and its bytes.\<close>

record bandwidth_limiter =
  bw_limits :: bandwidth_limits
  bw_global :: byte_counters
  bw_workers :: byte_counters
  bw_organizations :: byte_counters
  bw_routes :: byte_counters

definition positiveInteger :: "js_num \<Rightarrow> string \<Rightarrow> db_error + int" where
  "positiveInteger v field =
     (if \<not> is_safe_integer v \<or> int_value v < 1 then Inl (JsError (field @ '' must be a positive safe integer''))
      else Inr (int_value v))"

definition new_bandwidth_limiter :: "js_num \<Rightarrow> js_num \<Rightarrow> js_num \<Rightarrow> js_num \<Rightarrow> js_num \<Rightarrow> db_error + bandwidth_limiter" where
  "new_bandwidth_limiter rawWindow rawGlobal rawWorker rawOrganization rawRoute =
     sbind (positiveInteger rawWindow ''bandwidth window'') (\<lambda>windowMs.
     sbind (positiveInteger rawGlobal ''global bandwidth limit'') (\<lambda>g.
     sbind (positiveInteger rawWorker ''per-worker bandwidth limit'') (\<lambda>w.
     sbind (positiveInteger rawOrganization ''per-organization bandwidth limit'') (\<lambda>q.
     sbind (positiveInteger rawRoute ''per-route bandwidth limit'') (\<lambda>r.
     Inr \<lparr>bw_limits = \<lparr>bl_windowMs = windowMs, bl_globalBytes = g, bl_perWorkerBytes = w,
            bl_perOrganizationBytes = q, bl_perRouteBytes = r\<rparr>,
          bw_global = Map.empty, bw_workers = Map.empty, bw_organizations = Map.empty, bw_routes = Map.empty\<rparr>)))))"

text \<open>\<open>#value\<close> reads a counter and drops it when its window is over.\<close>

definition counter_value :: "int \<Rightarrow> byte_counters \<Rightarrow> string \<Rightarrow> int \<Rightarrow> int \<times> byte_counters" where
  "counter_value windowMs counters key now =
     (case counters key of
        None \<Rightarrow> (0, counters)
      | Some (startedAt, bytes) \<Rightarrow>
          if now - startedAt \<ge> windowMs then (0, counters(key := None)) else (bytes, counters))"

definition counter_add :: "int \<Rightarrow> byte_counters \<Rightarrow> string \<Rightarrow> int \<Rightarrow> int \<Rightarrow> byte_counters" where
  "counter_add windowMs counters key now bytes =
     (case counter_value windowMs counters key now of
        (current, cs) \<Rightarrow>
          cs(key \<mapsto> (if current = 0 then now else case cs key of None \<Rightarrow> now | Some (startedAt, _) \<Rightarrow> startedAt,
             current + bytes)))"

text \<open>The conjunction stops at the first limit that refuses, so the later counters are not even read.\<close>

definition canConsume :: "connection_scope \<Rightarrow> js_num \<Rightarrow> int \<Rightarrow> bandwidth_limiter \<Rightarrow> bool \<times> bandwidth_limiter" where
  "canConsume scope bytes now b =
     (let w = bl_windowMs (bw_limits b); n = int_value bytes in
      if \<not> is_safe_integer bytes \<or> n < 0 then (False, b)
      else case counter_value w (bw_global b) ''global'' now of (vg, cg) \<Rightarrow>
        (let b1 = b\<lparr>bw_global := cg\<rparr> in
         if \<not> vg + n \<le> bl_globalBytes (bw_limits b) then (False, b1)
         else case counter_value w (bw_workers b) (sc_workerId scope) now of (vw, cw) \<Rightarrow>
           (let b2 = b1\<lparr>bw_workers := cw\<rparr> in
            if \<not> vw + n \<le> bl_perWorkerBytes (bw_limits b) then (False, b2)
            else case counter_value w (bw_organizations b) (sc_organizationId scope) now of (vq, cq) \<Rightarrow>
              (let b3 = b2\<lparr>bw_organizations := cq\<rparr> in
               if \<not> vq + n \<le> bl_perOrganizationBytes (bw_limits b) then (False, b3)
               else case counter_value w (bw_routes b) (sc_routeId scope) now of (vr, cr) \<Rightarrow>
                 (vr + n \<le> bl_perRouteBytes (bw_limits b), b3\<lparr>bw_routes := cr\<rparr>)))))"

text \<open>The clock is read twice: once by \<open>canConsume\<close> and once for the additions.\<close>

definition tryConsume :: "connection_scope \<Rightarrow> js_num \<Rightarrow> int \<Rightarrow> int \<Rightarrow> bandwidth_limiter \<Rightarrow> bool \<times> bandwidth_limiter"
where
  "tryConsume scope bytes now now' b =
     (case canConsume scope bytes now b of
        (allowed, b1) \<Rightarrow>
          if \<not> allowed then (False, b1)
          else if int_value bytes = 0 then (True, b1)
          else let w = bl_windowMs (bw_limits b1); n = int_value bytes in
            (True, b1\<lparr>bw_global := counter_add w (bw_global b1) ''global'' now' n,
               bw_workers := counter_add w (bw_workers b1) (sc_workerId scope) now' n,
               bw_organizations := counter_add w (bw_organizations b1) (sc_organizationId scope) now' n,
               bw_routes := counter_add w (bw_routes b1) (sc_routeId scope) now' n\<rparr>))"

subsection \<open>What a window lets through\<close>

text \<open>
  The counters of one dimension against the bytes admitted per key: a stored counter is the sum of its
  window, a missing one says that the last window is over.
\<close>

definition stored_bytes :: "byte_counters \<Rightarrow> string \<Rightarrow> int" where
  "stored_bytes cs k = (case cs k of None \<Rightarrow> 0 | Some (_, b) \<Rightarrow> b)"

definition counts_window :: "int \<Rightarrow> int \<Rightarrow> (int \<times> int) option \<Rightarrow> (int \<times> int) list \<Rightarrow> int \<Rightarrow> int \<Rightarrow> bool" where
  "counts_window w L c h ws clock \<longleftrightarrow>
     fits w L h ws clock
     \<and> (case c of None \<Rightarrow> ws + w \<le> clock
        | Some (started, bytes) \<Rightarrow> started = ws \<and> bytes = span h ws (ws + w) \<and> 0 < bytes)"

definition dimension_inv :: "int \<Rightarrow> int \<Rightarrow> byte_counters \<Rightarrow> (string \<Rightarrow> (int \<times> int) list) \<Rightarrow> int \<Rightarrow> bool" where
  "dimension_inv w L cs h clock \<longleftrightarrow> (\<forall>k. \<exists>ws. counts_window w L (cs k) (h k) ws clock)"

lemma counts_window_later: "counts_window w L c h ws clock \<Longrightarrow> clock \<le> now \<Longrightarrow> counts_window w L c h ws now"
  by (auto simp: counts_window_def intro: fits_later split: option.splits)

lemma dimension_later: "dimension_inv w L cs h clock \<Longrightarrow> clock \<le> now \<Longrightarrow> dimension_inv w L cs h now"
  unfolding dimension_inv_def by (blast intro: counts_window_later)

lemma dimension_start: "0 < w \<Longrightarrow> 0 \<le> L \<Longrightarrow> dimension_inv w L Map.empty (\<lambda>_. []) clock"
  unfolding dimension_inv_def counts_window_def
  by (auto intro!: exI [of _ "clock - w"] fits_start)

text \<open>Reading a counter.\<close>

lemma counter_value_stored:
  "counter_value w cs k now = (v, cs') \<Longrightarrow> stored_bytes cs' k = v"
  by (auto simp: counter_value_def stored_bytes_def split: option.splits if_splits)

lemma counter_value_le:
  assumes "dimension_inv w L cs h clock" and "counter_value w cs k now = (v, cs')"
  shows "v \<le> stored_bytes cs k"
proof -
  from assms(1) obtain ws where "counts_window w L (cs k) (h k) ws clock" by (auto simp: dimension_inv_def)
  with assms(2) show ?thesis
    by (auto simp: counter_value_def stored_bytes_def counts_window_def split: option.splits if_splits)
qed

lemma counter_value_window:
  assumes "dimension_inv w L cs h clock" and "clock \<le> now" and "counter_value w cs k now = (v, cs')"
  shows "dimension_inv w L cs' h now"
    and "v = 0 \<longleftrightarrow> cs' k = None" and "\<And>s b. cs' k = Some (s, b) \<Longrightarrow> now < s + w"
proof -
  from assms(1) obtain ws where ws: "counts_window w L (cs k) (h k) ws clock" by (auto simp: dimension_inv_def)
  have "\<exists>ws. counts_window w L (cs' x) (h x) ws now" for x
  proof (cases "x = k")
    case True
    from ws assms(2,3) have "counts_window w L (cs' k) (h k) ws now"
      by (auto simp: counter_value_def counts_window_def intro: fits_later split: option.splits if_splits)
    with True show ?thesis by blast
  next
    case False
    with assms(3) have "cs' x = cs x" by (auto simp: counter_value_def split: option.splits if_splits)
    with dimension_later [OF assms(1,2)] show ?thesis by (simp add: dimension_inv_def)
  qed
  then show "dimension_inv w L cs' h now" by (simp add: dimension_inv_def)
  show "v = 0 \<longleftrightarrow> cs' k = None" "\<And>s b. cs' k = Some (s, b) \<Longrightarrow> now < s + w"
    using ws assms(3) by (auto simp: counter_value_def counts_window_def split: option.splits if_splits)
qed

lemma span_restart:
  assumes "fits w L h ws clock" and "ws + w \<le> t"
  shows "span h t (t + w) = 0"
proof -
  have h: "\<forall>e \<in> set h. 0 \<le> snd e" "\<forall>e \<in> set h. fst e < ws + w" using assms(1) by (auto simp: fits_def)
  have "span h t (t + w) \<le> span h t t" using h assms(2) by (intro span_mono) auto
  moreover have "span h t t = 0" by (induction h) auto
  ultimately show ?thesis using span_nonneg [OF h(1)] by (metis antisym)
qed

text \<open>Adding what fits below the limit.\<close>

lemma counter_add_window:
  assumes "dimension_inv w L cs h clock" and "clock \<le> now" and "0 < n" and "stored_bytes cs k + n \<le> L"
  shows "dimension_inv w L (counter_add w cs k now n) (h(k := (now, n) # h k)) now"
proof -
  obtain v cs' where got: "counter_value w cs k now = (v, cs')" by fastforce
  note read = counter_value_window [OF assms(1,2) got]
  have small: "v + n \<le> L" using counter_value_le [OF assms(1) got] assms(4) by simp
  from read(1) obtain ws where ws: "counts_window w L (cs' k) (h k) ws now" by (auto simp: dimension_inv_def)
  have "\<exists>ws. counts_window w L (counter_add w cs k now n k) ((now, n) # h k) ws now"
  proof (cases "cs' k")
    case None
    with ws have old: "fits w L (h k) ws now" "ws + w \<le> now" by (simp_all add: counts_window_def)
    have "0 < w" using old(1) by (simp add: fits_def)
    moreover have "v = 0" using None read(2) by simp
    moreover note empty = span_restart [OF old]
    ultimately have "fits w L ((now, n) # h k) now now"
      using fits_restart [OF old(1) order_refl old(2)] small assms(3) by (intro fits_admit) auto
    then show ?thesis
      using got \<open>v = 0\<close> \<open>0 < w\<close> assms(3) empty
      by (intro exI [of _ now]) (simp add: counter_add_def counts_window_def)
  next
    case (Some c)
    obtain s b where c: "cs' k = Some (s, b)" using Some by (cases c) simp
    with ws have old: "fits w L (h k) ws now" "s = ws" "b = span (h k) ws (ws + w)" "0 < b"
      by (simp_all add: counts_window_def)
    have "now < ws + w" using read(3) [OF c] old(2) by simp
    moreover have "v = b" using counter_value_stored [OF got] c by (simp add: stored_bytes_def)
    moreover have "ws \<le> now" using old(1) by (simp add: fits_def)
    moreover have "fits w L ((now, n) # h k) ws now"
      using fits_admit [OF old(1) order_refl, of n] calculation old(3) small assms(3) by simp
    ultimately show ?thesis
      using got c old assms(3) by (intro exI [of _ ws]) (simp add: counter_add_def counts_window_def)
  qed
  moreover have "counter_add w cs k now n x = cs' x" if "x \<noteq> k" for x
    using that got by (simp add: counter_add_def)
  ultimately show ?thesis using read(1) by (auto simp: dimension_inv_def)
qed

text \<open>The bytes admitted so far, and their part of one key of a dimension.\<close>

type_synonym admitted = "(int \<times> connection_scope \<times> int) list"

definition spent :: "(connection_scope \<Rightarrow> string) \<Rightarrow> admitted \<Rightarrow> string \<Rightarrow> (int \<times> int) list" where
  "spent f acc k = map (\<lambda>(t, s, n). (t, n)) (filter (\<lambda>(t, s, n). f s = k) acc)"

lemma spent_Cons: "spent f ((t, s, n) # acc) = (spent f acc)(f s := (t, n) # spent f acc (f s))"
  by (auto simp: spent_def)

definition bandwidth_inv :: "bandwidth_limiter \<Rightarrow> admitted \<Rightarrow> int \<Rightarrow> bool" where
  "bandwidth_inv b acc clock \<longleftrightarrow>
     dimension_inv (bl_windowMs (bw_limits b)) (bl_globalBytes (bw_limits b)) (bw_global b)
       (spent (\<lambda>_. ''global'') acc) clock
     \<and> dimension_inv (bl_windowMs (bw_limits b)) (bl_perWorkerBytes (bw_limits b)) (bw_workers b)
       (spent sc_workerId acc) clock
     \<and> dimension_inv (bl_windowMs (bw_limits b)) (bl_perOrganizationBytes (bw_limits b)) (bw_organizations b)
       (spent sc_organizationId acc) clock
     \<and> dimension_inv (bl_windowMs (bw_limits b)) (bl_perRouteBytes (bw_limits b)) (bw_routes b)
       (spent sc_routeId acc) clock"

lemma canConsume_keeps:
  assumes "canConsume scope bytes now b = (allowed, b')" and "bandwidth_inv b acc clock" and "clock \<le> now"
  shows "bandwidth_inv b' acc now \<and> bw_limits b' = bw_limits b"
    and "allowed \<Longrightarrow> 0 \<le> int_value bytes
      \<and> stored_bytes (bw_global b') ''global'' + int_value bytes \<le> bl_globalBytes (bw_limits b)
      \<and> stored_bytes (bw_workers b') (sc_workerId scope) + int_value bytes \<le> bl_perWorkerBytes (bw_limits b)
      \<and> stored_bytes (bw_organizations b') (sc_organizationId scope) + int_value bytes \<le> bl_perOrganizationBytes (bw_limits b)
      \<and> stored_bytes (bw_routes b') (sc_routeId scope) + int_value bytes \<le> bl_perRouteBytes (bw_limits b)"
proof -
  let ?w = "bl_windowMs (bw_limits b)"
  obtain vg cg where g: "counter_value ?w (bw_global b) ''global'' now = (vg, cg)" by fastforce
  obtain vw cw where w: "counter_value ?w (bw_workers b) (sc_workerId scope) now = (vw, cw)" by fastforce
  obtain vq cq where q: "counter_value ?w (bw_organizations b) (sc_organizationId scope) now = (vq, cq)" by fastforce
  obtain vr cr where r: "counter_value ?w (bw_routes b) (sc_routeId scope) now = (vr, cr)" by fastforce
  have inv: "dimension_inv ?w (bl_globalBytes (bw_limits b)) (bw_global b) (spent (\<lambda>_. ''global'') acc) clock"
    "dimension_inv ?w (bl_perWorkerBytes (bw_limits b)) (bw_workers b) (spent sc_workerId acc) clock"
    "dimension_inv ?w (bl_perOrganizationBytes (bw_limits b)) (bw_organizations b) (spent sc_organizationId acc) clock"
    "dimension_inv ?w (bl_perRouteBytes (bw_limits b)) (bw_routes b) (spent sc_routeId acc) clock"
    using assms(2) by (simp_all add: bandwidth_inv_def)
  note later = inv [THEN dimension_later, OF assms(3)]
  note read = counter_value_window(1) [OF inv(1) assms(3) g] counter_value_window(1) [OF inv(2) assms(3) w]
    counter_value_window(1) [OF inv(3) assms(3) q] counter_value_window(1) [OF inv(4) assms(3) r]
  show "bandwidth_inv b' acc now \<and> bw_limits b' = bw_limits b"
    using assms(1) later read by (auto simp: canConsume_def g w q r Let_def bandwidth_inv_def split: if_splits)
  show "allowed \<Longrightarrow> 0 \<le> int_value bytes
      \<and> stored_bytes (bw_global b') ''global'' + int_value bytes \<le> bl_globalBytes (bw_limits b)
      \<and> stored_bytes (bw_workers b') (sc_workerId scope) + int_value bytes \<le> bl_perWorkerBytes (bw_limits b)
      \<and> stored_bytes (bw_organizations b') (sc_organizationId scope) + int_value bytes \<le> bl_perOrganizationBytes (bw_limits b)
      \<and> stored_bytes (bw_routes b') (sc_routeId scope) + int_value bytes \<le> bl_perRouteBytes (bw_limits b)"
    using assms(1) counter_value_stored [OF g] counter_value_stored [OF w] counter_value_stored [OF q]
      counter_value_stored [OF r]
    by (auto simp: canConsume_def g w q r Let_def split: if_splits)
qed

lemma tryConsume_keeps:
  assumes "tryConsume scope bytes now now' b = (ok, b')" and "bandwidth_inv b acc clock" and "clock \<le> now" and "now \<le> now'"
  shows "bandwidth_inv b' (if ok \<and> int_value bytes \<noteq> 0 then (now', scope, int_value bytes) # acc else acc) now'
    \<and> bw_limits b' = bw_limits b"
proof -
  obtain allowed b1 where can: "canConsume scope bytes now b = (allowed, b1)" by fastforce
  note kept = canConsume_keeps(1) [OF can assms(2,3)]
  then have later: "bandwidth_inv b1 acc now'"
    using assms(4) unfolding bandwidth_inv_def by (blast intro: dimension_later)
  show ?thesis
  proof (cases "allowed \<and> int_value bytes \<noteq> 0")
    case False
    with assms(1) can kept later show ?thesis by (auto simp: tryConsume_def split: if_splits)
  next
    case True
    with canConsume_keeps(2) [OF can assms(2,3)] have "0 < int_value bytes" by simp
    with True canConsume_keeps(2) [OF can assms(2,3)] kept assms(1,4) can show ?thesis
      by (auto simp: tryConsume_def Let_def bandwidth_inv_def spent_Cons intro: counter_add_window)
  qed
qed

text \<open>The calls of the gateways under a clock that does not go back, with the bytes they admitted.\<close>

inductive bandwidth_step ::
  "bandwidth_limiter \<times> admitted \<times> int \<Rightarrow> bandwidth_limiter \<times> admitted \<times> int \<Rightarrow> bool"
where
  peek: "canConsume scope bytes now b = (r, b') \<Longrightarrow> clock \<le> now \<Longrightarrow> bandwidth_step (b, acc, clock) (b', acc, now)"
| consume: "tryConsume scope bytes now now' b = (ok, b') \<Longrightarrow> clock \<le> now \<Longrightarrow> now \<le> now' \<Longrightarrow>
     bandwidth_step (b, acc, clock)
       (b', if ok \<and> int_value bytes \<noteq> 0 then (now', scope, int_value bytes) # acc else acc, now')"

interpretation bandwidth: invariant_system bandwidth_step
  "\<lambda>(b, acc, clock). bandwidth_inv b acc clock \<and> bw_limits b = limits" for limits
proof
  fix s t
  assume "bandwidth_step s t" and inv: "case s of (b, acc, clock) \<Rightarrow> bandwidth_inv b acc clock \<and> bw_limits b = limits"
  then show "case t of (b, acc, clock) \<Rightarrow> bandwidth_inv b acc clock \<and> bw_limits b = limits"
  proof cases
    case (peek scope bytes now b r b' clock acc)
    then show ?thesis using canConsume_keeps(1) [OF peek(3) _ peek(4)] inv by auto
  next
    case (consume scope bytes now now' b ok b' clock acc)
    then show ?thesis using tryConsume_keeps [OF consume(3) _ consume(4,5)] inv by auto
  qed
qed

lemma spent_Nil: "spent f [] = (\<lambda>_. [])"
  by (rule ext) (simp add: spent_def)

lemma new_bandwidth_inv:
  "new_bandwidth_limiter w g wk q r = Inr b \<Longrightarrow> bandwidth_inv b [] clock"
  by (auto simp: new_bandwidth_limiter_def positiveInteger_def bandwidth_inv_def spent_Nil
      intro!: dimension_start split: if_splits)

lemma dimension_bound: "dimension_inv w L cs h clock \<Longrightarrow> span (h k) T (T + w) \<le> 2 * L"
  unfolding dimension_inv_def counts_window_def by (meson fits_bound)

section \<open>Properties\<close>

text \<open>C16: The counters of the connection limiter are a faithful implementation of the set of open connections: in
  every state it reaches the open connections respect all four limits, an acquisition succeeds exactly when
  one more connection respects them and then opens it, and a lease closes its own connection, once.\<close>

theorem connection_limiter_refines:
  assumes "new_connection_limiter a b c d = Inr start" and "limiter_step\<^sup>*\<^sup>* start lim"
  shows "within_limits (lm_limits start) (open_scopes lim)
    \<and> (case tryAcquire scope lim of (r, lim') \<Rightarrow>
         (r \<noteq> None \<longleftrightarrow> admits (lm_limits start) scope (open_scopes lim))
         \<and> open_scopes lim' = (if r = None then open_scopes lim else add_mset scope (open_scopes lim)))
    \<and> open_scopes (release i lim) =
         (if i < length (lm_leases lim) \<and> \<not> snd (lm_leases lim ! i)
          then open_scopes lim - {#fst (lm_leases lim ! i)#} else open_scopes lim)"
proof -
  from limiter.run_inv [OF assms(2), of "lm_limits start"] new_limiter_inv [OF assms(1)]
  have inv: "limiter_inv lim" and lims: "lm_limits lim = lm_limits start" by simp_all
  obtain r lim' where run: "tryAcquire scope lim = (r, lim')" by fastforce
  have "open_scopes (release i lim) = (if i < length (lm_leases lim) \<and> \<not> snd (lm_leases lim ! i)
          then open_scopes lim - {#fst (lm_leases lim ! i)#} else open_scopes lim)"
    using release_refines(3) [OF inv, of i "fst (lm_leases lim ! i)"] release_refines(4) [OF inv, of i]
    by (cases "lm_leases lim ! i") auto
  with inv run tryAcquire_refines(3) [OF inv run] show ?thesis
    by (auto simp: limiter_inv_def lims split: if_splits)
qed

text \<open>Whatever traffic is offered, no interval of the length of a window carries more than twice the configured
  bytes, for the whole service, for a worker, for an organization and for a route.\<close>

theorem bandwidth_bounded:
  assumes "new_bandwidth_limiter w g wk q r = Inr start" and "bandwidth_step\<^sup>*\<^sup>* (start, [], clock) (b, acc, now)"
  shows "span (spent (\<lambda>_. ''global'') acc ''global'') T (T + int_value w) \<le> 2 * int_value g
    \<and> span (spent sc_workerId acc k) T (T + int_value w) \<le> 2 * int_value wk
    \<and> span (spent sc_organizationId acc k) T (T + int_value w) \<le> 2 * int_value q
    \<and> span (spent sc_routeId acc k) T (T + int_value w) \<le> 2 * int_value r"
proof -
  have "bandwidth_inv b acc now \<and> bw_limits b = bw_limits start"
    using bandwidth.run_inv [OF assms(2), of "bw_limits start"] new_bandwidth_inv [OF assms(1)] by simp
  moreover have "bw_limits start = \<lparr>bl_windowMs = int_value w, bl_globalBytes = int_value g,
      bl_perWorkerBytes = int_value wk, bl_perOrganizationBytes = int_value q, bl_perRouteBytes = int_value r\<rparr>"
    using assms(1) by (auto simp: new_bandwidth_limiter_def positiveInteger_def split: if_splits)
  ultimately have "dimension_inv (int_value w) (int_value g) (bw_global b) (spent (\<lambda>_. ''global'') acc) now"
    "dimension_inv (int_value w) (int_value wk) (bw_workers b) (spent sc_workerId acc) now"
    "dimension_inv (int_value w) (int_value q) (bw_organizations b) (spent sc_organizationId acc) now"
    "dimension_inv (int_value w) (int_value r) (bw_routes b) (spent sc_routeId acc) now"
    by (auto simp: bandwidth_inv_def)
  from this [THEN dimension_bound] show ?thesis by blast
qed

section \<open>The properties on concrete limits\<close>

definition sample_limits :: connection_limiter where
  "sample_limits = \<lparr>lm_limits = \<lparr>cl_global = 4, cl_perWorker = 4, cl_perOrganization = 4, cl_perRoute = 4\<rparr>,
     lm_global = 0, lm_workers = Map.empty, lm_organizations = Map.empty, lm_routes = Map.empty, lm_leases = []\<rparr>"

definition sample_bandwidth :: bandwidth_limiter where
  "sample_bandwidth = \<lparr>bw_limits = \<lparr>bl_windowMs = 10, bl_globalBytes = 5, bl_perWorkerBytes = 5,
     bl_perOrganizationBytes = 5, bl_perRouteBytes = 5\<rparr>,
     bw_global = Map.empty, bw_workers = Map.empty, bw_organizations = Map.empty, bw_routes = Map.empty\<rparr>"

lemma sample_limiter: "\<exists>start. new_connection_limiter (JInt 2) (JInt 2) (JInt 2) (JInt 1) = Inr start
  \<and> lm_limits start = \<lparr>cl_global = 2, cl_perWorker = 2, cl_perOrganization = 2, cl_perRoute = 1\<rparr>"
  by (simp add: new_connection_limiter_def positiveLimit_def is_safe_int_def MAX_SAFE_INTEGER_def)

theorem connection_limiter_refines_witness:
  "\<exists>start. new_connection_limiter (JInt 2) (JInt 2) (JInt 2) (JInt 1) = Inr start
     \<and> fst (tryAcquire \<lparr>sc_workerId = ''w'', sc_organizationId = ''o'', sc_routeId = ''r''\<rparr> start) \<noteq> None"
proof -
  let ?sc = "\<lparr>sc_workerId = ''w'', sc_organizationId = ''o'', sc_routeId = ''r''\<rparr>"
  obtain start where new: "new_connection_limiter (JInt 2) (JInt 2) (JInt 2) (JInt 1) = Inr start"
    and lims: "lm_limits start = \<lparr>cl_global = 2, cl_perWorker = 2, cl_perOrganization = 2, cl_perRoute = 1\<rparr>"
    using sample_limiter by blast
  have "admits (lm_limits start) ?sc (open_scopes start)"
    using new_limiter_inv [OF new] by (simp add: lims admits_def open_with_def)
  with connection_limiter_refines [OF new rtranclp.rtrancl_refl, of ?sc 0] new show ?thesis
    by (cases "tryAcquire ?sc start") auto
qed

theorem bandwidth_bounded_witness:
  "\<exists>start b. new_bandwidth_limiter (JInt 10) (JInt 5) (JInt 5) (JInt 5) (JInt 5) = Inr start
     \<and> bandwidth_step (start, [], 0) (b, [(3, \<lparr>sc_workerId = ''w'', sc_organizationId = ''o'', sc_routeId = ''r''\<rparr>, 4)], 3)
     \<and> span [(3, 4)] 0 10 \<le> 2 * 5"
proof -
  let ?sc = "\<lparr>sc_workerId = ''w'', sc_organizationId = ''o'', sc_routeId = ''r''\<rparr>"
  have "\<exists>start b. new_bandwidth_limiter (JInt 10) (JInt 5) (JInt 5) (JInt 5) (JInt 5) = Inr start
      \<and> tryConsume ?sc (JInt 4) 2 3 start = (True, b)"
    by (simp add: new_bandwidth_limiter_def positiveInteger_def is_safe_int_def MAX_SAFE_INTEGER_def tryConsume_def
        canConsume_def counter_value_def Let_def)
  then obtain start b where new: "new_bandwidth_limiter (JInt 10) (JInt 5) (JInt 5) (JInt 5) (JInt 5) = Inr start"
    and run: "tryConsume ?sc (JInt 4) 2 3 start = (True, b)" by blast
  from bandwidth_step.consume [OF run, of 0 "[]"] have step: "bandwidth_step (start, [], 0) (b, [(3, ?sc, 4)], 3)" by simp
  then have "bandwidth_step\<^sup>*\<^sup>* (start, [], 0) (b, [(3, ?sc, 4)], 3)" by blast
  from bandwidth_bounded [OF new this, of 0 "''r''"] have "span [(3, 4)] 0 10 \<le> 2 * 5" by (simp add: spent_def)
  with new step show ?thesis by blast
qed

end
