(* ===== verification/Sqlite.thy ===== *)
theory Sqlite
  imports Errors
begin

text \<open>
  The part of SQLite the database package uses: a table is the list of its rows in rowid
  order, a schema is the list of its \<open>CHECK\<close> constraints and of its \<open>PRIMARY KEY\<close> and
  \<open>UNIQUE\<close> keys (a key with a \<open>NULL\<close> column, or one outside a partial index, is \<open>None\<close>
  and never collides). \<open>INSERT\<close> and \<open>UPDATE\<close> raise the constraint they break and change
  nothing. Foreign keys and triggers involve several tables and are added by the
  operations that write them.
\<close>

section \<open>Rows, schemas, statements\<close>

datatype sql_value = SText string | SInt int

record 'r schema =
  checks :: "(string \<times> ('r \<Rightarrow> bool)) list"
  uniques :: "(string \<times> ('r \<Rightarrow> sql_value list option)) list"

definition failed_check :: "'r schema \<Rightarrow> 'r \<Rightarrow> string option" where
  "failed_check sc r = map_option fst (find (\<lambda>c. \<not> snd c r) (checks sc))"

definition collides :: "('r \<Rightarrow> sql_value list option) \<Rightarrow> 'r \<Rightarrow> 'r \<Rightarrow> bool" where
  "collides k r x \<longleftrightarrow> k r \<noteq> None \<and> k r = k x"

definition failed_unique :: "'r schema \<Rightarrow> 'r \<Rightarrow> 'r list \<Rightarrow> string option" where
  "failed_unique sc r rows = map_option fst (find (\<lambda>u. list_ex (collides (snd u) r) rows) (uniques sc))"

definition row_error :: "'r schema \<Rightarrow> 'r \<Rightarrow> 'r list \<Rightarrow> db_error option" where
  "row_error sc r others =
     (case failed_check sc r of
        Some n \<Rightarrow> Some (SqliteCheck n)
      | None \<Rightarrow> map_option SqliteUnique (failed_unique sc r others))"

definition sql_insert :: "'r schema \<Rightarrow> 'r \<Rightarrow> 'r list \<Rightarrow> db_error + 'r list" where
  "sql_insert sc r rows = (case row_error sc r rows of Some e \<Rightarrow> Inl e | None \<Rightarrow> Inr (rows @ [r]))"

text \<open>\<open>UPDATE \<dots> SET f WHERE p\<close> rewrites the selected rows one after the other.\<close>

fun sql_update_from ::
  "'r schema \<Rightarrow> ('r \<Rightarrow> bool) \<Rightarrow> ('r \<Rightarrow> 'r) \<Rightarrow> 'r list \<Rightarrow> 'r list \<Rightarrow> db_error + 'r list"
where
  "sql_update_from sc p f done [] = Inr done"
| "sql_update_from sc p f done (r # rest) =
     (if p r
      then (case row_error sc (f r) (done @ rest) of
              Some e \<Rightarrow> Inl e
            | None \<Rightarrow> sql_update_from sc p f (done @ [f r]) rest)
      else sql_update_from sc p f (done @ [r]) rest)"

definition sql_update ::
  "'r schema \<Rightarrow> ('r \<Rightarrow> bool) \<Rightarrow> ('r \<Rightarrow> 'r) \<Rightarrow> 'r list \<Rightarrow> db_error + 'r list"
where
  "sql_update sc p f rows = sql_update_from sc p f [] rows"

definition row_ok :: "'r schema \<Rightarrow> 'r \<Rightarrow> bool" where
  "row_ok sc r \<longleftrightarrow> failed_check sc r = None"

definition distinct_key :: "('r \<Rightarrow> sql_value list option) \<Rightarrow> 'r list \<Rightarrow> bool" where
  "distinct_key k rows \<longleftrightarrow> distinct (List.map_filter k rows)"

definition schema_ok :: "'r schema \<Rightarrow> 'r list \<Rightarrow> bool" where
  "schema_ok sc rows \<longleftrightarrow>
     (\<forall>r \<in> set rows. row_ok sc r) \<and> (\<forall>u \<in> set (uniques sc). distinct_key (snd u) rows)"

section \<open>What the statements keep\<close>

lemma map_filter_append [simp]: "List.map_filter f (xs @ ys) = List.map_filter f xs @ List.map_filter f ys"
  by (simp add: List.map_filter_def)

lemma map_filter_Cons:
  "List.map_filter f (x # xs) = (case f x of None \<Rightarrow> [] | Some y \<Rightarrow> [y]) @ List.map_filter f xs"
  by (auto simp: List.map_filter_def split: option.split)

lemma map_filter_Nil [simp]: "List.map_filter f [] = []"
  by (simp add: List.map_filter_def)

lemma set_map_filter: "set (List.map_filter f xs) = {y. \<exists>x \<in> set xs. f x = Some y}"
  by (force simp: List.map_filter_def)

lemma failed_check_None: "failed_check sc r = None \<longleftrightarrow> (\<forall>c \<in> set (checks sc). snd c r)"
  unfolding failed_check_def by (metis (no_types, lifting) find_None_iff option.map_disc_iff)

lemma row_ok_iff: "row_ok sc r \<longleftrightarrow> (\<forall>c \<in> set (checks sc). snd c r)"
  by (simp add: row_ok_def failed_check_None)

lemma failed_unique_None:
  "failed_unique sc r rows = None \<longleftrightarrow> (\<forall>u \<in> set (uniques sc). \<forall>x \<in> set rows. \<not> collides (snd u) r x)"
  by (auto simp: failed_unique_def find_None_iff list_ex_iff)

lemma row_error_None:
  "row_error sc r others = None \<longleftrightarrow>
     row_ok sc r \<and> (\<forall>u \<in> set (uniques sc). \<forall>x \<in> set others. \<not> collides (snd u) r x)"
  by (auto simp: row_error_def row_ok_def failed_unique_None[symmetric] split: option.splits)

lemma sql_insert_Inr:
  "sql_insert sc r rows = Inr rows' \<longleftrightarrow> row_error sc r rows = None \<and> rows' = rows @ [r]"
  by (auto simp: sql_insert_def split: option.splits)

lemma sql_insert_Inl: "sql_insert sc r rows = Inl e \<longleftrightarrow> row_error sc r rows = Some e"
  by (auto simp: sql_insert_def split: option.splits)

lemma distinct_key_insert:
  assumes "distinct_key k (xs @ ys)" and "\<forall>x \<in> set (xs @ ys). \<not> collides k r x"
  shows "distinct_key k (xs @ r # ys)"
proof (cases "k r")
  case None
  with assms(1) show ?thesis by (simp add: distinct_key_def map_filter_Cons)
next
  case (Some v)
  with assms(2) have "k x \<noteq> Some v" if "x \<in> set (xs @ ys)" for x
    using that by (metis collides_def option.distinct(1))
  then have "v \<notin> set (List.map_filter k (xs @ ys))"
    unfolding set_map_filter by blast
  with Some assms(1) show ?thesis
    by (auto simp: distinct_key_def map_filter_Cons)
qed

lemma distinct_key_remove: "distinct_key k (xs @ r # ys) \<Longrightarrow> distinct_key k (xs @ ys)"
  by (auto simp: distinct_key_def map_filter_Cons split: option.splits)

lemma schema_ok_insert:
  assumes "schema_ok sc rows" and "sql_insert sc r rows = Inr rows'"
  shows "schema_ok sc rows'"
proof -
  from assms(2) have "row_ok sc r"
    and free: "\<forall>u \<in> set (uniques sc). \<forall>x \<in> set rows. \<not> collides (snd u) r x" and "rows' = rows @ [r]"
    by (auto simp: sql_insert_Inr row_error_None)
  moreover have "distinct_key (snd u) (rows @ [r])" if "u \<in> set (uniques sc)" for u
    using that assms(1) free distinct_key_insert [of "snd u" rows "[]" r] by (simp add: schema_ok_def)
  ultimately show ?thesis using assms(1) by (auto simp: schema_ok_def)
qed

lemma schema_ok_append: "schema_ok sc rows \<Longrightarrow> row_error sc r rows = None \<Longrightarrow> schema_ok sc (rows @ [r])"
  by (rule schema_ok_insert) (simp_all add: sql_insert_Inr)

lemma schema_ok_replace:
  assumes "schema_ok sc (xs @ r # ys)" and "row_error sc r' (xs @ ys) = None"
  shows "schema_ok sc (xs @ r' # ys)"
proof -
  have "distinct_key (snd u) (xs @ r' # ys)" if "u \<in> set (uniques sc)" for u
  proof (rule distinct_key_insert)
    show "distinct_key (snd u) (xs @ ys)"
      using that assms(1) by (auto simp: schema_ok_def intro: distinct_key_remove)
    show "\<forall>x \<in> set (xs @ ys). \<not> collides (snd u) r' x"
      using that assms(2) by (simp add: row_error_None)
  qed
  with assms show ?thesis by (auto simp: schema_ok_def row_error_None)
qed

lemma schema_ok_update_from:
  "sql_update_from sc p f done rest = Inr rows' \<Longrightarrow> schema_ok sc (done @ rest) \<Longrightarrow> schema_ok sc rows'"
proof (induction sc p f "done" rest rule: sql_update_from.induct)
  case (1 sc p f "done")
  then show ?case by simp
next
  case (2 sc p f "done" r rest)
  show ?case
  proof (cases "p r")
    case True
    with "2.prems"(1) have "row_error sc (f r) (done @ rest) = None"
      and "sql_update_from sc p f (done @ [f r]) rest = Inr rows'"
      by (auto split: option.splits)
    with 2 True show ?thesis by (simp add: schema_ok_replace)
  next
    case False
    with 2 show ?thesis by simp
  qed
qed

lemma schema_ok_update:
  "schema_ok sc rows \<Longrightarrow> sql_update sc p f rows = Inr rows' \<Longrightarrow> schema_ok sc rows'"
  using schema_ok_update_from [of sc p f "[]" rows] by (simp add: sql_update_def)

lemma sql_update_from_Inr:
  "sql_update_from sc p f done rest = Inr rows' \<Longrightarrow> rows' = done @ map (\<lambda>r. if p r then f r else r) rest"
  by (induction sc p f "done" rest rule: sql_update_from.induct) (auto split: if_splits option.splits)

text \<open>A successful \<open>UPDATE\<close> is a map over the rows.\<close>

lemma sql_update_Inr:
  "sql_update sc p f rows = Inr rows' \<Longrightarrow> rows' = map (\<lambda>r. if p r then f r else r) rows"
  by (auto simp: sql_update_def dest: sql_update_from_Inr)

lemma sql_update_none:
  "\<forall>r \<in> set rows. \<not> p r \<Longrightarrow> sql_update sc p f rows = Inr rows"
proof -
  have "\<forall>r \<in> set rest. \<not> p r \<Longrightarrow> sql_update_from sc p f d rest = Inr (d @ rest)" for d rest
    by (induction rest arbitrary: d) auto
  then show "\<forall>r \<in> set rows. \<not> p r \<Longrightarrow> sql_update sc p f rows = Inr rows"
    by (simp add: sql_update_def)
qed

text \<open>
  An update that keeps or drops every key and whose rows pass the checks cannot fail on a table
  that satisfies its schema.
\<close>

lemma sql_update_from_ok:
  assumes "\<And>r. r \<in> set rest \<Longrightarrow> p r \<Longrightarrow> row_ok sc (f r)"
    and "\<And>r u. r \<in> set rest \<Longrightarrow> p r \<Longrightarrow> u \<in> set (uniques sc) \<Longrightarrow>
        snd u (f r) = snd u r \<or> snd u (f r) = None"
    and "schema_ok sc (d @ rest)"
  shows "sql_update_from sc p f d rest = Inr (d @ map (\<lambda>r. if p r then f r else r) rest)"
  using assms
proof (induction rest arbitrary: d)
  case Nil
  then show ?case by simp
next
  case (Cons r rest)
  show ?case
  proof (cases "p r")
    case True
    have "\<not> collides (snd u) (f r) x" if "u \<in> set (uniques sc)" and "x \<in> set (d @ rest)" for u x
    proof -
      have "distinct_key (snd u) (d @ r # rest)"
        using Cons.prems(3) that(1) by (simp add: schema_ok_def)
      moreover have "snd u (f r) = snd u r \<or> snd u (f r) = None" using Cons.prems(2) True that(1) by simp
      ultimately show ?thesis
        using that(2) by (auto simp: distinct_key_def map_filter_Cons collides_def set_map_filter
            split: option.splits)
    qed
    with Cons.prems(1) True have none: "row_error sc (f r) (d @ rest) = None"
      by (simp add: row_error_None)
    with Cons.prems(3) have "schema_ok sc ((d @ [f r]) @ rest)"
      by (simp add: schema_ok_replace)
    with Cons.prems(1,2) have "sql_update_from sc p f (d @ [f r]) rest
        = Inr ((d @ [f r]) @ map (\<lambda>r. if p r then f r else r) rest)"
      by (intro Cons.IH) auto
    with True none show ?thesis by simp
  next
    case False
    have "sql_update_from sc p f (d @ [r]) rest
        = Inr ((d @ [r]) @ map (\<lambda>r. if p r then f r else r) rest)"
      using Cons.prems by (intro Cons.IH) auto
    with False show ?thesis by simp
  qed
qed

lemma sql_update_ok:
  assumes "\<And>r. r \<in> set rows \<Longrightarrow> p r \<Longrightarrow> row_ok sc (f r)"
    and "\<And>r u. r \<in> set rows \<Longrightarrow> p r \<Longrightarrow> u \<in> set (uniques sc) \<Longrightarrow>
        snd u (f r) = snd u r \<or> snd u (f r) = None"
    and "schema_ok sc rows"
  shows "sql_update sc p f rows = Inr (map (\<lambda>r. if p r then f r else r) rows)"
  using sql_update_from_ok [of rows p sc f "[]"] assms by (simp add: sql_update_def)

lemma schema_ok_filter: "schema_ok sc rows \<Longrightarrow> schema_ok sc (filter p rows)"
proof -
  have "distinct_key k (filter p xs)" if "distinct_key k xs" for k xs
    using that
    by (induction xs) (auto simp: distinct_key_def map_filter_Cons set_map_filter split: option.splits)
  then show "schema_ok sc rows \<Longrightarrow> schema_ok sc (filter p rows)"
    by (auto simp: schema_ok_def)
qed

lemma schema_ok_Nil [simp]: "schema_ok sc []"
  by (simp add: schema_ok_def distinct_key_def)

lemma schema_ok_single [simp]: "schema_ok sc [r] = row_ok sc r"
  by (auto simp: schema_ok_def distinct_key_def map_filter_Cons split: option.splits)

text \<open>Two rows of a table that agree on a key are the same row.\<close>

lemma distinct_key_inj:
  "distinct_key k rows \<Longrightarrow> r \<in> set rows \<Longrightarrow> x \<in> set rows \<Longrightarrow> k r = Some v \<Longrightarrow> k x = Some v \<Longrightarrow> r = x"
proof (induction rows)
  case Nil
  then show ?case by simp
next
  case (Cons y rows)
  have "v \<in> set (List.map_filter k rows)" if "z \<in> set rows" "k z = Some v" for z
    using that by (auto simp: set_map_filter)
  with Cons show ?case
    by (auto simp: distinct_key_def map_filter_Cons split: option.splits)
qed

lemma schema_ok_same_key:
  assumes "schema_ok sc rows" and "u \<in> set (uniques sc)"
    and "r \<in> set rows" and "x \<in> set rows" and "snd u r = Some v" and "snd u x = Some v"
  shows "r = x"
  using assms by (auto simp: schema_ok_def intro: distinct_key_inj [of "snd u"])

text \<open>A key that no row lacks is distinct along the table.\<close>

lemma schema_ok_distinct:
  assumes "schema_ok sc rows" and "u \<in> set (uniques sc)" and "\<And>r. snd u r = Some (g (c r))"
  shows "distinct (map c rows)"
proof -
  have "List.map_filter (snd u) rows = map (\<lambda>r. g (c r)) rows"
    using assms(3) by (simp add: List.map_filter_def comp_def)
  then have "distinct (map (\<lambda>r. g (c r)) rows)"
    using assms(1,2) by (auto simp: schema_ok_def distinct_key_def)
  then show ?thesis by (auto simp: distinct_map inj_on_def)
qed

section \<open>Tables of a database\<close>

text \<open>
  A table of a database state is a pair of a reading and a writing function. The statements
  on it are operations: a broken constraint is thrown and leaves the state as it was.
  An \<open>UPDATE\<close> returns the number of rows it selected, \<open>result.changes\<close>.
\<close>

definition insert_into ::
  "('s \<Rightarrow> 'r list) \<Rightarrow> ('r list \<Rightarrow> 's \<Rightarrow> 's) \<Rightarrow> 'r schema \<Rightarrow> 'r \<Rightarrow> ('s, db_error, unit) operation"
where
  "insert_into get put sc r s =
     (case sql_insert sc r (get s) of
        Inl e \<Rightarrow> (Inl e, s)
      | Inr rows \<Rightarrow> (Inr (), put rows s))"

definition update_in ::
  "('s \<Rightarrow> 'r list) \<Rightarrow> ('r list \<Rightarrow> 's \<Rightarrow> 's) \<Rightarrow> 'r schema \<Rightarrow> ('r \<Rightarrow> bool) \<Rightarrow> ('r \<Rightarrow> 'r)
     \<Rightarrow> ('s, db_error, nat) operation"
where
  "update_in get put sc p f s =
     (case sql_update sc p f (get s) of
        Inl e \<Rightarrow> (Inl e, s)
      | Inr rows \<Rightarrow> (Inr (length (filter p (get s))), put rows s))"

text \<open>
  \<open>INSERT \<dots> ON CONFLICT(key) DO UPDATE SET f WHERE newer\<close>: the \<open>CHECK\<close>s of the offered row
  come first, then the conflict on the key, then the other keys; \<open>result.changes\<close> is
  \<open>0\<close> when the condition of the update rejects it.
\<close>

definition upsert_in ::
  "('s \<Rightarrow> 'r list) \<Rightarrow> ('r list \<Rightarrow> 's \<Rightarrow> 's) \<Rightarrow> 'r schema \<Rightarrow> ('r \<Rightarrow> 'k) \<Rightarrow> 'r \<Rightarrow> ('r \<Rightarrow> bool)
     \<Rightarrow> ('r \<Rightarrow> 'r) \<Rightarrow> ('s, db_error, nat) operation"
where
  "upsert_in get put sc key new newer f =
     obind (olift (case failed_check sc new of Some n \<Rightarrow> Inl (SqliteCheck n) | None \<Rightarrow> Inr ())) (\<lambda>_.
     obind (oget (\<lambda>s. find (\<lambda>r. key r = key new) (get s))) (\<lambda>conflict.
     case conflict of
       None \<Rightarrow> obind (insert_into get put sc new) (\<lambda>_. oreturn 1)
     | Some _ \<Rightarrow> update_in get put sc (\<lambda>r. key r = key new \<and> newer r) f))"

locale sql_table =
  fixes get :: "'s \<Rightarrow> 'r list"
    and put :: "'r list \<Rightarrow> 's \<Rightarrow> 's"
    and sc :: "'r schema"
  assumes get_put: "get (put rows s) = rows"
    and put_get: "put (get s) s = s"
begin

lemma insert_Inr:
  "insert_into get put sc r s = (Inr u, t) \<longleftrightarrow>
     row_error sc r (get s) = None \<and> t = put (get s @ [r]) s"
  by (auto simp: insert_into_def sql_insert_def split: option.splits)

lemma insert_Inl:
  "insert_into get put sc r s = (Inl e, t) \<longleftrightarrow> row_error sc r (get s) = Some e \<and> t = s"
  by (auto simp: insert_into_def sql_insert_def split: option.splits)

lemma insert_rows: "insert_into get put sc r s = (Inr u, t) \<Longrightarrow> get t = get s @ [r]"
  by (simp add: insert_Inr get_put)

lemma update_Inr:
  "update_in get put sc p f s = (Inr n, t) \<Longrightarrow>
     n = length (filter p (get s)) \<and> t = put (map (\<lambda>r. if p r then f r else r) (get s)) s"
  by (auto simp: update_in_def dest!: sql_update_Inr split: sum.splits)

lemma update_Inl: "update_in get put sc p f s = (Inl e, t) \<Longrightarrow> t = s"
  by (auto simp: update_in_def split: sum.splits)

lemma update_rows:
  "update_in get put sc p f s = (Inr n, t) \<Longrightarrow> get t = map (\<lambda>r. if p r then f r else r) (get s)"
  by (auto dest!: update_Inr simp: get_put)

lemma insert_keeps_schema: "keeps (\<lambda>s. schema_ok sc (get s)) (insert_into get put sc r)"
  by (auto simp: keeps_def insert_into_def get_put intro: schema_ok_insert split: sum.splits)

lemma update_keeps_schema: "keeps (\<lambda>s. schema_ok sc (get s)) (update_in get put sc p f)"
  by (auto simp: keeps_def update_in_def get_put intro: schema_ok_update split: sum.splits)

text \<open>A statement on this table keeps whatever does not read it.\<close>

lemma insert_keeps_other:
  "(\<And>rows s. I (put rows s) = I s) \<Longrightarrow> keeps I (insert_into get put sc r)"
  by (auto simp: keeps_def insert_into_def split: sum.splits)

lemma update_keeps_other:
  "(\<And>rows s. I (put rows s) = I s) \<Longrightarrow> keeps I (update_in get put sc p f)"
  by (auto simp: keeps_def update_in_def split: sum.splits)

lemma update_ok:
  assumes "schema_ok sc (get s)"
    and "\<And>r. r \<in> set (get s) \<Longrightarrow> p r \<Longrightarrow> row_ok sc (f r)"
    and "\<And>r u. r \<in> set (get s) \<Longrightarrow> p r \<Longrightarrow> u \<in> set (uniques sc) \<Longrightarrow>
        snd u (f r) = snd u r \<or> snd u (f r) = None"
  shows "update_in get put sc p f s =
    (Inr (length (filter p (get s))), put (map (\<lambda>r. if p r then f r else r) (get s)) s)"
  using sql_update_ok [of "get s" p sc f] assms by (simp add: update_in_def)

lemma upsert_keeps_schema: "keeps (\<lambda>s. schema_ok sc (get s)) (upsert_in get put sc key new newer f)"
  unfolding upsert_in_def by (intro keeps_intro insert_keeps_schema update_keeps_schema)

lemma upsert_keeps_other:
  "(\<And>rows s. I (put rows s) = I s) \<Longrightarrow> keeps I (upsert_in get put sc key new newer f)"
  unfolding upsert_in_def by (intro keeps_intro insert_keeps_other update_keeps_other)

lemma upsert_Inl: "upsert_in get put sc key new newer f s = (Inl e, t) \<Longrightarrow> t = s"
  by (auto simp: upsert_in_def obind_eq_Inl operation_defs insert_Inl
      split: option.splits dest: update_Inl)

lemma upsert_Inr:
  assumes "upsert_in get put sc key new newer f s = (Inr n, t)"
  shows "(find (\<lambda>r. key r = key new) (get s) = None \<and> n = 1 \<and> t = put (get s @ [new]) s
        \<and> row_error sc new (get s) = None)
    \<or> (find (\<lambda>r. key r = key new) (get s) \<noteq> None
        \<and> n = length (filter (\<lambda>r. key r = key new \<and> newer r) (get s))
        \<and> t = put (map (\<lambda>r. if key r = key new \<and> newer r then f r else r) (get s)) s)"
  using assms
  by (auto simp: upsert_in_def insert_Inr split: option.splits dest!: update_Inr)

lemma upsert_check:
  "failed_check sc new = Some n \<Longrightarrow> upsert_in get put sc key new newer f s = (Inl (SqliteCheck n), s)"
  by (simp add: upsert_in_def operation_defs)

end

end
