(* ===== verification/Schema.thy ===== *)
theory Schema
  imports Sqlite
begin

text \<open>
  The tables of the cloud database: one record per row type with the columns of the
  \<open>CREATE TABLE\<close> statements of \<open>packages/database/src/index.ts\<close> (later \<open>ALTER TABLE\<close>
  columns included), one schema per table with its \<open>CHECK\<close> constraints and keys, and the
  database state, the record of all tables. A column whose \<open>CHECK (c IN (...))\<close> lists its
  values has an enumeration type instead; flags stay the integers \<open>0\<close> and \<open>1\<close> they are.
  The tables \<open>user\<close>, \<open>organization\<close>, \<open>member\<close> and \<open>invitation\<close> belong to Better Auth; only
  the columns the package reads are kept.
\<close>

section \<open>Enumerations\<close>

datatype workspace_state = WsPending | WsProvisioning | WsReady | WsStopped | WsFailed

datatype job_status = JobQueued | JobRunning | JobSucceeded | JobFailed

datatype worker_state = WorkerUnknown | WorkerHealthy | WorkerDraining | WorkerUnavailable

datatype platform_control_name = Ctl_provisioning | Ctl_workspace_start | Ctl_publication

datatype plan_account_type = AccIndividual | AccOrganization

datatype nubols_plan = PlanIndividual | PlanTeam | PlanBusiness | PlanEnterprise

datatype email_kind =
  MailVerification | MailPasswordReset | MailOrganizationInvitation | MailContactNotification

datatype email_status =
  MailSending | MailSent | MailDelivered | MailDelayed | MailBounced | MailComplained
  | MailSuppressed | MailFailed

datatype usage_outcome = UsageSuccess | UsageError | UsageCancelled

datatype entitlement_state = EntPending | EntActive | EntGrace | EntSuspended | EntRevoked

datatype entitlement_source = SrcBeta | SrcStripe | SrcAdmin

datatype stripe_result = StripePending | StripeApplied | StripeIgnored | StripeFailed

datatype payment_state = PayCurrent | PayGrace | PayDelinquent

datatype audit_result = AuditSuccess | AuditFailure

datatype contact_topic = TopicSales | TopicSupport | TopicSecurity | TopicPartnerships | TopicOther

datatype contact_status = ContactNew | ContactContacted | ContactQualified | ContactClosed

datatype contact_notification = NotifyPending | NotifySent | NotifyFailed

datatype service_state = ServiceActive | ServiceRevoked

datatype service_protocol = ProtoHttp | ProtoTcp

datatype service_visibility = VisPublic | VisPrivate

datatype service_auth = AuthNone | AuthToken

datatype rate_scope = ScopeIp | ScopeAddress

text \<open>A finite number in audit metadata is its decimal text.\<close>

datatype audit_value = MetaString string | MetaNumber string | MetaNonFinite | MetaBool bool | MetaNull

section \<open>Rows\<close>

subsection \<open>Tables of Better Auth\<close>

record user_row =
  us_id :: string
  us_name :: string
  us_email :: string

record organization_row =
  og_id :: string
  og_name :: string
  og_slug :: string

record member_row =
  mb_id :: string
  mb_organizationId :: string
  mb_userId :: string
  mb_role :: string
  mb_createdAt :: int

record invitation_row =
  iv_id :: string
  iv_email :: string
  iv_role :: "string option"
  iv_status :: string
  iv_expiresAt :: js_num
  iv_organizationId :: string

subsection \<open>Workspaces, workers and provisioning\<close>

record workspace_row =
  ws_id :: string
  ws_member_id :: string
  ws_organization_id :: string
  ws_worker_workspace_id :: "string option"
  ws_worker_host_id :: "string option"
  ws_reserved_memory_bytes :: int
  ws_reserved_cpu_millis :: int
  ws_reserved_disk_bytes :: int
  ws_reserved_workspace_slots :: int
  ws_state :: workspace_state
  ws_created_at :: int
  ws_updated_at :: int

record worker_host_row =
  wh_id :: string
  wh_name :: string
  wh_provider :: string
  wh_region :: string
  wh_base_url :: string
  wh_credential_key_id :: string
  wh_enabled :: int
  wh_schedulable :: int
  wh_state :: worker_state
  wh_total_memory_bytes :: int
  wh_reserved_memory_bytes :: int
  wh_total_cpu_millis :: int
  wh_reserved_cpu_millis :: int
  wh_total_disk_bytes :: int
  wh_reserved_disk_bytes :: int
  wh_total_workspace_slots :: int
  wh_reserved_workspace_slots :: int
  wh_last_heartbeat_at :: "int option"
  wh_last_error_code :: "string option"
  wh_created_at :: int
  wh_updated_at :: int

record worker_health_sample_row =
  hs_id :: nat
  hs_worker_host_id :: string
  hs_observed_at :: int
  hs_state :: worker_state
  hs_reserved_memory_bytes :: int
  hs_reserved_cpu_millis :: int
  hs_reserved_disk_bytes :: int
  hs_reserved_workspace_slots :: int
  hs_error_code :: "string option"
  hs_total_memory_bytes :: int
  hs_total_cpu_millis :: int
  hs_total_disk_bytes :: int
  hs_total_workspace_slots :: int

record provisioning_job_row =
  pj_id :: string
  pj_workspace_id :: string
  pj_status :: job_status
  pj_attempt :: int
  pj_available_at :: int
  pj_lease_owner :: "string option"
  pj_lease_expires_at :: "int option"
  pj_error_code :: "string option"
  pj_error_message :: "string option"
  pj_created_at :: int
  pj_updated_at :: int
  pj_completed_at :: "int option"

subsection \<open>Usage and audit\<close>

record usage_event_row =
  ue_event_id :: string
  ue_organization_id :: string
  ue_membership_id :: string
  ue_workspace_id :: string
  ue_session_id :: string
  ue_session_display_name :: "string option"
  ue_agent_id :: "string option"
  ue_provider :: string
  ue_model :: string
  ue_input_tokens :: int
  ue_output_tokens :: int
  ue_cached_tokens :: int
  ue_reasoning_tokens :: int
  ue_estimated_cost_microusd :: int
  ue_cache_savings_microusd :: int
  ue_duration_ms :: "int option"
  ue_outcome :: usage_outcome
  ue_occurred_at :: int
  ue_received_at :: int

record audit_event_row =
  ae_event_id :: string
  ae_organization_id :: string
  ae_actor_user_id :: string
  ae_action :: string
  ae_target_type :: string
  ae_target_id :: string
  ae_result :: audit_result
  ae_source_ip_hash :: "string option"
  ae_metadata :: "(string \<times> audit_value) list"
  ae_occurred_at :: int

subsection \<open>Organizations\<close>

record join_code_row =
  jc_organization_id :: string
  jc_lookup_key :: string
  jc_created_by :: string
  jc_created_at :: int
  jc_updated_at :: int

record member_state_row =
  ms_member_id :: string
  ms_disabled :: int
  ms_disabled_by :: "string option"
  ms_disabled_at :: "int option"
  ms_updated_at :: int

record plan_account_row =
  pa_id :: string
  pa_account_type :: plan_account_type
  pa_plan :: nubols_plan
  pa_owner_user_id :: "string option"
  pa_organization_id :: string
  pa_created_by_user_id :: string
  pa_created_at :: int
  pa_updated_at :: int

subsection \<open>Publications and contact requests\<close>

record published_service_row =
  ps_id :: string
  ps_workspace_id :: string
  ps_name :: string
  ps_slug :: string
  ps_protocol :: service_protocol
  ps_target_port :: int
  ps_ingress_port :: "int option"
  ps_state :: service_state
  ps_visibility :: service_visibility
  ps_auth_policy :: service_auth
  ps_access_token_hash :: "string option"
  ps_expires_at :: "int option"
  ps_created_at :: int
  ps_updated_at :: int
  ps_revoked_at :: "int option"

record contact_request_row =
  cr_id :: string
  cr_name :: string
  cr_email :: string
  cr_organization :: "string option"
  cr_topic :: contact_topic
  cr_message :: string
  cr_status :: contact_status
  cr_notification_status :: contact_notification
  cr_provider_message_id :: "string option"
  cr_source_hash :: string
  cr_privacy_version :: string
  cr_created_at :: int
  cr_updated_at :: int

subsection \<open>Entitlements and billing\<close>

record entitlement_row =
  en_membership_id :: string
  en_organization_id :: string
  en_state :: entitlement_state
  en_source :: entitlement_source
  en_starts_at :: int
  en_ends_at :: "int option"
  en_created_at :: int
  en_updated_at :: int

record billing_customer_row =
  bc_organization_id :: string
  bc_stripe_customer_id :: string
  bc_billing_email :: "string option"
  bc_country :: "string option"
  bc_last_event_created_at :: int
  bc_last_stripe_event_id :: string
  bc_created_at :: int
  bc_updated_at :: int

record subscription_row =
  su_organization_id :: string
  su_stripe_subscription_id :: string
  su_stripe_price_id :: string
  su_status :: string
  su_entitled_seats :: int
  su_cancel_at_period_end :: int
  su_current_period_end :: "int option"
  su_payment_state :: payment_state
  su_grace_ends_at :: "int option"
  su_last_invoice_event_created_at :: "int option"
  su_last_invoice_event_id :: "string option"
  su_last_event_created_at :: int
  su_last_stripe_event_id :: string
  su_created_at :: int
  su_updated_at :: int

record stripe_event_row =
  se_stripe_event_id :: string
  se_type :: string
  se_event_created_at :: int
  se_received_at :: int
  se_processing_result :: stripe_result
  se_processing_message :: "string option"
  se_processed_at :: "int option"
  se_attempt_count :: int

subsection \<open>Platform controls, email and rate limits\<close>

record platform_control_row =
  pc_name :: platform_control_name
  pc_paused :: int
  pc_reason :: string
  pc_updated_by :: string
  pc_updated_at :: int

record control_audit_row =
  ca_event_id :: string
  ca_actor :: string
  ca_control_name :: platform_control_name
  ca_previous_paused :: int
  ca_paused :: int
  ca_result :: audit_result
  ca_reason :: string
  ca_occurred_at :: int

record operation_audit_row =
  oa_event_id :: string
  oa_actor :: string
  oa_action :: string
  oa_target_type :: string
  oa_target_id :: string
  oa_result :: audit_result
  oa_metadata :: "(string \<times> audit_value) list"
  oa_occurred_at :: int

record email_delivery_row =
  ed_id :: string
  ed_provider :: string
  ed_provider_message_id :: "string option"
  ed_kind :: email_kind
  ed_recipient_hash :: string
  ed_status :: email_status
  ed_error_code :: "string option"
  ed_created_at :: int
  ed_updated_at :: int

record rate_bucket_row =
  rb_scope :: rate_scope
  rb_subject_hash :: string
  rb_action :: string
  rb_window_started_at :: int
  rb_request_count :: int
  rb_updated_at :: int

section \<open>The database\<close>

record cloud_db =
  users :: "user_row list"
  organizations :: "organization_row list"
  members :: "member_row list"
  invitations :: "invitation_row list"
  workspaces :: "workspace_row list"
  worker_hosts :: "worker_host_row list"
  health_samples :: "worker_health_sample_row list"
  health_sample_seq :: nat
  provisioning_jobs :: "provisioning_job_row list"
  usage_events :: "usage_event_row list"
  audit_events :: "audit_event_row list"
  join_codes :: "join_code_row list"
  member_states :: "member_state_row list"
  plan_accounts :: "plan_account_row list"
  published_services :: "published_service_row list"
  contact_requests :: "contact_request_row list"
  entitlements :: "entitlement_row list"
  billing_customers :: "billing_customer_row list"
  subscriptions :: "subscription_row list"
  stripe_events :: "stripe_event_row list"
  platform_controls :: "platform_control_row list"
  control_audits :: "control_audit_row list"
  operation_audits :: "operation_audit_row list"
  email_deliveries :: "email_delivery_row list"
  rate_buckets :: "rate_bucket_row list"

type_synonym 'a dbop = "(cloud_db, db_error, 'a) operation"

text \<open>The tables right after the migrations: empty but for the three platform controls.\<close>

definition empty_db :: cloud_db where
  "empty_db =
     \<lparr>users = [], organizations = [], members = [], invitations = [], workspaces = [],
      worker_hosts = [], health_samples = [], health_sample_seq = 0, provisioning_jobs = [],
      usage_events = [], audit_events = [], join_codes = [], member_states = [],
      plan_accounts = [], published_services = [], contact_requests = [], entitlements = [],
      billing_customers = [], subscriptions = [], stripe_events = [],
      platform_controls =
        [\<lparr>pc_name = Ctl_provisioning, pc_paused = 0, pc_reason = [], pc_updated_by = ''schema-migration'', pc_updated_at = 0\<rparr>,
         \<lparr>pc_name = Ctl_workspace_start, pc_paused = 0, pc_reason = [], pc_updated_by = ''schema-migration'', pc_updated_at = 0\<rparr>,
         \<lparr>pc_name = Ctl_publication, pc_paused = 0, pc_reason = [], pc_updated_by = ''schema-migration'', pc_updated_at = 0\<rparr>],
      control_audits = [], operation_audits = [], email_deliveries = [], rate_buckets = []\<rparr>"

end
