(* ===== verification/AuthLimits.thy ===== *)
theory AuthLimits
  imports Quotas Schema
begin

text \<open>
  The limiter in front of the authentication endpoints
  (\<open>src/apps/control-plane/src/authRateLimiter.ts\<close>), whose buckets are rows of the table
  \<open>auth_rate_limit_bucket\<close> (\<open>src/packages/database/src/index.ts\<close>). The keyed digest of
  \<open>node:crypto\<close> and the e-mail address \<open>JSON.parse\<close> finds in a body are arguments.
\<close>

section \<open>Policies\<close>

datatype auth_action = SignUpAction | LoginAction | RecoveryAction | ResendAction | InvitationAction

fun action_name :: "auth_action \<Rightarrow> string" where
  "action_name SignUpAction = ''signup''"
| "action_name LoginAction = ''login''"
| "action_name RecoveryAction = ''recovery''"
| "action_name ResendAction = ''resend''"
| "action_name InvitationAction = ''invitation''"

record auth_policy =
  ap_action :: auth_action
  ap_ipLimit :: int
  ap_addressLimit :: int
  ap_windowMs :: int
  ap_nonEnumerating :: bool

definition auth_policies :: "string \<Rightarrow> auth_policy option" where
  "auth_policies = map_of
     [(''/api/auth/sign-up/email'', \<lparr>ap_action = SignUpAction, ap_ipLimit = 10, ap_addressLimit = 3,
         ap_windowMs = 60 * 60 * 1000, ap_nonEnumerating = False\<rparr>),
      (''/api/auth/sign-in/email'', \<lparr>ap_action = LoginAction, ap_ipLimit = 60, ap_addressLimit = 30,
         ap_windowMs = 15 * 60 * 1000, ap_nonEnumerating = False\<rparr>),
      (''/api/auth/request-password-reset'', \<lparr>ap_action = RecoveryAction, ap_ipLimit = 10, ap_addressLimit = 3,
         ap_windowMs = 60 * 60 * 1000, ap_nonEnumerating = True\<rparr>),
      (''/api/auth/send-verification-email'', \<lparr>ap_action = ResendAction, ap_ipLimit = 10, ap_addressLimit = 3,
         ap_windowMs = 60 * 60 * 1000, ap_nonEnumerating = True\<rparr>),
      (''/api/auth/organization/invite-member'', \<lparr>ap_action = InvitationAction, ap_ipLimit = 30, ap_addressLimit = 10,
         ap_windowMs = 24 * 60 * 60 * 1000, ap_nonEnumerating = False\<rparr>)]"

fun scope_name :: "rate_scope \<Rightarrow> string" where
  "scope_name ScopeIp = ''ip''"
| "scope_name ScopeAddress = ''address''"

fun limit_of :: "auth_policy \<Rightarrow> rate_scope \<Rightarrow> int" where
  "limit_of p ScopeIp = ap_ipLimit p"
| "limit_of p ScopeAddress = ap_addressLimit p"

section \<open>Buckets\<close>

definition rate_bucket_schema :: "rate_bucket_row schema" where
  "rate_bucket_schema =
     \<lparr>checks =
        [(''length(subject_hash) = 64'', \<lambda>r. is_sha256_hex (rb_subject_hash r)),
         (''length(action) BETWEEN 1 AND 64'', \<lambda>r. 1 \<le> length (rb_action r) \<and> length (rb_action r) \<le> 64),
         (''window_started_at >= 0'', \<lambda>r. rb_window_started_at r \<ge> 0),
         (''request_count >= 0'', \<lambda>r. rb_request_count r \<ge> 0),
         (''updated_at >= window_started_at'', \<lambda>r. rb_updated_at r \<ge> rb_window_started_at r)],
      uniques =
        [(''auth_rate_limit_bucket.scope, subject_hash, action'',
          \<lambda>r. Some [SText (scope_name (rb_scope r)), SText (rb_subject_hash r), SText (rb_action r)])]\<rparr>"

definition set_rate_buckets :: "rate_bucket_row list \<Rightarrow> cloud_db \<Rightarrow> cloud_db" where
  "set_rate_buckets rows db = db\<lparr>rate_buckets := rows\<rparr>"

interpretation rb_tbl: sql_table rate_buckets set_rate_buckets rate_bucket_schema
  by unfold_locales (simp_all add: set_rate_buckets_def)

type_synonym bucket_key = "rate_scope \<times> string \<times> string"

definition bucket_key_of :: "rate_bucket_row \<Rightarrow> bucket_key" where
  "bucket_key_of r = (rb_scope r, rb_subject_hash r, rb_action r)"

definition replaced_bucket :: "rate_bucket_row \<Rightarrow> rate_bucket_row \<Rightarrow> rate_bucket_row" where
  "replaced_bucket excluded r =
     r\<lparr>rb_window_started_at := rb_window_started_at excluded, rb_request_count := rb_request_count excluded,
       rb_updated_at := rb_updated_at excluded\<rparr>"

definition next_bucket :: "int \<Rightarrow> int \<Rightarrow> (int \<times> int) option \<Rightarrow> int \<times> int" where
  "next_bucket windowMs timestamp row =
     (let windowStartedAt = (case row of
            None \<Rightarrow> timestamp
          | Some (started, _) \<Rightarrow> if timestamp - started < windowMs then started else timestamp)
      in (windowStartedAt, case row of
            None \<Rightarrow> 1
          | Some (started, requests) \<Rightarrow> if windowStartedAt = started then requests + 1 else 1))"

definition stored_bucket :: "bucket_key \<Rightarrow> cloud_db \<Rightarrow> (int \<times> int) option" where
  "stored_bucket k db =
     map_option (\<lambda>r. (rb_window_started_at r, rb_request_count r))
       (find (\<lambda>r. bucket_key_of r = k) (rate_buckets db))"

definition subject_key :: "(string \<Rightarrow> string) \<Rightarrow> auth_policy \<Rightarrow> rate_scope \<Rightarrow> string \<Rightarrow> bucket_key" where
  "subject_key digest p scope subject =
     (scope, digest (scope_name scope @ '':'' @ toLowerCase (trim subject)), action_name (ap_action p))"

definition bucket_row :: "bucket_key \<Rightarrow> int \<times> int \<Rightarrow> int \<Rightarrow> rate_bucket_row" where
  "bucket_row k b timestamp =
     \<lparr>rb_scope = fst k, rb_subject_hash = fst (snd k), rb_action = snd (snd k),
      rb_window_started_at = fst b, rb_request_count = snd b, rb_updated_at = timestamp\<rparr>"

definition consume :: "(string \<Rightarrow> string) \<Rightarrow> auth_policy \<Rightarrow> rate_scope \<Rightarrow> string \<Rightarrow> int \<Rightarrow> int \<Rightarrow> bool dbop" where
  "consume digest p scope subject limit timestamp =
     (let k = subject_key digest p scope subject in
      obind (oget (stored_bucket k)) (\<lambda>row.
      (let b = next_bucket (ap_windowMs p) timestamp row; new = bucket_row k b timestamp in
      obind (upsert_in rate_buckets set_rate_buckets rate_bucket_schema bucket_key_of new (\<lambda>_. True)
               (replaced_bucket new)) (\<lambda>_.
      oreturn (snd b \<le> limit)))))"

section \<open>Requests\<close>

datatype json_email = JsonInvalid | JsonNoEmail | JsonEmail string

text \<open>\<open>Number\<close> of the declared length, and the text of the body if it can be read.\<close>

record auth_request =
  aq_method :: string
  aq_pathname :: string
  aq_contentLength :: js_num
  aq_text :: "string option"

fun exceeds :: "js_num \<Rightarrow> int \<Rightarrow> bool" where
  "exceeds (JInt i) m \<longleftrightarrow> i > m"
| "exceeds (JFrac i) m \<longleftrightarrow> i \<ge> m"
| "exceeds _ m \<longleftrightarrow> False"

definition readAddress :: "(string \<Rightarrow> json_email) \<Rightarrow> auth_request \<Rightarrow> string option" where
  "readAddress jsonEmail req =
     (if exceeds (aq_contentLength req) (16 * 1024) then None
      else case aq_text req of
        None \<Rightarrow> None
      | Some txt \<Rightarrow>
          if length txt > 16 * 1024 then None
          else case jsonEmail txt of
            JsonEmail e \<Rightarrow> if trim e = [] then None else Some (toLowerCase (trim e))
          | _ \<Rightarrow> None)"

datatype auth_reply = Forwarded | GenericSuccess | TooManyAttempts int

definition auth_policy_for :: "auth_request \<Rightarrow> auth_policy option" where
  "auth_policy_for req = (if aq_method req = ''POST'' then auth_policies (aq_pathname req) else None)"

definition auth_subjects :: "(string \<Rightarrow> json_email) \<Rightarrow> auth_request \<Rightarrow> string option \<Rightarrow> (rate_scope \<times> string) list" where
  "auth_subjects jsonEmail req clientAddress =
     (ScopeIp, case clientAddress of None \<Rightarrow> ''unavailable'' | Some a \<Rightarrow> a)
     # (case readAddress jsonEmail req of None \<Rightarrow> [] | Some a \<Rightarrow> [(ScopeAddress, a)])"

text \<open>\<open>every\<close> stops at the first subject over its limit.\<close>

fun consume_every :: "(string \<Rightarrow> string) \<Rightarrow> auth_policy \<Rightarrow> int \<Rightarrow> (rate_scope \<times> string) list \<Rightarrow> bool dbop" where
  "consume_every digest p timestamp [] = oreturn True"
| "consume_every digest p timestamp ((scope, subject) # rest) =
     obind (consume digest p scope subject (limit_of p scope) timestamp) (\<lambda>ok.
     if ok then consume_every digest p timestamp rest else oreturn False)"

definition refusal :: "auth_policy \<Rightarrow> auth_reply" where
  "refusal p =
     (if ap_nonEnumerating p then GenericSuccess else TooManyAttempts (max 1 ((ap_windowMs p + 999) div 1000)))"

definition handle_auth ::
  "(string \<Rightarrow> string) \<Rightarrow> (string \<Rightarrow> json_email) \<Rightarrow> auth_request \<Rightarrow> string option \<Rightarrow> int \<Rightarrow> auth_reply dbop"
where
  "handle_auth digest jsonEmail req clientAddress timestamp =
     (case auth_policy_for req of
        None \<Rightarrow> oreturn Forwarded
      | Some p \<Rightarrow>
          obind (atomic (consume_every digest p timestamp (auth_subjects jsonEmail req clientAddress))) (\<lambda>allowed.
          oreturn (if allowed then Forwarded else refusal p)))"

definition valid_hash_secret :: "string \<Rightarrow> db_error + unit" where
  "valid_hash_secret secret =
     require (\<not> length (trim secret) < 32)
       (JsError ''Authentication rate-limit hash secret must contain at least 32 characters'')"

section \<open>What a bucket admits\<close>

text \<open>A bucket against the times its key was admitted: its count is at least the admissions of its window.\<close>

definition bucket_inv :: "int \<Rightarrow> int \<Rightarrow> (int \<times> int) option \<Rightarrow> (int \<times> int) list \<Rightarrow> int \<Rightarrow> bool" where
  "bucket_inv w L b h clock \<longleftrightarrow>
     0 < w \<and> 0 \<le> L \<and>
     (case b of None \<Rightarrow> h = [] | Some (ws, n) \<Rightarrow> fits w L h ws clock \<and> span h ws (ws + w) \<le> n)"

lemma bucket_later: "bucket_inv w L b h clock \<Longrightarrow> clock \<le> now \<Longrightarrow> bucket_inv w L b h now"
  by (auto simp: bucket_inv_def intro: fits_later split: option.splits)

lemma bucket_start: "0 < w \<Longrightarrow> 0 \<le> L \<Longrightarrow> bucket_inv w L None [] clock"
  by (simp add: bucket_inv_def)

lemma bucket_bound: "bucket_inv w L b h clock \<Longrightarrow> span h T (T + w) \<le> 2 * L"
  by (auto simp: bucket_inv_def dest: fits_bound split: option.splits)

lemma fits_span_now: "fits w L h ws clock \<Longrightarrow> ws + w \<le> t \<Longrightarrow> span h t (t + w) = 0"
proof -
  assume "fits w L h ws clock" "ws + w \<le> t"
  then have "\<forall>e \<in> set h. fst e < t" by (force simp: fits_def)
  then show ?thesis by (induction h) auto
qed

lemma bucket_next:
  assumes "bucket_inv w L b h clock" and "clock \<le> t"
  shows "bucket_inv w L (Some (next_bucket w t b)) h t"
    and "snd (next_bucket w t b) \<le> L \<Longrightarrow> bucket_inv w L (Some (next_bucket w t b)) ((t, 1) # h) t"
proof -
  have wL: "0 < w" "0 \<le> L" using assms(1) by (simp_all add: bucket_inv_def)
  have *: "fits w L h (fst (next_bucket w t b)) t \<and> fst (next_bucket w t b) \<le> t \<and> t < fst (next_bucket w t b) + w
    \<and> span h (fst (next_bucket w t b)) (fst (next_bucket w t b) + w) + 1 \<le> snd (next_bucket w t b)"
  proof (cases b)
    case None
    then show ?thesis using assms wL by (auto simp: bucket_inv_def next_bucket_def intro: fits_start)
  next
    case (Some c)
    obtain ws n where c: "c = (ws, n)" by fastforce
    have fit: "fits w L h ws clock" "span h ws (ws + w) \<le> n" using assms(1) Some c by (simp_all add: bucket_inv_def)
    show ?thesis
    proof (cases "t - ws < w")
      case True
      then show ?thesis using fit Some c assms(2) by (auto simp: next_bucket_def fits_def)
    next
      case False
      then show ?thesis using fits_restart [OF fit(1) assms(2)] fits_span_now [OF fit(1)] Some c wL
        by (auto simp: next_bucket_def)
    qed
  qed
  then show "bucket_inv w L (Some (next_bucket w t b)) h t" using wL by (auto simp: bucket_inv_def split: prod.splits)
  show "bucket_inv w L (Some (next_bucket w t b)) ((t, 1) # h) t" if "snd (next_bucket w t b) \<le> L"
    using * that wL fits_admit [of w L h "fst (next_bucket w t b)" t t 1]
    by (auto simp: bucket_inv_def split: prod.splits)
qed

section \<open>The limiter over time\<close>

lemma bucket_row_simps [simp]:
  "bucket_key_of (bucket_row k b n) = k" "rb_window_started_at (bucket_row k b n) = fst b"
  "rb_request_count (bucket_row k b n) = snd b" "bucket_key_of (replaced_bucket e r) = bucket_key_of r"
  "rb_window_started_at (replaced_bucket e r) = rb_window_started_at e"
  "rb_request_count (replaced_bucket e r) = rb_request_count e"
  by (simp_all add: bucket_key_of_def bucket_row_def replaced_bucket_def)

lemma stored_after_upsert:
  assumes "upsert_in rate_buckets set_rate_buckets rate_bucket_schema bucket_key_of (bucket_row k b n) (\<lambda>_. True)
             (replaced_bucket (bucket_row k b n)) s = (Inr m, t)"
  shows "stored_bucket k' t = (if k' = k then Some b else stored_bucket k' s)"
proof -
  let ?new = "bucket_row k b n"
  have rows: "rate_buckets t = (if find (\<lambda>r. bucket_key_of r = k) (rate_buckets s) = None then rate_buckets s @ [?new]
      else map (\<lambda>r. if bucket_key_of r = k then replaced_bucket ?new r else r) (rate_buckets s))"
    using rb_tbl.upsert_Inr [OF assms] by (auto simp: rb_tbl.get_put)
  show ?thesis
  proof (cases "find (\<lambda>r. bucket_key_of r = k) (rate_buckets s)")
    case None
    then show ?thesis by (cases b) (auto simp: stored_bucket_def rows find_append split: option.splits)
  next
    case (Some r)
    then show ?thesis
      using find_keyed_update [of bucket_key_of "replaced_bucket ?new" k] find_other_update [of bucket_key_of "replaced_bucket ?new" k' k]
      by (simp add: stored_bucket_def rows)
  qed
qed

lemma consume_Inr:
  assumes "consume digest p scope subject limit now s = (Inr ok, t)"
    and "k = subject_key digest p scope subject" and "b = next_bucket (ap_windowMs p) now (stored_bucket k s)"
  shows "ok \<longleftrightarrow> snd b \<le> limit" and "stored_bucket k' t = (if k' = k then Some b else stored_bucket k' s)"
proof -
  from assms obtain m where up: "upsert_in rate_buckets set_rate_buckets rate_bucket_schema bucket_key_of
      (bucket_row k b now) (\<lambda>_. True) (replaced_bucket (bucket_row k b now)) s = (Inr m, t)" "ok = (snd b \<le> limit)"
    by (auto simp: consume_def Let_def operation_defs)
  show "ok \<longleftrightarrow> snd b \<le> limit" by (simp add: up)
  show "stored_bucket k' t = (if k' = k then Some b else stored_bucket k' s)" using up(1) by (rule stored_after_upsert)
qed

type_synonym auth_log = "(int \<times> bucket_key list) list"

definition admitted_at :: "bucket_key \<Rightarrow> auth_log \<Rightarrow> (int \<times> int) list" where
  "admitted_at k h = map (\<lambda>e. (fst e, 1)) (filter (\<lambda>e. k \<in> set (snd e)) h)"

lemma admitted_at_Cons: "admitted_at k ((t, ks) # h) = (if k \<in> set ks then (t, 1) # admitted_at k h else admitted_at k h)"
  by (simp add: admitted_at_def)

lemma admitted_at_Nil [simp]: "admitted_at k [] = []"
  by (simp add: admitted_at_def)

definition subject_keys :: "(string \<Rightarrow> string) \<Rightarrow> auth_policy \<Rightarrow> (rate_scope \<times> string) list \<Rightarrow> bucket_key list" where
  "subject_keys digest p subjects = map (\<lambda>(scope, subject). subject_key digest p scope subject) subjects"

lemma consume_every_Inr:
  "consume_every digest p now subjects s = (Inr ok, t) \<Longrightarrow> distinct (map fst subjects) \<Longrightarrow>
     (stored_bucket k t = stored_bucket k s \<and> (ok \<longrightarrow> k \<notin> set (subject_keys digest p subjects)))
     \<or> (stored_bucket k t = Some (next_bucket (ap_windowMs p) now (stored_bucket k s))
        \<and> k \<in> set (subject_keys digest p subjects)
        \<and> (ok \<longrightarrow> snd (next_bucket (ap_windowMs p) now (stored_bucket k s)) \<le> limit_of p (fst k)))"
proof (induction subjects arbitrary: s)
  case (Cons x rest)
  obtain scope subject where x: "x = (scope, subject)" by fastforce
  let ?k = "subject_key digest p scope subject"
  from Cons.prems(1) obtain pass s1 where one: "consume digest p scope subject (limit_of p scope) now s = (Inr pass, s1)"
    and rest: "(if pass then consume_every digest p now rest else oreturn False) s1 = (Inr ok, t)"
    by (auto simp: x)
  note one' = consume_Inr [OF one refl refl]
  have fst_k: "fst ?k = scope" by (simp add: subject_key_def)
  have apart: "?k \<notin> set (subject_keys digest p rest)"
    using Cons.prems(2) by (force simp: x subject_keys_def subject_key_def)
  show ?case
  proof (cases pass)
    case True
    then have "consume_every digest p now rest s1 = (Inr ok, t)" using rest by simp
    from Cons.IH [OF this] Cons.prems(2) show ?thesis
      using one' True apart fst_k by (cases "k = ?k") (auto simp: x subject_keys_def)
  next
    case False
    then have "\<not> ok" "t = s1" using rest by (simp_all add: operation_defs)
    then show ?thesis using one'(2) [of k] by (auto simp: x subject_keys_def)
  qed
qed (simp add: operation_defs subject_keys_def)

text \<open>The log holds the requests that reached the endpoints, with the keys they were counted under. The clock
  does not run backwards.\<close>

definition logged :: "(string \<Rightarrow> string) \<Rightarrow> (string \<Rightarrow> json_email) \<Rightarrow> auth_request \<Rightarrow> string option \<Rightarrow> int \<Rightarrow> auth_reply \<Rightarrow> auth_log \<Rightarrow> auth_log"
where
  "logged digest jsonEmail req client now reply h =
     (case auth_policy_for req of
        None \<Rightarrow> h
      | Some p \<Rightarrow>
          if reply = Forwarded then (now, subject_keys digest p (auth_subjects jsonEmail req client)) # h else h)"

inductive auth_step ::
  "(string \<Rightarrow> string) \<Rightarrow> (string \<Rightarrow> json_email) \<Rightarrow> cloud_db \<times> auth_log \<times> int \<Rightarrow> cloud_db \<times> auth_log \<times> int \<Rightarrow> bool"
  for digest jsonEmail
where
  handled: "handle_auth digest jsonEmail req client now s = (Inr reply, t) \<Longrightarrow> clock \<le> now \<Longrightarrow>
     auth_step digest jsonEmail (s, h, clock) (t, logged digest jsonEmail req client now reply h, now)"
| thrown: "handle_auth digest jsonEmail req client now s = (Inl e, t) \<Longrightarrow> clock \<le> now \<Longrightarrow>
     auth_step digest jsonEmail (s, h, clock) (t, h, now)"
| foreign: "rate_buckets t = rate_buckets s \<Longrightarrow> clock \<le> now \<Longrightarrow> auth_step digest jsonEmail (s, h, clock) (t, h, now)"

definition auth_inv :: "cloud_db \<times> auth_log \<times> int \<Rightarrow> bool" where
  "auth_inv c \<longleftrightarrow> (\<forall>path p k. auth_policies path = Some p \<longrightarrow> snd (snd k) = action_name (ap_action p) \<longrightarrow>
     bucket_inv (ap_windowMs p) (limit_of p (fst k)) (stored_bucket k (fst c)) (admitted_at k (fst (snd c))) (snd (snd c)))"

lemma auth_inv_later:
  "auth_inv (s, h, clock) \<Longrightarrow> rate_buckets t = rate_buckets s \<Longrightarrow> clock \<le> now \<Longrightarrow> auth_inv (t, h, now)"
  by (simp only: auth_inv_def stored_bucket_def fst_conv snd_conv) (blast intro: bucket_later)

lemma policies_by_action:
  "auth_policies a = Some p \<Longrightarrow> auth_policies b = Some q \<Longrightarrow> action_name (ap_action p) = action_name (ap_action q) \<Longrightarrow> p = q"
  by (auto simp: auth_policies_def split: if_splits)

lemma policies_positive: "auth_policies a = Some p \<Longrightarrow> 0 < ap_windowMs p \<and> 0 \<le> limit_of p sc"
  by (cases sc) (auto simp: auth_policies_def split: if_splits)

lemma subject_keys_action: "k \<in> set (subject_keys digest p xs) \<Longrightarrow> snd (snd k) = action_name (ap_action p)"
  by (auto simp: subject_keys_def subject_key_def)

lemma auth_subjects_distinct: "distinct (map fst (auth_subjects jsonEmail req client))"
  by (simp add: auth_subjects_def split: option.splits)

lemma refusal_not_forwarded [simp]: "refusal p \<noteq> Forwarded"
  by (simp add: refusal_def)

lemma consumed_keeps:
  assumes "consume_every digest p now subjects s = (Inr ok, t)" and "distinct (map fst subjects)"
    and "auth_policies path = Some p" and "auth_inv (s, h, clock)" and "clock \<le> now"
  shows "auth_inv (t, if ok then (now, subject_keys digest p subjects) # h else h, now)"
  unfolding auth_inv_def fst_conv snd_conv
proof (intro allI impI)
  fix path' q and k :: bucket_key
  assume q: "auth_policies path' = Some q" "snd (snd k) = action_name (ap_action q)"
  let ?w = "ap_windowMs q" and ?L = "limit_of q (fst k)" and ?b = "stored_bucket k s"
  have inv: "bucket_inv ?w ?L ?b (admitted_at k h) clock"
    using assms(4) q by (cases k) (auto simp: auth_inv_def)
  have same: "p = q" if "k \<in> set (subject_keys digest p subjects)"
    using policies_by_action [OF assms(3) q(1)] subject_keys_action [OF that] q(2) by simp
  note next_inv = bucket_next [OF inv assms(5)]
  show "bucket_inv ?w ?L (stored_bucket k t)
      (admitted_at k (if ok then (now, subject_keys digest p subjects) # h else h)) now"
    using consume_every_Inr [OF assms(1,2), of k] bucket_later [OF inv assms(5)] next_inv same
    by (auto simp: admitted_at_Cons)
qed

interpretation auth_limiter: invariant_system "auth_step digest jsonEmail" auth_inv for digest jsonEmail
proof
  fix c d
  assume "auth_step digest jsonEmail c d" and inv: "auth_inv c"
  then show "auth_inv d"
  proof cases
    case (handled req client now s reply t clock h)
    show ?thesis
    proof (cases "auth_policy_for req")
      case None
      then show ?thesis using handled inv
        by (auto simp: handle_auth_def logged_def operation_defs intro: auth_inv_later)
    next
      case (Some p)
      with handled obtain ok where run: "consume_every digest p now (auth_subjects jsonEmail req client) s = (Inr ok, t)"
        and reply: "reply = (if ok then Forwarded else refusal p)"
        by (auto simp: handle_auth_def operation_defs)
      obtain path where "auth_policies path = Some p"
        using Some by (auto simp: auth_policy_for_def split: if_splits)
      from consumed_keeps [OF run auth_subjects_distinct this] handled inv Some reply show ?thesis
        by (simp add: logged_def split: if_splits)
    qed
  next
    case (thrown req client now s e t clock h)
    then have "t = s"
      by (auto simp: handle_auth_def operation_defs obind_eq_Inl atomic_eq_Inl split: option.splits)
    with thrown inv show ?thesis by (auto intro: auth_inv_later)
  next
    case foreign
    with inv show ?thesis by (auto intro: auth_inv_later)
  qed
qed

section \<open>Properties\<close>


section \<open>The property on a concrete request\<close>

definition sample_digest :: "string \<Rightarrow> string" where
  "sample_digest m = replicate 64 CHR ''a''"

definition sample_reset :: auth_request where
  "sample_reset = \<lparr>aq_method = ''POST'', aq_pathname = ''/api/auth/request-password-reset'',
     aq_contentLength = JInt 2, aq_text = Some ''{}''\<rparr>"

lemma sample_reset_policy: "auth_policies ''/api/auth/request-password-reset'' = Some
    \<lparr>ap_action = RecoveryAction, ap_ipLimit = 10, ap_addressLimit = 3, ap_windowMs = 3600000, ap_nonEnumerating = True\<rparr>"
  by (simp add: auth_policies_def)

lemma sample_reset_run:
  "\<exists>t. handle_auth sample_digest (\<lambda>_. JsonNoEmail) sample_reset (Some ''10.0.0.1'') 5 empty_db = (Inr Forwarded, t)"
  by (simp add: handle_auth_def auth_policy_for_def sample_reset_def sample_reset_policy auth_subjects_def readAddress_def
      consume_def Let_def obind_def operation_defs atomic_def stored_bucket_def empty_db_def next_bucket_def upsert_in_def
      failed_check_def failed_unique_def rate_bucket_schema_def bucket_row_def insert_into_def sql_insert_def row_error_def
      is_sha256_hex_def subject_key_def sample_digest_def is_lower_hex_def is_digit_def list_all_iff)


end
