(* ===== verification/Members.thy ===== *)
theory Members
  imports Schema
begin

text \<open>
  Membership: how the package finds the membership of a user, who counts as an enabled
  member or an administrator, and the organization audit log that every governed change
  writes to.
\<close>

section \<open>Lookups\<close>

text \<open>\<open>SELECT \<dots> FROM member WHERE userId = ? AND organizationId = ? LIMIT 1\<close>.\<close>

definition find_membership :: "string \<Rightarrow> string \<Rightarrow> cloud_db \<Rightarrow> member_row option" where
  "find_membership userId organizationId db =
     find (\<lambda>m. mb_userId m = userId \<and> mb_organizationId m = organizationId) (members db)"

definition find_member_by_id :: "string \<Rightarrow> cloud_db \<Rightarrow> member_row option" where
  "find_member_by_id memberId db = find (\<lambda>m. mb_id m = memberId) (members db)"

definition find_user :: "string \<Rightarrow> cloud_db \<Rightarrow> user_row option" where
  "find_user userId db = find (\<lambda>u. us_id u = userId) (users db)"

definition find_organization :: "string \<Rightarrow> cloud_db \<Rightarrow> organization_row option" where
  "find_organization organizationId db = find (\<lambda>g. og_id g = organizationId) (organizations db)"

text \<open>\<open>LEFT JOIN organization_member_state \<dots> COALESCE(disabled, 0)\<close>.\<close>

definition member_disabled :: "string \<Rightarrow> cloud_db \<Rightarrow> int" where
  "member_disabled memberId db =
     (case find (\<lambda>s. ms_member_id s = memberId) (member_states db) of
        None \<Rightarrow> 0 | Some s \<Rightarrow> ms_disabled s)"

definition is_admin_role :: "string \<Rightarrow> bool" where
  "is_admin_role role \<longleftrightarrow> role = ''owner'' \<or> role = ''admin''"

definition isOrganizationMemberEnabled :: "string \<Rightarrow> string \<Rightarrow> cloud_db \<Rightarrow> bool" where
  "isOrganizationMemberEnabled userId organizationId db =
     (case find_membership userId organizationId db of
        None \<Rightarrow> False
      | Some m \<Rightarrow> member_disabled (mb_id m) db = 0)"

definition requireOrganizationAdmin :: "string \<Rightarrow> string \<Rightarrow> cloud_db \<Rightarrow> db_error + string" where
  "requireOrganizationAdmin userId organizationId db =
     (case find_membership userId organizationId db of
        None \<Rightarrow> Inl OrganizationAccessDeniedError
      | Some m \<Rightarrow>
          if member_disabled (mb_id m) db = 1 \<or> \<not> is_admin_role (mb_role m)
          then Inl OrganizationAccessDeniedError
          else Inr (mb_role m))"

definition requireEnabledOrganizationMember :: "string \<Rightarrow> string \<Rightarrow> cloud_db \<Rightarrow> db_error + unit" where
  "requireEnabledOrganizationMember userId organizationId db =
     (if \<not> isOrganizationMemberEnabled userId organizationId db
      then Inl OrganizationAccessDeniedError else Inr ())"

lemma find_membership_SomeD:
  "find_membership u g db = Some m \<Longrightarrow> m \<in> set (members db) \<and> mb_userId m = u \<and> mb_organizationId m = g"
  by (auto simp: find_membership_def dest: find_SomeD)

lemma requireOrganizationAdmin_Inr:
  "requireOrganizationAdmin u g db = Inr role \<longleftrightarrow>
     (\<exists>m. find_membership u g db = Some m \<and> mb_role m = role \<and> is_admin_role role
        \<and> member_disabled (mb_id m) db \<noteq> 1)"
  by (auto simp: requireOrganizationAdmin_def split: option.splits)

section \<open>Organization member states\<close>

definition flag_ok :: "int \<Rightarrow> bool" where
  "flag_ok b \<longleftrightarrow> b = 0 \<or> b = 1"

definition member_state_schema :: "member_state_row schema" where
  "member_state_schema =
     \<lparr>checks =
        [(''disabled IN (0, 1)'', \<lambda>s. flag_ok (ms_disabled s)),
         (''disabled_at'', \<lambda>s. (ms_disabled s = 0 \<and> ms_disabled_at s = None)
                          \<or> (ms_disabled s = 1 \<and> ms_disabled_at s \<noteq> None))],
      uniques = [(''organization_member_state.member_id'', \<lambda>s. Some [SText (ms_member_id s)])]\<rparr>"

definition set_member_states :: "member_state_row list \<Rightarrow> cloud_db \<Rightarrow> cloud_db" where
  "set_member_states rows db = db\<lparr>member_states := rows\<rparr>"

interpretation ms_tbl: sql_table member_states set_member_states member_state_schema
  by unfold_locales (simp_all add: set_member_states_def)

lemma member_disabled_flag:
  "schema_ok member_state_schema (member_states db) \<Longrightarrow> flag_ok (member_disabled memberId db)"
  by (auto simp: member_disabled_def schema_ok_def row_ok_iff member_state_schema_def flag_ok_def
      split: option.splits dest!: find_SomeD)

section \<open>The audit log\<close>

record audit_options =
  ao_userId :: string
  ao_organizationId :: string
  ao_eventId :: "string option"
  ao_action :: string
  ao_targetType :: string
  ao_targetId :: string
  ao_result :: "audit_result option"
  ao_sourceIpHash :: "string option"
  ao_metadata :: "(string \<times> audit_value) list"

record audit_event =
  aev_eventId :: string
  aev_organizationId :: string
  aev_actorUserId :: string
  aev_action :: string
  aev_targetType :: string
  aev_targetId :: string
  aev_result :: audit_result
  aev_sourceIpHash :: "string option"
  aev_metadata :: "(string \<times> audit_value) list"
  aev_occurredAt :: int

text \<open>
  \<open>left.localeCompare(right)\<close> on the characters an identifier may hold: punctuation before
  digits before letters, letters first without their case, then small before capital. Any
  other character, which the next check refuses, sorts after them.
\<close>

definition collation_weight :: "char \<Rightarrow> nat" where
  "collation_weight c =
     (if c = CHR ''_'' then 0 else if c = CHR ''-'' then 1 else if c = CHR '':'' then 2
      else if c = CHR ''.'' then 3
      else if is_digit c \<or> is_lower_letter c then of_char c
      else if is_upper_letter c then of_char c + 32
      else 256 + of_char c)"

definition locale_key :: "string \<Rightarrow> nat list \<times> nat list" where
  "locale_key s = (map collation_weight s, map (\<lambda>c. if is_upper_letter c then 1 else 0) s)"

text \<open>The UTF-8 length of \<open>JSON.stringify\<close> of a Latin-1 string and of a scalar.\<close>

definition json_char_bytes :: "char \<Rightarrow> nat" where
  "json_char_bytes c =
     (let n = of_char c :: nat in
      if n = 34 \<or> n = 92 \<or> n \<in> {8, 9, 10, 12, 13} then 2
      else if n < 32 then 6 else if n < 128 then 1 else 2)"

definition json_string_bytes :: "string \<Rightarrow> nat" where
  "json_string_bytes s = 2 + sum_list (map json_char_bytes s)"

fun json_value_bytes :: "audit_value \<Rightarrow> nat" where
  "json_value_bytes (MetaString s) = json_string_bytes s"
| "json_value_bytes (MetaNumber s) = length s"
| "json_value_bytes MetaNonFinite = 4"
| "json_value_bytes (MetaBool b) = (if b then 4 else 5)"
| "json_value_bytes MetaNull = 4"

definition json_object_bytes :: "(string \<times> audit_value) list \<Rightarrow> nat" where
  "json_object_bytes entries =
     2 + sum_list (map (\<lambda>(k, v). json_string_bytes k + 1 + json_value_bytes v) entries)
       + (length entries - 1)"

fun check_audit_entry :: "string \<times> audit_value \<Rightarrow> db_error option" where
  "check_audit_entry (k, v) =
     (if \<not> auditIdentifierPattern k then Some (JsTypeError ''audit metadata keys must be identifiers'')
      else (case v of
          MetaString s \<Rightarrow>
            (if length s > 256
             then Some (JsTypeError ''audit metadata strings may contain at most 256 characters'')
             else None)
        | MetaNonFinite \<Rightarrow> Some (JsTypeError ''audit metadata numbers must be finite'')
        | _ \<Rightarrow> None))"

fun check_audit_entries :: "(string \<times> audit_value) list \<Rightarrow> db_error option" where
  "check_audit_entries [] = None"
| "check_audit_entries (e # es) =
     (case check_audit_entry e of Some err \<Rightarrow> Some err | None \<Rightarrow> check_audit_entries es)"

text \<open>
  The stored text is kept as its list of fields, so parsing it back is the identity; the
  fields are those of the argument, in the sorted order.
\<close>

definition serializeAuditMetadata ::
  "(string \<times> audit_value) list \<Rightarrow> db_error + (string \<times> audit_value) list"
where
  "serializeAuditMetadata metadata =
     (if length metadata > 16 then Inl (JsTypeError ''audit metadata may contain at most 16 fields'')
      else let entries = sort_key (\<lambda>e. locale_key (fst e)) metadata in
        case check_audit_entries entries of
          Some err \<Rightarrow> Inl err
        | None \<Rightarrow>
            if json_object_bytes entries > 4096
            then Inl (JsTypeError ''audit metadata may contain at most 4096 bytes'')
            else Inr entries)"

definition audit_event_schema :: "audit_event_row schema" where
  "audit_event_schema =
     \<lparr>checks = [],
      uniques = [(''audit_event.event_id'', \<lambda>e. Some [SText (ae_event_id e)])]\<rparr>"

definition set_audit_events :: "audit_event_row list \<Rightarrow> cloud_db \<Rightarrow> cloud_db" where
  "set_audit_events rows db = db\<lparr>audit_events := rows\<rparr>"

interpretation ae_tbl: sql_table audit_events set_audit_events audit_event_schema
  by unfold_locales (simp_all add: set_audit_events_def)

text \<open>\<open>INSERT INTO audit_event\<close>: the organization and the actor are foreign keys.\<close>

definition insertAuditEvent :: "audit_event_row \<Rightarrow> unit dbop" where
  "insertAuditEvent e = atomic (
     obind (insert_into audit_events set_audit_events audit_event_schema e) (\<lambda>_.
     obind (oget (\<lambda>db. find_organization (ae_organization_id e) db \<noteq> None
                      \<and> find_user (ae_actor_user_id e) db \<noteq> None)) (\<lambda>known.
     if known then oreturn () else othrow SqliteForeignKey)))"

definition is_hex_digest :: "string \<Rightarrow> bool" where
  "is_hex_digest s \<longleftrightarrow> 32 \<le> length s \<and> length s \<le> 128 \<and> list_all (\<lambda>c. is_lower_hex (lower_char c)) s"

definition recordAuditEvent :: "audit_options \<Rightarrow> string \<Rightarrow> int \<Rightarrow> audit_event dbop" where
  "recordAuditEvent opts randomUUID now =
     obind (oread (requireEnabledOrganizationMember (ao_userId opts) (ao_organizationId opts))) (\<lambda>_.
     let eventId = (case ao_eventId opts of Some i \<Rightarrow> i | None \<Rightarrow> randomUUID);
         sourceIpHash = trim_or_null (ao_sourceIpHash opts);
         result = (case ao_result opts of Some r \<Rightarrow> r | None \<Rightarrow> AuditSuccess) in
     obind (olift (requireAuditIdentifier (ao_action opts) ''action'')) (\<lambda>action.
     obind (olift (requireAuditIdentifier (ao_targetType opts) ''targetType'')) (\<lambda>targetType.
     obind (olift (requireAuditIdentifier (ao_targetId opts) ''targetId'')) (\<lambda>targetId.
     obind (olift (require (case sourceIpHash of None \<Rightarrow> True | Some h \<Rightarrow> is_hex_digest h)
                     (JsTypeError ''sourceIpHash must be a hexadecimal digest''))) (\<lambda>_.
     obind (olift (serializeAuditMetadata (ao_metadata opts))) (\<lambda>metadata.
     obind (insertAuditEvent
              \<lparr>ae_event_id = eventId, ae_organization_id = ao_organizationId opts,
               ae_actor_user_id = ao_userId opts, ae_action = action, ae_target_type = targetType,
               ae_target_id = targetId, ae_result = result, ae_source_ip_hash = sourceIpHash,
               ae_metadata = metadata, ae_occurred_at = now\<rparr>) (\<lambda>_.
     oreturn
       \<lparr>aev_eventId = eventId, aev_organizationId = ao_organizationId opts,
        aev_actorUserId = ao_userId opts, aev_action = action, aev_targetType = targetType,
        aev_targetId = targetId, aev_result = result, aev_sourceIpHash = sourceIpHash,
        aev_metadata = metadata, aev_occurredAt = now\<rparr>)))))))"

text \<open>\<open>Math.min(Math.max(Math.trunc(limit ?? 50), 1), 200)\<close> on an integral limit.\<close>

definition page_limit :: "int option \<Rightarrow> int" where
  "page_limit limit = min (max (case limit of None \<Rightarrow> 50 | Some l \<Rightarrow> l) 1) 200"

definition toAuditEvent :: "audit_event_row \<Rightarrow> audit_event" where
  "toAuditEvent row =
     \<lparr>aev_eventId = ae_event_id row, aev_organizationId = ae_organization_id row,
      aev_actorUserId = ae_actor_user_id row, aev_action = ae_action row,
      aev_targetType = ae_target_type row, aev_targetId = ae_target_id row,
      aev_result = ae_result row, aev_sourceIpHash = ae_source_ip_hash row,
      aev_metadata = ae_metadata row, aev_occurredAt = ae_occurred_at row\<rparr>"

text \<open>
  \<open>ORDER BY occurred_at DESC, event_id DESC LIMIT ?\<close>: the event identifier is the primary
  key, so the order is the reverse of the ascending one.
\<close>

definition listOrganizationAuditEvents ::
  "string \<Rightarrow> string \<Rightarrow> int option \<Rightarrow> int option \<Rightarrow> cloud_db \<Rightarrow> db_error + audit_event list"
where
  "listOrganizationAuditEvents userId organizationId limit before db =
     sbind (requireOrganizationAdmin userId organizationId db) (\<lambda>_.
     let upto = (case before of None \<Rightarrow> MAX_SAFE_INTEGER | Some b \<Rightarrow> b);
         rows = filter (\<lambda>e. ae_organization_id e = organizationId \<and> ae_occurred_at e < upto)
                  (audit_events db)
     in Inr (map toAuditEvent
          (take (nat (page_limit limit))
            (rev (sort_key (\<lambda>e. (ae_occurred_at e, ae_event_id e)) rows)))))"

lemma insertAuditEvent_Inr:
  "insertAuditEvent e s = (Inr u, t) \<Longrightarrow> t = set_audit_events (audit_events s @ [e]) s"
  by (auto simp: insertAuditEvent_def ae_tbl.insert_Inr split: if_splits)

lemma insertAuditEvent_Inl: "insertAuditEvent e s = (Inl x, t) \<Longrightarrow> t = s"
  unfolding insertAuditEvent_def by (rule atomic_rolls_back)

lemma insertAuditEvent_keeps:
  "(\<And>rows s. I (set_audit_events rows s) = I s) \<Longrightarrow> keeps I (insertAuditEvent e)"
  unfolding insertAuditEvent_def by (intro keeps_intro ae_tbl.insert_keeps_other)

lemma recordAuditEvent_keeps:
  assumes "\<And>rows s. I (set_audit_events rows s) = I s"
  shows "keeps I (recordAuditEvent opts uuid now)"
  unfolding recordAuditEvent_def Let_def
  by (intro keeps_intro insertAuditEvent_keeps assms)

text \<open>A recorded event appends one row, written by an enabled member of the organization.\<close>

lemma recordAuditEvent_Inr:
  assumes "recordAuditEvent opts uuid now s = (Inr ev, t)"
  shows "isOrganizationMemberEnabled (ao_userId opts) (ao_organizationId opts) s"
    and "\<exists>e. t = set_audit_events (audit_events s @ [e]) s \<and> ae_organization_id e = ao_organizationId opts
       \<and> ae_actor_user_id e = ao_userId opts \<and> ae_action e = trim (ao_action opts)
       \<and> ae_target_id e = trim (ao_targetId opts) \<and> ae_occurred_at e = now \<and> ev = toAuditEvent e"
  using assms
  by (auto simp: recordAuditEvent_def Let_def requireEnabledOrganizationMember_def toAuditEvent_def
      requireAuditIdentifier_Inr split: if_splits dest!: insertAuditEvent_Inr)

lemma recordAuditEvent_Inl: "recordAuditEvent opts uuid now s = (Inl e, t) \<Longrightarrow> t = s"
  by (auto simp: recordAuditEvent_def Let_def obind_eq_Inl operation_defs dest: insertAuditEvent_Inl)

end
