(* ===== verification/Workspaces.thy ===== *)
theory Workspaces
  imports Members
begin

text \<open>
  Personal workspaces: at most one per membership, in the membership's organization. The
  operations create the workspace on first use, find it again, and decide who may reach it.
\<close>

section \<open>Rows and their view\<close>

record personal_workspace =
  pw_id :: string
  pw_memberId :: string
  pw_organizationId :: string
  pw_workerWorkspaceId :: "string option"
  pw_workerHostId :: "string option"
  pw_reservedMemoryBytes :: int
  pw_reservedCpuMillis :: int
  pw_reservedDiskBytes :: int
  pw_reservedWorkspaceSlots :: int
  pw_state :: workspace_state
  pw_createdAt :: int
  pw_updatedAt :: int

definition toPersonalWorkspace :: "workspace_row \<Rightarrow> personal_workspace" where
  "toPersonalWorkspace row =
     \<lparr>pw_id = ws_id row, pw_memberId = ws_member_id row,
      pw_organizationId = ws_organization_id row,
      pw_workerWorkspaceId = ws_worker_workspace_id row,
      pw_workerHostId = ws_worker_host_id row,
      pw_reservedMemoryBytes = ws_reserved_memory_bytes row,
      pw_reservedCpuMillis = ws_reserved_cpu_millis row,
      pw_reservedDiskBytes = ws_reserved_disk_bytes row,
      pw_reservedWorkspaceSlots = ws_reserved_workspace_slots row,
      pw_state = ws_state row, pw_createdAt = ws_created_at row,
      pw_updatedAt = ws_updated_at row\<rparr>"

definition workspace_schema :: "workspace_row schema" where
  "workspace_schema =
     \<lparr>checks =
        [(''reserved_memory_bytes'', \<lambda>w. ws_reserved_memory_bytes w \<ge> 0),
         (''reserved_cpu_millis'', \<lambda>w. ws_reserved_cpu_millis w \<ge> 0),
         (''reserved_disk_bytes'', \<lambda>w. ws_reserved_disk_bytes w \<ge> 0),
         (''reserved_workspace_slots'', \<lambda>w. ws_reserved_workspace_slots w \<ge> 0)],
      uniques =
        [(''workspace.id'', \<lambda>w. Some [SText (ws_id w)]),
         (''workspace.member_id'', \<lambda>w. Some [SText (ws_member_id w)]),
         (''workspace.worker_workspace_id'',
            \<lambda>w. map_option (\<lambda>i. [SText i]) (ws_worker_workspace_id w))]\<rparr>"

definition set_workspaces :: "workspace_row list \<Rightarrow> cloud_db \<Rightarrow> cloud_db" where
  "set_workspaces rows db = db\<lparr>workspaces := rows\<rparr>"

interpretation ws_tbl: sql_table workspaces set_workspaces workspace_schema
  by unfold_locales (simp_all add: set_workspaces_def)

text \<open>Trigger \<open>workspace_member_organization_insert_guard\<close>.\<close>

definition workspace_member_organization_guard :: "workspace_row \<Rightarrow> cloud_db \<Rightarrow> db_error + unit" where
  "workspace_member_organization_guard w db =
     (if list_ex (\<lambda>m. mb_id m = ws_member_id w \<and> mb_organizationId m = ws_organization_id w) (members db)
      then Inr ()
      else Inl (SqliteAbort ''workspace membership does not belong to organization''))"

section \<open>Operations\<close>

definition findWorkspaceOfMember :: "string \<Rightarrow> cloud_db \<Rightarrow> workspace_row option" where
  "findWorkspaceOfMember memberId db = find (\<lambda>w. ws_member_id w = memberId) (workspaces db)"

definition findWorkspace :: "string \<Rightarrow> cloud_db \<Rightarrow> workspace_row option" where
  "findWorkspace workspaceId db = find (\<lambda>w. ws_id w = workspaceId) (workspaces db)"

definition getWorkspaceById :: "string \<Rightarrow> cloud_db \<Rightarrow> personal_workspace option" where
  "getWorkspaceById workspaceId db = map_option toPersonalWorkspace (findWorkspace workspaceId db)"

text \<open>
  \<open>INSERT \<dots> VALUES (?, ?, ?, 'pending', ?, ?) ON CONFLICT(member_id) DO NOTHING\<close>, with its
  guard trigger and the foreign key of the organization (that of the member is implied by
  the guard).
\<close>

definition new_workspace :: "string \<Rightarrow> string \<Rightarrow> string \<Rightarrow> int \<Rightarrow> workspace_row" where
  "new_workspace newId memberId organizationId timestamp =
     \<lparr>ws_id = newId, ws_member_id = memberId, ws_organization_id = organizationId,
      ws_worker_workspace_id = None, ws_worker_host_id = None,
      ws_reserved_memory_bytes = 0, ws_reserved_cpu_millis = 0,
      ws_reserved_disk_bytes = 0, ws_reserved_workspace_slots = 0,
      ws_state = WsPending, ws_created_at = timestamp, ws_updated_at = timestamp\<rparr>"

lemma new_workspace_simps [simp]:
  "ws_id (new_workspace i m g t) = i" "ws_member_id (new_workspace i m g t) = m"
  "ws_organization_id (new_workspace i m g t) = g" "ws_state (new_workspace i m g t) = WsPending"
  "ws_worker_host_id (new_workspace i m g t) = None"
  "ws_reserved_memory_bytes (new_workspace i m g t) = 0"
  "ws_reserved_cpu_millis (new_workspace i m g t) = 0"
  "ws_reserved_disk_bytes (new_workspace i m g t) = 0"
  "ws_reserved_workspace_slots (new_workspace i m g t) = 0"
  by (simp_all add: new_workspace_def)

definition insertWorkspace :: "string \<Rightarrow> string \<Rightarrow> string \<Rightarrow> int \<Rightarrow> unit dbop" where
  "insertWorkspace newId memberId organizationId timestamp = atomic (
     obind (oread (workspace_member_organization_guard
              (new_workspace newId memberId organizationId timestamp))) (\<lambda>_.
     obind (oget (findWorkspaceOfMember memberId)) (\<lambda>conflict.
     case conflict of
       Some _ \<Rightarrow> oreturn ()
     | None \<Rightarrow>
         obind (insert_into workspaces set_workspaces workspace_schema
                  (new_workspace newId memberId organizationId timestamp)) (\<lambda>_.
         obind (oget (find_organization organizationId)) (\<lambda>org.
         if org = None then othrow SqliteForeignKey else oreturn ())))))"

definition ensurePersonalWorkspace ::
  "string \<Rightarrow> string \<Rightarrow> string \<Rightarrow> int \<Rightarrow> personal_workspace dbop"
where
  "ensurePersonalWorkspace userId organizationId createId now = atomic (
     obind (oget (find_membership userId organizationId)) (\<lambda>membership.
     case membership of
       None \<Rightarrow> othrow WorkspaceMembershipNotFoundError
     | Some m \<Rightarrow>
         obind (oget (findWorkspaceOfMember (mb_id m))) (\<lambda>existing.
         case existing of
           Some w \<Rightarrow> oreturn (toPersonalWorkspace w)
         | None \<Rightarrow>
             obind (insertWorkspace createId (mb_id m) organizationId now) (\<lambda>_.
             obind (oget (findWorkspaceOfMember (mb_id m))) (\<lambda>created.
             case created of
               None \<Rightarrow> othrow (JsError ''Personal workspace could not be resolved'')
             | Some w \<Rightarrow> oreturn (toPersonalWorkspace w))))))"

definition getPersonalWorkspace :: "string \<Rightarrow> string \<Rightarrow> cloud_db \<Rightarrow> personal_workspace option" where
  "getPersonalWorkspace userId organizationId db =
     (if trim userId = [] \<or> trim organizationId = [] then None
      else map_option toPersonalWorkspace
        (find (\<lambda>w. list_ex (\<lambda>m. mb_id m = ws_member_id w \<and> mb_userId m = userId
                     \<and> mb_organizationId m = organizationId
                     \<and> ws_organization_id w = mb_organizationId m) (members db))
          (workspaces db)))"

text \<open>
  The double join of \<open>resolveWorkspaceAccess\<close>: \<open>wm\<close> is the workspace's membership,
  \<open>am\<close> the actor's.
\<close>

definition resolveWorkspaceAccess ::
  "string \<Rightarrow> string \<Rightarrow> string \<Rightarrow> cloud_db \<Rightarrow> personal_workspace option"
where
  "resolveWorkspaceAccess workspaceId userId organizationId db =
     (if trim workspaceId = [] \<or> trim userId = [] \<or> trim organizationId = [] then None
      else map_option toPersonalWorkspace
        (find (\<lambda>w. ws_id w = workspaceId
             \<and> list_ex (\<lambda>wm. mb_id wm = ws_member_id w \<and> ws_organization_id w = mb_organizationId wm)
                 (members db)
             \<and> list_ex (\<lambda>am. mb_organizationId am = ws_organization_id w
                    \<and> mb_userId am = userId \<and> mb_organizationId am = organizationId
                    \<and> (mb_id am = ws_member_id w \<or> is_admin_role (mb_role am)))
                 (members db))
          (workspaces db)))"

record workspace_owner =
  wo_workspaceId :: string
  wo_userId :: string
  wo_organizationId :: string

text \<open>The inner join of a workspace with the enabled membership that owns it.\<close>

definition enabled_owner :: "workspace_row \<Rightarrow> cloud_db \<Rightarrow> member_row option" where
  "enabled_owner w db =
     find (\<lambda>m. mb_id m = ws_member_id w \<and> mb_organizationId m = ws_organization_id w
             \<and> member_disabled (mb_id m) db = 0) (members db)"

definition getWorkspaceOwnerIdentity :: "string \<Rightarrow> cloud_db \<Rightarrow> workspace_owner option" where
  "getWorkspaceOwnerIdentity workspaceId db =
     (case find (\<lambda>w. ws_id w = trim workspaceId \<and> enabled_owner w db \<noteq> None) (workspaces db) of
        None \<Rightarrow> None
      | Some w \<Rightarrow>
          map_option (\<lambda>m. \<lparr>wo_workspaceId = ws_id w, wo_userId = mb_userId m,
                           wo_organizationId = ws_organization_id w\<rparr>) (enabled_owner w db))"

section \<open>Facts about the workspace table\<close>

lemma findWorkspace_SomeD: "findWorkspace i db = Some w \<Longrightarrow> w \<in> set (workspaces db) \<and> ws_id w = i"
  by (auto simp: findWorkspace_def dest: find_SomeD)

lemma findWorkspaceOfMember_SomeD:
  "findWorkspaceOfMember m db = Some w \<Longrightarrow> w \<in> set (workspaces db) \<and> ws_member_id w = m"
  by (auto simp: findWorkspaceOfMember_def dest: find_SomeD)

definition workspaces_ok :: "cloud_db \<Rightarrow> bool" where
  "workspaces_ok db \<longleftrightarrow> schema_ok workspace_schema (workspaces db)"

lemma workspaces_ok_same_id:
  assumes "workspaces_ok db" and "w \<in> set (workspaces db)" and "v \<in> set (workspaces db)"
    and "ws_id w = ws_id v"
  shows "w = v"
  by (rule schema_ok_same_key [where u = "(''workspace.id'', \<lambda>w. Some [SText (ws_id w)])"])
    (use assms in \<open>auto simp: workspaces_ok_def workspace_schema_def\<close>)

lemma workspaces_ok_same_member:
  assumes "workspaces_ok db" and "w \<in> set (workspaces db)" and "v \<in> set (workspaces db)"
    and "ws_member_id w = ws_member_id v"
  shows "w = v"
  by (rule schema_ok_same_key [where u = "(''workspace.member_id'', \<lambda>w. Some [SText (ws_member_id w)])"])
    (use assms in \<open>auto simp: workspaces_ok_def workspace_schema_def\<close>)

lemma workspace_updated_Inr:
  assumes "update_in workspaces set_workspaces workspace_schema p f s = (Inr n, t)"
  shows "n = length (filter p (workspaces s))"
    and "t = s\<lparr>workspaces := map (\<lambda>w. if p w then f w else w) (workspaces s)\<rparr>"
  using ws_tbl.update_Inr [OF assms] by (auto simp: set_workspaces_def)

lemma insertWorkspace_Inr:
  assumes "insertWorkspace i m g now s = (Inr u, t)"
  shows "list_ex (\<lambda>x. mb_id x = m \<and> mb_organizationId x = g) (members s)
    \<and> ((t = s \<and> findWorkspaceOfMember m s \<noteq> None)
      \<or> (t = s\<lparr>workspaces := workspaces s @ [new_workspace i m g now]\<rparr>
           \<and> findWorkspaceOfMember m s = None
           \<and> row_error workspace_schema (new_workspace i m g now) (workspaces s) = None))"
  using assms
  by (auto simp: insertWorkspace_def ws_tbl.insert_Inr set_workspaces_def
      workspace_member_organization_guard_def split: if_splits option.splits)


lemma ensurePersonalWorkspace_Inr:
  assumes "ensurePersonalWorkspace u g i now s = (Inr w, t)"
  obtains m r where "find_membership u g s = Some m" and "w = toPersonalWorkspace r"
    and "findWorkspaceOfMember (mb_id m) t = Some r"
    and "t = s \<or> (t = s\<lparr>workspaces := workspaces s @ [new_workspace i (mb_id m) g now]\<rparr>
           \<and> findWorkspaceOfMember (mb_id m) s = None
           \<and> list_ex (\<lambda>x. mb_id x = mb_id m \<and> mb_organizationId x = g) (members s)
           \<and> row_error workspace_schema (new_workspace i (mb_id m) g now) (workspaces s) = None)"
  using assms
  by (auto simp: ensurePersonalWorkspace_def split: option.splits dest!: insertWorkspace_Inr)

lemma ensurePersonalWorkspace_keeps_ok: "keeps workspaces_ok (ensurePersonalWorkspace u g i now)"
proof (rule keepsI)
  fix s r t
  assume ok: "workspaces_ok s" and run: "ensurePersonalWorkspace u g i now s = (r, t)"
  show "workspaces_ok t"
  proof (cases r)
    case (Inl e)
    with run ok show ?thesis
      by (auto simp: ensurePersonalWorkspace_def dest: atomic_rolls_back)
  next
    case (Inr w)
    then show ?thesis
      using run ok
      by (auto elim!: ensurePersonalWorkspace_Inr
          simp: workspaces_ok_def intro: schema_ok_append)
  qed
qed

text \<open>Every workspace belongs to the organization of the membership that owns it.\<close>

definition workspaces_scoped :: "cloud_db \<Rightarrow> bool" where
  "workspaces_scoped db \<longleftrightarrow>
     (\<forall>w \<in> set (workspaces db). \<exists>m \<in> set (members db).
        mb_id m = ws_member_id w \<and> mb_organizationId m = ws_organization_id w)"

lemma ensurePersonalWorkspace_keeps_scoped:
  "keeps workspaces_scoped (ensurePersonalWorkspace u g i now)"
proof (rule keepsI)
  fix s r t
  assume ok: "workspaces_scoped s" and run: "ensurePersonalWorkspace u g i now s = (r, t)"
  show "workspaces_scoped t"
  proof (cases r)
    case (Inl e)
    with run ok show ?thesis
      by (auto simp: ensurePersonalWorkspace_def dest: atomic_rolls_back)
  next
    case (Inr w)
    then show ?thesis
      using run ok
      by (auto elim!: ensurePersonalWorkspace_Inr simp: workspaces_scoped_def list_ex_iff) metis
  qed
qed

section \<open>Properties\<close>

text \<open>Asking for the personal workspace again returns the workspace the first call
  returned and changes nothing, whatever fresh identifier and clock the second call has.\<close>

theorem ensurePersonalWorkspace_idempotent:
  assumes "ensurePersonalWorkspace userId organizationId createId now s = (Inr w, t)"
  shows "ensurePersonalWorkspace userId organizationId createId' now' t = (Inr w, t)"
proof -
  from assms obtain m r where m: "find_membership userId organizationId s = Some m"
    and w: "w = toPersonalWorkspace r" and r: "findWorkspaceOfMember (mb_id m) t = Some r"
    and t: "members t = members s"
    by (auto elim!: ensurePersonalWorkspace_Inr)
  from m t have "find_membership userId organizationId t = Some m"
    by (simp add: find_membership_def)
  with w r show ?thesis
    by (simp add: ensurePersonalWorkspace_def atomic_def oreturn_def)
qed

definition sample_db :: cloud_db where
  "sample_db = empty_db
     \<lparr>users := [\<lparr>us_id = ''u1'', us_name = ''Ada'', us_email = ''ada@x.io''\<rparr>,
               \<lparr>us_id = ''u2'', us_name = ''Bob'', us_email = ''bob@x.io''\<rparr>],
      organizations := [\<lparr>og_id = ''o1'', og_name = ''Org'', og_slug = ''org''\<rparr>],
      members := [\<lparr>mb_id = ''m1'', mb_organizationId = ''o1'', mb_userId = ''u1'', mb_role = ''owner'', mb_createdAt = 1\<rparr>,
                  \<lparr>mb_id = ''m2'', mb_organizationId = ''o1'', mb_userId = ''u2'', mb_role = ''member'', mb_createdAt = 2\<rparr>]\<rparr>"

lemmas sample_run = sample_db_def empty_db_def ensurePersonalWorkspace_def insertWorkspace_def
  atomic_def obind_def operation_defs find_membership_def findWorkspaceOfMember_def
  workspace_member_organization_guard_def insert_into_def sql_insert_def row_error_def
  failed_check_def failed_unique_def workspace_schema_def set_workspaces_def find_organization_def
  collides_def toPersonalWorkspace_def

theorem ensurePersonalWorkspace_idempotent_witness:
  "\<exists>w t. ensurePersonalWorkspace ''u1'' ''o1'' ''w1'' 5 sample_db = (Inr w, t) \<and> pw_id w = ''w1''
     \<and> ensurePersonalWorkspace ''u1'' ''o1'' ''w9'' 9 t = (Inr w, t)"
proof -
  obtain w t where run: "ensurePersonalWorkspace ''u1'' ''o1'' ''w1'' 5 sample_db = (Inr w, t)"
    and "pw_id w = ''w1''"
    by (simp add: sample_run new_workspace_def)
  moreover from run have "ensurePersonalWorkspace ''u1'' ''o1'' ''w9'' 9 t = (Inr w, t)"
    by (rule ensurePersonalWorkspace_idempotent)
  ultimately show ?thesis by blast
qed



text \<open>A workspace that access resolution returns is the named one, lies in the active
  organization, and the user has a membership there that owns it or is its owner or admin;
  every other request is answered with null.\<close>

theorem resolveWorkspaceAccess_authorized:
  "resolveWorkspaceAccess workspaceId userId organizationId db = Some w \<Longrightarrow>
     pw_id w = workspaceId \<and> pw_organizationId w = organizationId
     \<and> (\<exists>am \<in> set (members db). mb_userId am = userId \<and> mb_organizationId am = organizationId
          \<and> (mb_id am = pw_memberId w \<or> is_admin_role (mb_role am)))
     \<and> (\<exists>wm \<in> set (members db). mb_id wm = pw_memberId w \<and> mb_organizationId wm = organizationId)"
  by (auto simp: resolveWorkspaceAccess_def toPersonalWorkspace_def list_ex_iff
      split: if_splits dest!: find_SomeD)

theorem resolveWorkspaceAccess_authorized_witness:
  "let t = snd (ensurePersonalWorkspace ''u2'' ''o1'' ''w1'' 5 sample_db) in
     (\<exists>w. resolveWorkspaceAccess ''w1'' ''u1'' ''o1'' t = Some w \<and> pw_organizationId w = ''o1'')
     \<and> resolveWorkspaceAccess ''w1'' ''u3'' ''o1'' t = None"
proof -
  obtain r t where run: "ensurePersonalWorkspace ''u2'' ''o1'' ''w1'' 5 sample_db = (r, t)"
    and got: "\<exists>w. resolveWorkspaceAccess ''w1'' ''u1'' ''o1'' t = Some w"
    and "resolveWorkspaceAccess ''w1'' ''u3'' ''o1'' t = None"
    by (simp add: sample_run new_workspace_def resolveWorkspaceAccess_def trim_def js_space_def
        is_admin_role_def)
  moreover from got obtain w where "resolveWorkspaceAccess ''w1'' ''u1'' ''o1'' t = Some w" by blast
  ultimately show ?thesis
    using resolveWorkspaceAccess_authorized [of "''w1''" "''u1''" "''o1''" t w] by auto
qed

end
