(* ===== verification/Usage.thy ===== *)
theory Usage
  imports Workspaces "HOL-Library.Option_ord" "HOL-Library.Multiset"
begin

text \<open>
  Usage accounting (\<open>src/packages/database/src/index.ts\<close>): the ledger of model turns, which
  takes every event once, and the summaries the dashboards read from it.

  The sums are exact integers. SQLite adds in 64 bits and JavaScript reads doubles; both agree with
  the integers while a sum stays below \<open>2^53\<close>.
\<close>

section \<open>The table\<close>

definition usage_event_schema :: "usage_event_row schema" where
  "usage_event_schema =
     \<lparr>checks =
        [(''input_tokens >= 0'', \<lambda>e. ue_input_tokens e \<ge> 0),
         (''output_tokens >= 0'', \<lambda>e. ue_output_tokens e \<ge> 0),
         (''cached_tokens >= 0'', \<lambda>e. ue_cached_tokens e \<ge> 0),
         (''duration_ms'', \<lambda>e. case ue_duration_ms e of None \<Rightarrow> True | Some d \<Rightarrow> d \<ge> 0),
         (''estimated_cost_microusd >= 0'', \<lambda>e. ue_estimated_cost_microusd e \<ge> 0),
         (''reasoning_tokens >= 0'', \<lambda>e. ue_reasoning_tokens e \<ge> 0),
         (''cache_savings_microusd >= 0'', \<lambda>e. ue_cache_savings_microusd e \<ge> 0)],
      uniques = [(''usage_event.event_id'', \<lambda>e. Some [SText (ue_event_id e)])]\<rparr>"

definition set_usage_events :: "usage_event_row list \<Rightarrow> cloud_db \<Rightarrow> cloud_db" where
  "set_usage_events rows db = db\<lparr>usage_events := rows\<rparr>"

interpretation ue_tbl: sql_table usage_events set_usage_events usage_event_schema
  by unfold_locales (simp_all add: set_usage_events_def)

text \<open>The trigger \<open>usage_event_scope_insert_guard\<close>; it also runs before an upsert that conflicts.\<close>

definition usage_scope :: "cloud_db \<Rightarrow> usage_event_row \<Rightarrow> bool" where
  "usage_scope db e \<longleftrightarrow>
     list_ex (\<lambda>w. ws_id w = ue_workspace_id e \<and> ws_organization_id w = ue_organization_id e
        \<and> ws_member_id w = ue_membership_id e
        \<and> list_ex (\<lambda>m. mb_id m = ws_member_id w \<and> mb_organizationId m = ue_organization_id e) (members db))
     (workspaces db)"

section \<open>Recording\<close>

record usage_input =
  uin_eventId :: string
  uin_organizationId :: string
  uin_membershipId :: string
  uin_workspaceId :: string
  uin_sessionId :: string
  uin_sessionDisplayName :: "string option"
  uin_agentId :: "string option"
  uin_provider :: string
  uin_model :: string
  uin_inputTokens :: js_num
  uin_outputTokens :: js_num
  uin_cachedTokens :: "js_num option"
  uin_reasoningTokens :: "js_num option"
  uin_estimatedCostMicrousd :: "js_num option"
  uin_cacheSavingsMicrousd :: "js_num option"
  uin_durationMs :: "js_num option"
  uin_outcome :: "usage_outcome option"
  uin_occurredAt :: js_num
  uin_receivedAt :: "js_num option"

definition or_zero :: "js_num option \<Rightarrow> js_num" where
  "or_zero v = (case v of None \<Rightarrow> JInt 0 | Some x \<Rightarrow> x)"

text \<open>The columns of the statement, in the order the code validates them.\<close>

definition usage_row :: "usage_input \<Rightarrow> js_num \<Rightarrow> db_error + usage_event_row" where
  "usage_row inp now =
     sbind (requiredUsageText (uin_eventId inp) ''eventId'') (\<lambda>eventId.
     sbind (requiredUsageText (uin_organizationId inp) ''organizationId'') (\<lambda>organizationId.
     sbind (requiredUsageText (uin_membershipId inp) ''membershipId'') (\<lambda>membershipId.
     sbind (requiredUsageText (uin_workspaceId inp) ''workspaceId'') (\<lambda>workspaceId.
     sbind (requiredUsageText (uin_sessionId inp) ''sessionId'') (\<lambda>sessionId.
     sbind (requiredUsageText (uin_provider inp) ''provider'') (\<lambda>provider.
     sbind (requiredUsageText (uin_model inp) ''model'') (\<lambda>model.
     sbind (nonNegativeInteger (uin_inputTokens inp) ''inputTokens'') (\<lambda>inputTokens.
     sbind (nonNegativeInteger (uin_outputTokens inp) ''outputTokens'') (\<lambda>outputTokens.
     sbind (nonNegativeInteger (or_zero (uin_cachedTokens inp)) ''cachedTokens'') (\<lambda>cachedTokens.
     sbind (nonNegativeInteger (or_zero (uin_reasoningTokens inp)) ''reasoningTokens'') (\<lambda>reasoningTokens.
     sbind (nonNegativeInteger (or_zero (uin_estimatedCostMicrousd inp)) ''estimatedCostMicrousd'') (\<lambda>cost.
     sbind (nonNegativeInteger (or_zero (uin_cacheSavingsMicrousd inp)) ''cacheSavingsMicrousd'') (\<lambda>savings.
     sbind (nonNegativeInteger (uin_occurredAt inp) ''occurredAt'') (\<lambda>occurredAt.
     sbind (nonNegativeInteger (case uin_receivedAt inp of None \<Rightarrow> now | Some x \<Rightarrow> x) ''receivedAt'') (\<lambda>receivedAt.
     sbind (case uin_durationMs inp of None \<Rightarrow> Inr None
            | Some d \<Rightarrow> sbind (nonNegativeInteger d ''durationMs'') (\<lambda>x. Inr (Some x))) (\<lambda>durationMs.
     Inr \<lparr>ue_event_id = eventId, ue_organization_id = organizationId, ue_membership_id = membershipId,
          ue_workspace_id = workspaceId, ue_session_id = sessionId,
          ue_session_display_name = trim_or_null (uin_sessionDisplayName inp),
          ue_agent_id = trim_or_null (uin_agentId inp), ue_provider = provider, ue_model = model,
          ue_input_tokens = inputTokens, ue_output_tokens = outputTokens, ue_cached_tokens = cachedTokens,
          ue_reasoning_tokens = reasoningTokens, ue_estimated_cost_microusd = cost,
          ue_cache_savings_microusd = savings, ue_duration_ms = durationMs,
          ue_outcome = (case uin_outcome inp of None \<Rightarrow> UsageSuccess | Some x \<Rightarrow> x),
          ue_occurred_at = occurredAt, ue_received_at = receivedAt\<rparr>))))))))))))))))"

text \<open>What a redelivered event may still add: a display name, and a cost or savings that were zero.\<close>

definition adds_usage :: "usage_event_row \<Rightarrow> usage_event_row \<Rightarrow> bool" where
  "adds_usage excluded e \<longleftrightarrow>
     (ue_session_display_name excluded \<noteq> None \<and> ue_session_display_name excluded \<noteq> ue_session_display_name e)
     \<or> (ue_estimated_cost_microusd e = 0 \<and> ue_estimated_cost_microusd excluded > 0)
     \<or> (ue_cache_savings_microusd e = 0 \<and> ue_cache_savings_microusd excluded > 0)"

definition enriched_row :: "usage_event_row \<Rightarrow> usage_event_row \<Rightarrow> usage_event_row" where
  "enriched_row excluded e =
     e\<lparr>ue_session_display_name := (case ue_session_display_name excluded of
           None \<Rightarrow> ue_session_display_name e | Some n \<Rightarrow> Some n),
       ue_estimated_cost_microusd := (if ue_estimated_cost_microusd e = 0
           then ue_estimated_cost_microusd excluded else ue_estimated_cost_microusd e),
       ue_cache_savings_microusd := (if ue_cache_savings_microusd e = 0
           then ue_cache_savings_microusd excluded else ue_cache_savings_microusd e)\<rparr>"

definition store_usage :: "usage_event_row \<Rightarrow> nat dbop" where
  "store_usage e = atomic (
     obind (oget (\<lambda>db. usage_scope db e)) (\<lambda>scoped.
     obind (olift (require scoped (SqliteAbort ''usage event scope does not match workspace ownership''))) (\<lambda>_.
     obind (upsert_in usage_events set_usage_events usage_event_schema ue_event_id e (adds_usage e) (enriched_row e)) (\<lambda>changes.
     obind (oget (find_organization (ue_organization_id e))) (\<lambda>organization.
     if organization = None then othrow SqliteForeignKey else oreturn changes)))))"

definition recordUsageEvent :: "usage_input \<Rightarrow> js_num \<Rightarrow> bool dbop" where
  "recordUsageEvent inp now =
     obind (olift (usage_row inp now)) (\<lambda>e.
     obind (store_usage e) (\<lambda>changes. oreturn (changes = 1)))"

section \<open>Sums and groups\<close>

record usage_totals =
  ut_modelTurns :: nat
  ut_inputTokens :: int
  ut_outputTokens :: int
  ut_cachedTokens :: int
  ut_reasoningTokens :: int
  ut_totalTokens :: int
  ut_estimatedCostMicrousd :: int
  ut_cacheSavingsMicrousd :: int

definition usage_sum :: "(usage_event_row \<Rightarrow> int) \<Rightarrow> usage_event_row list \<Rightarrow> int" where
  "usage_sum f rows = sum_list (map f rows)"

definition toUsageTotals :: "usage_event_row list \<Rightarrow> usage_totals" where
  "toUsageTotals rows =
     \<lparr>ut_modelTurns = length rows,
      ut_inputTokens = usage_sum ue_input_tokens rows,
      ut_outputTokens = usage_sum ue_output_tokens rows,
      ut_cachedTokens = usage_sum ue_cached_tokens rows,
      ut_reasoningTokens = usage_sum ue_reasoning_tokens rows,
      ut_totalTokens = usage_sum ue_input_tokens rows + usage_sum ue_output_tokens rows,
      ut_estimatedCostMicrousd = usage_sum ue_estimated_cost_microusd rows,
      ut_cacheSavingsMicrousd = usage_sum ue_cache_savings_microusd rows\<rparr>"

text \<open>\<open>GROUP BY key\<close>: the groups in the order of their key, which an \<open>ORDER BY\<close> may refine.\<close>

definition group_rows :: "('r \<Rightarrow> 'k :: linorder) \<Rightarrow> 'r list \<Rightarrow> ('k \<times> 'r list) list" where
  "group_rows key rows = map (\<lambda>k. (k, filter (\<lambda>r. key r = k) rows)) (sort (remdups (map key rows)))"

text \<open>\<open>strftime('%Y-%m-%d', t / 1000, 'unixepoch')\<close>: the civil date in the Gregorian calendar, counted in
  eras of 400 years from 1 March; a time after the year 9999 gives \<open>NULL\<close>.\<close>

definition civil_from_days :: "int \<Rightarrow> int \<times> int \<times> int" where
  "civil_from_days days =
     (let z = days + 719468;
          era = z div 146097;
          doe = z mod 146097;
          yoe = (doe - doe div 1460 + doe div 36524 - doe div 146096) div 365;
          doy = doe - (365 * yoe + yoe div 4 - yoe div 100);
          mp = (5 * doy + 2) div 153;
          month = (if mp < 10 then mp + 3 else mp - 9)
      in (yoe + era * 400 + (if month \<le> 2 then 1 else 0), month, doy - (153 * mp + 2) div 5 + 1))"

definition pad :: "nat \<Rightarrow> int \<Rightarrow> string" where
  "pad n v = (let s = show_int v in replicate (n - length s) CHR ''0'' @ s)"

definition usage_date :: "int \<Rightarrow> string option" where
  "usage_date occurredAt =
     (let seconds = occurredAt div 1000 in
      if seconds > 253402300799 then None
      else case civil_from_days (seconds div 86400) of
        (y, m, d) \<Rightarrow> Some (pad 4 y @ ''-'' @ pad 2 m @ ''-'' @ pad 2 d))"

section \<open>Summaries\<close>

record session_summary =
  uss_sessionId :: string
  uss_displayName :: string
  uss_lastOccurredAt :: int
  uss_totals :: usage_totals

record model_summary =
  ums_provider :: string
  ums_model :: string
  ums_totals :: usage_totals

record day_summary =
  uds_date :: "string option"
  uds_totals :: usage_totals

record model_day_summary =
  umd_date :: "string option"
  umd_provider :: string
  umd_model :: string
  umd_totals :: usage_totals

record personal_usage =
  pus_organizationId :: string
  pus_membershipId :: string
  pus_rangeDays :: int
  pus_totals :: usage_totals
  pus_sessions :: "session_summary list"
  pus_models :: "model_summary list"
  pus_timeline :: "day_summary list"
  pus_modelTimeline :: "model_day_summary list"

definition session_name :: "string \<Rightarrow> usage_event_row list \<Rightarrow> string" where
  "session_name sessionId rows =
     (case List.map_filter ue_session_display_name rows of [] \<Rightarrow> sessionId | n # ns \<Rightarrow> fold max ns n)"

definition session_summary_of :: "string \<times> usage_event_row list \<Rightarrow> session_summary" where
  "session_summary_of g =
     \<lparr>uss_sessionId = fst g, uss_displayName = session_name (fst g) (snd g),
      uss_lastOccurredAt = fold max (map ue_occurred_at (snd g)) 0, uss_totals = toUsageTotals (snd g)\<rparr>"

definition usage_sessions :: "usage_event_row list \<Rightarrow> session_summary list" where
  "usage_sessions rows =
     take 20 (sort_key (\<lambda>s. (- uss_lastOccurredAt s, uss_sessionId s))
       (map session_summary_of (group_rows ue_session_id rows)))"

definition usage_models :: "usage_event_row list \<Rightarrow> model_summary list" where
  "usage_models rows =
     sort_key (\<lambda>m. (- ut_totalTokens (ums_totals m), ums_model m))
       (map (\<lambda>((p, m), rs). \<lparr>ums_provider = p, ums_model = m, ums_totals = toUsageTotals rs\<rparr>)
         (group_rows (\<lambda>e. (ue_provider e, ue_model e)) rows))"

definition usage_timeline :: "usage_event_row list \<Rightarrow> day_summary list" where
  "usage_timeline rows =
     map (\<lambda>(d, rs). \<lparr>uds_date = d, uds_totals = toUsageTotals rs\<rparr>)
       (group_rows (\<lambda>e. usage_date (ue_occurred_at e)) rows)"

definition usage_model_timeline :: "usage_event_row list \<Rightarrow> model_day_summary list" where
  "usage_model_timeline rows =
     map (\<lambda>((d, p, m), rs). \<lparr>umd_date = d, umd_provider = p, umd_model = m, umd_totals = toUsageTotals rs\<rparr>)
       (group_rows (\<lambda>e. (usage_date (ue_occurred_at e), ue_provider e, ue_model e)) rows)"

definition getPersonalUsageSummary ::
  "string \<Rightarrow> string \<Rightarrow> int \<Rightarrow> int \<Rightarrow> cloud_db \<Rightarrow> db_error + personal_usage"
where
  "getPersonalUsageSummary userId organizationId since rangeDays db =
     (case find_membership userId organizationId db of
        None \<Rightarrow> Inl WorkspaceMembershipNotFoundError
      | Some m \<Rightarrow>
          let rows = filter (\<lambda>e. ue_membership_id e = mb_id m \<and> ue_occurred_at e \<ge> since) (usage_events db)
          in Inr \<lparr>pus_organizationId = organizationId, pus_membershipId = mb_id m, pus_rangeDays = rangeDays,
               pus_totals = toUsageTotals rows, pus_sessions = usage_sessions rows,
               pus_models = usage_models rows, pus_timeline = usage_timeline rows,
               pus_modelTimeline = usage_model_timeline rows\<rparr>)"

record member_usage =
  mus_membershipId :: string
  mus_userId :: string
  mus_name :: string
  mus_totals :: usage_totals

record organization_usage =
  ous_organizationId :: string
  ous_rangeDays :: int
  ous_totals :: usage_totals
  ous_members :: "member_usage list"

definition member_usage_of :: "int \<Rightarrow> cloud_db \<Rightarrow> member_row \<Rightarrow> member_usage option" where
  "member_usage_of since db m =
     map_option (\<lambda>u. \<lparr>mus_membershipId = mb_id m, mus_userId = mb_userId m, mus_name = us_name u,
         mus_totals = toUsageTotals
           (filter (\<lambda>e. ue_membership_id e = mb_id m \<and> ue_occurred_at e \<ge> since) (usage_events db))\<rparr>)
       (find_user (mb_userId m) db)"

definition getOrganizationUsageSummary ::
  "string \<Rightarrow> string \<Rightarrow> int \<Rightarrow> int \<Rightarrow> cloud_db \<Rightarrow> db_error + organization_usage"
where
  "getOrganizationUsageSummary userId organizationId since rangeDays db =
     (case find_membership userId organizationId db of
        None \<Rightarrow> Inl UsageAccessDeniedError
      | Some actor \<Rightarrow>
          if \<not> is_admin_role (mb_role actor) then Inl UsageAccessDeniedError
          else Inr \<lparr>ous_organizationId = organizationId, ous_rangeDays = rangeDays,
            ous_totals = toUsageTotals
              (filter (\<lambda>e. ue_organization_id e = organizationId \<and> ue_occurred_at e \<ge> since) (usage_events db)),
            ous_members = List.map_filter (member_usage_of since db)
              (sort_key mb_id (filter (\<lambda>m. mb_organizationId m = organizationId) (members db)))\<rparr>)"

section \<open>The groups add up\<close>

text \<open>The sum of a list of totals, column by column.\<close>

definition sum_totals :: "usage_totals list \<Rightarrow> usage_totals" where
  "sum_totals ts =
     \<lparr>ut_modelTurns = sum_list (map ut_modelTurns ts),
      ut_inputTokens = sum_list (map ut_inputTokens ts),
      ut_outputTokens = sum_list (map ut_outputTokens ts),
      ut_cachedTokens = sum_list (map ut_cachedTokens ts),
      ut_reasoningTokens = sum_list (map ut_reasoningTokens ts),
      ut_totalTokens = sum_list (map ut_totalTokens ts),
      ut_estimatedCostMicrousd = sum_list (map ut_estimatedCostMicrousd ts),
      ut_cacheSavingsMicrousd = sum_list (map ut_cacheSavingsMicrousd ts)\<rparr>"

lemma sum_list_single:
  fixes v :: "'v :: comm_monoid_add"
  assumes "distinct ks" and "k \<in> set ks"
  shows "sum_list (map (\<lambda>x. if k = x then v else 0) ks) = v"
  using assms by (simp add: sum_list_distinct_conv_sum_set)

lemma sum_over_groups:
  fixes f :: "'r \<Rightarrow> 'v :: comm_monoid_add"
  assumes "distinct ks" and "key ` set rows \<subseteq> set ks"
  shows "sum_list (map (\<lambda>k. sum_list (map f (filter (\<lambda>r. key r = k) rows))) ks) = sum_list (map f rows)"
  using assms(2)
proof (induction rows)
  case (Cons r rows)
  have "sum_list (map (\<lambda>k. sum_list (map f (filter (\<lambda>x. key x = k) (r # rows)))) ks)
      = sum_list (map (\<lambda>k. (if key r = k then f r else 0) + sum_list (map f (filter (\<lambda>x. key x = k) rows))) ks)"
    by (rule arg_cong [where f = sum_list]) (simp cong: map_cong)
  also have "\<dots> = sum_list (map (\<lambda>k. if key r = k then f r else 0) ks)
      + sum_list (map (\<lambda>k. sum_list (map f (filter (\<lambda>x. key x = k) rows))) ks)"
    by (simp add: sum_list_addf)
  finally show ?case using Cons assms(1) by (simp add: sum_list_single)
qed simp

lemma count_over_groups:
  assumes "distinct ks" and "key ` set rows \<subseteq> set ks"
  shows "sum_list (map (\<lambda>k. length (filter (\<lambda>r. key r = k) rows)) ks) = length rows"
  using sum_over_groups [OF assms, of "\<lambda>_. 1 :: nat"] by (simp add: sum_list_triv)

lemma totals_over_groups:
  assumes "distinct ks" and "key ` set rows \<subseteq> set ks"
  shows "sum_totals (map (\<lambda>k. toUsageTotals (filter (\<lambda>r. key r = k) rows)) ks) = toUsageTotals rows"
  by (simp add: sum_totals_def toUsageTotals_def usage_sum_def comp_def sum_list_addf
      count_over_groups [OF assms] sum_over_groups [OF assms])

lemma totals_of_group_rows: "sum_totals (map (\<lambda>g. toUsageTotals (snd g)) (group_rows key rows)) = toUsageTotals rows"
  using totals_over_groups [of "sort (remdups (map key rows))" key rows] by (simp add: group_rows_def comp_def)

lemma sum_totals_sort: "sum_totals (map f (sort_key k xs)) = sum_totals (map f xs)"
proof -
  have "sum_list (map g (sort_key k xs)) = sum_list (map g xs)" for g :: "'a \<Rightarrow> int"
    by (metis mset_map mset_sort sum_mset_sum_list)
  moreover have "sum_list (map g (sort_key k xs)) = sum_list (map g xs)" for g :: "'a \<Rightarrow> nat"
    by (metis mset_map mset_sort sum_mset_sum_list)
  ultimately show ?thesis by (simp add: sum_totals_def comp_def)
qed

lemma personal_groups_add_up:
  "sum_totals (map ums_totals (usage_models rows)) = toUsageTotals rows"
  "sum_totals (map uds_totals (usage_timeline rows)) = toUsageTotals rows"
  "sum_totals (map umd_totals (usage_model_timeline rows)) = toUsageTotals rows"
  by (simp_all add: usage_models_def usage_timeline_def usage_model_timeline_def sum_totals_sort comp_def
      case_prod_beta totals_of_group_rows)

section \<open>Recording keeps the ledger\<close>

text \<open>Every event belongs to a membership of its organization.\<close>

definition usage_scoped :: "cloud_db \<Rightarrow> bool" where
  "usage_scoped db \<longleftrightarrow>
     (\<forall>e \<in> set (usage_events db). \<exists>m \<in> set (members db).
        mb_id m = ue_membership_id e \<and> mb_organizationId m = ue_organization_id e)"

lemma enriched_row_simps [simp]:
  "ue_event_id (enriched_row x e) = ue_event_id e" "ue_membership_id (enriched_row x e) = ue_membership_id e"
  "ue_organization_id (enriched_row x e) = ue_organization_id e" "ue_occurred_at (enriched_row x e) = ue_occurred_at e"
  "ue_input_tokens (enriched_row x e) = ue_input_tokens e" "ue_output_tokens (enriched_row x e) = ue_output_tokens e"
  "ue_cached_tokens (enriched_row x e) = ue_cached_tokens e"
  "ue_reasoning_tokens (enriched_row x e) = ue_reasoning_tokens e"
  "ue_session_id (enriched_row x e) = ue_session_id e" "ue_workspace_id (enriched_row x e) = ue_workspace_id e"
  by (simp_all add: enriched_row_def)

lemma enriched_adds_nothing:
  "ue_estimated_cost_microusd x \<ge> 0 \<Longrightarrow> ue_cache_savings_microusd x \<ge> 0 \<Longrightarrow> \<not> adds_usage x (enriched_row x e)"
  "ue_estimated_cost_microusd x \<ge> 0 \<Longrightarrow> ue_cache_savings_microusd x \<ge> 0 \<Longrightarrow> \<not> adds_usage x x"
  by (auto simp: adds_usage_def enriched_row_def split: option.splits)

definition merged_usage :: "usage_event_row \<Rightarrow> usage_event_row \<Rightarrow> usage_event_row" where
  "merged_usage x e = (if ue_event_id e = ue_event_id x \<and> adds_usage x e then enriched_row x e else e)"

lemma merged_usage_simps [simp]:
  "ue_event_id (merged_usage x e) = ue_event_id e" "ue_membership_id (merged_usage x e) = ue_membership_id e"
  "ue_organization_id (merged_usage x e) = ue_organization_id e" "ue_occurred_at (merged_usage x e) = ue_occurred_at e"
  "ue_input_tokens (merged_usage x e) = ue_input_tokens e" "ue_output_tokens (merged_usage x e) = ue_output_tokens e"
  "ue_cached_tokens (merged_usage x e) = ue_cached_tokens e"
  "ue_reasoning_tokens (merged_usage x e) = ue_reasoning_tokens e"
  by (simp_all add: merged_usage_def)

lemma usage_events_only:
  "t = set_usage_events rows s \<Longrightarrow> members t = members s" "t = set_usage_events rows s \<Longrightarrow> users t = users s"
  "t = set_usage_events rows s \<Longrightarrow> find_organization g t = find_organization g s"
  "t = set_usage_events rows s \<Longrightarrow> usage_scope t x = usage_scope s x"
  "t = set_usage_events rows s \<Longrightarrow> find_user u t = find_user u s"
  "t = set_usage_events rows s \<Longrightarrow> find_membership u g t = find_membership u g s"
  by (simp_all add: set_usage_events_def find_organization_def usage_scope_def find_user_def find_membership_def)

lemma store_usage_Inr:
  assumes "store_usage x s = (Inr n, t)"
  shows "usage_scope s x" and "find_organization (ue_organization_id x) s \<noteq> None"
    and "failed_check usage_event_schema x = None" and "t = set_usage_events (usage_events t) s"
    and "(find (\<lambda>e. ue_event_id e = ue_event_id x) (usage_events s) = None \<and> n = 1
          \<and> usage_events t = usage_events s @ [x])
      \<or> (find (\<lambda>e. ue_event_id e = ue_event_id x) (usage_events s) \<noteq> None
          \<and> n = length (filter (\<lambda>e. ue_event_id e = ue_event_id x \<and> adds_usage x e) (usage_events s))
          \<and> usage_events t = map (merged_usage x) (usage_events s))"
proof -
  from assms have scope: "usage_scope s x" and org: "find_organization (ue_organization_id x) t \<noteq> None"
    and up: "upsert_in usage_events set_usage_events usage_event_schema ue_event_id x (adds_usage x) (enriched_row x) s = (Inr n, t)"
    by (auto simp: store_usage_def split: if_splits)
  show "usage_scope s x" by (rule scope)
  show "failed_check usage_event_schema x = None"
    using up by (cases "failed_check usage_event_schema x") (auto simp: ue_tbl.upsert_check)
  note rows = ue_tbl.upsert_Inr [OF up]
  show t: "t = set_usage_events (usage_events t) s" using rows by (auto simp: set_usage_events_def)
  show "find_organization (ue_organization_id x) s \<noteq> None"
    using org usage_events_only(3) [OF t] by simp
  have merged: "map (\<lambda>r. if ue_event_id r = ue_event_id x \<and> adds_usage x r then enriched_row x r else r) xs
      = map (merged_usage x) xs" for xs
    by (rule map_cong) (simp_all add: merged_usage_def)
  show "(find (\<lambda>e. ue_event_id e = ue_event_id x) (usage_events s) = None \<and> n = 1
          \<and> usage_events t = usage_events s @ [x])
      \<or> (find (\<lambda>e. ue_event_id e = ue_event_id x) (usage_events s) \<noteq> None
          \<and> n = length (filter (\<lambda>e. ue_event_id e = ue_event_id x \<and> adds_usage x e) (usage_events s))
          \<and> usage_events t = map (merged_usage x) (usage_events s))"
    using rows by (auto simp: set_usage_events_def merged)
qed

lemma store_usage_Inl: "store_usage x s = (Inl e, t) \<Longrightarrow> t = s"
  by (auto simp: store_usage_def dest: atomic_rolls_back)

lemma recordUsageEvent_Inl: "recordUsageEvent inp now s = (Inl e, t) \<Longrightarrow> t = s"
  by (auto simp: recordUsageEvent_def obind_eq_Inl operation_defs dest: store_usage_Inl)

lemma recordUsageEvent_Inr:
  assumes "recordUsageEvent inp now s = (Inr b, t)"
  obtains x n where "usage_row inp now = Inr x" and "store_usage x s = (Inr n, t)" and "b \<longleftrightarrow> n = 1"
  using assms by (auto simp: recordUsageEvent_def)

lemma store_keeps_scope:
  assumes "store_usage x s = (Inr n, t)" and "usage_scoped s"
  shows "usage_scoped t"
proof -
  note run = store_usage_Inr [OF assms(1)]
  have m: "members t = members s" by (rule usage_events_only(1) [OF run(4)])
  have "\<exists>m \<in> set (members s). mb_id m = ue_membership_id x \<and> mb_organizationId m = ue_organization_id x"
    using run(1) by (auto simp: usage_scope_def list_ex_iff)
  with assms(2) run(5) show ?thesis by (auto simp: usage_scoped_def m)
qed

inductive usage_step :: "cloud_db \<Rightarrow> cloud_db \<Rightarrow> bool" where
  record_usage: "recordUsageEvent inp now s = (r, t) \<Longrightarrow> usage_step s t"

inductive_cases usage_stepE: "usage_step s t"

lemma usage_step_keeps:
  assumes "usage_step s t"
  shows "usage_scoped s \<Longrightarrow> usage_scoped t" and "members t = members s" and "users t = users s"
proof -
  from assms obtain inp now r where run: "recordUsageEvent inp now s = (r, t)" by (rule usage_stepE)
  show "usage_scoped s \<Longrightarrow> usage_scoped t"
    using run by (cases r) (auto dest: recordUsageEvent_Inl store_keeps_scope elim: recordUsageEvent_Inr)
  have "t = set_usage_events (usage_events t) s"
    using run by (cases r) (auto simp: set_usage_events_def dest!: recordUsageEvent_Inl
        elim!: recordUsageEvent_Inr dest: store_usage_Inr(4))
  then show "members t = members s" "users t = users s" by (rule usage_events_only)+
qed

definition usage_inv :: "member_row list \<Rightarrow> user_row list \<Rightarrow> cloud_db \<Rightarrow> bool" where
  "usage_inv ms us db \<longleftrightarrow> usage_scoped db \<and> members db = ms \<and> users db = us"

interpretation ledger: invariant_system usage_step "usage_inv ms us" for ms us
  by unfold_locales (use usage_step_keeps in \<open>auto simp: usage_inv_def\<close>)

text \<open>Recording a known event again, with the same name, cost and savings, adds nothing.\<close>

lemma store_usage_again:
  assumes "store_usage x s = (Inr n, t)" and "ue_event_id y = ue_event_id x"
    and "ue_organization_id y = ue_organization_id x" and "ue_membership_id y = ue_membership_id x"
    and "ue_workspace_id y = ue_workspace_id x" and "ue_session_display_name y = ue_session_display_name x"
    and "ue_estimated_cost_microusd y = ue_estimated_cost_microusd x"
    and "ue_cache_savings_microusd y = ue_cache_savings_microusd x"
    and "failed_check usage_event_schema y = None"
  shows "store_usage y t = (Inr 0, t)"
proof -
  note run = store_usage_Inr [OF assms(1)]
  have "row_ok usage_event_schema x" using run(3) by (simp add: row_ok_def)
  then have pos: "ue_estimated_cost_microusd x \<ge> 0" "ue_cache_savings_microusd x \<ge> 0"
    by (simp_all add: row_ok_iff usage_event_schema_def)
  have same: "adds_usage y e = adds_usage x e" for e
    using assms(6-8) by (simp add: adds_usage_def)
  have none: "\<forall>e \<in> set (usage_events t). \<not> (ue_event_id e = ue_event_id y \<and> adds_usage y e)"
    using run(5) assms(2) enriched_adds_nothing [OF pos]
    by (auto simp: same merged_usage_def find_None_iff split: if_splits)
  have "find (\<lambda>e. ue_event_id e = ue_event_id y) (usage_events t) \<noteq> None"
    using run(5) assms(2) by (auto simp: find_None_iff)
  with none assms(9) have "upsert_in usage_events set_usage_events usage_event_schema ue_event_id y (adds_usage y)
      (enriched_row y) t = (Inr 0, t)"
    by (auto simp: upsert_in_def obind_def operation_defs update_in_def sql_update_none ue_tbl.put_get)
  moreover have "usage_scope t y" "find_organization (ue_organization_id y) t \<noteq> None"
    using run(1,2) usage_events_only [OF run(4)] assms(3-5) by (simp_all add: usage_scope_def)
  ultimately show ?thesis
    by (simp add: store_usage_def atomic_def obind_def operation_defs)
qed

text \<open>What the sums count of an event, and what the input says of it.\<close>

definition counted :: "usage_event_row \<Rightarrow> (string \<times> string \<times> string \<times> int) \<times> int \<times> int \<times> int \<times> int" where
  "counted e = ((ue_event_id e, ue_organization_id e, ue_membership_id e, ue_occurred_at e),
     ue_input_tokens e, ue_output_tokens e, ue_cached_tokens e, ue_reasoning_tokens e)"

definition offered :: "usage_input \<Rightarrow> (string \<times> string \<times> string \<times> int) \<times> int \<times> int \<times> int \<times> int" where
  "offered inp = ((trim (uin_eventId inp), trim (uin_organizationId inp), trim (uin_membershipId inp),
       int_value (uin_occurredAt inp)), int_value (uin_inputTokens inp), int_value (uin_outputTokens inp),
     int_value (or_zero (uin_cachedTokens inp)), int_value (or_zero (uin_reasoningTokens inp)))"

lemma counted_merged: "map counted (map (merged_usage x) es) = map counted es"
  by (simp add: counted_def)

lemma nonNegativeInteger_JInt: "0 \<le> n \<Longrightarrow> n \<le> MAX_SAFE_INTEGER \<Longrightarrow> nonNegativeInteger (JInt n) f = Inr n"
  by (simp add: nonNegativeInteger_Inr)

lemma usage_row_Inr:
  assumes "usage_row inp now = Inr x"
  shows "ue_event_id x = trim (uin_eventId inp)" and "counted x = offered inp"
    and "later = JInt l \<Longrightarrow> 0 \<le> l \<Longrightarrow> l \<le> MAX_SAFE_INTEGER \<Longrightarrow>
      usage_row inp later = Inr (x\<lparr>ue_received_at := (case uin_receivedAt inp of None \<Rightarrow> l | Some r \<Rightarrow> int_value r)\<rparr>)"
proof -
  show "ue_event_id x = trim (uin_eventId inp)" "counted x = offered inp"
    using assms by (auto simp: usage_row_def requiredUsageText_def nonNegativeInteger_Inr Let_def counted_def offered_def
        split: if_splits)
  show "later = JInt l \<Longrightarrow> 0 \<le> l \<Longrightarrow> l \<le> MAX_SAFE_INTEGER \<Longrightarrow>
      usage_row inp later = Inr (x\<lparr>ue_received_at := (case uin_receivedAt inp of None \<Rightarrow> l | Some r \<Rightarrow> int_value r)\<rparr>)"
    using assms by (cases "uin_receivedAt inp")
      (auto simp: usage_row_def nonNegativeInteger_Inr nonNegativeInteger_JInt elim!: sbind_InrE)
qed

lemma map_filter_total:
  "\<forall>x \<in> set xs. \<exists>y. f x = Some y \<and> h y = g x \<Longrightarrow> map h (List.map_filter f xs) = map g xs"
  by (induction xs) (auto simp: map_filter_Cons)

section \<open>Properties\<close>

text \<open>The ledger counts every event once. Recording an event again reports nothing new and changes nothing; a
  call for a known event leaves all that the sums count as it was, and a call for a new one adds exactly
  what it offers.\<close>

theorem recordUsageEvent_counts_once:
  assumes "recordUsageEvent inp now s = (Inr b, t)" and "0 \<le> l" and "l \<le> MAX_SAFE_INTEGER"
  shows "recordUsageEvent inp (JInt l) t = (Inr False, t)
    \<and> map counted (usage_events t) = map counted (usage_events s)
        @ (if trim (uin_eventId inp) \<in> ue_event_id ` set (usage_events s) then [] else [offered inp])"
proof -
  from assms(1) obtain x n where x: "usage_row inp now = Inr x" and run: "store_usage x s = (Inr n, t)"
    by (rule recordUsageEvent_Inr)
  let ?y = "x\<lparr>ue_received_at := (case uin_receivedAt inp of None \<Rightarrow> l | Some r \<Rightarrow> int_value r)\<rparr>"
  have y: "usage_row inp (JInt l) = Inr ?y" by (rule usage_row_Inr(3) [OF x refl assms(2,3)])
  have "failed_check usage_event_schema ?y = None"
    using store_usage_Inr(3) [OF run] by (simp add: failed_check_def usage_event_schema_def split: if_splits)
  then have "store_usage ?y t = (Inr 0, t)" by (intro store_usage_again [OF run]) simp_all
  with y have "recordUsageEvent inp (JInt l) t = (Inr False, t)"
    by (simp add: recordUsageEvent_def obind_def operation_defs)
  moreover have "map counted (usage_events t) = map counted (usage_events s)
      @ (if trim (uin_eventId inp) \<in> ue_event_id ` set (usage_events s) then [] else [offered inp])"
  proof -
    have "trim (uin_eventId inp) \<in> ue_event_id ` set (usage_events s)
        \<longleftrightarrow> find (\<lambda>e. ue_event_id e = ue_event_id x) (usage_events s) \<noteq> None"
      by (auto simp: usage_row_Inr(1) [OF x] find_None_iff intro: rev_image_eqI)
    with store_usage_Inr(5) [OF run] usage_row_Inr(2) [OF x] show ?thesis
      by (auto simp: counted_merged simp del: map_map)
  qed
  ultimately show ?thesis by blast
qed

text \<open>In every history of recorded events, the usage an administrator sees for the organization is, column by
  column, the sum of what he sees for its members.\<close>

theorem organization_usage_adds_up:
  assumes "usage_step\<^sup>*\<^sup>* s t" and "usage_events s = []" and "distinct (map mb_id (members s))"
    and "\<forall>m \<in> set (members s). find_user (mb_userId m) s \<noteq> None"
    and "getOrganizationUsageSummary u g since days t = Inr summary"
  shows "ous_totals summary = sum_totals (map mus_totals (ous_members summary))"
proof -
  have "usage_inv (members s) (users s) s" using assms(2) by (simp add: usage_inv_def usage_scoped_def)
  from ledger.run_inv [OF assms(1) this]
  have scoped: "usage_scoped t" and ms: "members t = members s" and us: "users t = users s"
    by (simp_all add: usage_inv_def)
  let ?ms = "sort_key mb_id (filter (\<lambda>m. mb_organizationId m = g) (members t))"
  let ?rows = "filter (\<lambda>e. ue_organization_id e = g \<and> ue_occurred_at e \<ge> since) (usage_events t)"
  have same: "m = m'" if "m \<in> set (members t)" "m' \<in> set (members t)" "mb_id m = mb_id m'" for m m'
    using assms(3) that by (auto simp: ms distinct_map dest: inj_onD)
  have home: "ue_organization_id e = mb_organizationId m"
    if "e \<in> set (usage_events t)" "m \<in> set (members t)" "ue_membership_id e = mb_id m" for e m
  proof -
    from scoped that(1) obtain m' where "m' \<in> set (members t)" "mb_id m' = ue_membership_id e"
      "mb_organizationId m' = ue_organization_id e" by (auto simp: usage_scoped_def)
    with same [of m' m] that show ?thesis by simp
  qed
  have mine: "filter (\<lambda>e. ue_membership_id e = mb_id m \<and> ue_occurred_at e \<ge> since) (usage_events t)
      = filter (\<lambda>e. ue_membership_id e = mb_id m) ?rows" if "m \<in> set ?ms" for m
    using that home by (auto intro!: filter_cong)
  have "\<exists>y. member_usage_of since t m = Some y
      \<and> mus_totals y = toUsageTotals (filter (\<lambda>e. ue_membership_id e = mb_id m) ?rows)" if "m \<in> set ?ms" for m
  proof -
    from that assms(4) have "find_user (mb_userId m) t \<noteq> None" by (simp add: find_user_def ms us)
    then show ?thesis by (auto simp: member_usage_of_def mine [OF that] simp del: filter_filter)
  qed
  then have "map mus_totals (List.map_filter (member_usage_of since t) ?ms)
      = map (\<lambda>m. toUsageTotals (filter (\<lambda>e. ue_membership_id e = mb_id m) ?rows)) ?ms"
    by (intro map_filter_total) simp
  then have "map mus_totals (List.map_filter (member_usage_of since t) ?ms)
      = map (\<lambda>k. toUsageTotals (filter (\<lambda>e. ue_membership_id e = k) ?rows)) (map mb_id ?ms)"
    by (simp add: comp_def)
  moreover have "sum_totals (map (\<lambda>k. toUsageTotals (filter (\<lambda>e. ue_membership_id e = k) ?rows)) (map mb_id ?ms))
      = toUsageTotals ?rows"
  proof (rule totals_over_groups)
    show "distinct (map mb_id ?ms)" using assms(3) by (simp add: ms distinct_map inj_on_def)
    show "ue_membership_id ` set ?rows \<subseteq> set (map mb_id ?ms)"
      using scoped by (auto simp: usage_scoped_def image_iff) metis
  qed
  ultimately show ?thesis
    using assms(5) by (auto simp: getOrganizationUsageSummary_def split: option.splits if_splits)
qed

section \<open>The properties on a concrete ledger\<close>

definition usage_db :: cloud_db where
  "usage_db = sample_db\<lparr>workspaces := [new_workspace ''w1'' ''m1'' ''o1'' 5]\<rparr>"

definition sample_turn :: usage_input where
  "sample_turn = \<lparr>uin_eventId = ''e1'', uin_organizationId = ''o1'', uin_membershipId = ''m1'', uin_workspaceId = ''w1'',
     uin_sessionId = ''s1'', uin_sessionDisplayName = None, uin_agentId = None, uin_provider = ''p'', uin_model = ''m'',
     uin_inputTokens = JInt 7, uin_outputTokens = JInt 5, uin_cachedTokens = None, uin_reasoningTokens = None,
     uin_estimatedCostMicrousd = None, uin_cacheSavingsMicrousd = None, uin_durationMs = None, uin_outcome = None,
     uin_occurredAt = JInt 1000, uin_receivedAt = None\<rparr>"

lemma turn_runs: "\<exists>t. recordUsageEvent sample_turn (JInt 2000) usage_db = (Inr True, t)
  \<and> (\<exists>summary. getOrganizationUsageSummary ''u1'' ''o1'' 0 30 t = Inr summary \<and> ut_totalTokens (ous_totals summary) = 12)"
  by (simp add: recordUsageEvent_def usage_row_def sample_turn_def usage_db_def sample_run new_workspace_def or_zero_def
      requiredUsageText_def nonNegativeInteger_def trim_def js_space_def is_safe_int_def MAX_SAFE_INTEGER_def
      trim_or_null_def store_usage_def usage_scope_def upsert_in_def usage_event_schema_def set_usage_events_def
      getOrganizationUsageSummary_def is_admin_role_def toUsageTotals_def usage_sum_def Let_def)

theorem recordUsageEvent_counts_once_witness:
  "\<exists>t. recordUsageEvent sample_turn (JInt 2000) usage_db = (Inr True, t)
     \<and> recordUsageEvent sample_turn (JInt 9000) t = (Inr False, t)
     \<and> map counted (usage_events t) = [((''e1'', ''o1'', ''m1'', 1000), 7, 5, 0, 0)]"
proof -
  obtain t where run: "recordUsageEvent sample_turn (JInt 2000) usage_db = (Inr True, t)" using turn_runs by blast
  have "usage_events usage_db = []" by (simp add: usage_db_def sample_db_def empty_db_def)
  moreover have "offered sample_turn = ((''e1'', ''o1'', ''m1'', 1000), 7, 5, 0, 0)"
    by (simp add: offered_def sample_turn_def or_zero_def trim_def js_space_def)
  ultimately show ?thesis
    using recordUsageEvent_counts_once [OF run, of 9000] run by (simp add: MAX_SAFE_INTEGER_def)
qed

theorem organization_usage_adds_up_witness:
  "\<exists>t summary. usage_step usage_db t \<and> getOrganizationUsageSummary ''u1'' ''o1'' 0 30 t = Inr summary
     \<and> ut_totalTokens (sum_totals (map mus_totals (ous_members summary))) = 12"
proof -
  obtain t summary where run: "recordUsageEvent sample_turn (JInt 2000) usage_db = (Inr True, t)"
    and summary: "getOrganizationUsageSummary ''u1'' ''o1'' 0 30 t = Inr summary"
    and twelve: "ut_totalTokens (ous_totals summary) = 12" using turn_runs by blast
  have step: "usage_step usage_db t" using run by (rule usage_step.record_usage)
  have "usage_events usage_db = []" "distinct (map mb_id (members usage_db))"
    "\<forall>m \<in> set (members usage_db). find_user (mb_userId m) usage_db \<noteq> None"
    by (simp_all add: usage_db_def sample_db_def empty_db_def find_user_def)
  moreover from step have "usage_step\<^sup>*\<^sup>* usage_db t" by blast
  ultimately have "ous_totals summary = sum_totals (map mus_totals (ous_members summary))"
    using organization_usage_adds_up summary by blast
  with twelve have "ut_totalTokens (sum_totals (map mus_totals (ous_members summary))) = 12" by simp
  with step summary show ?thesis by blast
qed

end
