(* ===== verification/Entitlements.thy ===== *)
theory Entitlements
  imports Workspaces
begin

text \<open>
  Operator entitlements: one per membership, with a state, a source and a period. They decide
  who may run a paid Operator; the Stripe projection and the administrators write them.
\<close>

section \<open>Rows\<close>

record operator_entitlement =
  oe_membershipId :: string
  oe_organizationId :: string
  oe_state :: entitlement_state
  oe_source :: entitlement_source
  oe_startsAt :: int
  oe_endsAt :: "int option"
  oe_createdAt :: int
  oe_updatedAt :: int

text \<open>The \<open>kind\<close> column has the single value \<open>operator\<close> and is left out.\<close>

definition toOperatorEntitlement :: "entitlement_row \<Rightarrow> operator_entitlement" where
  "toOperatorEntitlement row =
     \<lparr>oe_membershipId = en_membership_id row, oe_organizationId = en_organization_id row,
      oe_state = en_state row, oe_source = en_source row, oe_startsAt = en_starts_at row,
      oe_endsAt = en_ends_at row, oe_createdAt = en_created_at row, oe_updatedAt = en_updated_at row\<rparr>"

definition entitlement_schema :: "entitlement_row schema" where
  "entitlement_schema =
     \<lparr>checks =
        [(''ends_at IS NULL OR ends_at > starts_at'',
            \<lambda>e. case en_ends_at e of None \<Rightarrow> True | Some t \<Rightarrow> t > en_starts_at e),
         (''source != beta OR ends_at IS NOT NULL'',
            \<lambda>e. en_source e \<noteq> SrcBeta \<or> en_ends_at e \<noteq> None)],
      uniques = [(''entitlement.membership_id'', \<lambda>e. Some [SText (en_membership_id e)])]\<rparr>"

definition set_entitlements :: "entitlement_row list \<Rightarrow> cloud_db \<Rightarrow> cloud_db" where
  "set_entitlements rows db = db\<lparr>entitlements := rows\<rparr>"

interpretation en_tbl: sql_table entitlements set_entitlements entitlement_schema
  by unfold_locales (simp_all add: set_entitlements_def)

text \<open>The two guard triggers of the table.\<close>

definition entitlement_membership_guard :: "string \<Rightarrow> string \<Rightarrow> cloud_db \<Rightarrow> db_error + unit" where
  "entitlement_membership_guard membershipId organizationId db =
     require (list_ex (\<lambda>m. mb_id m = membershipId \<and> mb_organizationId m = organizationId) (members db))
       (SqliteAbort ''entitlement membership does not belong to organization'')"

text \<open>
  \<open>INSERT INTO entitlement \<dots> ON CONFLICT(membership_id) DO UPDATE SET \<dots>\<close> as both writers
  use it: the row keeps its creation time, everything else is replaced.
\<close>

definition replaced_entitlement :: "entitlement_row \<Rightarrow> entitlement_row \<Rightarrow> entitlement_row" where
  "replaced_entitlement excluded r =
     r\<lparr>en_organization_id := en_organization_id excluded, en_state := en_state excluded,
       en_source := en_source excluded, en_starts_at := en_starts_at excluded,
       en_ends_at := en_ends_at excluded, en_updated_at := en_updated_at excluded\<rparr>"

definition upsert_entitlement :: "entitlement_row \<Rightarrow> nat dbop" where
  "upsert_entitlement e = atomic (
     obind (oread (entitlement_membership_guard (en_membership_id e) (en_organization_id e))) (\<lambda>_.
     obind (upsert_in entitlements set_entitlements entitlement_schema en_membership_id e
              (\<lambda>_. True) (replaced_entitlement e)) (\<lambda>changes.
     obind (oget (find_organization (en_organization_id e))) (\<lambda>organization.
     if organization = None then othrow SqliteForeignKey else oreturn changes))))"

section \<open>Operations\<close>

definition findEntitlement :: "string \<Rightarrow> string \<Rightarrow> cloud_db \<Rightarrow> entitlement_row option" where
  "findEntitlement membershipId organizationId db =
     find (\<lambda>e. en_membership_id e = membershipId \<and> en_organization_id e = organizationId) (entitlements db)"

definition getOperatorEntitlement :: "string \<Rightarrow> string \<Rightarrow> cloud_db \<Rightarrow> operator_entitlement option" where
  "getOperatorEntitlement membershipId organizationId db =
     map_option toOperatorEntitlement (findEntitlement (trim membershipId) (trim organizationId) db)"

definition entitled_row :: "int \<Rightarrow> entitlement_row \<Rightarrow> bool" where
  "entitled_row timestamp e \<longleftrightarrow>
     (en_state e = EntActive \<or> en_state e = EntGrace)
     \<and> en_starts_at e \<le> timestamp
     \<and> (case en_ends_at e of None \<Rightarrow> True | Some t \<Rightarrow> t > timestamp)"

definition hasActiveOperatorEntitlement :: "string \<Rightarrow> string \<Rightarrow> js_num \<Rightarrow> cloud_db \<Rightarrow> bool" where
  "hasActiveOperatorEntitlement membershipId organizationId now db =
     (if \<not> is_safe_integer now \<or> int_value now < 0 then False
      else list_ex (\<lambda>e. en_membership_id e = trim membershipId
             \<and> en_organization_id e = trim organizationId
             \<and> entitled_row (int_value now) e
             \<and> list_ex (\<lambda>m. mb_id m = en_membership_id e
                  \<and> mb_organizationId m = en_organization_id e
                  \<and> member_disabled (mb_id m) db = 0) (members db))
           (entitlements db))"

text \<open>The run-time checks of the two string unions.\<close>

definition parse_entitlement_state :: "string \<Rightarrow> entitlement_state option" where
  "parse_entitlement_state s =
     (if s = ''pending'' then Some EntPending else if s = ''active'' then Some EntActive
      else if s = ''grace'' then Some EntGrace else if s = ''suspended'' then Some EntSuspended
      else if s = ''revoked'' then Some EntRevoked else None)"

definition parse_entitlement_source :: "string \<Rightarrow> entitlement_source option" where
  "parse_entitlement_source s =
     (if s = ''beta'' then Some SrcBeta else if s = ''stripe'' then Some SrcStripe
      else if s = ''admin'' then Some SrcAdmin else None)"

record entitlement_input =
  ei_membershipId :: string
  ei_organizationId :: string
  ei_state :: string
  ei_source :: string
  ei_startsAt :: js_num
  ei_endsAt :: "js_num option"

definition upsertOperatorEntitlement :: "entitlement_input \<Rightarrow> js_num \<Rightarrow> operator_entitlement dbop" where
  "upsertOperatorEntitlement inp now =
     (let membershipId = trim (ei_membershipId inp); organizationId = trim (ei_organizationId inp) in
     obind (olift (require (membershipId \<noteq> [] \<and> organizationId \<noteq> [])
              (JsError ''Entitlement scope is required''))) (\<lambda>_.
     obind (olift (case parse_entitlement_state (ei_state inp) of
                None \<Rightarrow> Inl (JsError ''Entitlement state is invalid'') | Some s \<Rightarrow> Inr s)) (\<lambda>state.
     obind (olift (case parse_entitlement_source (ei_source inp) of
                None \<Rightarrow> Inl (JsError ''Entitlement source is invalid'') | Some s \<Rightarrow> Inr s)) (\<lambda>source.
     obind (olift (require (is_safe_integer (ei_startsAt inp) \<and> int_value (ei_startsAt inp) \<ge> 0)
              (JsError ''Entitlement start is invalid''))) (\<lambda>_.
     obind (olift (require (case ei_endsAt inp of None \<Rightarrow> True
                | Some e \<Rightarrow> is_safe_integer e \<and> int_value e > int_value (ei_startsAt inp))
              (JsError ''Entitlement end is invalid''))) (\<lambda>_.
     obind (olift (require (\<not> (source = SrcBeta \<and> ei_endsAt inp = None))
              (JsError ''Beta entitlements must expire''))) (\<lambda>_.
     obind (oget (\<lambda>db. find (\<lambda>m. mb_id m = membershipId \<and> mb_organizationId m = organizationId) (members db))) (\<lambda>member.
     obind (olift (require (member \<noteq> None) (JsError ''Entitlement membership was not found''))) (\<lambda>_.
     obind (olift (require (is_safe_integer now \<and> int_value now \<ge> 0)
              (JsError ''Entitlement update timestamp is invalid''))) (\<lambda>_.
     obind (upsert_entitlement
         \<lparr>en_membership_id = membershipId, en_organization_id = organizationId,
          en_state = state, en_source = source, en_starts_at = int_value (ei_startsAt inp),
          en_ends_at = map_option int_value (ei_endsAt inp),
          en_created_at = int_value now, en_updated_at = int_value now\<rparr>) (\<lambda>_.
     obind (oget (getOperatorEntitlement membershipId organizationId)) (\<lambda>stored.
     case stored of
       None \<Rightarrow> othrow (JsError ''Operator entitlement could not be resolved'')
     | Some e \<Rightarrow> oreturn e))))))))))))"

definition revokeOperatorEntitlement :: "string \<Rightarrow> string \<Rightarrow> int \<Rightarrow> operator_entitlement option dbop" where
  "revokeOperatorEntitlement membershipId organizationId now =
     obind (update_in entitlements set_entitlements entitlement_schema
         (\<lambda>e. en_membership_id e = trim membershipId \<and> en_organization_id e = trim organizationId)
         (\<lambda>e. e\<lparr>en_state := EntRevoked, en_updated_at := now\<rparr>)) (\<lambda>changes.
     if changes \<noteq> 1 then oreturn None
     else oget (getOperatorEntitlement membershipId organizationId))"

section \<open>What the operations do to the table\<close>

definition entitlements_ok :: "cloud_db \<Rightarrow> bool" where
  "entitlements_ok db \<longleftrightarrow> schema_ok entitlement_schema (entitlements db)"

lemma entitlements_ok_distinct: "entitlements_ok s \<Longrightarrow> distinct (map en_membership_id (entitlements s))"
  unfolding entitlements_ok_def
  by (erule schema_ok_distinct [where u = "(''entitlement.membership_id'', \<lambda>e. Some [SText (en_membership_id e)])"
        and g = "\<lambda>i. [SText i]"]) (simp_all add: entitlement_schema_def)

lemma entitlements_ok_same_member:
  assumes "entitlements_ok db" and "e \<in> set (entitlements db)" and "x \<in> set (entitlements db)"
    and "en_membership_id e = en_membership_id x"
  shows "e = x"
  by (rule schema_ok_same_key [where u = "(''entitlement.membership_id'', \<lambda>e. Some [SText (en_membership_id e)])"])
    (use assms in \<open>auto simp: entitlements_ok_def entitlement_schema_def\<close>)

lemma entitlement_updated_Inr:
  assumes "update_in entitlements set_entitlements entitlement_schema p f s = (Inr n, t)"
  shows "n = length (filter p (entitlements s))"
    and "t = s\<lparr>entitlements := map (\<lambda>e. if p e then f e else e) (entitlements s)\<rparr>"
  using en_tbl.update_Inr [OF assms] by (auto simp: set_entitlements_def)

lemma replaced_entitlement_simps [simp]:
  "en_membership_id (replaced_entitlement e r) = en_membership_id r"
  "en_organization_id (replaced_entitlement e r) = en_organization_id e"
  "en_state (replaced_entitlement e r) = en_state e" "en_source (replaced_entitlement e r) = en_source e"
  "en_starts_at (replaced_entitlement e r) = en_starts_at e"
  "en_ends_at (replaced_entitlement e r) = en_ends_at e"
  by (simp_all add: replaced_entitlement_def)

lemma upsert_entitlement_Inr:
  assumes "upsert_entitlement e s = (Inr n, t)"
  shows "list_ex (\<lambda>m. mb_id m = en_membership_id e \<and> mb_organizationId m = en_organization_id e) (members s)
    \<and> ((find (\<lambda>r. en_membership_id r = en_membership_id e) (entitlements s) = None
          \<and> t = s\<lparr>entitlements := entitlements s @ [e]\<rparr>)
      \<or> (find (\<lambda>r. en_membership_id r = en_membership_id e) (entitlements s) \<noteq> None
          \<and> t = s\<lparr>entitlements := map (\<lambda>r. if en_membership_id r = en_membership_id e
                    then replaced_entitlement e r else r) (entitlements s)\<rparr>))"
  using assms
  by (auto simp: upsert_entitlement_def entitlement_membership_guard_def set_entitlements_def
      split: if_splits dest!: en_tbl.upsert_Inr)

lemma upsert_entitlement_Inl: "upsert_entitlement e s = (Inl x, t) \<Longrightarrow> t = s"
  unfolding upsert_entitlement_def by (rule atomic_rolls_back)

lemma upsert_entitlement_keeps_ok: "keeps entitlements_ok (upsert_entitlement e)"
  unfolding upsert_entitlement_def entitlements_ok_def
  by (intro keeps_intro en_tbl.upsert_keeps_schema)

lemma findEntitlement_SomeD:
  "findEntitlement m g db = Some e \<Longrightarrow>
     e \<in> set (entitlements db) \<and> en_membership_id e = m \<and> en_organization_id e = g"
  by (auto simp: findEntitlement_def dest: find_SomeD)

text \<open>After a successful upsert the membership's row is the offered one, but for its creation time.\<close>

lemma upsert_entitlement_found:
  assumes "entitlements_ok s" and "upsert_entitlement e s = (Inr n, t)"
    and "x \<in> set (entitlements t)" and "en_membership_id x = en_membership_id e"
  shows "en_organization_id x = en_organization_id e \<and> en_state x = en_state e
    \<and> en_source x = en_source e \<and> en_starts_at x = en_starts_at e \<and> en_ends_at x = en_ends_at e"
  using upsert_entitlement_Inr [OF assms(2)] assms(3,4)
  by (auto simp: find_None_iff split: if_splits)

lemma upsert_entitlement_exists:
  assumes "upsert_entitlement e s = (Inr n, t)"
  shows "\<exists>x \<in> set (entitlements t). en_membership_id x = en_membership_id e"
  using upsert_entitlement_Inr [OF assms]
proof (elim conjE disjE)
  assume "find (\<lambda>r. en_membership_id r = en_membership_id e) (entitlements s) \<noteq> None"
    and t: "t = s\<lparr>entitlements := map (\<lambda>r. if en_membership_id r = en_membership_id e
                    then replaced_entitlement e r else r) (entitlements s)\<rparr>"
  then obtain r where "r \<in> set (entitlements s)" "en_membership_id r = en_membership_id e"
    by (auto dest: find_SomeD)
  then show ?thesis by (auto simp: t intro!: bexI [of _ "replaced_entitlement e r"])
qed auto

lemma upsertOperatorEntitlement_Inr:
  assumes "upsertOperatorEntitlement inp now s = (Inr r, t)"
  obtains state source start n e where "parse_entitlement_state (ei_state inp) = Some state"
    and "parse_entitlement_source (ei_source inp) = Some source" and "ei_startsAt inp = JInt start"
    and "upsert_entitlement e s = (Inr n, t)"
    and "en_membership_id e = trim (ei_membershipId inp)" and "en_organization_id e = trim (ei_organizationId inp)"
    and "en_state e = state" and "en_source e = source" and "en_starts_at e = start"
    and "en_ends_at e = map_option int_value (ei_endsAt inp)"
    and "getOperatorEntitlement (trim (ei_membershipId inp)) (trim (ei_organizationId inp)) t = Some r"
  using assms
  by (auto simp: upsertOperatorEntitlement_def Let_def is_safe_integer_iff split: option.splits)

section \<open>Properties\<close>

text \<open>Granting an active entitlement opens exactly its period: afterwards the membership is
  entitled at a time if and only if the time lies in the period and the membership is an enabled
  one of the organization.\<close>

theorem upsertOperatorEntitlement_opens_period:
  assumes "entitlements_ok s" and "upsertOperatorEntitlement inp now s = (Inr r, t)"
    and "ei_state inp = ''active''" and "0 \<le> x" and "x \<le> MAX_SAFE_INTEGER"
  shows "hasActiveOperatorEntitlement (ei_membershipId inp) (ei_organizationId inp) (JInt x) t
    \<longleftrightarrow> int_value (ei_startsAt inp) \<le> x
       \<and> (case ei_endsAt inp of None \<Rightarrow> True | Some e \<Rightarrow> x < int_value e)
       \<and> (\<exists>m \<in> set (members t). mb_id m = trim (ei_membershipId inp)
            \<and> mb_organizationId m = trim (ei_organizationId inp))
       \<and> member_disabled (trim (ei_membershipId inp)) t = 0"
proof -
  from assms(2) obtain source start n e where src: "ei_startsAt inp = JInt start"
    and run: "upsert_entitlement e s = (Inr n, t)"
    and e: "en_membership_id e = trim (ei_membershipId inp)" "en_organization_id e = trim (ei_organizationId inp)"
      "en_state e = EntActive" "en_starts_at e = start" "en_ends_at e = map_option int_value (ei_endsAt inp)"
    by (rule upsertOperatorEntitlement_Inr) (use assms(3) in \<open>auto simp: parse_entitlement_state_def\<close>)
  obtain row where row: "row \<in> set (entitlements t)" "en_membership_id row = en_membership_id e"
    using upsert_entitlement_exists [OF run] by blast
  note same = upsert_entitlement_found [OF assms(1) run]
  show ?thesis
    using same [OF row] row e src assms(4,5)
    by (auto simp: hasActiveOperatorEntitlement_def is_safe_int_def MAX_SAFE_INTEGER_def entitled_row_def
        list_ex_iff split: option.splits dest: same intro!: bexI [of _ row]) blast+
qed

text \<open>Once revoked, an entitlement gives access at no time, whatever its period says.\<close>

theorem revokeOperatorEntitlement_ends_access:
  assumes "revokeOperatorEntitlement membershipId organizationId now s = (Inr r, t)"
  shows "\<not> hasActiveOperatorEntitlement membershipId organizationId later t"
proof -
  from assms obtain n where upd: "update_in entitlements set_entitlements entitlement_schema
         (\<lambda>e. en_membership_id e = trim membershipId \<and> en_organization_id e = trim organizationId)
         (\<lambda>e. e\<lparr>en_state := EntRevoked, en_updated_at := now\<rparr>) s = (Inr n, t)"
    by (auto simp: revokeOperatorEntitlement_def split: if_splits)
  show ?thesis
    unfolding entitlement_updated_Inr(2) [OF upd]
    by (auto simp: hasActiveOperatorEntitlement_def entitled_row_def list_ex_iff)
qed

section \<open>The properties on a concrete database\<close>

definition entitled_db :: cloud_db where
  "entitled_db = sample_db
     \<lparr>entitlements := [\<lparr>en_membership_id = ''m2'', en_organization_id = ''o1'', en_state = EntActive,
        en_source = SrcAdmin, en_starts_at = 5, en_ends_at = None, en_created_at = 5, en_updated_at = 5\<rparr>]\<rparr>"

definition sample_grant :: entitlement_input where
  "sample_grant = \<lparr>ei_membershipId = ''m2'', ei_organizationId = ''o1'', ei_state = ''active'',
     ei_source = ''beta'', ei_startsAt = JInt 10, ei_endsAt = Some (JInt 20)\<rparr>"

lemmas entitlement_run = upsertOperatorEntitlement_def sample_grant_def parse_entitlement_state_def
  parse_entitlement_source_def upsert_entitlement_def entitlement_membership_guard_def upsert_in_def
  update_in_def sql_update_def entitlement_schema_def replaced_entitlement_def
  set_entitlements_def getOperatorEntitlement_def findEntitlement_def trim_def js_space_def
  is_safe_int_def MAX_SAFE_INTEGER_def

theorem upsertOperatorEntitlement_opens_period_witness:
  "\<exists>r t. upsertOperatorEntitlement sample_grant (JInt 10) entitled_db = (Inr r, t)
     \<and> \<not> hasActiveOperatorEntitlement ''m2'' ''o1'' (JInt 20) t"
proof -
  have "\<exists>r t. upsertOperatorEntitlement sample_grant (JInt 10) entitled_db = (Inr r, t)"
    by (simp add: entitlement_run entitled_db_def sample_run Let_def)
  then obtain r t where run: "upsertOperatorEntitlement sample_grant (JInt 10) entitled_db = (Inr r, t)" by blast
  have "entitlements_ok entitled_db"
    by (simp add: entitlements_ok_def entitled_db_def row_ok_iff entitlement_schema_def)
  from upsertOperatorEntitlement_opens_period [OF this run, of 20] run show ?thesis
    by (simp add: sample_grant_def MAX_SAFE_INTEGER_def)
qed

theorem revokeOperatorEntitlement_ends_access_witness:
  "hasActiveOperatorEntitlement ''m2'' ''o1'' (JInt 9) entitled_db
   \<and> (\<exists>r t. revokeOperatorEntitlement ''m2'' ''o1'' 8 entitled_db = (Inr r, t)
        \<and> \<not> hasActiveOperatorEntitlement ''m2'' ''o1'' (JInt 9) t)"
proof -
  have "hasActiveOperatorEntitlement ''m2'' ''o1'' (JInt 9) entitled_db"
    by (simp add: hasActiveOperatorEntitlement_def entitled_row_def member_disabled_def entitled_db_def
        sample_db_def empty_db_def entitlement_run)
  moreover have "\<exists>r t. revokeOperatorEntitlement ''m2'' ''o1'' 8 entitled_db = (Inr r, t)"
    by (simp add: revokeOperatorEntitlement_def entitlement_run entitled_db_def sample_run)
  ultimately show ?thesis using revokeOperatorEntitlement_ends_access by blast
qed

end
