(* ===== verification/Platform.thy ===== *)
theory Platform
  imports Members
begin

text \<open>
  The platform controls, three switches that pause provisioning, workspace starts and
  publications, with their append-only audit trail, and the audit trail of the operators'
  other actions.
\<close>

section \<open>Names\<close>

definition control_text :: "platform_control_name \<Rightarrow> string" where
  "control_text c =
     (case c of Ctl_provisioning \<Rightarrow> ''provisioning'' | Ctl_workspace_start \<Rightarrow> ''workspace_start''
      | Ctl_publication \<Rightarrow> ''publication'')"

definition requirePlatformControlName :: "string \<Rightarrow> db_error + platform_control_name" where
  "requirePlatformControlName v =
     (if v = ''provisioning'' then Inr Ctl_provisioning
      else if v = ''workspace_start'' then Inr Ctl_workspace_start
      else if v = ''publication'' then Inr Ctl_publication
      else Inl (JsTypeError ''Platform control name is invalid''))"

lemma control_text_inj [simp]: "control_text a = control_text b \<longleftrightarrow> a = b"
  by (cases a; cases b; simp add: control_text_def)

lemma requirePlatformControlName_Inr: "requirePlatformControlName v = Inr c \<longleftrightarrow> v = control_text c"
  by (cases c) (auto simp: requirePlatformControlName_def control_text_def)

text \<open>\<open>ORDER BY name\<close>: the names in the order of their text.\<close>

instantiation platform_control_name :: linorder
begin

definition less_eq_platform_control_name :: "platform_control_name \<Rightarrow> platform_control_name \<Rightarrow> bool" where
  "less_eq_platform_control_name a b \<longleftrightarrow> control_text a \<le> control_text b"

definition less_platform_control_name :: "platform_control_name \<Rightarrow> platform_control_name \<Rightarrow> bool" where
  "less_platform_control_name a b \<longleftrightarrow> control_text a < control_text b"

instance
  by standard (auto simp: less_eq_platform_control_name_def less_platform_control_name_def less_le)

end

section \<open>Tables\<close>

definition platform_control_schema :: "platform_control_row schema" where
  "platform_control_schema =
     \<lparr>checks =
        [(''paused IN (0, 1)'', \<lambda>c. flag_ok (pc_paused c)),
         (''length(reason) <= 256'', \<lambda>c. length (pc_reason c) \<le> 256),
         (''length(updated_by) BETWEEN 1 AND 128'', \<lambda>c. 1 \<le> length (pc_updated_by c) \<and> length (pc_updated_by c) \<le> 128),
         (''updated_at >= 0'', \<lambda>c. pc_updated_at c \<ge> 0)],
      uniques = [(''platform_control.name'', \<lambda>c. Some [SText (control_text (pc_name c))])]\<rparr>"

definition set_platform_controls :: "platform_control_row list \<Rightarrow> cloud_db \<Rightarrow> cloud_db" where
  "set_platform_controls rows db = db\<lparr>platform_controls := rows\<rparr>"

interpretation pc_tbl: sql_table platform_controls set_platform_controls platform_control_schema
  by unfold_locales (simp_all add: set_platform_controls_def)

definition control_audit_schema :: "control_audit_row schema" where
  "control_audit_schema =
     \<lparr>checks =
        [(''length(actor) BETWEEN 1 AND 128'', \<lambda>e. 1 \<le> length (ca_actor e) \<and> length (ca_actor e) \<le> 128),
         (''previous_paused IN (0, 1)'', \<lambda>e. flag_ok (ca_previous_paused e)),
         (''paused IN (0, 1)'', \<lambda>e. flag_ok (ca_paused e)),
         (''length(reason) BETWEEN 1 AND 256'', \<lambda>e. 1 \<le> length (ca_reason e) \<and> length (ca_reason e) \<le> 256),
         (''occurred_at >= 0'', \<lambda>e. ca_occurred_at e \<ge> 0)],
      uniques = [(''platform_control_audit_event.event_id'', \<lambda>e. Some [SText (ca_event_id e)])]\<rparr>"

definition set_control_audits :: "control_audit_row list \<Rightarrow> cloud_db \<Rightarrow> cloud_db" where
  "set_control_audits rows db = db\<lparr>control_audits := rows\<rparr>"

interpretation ca_tbl: sql_table control_audits set_control_audits control_audit_schema
  by unfold_locales (simp_all add: set_control_audits_def)

definition operation_audit_schema :: "operation_audit_row schema" where
  "operation_audit_schema =
     \<lparr>checks =
        [(''length(actor) BETWEEN 1 AND 128'', \<lambda>e. 1 \<le> length (oa_actor e) \<and> length (oa_actor e) \<le> 128),
         (''length(action) BETWEEN 1 AND 128'', \<lambda>e. 1 \<le> length (oa_action e) \<and> length (oa_action e) \<le> 128),
         (''length(target_type) BETWEEN 1 AND 128'', \<lambda>e. 1 \<le> length (oa_target_type e) \<and> length (oa_target_type e) \<le> 128),
         (''length(target_id) BETWEEN 1 AND 128'', \<lambda>e. 1 \<le> length (oa_target_id e) \<and> length (oa_target_id e) \<le> 128),
         (''occurred_at >= 0'', \<lambda>e. oa_occurred_at e \<ge> 0)],
      uniques = [(''platform_operation_audit_event.event_id'', \<lambda>e. Some [SText (oa_event_id e)])]\<rparr>"

definition set_operation_audits :: "operation_audit_row list \<Rightarrow> cloud_db \<Rightarrow> cloud_db" where
  "set_operation_audits rows db = db\<lparr>operation_audits := rows\<rparr>"

interpretation oa_tbl: sql_table operation_audits set_operation_audits operation_audit_schema
  by unfold_locales (simp_all add: set_operation_audits_def)

section \<open>Operations\<close>

record platform_control =
  ctl_name :: platform_control_name
  ctl_paused :: bool
  ctl_reason :: string
  ctl_updatedBy :: string
  ctl_updatedAt :: int

definition toPlatformControl :: "platform_control_row \<Rightarrow> platform_control" where
  "toPlatformControl row =
     \<lparr>ctl_name = pc_name row, ctl_paused = (pc_paused row = 1), ctl_reason = pc_reason row,
      ctl_updatedBy = pc_updated_by row, ctl_updatedAt = pc_updated_at row\<rparr>"

definition listPlatformControls :: "cloud_db \<Rightarrow> platform_control list" where
  "listPlatformControls db = map toPlatformControl (sort_key pc_name (platform_controls db))"

definition findControl :: "platform_control_name \<Rightarrow> cloud_db \<Rightarrow> platform_control_row option" where
  "findControl name db = find (\<lambda>c. pc_name c = name) (platform_controls db)"

definition getPlatformControl :: "string \<Rightarrow> cloud_db \<Rightarrow> db_error + platform_control" where
  "getPlatformControl name db =
     sbind (requirePlatformControlName name) (\<lambda>c.
     case findControl c db of
       None \<Rightarrow> Inl (JsError (''Platform control '' @ name @ '' is missing''))
     | Some row \<Rightarrow> Inr (toPlatformControl row))"

definition isPlatformControlPaused :: "string \<Rightarrow> cloud_db \<Rightarrow> db_error + bool" where
  "isPlatformControlPaused name db = sbind (getPlatformControl name db) (\<lambda>c. Inr (ctl_paused c))"

record control_input =
  cti_name :: string
  cti_paused :: bool
  cti_reason :: string
  cti_actor :: string
  cti_eventId :: "string option"

definition flag :: "bool \<Rightarrow> int" where
  "flag b = (if b then 1 else 0)"

definition valid_actor :: "string \<Rightarrow> bool" where
  "valid_actor actor \<longleftrightarrow> actor \<noteq> [] \<and> length actor \<le> 128 \<and> \<not> has_control_char actor"

definition switched_row :: "bool \<Rightarrow> string \<Rightarrow> string \<Rightarrow> int \<Rightarrow> platform_control_row \<Rightarrow> platform_control_row" where
  "switched_row paused reason actor timestamp c =
     c\<lparr>pc_paused := flag paused, pc_reason := reason, pc_updated_by := actor, pc_updated_at := timestamp\<rparr>"

definition setPlatformControl :: "control_input \<Rightarrow> js_num \<Rightarrow> string \<Rightarrow> platform_control dbop" where
  "setPlatformControl inp now randomUUID =
     obind (olift (requirePlatformControlName (cti_name inp))) (\<lambda>name.
     let reason = trim (cti_reason inp); actor = trim (cti_actor inp) in
     obind (olift (require (reason \<noteq> [] \<and> length reason \<le> 256)
              (JsTypeError ''Platform control reason must contain 1 to 256 characters''))) (\<lambda>_.
     obind (olift (require (valid_actor actor)
              (JsTypeError ''Platform control actor must contain 1 to 128 printable characters''))) (\<lambda>_.
     obind (olift (require (is_safe_integer now \<and> int_value now \<ge> 0)
              (JsTypeError ''Platform control timestamp is invalid''))) (\<lambda>_. atomic (
     obind (oread (getPlatformControl (cti_name inp))) (\<lambda>previous.
     obind (update_in platform_controls set_platform_controls platform_control_schema
         (\<lambda>c. pc_name c = name) (switched_row (cti_paused inp) reason actor (int_value now))) (\<lambda>_.
     obind (insert_into control_audits set_control_audits control_audit_schema
         \<lparr>ca_event_id = (case cti_eventId inp of Some i \<Rightarrow> i | None \<Rightarrow> randomUUID), ca_actor = actor,
          ca_control_name = name, ca_previous_paused = flag (ctl_paused previous),
          ca_paused = flag (cti_paused inp), ca_result = AuditSuccess, ca_reason = reason,
          ca_occurred_at = int_value now\<rparr>) (\<lambda>_.
     oread (getPlatformControl (cti_name inp))))))))))"

record operation_audit_input =
  opi_actor :: string
  opi_action :: string
  opi_targetType :: string
  opi_targetId :: string
  opi_result :: "audit_result option"
  opi_metadata :: "(string \<times> audit_value) list"
  opi_eventId :: "string option"

text \<open>The result is one of the two values of its type, so the check of the source on it always passes.\<close>

definition recordPlatformOperationAuditEvent :: "operation_audit_input \<Rightarrow> js_num \<Rightarrow> string \<Rightarrow> unit dbop" where
  "recordPlatformOperationAuditEvent inp now randomUUID =
     (let actor = trim (opi_actor inp) in
     obind (olift (require (valid_actor actor)
              (JsTypeError ''Platform audit actor must contain 1 to 128 printable characters''))) (\<lambda>_.
     obind (olift (requireAuditIdentifier (opi_action inp) ''action'')) (\<lambda>action.
     obind (olift (requireAuditIdentifier (opi_targetType inp) ''targetType'')) (\<lambda>targetType.
     obind (olift (requireAuditIdentifier (opi_targetId inp) ''targetId'')) (\<lambda>targetId.
     obind (olift (serializeAuditMetadata (opi_metadata inp))) (\<lambda>metadata.
     obind (olift (require (is_safe_integer now \<and> int_value now \<ge> 0)
              (JsTypeError ''Platform audit timestamp is invalid''))) (\<lambda>_.
     insert_into operation_audits set_operation_audits operation_audit_schema
       \<lparr>oa_event_id = (case opi_eventId inp of Some i \<Rightarrow> i | None \<Rightarrow> randomUUID), oa_actor = actor,
        oa_action = action, oa_target_type = targetType, oa_target_id = targetId,
        oa_result = (case opi_result inp of Some r \<Rightarrow> r | None \<Rightarrow> AuditSuccess),
        oa_metadata = metadata, oa_occurred_at = int_value now\<rparr>)))))))"

section \<open>The trail of the switches\<close>

lemma requirePlatformControlName_text: "requirePlatformControlName (control_text c) = Inr c"
  by (simp add: requirePlatformControlName_Inr)

lemma setPlatformControl_Inr:
  assumes "setPlatformControl inp now uuid s = (Inr c, t)"
  obtains name row at n e where "cti_name inp = control_text name" and "findControl name s = Some row"
    and "control_audits t = control_audits s @ [e]" and "ca_control_name e = name"
    and "ca_previous_paused e = flag (pc_paused row = 1)" and "ca_paused e = flag (cti_paused inp)"
    and "ca_reason e = trim (cti_reason inp)" and "ca_actor e = trim (cti_actor inp)"
    and "ca_occurred_at e = at" and "now = JInt at"
    and "platform_controls t = map (\<lambda>c. if pc_name c = name
            then switched_row (cti_paused inp) (trim (cti_reason inp)) (trim (cti_actor inp)) at c else c)
          (platform_controls s)"
    and "getPlatformControl (cti_name inp) t = Inr c"
  using assms
  by (auto simp: setPlatformControl_def Let_def requirePlatformControlName_Inr is_safe_integer_iff
      getPlatformControl_def sbind_eq_Inr toPlatformControl_def ca_tbl.insert_Inr set_control_audits_def
      set_platform_controls_def split: option.splits dest!: pc_tbl.update_Inr)

lemma setPlatformControl_Inl: "setPlatformControl inp now uuid s = (Inl e, t) \<Longrightarrow> t = s"
  by (auto simp: setPlatformControl_def Let_def obind_eq_Inl operation_defs dest: atomic_rolls_back)

text \<open>The state of a switch after a trail: what its last event set, off before the first.\<close>

definition trail_state :: "platform_control_name \<Rightarrow> control_audit_row list \<Rightarrow> int" where
  "trail_state name trail =
     fold (\<lambda>e paused. if ca_control_name e = name then ca_paused e else paused) trail 0"

lemma trail_state_simps [simp]:
  "trail_state name [] = 0"
  "trail_state name (trail @ [e]) = (if ca_control_name e = name then ca_paused e else trail_state name trail)"
  by (simp_all add: trail_state_def)

fun unbroken_trail :: "control_audit_row list \<Rightarrow> control_audit_row list \<Rightarrow> bool" where
  "unbroken_trail before [] = True"
| "unbroken_trail before (e # rest) =
     (ca_previous_paused e = trail_state (ca_control_name e) before \<and> unbroken_trail (before @ [e]) rest)"

lemma unbroken_trail_append:
  "unbroken_trail before (xs @ [e]) \<longleftrightarrow>
     unbroken_trail before xs \<and> ca_previous_paused e = trail_state (ca_control_name e) (before @ xs)"
  by (induction xs arbitrary: before) auto

definition trail_inv :: "cloud_db \<Rightarrow> bool" where
  "trail_inv db \<longleftrightarrow> (\<forall>c \<in> set (platform_controls db). flag_ok (pc_paused c)
        \<and> trail_state (pc_name c) (control_audits db) = pc_paused c)
     \<and> unbroken_trail [] (control_audits db)"

lemma findControl_SomeD: "findControl name s = Some c \<Longrightarrow> c \<in> set (platform_controls s) \<and> pc_name c = name"
  by (auto simp: findControl_def dest: find_SomeD)

lemma switched_row_simps [simp]:
  "pc_name (switched_row p r a u c) = pc_name c" "pc_paused (switched_row p r a u c) = flag p"
  by (simp_all add: switched_row_def)

lemma flag_ok_flag [simp]: "flag_ok (flag b)"
  by (simp add: flag_ok_def flag_def)

lemma flag_flag: "flag_ok b \<Longrightarrow> flag (b = 1) = b"
  by (auto simp: flag_ok_def flag_def)

lemma setPlatformControl_keeps_trail: "keeps trail_inv (setPlatformControl inp now uuid)"
proof (rule keepsI)
  fix s r t
  assume inv: "trail_inv s" and run: "setPlatformControl inp now uuid s = (r, t)"
  show "trail_inv t"
  proof (cases r)
    case (Inl e)
    with run inv show ?thesis by (auto dest: setPlatformControl_Inl)
  next
    case (Inr c)
    from run [unfolded Inr] obtain name row at n e where row: "findControl name s = Some row"
      and e: "control_audits t = control_audits s @ [e]" "ca_control_name e = name"
        "ca_previous_paused e = flag (pc_paused row = 1)" "ca_paused e = flag (cti_paused inp)"
      and controls: "platform_controls t = map (\<lambda>c. if pc_name c = name
            then switched_row (cti_paused inp) (trim (cti_reason inp)) (trim (cti_actor inp)) at c else c)
          (platform_controls s)"
      by (rule setPlatformControl_Inr)
    from inv findControl_SomeD [OF row] have "ca_previous_paused e = trail_state name (control_audits s)"
      by (auto simp: e flag_flag trail_inv_def)
    then have "unbroken_trail [] (control_audits t)"
      using inv by (simp add: trail_inv_def e unbroken_trail_append)
    moreover have "\<forall>c \<in> set (platform_controls t). flag_ok (pc_paused c)
        \<and> trail_state (pc_name c) (control_audits t) = pc_paused c"
    proof
      fix c assume "c \<in> set (platform_controls t)"
      from this [unfolded controls set_map] obtain x where x: "x \<in> set (platform_controls s)"
        and c: "c = (if pc_name x = name
          then switched_row (cti_paused inp) (trim (cti_reason inp)) (trim (cti_actor inp)) at x else x)"
        by (rule imageE)
      from inv x have "flag_ok (pc_paused x)" "trail_state (pc_name x) (control_audits s) = pc_paused x"
        by (simp_all add: trail_inv_def)
      then show "flag_ok (pc_paused c) \<and> trail_state (pc_name c) (control_audits t) = pc_paused c"
        by (cases "pc_name x = name") (simp_all add: c e)
    qed
    ultimately show ?thesis by (simp add: trail_inv_def)
  qed
qed

text \<open>The steps of the trail: switching a control, and whatever leaves both tables alone.\<close>

inductive control_step :: "cloud_db \<Rightarrow> cloud_db \<Rightarrow> bool" where
  switch: "setPlatformControl inp now uuid s = (r, t) \<Longrightarrow> control_step s t"
| other: "platform_controls t = platform_controls s \<Longrightarrow> control_audits t = control_audits s \<Longrightarrow> control_step s t"

inductive_cases control_stepE: "control_step s t"

interpretation trail: invariant_system control_step trail_inv
proof
  fix s t
  assume "control_step s t" and "trail_inv s"
  then show "trail_inv t"
    by (elim control_stepE) (blast intro: keepsD [OF setPlatformControl_keeps_trail], simp add: trail_inv_def)
qed

lemma setPlatformControl_appends:
  assumes "setPlatformControl inp now uuid s = (r, t)"
  shows "\<exists>more. control_audits t = control_audits s @ more"
proof (cases r)
  case (Inl e)
  with assms have "t = s" by (auto dest: setPlatformControl_Inl)
  then show ?thesis by simp
next
  case (Inr c)
  with assms obtain e where "control_audits t = control_audits s @ [e]" by (auto elim: setPlatformControl_Inr)
  then show ?thesis by blast
qed

interpretation append_only: monotone_system control_step "\<lambda>s t. \<exists>more. control_audits t = control_audits s @ more"
proof
  fix s t
  assume "control_step s t"
  then show "\<exists>more. control_audits t = control_audits s @ more"
    by (elim control_stepE) (blast intro: setPlatformControl_appends, simp)
qed auto

section \<open>Properties\<close>

text \<open>C12: From the migrated database on, each platform switch is what its last audit event says it was
  set to, every event records the state it found, and the trail only grows.\<close>

theorem platform_controls_match_trail:
  assumes "control_step\<^sup>*\<^sup>* empty_db s" and "control_step\<^sup>*\<^sup>* s t" and "c \<in> set (platform_controls t)"
  shows "pc_paused c = trail_state (pc_name c) (control_audits t)
    \<and> unbroken_trail [] (control_audits t)
    \<and> (\<exists>more. control_audits t = control_audits s @ more)"
proof -
  have "trail_inv empty_db" by (simp add: trail_inv_def empty_db_def flag_ok_def)
  with assms(1) have "trail_inv s" by (rule trail.run_inv)
  with assms(2) have "trail_inv t" by (rule trail.run_inv)
  with assms(3) append_only.run_rel [OF assms(2)] show ?thesis by (simp add: trail_inv_def)
qed

text \<open>A switch reads back as it was set, the other switches as before.\<close>

theorem setPlatformControl_reads_back:
  assumes "setPlatformControl inp now uuid s = (Inr c, t)"
  shows "isPlatformControlPaused (cti_name inp) t = Inr (cti_paused inp)
    \<and> getPlatformControl (cti_name inp) t = Inr c \<and> ctl_reason c = trim (cti_reason inp)
    \<and> (other \<noteq> cti_name inp \<longrightarrow> getPlatformControl other t = getPlatformControl other s)"
proof -
  from assms obtain name row at n e where name: "cti_name inp = control_text name"
    and row: "findControl name s = Some row"
    and controls: "platform_controls t = map (\<lambda>c. if pc_name c = name
            then switched_row (cti_paused inp) (trim (cti_reason inp)) (trim (cti_actor inp)) at c else c)
          (platform_controls s)"
    and stored: "getPlatformControl (cti_name inp) t = Inr c"
    by (rule setPlatformControl_Inr)
  have "findControl name t
      = Some (switched_row (cti_paused inp) (trim (cti_reason inp)) (trim (cti_actor inp)) at row)"
    using row by (simp add: findControl_def controls find_keyed_update)
  with stored name have "c = toPlatformControl
      (switched_row (cti_paused inp) (trim (cti_reason inp)) (trim (cti_actor inp)) at row)"
    by (auto simp: getPlatformControl_def sbind_eq_Inr requirePlatformControlName_Inr)
  moreover have "findControl k t = findControl k s" if "k \<noteq> name" for k
    using that by (simp add: findControl_def controls find_other_update)
  then have "getPlatformControl other t = getPlatformControl other s" if "other \<noteq> cti_name inp"
    using that name by (cases "requirePlatformControlName other")
      (auto simp: getPlatformControl_def requirePlatformControlName_Inr requirePlatformControlName_text)
  ultimately show ?thesis
    using stored by (simp add: isPlatformControlPaused_def toPlatformControl_def switched_row_def flag_def)
qed
section \<open>The properties on the migrated database\<close>

definition sample_switch :: control_input where
  "sample_switch = \<lparr>cti_name = ''publication'', cti_paused = True, cti_reason = ''abuse'', cti_actor = ''ops'',
     cti_eventId = Some ''a1''\<rparr>"

lemmas switch_run = setPlatformControl_def sample_switch_def getPlatformControl_def findControl_def
  requirePlatformControlName_def switched_row_def flag_def flag_ok_def valid_actor_def has_control_char_def
  platform_control_schema_def control_audit_schema_def set_platform_controls_def set_control_audits_def
  control_text_def update_in_def sql_update_def insert_into_def sql_insert_def row_error_def failed_check_def
  failed_unique_def collides_def toPlatformControl_def trim_def js_space_def is_safe_int_def MAX_SAFE_INTEGER_def
  atomic_def obind_def operation_defs empty_db_def

theorem platform_controls_match_trail_witness:
  "\<exists>c t. setPlatformControl sample_switch (JInt 7) ''x'' empty_db = (Inr c, t)
     \<and> (\<exists>k. k \<in> set (platform_controls t) \<and> pc_name k = Ctl_publication \<and> pc_paused k = 1
          \<and> trail_state Ctl_publication (control_audits t) = 1)"
proof -
  have "\<exists>c t. setPlatformControl sample_switch (JInt 7) ''x'' empty_db = (Inr c, t)
      \<and> (\<exists>k. k \<in> set (platform_controls t) \<and> pc_name k = Ctl_publication \<and> pc_paused k = 1)"
    by (simp add: switch_run Let_def conj_disj_distribR ex_disj_distrib)
  then obtain c t k where run: "setPlatformControl sample_switch (JInt 7) ''x'' empty_db = (Inr c, t)"
    and k: "k \<in> set (platform_controls t)" "pc_name k = Ctl_publication" "pc_paused k = 1" by blast
  from control_step.switch [OF run] have "control_step\<^sup>*\<^sup>* empty_db t" by blast
  from platform_controls_match_trail [OF rtranclp.rtrancl_refl this k(1)] run k show ?thesis by auto
qed

theorem setPlatformControl_reads_back_witness:
  "\<exists>c t. setPlatformControl sample_switch (JInt 7) ''x'' empty_db = (Inr c, t)
     \<and> isPlatformControlPaused ''publication'' t = Inr True"
proof -
  have "\<exists>c t. setPlatformControl sample_switch (JInt 7) ''x'' empty_db = (Inr c, t)"
    by (simp add: switch_run Let_def)
  then obtain c t where run: "setPlatformControl sample_switch (JInt 7) ''x'' empty_db = (Inr c, t)" by blast
  from setPlatformControl_reads_back [OF run] run show ?thesis by (auto simp: sample_switch_def)
qed

end
