(* ===== verification/Publications.thy ===== *)
theory Publications
  imports Workspaces
begin

text \<open>
  Published services: a workspace exposes a port under a slug, for a bounded time, within the
  quotas of its workspace and organization; TCP services get a port of the ingress range.
\<close>

section \<open>Names and ports\<close>

definition publishedServiceName :: "string \<Rightarrow> db_error + string" where
  "publishedServiceName v =
     (let normalized = toLowerCase (trim v) in
      if \<not> label_pattern 30 normalized then Inl (JsError ''Published service name is invalid'')
      else Inr normalized)"

definition publishedServicePort :: "js_num \<Rightarrow> db_error + int" where
  "publishedServicePort v =
     (if \<not> is_safe_integer v \<or> int_value v < 1024 \<or> int_value v > 65535 \<or> int_value v = 7777
      then Inl (JsError ''Published service port is invalid'') else Inr (int_value v))"

definition publishedServiceMinimumTTLSeconds :: int where
  "publishedServiceMinimumTTLSeconds = 5 * 60"

definition publishedServiceMaximumTTLSeconds :: int where
  "publishedServiceMaximumTTLSeconds = 7 * 24 * 60 * 60"

section \<open>The table\<close>

definition ingress_port_check :: "published_service_row \<Rightarrow> bool" where
  "ingress_port_check r \<longleftrightarrow>
     (case ps_ingress_port r of
        None \<Rightarrow> ps_protocol r = ProtoHttp
      | Some p \<Rightarrow> ps_protocol r = ProtoTcp \<and> 1024 \<le> p \<and> p \<le> 65535 \<and> p \<noteq> 7777)"

definition access_check :: "published_service_row \<Rightarrow> bool" where
  "access_check r \<longleftrightarrow>
     (ps_visibility r = VisPublic \<and> ps_auth_policy r = AuthNone \<and> ps_access_token_hash r = None)
     \<or> (ps_protocol r = ProtoHttp \<and> ps_visibility r = VisPrivate \<and> ps_auth_policy r = AuthToken
        \<and> (case ps_access_token_hash r of None \<Rightarrow> False | Some h \<Rightarrow> is_sha256_hex h))"

definition published_service_schema :: "published_service_row schema" where
  "published_service_schema =
     \<lparr>checks =
        [(''target_port'', \<lambda>r. 1024 \<le> ps_target_port r \<and> ps_target_port r \<le> 65535 \<and> ps_target_port r \<noteq> 7777),
         (''ingress_port'', ingress_port_check),
         (''expires_at IS NULL OR expires_at > created_at'',
            \<lambda>r. case ps_expires_at r of None \<Rightarrow> True | Some e \<Rightarrow> e > ps_created_at r),
         (''access'', access_check),
         (''revoked_at'', \<lambda>r. (ps_state r = ServiceActive) = (ps_revoked_at r = None))],
      uniques =
        [(''published_service.workspace_id, published_service.name'',
            \<lambda>r. Some [SText (ps_workspace_id r), SText (ps_name r)]),
         (''published_service.id'', \<lambda>r. Some [SText (ps_id r)]),
         (''published_service.slug'', \<lambda>r. Some [SText (ps_slug r)]),
         (''published_service.ingress_port'', \<lambda>r. map_option (\<lambda>p. [SInt p]) (ps_ingress_port r))]\<rparr>"

definition set_published_services :: "published_service_row list \<Rightarrow> cloud_db \<Rightarrow> cloud_db" where
  "set_published_services rows db = db\<lparr>published_services := rows\<rparr>"

interpretation ps_tbl: sql_table published_services set_published_services published_service_schema
  by unfold_locales (simp_all add: set_published_services_def)

record published_service =
  psv_id :: string
  psv_workspaceId :: string
  psv_name :: string
  psv_slug :: string
  psv_protocol :: service_protocol
  psv_targetPort :: int
  psv_ingressPort :: "int option"
  psv_state :: service_state
  psv_visibility :: service_visibility
  psv_authPolicy :: service_auth
  psv_accessTokenHash :: "string option"
  psv_expiresAt :: "int option"
  psv_createdAt :: int
  psv_updatedAt :: int
  psv_revokedAt :: "int option"

definition toPublishedService :: "published_service_row \<Rightarrow> published_service" where
  "toPublishedService row =
     \<lparr>psv_id = ps_id row, psv_workspaceId = ps_workspace_id row, psv_name = ps_name row,
      psv_slug = ps_slug row, psv_protocol = ps_protocol row, psv_targetPort = ps_target_port row,
      psv_ingressPort = ps_ingress_port row, psv_state = ps_state row,
      psv_visibility = ps_visibility row, psv_authPolicy = ps_auth_policy row,
      psv_accessTokenHash = ps_access_token_hash row, psv_expiresAt = ps_expires_at row,
      psv_createdAt = ps_created_at row, psv_updatedAt = ps_updated_at row,
      psv_revokedAt = ps_revoked_at row\<rparr>"

section \<open>Lookups\<close>

definition live_service :: "int \<Rightarrow> published_service_row \<Rightarrow> bool" where
  "live_service now r \<longleftrightarrow>
     ps_state r = ServiceActive \<and> (case ps_expires_at r of None \<Rightarrow> True | Some e \<Rightarrow> e > now)"

text \<open>The joins with the workspace and its owner: ready, of the same organization, not disabled.\<close>

definition serving_workspace :: "string \<Rightarrow> cloud_db \<Rightarrow> bool" where
  "serving_workspace workspaceId db \<longleftrightarrow>
     list_ex (\<lambda>w. ws_id w = workspaceId \<and> ws_state w = WsReady
       \<and> list_ex (\<lambda>m. mb_id m = ws_member_id w \<and> mb_organizationId m = ws_organization_id w
            \<and> member_disabled (mb_id m) db = 0) (members db)) (workspaces db)"

definition getPublishedServiceBySlug :: "string \<Rightarrow> int \<Rightarrow> cloud_db \<Rightarrow> published_service option" where
  "getPublishedServiceBySlug slug now db =
     map_option toPublishedService
       (find (\<lambda>r. ps_slug r = trim slug \<and> live_service now r \<and> serving_workspace (ps_workspace_id r) db)
         (published_services db))"

definition getPublishedServiceByIngressPort :: "js_num \<Rightarrow> int \<Rightarrow> cloud_db \<Rightarrow> published_service option" where
  "getPublishedServiceByIngressPort ingressPort now db =
     (if \<not> is_safe_integer ingressPort \<or> int_value ingressPort < 1024 \<or> int_value ingressPort > 65535 then None
      else map_option toPublishedService
       (find (\<lambda>r. ps_protocol r = ProtoTcp \<and> ps_ingress_port r = Some (int_value ingressPort)
            \<and> live_service now r \<and> serving_workspace (ps_workspace_id r) db)
         (published_services db)))"

text \<open>\<open>ORDER BY ingress_port\<close>: \<open>NULL\<close> first, which a TCP row never has.\<close>

definition ingress_key :: "published_service_row \<Rightarrow> int" where
  "ingress_key r = (case ps_ingress_port r of None \<Rightarrow> 0 | Some p \<Rightarrow> p)"

definition listTCPPublishedServices :: "int \<Rightarrow> cloud_db \<Rightarrow> published_service list" where
  "listTCPPublishedServices now db =
     map toPublishedService (sort_key ingress_key
       (filter (\<lambda>r. ps_protocol r = ProtoTcp \<and> live_service now r) (published_services db)))"

definition findService :: "string \<Rightarrow> string \<Rightarrow> cloud_db \<Rightarrow> published_service_row option" where
  "findService workspaceId name db =
     find (\<lambda>r. (ps_workspace_id r, ps_name r) = (workspaceId, name)) (published_services db)"

definition getPublishedServiceByName :: "string \<Rightarrow> string \<Rightarrow> cloud_db \<Rightarrow> db_error + published_service option" where
  "getPublishedServiceByName workspaceId name db =
     sbind (publishedServiceName name) (\<lambda>n.
       Inr (map_option toPublishedService (findService (trim workspaceId) n db)))"

definition listPublishedServices :: "string \<Rightarrow> int \<Rightarrow> cloud_db \<Rightarrow> published_service list" where
  "listPublishedServices workspaceId now db =
     map toPublishedService (sort_key (\<lambda>r. (ps_created_at r, ps_name r))
       (filter (\<lambda>r. ps_workspace_id r = trim workspaceId \<and> live_service now r) (published_services db)))"

record organization_published_service =
  ops_publication :: published_service
  ops_membershipId :: string
  ops_name :: string
  ops_email :: string

text \<open>The three inner joins: a service whose workspace, owner or user is missing drops out.\<close>

definition service_owner :: "string \<Rightarrow> cloud_db \<Rightarrow> published_service_row \<Rightarrow> (workspace_row \<times> user_row) option" where
  "service_owner organizationId db r =
     (case find (\<lambda>w. ws_id w = ps_workspace_id r \<and> ws_organization_id w = organizationId) (workspaces db) of
        None \<Rightarrow> None
      | Some w \<Rightarrow>
          (case find_member_by_id (ws_member_id w) db of
             None \<Rightarrow> None
           | Some m \<Rightarrow> map_option (\<lambda>u. (w, u)) (find_user (mb_userId m) db)))"

definition is_individual_organization :: "string \<Rightarrow> cloud_db \<Rightarrow> bool" where
  "is_individual_organization organizationId db \<longleftrightarrow>
     (case find (\<lambda>a. pa_organization_id a = organizationId) (plan_accounts db) of
        None \<Rightarrow> False | Some a \<Rightarrow> pa_account_type a = AccIndividual)"

definition listOrganizationPublishedServices ::
  "string \<Rightarrow> string \<Rightarrow> cloud_db \<Rightarrow> db_error + organization_published_service list"
where
  "listOrganizationPublishedServices userId organizationId db =
     (case find_membership userId organizationId db of
        None \<Rightarrow> Inl OrganizationAccessDeniedError
      | Some actor \<Rightarrow>
          if member_disabled (mb_id actor) db = 1 then Inl OrganizationAccessDeniedError
          else
            let organizationScope =
                  (\<not> is_individual_organization organizationId db \<and> is_admin_role (mb_role actor));
                rows = sort_key (\<lambda>r. (- ps_updated_at r, ps_name r)) (published_services db)
            in Inr (List.map_filter (\<lambda>r.
                 case service_owner organizationId db r of
                   None \<Rightarrow> None
                 | Some (w, u) \<Rightarrow>
                     if organizationScope \<or> ws_member_id w = mb_id actor
                     then Some \<lparr>ops_publication = toPublishedService r, ops_membershipId = ws_member_id w,
                            ops_name = us_name u, ops_email = us_email u\<rparr>
                     else None) rows))"

section \<open>Publishing\<close>

record publish_input =
  pui_id :: string
  pui_workspaceId :: string
  pui_name :: string
  pui_slug :: string
  pui_protocol :: "string option"
  pui_targetPort :: js_num
  pui_visibility :: string
  pui_authPolicy :: string
  pui_accessTokenHash :: "string option"
  pui_expiresAt :: "js_num option"
  pui_tcpIngressPortMinimum :: "js_num option"
  pui_tcpIngressPortMaximum :: "js_num option"
  pui_maximumActive :: "js_num option"
  pui_maximumOrganizationActive :: "js_num option"

definition positive_limit :: "js_num option \<Rightarrow> int \<Rightarrow> int \<Rightarrow> string \<Rightarrow> db_error + int" where
  "positive_limit v dflt maximum message =
     (let limit = (case v of None \<Rightarrow> JInt dflt | Some l \<Rightarrow> l) in
      if \<not> is_safe_integer limit \<or> int_value limit < 1 \<or> int_value limit > maximum
      then Inl (JsError message) else Inr (int_value limit))"

definition check_ttl :: "js_num option \<Rightarrow> int \<Rightarrow> db_error + int option" where
  "check_ttl expiresAt timestamp =
     (case expiresAt of
        None \<Rightarrow> Inr None
      | Some e \<Rightarrow>
          if \<not> is_safe_integer e then Inl (JsError ''Published service expiry is invalid'')
          else let ttlMs = int_value e - timestamp in
            if ttlMs < publishedServiceMinimumTTLSeconds * 1000 \<or> ttlMs > publishedServiceMaximumTTLSeconds * 1000
            then Inl (JsError ''Published service TTL is invalid'')
            else Inr (Some (int_value e)))"

definition check_access ::
  "string \<Rightarrow> string \<Rightarrow> string option \<Rightarrow> service_protocol \<Rightarrow> db_error + service_visibility \<times> service_auth"
where
  "check_access visibility authPolicy accessTokenHash protocol =
     (if (visibility = ''public'' \<and> (authPolicy \<noteq> ''none'' \<or> accessTokenHash \<noteq> None))
         \<or> (visibility = ''private'' \<and> (authPolicy \<noteq> ''token''
              \<or> \<not> is_sha256_hex (case accessTokenHash of None \<Rightarrow> [] | Some h \<Rightarrow> h)))
      then Inl (JsError ''Published service access policy is invalid'')
      else if visibility \<noteq> ''public'' \<and> visibility \<noteq> ''private''
      then Inl (JsError ''Published service visibility is invalid'')
      else if protocol = ProtoTcp \<and> (visibility \<noteq> ''public'' \<or> authPolicy \<noteq> ''none'')
      then Inl (JsError ''TCP publications must use public passthrough access'')
      else Inr (if visibility = ''public'' then (VisPublic, AuthNone) else (VisPrivate, AuthToken)))"

definition active_services :: "string \<Rightarrow> int \<Rightarrow> cloud_db \<Rightarrow> nat" where
  "active_services workspaceId now db =
     length (filter (\<lambda>r. ps_workspace_id r = workspaceId \<and> live_service now r) (published_services db))"

definition in_organization :: "string \<Rightarrow> cloud_db \<Rightarrow> published_service_row \<Rightarrow> bool" where
  "in_organization organizationId db r \<longleftrightarrow>
     list_ex (\<lambda>w. ws_id w = ps_workspace_id r \<and> ws_organization_id w = organizationId) (workspaces db)"

definition organization_services :: "string \<Rightarrow> int \<Rightarrow> cloud_db \<Rightarrow> nat" where
  "organization_services organizationId now db =
     length (filter (\<lambda>r. in_organization organizationId db r \<and> live_service now r) (published_services db))"

text \<open>The loop over the candidates of the ingress range.\<close>

function first_free :: "int list \<Rightarrow> int \<Rightarrow> int \<Rightarrow> int option" where
  "first_free used candidate maximum =
     (if candidate > maximum then None
      else if candidate \<notin> set used then Some candidate
      else first_free used (candidate + 1) maximum)"
  by pat_completeness auto
termination by (relation "measure (\<lambda>(used, candidate, maximum). nat (maximum + 1 - candidate))") auto

declare first_free.simps [simp del]

definition valid_range :: "js_num option \<Rightarrow> js_num option \<Rightarrow> bool" where
  "valid_range lo hi \<longleftrightarrow>
     (case (lo, hi) of
        (Some l, Some h) \<Rightarrow> is_safe_integer l \<and> is_safe_integer h \<and> int_value l \<ge> 1024 \<and> int_value h \<le> 65535
          \<and> int_value l \<le> int_value h \<and> \<not> (int_value l \<le> 7777 \<and> int_value h \<ge> 7777)
      | _ \<Rightarrow> False)"

definition kept_port :: "published_service_row option \<Rightarrow> int \<Rightarrow> int \<Rightarrow> int option" where
  "kept_port existing lo hi =
     (case existing of
        None \<Rightarrow> None
      | Some r \<Rightarrow>
          if ps_protocol r = ProtoTcp then
            (case ps_ingress_port r of
               None \<Rightarrow> None
             | Some p \<Rightarrow> if lo \<le> p \<and> p \<le> hi then Some p else None)
          else None)"

definition ingress_port ::
  "service_protocol \<Rightarrow> publish_input \<Rightarrow> published_service_row option \<Rightarrow> cloud_db \<Rightarrow> db_error + int option"
where
  "ingress_port protocol inp existing db =
     (if protocol = ProtoHttp then Inr None
      else if \<not> valid_range (pui_tcpIngressPortMinimum inp) (pui_tcpIngressPortMaximum inp)
      then Inl (JsError ''Published service TCP ingress range is invalid'')
      else
        let minimum = int_value (the (pui_tcpIngressPortMinimum inp));
            maximum = int_value (the (pui_tcpIngressPortMaximum inp)) in
        case kept_port existing minimum maximum of
          Some p \<Rightarrow> Inr (Some p)
        | None \<Rightarrow>
            (case first_free (List.map_filter ps_ingress_port (published_services db)) minimum maximum of
               None \<Rightarrow> Inl PublishedServiceIngressCapacityError
             | Some p \<Rightarrow> Inr (Some p)))"

definition republished_row :: "published_service_row \<Rightarrow> published_service_row \<Rightarrow> published_service_row" where
  "republished_row excluded r =
     r\<lparr>ps_protocol := ps_protocol excluded, ps_target_port := ps_target_port excluded,
       ps_ingress_port := ps_ingress_port excluded, ps_state := ServiceActive,
       ps_visibility := ps_visibility excluded, ps_auth_policy := ps_auth_policy excluded,
       ps_access_token_hash := ps_access_token_hash excluded, ps_expires_at := ps_expires_at excluded,
       ps_updated_at := ps_updated_at excluded, ps_revoked_at := None\<rparr>"

definition upsert_service :: "published_service_row \<Rightarrow> nat dbop" where
  "upsert_service new =
     upsert_in published_services set_published_services published_service_schema
       (\<lambda>r. (ps_workspace_id r, ps_name r)) new (\<lambda>_. True) (republished_row new)"

definition parse_protocol :: "string option \<Rightarrow> service_protocol option" where
  "parse_protocol p =
     (case p of
        None \<Rightarrow> Some ProtoHttp
      | Some s \<Rightarrow> if s = ''http'' then Some ProtoHttp else if s = ''tcp'' then Some ProtoTcp else None)"

text \<open>A publication that is new, revoked or expired needs room in both quotas.\<close>

definition check_quota ::
  "published_service_row option \<Rightarrow> string \<Rightarrow> string \<Rightarrow> int \<Rightarrow> int \<Rightarrow> int \<Rightarrow> cloud_db \<Rightarrow> db_error + unit"
where
  "check_quota existing workspaceId organizationId timestamp maximumActive maximumOrganizationActive db =
     (if (case existing of None \<Rightarrow> False | Some r \<Rightarrow> live_service timestamp r) then Inr ()
      else if int (active_services workspaceId timestamp db) \<ge> maximumActive then Inl PublishedServiceLimitError
      else if int (organization_services organizationId timestamp db) \<ge> maximumOrganizationActive
      then Inl OrganizationPublishedServiceLimitError
      else Inr ())"

definition service_row ::
  "string \<Rightarrow> string \<Rightarrow> string \<Rightarrow> string \<Rightarrow> service_protocol \<Rightarrow> int \<Rightarrow> int option \<Rightarrow> service_visibility \<times> service_auth
     \<Rightarrow> string option \<Rightarrow> int option \<Rightarrow> int \<Rightarrow> published_service_row"
where
  "service_row serviceId workspaceId name slug protocol targetPort port access tokenHash expiresAt timestamp =
     \<lparr>ps_id = serviceId, ps_workspace_id = workspaceId, ps_name = name, ps_slug = slug, ps_protocol = protocol,
      ps_target_port = targetPort, ps_ingress_port = port, ps_state = ServiceActive,
      ps_visibility = fst access, ps_auth_policy = snd access, ps_access_token_hash = tokenHash,
      ps_expires_at = expiresAt, ps_created_at = timestamp, ps_updated_at = timestamp, ps_revoked_at = None\<rparr>"

definition publish ::
  "publish_input \<Rightarrow> string \<Rightarrow> string \<Rightarrow> string \<Rightarrow> string \<Rightarrow> service_protocol \<Rightarrow> int \<Rightarrow> string option \<Rightarrow> int \<Rightarrow> int
     \<Rightarrow> int \<Rightarrow> published_service dbop"
where
  "publish inp serviceId workspaceId name slug protocol targetPort tokenHash maximumActive maximumOrganizationActive timestamp =
     obind (oget (getWorkspaceById workspaceId)) (\<lambda>found.
     case found of
       None \<Rightarrow> othrow (JsError ''Workspace was not found'')
     | Some workspace \<Rightarrow>
       obind (oget (findService workspaceId name)) (\<lambda>existing.
       obind (olift (check_ttl (pui_expiresAt inp) timestamp)) (\<lambda>expiresAt.
       obind (olift (check_access (pui_visibility inp) (pui_authPolicy inp) tokenHash protocol)) (\<lambda>access.
       obind (oread (check_quota existing workspaceId (pw_organizationId workspace) timestamp
                maximumActive maximumOrganizationActive)) (\<lambda>_.
       obind (oread (ingress_port protocol inp existing)) (\<lambda>port.
       obind (upsert_service (service_row serviceId workspaceId name slug protocol targetPort port access tokenHash
                expiresAt timestamp)) (\<lambda>_.
       obind (oget (findService workspaceId name)) (\<lambda>service.
       case service of
         None \<Rightarrow> othrow (JsError ''Published service could not be resolved'')
       | Some r \<Rightarrow> oreturn (toPublishedService r)))))))))"

definition upsertPublishedService :: "publish_input \<Rightarrow> int \<Rightarrow> published_service dbop" where
  "upsertPublishedService inp now =
     obind (olift (publishedServiceText (pui_id inp) ''Published service id'' 128)) (\<lambda>serviceId.
     obind (olift (publishedServiceText (pui_workspaceId inp) ''Workspace id'' 128)) (\<lambda>workspaceId.
     obind (olift (publishedServiceName (pui_name inp))) (\<lambda>name.
     obind (olift (publishedServiceText (pui_slug inp) ''Published service slug'' 128)) (\<lambda>slug.
     obind (olift (publishedServicePort (pui_targetPort inp))) (\<lambda>targetPort.
     obind (olift (positive_limit (pui_maximumActive inp) 5 100 ''Published service limit is invalid'')) (\<lambda>maximumActive.
     obind (olift (positive_limit (pui_maximumOrganizationActive inp) 20 10000
                     ''Organization published service limit is invalid'')) (\<lambda>maximumOrganizationActive.
     obind (olift (case parse_protocol (pui_protocol inp) of
                None \<Rightarrow> Inl (JsError ''Published service protocol is invalid'') | Some p \<Rightarrow> Inr p)) (\<lambda>protocol.
     atomic (publish inp serviceId workspaceId name slug protocol targetPort (trim_or_null (pui_accessTokenHash inp))
       maximumActive maximumOrganizationActive now)))))))))"

section \<open>Revoking\<close>

definition revoked_row :: "int \<Rightarrow> published_service_row \<Rightarrow> published_service_row" where
  "revoked_row timestamp r = r\<lparr>ps_state := ServiceRevoked, ps_updated_at := timestamp, ps_revoked_at := Some timestamp\<rparr>"

definition revokePublishedService :: "string \<Rightarrow> string \<Rightarrow> int \<Rightarrow> published_service option dbop" where
  "revokePublishedService rawWorkspaceId rawName now =
     obind (olift (publishedServiceText rawWorkspaceId ''Workspace id'' 128)) (\<lambda>workspaceId.
     obind (olift (publishedServiceName rawName)) (\<lambda>name.
     obind (oget (findService workspaceId name)) (\<lambda>existing.
     case existing of
       None \<Rightarrow> oreturn None
     | Some r \<Rightarrow>
         obind (if ps_state r = ServiceActive
                then obind (update_in published_services set_published_services published_service_schema
                       (\<lambda>x. (ps_workspace_id x, ps_name x) = (workspaceId, name)) (revoked_row now)) (\<lambda>_. oreturn ())
                else oreturn ()) (\<lambda>_.
         oget (\<lambda>db. map_option toPublishedService (findService workspaceId name db))))))"

definition revokeOrganizationPublishedServices :: "string \<Rightarrow> js_num \<Rightarrow> published_service list dbop" where
  "revokeOrganizationPublishedServices rawOrganizationId now =
     obind (olift (publishedServiceText rawOrganizationId ''Organization id'' 128)) (\<lambda>organizationId.
     obind (olift (require (is_safe_integer now \<and> int_value now \<ge> 0)
              (JsTypeError ''Published service revocation timestamp is invalid''))) (\<lambda>_. atomic (
     obind (oget (\<lambda>db. (filter (\<lambda>r. in_organization organizationId db r \<and> ps_state r = ServiceActive)
              (sort_key (\<lambda>r. (ps_created_at r, ps_id r)) (published_services db))))) (\<lambda>rows.
     if rows = [] then oreturn []
     else
     obind (oget id) (\<lambda>db.
     obind (update_in published_services set_published_services published_service_schema
         (\<lambda>r. ps_state r = ServiceActive \<and> in_organization organizationId db r)
         (revoked_row (int_value now))) (\<lambda>_.
     oreturn (map (\<lambda>r. toPublishedService (revoked_row (int_value now) r)) rows)))))))"

section \<open>The free port\<close>

lemma first_free_Some:
  "first_free used lo hi = Some p \<Longrightarrow> lo \<le> p \<and> p \<le> hi \<and> p \<notin> set used \<and> (\<forall>q. lo \<le> q \<and> q < p \<longrightarrow> q \<in> set used)"
proof (induction used lo hi rule: first_free.induct)
  case (1 used lo hi)
  show ?case
  proof (cases "hi < lo \<or> lo \<notin> set used")
    case True
    with "1.prems" show ?thesis by (subst (asm) first_free.simps) (auto split: if_splits)
  next
    case False
    with "1.prems" have "first_free used (lo + 1) hi = Some p" by (subst (asm) first_free.simps) simp
    with "1.IH" False have IH: "lo + 1 \<le> p" "p \<le> hi" "p \<notin> set used" "\<forall>q. lo + 1 \<le> q \<and> q < p \<longrightarrow> q \<in> set used"
      by auto
    have "q \<in> set used" if "lo \<le> q" "q < p" for q
      using that IH(4) False by (cases "q = lo") auto
    with IH show ?thesis by auto
  qed
qed

lemma first_free_None: "first_free used lo hi = None \<Longrightarrow> lo \<le> q \<Longrightarrow> q \<le> hi \<Longrightarrow> q \<in> set used"
proof (induction used lo hi rule: first_free.induct)
  case (1 used lo hi)
  then show ?case
    by (subst (asm) (2) first_free.simps) (cases "q = lo"; auto split: if_splits)
qed

section \<open>What publishing writes\<close>

definition publications_ok :: "cloud_db \<Rightarrow> bool" where
  "publications_ok db \<longleftrightarrow> schema_ok published_service_schema (published_services db)"

lemma publications_ok_keys:
  "publications_ok s \<Longrightarrow> distinct (map (\<lambda>r. (ps_workspace_id r, ps_name r)) (published_services s))"
  unfolding publications_ok_def
  by (erule schema_ok_distinct [where u = "(''published_service.workspace_id, published_service.name'',
            \<lambda>r. Some [SText (ps_workspace_id r), SText (ps_name r)])" and g = "\<lambda>(w, n). [SText w, SText n]"])
    (simp_all add: published_service_schema_def)

lemma publications_ok_same_port:
  assumes "publications_ok s" and "r \<in> set (published_services s)" and "x \<in> set (published_services s)"
    and "ps_ingress_port r = Some p" and "ps_ingress_port x = Some p"
  shows "r = x"
  by (rule schema_ok_same_key [where u = "(''published_service.ingress_port'', \<lambda>r. map_option (\<lambda>p. [SInt p]) (ps_ingress_port r))"])
    (use assms in \<open>auto simp: publications_ok_def published_service_schema_def\<close>)

lemma findService_SomeD:
  "findService w n s = Some r \<Longrightarrow> r \<in> set (published_services s) \<and> ps_workspace_id r = w \<and> ps_name r = n"
  by (auto simp: findService_def dest: find_SomeD)

lemma republished_row_simps [simp]:
  "ps_workspace_id (republished_row n r) = ps_workspace_id r" "ps_name (republished_row n r) = ps_name r"
  "ps_slug (republished_row n r) = ps_slug r"
  "ps_ingress_port (republished_row n r) = ps_ingress_port n"
  "ps_protocol (republished_row n r) = ps_protocol n"
  "ps_state (republished_row n r) = ServiceActive" "ps_expires_at (republished_row n r) = ps_expires_at n"
  by (simp_all add: republished_row_def)

lemma service_row_simps [simp]:
  "ps_workspace_id (service_row i w n sl pr tp port a h e ts) = w"
  "ps_name (service_row i w n sl pr tp port a h e ts) = n"
  "ps_ingress_port (service_row i w n sl pr tp port a h e ts) = port"
  "ps_protocol (service_row i w n sl pr tp port a h e ts) = pr"
  "ps_state (service_row i w n sl pr tp port a h e ts) = ServiceActive"
  "ps_expires_at (service_row i w n sl pr tp port a h e ts) = e"
  by (simp_all add: service_row_def)

lemma upsert_service_Inr:
  assumes "upsert_service new s = (Inr n, t)"
  shows "(findService (ps_workspace_id new) (ps_name new) s = None
        \<and> t = set_published_services (published_services s @ [new]) s)
    \<or> (findService (ps_workspace_id new) (ps_name new) s \<noteq> None
        \<and> t = set_published_services (map (\<lambda>r. if (ps_workspace_id r, ps_name r) = (ps_workspace_id new, ps_name new)
                then republished_row new r else r) (published_services s)) s)"
  using ps_tbl.upsert_Inr [OF assms [unfolded upsert_service_def]] by (auto simp: findService_def)

lemma upsert_service_found:
  assumes "upsert_service new s = (Inr n, t)"
  shows "findService (ps_workspace_id new) (ps_name new) t
    = Some (case findService (ps_workspace_id new) (ps_name new) s of None \<Rightarrow> new | Some r \<Rightarrow> republished_row new r)"
  using upsert_service_Inr [OF assms]
proof (elim disjE conjE)
  assume "findService (ps_workspace_id new) (ps_name new) s = None"
    and "t = set_published_services (published_services s @ [new]) s"
  then show ?thesis by (simp add: findService_def set_published_services_def find_append)
next
  let ?g = "\<lambda>r. if (ps_workspace_id r, ps_name r) = (ps_workspace_id new, ps_name new)
                then republished_row new r else r"
  assume "findService (ps_workspace_id new) (ps_name new) s \<noteq> None"
    and t: "t = set_published_services (map ?g (published_services s)) s"
  then obtain r where r: "findService (ps_workspace_id new) (ps_name new) s = Some r" by blast
  have "findService (ps_workspace_id new) (ps_name new) t
      = map_option ?g (findService (ps_workspace_id new) (ps_name new) s)"
    unfolding t findService_def by (simp add: set_published_services_def find_map_update)
  with r findService_SomeD [OF r] show ?thesis by simp
qed

lemma upsert_service_Inl: "upsert_service new s = (Inl e, t) \<Longrightarrow> t = s"
  unfolding upsert_service_def by (rule ps_tbl.upsert_Inl)

lemma upsert_service_keeps_ok: "keeps publications_ok (upsert_service new)"
  unfolding upsert_service_def publications_ok_def by (rule ps_tbl.upsert_keeps_schema)

lemma upsertPublishedService_Inl: "upsertPublishedService inp now s = (Inl e, t) \<Longrightarrow> t = s"
  by (auto simp: upsertPublishedService_def obind_eq_Inl operation_defs dest: atomic_rolls_back)

lemma publish_Inr:
  assumes "publish inp i w name slug protocol tp h ma mo now s = (Inr sv, t)"
  obtains workspace expiresAt access port n row where "getWorkspaceById w s = Some workspace"
    and "check_ttl (pui_expiresAt inp) now = Inr expiresAt"
    and "check_access (pui_visibility inp) (pui_authPolicy inp) h protocol = Inr access"
    and "check_quota (findService w name s) w (pw_organizationId workspace) now ma mo s = Inr ()"
    and "ingress_port protocol inp (findService w name s) s = Inr port"
    and "upsert_service (service_row i w name slug protocol tp port access h expiresAt now) s = (Inr n, t)"
    and "findService w name t = Some row" and "sv = toPublishedService row"
  using assms by (auto simp: publish_def split: option.splits)

lemma upsertPublishedService_Inr:
  assumes "upsertPublishedService inp now s = (Inr sv, t)"
  obtains i w name slug tp ma mo protocol where "trim (pui_workspaceId inp) = w"
    and "publishedServiceName (pui_name inp) = Inr name"
    and "positive_limit (pui_maximumActive inp) 5 100 ''Published service limit is invalid'' = Inr ma"
    and "positive_limit (pui_maximumOrganizationActive inp) 20 10000
           ''Organization published service limit is invalid'' = Inr mo"
    and "parse_protocol (pui_protocol inp) = Some protocol"
    and "publish inp i w name slug protocol tp (trim_or_null (pui_accessTokenHash inp)) ma mo now s = (Inr sv, t)"
  using assms by (auto simp: upsertPublishedService_def publishedServiceText_Inr split: option.splits)
section \<open>Quotas\<close>

text \<open>One write changes the number of rows with a property by that of its row.\<close>

lemma upserted_count:
  assumes "publications_ok s" and "upsert_service new s = (Inr n, t)"
    and "\<And>r. ps_workspace_id r = ps_workspace_id new \<Longrightarrow> P (republished_row new r) \<Longrightarrow> P new"
  shows "length (filter P (published_services t)) \<le> length (filter P (published_services s))
    + (if P new \<and> (case findService (ps_workspace_id new) (ps_name new) s of None \<Rightarrow> True | Some r \<Rightarrow> \<not> P r) then 1 else 0)"
  using upsert_service_Inr [OF assms(2)]
proof (elim disjE conjE)
  assume "findService (ps_workspace_id new) (ps_name new) s = None"
    and "t = set_published_services (published_services s @ [new]) s"
  then show ?thesis by (simp add: set_published_services_def)
next
  assume "findService (ps_workspace_id new) (ps_name new) s \<noteq> None"
    and t: "t = set_published_services (map (\<lambda>r. if (ps_workspace_id r, ps_name r) = (ps_workspace_id new, ps_name new)
                then republished_row new r else r) (published_services s)) s"
  then obtain x where x: "findService (ps_workspace_id new) (ps_name new) s = Some x" by blast
  note mem = findService_SomeD [OF x]
  have "int (length (filter P (published_services t))) = int (length (filter P (published_services s)))
      - of_bool (P x) + of_bool (P (republished_row new x))"
    using count_key_update [OF publications_ok_keys [OF assms(1)], of x P "republished_row new"] mem
    by (simp add: t set_published_services_def del: filter_map)
  with x mem assms(3) [of x] show ?thesis
    by (cases "P x"; cases "P (republished_row new x)"; cases "P new") simp_all
qed

text \<open>So a write adds at most one live service to a group of workspaces, and none for a live one.\<close>

lemma upserted_group:
  assumes "publications_ok s" and "upsert_service new s = (Inr n, t)" and "ps_state new = ServiceActive"
  shows "length (filter (\<lambda>r. S (ps_workspace_id r) \<and> live_service at r) (published_services t))
    \<le> length (filter (\<lambda>r. S (ps_workspace_id r) \<and> live_service at r) (published_services s))
      + (if S (ps_workspace_id new)
            \<and> (case findService (ps_workspace_id new) (ps_name new) s of None \<Rightarrow> True | Some r \<Rightarrow> \<not> live_service at r)
         then 1 else 0)" (is "?t \<le> ?s + _")
proof -
  have "?t \<le> ?s + (if (S (ps_workspace_id new) \<and> live_service at new)
      \<and> (case findService (ps_workspace_id new) (ps_name new) s of None \<Rightarrow> True
         | Some r \<Rightarrow> \<not> (S (ps_workspace_id r) \<and> live_service at r)) then 1 else 0)"
    by (rule upserted_count [OF assms(1,2)]) (use assms(3) in \<open>auto simp: live_service_def\<close>)
  note bound = this
  show ?thesis
  proof (cases "findService (ps_workspace_id new) (ps_name new) s")
    case None
    with bound show ?thesis by (auto split: if_splits)
  next
    case (Some r)
    then have "ps_workspace_id r = ps_workspace_id new" using findService_SomeD by blast
    with bound Some show ?thesis by (auto split: if_splits)
  qed
qed

text \<open>As time passes services only expire.\<close>

lemma live_service_later: "at \<le> later \<Longrightarrow> live_service later r \<Longrightarrow> live_service at r"
  by (auto simp: live_service_def split: option.splits)

lemma active_services_later: "at \<le> later \<Longrightarrow> active_services w later s \<le> active_services w at s"
  unfolding active_services_def by (rule length_filter_mono) (auto dest: live_service_later)

lemma organization_services_later: "at \<le> later \<Longrightarrow> organization_services g later s \<le> organization_services g at s"
  unfolding organization_services_def by (rule length_filter_mono) (auto dest: live_service_later)

definition within_quota :: "int \<Rightarrow> int \<Rightarrow> int \<Rightarrow> cloud_db \<Rightarrow> bool" where
  "within_quota ma mo now db \<longleftrightarrow>
     (\<forall>w. int (active_services w now db) \<le> ma) \<and> (\<forall>g. int (organization_services g now db) \<le> mo)"

lemma within_quota_later: "at \<le> later \<Longrightarrow> within_quota ma mo at s \<Longrightarrow> within_quota ma mo later s"
  unfolding within_quota_def
  by (meson active_services_later organization_services_later dual_order.trans of_nat_mono)

lemma upsert_service_workspaces: "upsert_service new s = (Inr n, t) \<Longrightarrow> workspaces t = workspaces s"
  by (auto simp: set_published_services_def dest!: upsert_service_Inr)

text \<open>The organization of a publication is that of its workspace.\<close>

lemma in_organization_workspace:
  assumes "workspaces_ok s" and "getWorkspaceById w s = Some workspace" and "ps_workspace_id r = w"
    and "in_organization g s r"
  shows "g = pw_organizationId workspace"
proof -
  from assms(4) obtain x where x: "x \<in> set (workspaces s)" "ws_id x = w" "ws_organization_id x = g"
    by (auto simp: in_organization_def list_ex_iff assms(3))
  from assms(2) obtain y where y: "y \<in> set (workspaces s)" "ws_id y = w" "workspace = toPersonalWorkspace y"
    by (auto simp: getWorkspaceById_def findWorkspace_def dest: find_SomeD)
  have "x = y"
    by (rule schema_ok_same_key [where sc = workspace_schema and rows = "workspaces s"
          and u = "(''workspace.id'', \<lambda>w. Some [SText (ws_id w)])"])
      (use assms(1) x y in \<open>auto simp: workspaces_ok_def workspace_schema_def\<close>)
  with x y show ?thesis by (simp add: toPersonalWorkspace_def)
qed
lemma check_ttl_Inr: "check_ttl v now = Inr (Some e) \<Longrightarrow> now < e"
  by (auto simp: check_ttl_def Let_def publishedServiceMinimumTTLSeconds_def split: option.splits if_splits)

lemma in_organization_put [simp]: "in_organization g (set_published_services rows s) r = in_organization g s r"
  by (simp add: in_organization_def set_published_services_def)

text \<open>Publishing keeps both quotas, at the time it runs.\<close>

lemma publish_keeps_quota:
  assumes "publications_ok s" and "workspaces_ok s" and "within_quota ma mo now s"
    and "publish inp i w name slug protocol tp h ma mo now s = (Inr sv, t)"
  shows "within_quota ma mo now t"
proof -
  from assms(4) obtain workspace expiresAt access port n where w: "getWorkspaceById w s = Some workspace"
    and quota: "check_quota (findService w name s) w (pw_organizationId workspace) now ma mo s = Inr ()"
    and up: "upsert_service (service_row i w name slug protocol tp port access h expiresAt now) s = (Inr n, t)"
    by (rule publish_Inr)
  let ?new = "service_row i w name slug protocol tp port access h expiresAt now"
  have room: "int (active_services w now s) < ma \<and> int (organization_services (pw_organizationId workspace) now s) < mo"
    if "case findService w name s of None \<Rightarrow> True | Some r \<Rightarrow> \<not> live_service now r"
    using quota that by (auto simp: check_quota_def split: option.splits if_splits)
  note group = upserted_group [OF assms(1) up, of _ now, simplified]
  have "int (active_services x now t) \<le> ma" for x
  proof -
    have "int (active_services x now s) \<le> ma" using assms(3) by (simp add: within_quota_def)
    with group [of "\<lambda>v. v = x"] room show ?thesis
      by (auto simp: active_services_def split: if_splits)
  qed
  moreover have "int (organization_services g now t) \<le> mo" for g
  proof -
    let ?S = "\<lambda>v. list_ex (\<lambda>w. ws_id w = v \<and> ws_organization_id w = g) (workspaces s)"
    have "int (organization_services g now s) \<le> mo" using assms(3) by (simp add: within_quota_def)
    moreover have "g = pw_organizationId workspace" if "?S w"
      using that by (intro in_organization_workspace [OF assms(2) w, of "?new"]) (simp_all add: in_organization_def)
    ultimately show ?thesis
      using group [of ?S] room
      by (auto simp: organization_services_def in_organization_def upsert_service_workspaces [OF up] split: if_splits)
  qed
  ultimately show ?thesis by (simp add: within_quota_def)
qed
lemma revoke_update_shrinks:
  assumes "update_in published_services set_published_services published_service_schema p (revoked_row at) s = (r, t)"
  shows "within_quota ma mo now s \<Longrightarrow> within_quota ma mo now t" and "workspaces t = workspaces s"
    and "publications_ok s \<Longrightarrow> publications_ok t"
proof -
  show "publications_ok s \<Longrightarrow> publications_ok t"
    using keepsD [OF ps_tbl.update_keeps_schema _ assms] by (simp add: publications_ok_def)
  have cases: "t = s \<or> t = set_published_services (map (\<lambda>r. if p r then revoked_row at r else r) (published_services s)) s"
    using assms by (cases r) (auto dest: ps_tbl.update_Inl ps_tbl.update_Inr)
  then show same: "workspaces t = workspaces s" by (auto simp: set_published_services_def)
  have "length (filter (\<lambda>r. S r \<and> live_service now r) (published_services t))
      \<le> length (filter (\<lambda>r. S r \<and> live_service now r) (published_services s))"
    if "\<And>r. S (revoked_row at r) = S r" for S
  proof -
    have "length (filter (\<lambda>r. S r \<and> live_service now r) (map (\<lambda>r. if p r then revoked_row at r else r) rows))
        \<le> length (filter (\<lambda>r. S r \<and> live_service now r) rows)" for rows
      by (rule length_filter_map_le) (auto simp: that live_service_def revoked_row_def split: if_splits)
    with cases show ?thesis by (auto simp: set_published_services_def simp del: filter_map)
  qed
  then have "active_services w now t \<le> active_services w now s"
    and "organization_services g now t \<le> organization_services g now s" for w g
    by (simp_all add: active_services_def organization_services_def in_organization_def same revoked_row_def)
  then show "within_quota ma mo now s \<Longrightarrow> within_quota ma mo now t"
    unfolding within_quota_def by (meson dual_order.trans of_nat_mono)
qed

text \<open>Histories of publications under fixed limits, on a clock that never goes back.\<close>

inductive pub_step :: "int \<Rightarrow> int \<Rightarrow> cloud_db \<times> int \<Rightarrow> cloud_db \<times> int \<Rightarrow> bool" for ma mo where
  publish: "upsertPublishedService inp now s = (r, t) \<Longrightarrow> clock \<le> now
     \<Longrightarrow> positive_limit (pui_maximumActive inp) 5 100 ''Published service limit is invalid'' = Inr ma
     \<Longrightarrow> positive_limit (pui_maximumOrganizationActive inp) 20 10000
           ''Organization published service limit is invalid'' = Inr mo
     \<Longrightarrow> pub_step ma mo (s, clock) (t, now)"
| revoke: "revokePublishedService w n now s = (v, t) \<Longrightarrow> clock \<le> now \<Longrightarrow> pub_step ma mo (s, clock) (t, now)"
| revoke_all: "revokeOrganizationPublishedServices g (JInt now) s = (x, t) \<Longrightarrow> clock \<le> now
     \<Longrightarrow> pub_step ma mo (s, clock) (t, now)"

inductive_cases pub_stepE: "pub_step ma mo (s, clock) (t, now)"

definition pub_inv :: "int \<Rightarrow> int \<Rightarrow> cloud_db \<times> int \<Rightarrow> bool" where
  "pub_inv ma mo c \<longleftrightarrow> publications_ok (fst c) \<and> workspaces_ok (fst c) \<and> within_quota ma mo (snd c) (fst c)"

lemma upsertPublishedService_keeps:
  assumes "upsertPublishedService inp now s = (r, t)"
    and "positive_limit (pui_maximumActive inp) 5 100 ''Published service limit is invalid'' = Inr ma"
    and "positive_limit (pui_maximumOrganizationActive inp) 20 10000
           ''Organization published service limit is invalid'' = Inr mo"
    and "pub_inv ma mo (s, now)"
  shows "pub_inv ma mo (t, now)"
proof (cases r)
  case (Inl e)
  with assms show ?thesis using upsertPublishedService_Inl by blast
next
  case (Inr sv)
  from assms(1) [unfolded Inr] obtain i w name tp ma' mo' protocol where
    lim: "positive_limit (pui_maximumActive inp) 5 100 ''Published service limit is invalid'' = Inr ma'"
      "positive_limit (pui_maximumOrganizationActive inp) 20 10000
           ''Organization published service limit is invalid'' = Inr mo'"
    and run': "\<exists>slug. publish inp i w name slug protocol tp (trim_or_null (pui_accessTokenHash inp)) ma' mo' now s = (Inr sv, t)"
    by (rule upsertPublishedService_Inr) blast
  from run' obtain slug where
    run: "publish inp i w name slug protocol tp (trim_or_null (pui_accessTokenHash inp)) ma' mo' now s = (Inr sv, t)" ..
  have "ma' = ma" "mo' = mo" using lim assms(2,3) by simp_all
  note run = run [unfolded this]
  from assms(4) have ok: "publications_ok s" "workspaces_ok s" "within_quota ma mo now s" by (simp_all add: pub_inv_def)
  from run obtain port access expiresAt n where
    up: "upsert_service (service_row i w name slug protocol tp port access
      (trim_or_null (pui_accessTokenHash inp)) expiresAt now) s = (Inr n, t)"
    by (rule publish_Inr)
  have "publications_ok t" using keepsD [OF upsert_service_keeps_ok ok(1) up] .
  moreover have "workspaces_ok t" using ok(2) by (simp add: workspaces_ok_def upsert_service_workspaces [OF up])
  ultimately show ?thesis using publish_keeps_quota [OF ok run] by (simp add: pub_inv_def)
qed

lemma revoke_update_keeps:
  "keeps (\<lambda>s. pub_inv ma mo (s, now))
     (update_in published_services set_published_services published_service_schema p (revoked_row at))"
  by (rule keepsI) (auto simp: pub_inv_def workspaces_ok_def revoke_update_shrinks dest: revoke_update_shrinks)

lemma revocations_keep:
  "keeps (\<lambda>s. pub_inv ma mo (s, now)) (revokePublishedService w n at)"
  "keeps (\<lambda>s. pub_inv ma mo (s, now)) (revokeOrganizationPublishedServices g v)"
  unfolding revokePublishedService_def revokeOrganizationPublishedServices_def
  by (intro keeps_intro revoke_update_keeps)+

interpretation publication_quota: invariant_system "pub_step ma mo" "pub_inv ma mo" for ma mo
proof
  fix c d
  assume step: "pub_step ma mo c d" and inv: "pub_inv ma mo c"
  obtain s clock t now where c: "c = (s, clock)" and d: "d = (t, now)" by (cases c; cases d) auto
  have later: "pub_inv ma mo (s, now)" if "clock \<le> now"
    using inv within_quota_later [OF that] by (simp add: c pub_inv_def)
  from step show "pub_inv ma mo d"
    unfolding c d
    by (elim pub_stepE) (blast intro: upsertPublishedService_keeps later keepsD [OF revocations_keep(1)]
        keepsD [OF revocations_keep(2)])+
qed

section \<open>Properties\<close>

text \<open>C11: However publications and revocations follow one another, at every time no workspace has more
  live services than its limit and no organization more than its own.\<close>

theorem publication_quotas_hold:
  assumes "(pub_step ma mo)\<^sup>*\<^sup>* (s, clock) (t, now)" and "published_services s = []" and "workspaces_ok s"
    and "0 \<le> ma" and "0 \<le> mo"
  shows "int (active_services w now t) \<le> ma \<and> int (organization_services g now t) \<le> mo"
proof -
  have "pub_inv ma mo (s, clock)"
    using assms(2-5) by (simp add: pub_inv_def publications_ok_def within_quota_def active_services_def
        organization_services_def)
  from publication_quota.run_inv [OF assms(1) this] show ?thesis by (simp add: pub_inv_def within_quota_def)
qed

text \<open>A TCP publication gets a port of its ingress range: the port it already has when that lies in
  the range, otherwise the lowest one that no publication holds; the port is never the reserved
  7777, and no other publication has it.\<close>

theorem tcp_publication_port:
  assumes "upsertPublishedService inp now s = (Inr sv, t)" and "publications_ok s"
    and "pui_protocol inp = Some ''tcp''" and "pui_tcpIngressPortMinimum inp = Some (JInt lo)"
    and "pui_tcpIngressPortMaximum inp = Some (JInt hi)"
  shows "\<exists>p. psv_ingressPort sv = Some p \<and> lo \<le> p \<and> p \<le> hi \<and> p \<noteq> 7777
    \<and> (\<forall>r \<in> set (published_services t). ps_ingress_port r = Some p \<longrightarrow> toPublishedService r = sv)
    \<and> ((\<exists>r \<in> set (published_services s). ps_protocol r = ProtoTcp \<and> ps_ingress_port r = Some p
            \<and> ps_workspace_id r = psv_workspaceId sv \<and> ps_name r = psv_name sv)
       \<or> (\<forall>r \<in> set (published_services s). ps_ingress_port r \<noteq> Some p)
         \<and> (\<forall>q. lo \<le> q \<and> q < p \<longrightarrow> (\<exists>r \<in> set (published_services s). ps_ingress_port r = Some q)))"
proof -
  from assms(1) obtain i w name tp ma mo protocol slug where
    protocol: "parse_protocol (pui_protocol inp) = Some protocol"
    and run: "publish inp i w name slug protocol tp (trim_or_null (pui_accessTokenHash inp)) ma mo now s = (Inr sv, t)"
    by (rule upsertPublishedService_Inr)
  from protocol assms(3) have tcp: "protocol = ProtoTcp" by (simp add: parse_protocol_def)
  from run obtain port access expiresAt n row where
    port: "ingress_port protocol inp (findService w name s) s = Inr port"
    and up: "upsert_service (service_row i w name slug protocol tp port access
      (trim_or_null (pui_accessTokenHash inp)) expiresAt now) s = (Inr n, t)"
    and row: "findService w name t = Some row" "sv = toPublishedService row"
    by (rule publish_Inr)
  have ok: "publications_ok t" using keepsD [OF upsert_service_keeps_ok assms(2) up] .
  from port assms(4,5) tcp have range: "1024 \<le> lo" "lo \<le> hi" "hi \<le> 65535" "\<not> (lo \<le> 7777 \<and> 7777 \<le> hi)"
    by (auto simp: ingress_port_def valid_range_def split: if_splits)
  let ?kept = "kept_port (findService w name s) lo hi"
  let ?free = "first_free (List.map_filter ps_ingress_port (published_services s)) lo hi"
  from port [symmetric] have "Inr port = (case ?kept of Some p \<Rightarrow> Inr (Some p)
      | None \<Rightarrow> (case ?free of None \<Rightarrow> Inl PublishedServiceIngressCapacityError | Some p \<Rightarrow> Inr (Some p)))"
    by (simp add: ingress_port_def assms(4,5) tcp Let_def split: if_splits)
  then have "\<exists>p. port = Some p \<and> (?kept = Some p \<or> ?free = Some p)"
    by (cases ?kept; cases ?free) simp_all
  then obtain p where p: "port = Some p" and choice: "?kept = Some p \<or> ?free = Some p" by blast
  note row_in = findService_SomeD [OF row(1)]
  have row_port: "ps_ingress_port row = Some p"
    using upsert_service_found [OF up] row(1) p by (auto split: option.splits)
  have only: "\<forall>r \<in> set (published_services t). ps_ingress_port r = Some p \<longrightarrow> toPublishedService r = sv"
    using publications_ok_same_port [OF ok _ _ _ row_port] row_in row(2) by blast
  have key: "psv_workspaceId sv = w" "psv_name sv = name" "psv_ingressPort sv = Some p"
    using row_in row_port row(2) by (simp_all add: toPublishedService_def)
  from choice show ?thesis
  proof
    assume "kept_port (findService w name s) lo hi = Some p"
    then obtain r where "findService w name s = Some r" "ps_protocol r = ProtoTcp" "ps_ingress_port r = Some p"
      and bound: "lo \<le> p" "p \<le> hi"
      by (auto simp: kept_port_def split: option.splits if_splits)
    with findService_SomeD have "\<exists>r \<in> set (published_services s). ps_protocol r = ProtoTcp \<and> ps_ingress_port r = Some p
        \<and> ps_workspace_id r = w \<and> ps_name r = name" by blast
    with bound range only key show ?thesis by (intro exI [of _ p]) auto
  next
    assume "first_free (List.map_filter ps_ingress_port (published_services s)) lo hi = Some p"
    from first_free_Some [OF this] have "lo \<le> p" "p \<le> hi"
      and "\<forall>r \<in> set (published_services s). ps_ingress_port r \<noteq> Some p"
      and "\<forall>q. lo \<le> q \<and> q < p \<longrightarrow> (\<exists>r \<in> set (published_services s). ps_ingress_port r = Some q)"
      by (auto simp: set_map_filter)
    with range only key show ?thesis by (intro exI [of _ p]) auto
  qed
qed

lemma served_service:
  assumes "getPublishedServiceBySlug slug now s = Some sv"
  obtains r where "r \<in> set (published_services s)" and "sv = toPublishedService r" and "ps_slug r = trim slug"
    and "live_service now r" and "serving_workspace (ps_workspace_id r) s"
  using assms by (auto simp: getPublishedServiceBySlug_def dest!: find_SomeD)

lemma served_port:
  assumes "getPublishedServiceByIngressPort port now s = Some sv"
  obtains r where "r \<in> set (published_services s)" and "sv = toPublishedService r" and "live_service now r"
    and "serving_workspace (ps_workspace_id r) s"
  using assms by (auto simp: getPublishedServiceByIngressPort_def split: if_splits dest!: find_SomeD)

lemma revoked_everywhere:
  assumes "revokeOrganizationPublishedServices g now s = (Inr gone, t)"
    and "r \<in> set (published_services t)" and "in_organization (trim g) t r"
  shows "ps_state r = ServiceRevoked"
proof (rule ccontr)
  assume active: "ps_state r \<noteq> ServiceRevoked"
  then have act: "ps_state r = ServiceActive" by (cases "ps_state r") auto
  from assms(1) consider
      (none) "t = s" "\<forall>x \<in> set (published_services s). \<not> (in_organization (trim g) s x \<and> ps_state x = ServiceActive)"
    | (some) at n where "update_in published_services set_published_services published_service_schema
          (\<lambda>r. ps_state r = ServiceActive \<and> in_organization (trim g) s r) (revoked_row at) s = (Inr n, t)"
    by (auto simp: revokeOrganizationPublishedServices_def publishedServiceText_Inr filter_empty_conv
        split: if_splits)
  then show False
  proof cases
    case none
    with assms(2,3) act show False by blast
  next
    case (some at n)
    then have t: "t = set_published_services (map (\<lambda>r. if ps_state r = ServiceActive \<and> in_organization (trim g) s r
        then revoked_row at r else r) (published_services s)) s"
      by (auto dest: ps_tbl.update_Inr)
    have org: "in_organization (trim g) s (revoked_row at x) = in_organization (trim g) s x" for x
      by (simp add: in_organization_def revoked_row_def)
    from assms(2) [unfolded t] obtain x where "r = (if ps_state x = ServiceActive \<and> in_organization (trim g) s x
        then revoked_row at x else x)"
      by (simp add: set_published_services_def del: if_image_distrib) blast
    with active act assms(3) show False
      by (auto simp: t org revoked_row_def split: if_splits)
  qed
qed

text \<open>Once the publications of an organization are revoked, none of its services is reachable by its
  slug or its ingress port, at any time.\<close>

theorem organization_revocation_stops_serving:
  assumes "revokeOrganizationPublishedServices g now s = (Inr gone, t)"
    and "getPublishedServiceBySlug slug later t = Some sv \<or> getPublishedServiceByIngressPort port later t = Some sv"
  shows "\<not> (\<exists>x \<in> set (workspaces t). ws_id x = psv_workspaceId sv \<and> ws_organization_id x = trim g)"
proof
  assume org: "\<exists>x \<in> set (workspaces t). ws_id x = psv_workspaceId sv \<and> ws_organization_id x = trim g"
  from assms(2) obtain r where r: "r \<in> set (published_services t)" "sv = toPublishedService r" "live_service later r"
    by (elim disjE) (auto elim: served_service served_port)
  with org have "in_organization (trim g) t r"
    by (auto simp: in_organization_def list_ex_iff toPublishedService_def)
  from revoked_everywhere [OF assms(1) r(1) this] r(3) show False by (simp add: live_service_def)
qed

section \<open>The properties on a concrete database\<close>

definition publishing_db :: cloud_db where
  "publishing_db = sample_db\<lparr>workspaces := [(new_workspace ''w1'' ''m1'' ''o1'' 5)\<lparr>ws_state := WsReady\<rparr>]\<rparr>"

definition sample_publication :: publish_input where
  "sample_publication = \<lparr>pui_id = ''p1'', pui_workspaceId = ''w1'', pui_name = ''db'', pui_slug = ''s1'',
     pui_protocol = Some ''tcp'', pui_targetPort = JInt 5432, pui_visibility = ''public'', pui_authPolicy = ''none'',
     pui_accessTokenHash = None, pui_expiresAt = Some (JInt 600010), pui_tcpIngressPortMinimum = Some (JInt 20000),
     pui_tcpIngressPortMaximum = Some (JInt 20001), pui_maximumActive = Some (JInt 2),
     pui_maximumOrganizationActive = Some (JInt 3)\<rparr>"

lemmas publish_run = upsertPublishedService_def sample_publication_def publishing_db_def publishedServiceText_def
  publishedServiceName_def publishedServicePort_def positive_limit_def parse_protocol_def trim_or_null_def
  publish_def getWorkspaceById_def findWorkspace_def findService_def check_ttl_def check_access_def check_quota_def
  publishedServiceMinimumTTLSeconds_def publishedServiceMaximumTTLSeconds_def active_services_def
  organization_services_def ingress_port_def valid_range_def kept_port_def upsert_service_def upsert_in_def
  service_row_def published_service_schema_def set_published_services_def ingress_port_check_def access_check_def
  label_pattern_def is_lower_alnum_def is_lower_letter_def is_digit_def toLowerCase_def lower_char_def
  trim_def js_space_def is_safe_int_def MAX_SAFE_INTEGER_def first_free.simps

lemma publication_runs: "\<exists>sv t. upsertPublishedService sample_publication 10 publishing_db = (Inr sv, t)
  \<and> psv_workspaceId sv = ''w1'' \<and> workspaces t = workspaces publishing_db"
  by (simp add: publish_run sample_run new_workspace_def toPublishedService_def Let_def less_eq_char_def)

lemma publishing_db_ok: "publications_ok publishing_db" "workspaces_ok publishing_db"
  "published_services publishing_db = []"
  by (simp_all add: publications_ok_def workspaces_ok_def publishing_db_def sample_db_def empty_db_def row_ok_iff
      workspace_schema_def new_workspace_def)

theorem publication_quotas_hold_witness:
  "\<exists>sv t. upsertPublishedService sample_publication 10 publishing_db = (Inr sv, t)
     \<and> (pub_step 2 3)\<^sup>*\<^sup>* (publishing_db, 0) (t, 10)
     \<and> int (active_services ''w1'' 10 t) \<le> 2 \<and> int (organization_services ''o1'' 10 t) \<le> 3"
proof -
  obtain sv t where run: "upsertPublishedService sample_publication 10 publishing_db = (Inr sv, t)"
    using publication_runs by blast
  have "pub_step 2 3 (publishing_db, 0) (t, 10)"
    by (rule pub_step.publish [OF run])
      (simp_all add: sample_publication_def positive_limit_def is_safe_int_def MAX_SAFE_INTEGER_def)
  then have steps: "(pub_step 2 3)\<^sup>*\<^sup>* (publishing_db, 0) (t, 10)" by (rule r_into_rtranclp)
  from publication_quotas_hold [OF steps publishing_db_ok(3,2)] run steps show ?thesis by auto
qed

theorem tcp_publication_port_witness:
  "\<exists>sv t p. upsertPublishedService sample_publication 10 publishing_db = (Inr sv, t)
     \<and> psv_ingressPort sv = Some p \<and> 20000 \<le> p \<and> p \<le> 20001"
proof -
  obtain sv t where run: "upsertPublishedService sample_publication 10 publishing_db = (Inr sv, t)"
    using publication_runs by blast
  from tcp_publication_port [OF run publishing_db_ok(1), of 20000 20001] run show ?thesis
    by (auto simp: sample_publication_def)
qed

definition served_db :: cloud_db where
  "served_db = publishing_db
     \<lparr>workspaces := [(new_workspace ''w1'' ''m1'' ''o1'' 5)\<lparr>ws_state := WsReady\<rparr>,
                     (new_workspace ''w2'' ''m2'' ''o2'' 5)\<lparr>ws_state := WsReady\<rparr>],
      members := [\<lparr>mb_id = ''m2'', mb_organizationId = ''o2'', mb_userId = ''u2'', mb_role = ''member'', mb_createdAt = 2\<rparr>],
      published_services :=
        [service_row ''p1'' ''w1'' ''db'' ''s1'' ProtoTcp 5432 (Some 20000) (VisPublic, AuthNone) None None 5,
         service_row ''p2'' ''w2'' ''db'' ''s2'' ProtoTcp 5432 (Some 20001) (VisPublic, AuthNone) None None 5]\<rparr>"

theorem organization_revocation_stops_serving_witness:
  "\<exists>gone t sv. revokeOrganizationPublishedServices ''o1'' (JInt 10) served_db = (Inr gone, t) \<and> gone \<noteq> []
     \<and> getPublishedServiceBySlug ''s2'' 20 t = Some sv
     \<and> \<not> (\<exists>x. x \<in> set (workspaces t) \<and> ws_id x = psv_workspaceId sv \<and> ws_organization_id x = ''o1'')"
proof -
  have "\<exists>gone t sv. revokeOrganizationPublishedServices ''o1'' (JInt 10) served_db = (Inr gone, t) \<and> gone \<noteq> []
     \<and> getPublishedServiceBySlug ''s2'' 20 t = Some sv"
    by (simp add: revokeOrganizationPublishedServices_def publish_run sample_run new_workspace_def served_db_def
        in_organization_def update_in_def sql_update_def revoked_row_def getPublishedServiceBySlug_def
        live_service_def serving_workspace_def member_disabled_def Let_def)
  then obtain gone t sv where run: "revokeOrganizationPublishedServices ''o1'' (JInt 10) served_db = (Inr gone, t)"
    and "gone \<noteq> []" and slug: "getPublishedServiceBySlug ''s2'' 20 t = Some sv" by blast
  with organization_revocation_stops_serving [OF run disjI1 [OF slug]] show ?thesis
    by (auto simp: trim_def js_space_def)
qed

end
