(* ===== verification/Gateway.thy ===== *)
theory Gateway
  imports Quotas Publications
begin

text \<open>
  The HTTP gateway of published services (\<open>src/apps/control-plane/src/publishedServiceGateway.ts\<close>) and
  its access tokens (\<open>src/apps/control-plane/src/publishedServiceAccess.ts\<close>). The worker behind it
  and its streams are the events of an exchange; SHA-256 is an argument.
\<close>

section \<open>Access tokens\<close>

text \<open>\<open>Buffer.from(s, 'hex')\<close> decodes pairs of hexadecimal digits up to the first pair that is none.\<close>

definition hex_value :: "char \<Rightarrow> nat option" where
  "hex_value c =
     (let n = of_char c :: nat in
      if 48 \<le> n \<and> n \<le> 57 then Some (n - 48)
      else if 97 \<le> n \<and> n \<le> 102 then Some (n - 87)
      else if 65 \<le> n \<and> n \<le> 70 then Some (n - 55) else None)"

fun hex_bytes :: "string \<Rightarrow> nat list" where
  "hex_bytes (a # b # s) =
     (case (hex_value a, hex_value b) of (Some x, Some y) \<Rightarrow> (16 * x + y) # hex_bytes s | _ \<Rightarrow> [])"
| "hex_bytes _ = []"

definition publishedServiceTokenAuthenticated :: "(string \<Rightarrow> string) \<Rightarrow> string option \<Rightarrow> string \<Rightarrow> bool" where
  "publishedServiceTokenAuthenticated sha256 header expectedHash =
     (let token = trim (case header of None \<Rightarrow> [] | Some h \<Rightarrow> h) in
      if token = [] \<or> length token > 256 \<or> \<not> is_sha256_hex expectedHash then False
      else let presented = hex_bytes (sha256 token); expected = hex_bytes expectedHash in
        length presented = length expected \<and> presented = expected)"

lemma lower_hex_value:
  assumes "is_lower_hex c"
  shows "\<exists>x. hex_value c = Some x \<and> x < 16 \<and> c = char_of (if x < 10 then x + 48 else x + 87)"
proof -
  let ?n = "of_char c :: nat"
  have c: "c = char_of ?n" by simp
  from assms have "(48 \<le> ?n \<and> ?n \<le> 57) \<or> (97 \<le> ?n \<and> ?n \<le> 102)"
    by (simp add: is_lower_hex_def is_digit_def less_eq_char_def)
  then show ?thesis
  proof
    assume "48 \<le> ?n \<and> ?n \<le> 57"
    moreover from this have "?n - 48 < 10" by linarith
    ultimately show ?thesis by (intro exI [of _ "?n - 48"]) (simp add: hex_value_def Let_def)
  next
    assume "97 \<le> ?n \<and> ?n \<le> 102"
    moreover from this have "?n - 87 < 16" "\<not> ?n - 87 < 10" by linarith+
    ultimately show ?thesis by (intro exI [of _ "?n - 87"]) (simp add: hex_value_def Let_def)
  qed
qed

lemma hex_value_inject: "is_lower_hex a \<Longrightarrow> is_lower_hex b \<Longrightarrow> hex_value a = hex_value b \<Longrightarrow> a = b"
  by (metis lower_hex_value option.inject)

lemma hex_value_small: "is_lower_hex c \<Longrightarrow> \<exists>x. hex_value c = Some x \<and> x < 16"
  using lower_hex_value by blast

text \<open>Two digests are equal as bytes only if they are equal as strings.\<close>

lemma hex_bytes_inject:
  "list_all is_lower_hex s \<Longrightarrow> list_all is_lower_hex t \<Longrightarrow> length s = length t \<Longrightarrow> even (length s)
     \<Longrightarrow> hex_bytes s = hex_bytes t \<Longrightarrow> s = t"
proof (induction s arbitrary: t rule: hex_bytes.induct)
  case (1 a b s)
  from "1.prems"(3) obtain c d t' where t: "t = c # d # t'" by (cases t; cases "tl t") auto
  have lower: "is_lower_hex a" "is_lower_hex b" "is_lower_hex c" "is_lower_hex d" using "1.prems"(1,2) by (simp_all add: t)
  obtain xa where a: "hex_value a = Some xa" "xa < 16" using hex_value_small [OF lower(1)] by blast
  obtain xb where b: "hex_value b = Some xb" "xb < 16" using hex_value_small [OF lower(2)] by blast
  obtain xc where c: "hex_value c = Some xc" "xc < 16" using hex_value_small [OF lower(3)] by blast
  obtain xd where d: "hex_value d = Some xd" "xd < 16" using hex_value_small [OF lower(4)] by blast
  have sum: "16 * xa + xb = 16 * xc + xd" and rest: "hex_bytes s = hex_bytes t'"
    using "1.prems"(5) a(1) b(1) c(1) d(1) by (simp_all add: t)
  have same: "xa = xc" using sum b(2) d(2) by linarith
  with sum have "xb = xd" by simp
  with same have "a = c" "b = d" using hex_value_inject lower a(1) b(1) c(1) d(1) by metis+
  moreover have "s = t'" using "1.IH" [OF refl a(1) b(1)] "1.prems" rest by (simp add: t)
  ultimately show ?case by (simp add: t)
qed auto

lemma token_authenticated_iff:
  assumes "\<And>m. is_sha256_hex (sha256 m)"
  shows "publishedServiceTokenAuthenticated sha256 header h \<longleftrightarrow>
    (\<exists>v. header = Some v \<and> trim v \<noteq> [] \<and> length (trim v) \<le> 256 \<and> sha256 (trim v) = h)"
proof -
  have "sha256 m = h" if "is_sha256_hex h" "hex_bytes (sha256 m) = hex_bytes h" for m
    using hex_bytes_inject [of "sha256 m" h] assms [of m] that by (simp add: is_sha256_hex_def)
  with assms show ?thesis
    by (auto simp: publishedServiceTokenAuthenticated_def Let_def split: option.splits)
qed

section \<open>Answers\<close>

text \<open>The headers of the worker's response that reach the client.\<close>

definition responseHeaderBlocklist :: "string list" where
  "responseHeaderBlocklist =
     [''connection'', ''content-encoding'', ''content-length'', ''keep-alive'', ''proxy-authenticate'',
      ''proxy-authorization'', ''server'', ''te'', ''trailer'', ''transfer-encoding'', ''upgrade'']"

definition forwarded_headers :: "(string \<times> string) list \<Rightarrow> (string \<times> string) list" where
  "forwarded_headers headers =
     filter (\<lambda>(key, _). let normalized = toLowerCase key in
         \<not> (normalized \<in> set responseHeaderBlocklist \<or> take 9 normalized = ''x-nubols-''
            \<or> take 9 normalized = ''x-nebula-'')) headers"

datatype gateway_reply =
  ServiceNotFound
| ProtocolMismatch
| AuthenticationRequired
| ServiceUnavailable
| BandwidthLimitReached
| ConnectionLimitReached
| Forwarding nat

section \<open>Exchanges\<close>

text \<open>
  An exchange is one call of \<open>proxy\<close> that has its lease: it waits for the worker, or streams the body of
  the response, or is over; \<open>released\<close> is the state \<open>ExchangeOver\<close>.
\<close>

datatype exchange_phase = AwaitingWorker | StreamingBody | ExchangeOver

record http_exchange =
  hx_publication :: published_service
  hx_scope :: connection_scope
  hx_lease :: nat
  hx_phase :: exchange_phase

record http_gateway =
  hg_connectionLimiter :: connection_limiter
  hg_bandwidthLimiter :: bandwidth_limiter
  hg_exchanges :: "http_exchange list"

record gateway_request =
  gq_slug :: string
  gq_token :: "string option"
  gq_contentLength :: js_num

fun positive_finite :: "js_num \<Rightarrow> bool" where
  "positive_finite (JInt i) \<longleftrightarrow> i > 0"
| "positive_finite (JFrac i) \<longleftrightarrow> i \<ge> 0"
| "positive_finite _ \<longleftrightarrow> False"

definition may_access :: "(string \<Rightarrow> string) \<Rightarrow> published_service \<Rightarrow> string option \<Rightarrow> bool" where
  "may_access sha256 publication token \<longleftrightarrow>
     \<not> (psv_visibility publication = VisPrivate
        \<and> (psv_authPolicy publication \<noteq> AuthToken
           \<or> (case psv_accessTokenHash publication of
                None \<Rightarrow> True
              | Some h \<Rightarrow> h = [] \<or> \<not> publishedServiceTokenAuthenticated sha256 token h)))"

definition open_exchange :: "published_service \<Rightarrow> connection_scope \<Rightarrow> http_gateway \<Rightarrow> gateway_reply \<times> http_gateway" where
  "open_exchange publication scope g =
     (case tryAcquire scope (hg_connectionLimiter g) of
        (None, lim) \<Rightarrow> (ConnectionLimitReached, g\<lparr>hg_connectionLimiter := lim\<rparr>)
      | (Some lease, lim) \<Rightarrow>
          (Forwarding (length (hg_exchanges g)), g
            \<lparr>hg_connectionLimiter := lim,
             hg_exchanges := hg_exchanges g @
               [\<lparr>hx_publication = publication, hx_scope = scope, hx_lease = lease, hx_phase = AwaitingWorker\<rparr>]\<rparr>))"

definition proxy_request ::
  "(string \<Rightarrow> published_service option) \<Rightarrow> (published_service \<Rightarrow> connection_scope option) \<Rightarrow> (string \<Rightarrow> string)
     \<Rightarrow> gateway_request \<Rightarrow> int \<Rightarrow> http_gateway \<Rightarrow> gateway_reply \<times> http_gateway"
where
  "proxy_request resolveService resolveConnectionScope sha256 req now g =
     (case resolveService (gq_slug req) of
        None \<Rightarrow> (ServiceNotFound, g)
      | Some publication \<Rightarrow>
          if psv_protocol publication \<noteq> ProtoHttp then (ProtocolMismatch, g)
          else if \<not> may_access sha256 publication (gq_token req) then (AuthenticationRequired, g)
          else case resolveConnectionScope publication of
            None \<Rightarrow> (ServiceUnavailable, g)
          | Some scope \<Rightarrow>
              if positive_finite (gq_contentLength req) then
                (case canConsume scope (gq_contentLength req) now (hg_bandwidthLimiter g) of
                   (allowed, b) \<Rightarrow>
                     (let g1 = g\<lparr>hg_bandwidthLimiter := b\<rparr> in
                      if \<not> allowed then (BandwidthLimitReached, g1) else open_exchange publication scope g1))
              else open_exchange publication scope g)"

definition end_exchange :: "nat \<Rightarrow> http_gateway \<Rightarrow> http_gateway" where
  "end_exchange i g =
     (if i \<ge> length (hg_exchanges g) \<or> hx_phase (hg_exchanges g ! i) = ExchangeOver then g
      else let x = hg_exchanges g ! i in
        g\<lparr>hg_exchanges := (hg_exchanges g)[i := x\<lparr>hx_phase := ExchangeOver\<rparr>],
          hg_connectionLimiter := release (hx_lease x) (hg_connectionLimiter g)\<rparr>)"

text \<open>The worker answers, with a body or without one, or fails.\<close>

definition worker_answered :: "nat \<Rightarrow> bool \<Rightarrow> http_gateway \<Rightarrow> http_gateway" where
  "worker_answered i hasBody g =
     (if i \<ge> length (hg_exchanges g) \<or> hx_phase (hg_exchanges g ! i) \<noteq> AwaitingWorker then g
      else if \<not> hasBody then end_exchange i g
      else g\<lparr>hg_exchanges := (hg_exchanges g)[i := (hg_exchanges g ! i)\<lparr>hx_phase := StreamingBody\<rparr>]\<rparr>)"

definition worker_failed :: "nat \<Rightarrow> http_gateway \<Rightarrow> http_gateway" where
  "worker_failed i g =
     (if i < length (hg_exchanges g) \<and> hx_phase (hg_exchanges g ! i) = AwaitingWorker then end_exchange i g else g)"

text \<open>A chunk of the request, and a chunk of the response; a refused response chunk ends the exchange.\<close>

definition request_chunk :: "nat \<Rightarrow> js_num \<Rightarrow> int \<Rightarrow> int \<Rightarrow> http_gateway \<Rightarrow> bool \<times> http_gateway" where
  "request_chunk i bytes now now' g =
     (if i \<ge> length (hg_exchanges g) then (False, g)
      else case tryConsume (hx_scope (hg_exchanges g ! i)) bytes now now' (hg_bandwidthLimiter g) of
        (allowed, b) \<Rightarrow> (allowed, g\<lparr>hg_bandwidthLimiter := b\<rparr>))"

definition response_chunk :: "nat \<Rightarrow> js_num \<Rightarrow> int \<Rightarrow> int \<Rightarrow> http_gateway \<Rightarrow> bool \<times> http_gateway" where
  "response_chunk i bytes now now' g =
     (if i \<ge> length (hg_exchanges g) \<or> hx_phase (hg_exchanges g ! i) \<noteq> StreamingBody then (False, g)
      else case tryConsume (hx_scope (hg_exchanges g ! i)) bytes now now' (hg_bandwidthLimiter g) of
        (allowed, b) \<Rightarrow>
          (let g1 = g\<lparr>hg_bandwidthLimiter := b\<rparr> in (allowed, if allowed then g1 else end_exchange i g1)))"

text \<open>The body ends, breaks, or the client cancels it.\<close>

definition response_over :: "nat \<Rightarrow> http_gateway \<Rightarrow> http_gateway" where
  "response_over i g =
     (if i < length (hg_exchanges g) \<and> hx_phase (hg_exchanges g ! i) = StreamingBody then end_exchange i g else g)"

section \<open>Leases of the exchanges\<close>

definition exchange_holder :: "http_exchange \<Rightarrow> connection_scope \<times> nat \<times> bool" where
  "exchange_holder x = (hx_scope x, hx_lease x, hx_phase x = ExchangeOver)"

definition gateway_inv :: "http_gateway \<Rightarrow> bool" where
  "gateway_inv g \<longleftrightarrow> leases_held (map exchange_holder (hg_exchanges g)) (hg_connectionLimiter g)"

inductive gateway_step :: "(string \<Rightarrow> string) \<Rightarrow> http_gateway \<Rightarrow> http_gateway \<Rightarrow> bool" for sha256 where
  proxied: "proxy_request resolveService resolveConnectionScope sha256 req now g = (r, h) \<Longrightarrow> gateway_step sha256 g h"
| answered: "gateway_step sha256 g (worker_answered i hasBody g)"
| failed: "gateway_step sha256 g (worker_failed i g)"
| sent: "gateway_step sha256 g (snd (request_chunk i bytes now now' g))"
| received: "gateway_step sha256 g (snd (response_chunk i bytes now now' g))"
| over: "gateway_step sha256 g (response_over i g)"
| acquired_elsewhere: "tryAcquire scope (hg_connectionLimiter g) = (r, lim) \<Longrightarrow>
     gateway_step sha256 g (g\<lparr>hg_connectionLimiter := lim\<rparr>)"
| released_elsewhere: "lease \<notin> hx_lease ` set (hg_exchanges g) \<Longrightarrow>
     gateway_step sha256 g (g\<lparr>hg_connectionLimiter := release lease (hg_connectionLimiter g)\<rparr>)"
| consumed_elsewhere: "gateway_step sha256 g (g\<lparr>hg_bandwidthLimiter := b\<rparr>)"

lemma gateway_inv_cong:
  "hg_exchanges h = hg_exchanges g \<Longrightarrow> hg_connectionLimiter h = hg_connectionLimiter g
     \<Longrightarrow> gateway_inv h = gateway_inv g"
  by (simp add: gateway_inv_def)

lemma phase_update_keeps:
  assumes "gateway_inv g" and "i < length (hg_exchanges g)"
    and "(hx_phase (hg_exchanges g ! i) = ExchangeOver) = (ph = ExchangeOver)"
  shows "gateway_inv (g\<lparr>hg_exchanges := (hg_exchanges g)[i := (hg_exchanges g ! i)\<lparr>hx_phase := ph\<rparr>]\<rparr>)"
proof -
  have "map exchange_holder ((hg_exchanges g)[i := (hg_exchanges g ! i)\<lparr>hx_phase := ph\<rparr>]) = map exchange_holder (hg_exchanges g)"
    using assms(2,3) by (simp add: map_update exchange_holder_def list_update_same_conv)
  with assms(1) show ?thesis by (simp add: gateway_inv_def)
qed

lemma end_exchange_keeps:
  assumes "gateway_inv g"
  shows "gateway_inv (end_exchange i g)"
proof (cases "i \<ge> length (hg_exchanges g) \<or> hx_phase (hg_exchanges g ! i) = ExchangeOver")
  case False
  let ?x = "hg_exchanges g ! i"
  have run: "hg_exchanges (end_exchange i g) = (hg_exchanges g)[i := ?x\<lparr>hx_phase := ExchangeOver\<rparr>]"
    "hg_connectionLimiter (end_exchange i g) = release (hx_lease ?x) (hg_connectionLimiter g)"
    using False by (simp_all add: end_exchange_def Let_def)
  have "leases_held ((map exchange_holder (hg_exchanges g))[i := (hx_scope ?x, hx_lease ?x, True)])
      (hg_connectionLimiter (end_exchange i g))"
    unfolding run using assms False
    by (intro leases_held_release [where f = "hx_phase ?x = ExchangeOver"]) (simp_all add: gateway_inv_def exchange_holder_def)
  moreover have "map exchange_holder (hg_exchanges (end_exchange i g))
      = (map exchange_holder (hg_exchanges g))[i := (hx_scope ?x, hx_lease ?x, True)]"
    by (simp add: run map_update exchange_holder_def)
  ultimately show ?thesis by (simp add: gateway_inv_def)
qed (use assms in \<open>simp add: end_exchange_def\<close>)

lemma open_exchange_keeps:
  assumes "open_exchange p sc g = (r, h)" and "gateway_inv g"
  shows "gateway_inv h"
proof -
  obtain l lim where run: "tryAcquire sc (hg_connectionLimiter g) = (l, lim)" by fastforce
  from leases_held_acquire [OF run] run assms show ?thesis
    by (auto simp: open_exchange_def gateway_inv_def exchange_holder_def split: option.splits)
qed

interpretation http_gateway: invariant_system "gateway_step sha256" gateway_inv for sha256
proof
  fix g h
  assume "gateway_step sha256 g h" and inv: "gateway_inv g"
  then show "gateway_inv h"
  proof cases
    case (proxied resolve scope req now r)
    have "gateway_inv (g\<lparr>hg_bandwidthLimiter := b\<rparr>)" for b
      using inv gateway_inv_cong [of "g\<lparr>hg_bandwidthLimiter := b\<rparr>" g] by simp
    with proxied inv show ?thesis
      by (auto simp: proxy_request_def Let_def intro: open_exchange_keeps split: option.splits if_splits prod.splits)
  next
    case (answered i hasBody)
    then show ?thesis
      using inv phase_update_keeps [OF inv, of i StreamingBody] end_exchange_keeps [OF inv]
      by (auto simp: worker_answered_def)
  next
    case (failed i)
    then show ?thesis using inv end_exchange_keeps [OF inv] by (simp add: worker_failed_def)
  next
    case (sent i bytes now now')
    then have "hg_exchanges h = hg_exchanges g \<and> hg_connectionLimiter h = hg_connectionLimiter g"
      by (simp add: request_chunk_def split: prod.splits)
    with inv gateway_inv_cong show ?thesis by blast
  next
    case (received i bytes now now')
    have "gateway_inv (g\<lparr>hg_bandwidthLimiter := b\<rparr>)" for b
      using inv gateway_inv_cong [of "g\<lparr>hg_bandwidthLimiter := b\<rparr>" g] by simp
    with received inv end_exchange_keeps show ?thesis
      by (auto simp: response_chunk_def Let_def split: prod.splits)
  next
    case (over i)
    then show ?thesis using inv end_exchange_keeps [OF inv] by (simp add: response_over_def)
  next
    case (acquired_elsewhere scope r lim)
    then show ?thesis using inv leases_held_acquire(1) by (auto simp: gateway_inv_def)
  next
    case (released_elsewhere lease)
    then show ?thesis using inv
      by (auto simp: gateway_inv_def exchange_holder_def image_iff intro: leases_held_elsewhere)
  next
    case (consumed_elsewhere b)
    with inv gateway_inv_cong [of h g] show ?thesis by simp
  qed
qed

section \<open>Properties\<close>

lemma open_exchange_result:
  assumes "open_exchange p sc g = (r, h)"
  shows "(\<exists>l. r = Forwarding (length (hg_exchanges g)) \<and> hg_exchanges h = hg_exchanges g @
            [\<lparr>hx_publication = p, hx_scope = sc, hx_lease = l, hx_phase = AwaitingWorker\<rparr>])
    \<or> (r = ConnectionLimitReached \<and> hg_exchanges h = hg_exchanges g
         \<and> hg_connectionLimiter h = hg_connectionLimiter g)"
  using assms acquire_leases by (auto simp: open_exchange_def tryAcquire_def Let_def split: if_splits)

lemma admitted_request:
  assumes "proxy_request resolveService resolveScope sha256 req now g = (r, h)" and "resolveService (gq_slug req) = Some p"
    and "psv_protocol p = ProtoHttp" and "may_access sha256 p (gq_token req)" and "resolveScope p = Some sc"
  shows "\<exists>b. (r = BandwidthLimitReached \<and> h = g\<lparr>hg_bandwidthLimiter := b\<rparr>)
    \<or> open_exchange p sc (g\<lparr>hg_bandwidthLimiter := b\<rparr>) = (r, h)"
proof (cases "positive_finite (gq_contentLength req)")
  case True
  obtain allowed b where "canConsume sc (gq_contentLength req) now (hg_bandwidthLimiter g) = (allowed, b)" by fastforce
  with True assms show ?thesis by (intro exI [of _ b]) (auto simp: proxy_request_def Let_def split: if_splits)
next
  case False
  with assms show ?thesis by (intro exI [of _ "hg_bandwidthLimiter g"]) (simp add: proxy_request_def)
qed

text \<open>C19: A request reaches a worker only for a published HTTP service, and for a private one only with a token whose
  SHA-256 digest is the one stored with the publication; any other request opens no exchange and takes no lease.\<close>

theorem private_service_needs_token:
  assumes "proxy_request resolveService resolveScope sha256 req now g = (r, h)" and "\<forall>m. is_sha256_hex (sha256 m)"
  shows "(if r = Forwarding (length (hg_exchanges g))
      then (\<exists>p sc l. resolveService (gq_slug req) = Some p \<and> psv_protocol p = ProtoHttp \<and> resolveScope p = Some sc
         \<and> hg_exchanges h = hg_exchanges g @
             [\<lparr>hx_publication = p, hx_scope = sc, hx_lease = l, hx_phase = AwaitingWorker\<rparr>]
         \<and> (psv_visibility p = VisPrivate \<longrightarrow>
              (\<exists>token. gq_token req = Some token \<and> psv_accessTokenHash p = Some (sha256 (trim token)))))
      else hg_exchanges h = hg_exchanges g \<and> hg_connectionLimiter h = hg_connectionLimiter g)"
proof (cases "resolveService (gq_slug req)")
  case None
  with assms(1) show ?thesis by (simp add: proxy_request_def)
next
  case (Some p)
  note auth = token_authenticated_iff [of sha256 "gq_token req"]
  show ?thesis
  proof (cases "psv_protocol p = ProtoHttp \<and> may_access sha256 p (gq_token req)")
    case False
    with Some assms(1) show ?thesis by (auto simp: proxy_request_def split: if_splits)
  next
    case True
    have token: "\<exists>token. gq_token req = Some token \<and> psv_accessTokenHash p = Some (sha256 (trim token))"
      if "psv_visibility p = VisPrivate"
      using that True assms(2) auth by (auto simp: may_access_def split: option.splits)
    show ?thesis
    proof (cases "resolveScope p")
      case None
      with True Some assms(1) show ?thesis by (simp add: proxy_request_def)
    next
      case (Some sc)
      obtain b where "(r = BandwidthLimitReached \<and> h = g\<lparr>hg_bandwidthLimiter := b\<rparr>)
          \<or> open_exchange p sc (g\<lparr>hg_bandwidthLimiter := b\<rparr>) = (r, h)"
        using admitted_request [OF assms(1) \<open>resolveService (gq_slug req) = Some p\<close>] True Some by blast
      then show ?thesis
        using open_exchange_result [of p sc "g\<lparr>hg_bandwidthLimiter := b\<rparr>" r h] token True Some \<open>resolveService (gq_slug req) = Some p\<close>
        by auto
    qed
  qed
qed

text \<open>No exchange of the gateway leaks its lease: in every reachable state the lease of an exchange is open while
  the exchange waits or streams, and given back once it is over, whichever way it ended, and no two exchanges
  share a lease.\<close>

theorem http_exchanges_release_leases:
  assumes "(gateway_step sha256)\<^sup>*\<^sup>* g h" and "hg_exchanges g = []"
  shows "distinct (map hx_lease (hg_exchanges h))
    \<and> (\<forall>x \<in> set (hg_exchanges h). lm_leases (hg_connectionLimiter h) ! hx_lease x
         = (hx_scope x, hx_phase x = ExchangeOver))"
proof -
  have "gateway_inv g" using assms(2) by (simp add: gateway_inv_def)
  from http_gateway.run_inv [OF assms(1) this] show ?thesis
    by (simp add: gateway_inv_def leases_held_def exchange_holder_def o_def)
qed

section \<open>The properties on a concrete request\<close>

definition token_digest :: "string \<Rightarrow> string" where
  "token_digest m = replicate 64 CHR ''a''"

definition sample_private :: published_service where
  "sample_private = \<lparr>psv_id = ''p1'', psv_workspaceId = ''w1'', psv_name = ''db'', psv_slug = ''s1'', psv_protocol = ProtoHttp,
     psv_targetPort = 8080, psv_ingressPort = None, psv_state = ServiceActive, psv_visibility = VisPrivate,
     psv_authPolicy = AuthToken, psv_accessTokenHash = Some (replicate 64 CHR ''a''), psv_expiresAt = None,
     psv_createdAt = 1, psv_updatedAt = 1, psv_revokedAt = None\<rparr>"

definition sample_scope :: connection_scope where
  "sample_scope = \<lparr>sc_workerId = ''w'', sc_organizationId = ''o'', sc_routeId = ''p1''\<rparr>"

definition idle_gateway :: http_gateway where
  "idle_gateway = \<lparr>hg_connectionLimiter = sample_limits, hg_bandwidthLimiter = sample_bandwidth, hg_exchanges = []\<rparr>"

lemma token_digest_hex: "\<forall>m. is_sha256_hex (token_digest m)"
  by (simp add: token_digest_def is_sha256_hex_def list_all_iff is_lower_hex_def less_eq_char_def)

definition sample_proxy :: "string option \<Rightarrow> gateway_reply \<times> http_gateway" where
  "sample_proxy token = proxy_request (\<lambda>_. Some sample_private) (\<lambda>_. Some sample_scope) token_digest
     \<lparr>gq_slug = ''s1'', gq_token = token, gq_contentLength = JInt 0\<rparr> 5 idle_gateway"

lemma sample_proxy_run: "fst (sample_proxy (Some '' secret'')) = Forwarding 0" "fst (sample_proxy None) = AuthenticationRequired"
  by (simp_all add: sample_proxy_def proxy_request_def sample_private_def may_access_def publishedServiceTokenAuthenticated_def
      trim_def js_space_def Let_def token_digest_def is_sha256_hex_def list_all_iff is_lower_hex_def less_eq_char_def
      open_exchange_def idle_gateway_def sample_limits_def tryAcquire_def current_count_def)

theorem private_service_needs_token_witness:
  "\<exists>h. sample_proxy (Some '' secret'') = (Forwarding 0, h) \<and> length (hg_exchanges h) = 1
     \<and> hx_publication (hg_exchanges h ! 0) = sample_private"
proof -
  obtain h where run: "sample_proxy (Some '' secret'') = (Forwarding 0, h)"
    using sample_proxy_run(1) by (cases "sample_proxy (Some '' secret'')") auto
  from private_service_needs_token [OF run [unfolded sample_proxy_def] token_digest_hex] run
  show ?thesis by (auto simp: idle_gateway_def)
qed

theorem http_exchanges_release_leases_witness:
  "\<exists>h. (gateway_step token_digest)\<^sup>*\<^sup>* idle_gateway h \<and> length (hg_exchanges h) = 1
     \<and> lm_leases (hg_connectionLimiter h) ! hx_lease (hg_exchanges h ! 0) = (hx_scope (hg_exchanges h ! 0), True)"
proof -
  obtain g where run: "sample_proxy (Some '' secret'') = (Forwarding 0, g)"
    using sample_proxy_run(1) by (cases "sample_proxy (Some '' secret'')") auto
  have one: "length (hg_exchanges g) = 1" "hx_phase (hg_exchanges g ! 0) = AwaitingWorker"
    using run by (auto simp: sample_proxy_def proxy_request_def sample_private_def may_access_def
        open_exchange_def idle_gateway_def Let_def split: if_splits option.splits prod.splits)
  have "gateway_step token_digest idle_gateway g"
    by (rule gateway_step.proxied [OF run [unfolded sample_proxy_def]])
  moreover have "gateway_step token_digest g (worker_failed 0 g)" by (rule gateway_step.failed)
  ultimately have reach: "(gateway_step token_digest)\<^sup>*\<^sup>* idle_gateway (worker_failed 0 g)"
    by (meson converse_rtranclp_into_rtranclp rtranclp.rtrancl_refl)
  have over: "length (hg_exchanges (worker_failed 0 g)) = 1" "hx_phase (hg_exchanges (worker_failed 0 g) ! 0) = ExchangeOver"
    using one by (simp_all add: worker_failed_def end_exchange_def Let_def)
  have "hg_exchanges idle_gateway = []" by (simp add: idle_gateway_def)
  from conjunct2 [OF http_exchanges_release_leases [OF reach this]]
  have "\<forall>x \<in> set (hg_exchanges (worker_failed 0 g)). lm_leases (hg_connectionLimiter (worker_failed 0 g)) ! hx_lease x
      = (hx_scope x, hx_phase x = ExchangeOver)" .
  moreover have "hg_exchanges (worker_failed 0 g) ! 0 \<in> set (hg_exchanges (worker_failed 0 g))" using over(1) by simp
  ultimately show ?thesis using reach over by (intro exI [of _ "worker_failed 0 g"]) simp
qed

end
