(* ===== verification/Ingress.thy ===== *)
theory Ingress
  imports Quotas
begin

text \<open>
  The TCP ingress of published services (\<open>src/apps/control-plane/src/tcpIngress.ts\<close>) and its
  reconciler (\<open>src/apps/control-plane/src/tcpPublicationReconciler.ts\<close>). The listeners, the
  connections between a client and its worker, and their leases are explicit; the events of the sockets are
  steps. Whether the operating system lets the process listen on a port is an argument.
\<close>

section \<open>State\<close>

record ingress_route =
  ir_routeId :: string
  ir_ingressPort :: int
  ir_workspaceId :: string
  ir_organizationId :: string
  ir_workerId :: string
  ir_targetPort :: int

datatype worker_socket = NoTunnel | TunnelOpen | TunnelDestroyed

text \<open>
  One activation of \<open>#handle\<close> after its lease: the variables \<open>worker\<close> and \<open>finished\<close>, the client
  socket, and whether the handlers of the data are attached.
\<close>

record ingress_connection =
  ic_port :: int
  ic_scope :: connection_scope
  ic_lease :: nat
  ic_finished :: bool
  ic_clientOpen :: bool
  ic_worker :: worker_socket
  ic_piping :: bool

text \<open>
  \<open>#connectionClosersByPort\<close> maps a port to the \<open>finish\<close> closures of its connections, named by their
  position. The set a connection captured is always the one the map holds, because a set leaves the map only
  when its last closure has run.
\<close>

record tcp_ingress =
  ti_listeners :: "int list"
  ti_connections :: "ingress_connection list"
  ti_closers :: "int \<Rightarrow> nat list option"
  ti_connectionLimiter :: connection_limiter
  ti_bandwidthLimiter :: bandwidth_limiter

definition tunnelHandshakeTimeoutMs :: int where
  "tunnelHandshakeTimeoutMs = 10000"

definition valid_ingress_options :: "string \<Rightarrow> js_num \<Rightarrow> db_error + string" where
  "valid_ingress_options bindHost idleTimeoutMs =
     (if trim bindHost = [] then Inl (JsError ''TCP ingress bind host is required'')
      else if \<not> is_safe_integer idleTimeoutMs \<or> int_value idleTimeoutMs < 1000
      then Inl (JsError ''TCP ingress idle timeout is invalid'')
      else Inr (trim bindHost))"

definition new_ingress :: "connection_limiter \<Rightarrow> bandwidth_limiter \<Rightarrow> tcp_ingress" where
  "new_ingress limiter bandwidth =
     \<lparr>ti_listeners = [], ti_connections = [], ti_closers = Map.empty,
      ti_connectionLimiter = limiter, ti_bandwidthLimiter = bandwidth\<rparr>"

section \<open>Connections\<close>

definition drop_closer :: "int \<Rightarrow> nat \<Rightarrow> (int \<Rightarrow> nat list option) \<Rightarrow> int \<Rightarrow> nat list option" where
  "drop_closer port i closers =
     (case closers port of
        None \<Rightarrow> closers
      | Some cs \<Rightarrow> (let rest = removeAll i cs in
          if rest = [] then closers(port := None) else closers(port \<mapsto> rest)))"

definition ended :: "ingress_connection \<Rightarrow> ingress_connection" where
  "ended c = c\<lparr>ic_finished := True, ic_clientOpen := False,
     ic_worker := (if ic_worker c = TunnelOpen then TunnelDestroyed else ic_worker c)\<rparr>"

definition finish :: "nat \<Rightarrow> tcp_ingress \<Rightarrow> tcp_ingress" where
  "finish i ti =
     (if i \<ge> length (ti_connections ti) \<or> ic_finished (ti_connections ti ! i) then ti
      else let c = ti_connections ti ! i in
        ti\<lparr>ti_connections := (ti_connections ti)[i := ended c],
           ti_closers := drop_closer (ic_port c) i (ti_closers ti),
           ti_connectionLimiter := release (ic_lease c) (ti_connectionLimiter ti)\<rparr>)"

text \<open>\<open>#handle\<close> up to its first \<open>await\<close>: no route or no lease destroys the client.\<close>

definition route_scope :: "ingress_route \<Rightarrow> connection_scope" where
  "route_scope r = \<lparr>sc_workerId = ir_workerId r, sc_organizationId = ir_organizationId r, sc_routeId = ir_routeId r\<rparr>"

definition new_client :: "int \<Rightarrow> connection_scope \<Rightarrow> nat \<Rightarrow> ingress_connection" where
  "new_client port scope lease =
     \<lparr>ic_port = port, ic_scope = scope, ic_lease = lease, ic_finished = False, ic_clientOpen = True,
      ic_worker = NoTunnel, ic_piping = False\<rparr>"

definition register_client :: "int \<Rightarrow> connection_scope \<Rightarrow> nat \<Rightarrow> connection_limiter \<Rightarrow> tcp_ingress \<Rightarrow> tcp_ingress" where
  "register_client port scope lease limiter ti =
     (let i = length (ti_connections ti) in
      ti\<lparr>ti_connectionLimiter := limiter,
         ti_connections := ti_connections ti @ [new_client port scope lease],
         ti_closers := (ti_closers ti)(port \<mapsto>
           (case ti_closers ti port of None \<Rightarrow> [i] | Some cs \<Rightarrow> cs @ [i]))\<rparr>)"

definition accept_client :: "(int \<Rightarrow> ingress_route option) \<Rightarrow> int option \<Rightarrow> tcp_ingress \<Rightarrow> nat option \<times> tcp_ingress" where
  "accept_client resolveRoute localPort ti =
     (case localPort of
        None \<Rightarrow> (None, ti)
      | Some port \<Rightarrow>
          (case resolveRoute port of
             None \<Rightarrow> (None, ti)
           | Some r \<Rightarrow>
               (case tryAcquire (route_scope r) (ti_connectionLimiter ti) of
                  (None, limiter) \<Rightarrow> (None, ti\<lparr>ti_connectionLimiter := limiter\<rparr>)
                | (Some lease, limiter) \<Rightarrow>
                    (Some (length (ti_connections ti)), register_client port (route_scope r) lease limiter ti))))"

text \<open>The rest of \<open>#handle\<close>, when the tunnel to the worker is open; a failure goes to \<open>finish\<close>.\<close>

definition tunnel_opened :: "nat \<Rightarrow> tcp_ingress \<Rightarrow> tcp_ingress" where
  "tunnel_opened i ti =
     (if i \<ge> length (ti_connections ti) then ti
      else let c = (ti_connections ti ! i)\<lparr>ic_worker := TunnelOpen\<rparr> in
        ti\<lparr>ti_connections := (ti_connections ti)
             [i := (if ic_finished c then c else c\<lparr>ic_piping := True\<rparr>)]\<rparr>)"

definition client_data :: "nat \<Rightarrow> js_num \<Rightarrow> int \<Rightarrow> int \<Rightarrow> tcp_ingress \<Rightarrow> tcp_ingress" where
  "client_data i bytes now now' ti =
     (if i \<ge> length (ti_connections ti) \<or> \<not> ic_piping (ti_connections ti ! i) \<or> ic_finished (ti_connections ti ! i) then ti
      else case tryConsume (ic_scope (ti_connections ti ! i)) bytes now now' (ti_bandwidthLimiter ti) of
        (allowed, bandwidth) \<Rightarrow>
          (let next = ti\<lparr>ti_bandwidthLimiter := bandwidth\<rparr> in if allowed then next else finish i next))"

section \<open>Listeners\<close>

text \<open>\<open>listen\<close> tells the error of listening on a port, if any.\<close>

definition activate_port :: "(int \<Rightarrow> string option) \<Rightarrow> int \<Rightarrow> tcp_ingress \<Rightarrow> (string + unit) \<times> tcp_ingress" where
  "activate_port listen port ti =
     (if port \<in> set (ti_listeners ti) then (Inr (), ti)
      else case listen port of
        Some e \<Rightarrow> (Inl e, ti)
      | None \<Rightarrow> (Inr (), ti\<lparr>ti_listeners := ti_listeners ti @ [port]\<rparr>))"

definition closers_of :: "int \<Rightarrow> tcp_ingress \<Rightarrow> nat list" where
  "closers_of port ti = (case ti_closers ti port of None \<Rightarrow> [] | Some cs \<Rightarrow> cs)"

definition deactivate_port :: "int \<Rightarrow> tcp_ingress \<Rightarrow> tcp_ingress" where
  "deactivate_port port ti =
     (let closed = fold finish (closers_of port ti) ti in
      if port \<notin> set (ti_listeners ti) then closed
      else closed\<lparr>ti_listeners := removeAll port (ti_listeners closed)\<rparr>)"

definition close_ingress :: "tcp_ingress \<Rightarrow> tcp_ingress" where
  "close_ingress ti = fold deactivate_port (ti_listeners ti) ti"

definition activeListenerPorts :: "tcp_ingress \<Rightarrow> int list" where
  "activeListenerPorts ti = sort (ti_listeners ti)"

section \<open>Every connection gives its lease back\<close>

text \<open>
  The events of the ingress; the limiters are shared with the HTTP gateway, whose acquisitions, releases and
  bytes are the last three.
\<close>

inductive ingress_step :: "tcp_ingress \<Rightarrow> tcp_ingress \<Rightarrow> bool" where
  accepted: "accept_client resolveRoute localPort ti = (r, t) \<Longrightarrow> ingress_step ti t"
| opened: "i < length (ti_connections ti) \<Longrightarrow> ic_worker (ti_connections ti ! i) = NoTunnel \<Longrightarrow>
     ingress_step ti (tunnel_opened i ti)"
| closed: "ingress_step ti (finish i ti)"
| data: "ingress_step ti (client_data i bytes now now' ti)"
| activated: "activate_port listen port ti = (r, t) \<Longrightarrow> ingress_step ti t"
| deactivated: "ingress_step ti (deactivate_port port ti)"
| acquired_elsewhere: "tryAcquire scope (ti_connectionLimiter ti) = (r, lim) \<Longrightarrow>
     ingress_step ti (ti\<lparr>ti_connectionLimiter := lim\<rparr>)"
| released_elsewhere: "lease \<notin> ic_lease ` set (ti_connections ti) \<Longrightarrow>
     ingress_step ti (ti\<lparr>ti_connectionLimiter := release lease (ti_connectionLimiter ti)\<rparr>)"
| consumed_elsewhere: "ingress_step ti (ti\<lparr>ti_bandwidthLimiter := b\<rparr>)"

definition leases_of :: "tcp_ingress \<Rightarrow> (connection_scope \<times> bool) list" where
  "leases_of ti = lm_leases (ti_connectionLimiter ti)"

text \<open>A lease is open exactly while its connection is unfinished, and every unfinished connection is in the set of closers of its port.\<close>

definition holder :: "ingress_connection \<Rightarrow> connection_scope \<times> nat \<times> bool" where
  "holder c = (ic_scope c, ic_lease c, ic_finished c)"

definition ingress_inv :: "tcp_ingress \<Rightarrow> bool" where
  "ingress_inv ti \<longleftrightarrow>
     leases_held (map holder (ti_connections ti)) (ti_connectionLimiter ti)
     \<and> (\<forall>c \<in> set (ti_connections ti). ic_finished c \<longrightarrow> \<not> ic_clientOpen c)
     \<and> (\<forall>i < length (ti_connections ti). \<not> ic_finished (ti_connections ti ! i) \<longrightarrow>
          i \<in> set (closers_of (ic_port (ti_connections ti ! i)) ti))"

lemma ingress_inv_cong:
  "ti_connections t = ti_connections s \<Longrightarrow> ti_connectionLimiter t = ti_connectionLimiter s \<Longrightarrow> ti_closers t = ti_closers s
     \<Longrightarrow> ingress_inv t = ingress_inv s"
  by (simp add: ingress_inv_def closers_of_def)

lemma ingress_inv_leases:
  assumes "ingress_inv ti"
  shows "distinct (map ic_lease (ti_connections ti))"
    and "c \<in> set (ti_connections ti) \<Longrightarrow>
      ic_lease c < length (leases_of ti) \<and> leases_of ti ! ic_lease c = (ic_scope c, ic_finished c)"
  using assms by (auto simp: ingress_inv_def leases_held_def holder_def leases_of_def o_def)

lemma ended_simps [simp]:
  "ic_lease (ended c) = ic_lease c" "ic_scope (ended c) = ic_scope c" "ic_port (ended c) = ic_port c"
  "ic_finished (ended c)" "\<not> ic_clientOpen (ended c)"
  by (simp_all add: ended_def)

lemma closers_of_drop:
  "set (case drop_closer port i m p of None \<Rightarrow> [] | Some cs \<Rightarrow> cs)
     = set (case m p of None \<Rightarrow> [] | Some cs \<Rightarrow> cs) - (if p = port then {i} else {})"
  by (auto simp: drop_closer_def Let_def split: option.splits) (metis empty_iff empty_set insertE set_removeAll Diff_iff)+

lemma finish_keeps:
  assumes "ingress_inv ti"
  shows "ingress_inv (finish i ti)"
proof (cases "i \<ge> length (ti_connections ti) \<or> ic_finished (ti_connections ti ! i)")
  case True
  with assms show ?thesis by (simp add: finish_def)
next
  case False
  let ?c = "ti_connections ti ! i" and ?t = "finish i ti"
  have i: "i < length (ti_connections ti)" "\<not> ic_finished ?c" using False by simp_all
  have conns: "ti_connections ?t = (ti_connections ti)[i := ended ?c]"
    and leases: "ti_connectionLimiter ?t = release (ic_lease ?c) (ti_connectionLimiter ti)"
    and closers: "set (closers_of p ?t) = set (closers_of p ti) - (if p = ic_port ?c then {i} else {})" for p
    using False by (simp_all add: finish_def Let_def closers_of_def closers_of_drop)
  have "leases_held ((map holder (ti_connections ti))[i := (ic_scope ?c, ic_lease ?c, True)]) (ti_connectionLimiter ?t)"
    unfolding leases using assms i
    by (intro leases_held_release [where f = "ic_finished ?c"]) (simp_all add: ingress_inv_def holder_def)
  moreover have "map holder (ti_connections ?t) = (map holder (ti_connections ti))[i := (ic_scope ?c, ic_lease ?c, True)]"
    by (simp add: conns map_update holder_def)
  moreover have "j \<in> set (closers_of (ic_port (ti_connections ?t ! j)) ?t)"
    if "j < length (ti_connections ?t)" "\<not> ic_finished (ti_connections ?t ! j)" for j
    using that assms i by (cases "j = i") (auto simp: conns closers ingress_inv_def)
  moreover have "\<not> ic_clientOpen c" if "c \<in> set (ti_connections ?t)" "ic_finished c" for c
    using that assms set_update_subset_insert [of "ti_connections ti" i "ended ?c"]
    by (auto simp: conns ingress_inv_def)
  ultimately show ?thesis by (simp add: ingress_inv_def)
qed

lemma finish_stays_finished:
  "length (ti_connections (finish i ti)) = length (ti_connections ti)"
  "j < length (ti_connections ti) \<Longrightarrow> ic_port (ti_connections (finish i ti) ! j) = ic_port (ti_connections ti ! j)"
  "j < length (ti_connections ti) \<Longrightarrow> ic_finished (ti_connections (finish i ti) ! j)
     \<longleftrightarrow> ic_finished (ti_connections ti ! j) \<or> j = i"
  "ti_listeners (finish i ti) = ti_listeners ti"
  by (auto simp: finish_def Let_def nth_list_update)

lemma finish_all:
  "ingress_inv ti \<Longrightarrow> ingress_inv (fold finish cs ti)
     \<and> length (ti_connections (fold finish cs ti)) = length (ti_connections ti)
     \<and> ti_listeners (fold finish cs ti) = ti_listeners ti
     \<and> (\<forall>j < length (ti_connections ti). ic_port (ti_connections (fold finish cs ti) ! j) = ic_port (ti_connections ti ! j)
          \<and> (ic_finished (ti_connections (fold finish cs ti) ! j) \<longleftrightarrow> ic_finished (ti_connections ti ! j) \<or> j \<in> set cs))"
proof (induction cs arbitrary: ti)
  case (Cons i cs)
  have "ingress_inv (finish i ti)" using Cons.prems by (rule finish_keeps)
  from Cons.IH [OF this] show ?case by (auto simp: finish_stays_finished)
qed simp

lemma deactivate_closes:
  assumes "ingress_inv ti"
  shows "ingress_inv (deactivate_port p ti)" and "set (ti_listeners (deactivate_port p ti)) = set (ti_listeners ti) - {p}"
    and "c \<in> set (ti_connections (deactivate_port p ti)) \<Longrightarrow> ic_port c = p \<Longrightarrow> ic_finished c"
proof -
  let ?t = "fold finish (closers_of p ti) ti"
  note all = finish_all [OF assms, of "closers_of p ti"]
  have eq: "ti_connections (deactivate_port p ti) = ti_connections ?t"
    "ti_connectionLimiter (deactivate_port p ti) = ti_connectionLimiter ?t" "ti_closers (deactivate_port p ti) = ti_closers ?t"
    by (simp_all add: deactivate_port_def Let_def)
  then show "ingress_inv (deactivate_port p ti)"
    using all ingress_inv_cong [OF eq] by blast
  show "set (ti_listeners (deactivate_port p ti)) = set (ti_listeners ti) - {p}"
    using all by (simp add: deactivate_port_def Let_def)
  show "ic_finished c" if "c \<in> set (ti_connections (deactivate_port p ti))" "ic_port c = p"
  proof -
    from that obtain j where "j < length (ti_connections ?t)" "c = ti_connections ?t ! j"
      by (auto simp: eq in_set_conv_nth)
    with all that(2) assms show ?thesis by (auto simp: ingress_inv_def)
  qed
qed

lemma new_client_simps [simp]:
  "ic_lease (new_client p sc l) = l" "ic_scope (new_client p sc l) = sc" "ic_port (new_client p sc l) = p"
  "\<not> ic_finished (new_client p sc l)" "ic_worker (new_client p sc l) = NoTunnel"
  by (simp_all add: new_client_def)

lemma register_keeps:
  assumes "tryAcquire sc (ti_connectionLimiter ti) = (Some lease, lim)" and "ingress_inv ti"
  shows "ingress_inv (register_client port sc lease lim ti)"
proof -
  let ?t = "register_client port sc lease lim ti"
  have conns: "ti_connections ?t = ti_connections ti @ [new_client port sc lease]"
    and lim: "ti_connectionLimiter ?t = lim" by (simp_all add: register_client_def Let_def)
  have "leases_held (map holder (ti_connections ?t)) (ti_connectionLimiter ?t)"
    using leases_held_acquire(2) [OF assms(1)] assms(2) by (simp add: conns lim ingress_inv_def holder_def)
  moreover have "i \<in> set (closers_of (ic_port (ti_connections ?t ! i)) ?t)"
    if "i < length (ti_connections ?t)" "\<not> ic_finished (ti_connections ?t ! i)" for i
  proof -
    have "set (closers_of q ti) \<subseteq> set (closers_of q ?t)" "length (ti_connections ti) \<in> set (closers_of port ?t)" for q
      by (auto simp: register_client_def Let_def closers_of_def split: option.splits)
    then show ?thesis
      using that assms(2) by (cases "i < length (ti_connections ti)") (auto simp: conns nth_append ingress_inv_def less_Suc_eq)
  qed
  ultimately show ?thesis using assms(2) by (auto simp: ingress_inv_def conns)
qed

lemma accept_keeps:
  "accept_client route p ti = (r, t) \<Longrightarrow> ingress_inv ti \<Longrightarrow> ingress_inv t"
  by (auto simp: accept_client_def dest: acquire_leases intro: register_keeps split: option.splits prod.splits)

lemma opened_keeps:
  assumes "ingress_inv ti"
  shows "ingress_inv (tunnel_opened i ti)"
proof (cases "i < length (ti_connections ti)")
  case True
  define c where "c = (ti_connections ti ! i)\<lparr>ic_worker := TunnelOpen\<rparr>"
  define d where "d = (if ic_finished c then c else c\<lparr>ic_piping := True\<rparr>)"
  have d: "holder d = holder (ti_connections ti ! i)" "ic_finished d = ic_finished (ti_connections ti ! i)"
    "ic_clientOpen d = ic_clientOpen (ti_connections ti ! i)" "ic_port d = ic_port (ti_connections ti ! i)"
    by (simp_all add: d_def c_def holder_def)
  have t: "tunnel_opened i ti = ti\<lparr>ti_connections := (ti_connections ti)[i := d]\<rparr>"
    using True by (simp add: tunnel_opened_def Let_def d_def c_def)
  have "map holder ((ti_connections ti)[i := d]) = map holder (ti_connections ti)"
    using True by (simp add: map_update d list_update_same_conv)
  moreover have "set ((ti_connections ti)[i := d]) \<subseteq> insert d (set (ti_connections ti))" by (rule set_update_subset_insert)
  ultimately show ?thesis
    using assms True by (auto simp: ingress_inv_def t closers_of_def nth_list_update d)
qed (use assms in \<open>simp add: tunnel_opened_def\<close>)

lemma elsewhere_keeps:
  "tryAcquire sc (ti_connectionLimiter ti) = (r, lim) \<Longrightarrow> ingress_inv ti \<Longrightarrow>
     ingress_inv (ti\<lparr>ti_connectionLimiter := lim\<rparr>)"
  "lease \<notin> ic_lease ` set (ti_connections ti) \<Longrightarrow> ingress_inv ti \<Longrightarrow>
     ingress_inv (ti\<lparr>ti_connectionLimiter := release lease (ti_connectionLimiter ti)\<rparr>)"
  by (auto simp: ingress_inv_def closers_of_def holder_def image_iff
      intro: leases_held_acquire(1) leases_held_elsewhere)

interpretation ingress: invariant_system ingress_step ingress_inv
proof
  fix s t
  assume "ingress_step s t" and inv: "ingress_inv s"
  then show "ingress_inv t"
  proof cases
    case (data i bytes now now')
    obtain allowed b where "tryConsume (ic_scope (ti_connections s ! i)) bytes now now' (ti_bandwidthLimiter s) = (allowed, b)"
      by fastforce
    moreover have "ingress_inv (s\<lparr>ti_bandwidthLimiter := b\<rparr>)"
      using inv ingress_inv_cong [of "s\<lparr>ti_bandwidthLimiter := b\<rparr>" s] by (simp add: leases_of_def)
    ultimately show ?thesis using data inv by (auto simp: client_data_def Let_def intro: finish_keeps)
  next
    case (activated listen port r)
    then show ?thesis using inv ingress_inv_cong [of t s]
      by (auto simp: activate_port_def leases_of_def split: if_splits option.splits)
  next
    case (consumed_elsewhere b)
    then show ?thesis using inv ingress_inv_cong [of t s] by (simp add: leases_of_def)
  qed (use inv in \<open>auto intro: accept_keeps opened_keeps finish_keeps deactivate_closes(1) elsewhere_keeps\<close>)
qed

section \<open>Reconciling\<close>

text \<open>\<open>new Set(ports)\<close> iterates over the ports in the order of their first occurrence.\<close>

definition js_set :: "'a list \<Rightarrow> 'a list" where
  "js_set xs = rev (remdups (rev xs))"

lemma set_js_set [simp]: "set (js_set xs) = set xs"
  by (simp add: js_set_def)

text \<open>The loops over the two sets, generic in the ingress; an error of \<open>activate\<close> ends the round.\<close>

fun activate_all :: "(int \<Rightarrow> 's \<Rightarrow> ('e + unit) \<times> 's) \<Rightarrow> int list \<Rightarrow> 's \<Rightarrow> ('e + unit) \<times> 's" where
  "activate_all activate [] s = (Inr (), s)"
| "activate_all activate (p # ps) s =
     (case activate p s of (Inl e, t) \<Rightarrow> (Inl e, t) | (Inr _, t) \<Rightarrow> activate_all activate ps t)"

definition reconcile_round ::
  "('s \<Rightarrow> int list) \<Rightarrow> (int \<Rightarrow> 's \<Rightarrow> ('e + unit) \<times> 's) \<Rightarrow> (int \<Rightarrow> 's \<Rightarrow> 's) \<Rightarrow> int list \<Rightarrow> 's \<Rightarrow> ('e + unit) \<times> 's"
where
  "reconcile_round active activate deactivate desiredPorts s =
     (let desired = js_set desiredPorts; listening = js_set (active s);
          s1 = fold deactivate (filter (\<lambda>p. p \<notin> set desired) listening) s
      in activate_all activate (filter (\<lambda>p. p \<notin> set listening) desired) s1)"

definition valid_reconcile_interval :: "js_num \<Rightarrow> db_error + unit" where
  "valid_reconcile_interval intervalMs =
     (if \<not> is_safe_integer intervalMs \<or> int_value intervalMs < 1000
      then Inl (JsError ''TCP publication reconciliation interval is invalid'') else Inr ())"

text \<open>What the reconciler asks of an ingress, \<open>ReconciledTCPIngress\<close>.\<close>

locale reconciled_ingress =
  fixes active :: "'s \<Rightarrow> int list"
    and activate :: "int \<Rightarrow> 's \<Rightarrow> ('e + unit) \<times> 's"
    and deactivate :: "int \<Rightarrow> 's \<Rightarrow> 's"
    and inv :: "'s \<Rightarrow> bool"
  assumes activate_ok: "activate p s = (Inr u, t) \<Longrightarrow> set (active t) = insert p (set (active s))"
    and activate_fails: "activate p s = (Inl e, t) \<Longrightarrow> set (active t) = set (active s)"
    and activate_inv: "activate p s = (r, t) \<Longrightarrow> inv s \<Longrightarrow> inv t"
    and deactivate_ok: "inv s \<Longrightarrow> set (active (deactivate p s)) = set (active s) - {p}"
    and deactivate_inv: "inv s \<Longrightarrow> inv (deactivate p s)"
begin

lemma deactivate_all:
  "inv s \<Longrightarrow> set (active (fold deactivate ps s)) = set (active s) - set ps \<and> inv (fold deactivate ps s)"
  by (induction ps arbitrary: s) (auto simp: deactivate_ok deactivate_inv)

lemma activate_all_ok:
  "activate_all activate ps s = (Inr u, t) \<Longrightarrow> set (active t) = set ps \<union> set (active s)"
  by (induction ps arbitrary: s) (auto dest: activate_ok split: prod.splits sum.splits)

lemma activate_all_bounds:
  "activate_all activate ps s = (r, t) \<Longrightarrow> set (active s) \<subseteq> set (active t) \<and> set (active t) \<subseteq> set ps \<union> set (active s)"
proof (induction ps arbitrary: s)
  case (Cons p ps)
  obtain x s1 where one: "activate p s = (x, s1)" by fastforce
  show ?case
  proof (cases x)
    case (Inl e)
    with one Cons.prems show ?thesis by (auto dest: activate_fails)
  next
    case (Inr u)
    with one Cons.prems have "activate_all activate ps s1 = (r, t)" by simp
    from Cons.IH [OF this] activate_ok [OF one [unfolded Inr]] show ?thesis by auto
  qed
qed simp

lemma activate_all_inv: "activate_all activate ps s = (r, t) \<Longrightarrow> inv s \<Longrightarrow> inv t"
  by (induction ps arbitrary: s) (auto dest: activate_inv split: prod.splits sum.splits)

lemma activate_all_succeeds:
  "(\<And>p s. p \<in> set ps \<Longrightarrow> \<exists>u t. activate p s = (Inr u, t)) \<Longrightarrow> \<exists>t. activate_all activate ps s = (Inr (), t)"
proof (induction ps arbitrary: s)
  case (Cons p ps)
  from Cons.prems [of p s] obtain u s1 where "activate p s = (Inr u, s1)" by auto
  moreover obtain t where "activate_all activate ps s1 = (Inr (), t)" using Cons by fastforce
  ultimately show ?case by auto
qed simp

lemma round_cases:
  assumes "reconcile_round active activate deactivate desired s = (r, t)" and "inv s"
  obtains s1 ps where "set (active s1) = set (active s) \<inter> set desired" and "inv s1"
    and "set ps = set desired - set (active s)" and "activate_all activate ps s1 = (r, t)"
proof
  let ?off = "filter (\<lambda>p. p \<notin> set desired) (js_set (active s))"
  show "set (active (fold deactivate ?off s)) = set (active s) \<inter> set desired" "inv (fold deactivate ?off s)"
    using deactivate_all [OF assms(2), of ?off] by auto
  show "set (filter (\<lambda>p. p \<notin> set (active s)) (js_set desired)) = set desired - set (active s)" by auto
  show "activate_all activate (filter (\<lambda>p. p \<notin> set (active s)) (js_set desired)) (fold deactivate ?off s) = (r, t)"
    using assms(1) by (simp add: reconcile_round_def Let_def)
qed

lemma round_ok:
  assumes "reconcile_round active activate deactivate desired s = (Inr u, t)" and "inv s"
  shows "set (active t) = set desired" and "inv t"
proof -
  obtain s1 ps where "set (active s1) = set (active s) \<inter> set desired" "inv s1"
    "set ps = set desired - set (active s)" and run: "activate_all activate ps s1 = (Inr u, t)"
    using round_cases [OF assms] .
  then show "set (active t) = set desired" "inv t"
    using activate_all_ok [OF run] activate_all_inv [OF run] by auto
qed

lemma round_bounds:
  assumes "reconcile_round active activate deactivate desired s = (r, t)" and "inv s"
  shows "set (active s) \<inter> set desired \<subseteq> set (active t)" and "set (active t) \<subseteq> set desired"
proof -
  obtain s1 ps where "set (active s1) = set (active s) \<inter> set desired" "inv s1"
    "set ps = set desired - set (active s)" and run: "activate_all activate ps s1 = (r, t)"
    using round_cases [OF assms] .
  then show "set (active s) \<inter> set desired \<subseteq> set (active t)" "set (active t) \<subseteq> set desired"
    using activate_all_bounds [OF run] by auto
qed

lemma round_succeeds:
  assumes "\<And>p s. p \<in> set desired \<Longrightarrow> \<exists>u t. activate p s = (Inr u, t)"
  shows "\<exists>t. reconcile_round active activate deactivate desired s = (Inr (), t)"
  using activate_all_succeeds [of "filter (\<lambda>p. p \<notin> set (js_set (active s))) (js_set desired)"] assms
  by (simp add: reconcile_round_def Let_def)

end

interpretation reconciler: reconciled_ingress activeListenerPorts "activate_port listen" deactivate_port ingress_inv for listen
proof
  fix p :: int and s t :: tcp_ingress and u e r
  show "activate_port listen p s = (Inr u, t) \<Longrightarrow> set (activeListenerPorts t) = insert p (set (activeListenerPorts s))"
    "activate_port listen p s = (Inl e, t) \<Longrightarrow> set (activeListenerPorts t) = set (activeListenerPorts s)"
    by (auto simp: activate_port_def activeListenerPorts_def split: if_splits option.splits)
  show "activate_port listen p s = (r, t) \<Longrightarrow> ingress_inv s \<Longrightarrow> ingress_inv t"
    by (rule ingress.step_inv [OF ingress_step.activated])
  show "ingress_inv s \<Longrightarrow> set (activeListenerPorts (deactivate_port p s)) = set (activeListenerPorts s) - {p}"
    "ingress_inv s \<Longrightarrow> ingress_inv (deactivate_port p s)"
    by (simp_all add: activeListenerPorts_def deactivate_closes)
qed

definition reconcileOnce :: "(int \<Rightarrow> string option) \<Rightarrow> int list \<Rightarrow> tcp_ingress \<Rightarrow> (string + unit) \<times> tcp_ingress" where
  "reconcileOnce listen = reconcile_round activeListenerPorts (activate_port listen) deactivate_port"

section \<open>The handshake with the worker\<close>

text \<open>
  \<open>readTunnelHandshake\<close>: the bytes are Latin-1 characters. Once the promise is resolved the listener
  of the data is gone and what arrives queues behind the bytes given back by \<open>unshift\<close>; once it is
  rejected the socket is destroyed.
\<close>

definition maximumTunnelHeaderBytes :: nat where
  "maximumTunnelHeaderBytes = 8192"

fun index_of :: "'a list \<Rightarrow> 'a list \<Rightarrow> nat option" where
  "index_of p [] = (if p = [] then Some 0 else None)"
| "index_of p (c # cs) = (if take (length p) (c # cs) = p then Some 0 else map_option Suc (index_of p cs))"

definition crlf :: string where
  "crlf = [CHR 0x0D, CHR 0x0A]"

definition status_line :: "string \<Rightarrow> string" where
  "status_line header = (case index_of crlf header of None \<Rightarrow> header | Some i \<Rightarrow> take i header)"

definition status_ok :: "string \<Rightarrow> bool" where
  "status_ok line \<longleftrightarrow> line = ''HTTP/1.1 200'' \<or> take 13 line = ''HTTP/1.1 200 ''"

datatype tunnel_result = TunnelPending | TunnelFailed string | TunnelReady string

record tunnel =
  tn_buffer :: string
  tn_result :: tunnel_result

definition new_tunnel :: tunnel where
  "new_tunnel = \<lparr>tn_buffer = [], tn_result = TunnelPending\<rparr>"

definition fail_tunnel :: "string \<Rightarrow> tunnel \<Rightarrow> tunnel" where
  "fail_tunnel message t = (if tn_result t = TunnelPending then t\<lparr>tn_result := TunnelFailed message\<rparr> else t)"

definition tunnel_data :: "string \<Rightarrow> tunnel \<Rightarrow> tunnel" where
  "tunnel_data chunk t =
     (case tn_result t of
        TunnelFailed _ \<Rightarrow> t
      | TunnelReady stream \<Rightarrow> t\<lparr>tn_result := TunnelReady (stream @ chunk)\<rparr>
      | TunnelPending \<Rightarrow>
          (let buffer = tn_buffer t @ chunk; t = t\<lparr>tn_buffer := buffer\<rparr> in
           if length buffer > maximumTunnelHeaderBytes
           then fail_tunnel ''Worker TCP bridge response headers are too large'' t
           else (case index_of (crlf @ crlf) buffer of
             None \<Rightarrow> t
           | Some boundary \<Rightarrow>
               (let statusLine = status_line (take boundary buffer) in
                if \<not> status_ok statusLine
                then fail_tunnel (''Worker TCP bridge rejected connection: '' @ statusLine) t
                else t\<lparr>tn_result := TunnelReady (drop (boundary + 4) buffer)\<rparr>))))"

text \<open>The reference: what all the bytes of the worker mean, however they were cut into chunks.\<close>

definition tunnel_reference :: "string \<Rightarrow> tunnel_result" where
  "tunnel_reference bytes =
     (case index_of (crlf @ crlf) bytes of
        None \<Rightarrow> TunnelPending
      | Some i \<Rightarrow>
          if status_ok (status_line (take i bytes)) then TunnelReady (drop (i + 4) bytes)
          else TunnelFailed (''Worker TCP bridge rejected connection: '' @ status_line (take i bytes)))"

lemma index_of_bound: "index_of p s = Some i \<Longrightarrow> i + length p \<le> length s"
proof (induction s arbitrary: i)
  case (Cons c s)
  show ?case
  proof (cases "take (length p) (c # s) = p")
    case True
    then have "length p \<le> length (c # s)" by (metis length_take min.cobounded1)
    with True Cons.prems show ?thesis by simp
  qed (use Cons in auto)
qed (simp split: if_splits)

lemma index_of_append: "index_of p s = Some i \<Longrightarrow> index_of p (s @ t) = Some i"
proof (induction s arbitrary: i)
  case Nil
  then show ?case by (cases t) (auto split: if_splits)
next
  case (Cons c s)
  show ?case
  proof (cases "take (length p) (c # s) = p")
    case True
    then have "length p \<le> length (c # s)" by (metis length_take min.cobounded1)
    then have "take (length p) (c # s @ t) = p" using True by (metis append_Cons take_append append_Nil2 diff_is_0_eq take0)
    with True Cons.prems show ?thesis by simp
  next
    case False
    with Cons.prems obtain j where j: "index_of p s = Some j" "i = Suc j" by auto
    then have "length p \<le> length (c # s)" using index_of_bound by fastforce
    then have "take (length p) (c # s @ t) \<noteq> p" using False by (metis append_Cons take_append append_Nil2 diff_is_0_eq take0)
    with j Cons.IH [OF j(1)] show ?thesis by simp
  qed
qed

lemma tunnel_run:
  "length (concat chunks) \<le> maximumTunnelHeaderBytes \<Longrightarrow>
     tn_result (fold tunnel_data chunks new_tunnel) = tunnel_reference (concat chunks)
     \<and> (tunnel_reference (concat chunks) = TunnelPending \<longrightarrow>
          tn_buffer (fold tunnel_data chunks new_tunnel) = concat chunks)"
proof (induction chunks rule: rev_induct)
  case Nil
  show ?case by (simp add: tunnel_reference_def new_tunnel_def crlf_def)
next
  case (snoc c cs)
  let ?b = "concat cs"
  define t where "t = fold tunnel_data cs new_tunnel"
  have IH: "tn_result t = tunnel_reference ?b" "tunnel_reference ?b = TunnelPending \<longrightarrow> tn_buffer t = ?b"
    using snoc by (simp_all add: t_def)
  have last_chunk: "fold tunnel_data (cs @ [c]) new_tunnel = tunnel_data c t" by (simp add: t_def)
  show ?case
  proof (cases "index_of (crlf @ crlf) ?b")
    case None
    then have "tn_result t = TunnelPending" "tn_buffer t = ?b" using IH by (simp_all add: tunnel_reference_def)
    then show ?thesis unfolding last_chunk
      using snoc.prems by (auto simp: tunnel_data_def tunnel_reference_def fail_tunnel_def Let_def split: option.splits)
  next
    case (Some i)
    have "i + 4 \<le> length ?b" using index_of_bound [OF Some] by (simp add: crlf_def)
    then show ?thesis unfolding last_chunk
      using IH Some index_of_append [OF Some, of c]
      by (auto simp: tunnel_data_def tunnel_reference_def split: if_splits)
  qed
qed

section \<open>Properties\<close>

lemma new_ingress_inv: "ingress_inv (new_ingress lim bw)"
  by (simp add: ingress_inv_def new_ingress_def)

text \<open>C17: No connection of the ingress leaks its lease. In every reachable state an unfinished connection holds an open
  lease of its own scope and a finished one has given its lease back, no two share one; and deactivating a
  port stops its listener and finishes all its connections.\<close>

theorem ingress_connections_release_leases:
  assumes "ingress_step\<^sup>*\<^sup>* (new_ingress lim bw) ti"
  shows "distinct (map ic_lease (ti_connections ti))
    \<and> (\<forall>c \<in> set (ti_connections ti). leases_of ti ! ic_lease c = (ic_scope c, ic_finished c))
    \<and> p \<notin> set (ti_listeners (deactivate_port p ti))
    \<and> (\<forall>c \<in> set (ti_connections (deactivate_port p ti)). ic_port c = p \<longrightarrow>
         \<not> ic_clientOpen c \<and> leases_of (deactivate_port p ti) ! ic_lease c = (ic_scope c, True))"
proof -
  have inv: "ingress_inv ti" using assms new_ingress_inv by (rule ingress.run_inv)
  note off = deactivate_closes [OF inv, where p = p]
  have "\<not> ic_clientOpen c \<and> leases_of (deactivate_port p ti) ! ic_lease c = (ic_scope c, True)"
    if "c \<in> set (ti_connections (deactivate_port p ti))" "ic_port c = p" for c
    using off(1) off(3) [OF that] ingress_inv_leases(2) [OF off(1) that(1)] that(1) by (simp add: ingress_inv_def)
  with ingress_inv_leases [OF inv] off(2) show ?thesis by simp
qed

text \<open>A tunnel that opens after its connection was finished is never closed: when the client times out or its
  port is deactivated while the handshake with the worker runs, the worker's socket stays open although the
  connection is over, and no later \<open>finish\<close> touches it.\<close>

theorem late_tunnel_stays_open:
  assumes "i < length (ti_connections ti)" and "ic_worker (ti_connections ti ! i) = NoTunnel"
  shows "let t = tunnel_opened i (finish i ti)
    in ic_finished (ti_connections t ! i) \<and> ic_worker (ti_connections t ! i) = TunnelOpen \<and> finish i t = t"
proof -
  let ?t = "tunnel_opened i (finish i ti)"
  have done_i: "ic_finished (ti_connections (finish i ti) ! i)" using assms(1) by (simp add: finish_stays_finished)
  have len: "i < length (ti_connections (finish i ti))" using assms(1) by (simp add: finish_stays_finished)
  then have "ti_connections ?t = (ti_connections (finish i ti))[i := (ti_connections (finish i ti) ! i)\<lparr>ic_worker := TunnelOpen\<rparr>]"
    using done_i by (simp add: tunnel_opened_def Let_def)
  with len done_i show ?thesis by (simp add: finish_def Let_def)
qed

text \<open>A round of the reconciler never opens an undesired port and never closes a desired one; a round without
  an error leaves exactly the desired ports listening, and every round is one when the system lets the
  process listen on them.\<close>

theorem reconcile_reaches_desired:
  assumes "ingress_step\<^sup>*\<^sup>* (new_ingress lim bw) s" and "reconcileOnce listen desired s = (r, t)"
  shows "set (activeListenerPorts s) \<inter> set desired \<subseteq> set (activeListenerPorts t)
    \<and> set (activeListenerPorts t) \<subseteq> set desired
    \<and> (r = Inr () \<longrightarrow> set (activeListenerPorts t) = set desired)
    \<and> ((\<forall>p \<in> set desired. listen p = None) \<longrightarrow> r = Inr ())"
proof -
  have inv: "ingress_inv s" using assms(1) new_ingress_inv by (rule ingress.run_inv)
  have run: "reconcile_round activeListenerPorts (activate_port listen) deactivate_port desired s = (r, t)"
    using assms(2) by (simp add: reconcileOnce_def)
  have "r = Inr ()" if "\<forall>p \<in> set desired. listen p = None"
  proof -
    have "\<exists>u t. activate_port listen p s = (Inr u, t)" if "p \<in> set desired" for p s
      using that \<open>\<forall>p \<in> set desired. listen p = None\<close> by (simp add: activate_port_def)
    from reconciler.round_succeeds [OF this, of desired s] run show ?thesis by auto
  qed
  moreover have "r = Inr () \<longrightarrow> set (activeListenerPorts t) = set desired"
    using reconciler.round_ok(1) [of listen desired s _ t] run inv by blast
  ultimately show ?thesis using reconciler.round_bounds [OF run inv] by blast
qed

text \<open>The handshake does not depend on how the network cuts the worker's answer: as long as the answer stays
  below the limit, its result is the one of all the bytes together, so no byte the worker sends after its
  header is lost or reordered.\<close>

theorem handshake_ignores_chunking:
  assumes "length (concat chunks) \<le> maximumTunnelHeaderBytes"
  shows "tn_result (fold tunnel_data chunks new_tunnel) = tunnel_reference (concat chunks)"
  using tunnel_run [OF assms] by simp

section \<open>The properties on a concrete ingress\<close>

definition sample_route :: ingress_route where
  "sample_route = \<lparr>ir_routeId = ''r'', ir_ingressPort = 30001, ir_workspaceId = ''ws'', ir_organizationId = ''o'',
     ir_workerId = ''w'', ir_targetPort = 22\<rparr>"

definition listening_ingress :: tcp_ingress where
  "listening_ingress = snd (activate_port (\<lambda>_. None) 30001 (new_ingress sample_limits sample_bandwidth))"

definition busy_ingress :: tcp_ingress where
  "busy_ingress = snd (accept_client (\<lambda>_. Some sample_route) (Some 30001) listening_ingress)"

lemma busy_reached: "ingress_step\<^sup>*\<^sup>* (new_ingress sample_limits sample_bandwidth) busy_ingress"
proof -
  have "ingress_step (new_ingress sample_limits sample_bandwidth) listening_ingress"
    by (rule ingress_step.activated [where r = "fst (activate_port (\<lambda>_. None) 30001 (new_ingress sample_limits sample_bandwidth))"])
      (simp add: listening_ingress_def)
  moreover have "ingress_step listening_ingress busy_ingress"
    by (rule ingress_step.accepted [where r = "fst (accept_client (\<lambda>_. Some sample_route) (Some 30001) listening_ingress)"])
      (simp add: busy_ingress_def)
  ultimately show ?thesis by (meson converse_rtranclp_into_rtranclp rtranclp.rtrancl_refl)
qed

lemma busy_run:
  "ti_connections busy_ingress = [new_client 30001 (route_scope sample_route) 0]"
  "ti_listeners busy_ingress = [30001]"
  by (simp_all add: busy_ingress_def listening_ingress_def activate_port_def new_ingress_def accept_client_def
      tryAcquire_def current_count_def sample_limits_def register_client_def Let_def)

theorem ingress_connections_release_leases_witness:
  "ti_connections busy_ingress = [new_client 30001 (route_scope sample_route) 0]
   \<and> leases_of busy_ingress ! 0 = (route_scope sample_route, False)
   \<and> 30001 \<notin> set (ti_listeners (deactivate_port 30001 busy_ingress))"
  using ingress_connections_release_leases [OF busy_reached, of 30001] by (simp add: busy_run)

theorem late_tunnel_stays_open_witness:
  "let t = tunnel_opened 0 (finish 0 busy_ingress)
   in ic_finished (ti_connections t ! 0) \<and> ic_worker (ti_connections t ! 0) = TunnelOpen"
  using late_tunnel_stays_open [of 0 busy_ingress] by (simp add: busy_run Let_def)

theorem reconcile_reaches_desired_witness:
  "\<exists>t. reconcileOnce (\<lambda>_. None) [30002, 30003] busy_ingress = (Inr (), t)
     \<and> set (activeListenerPorts t) = {30002, 30003}"
proof -
  obtain r t where run: "reconcileOnce (\<lambda>_. None) [30002, 30003] busy_ingress = (r, t)" by fastforce
  from reconcile_reaches_desired [OF busy_reached run] run show ?thesis by auto
qed

theorem handshake_ignores_chunking_witness:
  "tn_result (fold tunnel_data [''HTTP/1.1 20'', ''0 OK'' @ crlf, crlf @ ''ab'', ''c''] new_tunnel) = TunnelReady ''abc''"
proof -
  let ?cs = "[''HTTP/1.1 20'', ''0 OK'' @ crlf, crlf @ ''ab'', ''c'']"
  have "length (concat ?cs) \<le> maximumTunnelHeaderBytes" by (simp add: crlf_def maximumTunnelHeaderBytes_def)
  from handshake_ignores_chunking [OF this] show ?thesis
    by (simp add: tunnel_reference_def crlf_def status_line_def status_ok_def)
qed

end
