(* ===== verification/Routing.thy ===== *)
theory Routing
  imports Errors
begin

text \<open>
  The host names of published services (\<open>src/apps/control-plane/src/publishedServiceRouting.ts\<close>):
  the configured origin, the URL of a slug and the host names that lead back to a slug. The parser of URLs is an
  argument; a parsed URL is the record of the parts the code reads.
\<close>

section \<open>Host names\<close>

definition normalizeHostname :: "string \<Rightarrow> string" where
  "normalizeHostname v =
     (let s = toLowerCase (trim v) in if s \<noteq> [] \<and> last s = CHR ''.'' then butlast s else s)"

fun split_on :: "char \<Rightarrow> string \<Rightarrow> string list" where
  "split_on c [] = [[]]"
| "split_on c (x # xs) =
     (if x = c then [] # split_on c xs
      else case split_on c xs of [] \<Rightarrow> [[x]] | p # ps \<Rightarrow> (x # p) # ps)"

definition hostnameLabel :: "string \<Rightarrow> bool" where
  "hostnameLabel s \<longleftrightarrow> label_pattern 61 s"

text \<open>
  \<open>isIP\<close> on a name whose parts are host labels: such a name has no colon, so only the dotted form of
  four decimal octets without leading zeros counts.
\<close>

definition is_octet :: "string \<Rightarrow> bool" where
  "is_octet s \<longleftrightarrow>
     s \<noteq> [] \<and> length s \<le> 3 \<and> list_all is_digit s \<and> (length s = 1 \<or> hd s \<noteq> CHR ''0'')
     \<and> foldl (\<lambda>n c. 10 * n + (of_char c - 48)) 0 s \<le> (255 :: nat)"

definition is_ipv4 :: "string \<Rightarrow> bool" where
  "is_ipv4 s \<longleftrightarrow> length (split_on CHR ''.'' s) = 4 \<and> list_all is_octet (split_on CHR ''.'' s)"

definition validHostname :: "string \<Rightarrow> bool" where
  "validHostname v \<longleftrightarrow>
     length v \<le> 253 \<and> CHR ''.'' \<in> set v \<and> \<not> is_ipv4 v \<and> list_all hostnameLabel (split_on CHR ''.'' v)"

section \<open>The configured origin\<close>

record parsed_url =
  url_protocol :: string
  url_username :: string
  url_password :: string
  url_hostname :: string
  url_port :: string
  url_pathname :: string
  url_search :: string
  url_hash :: string

definition url_origin :: "parsed_url \<Rightarrow> string" where
  "url_origin u =
     url_protocol u @ ''//'' @ url_hostname u @ (if url_port u = [] then [] else CHR '':'' # url_port u)"

text \<open>The URL behind \<open>origin\<close>, whose host name \<open>urlForSlug\<close> extends.\<close>

record published_service_origin =
  pso_url :: parsed_url
  pso_hostnameSuffix :: string

definition parsePublishedServiceOrigin ::
  "(string \<Rightarrow> parsed_url option) \<Rightarrow> string option \<Rightarrow> db_error + published_service_origin option"
where
  "parsePublishedServiceOrigin newURL raw =
     (case trim_or_null raw of
        None \<Rightarrow> Inr None
      | Some v \<Rightarrow>
          (case newURL v of
             None \<Rightarrow> Inl (JsError ''NEBULA_PUBLISHED_SERVICE_ORIGIN must be an absolute HTTP(S) origin'')
           | Some url \<Rightarrow>
               let hostnameSuffix = normalizeHostname (url_hostname url) in
               if (url_protocol url \<noteq> ''http:'' \<and> url_protocol url \<noteq> ''https:'')
                  \<or> url_username url \<noteq> [] \<or> url_password url \<noteq> [] \<or> url_pathname url \<noteq> ''/''
                  \<or> url_search url \<noteq> [] \<or> url_hash url \<noteq> [] \<or> \<not> validHostname hostnameSuffix
               then Inl (JsError ''NEBULA_PUBLISHED_SERVICE_ORIGIN must be a clean HTTP(S) origin with a DNS hostname'')
               else Inr (Some \<lparr>pso_url = url\<lparr>url_hostname := hostnameSuffix\<rparr>, pso_hostnameSuffix = hostnameSuffix\<rparr>)))"

text \<open>The host name of the URL \<open>urlForSlug\<close> returns, and the URL.\<close>

definition slug_hostname :: "published_service_origin \<Rightarrow> string \<Rightarrow> db_error + string" where
  "slug_hostname origin slug =
     (let normalizedSlug = toLowerCase (trim slug) in
      if \<not> hostnameLabel normalizedSlug
      then Inl (JsError ''Published service slug is not a valid DNS label'')
      else Inr (normalizedSlug @ CHR ''.'' # pso_hostnameSuffix origin))"

definition urlForSlug :: "published_service_origin \<Rightarrow> string \<Rightarrow> db_error + string" where
  "urlForSlug origin slug =
     sbind (slug_hostname origin slug) (\<lambda>h. Inr (url_origin ((pso_url origin)\<lparr>url_hostname := h\<rparr>)))"

section \<open>Host names of requests\<close>

datatype host_match = HostNone | HostInvalid | HostService string

definition matchPublishedServiceHostname :: "string \<Rightarrow> string option \<Rightarrow> host_match" where
  "matchPublishedServiceHostname hostname configuredSuffix =
     (let suffix = normalizeHostname (case configuredSuffix of None \<Rightarrow> [] | Some s \<Rightarrow> s) in
      if suffix = [] then HostNone
      else let candidate = normalizeHostname hostname in
        if candidate = suffix then HostInvalid
        else let ending = CHR ''.'' # suffix in
          if \<not> (length ending \<le> length candidate \<and> drop (length candidate - length ending) candidate = ending)
          then HostNone
          else let slug = take (length candidate - length ending) candidate in
            if \<not> hostnameLabel slug then HostInvalid else HostService slug)"

section \<open>Escaping\<close>

text \<open>\<open>encodeURIComponent\<close>: the unreserved characters stay, the UTF-8 bytes of the others are escaped.\<close>

definition uri_unreserved :: "char \<Rightarrow> bool" where
  "uri_unreserved c \<longleftrightarrow> is_lower_letter c \<or> is_upper_letter c \<or> is_digit c \<or> c \<in> set ''-_.!~*()'' \<or> of_char c = (39 :: nat)"

definition hex_digit :: "nat \<Rightarrow> char" where
  "hex_digit n = char_of (if n < 10 then n + 48 else n + 55)"

definition utf8_bytes :: "char \<Rightarrow> nat list" where
  "utf8_bytes c = (let n = of_char c :: nat in if n < 128 then [n] else [192 + n div 64, 128 + n mod 64])"

definition encodeURIComponent :: "string \<Rightarrow> string" where
  "encodeURIComponent s =
     concat (map (\<lambda>c. if uri_unreserved c then [c]
        else concat (map (\<lambda>b. [CHR ''%'', hex_digit (b div 16), hex_digit (b mod 16)]) (utf8_bytes c))) s)"

definition strip_last_slash :: "string \<Rightarrow> string" where
  "strip_last_slash s = (if s \<noteq> [] \<and> last s = CHR ''/'' then butlast s else s)"

text \<open>\<open>publishedServiceURL\<close>: under its own host name when an origin is configured, otherwise under a path of the app.\<close>

definition publishedServiceURL :: "published_service_origin option \<Rightarrow> string \<Rightarrow> string \<Rightarrow> db_error + string" where
  "publishedServiceURL configured publicAppURL slug =
     (case configured of
        Some origin \<Rightarrow> urlForSlug origin slug
      | None \<Rightarrow> Inr (strip_last_slash publicAppURL @ ''/p/'' @ encodeURIComponent slug))"

section \<open>Names that are already normal\<close>

definition host_char :: "char \<Rightarrow> bool" where
  "host_char c \<longleftrightarrow> is_lower_alnum c \<or> c = CHR ''-'' \<or> c = CHR ''.''"

lemma host_char_plain: "host_char c \<Longrightarrow> \<not> js_space c \<and> lower_char c = c"
  by (auto simp: host_char_def is_lower_alnum_def is_lower_letter_def is_digit_def js_space_def lower_char_def
      less_eq_char_def Let_def)

lemma plain_lower: "list_all host_char s \<Longrightarrow> toLowerCase s = s"
  by (induction s) (auto simp: toLowerCase_def host_char_plain)

lemma plain_dropWhile: "list_all host_char s \<Longrightarrow> dropWhile js_space s = s"
  by (cases s) (auto simp: host_char_plain)

lemma plain_trim: "list_all host_char s \<Longrightarrow> trim s = s"
  using plain_dropWhile [of "rev s"] by (simp add: trim_def plain_dropWhile)

lemma plain_normal: "list_all host_char s \<Longrightarrow> s = [] \<or> last s \<noteq> CHR ''.'' \<Longrightarrow> normalizeHostname s = s"
  by (auto simp: normalizeHostname_def plain_trim plain_lower Let_def)

lemma label_plain: "hostnameLabel s \<Longrightarrow> list_all host_char s \<and> CHR ''.'' \<notin> set s \<and> s \<noteq> []"
  by (auto simp: hostnameLabel_def label_pattern_def list_all_iff host_char_def is_lower_alnum_def is_lower_letter_def
      is_digit_def less_eq_char_def)

lemma split_on_nonempty [simp]: "split_on c v \<noteq> []"
  by (cases v) (auto split: list.splits)

lemma split_on_all:
  "\<forall>p \<in> set (split_on c v). list_all P p \<Longrightarrow> P c \<Longrightarrow> list_all P v"
proof (induction v)
  case (Cons x v)
  obtain p ps where split: "split_on c v = p # ps" by (cases "split_on c v") auto
  show ?case using Cons by (auto simp: split split: if_splits)
qed simp

lemma split_on_single: "split_on c v = [p] \<Longrightarrow> c \<notin> set v"
  by (induction v arbitrary: p) (auto split: if_splits list.splits)

lemma split_on_last: "v \<noteq> [] \<Longrightarrow> last v = c \<Longrightarrow> last (split_on c v) = []"
proof (induction v)
  case (Cons x v)
  obtain p ps where split: "split_on c v = p # ps" by (cases "split_on c v") auto
  show ?case
  proof (cases "v = []")
    case False
    with Cons have tail: "last (split_on c v) = []" "last v = c" by simp_all
    moreover have "c \<in> set v" using False tail(2) last_in_set by fastforce
    then have "ps \<noteq> []" using split_on_single [of c v p] split by auto
    ultimately show ?thesis using split by simp
  qed (use Cons in simp)
qed simp

lemma valid_hostname_plain:
  assumes "validHostname v"
  shows "list_all host_char v" and "v \<noteq> []" and "last v \<noteq> CHR ''.''"
proof -
  have labels: "\<forall>l \<in> set (split_on CHR ''.'' v). hostnameLabel l" and dot: "CHR ''.'' \<in> set v"
    using assms by (simp_all add: validHostname_def list_all_iff)
  show "list_all host_char v"
    using labels label_plain by (intro split_on_all [where c = "CHR ''.''"]) (auto simp: host_char_def)
  show "v \<noteq> []" using dot by auto
  then show "last v \<noteq> CHR ''.''" using labels label_plain split_on_last last_in_set [OF split_on_nonempty] by metis
qed

section \<open>Properties\<close>

text \<open>URLs and host names agree: the host name of the URL of a slug is matched back to the slug, written in any
  case or with a final dot, and a host name is matched to a slug only if the URL of that slug has that host.\<close>

theorem published_url_roundtrip:
  assumes "parsePublishedServiceOrigin newURL raw = Inr (Some origin)"
  shows "(slug_hostname origin slug = Inr h \<longrightarrow> normalizeHostname host = h \<longrightarrow>
            matchPublishedServiceHostname host (Some (pso_hostnameSuffix origin)) = HostService (toLowerCase (trim slug)))
    \<and> (matchPublishedServiceHostname host (Some (pso_hostnameSuffix origin)) = HostService found \<longrightarrow>
            slug_hostname origin found = Inr (normalizeHostname host))"
proof -
  let ?sfx = "pso_hostnameSuffix origin"
  from assms have valid: "validHostname ?sfx"
    by (auto simp: parsePublishedServiceOrigin_def Let_def split: option.splits if_splits)
  note plain = valid_hostname_plain [OF valid]
  have suffix: "normalizeHostname ?sfx = ?sfx" "?sfx \<noteq> []" using plain by (simp_all add: plain_normal)
  have "matchPublishedServiceHostname host (Some ?sfx) = HostService (toLowerCase (trim slug))"
    if "slug_hostname origin slug = Inr h" "normalizeHostname host = h"
  proof -
    let ?label = "toLowerCase (trim slug)"
    from that have label: "hostnameLabel ?label" and h: "normalizeHostname host = ?label @ CHR ''.'' # ?sfx"
      by (auto simp: slug_hostname_def Let_def split: if_splits)
    have "?label @ CHR ''.'' # ?sfx \<noteq> ?sfx" by (metis append_self_conv2 length_append length_Cons not_add_less2 lessI add_lessD1 not_less_eq)
    with label suffix show ?thesis by (simp add: matchPublishedServiceHostname_def h Let_def)
  qed
  moreover have "slug_hostname origin found = Inr (normalizeHostname host)"
    if "matchPublishedServiceHostname host (Some ?sfx) = HostService found"
  proof -
    from that suffix have label: "hostnameLabel found" and "normalizeHostname host = found @ CHR ''.'' # ?sfx"
      by (auto simp: matchPublishedServiceHostname_def Let_def split: if_splits)
        (metis append_take_drop_id)+
    moreover have "toLowerCase (trim found) = found" using label_plain [OF label] by (simp add: plain_trim plain_lower)
    ultimately show ?thesis by (simp add: slug_hostname_def)
  qed
  ultimately show ?thesis by blast
qed

definition sample_url :: parsed_url where
  "sample_url = \<lparr>url_protocol = ''https:'', url_username = [], url_password = [], url_hostname = ''apps.io'',
     url_port = [], url_pathname = ''/'', url_search = [], url_hash = []\<rparr>"

lemma sample_origin:
  "parsePublishedServiceOrigin (\<lambda>_. Some sample_url) (Some ''https://apps.io'')
     = Inr (Some \<lparr>pso_url = sample_url, pso_hostnameSuffix = ''apps.io''\<rparr>)"
  by (simp add: parsePublishedServiceOrigin_def sample_url_def trim_or_null_def trim_def js_space_def normalizeHostname_def
      toLowerCase_def lower_char_def Let_def validHostname_def is_ipv4_def hostnameLabel_def label_pattern_def
      is_lower_alnum_def is_lower_letter_def is_digit_def less_eq_char_def)

theorem published_url_roundtrip_witness:
  "matchPublishedServiceHostname ''db1.apps.io.'' (Some ''apps.io'') = HostService ''db1''"
proof -
  let ?o = "\<lparr>pso_url = sample_url, pso_hostnameSuffix = ''apps.io''\<rparr>"
  have "slug_hostname ?o ''db1'' = Inr ''db1.apps.io''" "normalizeHostname ''db1.apps.io.'' = ''db1.apps.io''"
    "toLowerCase (trim ''db1'') = ''db1''"
    by (simp_all add: slug_hostname_def trim_def js_space_def normalizeHostname_def toLowerCase_def lower_char_def Let_def
      hostnameLabel_def label_pattern_def is_lower_alnum_def is_lower_letter_def is_digit_def less_eq_char_def)
  with published_url_roundtrip [OF sample_origin, of "''db1''" "''db1.apps.io''" "''db1.apps.io.''"] show ?thesis by simp
qed

end
