(* ===== verification/Serving.thy ===== *)
theory Serving
  imports Entitlements Platform Gateway Ingress Routing
begin

text \<open>
  How the control plane puts the pieces of a published service together
  (\<open>src/apps/control-plane/src/index.ts\<close>): the routes the two gateways resolve, and the operations that
  publish and disconnect a service, which move the database and the TCP ingress together. An operation is one step
  here; its two \<open>await\<close>s are on listeners of its own port.
\<close>

section \<open>State and configuration\<close>

record control_plane =
  cp_db :: cloud_db
  cp_ingress :: "tcp_ingress option"

type_synonym 'a cpop = "(control_plane, db_error, 'a) operation"

record serving_config =
  sv_entitlementsRequired :: bool
  sv_tcpIngressPortMinimum :: js_num
  sv_tcpIngressPortMaximum :: js_num
  sv_workspacePublicationLimit :: js_num
  sv_organizationPublicationLimit :: js_num

definition with_db :: "'a dbop \<Rightarrow> 'a cpop" where
  "with_db m s = (case m (cp_db s) of (r, d) \<Rightarrow> (r, s\<lparr>cp_db := d\<rparr>))"

definition deactivate_tcp :: "int \<Rightarrow> unit cpop" where
  "deactivate_tcp port s = (Inr (), s\<lparr>cp_ingress := map_option (deactivate_port port) (cp_ingress s)\<rparr>)"

text \<open>The error is the one of listening on the port; \<open>activate_tcp\<close> is not called without an ingress.\<close>

definition activate_tcp :: "(int \<Rightarrow> string option) \<Rightarrow> int \<Rightarrow> unit cpop" where
  "activate_tcp listen port s =
     (case cp_ingress s of
        None \<Rightarrow> (Inr (), s)
      | Some ti \<Rightarrow>
          (case activate_port listen port ti of
             (Inl e, t) \<Rightarrow> (Inl (JsError e), s\<lparr>cp_ingress := Some t\<rparr>)
           | (Inr _, t) \<Rightarrow> (Inr (), s\<lparr>cp_ingress := Some t\<rparr>)))"

section \<open>Routes\<close>

definition workspaceHasOperatorEntitlement :: "bool \<Rightarrow> string \<Rightarrow> int \<Rightarrow> cloud_db \<Rightarrow> bool" where
  "workspaceHasOperatorEntitlement entitlementsRequired workspaceId now db =
     (if \<not> entitlementsRequired then True
      else case getWorkspaceById workspaceId db of
        None \<Rightarrow> False
      | Some w \<Rightarrow> hasActiveOperatorEntitlement (pw_memberId w) (pw_organizationId w) (JInt now) db)"

definition resolveEntitledWorkspaceAccess ::
  "bool \<Rightarrow> string \<Rightarrow> string \<Rightarrow> string \<Rightarrow> int \<Rightarrow> cloud_db \<Rightarrow> personal_workspace option"
where
  "resolveEntitledWorkspaceAccess entitlementsRequired workspaceId userId organizationId now db =
     (case resolveWorkspaceAccess workspaceId userId organizationId db of
        None \<Rightarrow> None
      | Some w \<Rightarrow> if workspaceHasOperatorEntitlement entitlementsRequired (pw_id w) now db then Some w else None)"

text \<open>\<open>resolveService\<close> of the HTTP gateway, and the scope of a publication.\<close>

definition resolve_http_service :: "bool \<Rightarrow> string \<Rightarrow> int \<Rightarrow> cloud_db \<Rightarrow> published_service option" where
  "resolve_http_service entitlementsRequired slug now db =
     (case getPublishedServiceBySlug slug now db of
        None \<Rightarrow> None
      | Some service \<Rightarrow>
          if workspaceHasOperatorEntitlement entitlementsRequired (psv_workspaceId service) now db
          then Some service else None)"

definition assigned_worker :: "personal_workspace \<Rightarrow> string option" where
  "assigned_worker w = (case pw_workerHostId w of None \<Rightarrow> None | Some h \<Rightarrow> if h = [] then None else Some h)"

definition resolve_connection_scope :: "published_service \<Rightarrow> cloud_db \<Rightarrow> connection_scope option" where
  "resolve_connection_scope publication db =
     (case getWorkspaceById (psv_workspaceId publication) db of
        None \<Rightarrow> None
      | Some w \<Rightarrow> map_option (\<lambda>h. \<lparr>sc_workerId = h, sc_organizationId = pw_organizationId w,
                                   sc_routeId = psv_id publication\<rparr>) (assigned_worker w))"

text \<open>\<open>resolveRoute\<close> of the TCP ingress; a missing control throws, which ends the connection like no route.\<close>

definition resolve_tcp_route :: "bool \<Rightarrow> int \<Rightarrow> cloud_db \<Rightarrow> int \<Rightarrow> db_error + ingress_route option" where
  "resolve_tcp_route entitlementsRequired now db port =
     sbind (isPlatformControlPaused ''publication'' db) (\<lambda>paused.
     if paused then Inr None
     else case getPublishedServiceByIngressPort (JInt port) now db of
       None \<Rightarrow> Inr None
     | Some service \<Rightarrow>
         if \<not> workspaceHasOperatorEntitlement entitlementsRequired (psv_workspaceId service) now db then Inr None
         else case getWorkspaceById (psv_workspaceId service) db of
           None \<Rightarrow> Inr None
         | Some w \<Rightarrow> Inr (map_option (\<lambda>h.
               \<lparr>ir_routeId = psv_id service, ir_ingressPort = port, ir_workspaceId = psv_workspaceId service,
                ir_organizationId = pw_organizationId w, ir_workerId = h, ir_targetPort = psv_targetPort service\<rparr>)
               (assigned_worker w)))"

text \<open>\<open>desiredPorts\<close> of the reconciler.\<close>

definition desired_ports :: "int \<Rightarrow> cloud_db \<Rightarrow> db_error + int list" where
  "desired_ports now db =
     (let services = listTCPPublishedServices now db in
      if \<exists>s \<in> set services. psv_ingressPort s = None then Inl (JsError ''TCP publication has no ingress port'')
      else Inr (map (\<lambda>s. the (psv_ingressPort s)) services))"

section \<open>Publishing and disconnecting\<close>

record publish_request =
  pq_workspaceId :: string
  pq_name :: string
  pq_protocol :: service_protocol
  pq_port :: js_num
  pq_visibility :: service_visibility
  pq_ttlSeconds :: "int option"
  pq_preserveAccessPolicy :: bool

text \<open>What a call takes from the random generator and the clock.\<close>

record fresh_values =
  fr_id :: string
  fr_slug :: string
  fr_token :: string
  fr_eventId :: string
  fr_now :: int
  fr_auditAt :: int

fun protocol_text :: "service_protocol \<Rightarrow> string" where
  "protocol_text ProtoHttp = ''http''"
| "protocol_text ProtoTcp = ''tcp''"

fun visibility_text :: "service_visibility \<Rightarrow> string" where
  "visibility_text VisPublic = ''public''"
| "visibility_text VisPrivate = ''private''"

fun auth_text :: "service_auth \<Rightarrow> string" where
  "auth_text AuthNone = ''none''"
| "auth_text AuthToken = ''token''"

definition access_token :: "publish_request \<Rightarrow> fresh_values \<Rightarrow> string option" where
  "access_token req fresh =
     (if pq_visibility req = VisPrivate \<and> \<not> pq_preserveAccessPolicy req then Some (fr_token fresh) else None)"

definition access_token_hash ::
  "(string \<Rightarrow> string) \<Rightarrow> publish_request \<Rightarrow> published_service option \<Rightarrow> string option \<Rightarrow> string option"
where
  "access_token_hash sha256 req previous token =
     (if pq_visibility req = VisPrivate then
        (if pq_preserveAccessPolicy req
         then (case previous of None \<Rightarrow> None | Some p \<Rightarrow> psv_accessTokenHash p)
         else (case token of None \<Rightarrow> None | Some t \<Rightarrow> if t = [] then None else Some (sha256 t)))
      else None)"

definition publication_input :: "serving_config \<Rightarrow> publish_request \<Rightarrow> fresh_values \<Rightarrow> string option \<Rightarrow> publish_input" where
  "publication_input cfg req fresh tokenHash =
     \<lparr>pui_id = fr_id fresh, pui_workspaceId = pq_workspaceId req, pui_name = pq_name req, pui_slug = fr_slug fresh,
      pui_protocol = Some (protocol_text (pq_protocol req)), pui_targetPort = pq_port req,
      pui_visibility = visibility_text (pq_visibility req),
      pui_authPolicy = (if pq_visibility req = VisPrivate then ''token'' else ''none''),
      pui_accessTokenHash = tokenHash,
      pui_expiresAt = map_option (\<lambda>ttl. JInt (fr_now fresh + ttl * 1000)) (pq_ttlSeconds req),
      pui_tcpIngressPortMinimum = Some (sv_tcpIngressPortMinimum cfg),
      pui_tcpIngressPortMaximum = Some (sv_tcpIngressPortMaximum cfg),
      pui_maximumActive = Some (sv_workspacePublicationLimit cfg),
      pui_maximumOrganizationActive = Some (sv_organizationPublicationLimit cfg)\<rparr>"

definition publication_audit :: "string \<Rightarrow> workspace_owner \<Rightarrow> published_service \<Rightarrow> audit_options" where
  "publication_audit action owner publication =
     \<lparr>ao_userId = wo_userId owner, ao_organizationId = wo_organizationId owner, ao_eventId = None,
      ao_action = action, ao_targetType = ''published_service'', ao_targetId = psv_id publication,
      ao_result = None, ao_sourceIpHash = None,
      ao_metadata =
        [(''name'', MetaString (psv_name publication)),
         (''protocol'', MetaString (protocol_text (psv_protocol publication))),
         (''targetPort'', MetaNumber (show_int (psv_targetPort publication))),
         (''visibility'', MetaString (visibility_text (psv_visibility publication))),
         (''authPolicy'', MetaString (auth_text (psv_authPolicy publication))),
         (''expiresAt'', case psv_expiresAt publication of None \<Rightarrow> MetaNull | Some e \<Rightarrow> MetaNumber (show_int e))]\<rparr>"

text \<open>The listener of the port a republished service no longer uses.\<close>

definition drop_previous_port :: "published_service option \<Rightarrow> published_service \<Rightarrow> unit cpop" where
  "drop_previous_port previous publication =
     (case previous of
        None \<Rightarrow> oreturn ()
      | Some p \<Rightarrow>
          (case psv_ingressPort p of
             None \<Rightarrow> oreturn ()
           | Some port \<Rightarrow>
               if psv_protocol p = ProtoTcp
                  \<and> (psv_protocol publication \<noteq> ProtoTcp \<or> psv_ingressPort publication \<noteq> Some port)
               then deactivate_tcp port else oreturn ()))"

text \<open>A TCP publication that cannot be listened on is taken back.\<close>

definition open_publication :: "(int \<Rightarrow> string option) \<Rightarrow> publish_request \<Rightarrow> int \<Rightarrow> published_service \<Rightarrow> unit cpop" where
  "open_publication listen req now publication s =
     (if psv_protocol publication \<noteq> ProtoTcp then (Inr (), s)
      else
        let revoke = with_db (revokePublishedService (pq_workspaceId req) (pq_name req) now) in
        case (psv_ingressPort publication, cp_ingress s) of
          (Some port, Some _) \<Rightarrow> ocatch (activate_tcp listen port) (\<lambda>e. obind revoke (\<lambda>_. othrow e)) s
        | _ \<Rightarrow> obind revoke (\<lambda>_. othrow (JsError ''TCP publication ingress could not be allocated'')) s)"

definition publishWorkspaceService ::
  "serving_config \<Rightarrow> (string \<Rightarrow> string) \<Rightarrow> (int \<Rightarrow> string option) \<Rightarrow> publish_request \<Rightarrow> fresh_values
     \<Rightarrow> (published_service \<times> string option) cpop"
where
  "publishWorkspaceService cfg sha256 listen req fresh =
     obind (with_db (oread (isPlatformControlPaused ''publication''))) (\<lambda>paused.
     if paused then othrow (PlatformControlPausedError ''publication'')
     else
     obind (oget (\<lambda>s. cp_ingress s = None)) (\<lambda>disabled.
     if pq_protocol req = ProtoTcp \<and> disabled then othrow (JsError ''TCP ingress is not enabled'')
     else
     obind (with_db (oget (getWorkspaceOwnerIdentity (pq_workspaceId req)))) (\<lambda>found.
     case found of
       None \<Rightarrow> othrow (JsError ''Workspace owner was not found'')
     | Some owner \<Rightarrow>
     obind (with_db (oread (getPublishedServiceByName (pq_workspaceId req) (pq_name req)))) (\<lambda>previous.
     let token = access_token req fresh in
     obind (with_db (upsertPublishedService
       (publication_input cfg req fresh (access_token_hash sha256 req previous token)) (fr_now fresh))) (\<lambda>publication.
     obind (drop_previous_port previous publication) (\<lambda>_.
     obind (open_publication listen req (fr_now fresh) publication) (\<lambda>_.
     obind (with_db (recordAuditEvent (publication_audit ''workspace.service_published'' owner publication)
       (fr_eventId fresh) (fr_auditAt fresh))) (\<lambda>_.
     oreturn (publication, case token of None \<Rightarrow> None | Some t \<Rightarrow> if t = [] then None else Some t)))))))))"

definition close_tcp :: "published_service \<Rightarrow> unit cpop" where
  "close_tcp publication =
     (case psv_ingressPort publication of
        Some port \<Rightarrow> if psv_protocol publication = ProtoTcp then deactivate_tcp port else oreturn ()
      | None \<Rightarrow> oreturn ())"

definition disconnectWorkspaceService :: "string \<Rightarrow> string \<Rightarrow> int \<Rightarrow> string \<Rightarrow> int \<Rightarrow> bool cpop" where
  "disconnectWorkspaceService workspaceId name now eventId auditAt =
     obind (with_db (oget (getWorkspaceOwnerIdentity workspaceId))) (\<lambda>found.
     case found of
       None \<Rightarrow> oreturn False
     | Some owner \<Rightarrow>
     obind (with_db (revokePublishedService workspaceId name now)) (\<lambda>revoked.
     case revoked of
       None \<Rightarrow> oreturn False
     | Some publication \<Rightarrow>
     obind (close_tcp publication) (\<lambda>_.
     obind (with_db (recordAuditEvent (publication_audit ''workspace.service_revoked'' owner publication)
       eventId auditAt)) (\<lambda>_.
     oreturn True))))"

section \<open>Operations on the publications of an organization\<close>

record service_urls =
  su_origin :: "published_service_origin option"
  su_publicAppURL :: string
  su_tcpIngressHost :: string

definition public_url :: "service_urls \<Rightarrow> published_service \<Rightarrow> db_error + string" where
  "public_url urls service =
     (if psv_protocol service = ProtoTcp
      then Inr (''tcp://'' @ su_tcpIngressHost urls @ '':'' @
             (case psv_ingressPort service of None \<Rightarrow> ''null'' | Some p \<Rightarrow> show_int p))
      else publishedServiceURL (su_origin urls) (su_publicAppURL urls) (psv_slug service))"

datatype publication_state = PubActive | PubRevoked | PubExpired

record organization_publication =
  opn_service :: published_service
  opn_publicUrl :: string
  opn_operatorName :: string
  opn_operatorEmail :: string
  opn_state :: publication_state

definition organizationPublishedServiceSummary ::
  "service_urls \<Rightarrow> int \<Rightarrow> organization_published_service \<Rightarrow> db_error + organization_publication"
where
  "organizationPublishedServiceSummary urls now e =
     (let publication = ops_publication e;
          state = (if psv_state publication = ServiceRevoked then PubRevoked
                   else case psv_expiresAt publication of
                     None \<Rightarrow> PubActive | Some x \<Rightarrow> if x \<le> now then PubExpired else PubActive)
      in sbind (public_url urls publication) (\<lambda>url.
         Inr \<lparr>opn_service = publication, opn_publicUrl = url, opn_operatorName = ops_name e,
              opn_operatorEmail = ops_email e, opn_state = state\<rparr>))"

text \<open>\<open>Math.round\<close> of a quotient by a thousand, bounded by five minutes and seven days.\<close>

definition reconnect_ttl :: "published_service \<Rightarrow> int option" where
  "reconnect_ttl existing =
     map_option (\<lambda>e. max 300 (min (7 * 24 * 60 * 60) ((e - psv_updatedAt existing + 500) div 1000)))
       (psv_expiresAt existing)"

record connection_input =
  cni_workspaceId :: string
  cni_userId :: string
  cni_organizationId :: string
  cni_name :: string
  cni_connected :: bool

definition setOrganizationPublicationConnected ::
  "serving_config \<Rightarrow> service_urls \<Rightarrow> (string \<Rightarrow> string) \<Rightarrow> (int \<Rightarrow> string option) \<Rightarrow> connection_input \<Rightarrow> fresh_values
     \<Rightarrow> organization_publication option cpop"
where
  "setOrganizationPublicationConnected cfg urls sha256 listen inp fresh =
     obind (with_db (oget (resolveWorkspaceAccess (cni_workspaceId inp) (cni_userId inp) (cni_organizationId inp)))) (\<lambda>workspace.
     if workspace = None then oreturn None
     else
     obind (with_db (oread (getPublishedServiceByName (cni_workspaceId inp) (cni_name inp)))) (\<lambda>found.
     case found of
       None \<Rightarrow> oreturn None
     | Some existing \<Rightarrow>
     obind (if \<not> cni_connected inp
            then obind (disconnectWorkspaceService (cni_workspaceId inp) (cni_name inp) (fr_now fresh) (fr_eventId fresh)
                   (fr_auditAt fresh)) (\<lambda>_. oreturn ())
            else obind (publishWorkspaceService cfg sha256 listen
                   \<lparr>pq_workspaceId = cni_workspaceId inp, pq_name = cni_name inp, pq_protocol = psv_protocol existing,
                    pq_port = JInt (psv_targetPort existing), pq_visibility = psv_visibility existing,
                    pq_ttlSeconds = reconnect_ttl existing, pq_preserveAccessPolicy = True\<rparr> fresh) (\<lambda>_. oreturn ())) (\<lambda>_.
     obind (with_db (oread (listOrganizationPublishedServices (cni_userId inp) (cni_organizationId inp)))) (\<lambda>entries.
     case find (\<lambda>e. psv_workspaceId (ops_publication e) = cni_workspaceId inp
                  \<and> psv_name (ops_publication e) = cni_name inp) entries of
       None \<Rightarrow> oreturn None
     | Some updated \<Rightarrow>
         obind (olift (organizationPublishedServiceSummary urls (fr_auditAt fresh) updated)) (\<lambda>summary.
         oreturn (Some summary))))))"

text \<open>The kill switch of an organization: its TCP listeners close with its publications.\<close>

fun close_all :: "published_service list \<Rightarrow> unit cpop" where
  "close_all [] = oreturn ()"
| "close_all (p # ps) = obind (close_tcp p) (\<lambda>_. close_all ps)"

definition organization_revocation_audit :: "string \<Rightarrow> string \<Rightarrow> string \<Rightarrow> published_service list \<Rightarrow> operation_audit_input" where
  "organization_revocation_audit organizationId actor reason publications =
     \<lparr>opi_actor = actor, opi_action = ''organization.publications_revoked'', opi_targetType = ''organization'',
      opi_targetId = organizationId, opi_result = None,
      opi_metadata =
        [(''reason'', MetaString reason),
         (''revokedServices'', MetaNumber (show_nat (length publications))),
         (''tcpServices'', MetaNumber (show_nat (length (filter (\<lambda>p. psv_protocol p = ProtoTcp) publications))))],
      opi_eventId = None\<rparr>"

definition revokeOrganizationPublications ::
  "string \<Rightarrow> string \<Rightarrow> string \<Rightarrow> js_num \<Rightarrow> js_num \<Rightarrow> string \<Rightarrow> nat cpop"
where
  "revokeOrganizationPublications organizationId actor reason now auditAt eventId =
     obind (with_db (revokeOrganizationPublishedServices organizationId now)) (\<lambda>publications.
     obind (close_all publications) (\<lambda>_.
     obind (with_db (recordPlatformOperationAuditEvent
       (organization_revocation_audit organizationId actor reason publications) auditAt eventId)) (\<lambda>_.
     oreturn (length publications))))"

section \<open>Running the operations\<close>

lemma with_db_Inr: "with_db m s = (Inr x, t) \<longleftrightarrow> (\<exists>d. m (cp_db s) = (Inr x, d) \<and> t = s\<lparr>cp_db := d\<rparr>)"
  by (auto simp: with_db_def split: prod.splits)

lemma with_db_Inl: "with_db m s = (Inl e, t) \<longleftrightarrow> (\<exists>d. m (cp_db s) = (Inl e, d) \<and> t = s\<lparr>cp_db := d\<rparr>)"
  by (auto simp: with_db_def split: prod.splits)

lemma revokePublishedService_Inr:
  assumes "revokePublishedService w n now s = (Inr (Some sv), t)" and "publications_ok s"
  obtains name r where "publishedServiceName n = Inr name" and "findService (trim w) name t = Some r"
    and "sv = toPublishedService r" and "ps_state r = ServiceRevoked" and "publications_ok t"
proof -
  from assms(1) obtain name r0 where name: "publishedServiceName n = Inr name" and r0: "findService (trim w) name s = Some r0"
    and cases: "(ps_state r0 = ServiceActive \<and> (\<exists>k. update_in published_services set_published_services published_service_schema
        (\<lambda>x. (ps_workspace_id x, ps_name x) = (trim w, name)) (revoked_row now) s = (Inr k, t)))
      \<or> (ps_state r0 \<noteq> ServiceActive \<and> t = s)"
    and sv: "map_option toPublishedService (findService (trim w) name t) = Some sv"
    by (auto simp: revokePublishedService_def publishedServiceText_Inr operation_defs split: option.splits if_splits)
  from sv obtain r where r: "findService (trim w) name t = Some r" "sv = toPublishedService r" by auto
  from cases have "ps_state r = ServiceRevoked \<and> publications_ok t"
  proof
    assume "ps_state r0 = ServiceActive \<and> (\<exists>k. update_in published_services set_published_services published_service_schema
        (\<lambda>x. (ps_workspace_id x, ps_name x) = (trim w, name)) (revoked_row now) s = (Inr k, t))"
    then obtain k where up: "update_in published_services set_published_services published_service_schema
        (\<lambda>x. (ps_workspace_id x, ps_name x) = (trim w, name)) (revoked_row now) s = (Inr k, t)" by blast
    have ok: "publications_ok t"
      using keepsD [OF ps_tbl.update_keeps_schema _ up] assms(2) by (simp add: publications_ok_def)
    have "findService (trim w) name t = map_option (revoked_row now) (findService (trim w) name s)"
      unfolding findService_def ps_tbl.update_rows [OF up]
      by (rule find_keyed_update) (simp add: revoked_row_def)
    with r r0 ok show ?thesis by (auto simp: revoked_row_def)
  next
    assume "ps_state r0 \<noteq> ServiceActive \<and> t = s"
    with r r0 assms(2) show ?thesis by (cases "ps_state r0") auto
  qed
  with name r that show ?thesis by blast
qed

text \<open>Only the audit log changes with an audit event.\<close>

lemma audited:
  assumes "recordAuditEvent opts i at s = (Inr e, t)"
  shows "published_services t = published_services s" "workspaces t = workspaces s"
    "platform_controls t = platform_controls s"
  using recordAuditEvent_Inr(2) [OF assms] by (auto simp: set_audit_events_def)

lemma disconnect_Inr:
  assumes "disconnectWorkspaceService wid name now ev at s = (Inr True, t)"
  obtains sv d where "revokePublishedService wid name now (cp_db s) = (Inr (Some sv), d)"
    and "published_services (cp_db t) = published_services d"
    and "cp_ingress t = (case psv_ingressPort sv of
           Some p \<Rightarrow> if psv_protocol sv = ProtoTcp then map_option (deactivate_port p) (cp_ingress s) else cp_ingress s
         | None \<Rightarrow> cp_ingress s)"
  using assms
  by (auto simp: disconnectWorkspaceService_def with_db_Inr close_tcp_def deactivate_tcp_def operation_defs
      split: option.splits if_splits dest!: audited(1))

lemma same_slug:
  assumes "publications_ok s" and "r \<in> set (published_services s)" and "x \<in> set (published_services s)"
    and "ps_slug r = ps_slug x"
  shows "r = x"
  by (rule schema_ok_same_key [where u = "(''published_service.slug'', \<lambda>r. Some [SText (ps_slug r)])"])
    (use assms in \<open>auto simp: publications_ok_def published_service_schema_def\<close>)

lemma publications_ok_cong: "published_services t = published_services s \<Longrightarrow> publications_ok t = publications_ok s"
  by (simp add: publications_ok_def)

lemma revoked_not_desired:
  assumes "publications_ok s" and "r \<in> set (published_services s)" and "ps_state r = ServiceRevoked"
    and "ps_ingress_port r = Some p" and "desired_ports now s = Inr ports"
  shows "p \<notin> set ports"
proof
  assume "p \<in> set ports"
  with assms(5) obtain x where x: "x \<in> set (published_services s)" "live_service now x" "the (ps_ingress_port x) = p"
    and "ps_ingress_port x \<noteq> None"
    by (auto simp: desired_ports_def Let_def listTCPPublishedServices_def toPublishedService_def split: if_splits)
  then have "ps_ingress_port x = Some p" by auto
  from publications_ok_same_port [OF assms(1,2) x(1) assms(4) this] x(2) assms(3)
  show False by (simp add: live_service_def)
qed

section \<open>Properties\<close>


lemma open_publication_Inr:
  assumes "open_publication listen req now sv s = (Inr u, t)"
  shows "(psv_protocol sv \<noteq> ProtoTcp \<and> t = s)
    \<or> (\<exists>p ti ti'. psv_ingressPort sv = Some p \<and> cp_ingress s = Some ti \<and> activate_port listen p ti = (Inr (), ti')
         \<and> t = s\<lparr>cp_ingress := Some ti'\<rparr>)"
proof (cases "psv_protocol sv = ProtoTcp")
  case True
  then obtain p ti where port: "psv_ingressPort sv = Some p" "cp_ingress s = Some ti"
    using assms by (auto simp: open_publication_def Let_def operation_defs obind_eq_Inr split: option.splits)
  obtain a ti' where run: "activate_port listen p ti = (a, ti')" by fastforce
  with assms True port have "a = Inr ()" "t = s\<lparr>cp_ingress := Some ti'\<rparr>"
    by (auto simp: open_publication_def Let_def ocatch_def activate_tcp_def obind_def operation_defs
        split: sum.splits prod.splits)
  with port run show ?thesis by blast
qed (use assms in \<open>simp add: open_publication_def\<close>)

lemma drop_previous_port_Inr:
  "drop_previous_port previous sv s = (Inr u, t) \<Longrightarrow> cp_db t = cp_db s \<and> (cp_ingress t = None) = (cp_ingress s = None)"
  by (auto simp: drop_previous_port_def deactivate_tcp_def operation_defs split: option.splits if_splits)

lemma publishWorkspaceService_steps:
  assumes "publishWorkspaceService cfg sha256 listen req fresh s = (Inr (sv, token), t)"
  shows "\<exists>owner previous d s1 s2 ev d2. isPlatformControlPaused ''publication'' (cp_db s) = Inr False
    \<and> upsertPublishedService (publication_input cfg req fresh
        (access_token_hash sha256 req previous (access_token req fresh))) (fr_now fresh) (cp_db s) = (Inr sv, d)
    \<and> drop_previous_port previous sv (s\<lparr>cp_db := d\<rparr>) = (Inr (), s1)
    \<and> open_publication listen req (fr_now fresh) sv s1 = (Inr (), s2)
    \<and> recordAuditEvent (publication_audit ''workspace.service_published'' owner sv)
        (fr_eventId fresh) (fr_auditAt fresh) (cp_db s2) = (Inr ev, d2)
    \<and> t = s2\<lparr>cp_db := d2\<rparr>"
  using assms
  by (auto simp: publishWorkspaceService_def with_db_Inr operation_defs Let_def split: if_splits option.splits) blast+

text \<open>Publications and audit events leave what the joins of the routes read.\<close>

lemma lookups_put [simp]:
  "serving_workspace w (set_published_services rows db) = serving_workspace w db"
  "serving_workspace w (set_audit_events es db) = serving_workspace w db"
  "getWorkspaceById w (set_published_services rows db) = getWorkspaceById w db"
  "getWorkspaceById w (set_audit_events es db) = getWorkspaceById w db"
  "hasActiveOperatorEntitlement m g n (set_published_services rows db) = hasActiveOperatorEntitlement m g n db"
  "hasActiveOperatorEntitlement m g n (set_audit_events es db) = hasActiveOperatorEntitlement m g n db"
  "isPlatformControlPaused c (set_published_services rows db) = isPlatformControlPaused c db"
  "isPlatformControlPaused c (set_audit_events es db) = isPlatformControlPaused c db"
  "published_services (set_audit_events es db) = published_services db"
  "enabled_owner v (set_published_services rows db) = enabled_owner v db"
  by (simp_all add: serving_workspace_def enabled_owner_def getWorkspaceById_def findWorkspace_def hasActiveOperatorEntitlement_def
      isPlatformControlPaused_def getPlatformControl_def findControl_def member_disabled_def
      set_published_services_def set_audit_events_def)

lemma entitlement_put [simp]:
  "workspaceHasOperatorEntitlement b w n (set_published_services rows db) = workspaceHasOperatorEntitlement b w n db"
  "workspaceHasOperatorEntitlement b w n (set_audit_events es db) = workspaceHasOperatorEntitlement b w n db"
  by (simp_all add: workspaceHasOperatorEntitlement_def split: option.split)

lemma upsertPublishedService_row:
  assumes "upsertPublishedService inp now s = (Inr sv, d)" and "publications_ok s"
  obtains row rows where "d = set_published_services rows s" and "publications_ok d" and "row \<in> set rows"
    and "sv = toPublishedService row" and "ps_workspace_id row = trim (pui_workspaceId inp)"
    and "live_service now row" and "parse_protocol (pui_protocol inp) = Some (ps_protocol row)"
proof -
  from assms(1) obtain i name slug tp ma mo protocol where protocol: "parse_protocol (pui_protocol inp) = Some protocol"
    and run: "publish inp i (trim (pui_workspaceId inp)) name slug protocol tp (trim_or_null (pui_accessTokenHash inp)) ma mo now s = (Inr sv, d)"
    using upsertPublishedService_Inr by metis
  from run obtain port access expiresAt n row where ttl: "check_ttl (pui_expiresAt inp) now = Inr expiresAt"
    and up: "upsert_service (service_row i (trim (pui_workspaceId inp)) name slug protocol tp port access
      (trim_or_null (pui_accessTokenHash inp)) expiresAt now) s = (Inr n, d)"
    and row: "findService (trim (pui_workspaceId inp)) name d = Some row" "sv = toPublishedService row"
    by (rule publish_Inr)
  have ok: "publications_ok d" using keepsD [OF upsert_service_keeps_ok assms(2) up] .
  have d: "d = set_published_services (published_services d) s"
    using upsert_service_Inr [OF up] by (auto simp: set_published_services_def)
  have "now < e" if "expiresAt = Some e" for e using ttl check_ttl_Inr that by blast
  then have "live_service now row" "ps_protocol row = protocol"
    using upsert_service_found [OF up] row(1) by (auto simp: live_service_def split: option.splits)
  with d ok row findService_SomeD [OF row(1)] protocol that show ?thesis by blast
qed

lemma served_by_port:
  assumes "publications_ok db" and "r \<in> set (published_services db)" and "ps_protocol r = ProtoTcp"
    and "live_service now r" and "serving_workspace (ps_workspace_id r) db"
  obtains p where "ps_ingress_port r = Some p"
    and "getPublishedServiceByIngressPort (JInt p) now db = Some (toPublishedService r)"
proof -
  have "row_ok published_service_schema x" if "x \<in> set (published_services db)" for x
    using assms(1) that by (simp add: publications_ok_def schema_ok_def)
  with assms(2) have "ingress_port_check r" by (simp add: row_ok_iff published_service_schema_def)
  with assms(3) obtain p where p: "ps_ingress_port r = Some p" "1024 \<le> p" "p \<le> 65535"
    by (auto simp: ingress_port_check_def split: option.splits)
  let ?P = "\<lambda>x. ps_protocol x = ProtoTcp \<and> ps_ingress_port x = Some p \<and> live_service now x
    \<and> serving_workspace (ps_workspace_id x) db"
  obtain x where x: "find ?P (published_services db) = Some x" using find_ex [OF assms(2), of ?P] assms p by auto
  from find_SomeD [OF x] publications_ok_same_port [OF assms(1) assms(2) _ p(1)] have "x = r" by blast
  with x p have "getPublishedServiceByIngressPort (JInt p) now db = Some (toPublishedService r)"
    by (simp add: getPublishedServiceByIngressPort_def is_safe_int_def MAX_SAFE_INTEGER_def)
  with p(1) that show ?thesis by blast
qed

lemma desired_port:
  assumes "publications_ok db" and "r \<in> set (published_services db)" and "ps_protocol r = ProtoTcp"
    and "live_service now r" and "ps_ingress_port r = Some p"
  shows "\<exists>ports. desired_ports now db = Inr ports \<and> p \<in> set ports"
proof -
  have "ingress_port_check x" if "x \<in> set (published_services db)" for x
    using assms(1) that by (simp add: publications_ok_def schema_ok_def row_ok_iff published_service_schema_def)
  then have "ps_ingress_port x \<noteq> None" if "x \<in> set (published_services db)" "ps_protocol x = ProtoTcp" for x
    using that by (cases "ps_ingress_port x") (force simp: ingress_port_check_def)+
  then have "desired_ports now db = Inr (map (\<lambda>s. the (psv_ingressPort s)) (listTCPPublishedServices now db))"
    by (auto simp: desired_ports_def Let_def listTCPPublishedServices_def toPublishedService_def)
  moreover have "toPublishedService r \<in> set (listTCPPublishedServices now db)"
    using assms by (simp add: listTCPPublishedServices_def)
  ultimately show ?thesis using assms(5) by (force simp: toPublishedService_def)
qed


text \<open>While publication is paused, nothing is published and no TCP connection is routed: publishing fails without
  effect, whatever the request, and every port resolves to no route.\<close>

theorem paused_publication_serves_nothing:
  assumes "isPlatformControlPaused ''publication'' (cp_db s) = Inr True"
  shows "publishWorkspaceService cfg sha256 listen req fresh s = (Inl (PlatformControlPausedError ''publication''), s)
    \<and> resolve_tcp_route required now (cp_db s) port = Inr None"
  using assms by (simp add: publishWorkspaceService_def with_db_def obind_def operation_defs resolve_tcp_route_def)

text \<open>Reconnecting a service does not restore its lifetime: the lifetime is counted from the last change of the row,
  which disconnecting sets to its own time, so a service that lived two hours of a day when it was disconnected gets
  no more than the remaining twenty-two on reconnection, and one whose day is over gets five minutes.\<close>

theorem reconnecting_shortens_lifetime:
  assumes "revokePublishedService w n now s = (Inr (Some sv), t)" and "findService (trim w) name s = Some r"
    and "publishedServiceName n = Inr name" and "ps_state r = ServiceActive" and "ps_expires_at r = Some e"
  shows "reconnect_ttl sv = Some (max 300 (min 604800 ((e - now + 500) div 1000)))"
proof -
  from assms obtain k where up: "update_in published_services set_published_services published_service_schema
        (\<lambda>x. (ps_workspace_id x, ps_name x) = (trim w, name)) (revoked_row now) s = (Inr k, t)"
    and sv: "map_option toPublishedService (findService (trim w) name t) = Some sv"
    by (auto simp: revokePublishedService_def publishedServiceText_Inr operation_defs split: option.splits if_splits)
  have "findService (trim w) name t = map_option (revoked_row now) (findService (trim w) name s)"
    unfolding findService_def ps_tbl.update_rows [OF up] by (rule find_keyed_update) (simp add: revoked_row_def)
  with sv assms(2) have "sv = toPublishedService (revoked_row now r)" by simp
  with assms(5) show ?thesis by (simp add: reconnect_ttl_def toPublishedService_def revoked_row_def)
qed

section \<open>The properties on a concrete control plane\<close>

definition plane_db :: cloud_db where
  "plane_db = publishing_db\<lparr>workspaces := [(new_workspace ''w1'' ''m1'' ''o1'' 5)\<lparr>ws_state := WsReady, ws_worker_host_id := Some ''h1''\<rparr>]\<rparr>"

definition sample_plane :: control_plane where
  "sample_plane = \<lparr>cp_db = plane_db, cp_ingress = Some (new_ingress sample_limits sample_bandwidth)\<rparr>"

definition sample_config :: serving_config where
  "sample_config = \<lparr>sv_entitlementsRequired = False, sv_tcpIngressPortMinimum = JInt 20000, sv_tcpIngressPortMaximum = JInt 20001,
     sv_workspacePublicationLimit = JInt 2, sv_organizationPublicationLimit = JInt 3\<rparr>"

definition sample_fresh :: fresh_values where
  "sample_fresh = \<lparr>fr_id = ''p1'', fr_slug = ''s1'', fr_token = ''t'', fr_eventId = ''e1'', fr_now = 10, fr_auditAt = 11\<rparr>"

definition sample_request :: publish_request where
  "sample_request = \<lparr>pq_workspaceId = ''w1'', pq_name = ''db'', pq_protocol = ProtoTcp, pq_port = JInt 5432,
     pq_visibility = VisPublic, pq_ttlSeconds = Some 600, pq_preserveAccessPolicy = False\<rparr>"

definition sample_input :: publish_input where
  "sample_input = publication_input sample_config sample_request sample_fresh None"

lemma owner_found: "getWorkspaceOwnerIdentity ''w1'' plane_db = Some \<lparr>wo_workspaceId = ''w1'', wo_userId = ''u1'', wo_organizationId = ''o1''\<rparr>"
  by (simp add: getWorkspaceOwnerIdentity_def enabled_owner_def plane_db_def publishing_db_def sample_db_def empty_db_def new_workspace_def trim_def js_space_def member_disabled_def)

lemma not_paused: "isPlatformControlPaused ''publication'' plane_db = Inr False"
  by (simp add: isPlatformControlPaused_def getPlatformControl_def requirePlatformControlName_def findControl_def plane_db_def publishing_db_def sample_db_def empty_db_def control_text_def toPlatformControl_def)


definition web_row :: published_service_row where
  "web_row = service_row ''p1'' ''w1'' ''db'' ''s1'' ProtoTcp 5432 (Some 20000) (VisPublic, AuthNone) None (Some 600010) 10"

definition sample_service :: published_service where
  "sample_service = toPublishedService web_row"

definition audited_service :: "string \<Rightarrow> audit_options" where
  "audited_service action = publication_audit action \<lparr>wo_workspaceId = ''w1'', wo_userId = ''u1'', wo_organizationId = ''o1''\<rparr> sample_service"

lemma upsert_runs: "upsertPublishedService sample_input 10 plane_db = (Inr sample_service, set_published_services [web_row] plane_db)"
  by (simp add: sample_input_def publication_input_def sample_config_def sample_request_def sample_fresh_def plane_db_def
     publish_run sample_run new_workspace_def toPublishedService_def Let_def less_eq_char_def sample_service_def web_row_def)

lemma shown: "length (show_nat 600010) = 6" "length (show_nat 5432) = 4"
  by (simp_all add: show_nat.simps)

lemma metadata_runs: "\<exists>m. serializeAuditMetadata (ao_metadata (audited_service a)) = Inr m"
  by (simp add: audited_service_def publication_audit_def sample_service_def web_row_def service_row_def toPublishedService_def
    serializeAuditMetadata_def Let_def locale_key_def collation_weight_def is_digit_def is_lower_letter_def is_upper_letter_def less_eq_char_def
    auditIdentifierPattern_def is_audit_char_def json_object_bytes_def json_string_bytes_def json_char_bytes_def show_int_def shown)

lemma audit_runs:
  assumes "db = set_published_services rows plane_db" and "a \<in> {''workspace.service_published'', ''workspace.service_revoked''}"
  shows "\<exists>ev d. recordAuditEvent (audited_service a) ''e1'' 11 db = (Inr ev, d)"
proof -
  obtain m where "serializeAuditMetadata (ao_metadata (audited_service a)) = Inr m" using metadata_runs by blast
  with assms show ?thesis
    by (auto simp: recordAuditEvent_def requireEnabledOrganizationMember_def isOrganizationMemberEnabled_def obind_def operation_defs Let_def
      audited_service_def publication_audit_def plane_db_def publishing_db_def sample_db_def empty_db_def set_published_services_def
      requireAuditIdentifier_def auditIdentifierPattern_def is_audit_char_def is_lower_letter_def is_upper_letter_def is_digit_def less_eq_char_def
      sample_service_def web_row_def service_row_def toPublishedService_def trim_or_null_def trim_def js_space_def
      insertAuditEvent_def atomic_def insert_into_def sql_insert_def row_error_def failed_check_def failed_unique_def audit_event_schema_def
      find_organization_def find_user_def find_membership_def member_disabled_def set_audit_events_def)
qed

lemma activates: "activate_port (\<lambda>_. None) 20000 (new_ingress sample_limits sample_bandwidth)
   = (Inr (), (new_ingress sample_limits sample_bandwidth)\<lparr>ti_listeners := [20000]\<rparr>)"
  by (simp add: activate_port_def new_ingress_def)

lemma publish_runs:
  "\<exists>t. publishWorkspaceService sample_config (\<lambda>m. m) (\<lambda>_. None) sample_request sample_fresh sample_plane = (Inr (sample_service, None), t)"
proof -
  obtain ev d where audit: "recordAuditEvent (audited_service ''workspace.service_published'') ''e1'' 11 (set_published_services [web_row] plane_db) = (Inr ev, d)"
    using audit_runs by blast
  have prev: "getPublishedServiceByName ''w1'' ''db'' plane_db = Inr None"
    by (simp add: getPublishedServiceByName_def publishedServiceName_def findService_def plane_db_def publishing_db_def sample_db_def empty_db_def
      toLowerCase_def lower_char_def trim_def js_space_def label_pattern_def is_lower_alnum_def is_lower_letter_def is_digit_def less_eq_char_def)
  have token: "access_token sample_request sample_fresh = None" "access_token_hash f sample_request None None = None" for f
    by (simp_all add: access_token_def access_token_hash_def sample_request_def)
  have proto: "psv_protocol sample_service = ProtoTcp" "psv_ingressPort sample_service = Some 20000"
    by (simp_all add: sample_service_def web_row_def toPublishedService_def)
  show ?thesis
    using audit upsert_runs [unfolded sample_input_def]
    by (simp add: publishWorkspaceService_def with_db_def obind_def operation_defs sample_plane_def not_paused owner_found
       sample_request_def sample_fresh_def prev token [unfolded sample_request_def sample_fresh_def] drop_previous_port_def
       open_publication_def proto Let_def ocatch_def activate_tcp_def activates audited_service_def)
qed

lemma plane_facts:
  "publications_ok plane_db" "serving_workspace ''w1'' plane_db" "workspaceHasOperatorEntitlement False ''w1'' n plane_db"
  "getWorkspaceById ''w1'' plane_db = Some (toPersonalWorkspace ((new_workspace ''w1'' ''m1'' ''o1'' 5)
     \<lparr>ws_state := WsReady, ws_worker_host_id := Some ''h1''\<rparr>))"
  "assigned_worker (toPersonalWorkspace ((new_workspace ''w1'' ''m1'' ''o1'' 5)
     \<lparr>ws_state := WsReady, ws_worker_host_id := Some ''h1''\<rparr>)) = Some ''h1''"
  by (simp_all add: publications_ok_def serving_workspace_def workspaceHasOperatorEntitlement_def getWorkspaceById_def
      findWorkspace_def assigned_worker_def toPersonalWorkspace_def new_workspace_def plane_db_def publishing_db_def
      sample_db_def empty_db_def member_disabled_def)


definition serving_plane :: control_plane where
  "serving_plane = \<lparr>cp_db = set_published_services [web_row] plane_db,
     cp_ingress = Some ((new_ingress sample_limits sample_bandwidth)\<lparr>ti_listeners := [20000]\<rparr>)\<rparr>"

lemma web_row_ok: "publications_ok (set_published_services [web_row] db)"
  by (simp add: publications_ok_def ps_tbl.get_put row_ok_iff published_service_schema_def web_row_def service_row_def
      ingress_port_check_def access_check_def)

lemma sample_revokes:
  "revokePublishedService ''w1'' ''db'' 20 (set_published_services [web_row] plane_db)
     = (Inr (Some (toPublishedService (revoked_row 20 web_row))), set_published_services [revoked_row 20 web_row] plane_db)"
  by (simp add: revokePublishedService_def publishedServiceText_def publishedServiceName_def findService_def web_row_def
      service_row_def revoked_row_def set_published_services_def obind_def operation_defs Let_def update_in_def sql_update_def
      row_error_def failed_check_def failed_unique_def published_service_schema_def ingress_port_check_def access_check_def
      toLowerCase_def lower_char_def trim_def js_space_def label_pattern_def is_lower_alnum_def is_lower_letter_def
      is_digit_def less_eq_char_def)

lemma disconnect_runs: "\<exists>t. disconnectWorkspaceService ''w1'' ''db'' 20 ''e1'' 11 serving_plane = (Inr True, t)"
proof -
  obtain ev d where audit: "recordAuditEvent (audited_service ''workspace.service_revoked'') ''e1'' 11
      (set_published_services [revoked_row 20 web_row] plane_db) = (Inr ev, d)"
    using audit_runs by blast
  have owner: "getWorkspaceOwnerIdentity ''w1'' (set_published_services rows plane_db)
      = Some \<lparr>wo_workspaceId = ''w1'', wo_userId = ''u1'', wo_organizationId = ''o1''\<rparr>" for rows
  proof -
    have "workspaces (set_published_services rows plane_db) = workspaces plane_db" by (simp add: set_published_services_def)
    with owner_found show ?thesis by (simp add: getWorkspaceOwnerIdentity_def cong: option.case_cong)
  qed
  have same: "publication_audit a w (toPublishedService (revoked_row 20 web_row)) = publication_audit a w sample_service" for a w
    by (simp add: publication_audit_def sample_service_def toPublishedService_def revoked_row_def)
  have port: "psv_ingressPort (toPublishedService (revoked_row 20 web_row)) = Some 20000"
    "psv_protocol (toPublishedService (revoked_row 20 web_row)) = ProtoTcp"
    by (simp_all add: toPublishedService_def revoked_row_def web_row_def)
  show ?thesis
    using audit by (simp add: disconnectWorkspaceService_def with_db_def obind_def operation_defs serving_plane_def owner
        sample_revokes close_tcp_def port deactivate_tcp_def same audited_service_def)
qed


theorem paused_publication_serves_nothing_witness:
  "publishWorkspaceService sample_config (\<lambda>m. m) (\<lambda>_. None) sample_request sample_fresh
     (sample_plane\<lparr>cp_db := plane_db\<lparr>platform_controls := [\<lparr>pc_name = Ctl_publication, pc_paused = 1, pc_reason = ''x'',
        pc_updated_by = ''ops'', pc_updated_at = 3\<rparr>]\<rparr>\<rparr>)
     = (Inl (PlatformControlPausedError ''publication''),
        sample_plane\<lparr>cp_db := plane_db\<lparr>platform_controls := [\<lparr>pc_name = Ctl_publication, pc_paused = 1, pc_reason = ''x'',
        pc_updated_by = ''ops'', pc_updated_at = 3\<rparr>]\<rparr>\<rparr>)"
  by (rule conjunct1 [OF paused_publication_serves_nothing [where required = True and now = 0 and port = 0]])
    (simp add: isPlatformControlPaused_def getPlatformControl_def requirePlatformControlName_def findControl_def
      control_text_def toPlatformControl_def)

theorem reconnecting_shortens_lifetime_witness:
  "reconnect_ttl (toPublishedService (revoked_row 20 web_row)) = Some 600"
proof -
  have "findService (trim ''w1'') ''db'' (set_published_services [web_row] plane_db) = Some web_row"
    "publishedServiceName ''db'' = Inr ''db''" "ps_state web_row = ServiceActive" "ps_expires_at web_row = Some 600010"
    by (simp_all add: findService_def web_row_def service_row_def set_published_services_def publishedServiceName_def
        toLowerCase_def lower_char_def trim_def js_space_def label_pattern_def is_lower_alnum_def is_lower_letter_def
        is_digit_def less_eq_char_def Let_def)
  from reconnecting_shortens_lifetime [OF sample_revokes this] show ?thesis by simp
qed

end
