(* ===== verification/Billing.thy ===== *)
theory Billing
  imports Entitlements
begin

text \<open>
  The projection of Stripe into the database: every webhook event is registered once, the
  customer and the subscription of an organization follow the newest event, invoices move the
  payment state, the paid Operator seats follow the subscription, and administrators assign
  and revoke the seats within the purchased quantity.
\<close>

section \<open>Views of the rows\<close>

record stripe_event_record =
  ser_stripeEventId :: string
  ser_type :: string
  ser_eventCreatedAt :: int
  ser_receivedAt :: int
  ser_processingResult :: stripe_result
  ser_processingMessage :: "string option"
  ser_processedAt :: "int option"
  ser_attemptCount :: int

definition toStripeEvent :: "stripe_event_row \<Rightarrow> stripe_event_record" where
  "toStripeEvent row =
     \<lparr>ser_stripeEventId = se_stripe_event_id row, ser_type = se_type row,
      ser_eventCreatedAt = se_event_created_at row, ser_receivedAt = se_received_at row,
      ser_processingResult = se_processing_result row,
      ser_processingMessage = se_processing_message row,
      ser_processedAt = se_processed_at row, ser_attemptCount = se_attempt_count row\<rparr>"

record billing_customer =
  cus_organizationId :: string
  cus_stripeCustomerId :: string
  cus_billingEmail :: "string option"
  cus_country :: "string option"
  cus_lastEventCreatedAt :: int
  cus_lastStripeEventId :: string
  cus_createdAt :: int
  cus_updatedAt :: int

definition toBillingCustomer :: "billing_customer_row \<Rightarrow> billing_customer" where
  "toBillingCustomer row =
     \<lparr>cus_organizationId = bc_organization_id row, cus_stripeCustomerId = bc_stripe_customer_id row,
      cus_billingEmail = bc_billing_email row, cus_country = bc_country row,
      cus_lastEventCreatedAt = bc_last_event_created_at row,
      cus_lastStripeEventId = bc_last_stripe_event_id row,
      cus_createdAt = bc_created_at row, cus_updatedAt = bc_updated_at row\<rparr>"

record billing_subscription =
  sub_organizationId :: string
  sub_stripeSubscriptionId :: string
  sub_stripePriceId :: string
  sub_status :: string
  sub_entitledSeats :: int
  sub_cancelAtPeriodEnd :: bool
  sub_currentPeriodEnd :: "int option"
  sub_paymentState :: payment_state
  sub_graceEndsAt :: "int option"
  sub_lastInvoiceEventCreatedAt :: "int option"
  sub_lastInvoiceEventId :: "string option"
  sub_lastEventCreatedAt :: int
  sub_lastStripeEventId :: string
  sub_createdAt :: int
  sub_updatedAt :: int

definition toBillingSubscription :: "subscription_row \<Rightarrow> billing_subscription" where
  "toBillingSubscription row =
     \<lparr>sub_organizationId = su_organization_id row,
      sub_stripeSubscriptionId = su_stripe_subscription_id row,
      sub_stripePriceId = su_stripe_price_id row, sub_status = su_status row,
      sub_entitledSeats = su_entitled_seats row,
      sub_cancelAtPeriodEnd = (su_cancel_at_period_end row = 1),
      sub_currentPeriodEnd = su_current_period_end row,
      sub_paymentState = su_payment_state row, sub_graceEndsAt = su_grace_ends_at row,
      sub_lastInvoiceEventCreatedAt = su_last_invoice_event_created_at row,
      sub_lastInvoiceEventId = su_last_invoice_event_id row,
      sub_lastEventCreatedAt = su_last_event_created_at row,
      sub_lastStripeEventId = su_last_stripe_event_id row,
      sub_createdAt = su_created_at row, sub_updatedAt = su_updated_at row\<rparr>"

section \<open>Tables\<close>

definition length_between :: "nat \<Rightarrow> nat \<Rightarrow> string \<Rightarrow> bool" where
  "length_between lo hi s \<longleftrightarrow> lo \<le> length s \<and> length s \<le> hi"

definition stripe_event_schema :: "stripe_event_row schema" where
  "stripe_event_schema =
     \<lparr>checks =
        [(''attempt_count >= 0'', \<lambda>e. se_attempt_count e \<ge> 0),
         (''stripe_event_id'', \<lambda>e. length_between 1 255 (se_stripe_event_id e)),
         (''type'', \<lambda>e. length_between 1 255 (se_type e)),
         (''processing_message'', \<lambda>e. case se_processing_message e of None \<Rightarrow> True | Some m \<Rightarrow> length m \<le> 1024),
         (''processed_at'', \<lambda>e. (se_processing_result e = StripePending) = (se_processed_at e = None))],
      uniques = [(''stripe_event.stripe_event_id'', \<lambda>e. Some [SText (se_stripe_event_id e)])]\<rparr>"

definition set_stripe_events :: "stripe_event_row list \<Rightarrow> cloud_db \<Rightarrow> cloud_db" where
  "set_stripe_events rows db = db\<lparr>stripe_events := rows\<rparr>"

interpretation se_tbl: sql_table stripe_events set_stripe_events stripe_event_schema
  by unfold_locales (simp_all add: set_stripe_events_def)

definition billing_customer_schema :: "billing_customer_row schema" where
  "billing_customer_schema =
     \<lparr>checks =
        [(''stripe_customer_id'', \<lambda>c. length_between 1 255 (bc_stripe_customer_id c)),
         (''billing_email'', \<lambda>c. case bc_billing_email c of None \<Rightarrow> True | Some e \<Rightarrow> length_between 1 320 e),
         (''country'', \<lambda>c. case bc_country c of None \<Rightarrow> True | Some k \<Rightarrow> length k = 2)],
      uniques =
        [(''billing_customer.organization_id'', \<lambda>c. Some [SText (bc_organization_id c)]),
         (''billing_customer.stripe_customer_id'', \<lambda>c. Some [SText (bc_stripe_customer_id c)])]\<rparr>"

definition set_billing_customers :: "billing_customer_row list \<Rightarrow> cloud_db \<Rightarrow> cloud_db" where
  "set_billing_customers rows db = db\<lparr>billing_customers := rows\<rparr>"

interpretation bc_tbl: sql_table billing_customers set_billing_customers billing_customer_schema
  by unfold_locales (simp_all add: set_billing_customers_def)

definition subscription_schema :: "subscription_row schema" where
  "subscription_schema =
     \<lparr>checks =
        [(''entitled_seats >= 0'', \<lambda>r. su_entitled_seats r \<ge> 0),
         (''cancel_at_period_end IN (0, 1)'', \<lambda>r. flag_ok (su_cancel_at_period_end r)),
         (''stripe_subscription_id'', \<lambda>r. length_between 1 255 (su_stripe_subscription_id r)),
         (''stripe_price_id'', \<lambda>r. length_between 1 255 (su_stripe_price_id r)),
         (''status'', \<lambda>r. length_between 1 64 (su_status r)),
         (''current_period_end'', \<lambda>r. case su_current_period_end r of None \<Rightarrow> True | Some t \<Rightarrow> t \<ge> 0),
         (''grace_ends_at'', \<lambda>r. case su_grace_ends_at r of None \<Rightarrow> True | Some t \<Rightarrow> t \<ge> 0)],
      uniques =
        [(''subscription.organization_id'', \<lambda>r. Some [SText (su_organization_id r)]),
         (''subscription.stripe_subscription_id'', \<lambda>r. Some [SText (su_stripe_subscription_id r)])]\<rparr>"

definition set_subscriptions :: "subscription_row list \<Rightarrow> cloud_db \<Rightarrow> cloud_db" where
  "set_subscriptions rows db = db\<lparr>subscriptions := rows\<rparr>"

interpretation su_tbl: sql_table subscriptions set_subscriptions subscription_schema
  by unfold_locales (simp_all add: set_subscriptions_def)

section \<open>Events\<close>

definition findStripeEvent :: "string \<Rightarrow> cloud_db \<Rightarrow> stripe_event_row option" where
  "findStripeEvent stripeEventId db = find (\<lambda>e. se_stripe_event_id e = stripeEventId) (stripe_events db)"

definition getStripeEvent :: "string \<Rightarrow> cloud_db \<Rightarrow> db_error + stripe_event_record option" where
  "getStripeEvent stripeEventId db =
     sbind (requiredStripeText stripeEventId ''stripeEventId'' 255) (\<lambda>eventId.
       Inr (map_option toStripeEvent (findStripeEvent eventId db)))"

text \<open>The event of a webhook; \<open>receivedAt\<close> is \<open>input.receivedAt ?? Date.now()\<close>.\<close>

record stripe_event_input =
  sei_stripeEventId :: string
  sei_type :: string
  sei_eventCreatedAt :: js_num
  sei_receivedAt :: js_num

definition new_stripe_event :: "string \<Rightarrow> string \<Rightarrow> int \<Rightarrow> int \<Rightarrow> stripe_event_row" where
  "new_stripe_event stripeEventId type eventCreatedAt receivedAt =
     \<lparr>se_stripe_event_id = stripeEventId, se_type = type, se_event_created_at = eventCreatedAt,
      se_received_at = receivedAt, se_processing_result = StripePending,
      se_processing_message = None, se_processed_at = None, se_attempt_count = 0\<rparr>"

text \<open>\<open>INSERT \<dots> ON CONFLICT(stripe_event_id) DO NOTHING\<close>.\<close>

definition insert_stripe_event :: "stripe_event_row \<Rightarrow> nat dbop" where
  "insert_stripe_event e =
     obind (oget (findStripeEvent (se_stripe_event_id e))) (\<lambda>conflict.
     if conflict \<noteq> None then oreturn 0
     else obind (insert_into stripe_events set_stripe_events stripe_event_schema e) (\<lambda>_. oreturn 1))"

definition registerStripeEvent :: "stripe_event_input \<Rightarrow> (stripe_event_record \<times> bool) dbop" where
  "registerStripeEvent inp =
     obind (olift (requiredStripeText (sei_stripeEventId inp) ''stripeEventId'' 255)) (\<lambda>stripeEventId.
     obind (olift (requiredStripeText (sei_type inp) ''type'' 255)) (\<lambda>type.
     obind (olift (stripeTimestamp (sei_eventCreatedAt inp) ''eventCreatedAt'')) (\<lambda>eventCreatedAt.
     obind (olift (stripeTimestamp (sei_receivedAt inp) ''receivedAt'')) (\<lambda>receivedAt.
     obind (insert_stripe_event (new_stripe_event stripeEventId type eventCreatedAt receivedAt)) (\<lambda>changes.
     obind (oread (getStripeEvent stripeEventId)) (\<lambda>stored.
     case stored of
       None \<Rightarrow> othrow (JsError ''Stripe event could not be resolved'')
     | Some event \<Rightarrow>
         if ser_type event \<noteq> type \<or> ser_eventCreatedAt event \<noteq> eventCreatedAt
         then othrow (JsError ''Stripe event identity conflicts with an existing event'')
         else oreturn (event, changes = 1)))))))"

definition completed_event :: "stripe_result \<Rightarrow> string option \<Rightarrow> int \<Rightarrow> stripe_event_row \<Rightarrow> stripe_event_row" where
  "completed_event processingResult processingMessage processedAt e =
     e\<lparr>se_processing_result := processingResult, se_processing_message := processingMessage,
       se_processed_at := Some processedAt, se_attempt_count := se_attempt_count e + 1\<rparr>"

text \<open>\<open>message.trim().slice(0, 1024) || null\<close>.\<close>

definition event_message :: "string \<Rightarrow> string option" where
  "event_message message = (if take 1024 (trim message) = [] then None else Some (take 1024 (trim message)))"

definition completeStripeEvent :: "string \<Rightarrow> stripe_result \<Rightarrow> string \<Rightarrow> int \<Rightarrow> stripe_event_record dbop" where
  "completeStripeEvent stripeEventId processingResult message processedAt =
     obind (update_in stripe_events set_stripe_events stripe_event_schema
         (\<lambda>e. se_stripe_event_id e = stripeEventId)
         (completed_event processingResult (event_message message) processedAt)) (\<lambda>changes.
     if changes \<noteq> 1 then othrow (JsError ''Stripe event was not found'')
     else
     obind (oread (getStripeEvent stripeEventId)) (\<lambda>event.
     case event of
       None \<Rightarrow> othrow (JsError ''Stripe event could not be resolved'')
     | Some e \<Rightarrow> oreturn e))"

definition settled :: "stripe_event_record \<Rightarrow> bool" where
  "settled event \<longleftrightarrow>
     ser_processingResult event = StripeApplied \<or> ser_processingResult event = StripeIgnored"

definition ignoreStripeEvent ::
  "stripe_event_input \<Rightarrow> string \<Rightarrow> js_num \<Rightarrow> (stripe_event_record \<times> bool) dbop"
where
  "ignoreStripeEvent inp processingMessage now =
     obind (registerStripeEvent inp) (\<lambda>(event, inserted).
     if settled event then oreturn (event, True)
     else
     obind (olift (stripeTimestamp now ''processedAt'')) (\<lambda>processedAt.
     obind (completeStripeEvent (ser_stripeEventId event) StripeIgnored processingMessage processedAt)
       (\<lambda>completed. oreturn (completed, \<not> inserted))))"

definition failStripeEvent :: "stripe_event_input \<Rightarrow> string \<Rightarrow> js_num \<Rightarrow> stripe_event_record dbop" where
  "failStripeEvent inp processingMessage now =
     obind (registerStripeEvent inp) (\<lambda>(event, inserted).
     if settled event then oreturn event
     else
     obind (olift (stripeTimestamp now ''processedAt'')) (\<lambda>processedAt.
     completeStripeEvent (ser_stripeEventId event) StripeFailed processingMessage processedAt))"

section \<open>Reading the projection\<close>

definition findCustomer :: "string \<Rightarrow> cloud_db \<Rightarrow> billing_customer_row option" where
  "findCustomer organizationId db = find (\<lambda>c. bc_organization_id c = organizationId) (billing_customers db)"

definition getBillingCustomer :: "string \<Rightarrow> cloud_db \<Rightarrow> billing_customer option" where
  "getBillingCustomer organizationId db =
     map_option toBillingCustomer (findCustomer (trim organizationId) db)"

definition getBillingCustomerByStripeId :: "string \<Rightarrow> cloud_db \<Rightarrow> db_error + billing_customer option" where
  "getBillingCustomerByStripeId stripeCustomerId db =
     sbind (requiredStripeText stripeCustomerId ''stripeCustomerId'' 255) (\<lambda>i.
       Inr (map_option toBillingCustomer (find (\<lambda>c. bc_stripe_customer_id c = i) (billing_customers db))))"

definition findSubscription :: "string \<Rightarrow> cloud_db \<Rightarrow> subscription_row option" where
  "findSubscription organizationId db = find (\<lambda>r. su_organization_id r = organizationId) (subscriptions db)"

definition getBillingSubscription :: "string \<Rightarrow> cloud_db \<Rightarrow> billing_subscription option" where
  "getBillingSubscription organizationId db =
     map_option toBillingSubscription (findSubscription (trim organizationId) db)"

definition getBillingSubscriptionByStripeId ::
  "string \<Rightarrow> cloud_db \<Rightarrow> db_error + billing_subscription option"
where
  "getBillingSubscriptionByStripeId stripeSubscriptionId db =
     sbind (requiredStripeText stripeSubscriptionId ''stripeSubscriptionId'' 255) (\<lambda>i.
       Inr (map_option toBillingSubscription (find (\<lambda>r. su_stripe_subscription_id r = i) (subscriptions db))))"

section \<open>Seats follow the subscription\<close>

definition stripePaymentGraceDurationMs :: int where
  "stripePaymentGraceDurationMs = 14 * 24 * 60 * 60 * 1000"

definition stripeEntitlementAccess :: "billing_subscription \<Rightarrow> int \<Rightarrow> entitlement_state \<times> int option" where
  "stripeEntitlementAccess subscription now =
     (if sub_paymentState subscription = PayGrace
         \<and> (case sub_graceEndsAt subscription of None \<Rightarrow> False | Some g \<Rightarrow> g > now)
      then (EntGrace, sub_graceEndsAt subscription)
      else if sub_paymentState subscription = PayCurrent
         \<and> (sub_status subscription = ''active'' \<or> sub_status subscription = ''trialing'')
         \<and> (case sub_currentPeriodEnd subscription of None \<Rightarrow> True | Some e \<Rightarrow> e > now)
      then (EntActive, sub_currentPeriodEnd subscription)
      else (EntSuspended, sub_graceEndsAt subscription))"

definition stripe_seat :: "string \<Rightarrow> entitlement_row \<Rightarrow> bool" where
  "stripe_seat organizationId e \<longleftrightarrow>
     en_organization_id e = organizationId \<and> en_source e = SrcStripe \<and> en_state e \<noteq> EntRevoked"

definition reconciled_row :: "billing_subscription \<Rightarrow> int \<Rightarrow> entitlement_row \<Rightarrow> entitlement_row" where
  "reconciled_row subscription now e =
     e\<lparr>en_state := fst (stripeEntitlementAccess subscription now),
       en_ends_at := snd (stripeEntitlementAccess subscription now), en_updated_at := now\<rparr>"

definition reconcileStripeAssignedEntitlements :: "billing_subscription \<Rightarrow> int \<Rightarrow> nat dbop" where
  "reconcileStripeAssignedEntitlements subscription now =
     update_in entitlements set_entitlements entitlement_schema
       (stripe_seat (sub_organizationId subscription)) (reconciled_row subscription now)"

definition assigned_seats :: "string \<Rightarrow> cloud_db \<Rightarrow> nat" where
  "assigned_seats organizationId db = length (filter (stripe_seat organizationId) (entitlements db))"

section \<open>Projecting an event\<close>

text \<open>
  The two projections run after the organization has been found, so its foreign key holds.
  \<open>newer_event\<close> is the condition of the two upserts: creation time first, then the event's
  identifier.
\<close>

definition newer_event :: "int \<Rightarrow> string \<Rightarrow> int \<Rightarrow> string \<Rightarrow> bool" where
  "newer_event createdAt eventId lastCreatedAt lastEventId \<longleftrightarrow>
     createdAt > lastCreatedAt \<or> (createdAt = lastCreatedAt \<and> eventId > lastEventId)"

record customer_input =
  ci_stripeCustomerId :: string
  ci_billingEmail :: "string option"
  ci_country :: "string option"

definition new_customer :: "string \<Rightarrow> string \<Rightarrow> int \<Rightarrow> string \<Rightarrow> string option \<Rightarrow> string option \<Rightarrow> int \<Rightarrow> billing_customer_row" where
  "new_customer organizationId eventId createdAt customerId email country updatedAt =
     \<lparr>bc_organization_id = organizationId, bc_stripe_customer_id = customerId,
      bc_billing_email = email, bc_country = country, bc_last_event_created_at = createdAt,
      bc_last_stripe_event_id = eventId, bc_created_at = updatedAt, bc_updated_at = updatedAt\<rparr>"

definition replaced_customer :: "billing_customer_row \<Rightarrow> billing_customer_row \<Rightarrow> billing_customer_row" where
  "replaced_customer excluded r =
     r\<lparr>bc_stripe_customer_id := bc_stripe_customer_id excluded,
       bc_billing_email := bc_billing_email excluded, bc_country := bc_country excluded,
       bc_last_event_created_at := bc_last_event_created_at excluded,
       bc_last_stripe_event_id := bc_last_stripe_event_id excluded,
       bc_updated_at := bc_updated_at excluded\<rparr>"

definition upsert_customer :: "billing_customer_row \<Rightarrow> nat dbop" where
  "upsert_customer new =
     upsert_in billing_customers set_billing_customers billing_customer_schema bc_organization_id new
       (\<lambda>r. newer_event (bc_last_event_created_at new) (bc_last_stripe_event_id new)
              (bc_last_event_created_at r) (bc_last_stripe_event_id r))
       (replaced_customer new)"

definition is_country_code :: "string \<Rightarrow> bool" where
  "is_country_code s \<longleftrightarrow> length s = 2 \<and> list_all is_upper_letter s"

definition projectBillingCustomer ::
  "string \<Rightarrow> string \<Rightarrow> int \<Rightarrow> customer_input \<Rightarrow> int \<Rightarrow> (billing_customer \<times> bool) dbop"
where
  "projectBillingCustomer organizationId stripeEventId eventCreatedAt inp updatedAt =
     obind (olift (case ci_billingEmail inp of None \<Rightarrow> Inr None
              | Some e \<Rightarrow> sbind (requiredStripeText e ''billingEmail'' 320) (\<lambda>x. Inr (Some x)))) (\<lambda>billingEmail.
     let country = map_option (\<lambda>c. toUpperCase (trim c)) (ci_country inp) in
     obind (olift (require (case country of None \<Rightarrow> True | Some c \<Rightarrow> is_country_code c)
              (JsTypeError ''country must be a two-letter code''))) (\<lambda>_.
     obind (olift (requiredStripeText (ci_stripeCustomerId inp) ''stripeCustomerId'' 255)) (\<lambda>customerId.
     obind (upsert_customer
              (new_customer organizationId stripeEventId eventCreatedAt customerId billingEmail country updatedAt)) (\<lambda>changes.
     obind (oget (getBillingCustomer organizationId)) (\<lambda>stored.
     case stored of
       None \<Rightarrow> othrow (JsError ''Billing customer could not be resolved'')
     | Some customer \<Rightarrow> oreturn (customer, changes = 1))))))"

record subscription_input =
  si_stripeSubscriptionId :: string
  si_stripePriceId :: string
  si_status :: string
  si_entitledSeats :: js_num
  si_cancelAtPeriodEnd :: bool
  si_currentPeriodEnd :: "js_num option"

definition new_subscription ::
  "string \<Rightarrow> string \<Rightarrow> int \<Rightarrow> string \<Rightarrow> string \<Rightarrow> string \<Rightarrow> int \<Rightarrow> bool \<Rightarrow> int option \<Rightarrow> int \<Rightarrow> subscription_row"
where
  "new_subscription organizationId eventId createdAt subscriptionId priceId status seats cancel periodEnd updatedAt =
     \<lparr>su_organization_id = organizationId, su_stripe_subscription_id = subscriptionId,
      su_stripe_price_id = priceId, su_status = status, su_entitled_seats = seats,
      su_cancel_at_period_end = (if cancel then 1 else 0), su_current_period_end = periodEnd,
      su_payment_state = PayCurrent, su_grace_ends_at = None,
      su_last_invoice_event_created_at = None, su_last_invoice_event_id = None,
      su_last_event_created_at = createdAt, su_last_stripe_event_id = eventId,
      su_created_at = updatedAt, su_updated_at = updatedAt\<rparr>"

definition replaced_subscription :: "subscription_row \<Rightarrow> subscription_row \<Rightarrow> subscription_row" where
  "replaced_subscription excluded r =
     r\<lparr>su_stripe_subscription_id := su_stripe_subscription_id excluded,
       su_stripe_price_id := su_stripe_price_id excluded, su_status := su_status excluded,
       su_entitled_seats := su_entitled_seats excluded,
       su_cancel_at_period_end := su_cancel_at_period_end excluded,
       su_current_period_end := su_current_period_end excluded,
       su_last_event_created_at := su_last_event_created_at excluded,
       su_last_stripe_event_id := su_last_stripe_event_id excluded,
       su_updated_at := su_updated_at excluded\<rparr>"

definition upsert_subscription :: "subscription_row \<Rightarrow> nat dbop" where
  "upsert_subscription new =
     upsert_in subscriptions set_subscriptions subscription_schema su_organization_id new
       (\<lambda>r. newer_event (su_last_event_created_at new) (su_last_stripe_event_id new)
              (su_last_event_created_at r) (su_last_stripe_event_id r))
       (replaced_subscription new)"

definition projectBillingSubscription ::
  "string \<Rightarrow> string \<Rightarrow> int \<Rightarrow> subscription_input \<Rightarrow> int \<Rightarrow> (billing_subscription \<times> bool) dbop"
where
  "projectBillingSubscription organizationId stripeEventId eventCreatedAt inp updatedAt =
     obind (olift (require (is_safe_integer (si_entitledSeats inp) \<and> int_value (si_entitledSeats inp) \<ge> 0)
              (JsTypeError ''entitledSeats must be a non-negative safe integer''))) (\<lambda>_.
     obind (oget (assigned_seats organizationId)) (\<lambda>assigned.
     obind (olift (require (int_value (si_entitledSeats inp) \<ge> int assigned) OperatorSeatQuantityConflictError)) (\<lambda>_.
     obind (olift (case si_currentPeriodEnd inp of None \<Rightarrow> Inr None
              | Some e \<Rightarrow> sbind (stripeTimestamp e ''currentPeriodEnd'') (\<lambda>x. Inr (Some x)))) (\<lambda>periodEnd.
     obind (olift (requiredStripeText (si_stripeSubscriptionId inp) ''stripeSubscriptionId'' 255)) (\<lambda>subscriptionId.
     obind (olift (requiredStripeText (si_stripePriceId inp) ''stripePriceId'' 255)) (\<lambda>priceId.
     obind (olift (requiredStripeText (si_status inp) ''status'' 64)) (\<lambda>status.
     obind (upsert_subscription
              (new_subscription organizationId stripeEventId eventCreatedAt subscriptionId priceId status
                 (int_value (si_entitledSeats inp)) (si_cancelAtPeriodEnd inp) periodEnd updatedAt)) (\<lambda>changes.
     obind (oget (getBillingSubscription organizationId)) (\<lambda>stored.
     case stored of
       None \<Rightarrow> othrow (JsError ''Billing subscription could not be resolved'')
     | Some subscription \<Rightarrow>
         obind (reconcileStripeAssignedEntitlements subscription updatedAt) (\<lambda>_.
         oreturn (subscription, changes = 1)))))))))))"

record projection_result =
  pr_duplicate :: bool
  pr_processingResult :: stripe_result
  pr_customer :: "billing_customer option"
  pr_subscription :: "billing_subscription option"

record billing_projection_input =
  bpi_event :: stripe_event_input
  bpi_organizationId :: string
  bpi_customer :: "customer_input option"
  bpi_subscription :: "subscription_input option"

text \<open>The two optional parts of an event; without one the stored row is the result.\<close>

definition apply_customer ::
  "string \<Rightarrow> string \<Rightarrow> int \<Rightarrow> customer_input option \<Rightarrow> int \<Rightarrow> billing_customer option
     \<Rightarrow> (billing_customer option \<times> bool) dbop"
where
  "apply_customer organizationId eventId createdAt inp processedAt stored =
     (case inp of
        None \<Rightarrow> oreturn (stored, False)
      | Some c \<Rightarrow> obind (projectBillingCustomer organizationId eventId createdAt c processedAt)
                   (\<lambda>(customer, applied). oreturn (Some customer, applied)))"

definition apply_subscription ::
  "string \<Rightarrow> string \<Rightarrow> int \<Rightarrow> subscription_input option \<Rightarrow> int \<Rightarrow> billing_subscription option
     \<Rightarrow> (billing_subscription option \<times> bool) dbop"
where
  "apply_subscription organizationId eventId createdAt inp processedAt stored =
     (case inp of
        None \<Rightarrow> oreturn (stored, False)
      | Some x \<Rightarrow> obind (projectBillingSubscription organizationId eventId createdAt x processedAt)
                   (\<lambda>(subscription, applied). oreturn (Some subscription, applied)))"

text \<open>The transaction of a projection, for an event that is not settled yet.\<close>

definition project_event ::
  "billing_projection_input \<Rightarrow> stripe_event_record \<Rightarrow> bool \<Rightarrow> int \<Rightarrow> projection_result dbop"
where
  "project_event inp event inserted processedAt = atomic (
     let organizationId = trim (bpi_organizationId inp);
         eventId = ser_stripeEventId event; createdAt = ser_eventCreatedAt event in
     obind (olift (require (organizationId \<noteq> []) (JsTypeError ''organizationId is required''))) (\<lambda>_.
     obind (oget (find_organization organizationId)) (\<lambda>organization.
     obind (olift (require (organization \<noteq> None) (JsError ''Billing organization was not found''))) (\<lambda>_.
     obind (oget (getBillingCustomer organizationId)) (\<lambda>customer0.
     obind (oget (getBillingSubscription organizationId)) (\<lambda>subscription0.
     obind (apply_customer organizationId eventId createdAt (bpi_customer inp) processedAt customer0)
       (\<lambda>(customer, appliedCustomer).
     obind (apply_subscription organizationId eventId createdAt (bpi_subscription inp) processedAt subscription0)
       (\<lambda>(subscription, appliedSubscription).
     let applied = (appliedCustomer \<or> appliedSubscription);
         processingResult = (if applied then StripeApplied else StripeIgnored) in
     obind (completeStripeEvent eventId processingResult
              (if applied then ''local billing projection updated'' else ''stale or empty projection'') processedAt) (\<lambda>_.
     oreturn \<lparr>pr_duplicate = (\<not> inserted), pr_processingResult = processingResult,
              pr_customer = customer, pr_subscription = subscription\<rparr>)))))))))"

definition applyStripeBillingProjection :: "billing_projection_input \<Rightarrow> js_num \<Rightarrow> projection_result dbop" where
  "applyStripeBillingProjection inp now =
     obind (registerStripeEvent (bpi_event inp)) (\<lambda>(event, inserted).
     if \<not> inserted \<and> settled event
     then obind (oget (getBillingCustomer (trim (bpi_organizationId inp)))) (\<lambda>customer.
          obind (oget (getBillingSubscription (trim (bpi_organizationId inp)))) (\<lambda>subscription.
          oreturn \<lparr>pr_duplicate = True, pr_processingResult = ser_processingResult event,
                   pr_customer = customer, pr_subscription = subscription\<rparr>))
     else
     obind (olift (stripeTimestamp now ''processedAt'')) (\<lambda>processedAt.
     ocatch (project_event inp event inserted processedAt)
       (\<lambda>e. obind (completeStripeEvent (ser_stripeEventId event) StripeFailed (error_message e) processedAt)
         (\<lambda>_. othrow e))))"

section \<open>Invoices\<close>

datatype invoice_type = InvoicePaid | InvoicePaymentFailed

definition invoice_type_name :: "invoice_type \<Rightarrow> string" where
  "invoice_type_name t = (case t of InvoicePaid \<Rightarrow> ''invoice.paid'' | InvoicePaymentFailed \<Rightarrow> ''invoice.payment_failed'')"

record invoice_input =
  ii_stripeEventId :: string
  ii_type :: invoice_type
  ii_eventCreatedAt :: js_num
  ii_receivedAt :: js_num
  ii_stripeSubscriptionId :: string

definition invoice_event :: "invoice_input \<Rightarrow> stripe_event_input" where
  "invoice_event inp =
     \<lparr>sei_stripeEventId = ii_stripeEventId inp, sei_type = invoice_type_name (ii_type inp),
      sei_eventCreatedAt = ii_eventCreatedAt inp, sei_receivedAt = ii_receivedAt inp\<rparr>"

definition invoice_is_newer :: "stripe_event_record \<Rightarrow> billing_subscription \<Rightarrow> bool" where
  "invoice_is_newer event subscription \<longleftrightarrow>
     (case sub_lastInvoiceEventCreatedAt subscription of
        None \<Rightarrow> True
      | Some latest \<Rightarrow> newer_event (ser_eventCreatedAt event) (ser_stripeEventId event) latest
          (case sub_lastInvoiceEventId subscription of None \<Rightarrow> [] | Some i \<Rightarrow> i))"

text \<open>The payment state and the grace deadline an invoice event gives a subscription.\<close>

definition invoice_payment ::
  "invoice_type \<Rightarrow> stripe_event_record \<Rightarrow> billing_subscription \<Rightarrow> int \<Rightarrow> payment_state \<times> int option"
where
  "invoice_payment kind event subscription processedAt =
     (case kind of
        InvoicePaid \<Rightarrow> (PayCurrent, None)
      | InvoicePaymentFailed \<Rightarrow>
          (let graceEndsAt = (case sub_graceEndsAt subscription of
                 Some g \<Rightarrow> g | None \<Rightarrow> ser_eventCreatedAt event + stripePaymentGraceDurationMs) in
           (if graceEndsAt > processedAt then PayGrace else PayDelinquent, Some graceEndsAt)))"

definition invoiced_row ::
  "payment_state \<Rightarrow> int option \<Rightarrow> stripe_event_record \<Rightarrow> int \<Rightarrow> subscription_row \<Rightarrow> subscription_row"
where
  "invoiced_row paymentState graceEndsAt event processedAt r =
     r\<lparr>su_payment_state := paymentState, su_grace_ends_at := graceEndsAt,
       su_last_invoice_event_created_at := Some (ser_eventCreatedAt event),
       su_last_invoice_event_id := Some (ser_stripeEventId event), su_updated_at := processedAt\<rparr>"

definition project_invoice ::
  "invoice_input \<Rightarrow> stripe_event_record \<Rightarrow> bool \<Rightarrow> int \<Rightarrow> projection_result dbop"
where
  "project_invoice inp event inserted processedAt = atomic (
     obind (oread (getBillingSubscriptionByStripeId (ii_stripeSubscriptionId inp))) (\<lambda>found.
     case found of
       None \<Rightarrow> othrow (JsError ''Stripe invoice subscription was not found'')
     | Some subscription \<Rightarrow>
       if \<not> invoice_is_newer event subscription then
         obind (completeStripeEvent (ser_stripeEventId event) StripeIgnored ''stale invoice projection'' processedAt) (\<lambda>_.
         obind (oget (getBillingCustomer (sub_organizationId subscription))) (\<lambda>customer.
         oreturn \<lparr>pr_duplicate = (\<not> inserted), pr_processingResult = StripeIgnored,
                  pr_customer = customer, pr_subscription = Some subscription\<rparr>))
       else
       let (paymentState, graceEndsAt) = invoice_payment (ii_type inp) event subscription processedAt in
       obind (update_in subscriptions set_subscriptions subscription_schema
           (\<lambda>r. su_organization_id r = sub_organizationId subscription)
           (invoiced_row paymentState graceEndsAt event processedAt)) (\<lambda>_.
       obind (oget (getBillingSubscription (sub_organizationId subscription))) (\<lambda>updated.
       case updated of
         None \<Rightarrow> othrow (JsError ''Billing subscription could not be resolved'')
       | Some u \<Rightarrow>
           obind (reconcileStripeAssignedEntitlements u processedAt) (\<lambda>_.
           obind (completeStripeEvent (ser_stripeEventId event) StripeApplied
                    (if ii_type inp = InvoicePaid then ''subscription payment restored''
                     else if paymentState = PayGrace then ''subscription entered fixed payment grace''
                     else ''subscription payment grace already expired'') processedAt) (\<lambda>_.
           obind (oget (getBillingCustomer (sub_organizationId subscription))) (\<lambda>customer.
           oreturn \<lparr>pr_duplicate = (\<not> inserted), pr_processingResult = StripeApplied,
                    pr_customer = customer, pr_subscription = Some u\<rparr>)))))))"

definition applyStripeInvoiceProjection :: "invoice_input \<Rightarrow> js_num \<Rightarrow> projection_result dbop" where
  "applyStripeInvoiceProjection inp now =
     obind (registerStripeEvent (invoice_event inp)) (\<lambda>(event, inserted).
     obind (oread (getBillingSubscriptionByStripeId (ii_stripeSubscriptionId inp))) (\<lambda>existing.
     if \<not> inserted \<and> settled event
     then obind (oget (\<lambda>db. case existing of None \<Rightarrow> None
                  | Some x \<Rightarrow> getBillingCustomer (sub_organizationId x) db)) (\<lambda>customer.
          oreturn \<lparr>pr_duplicate = True, pr_processingResult = ser_processingResult event,
                   pr_customer = customer, pr_subscription = existing\<rparr>)
     else
     obind (olift (stripeTimestamp now ''processedAt'')) (\<lambda>processedAt.
     ocatch (project_invoice inp event inserted processedAt)
       (\<lambda>e. obind (oread (getStripeEvent (ser_stripeEventId event))) (\<lambda>current.
         obind (case current of
                  None \<Rightarrow> oreturn ()
                | Some c \<Rightarrow>
                    if ser_attemptCount c = ser_attemptCount event
                    then obind (failStripeEvent (invoice_event inp) (error_message e) (JInt processedAt)) (\<lambda>_. oreturn ())
                    else oreturn ()) (\<lambda>_.
         othrow e))))))"

section \<open>Seats\<close>

definition seat_audit :: "string \<Rightarrow> string \<Rightarrow> string \<Rightarrow> string \<Rightarrow> audit_options" where
  "seat_audit userId organizationId action membershipId =
     \<lparr>ao_userId = userId, ao_organizationId = organizationId, ao_eventId = None, ao_action = action,
      ao_targetType = ''membership'', ao_targetId = membershipId, ao_result = None,
      ao_sourceIpHash = None, ao_metadata = [(''source'', MetaString ''stripe'')]\<rparr>"

definition seat_row ::
  "string \<Rightarrow> string \<Rightarrow> entitlement_state \<times> int option \<Rightarrow> int \<Rightarrow> int \<Rightarrow> entitlement_row"
where
  "seat_row membershipId organizationId access createdAt timestamp =
     \<lparr>en_membership_id = membershipId, en_organization_id = organizationId, en_state = fst access,
      en_source = SrcStripe, en_starts_at = timestamp, en_ends_at = snd access,
      en_created_at = createdAt, en_updated_at = timestamp\<rparr>"

definition assignStripeOperatorSeat ::
  "string \<Rightarrow> string \<Rightarrow> string \<Rightarrow> js_num \<Rightarrow> string \<Rightarrow> operator_entitlement dbop"
where
  "assignStripeOperatorSeat userId organizationId rawMembershipId now randomUUID =
     obind (oread (requireOrganizationAdmin userId organizationId)) (\<lambda>_.
     let membershipId = trim rawMembershipId in
     obind (olift (stripeTimestamp now ''seat assignment timestamp'')) (\<lambda>timestamp. atomic (
     obind (oget (\<lambda>db. list_ex (\<lambda>m. mb_id m = membershipId \<and> mb_organizationId m = organizationId
                        \<and> member_disabled (mb_id m) db = 0) (members db))) (\<lambda>target.
     obind (olift (require target OrganizationAccessDeniedError)) (\<lambda>_.
     obind (oget (getBillingSubscription organizationId)) (\<lambda>found.
     case found of
       None \<Rightarrow> othrow BillingSubscriptionRequiredError
     | Some subscription \<Rightarrow>
       obind (oget (getOperatorEntitlement membershipId organizationId)) (\<lambda>existing.
       obind (oget (\<lambda>db. length (filter (\<lambda>e. stripe_seat organizationId e
                \<and> en_membership_id e \<noteq> membershipId) (entitlements db)))) (\<lambda>assignedSeats.
       obind (olift (require (int assignedSeats < sub_entitledSeats subscription) OperatorSeatCapacityError)) (\<lambda>_.
       obind (upsert_entitlement
           (seat_row membershipId organizationId (stripeEntitlementAccess subscription timestamp)
              (case existing of None \<Rightarrow> timestamp | Some x \<Rightarrow> oe_createdAt x) timestamp)) (\<lambda>_.
       obind (recordAuditEvent
           (seat_audit userId organizationId ''billing.operator_seat.assigned'' membershipId) randomUUID timestamp) (\<lambda>_.
       obind (oget (getOperatorEntitlement membershipId organizationId)) (\<lambda>stored.
       case stored of
         None \<Rightarrow> othrow (JsError ''Operator seat assignment could not be resolved'')
       | Some e \<Rightarrow> oreturn e))))))))))))"

definition revokeStripeOperatorSeat ::
  "string \<Rightarrow> string \<Rightarrow> string \<Rightarrow> js_num \<Rightarrow> string \<Rightarrow> operator_entitlement option dbop"
where
  "revokeStripeOperatorSeat userId organizationId rawMembershipId now randomUUID =
     obind (oread (requireOrganizationAdmin userId organizationId)) (\<lambda>_.
     let membershipId = trim rawMembershipId in
     obind (olift (stripeTimestamp now ''seat revocation timestamp'')) (\<lambda>timestamp. atomic (
     obind (update_in entitlements set_entitlements entitlement_schema
         (\<lambda>e. en_membership_id e = membershipId \<and> stripe_seat organizationId e)
         (\<lambda>e. e\<lparr>en_state := EntRevoked, en_updated_at := timestamp\<rparr>)) (\<lambda>changes.
     if changes \<noteq> 1 then oreturn None
     else
     obind (recordAuditEvent
         (seat_audit userId organizationId ''billing.operator_seat.revoked'' membershipId) randomUUID timestamp) (\<lambda>_.
     oget (getOperatorEntitlement membershipId organizationId))))))"

section \<open>What the statements leave alone\<close>

lemma insert_stripe_event_keeps:
  "(\<And>rows s. I (set_stripe_events rows s) = I s) \<Longrightarrow> keeps I (insert_stripe_event e)"
  unfolding insert_stripe_event_def by (intro keeps_intro se_tbl.insert_keeps_other)

lemma registerStripeEvent_keeps:
  assumes "\<And>rows s. I (set_stripe_events rows s) = I s"
  shows "keeps I (registerStripeEvent inp)"
  unfolding registerStripeEvent_def Let_def by (intro keeps_intro insert_stripe_event_keeps assms)

lemma completeStripeEvent_keeps:
  assumes "\<And>rows s. I (set_stripe_events rows s) = I s"
  shows "keeps I (completeStripeEvent i r m p)"
  unfolding completeStripeEvent_def Let_def by (intro keeps_intro se_tbl.update_keeps_other assms)

lemma keeps_case_prod [keeps_intro]:
  "(\<And>a b. keeps I (f a b)) \<Longrightarrow> keeps I (case p of (a, b) \<Rightarrow> f a b)"
  by (cases p) simp

lemma failStripeEvent_keeps:
  assumes "\<And>rows s. I (set_stripe_events rows s) = I s"
  shows "keeps I (failStripeEvent inp m now)"
  unfolding failStripeEvent_def
  by (intro keeps_intro registerStripeEvent_keeps completeStripeEvent_keeps assms)

lemma projectBillingCustomer_keeps:
  assumes "\<And>rows s. I (set_billing_customers rows s) = I s"
  shows "keeps I (projectBillingCustomer g i c inp u)"
  unfolding projectBillingCustomer_def upsert_customer_def Let_def
  by (intro keeps_intro bc_tbl.upsert_keeps_other assms)

section \<open>Seats stay within the purchased quantity\<close>

text \<open>
  The rows a projection leaves: organizations are known by their trimmed identifier, and no
  organization has more Stripe seats assigned than its subscription pays for.
\<close>

definition seats_inv :: "cloud_db \<Rightarrow> bool" where
  "seats_inv db \<longleftrightarrow> entitlements_ok db
     \<and> (\<forall>r \<in> set (subscriptions db). trim (su_organization_id r) = su_organization_id r
          \<and> int (assigned_seats (su_organization_id r) db) \<le> su_entitled_seats r)"

lemma seats_inv_other:
  "seats_inv (set_stripe_events x s) = seats_inv s"
  "seats_inv (set_billing_customers y s) = seats_inv s"
  "seats_inv (set_audit_events z s) = seats_inv s"
  by (simp_all add: seats_inv_def assigned_seats_def entitlements_ok_def set_stripe_events_def
      set_billing_customers_def set_audit_events_def)

lemma assigned_seats_put: "assigned_seats g (set_entitlements rows s) = length (filter (stripe_seat g) rows)"
  by (simp add: assigned_seats_def set_entitlements_def)

text \<open>A change of the entitlement table that adds no seat to any organization keeps the invariant.\<close>

lemma seats_inv_entitlements:
  assumes "seats_inv s" and "entitlements_ok (set_entitlements rows s)"
    and "\<And>g. length (filter (stripe_seat g) rows) \<le> assigned_seats g s"
  shows "seats_inv (set_entitlements rows s)"
  using assms unfolding seats_inv_def assigned_seats_put
  by (auto simp: set_entitlements_def) (meson dual_order.trans of_nat_mono)

lemma entitlement_update_keeps_seats:
  assumes "\<And>g e. p e \<Longrightarrow> stripe_seat g (f e) \<Longrightarrow> stripe_seat g e"
  shows "keeps seats_inv (update_in entitlements set_entitlements entitlement_schema p f)"
proof (rule keepsI)
  fix s r t
  assume inv: "seats_inv s" and run: "update_in entitlements set_entitlements entitlement_schema p f s = (r, t)"
  show "seats_inv t"
  proof (cases r)
    case (Inl e)
    with run inv show ?thesis using en_tbl.update_Inl [of p f s e t] by simp
  next
    case (Inr n)
    have t: "t = set_entitlements (map (\<lambda>e. if p e then f e else e) (entitlements s)) s"
      using en_tbl.update_Inr run Inr by blast
    have "entitlements_ok t"
      using keepsD [OF en_tbl.update_keeps_schema _ run] inv by (simp add: seats_inv_def entitlements_ok_def)
    moreover have "length (filter (stripe_seat g) (map (\<lambda>e. if p e then f e else e) (entitlements s)))
        \<le> assigned_seats g s" for g
      unfolding assigned_seats_def
      by (rule length_filter_map_le) (use assms in \<open>auto split: if_splits\<close>)
    ultimately show ?thesis
      unfolding t by (intro seats_inv_entitlements inv)
  qed
qed

lemma reconcile_keeps_seats: "keeps seats_inv (reconcileStripeAssignedEntitlements subscription now)"
  unfolding reconcileStripeAssignedEntitlements_def
  by (rule entitlement_update_keeps_seats)
    (auto simp: stripe_seat_def reconciled_row_def)

lemma findSubscription_SomeD:
  "findSubscription g db = Some r \<Longrightarrow> r \<in> set (subscriptions db) \<and> su_organization_id r = g"
  by (auto simp: findSubscription_def dest: find_SomeD)

lemma new_subscription_simps [simp]:
  "su_organization_id (new_subscription g i c sid p st n k e u) = g"
  "su_entitled_seats (new_subscription g i c sid p st n k e u) = n"
  by (simp_all add: new_subscription_def)

lemma upsert_subscription_keeps_seats:
  assumes "seats_inv s" and "upsert_subscription new s = (r, t)"
    and "trim (su_organization_id new) = su_organization_id new"
    and "int (assigned_seats (su_organization_id new) s) \<le> su_entitled_seats new"
  shows "seats_inv t"
proof (cases r)
  case (Inl e)
  with assms(2) have "t = s" unfolding upsert_subscription_def by (auto dest: su_tbl.upsert_Inl)
  with assms(1) show ?thesis by simp
next
  case (Inr n)
  then have "subscriptions t = subscriptions s @ [new] \<and> entitlements t = entitlements s
    \<or> entitlements t = entitlements s
       \<and> subscriptions t = map (\<lambda>r. if su_organization_id r = su_organization_id new
            \<and> newer_event (su_last_event_created_at new) (su_last_stripe_event_id new)
                (su_last_event_created_at r) (su_last_stripe_event_id r)
          then replaced_subscription new r else r) (subscriptions s)"
    using assms(2) unfolding upsert_subscription_def
    by (auto simp: set_subscriptions_def dest!: su_tbl.upsert_Inr)
  then show ?thesis
    using assms(1,3,4)
    by (auto simp: seats_inv_def assigned_seats_def entitlements_ok_def replaced_subscription_def)
qed

lemma projectBillingSubscription_keeps_seats:
  assumes "trim g = g"
  shows "keeps seats_inv (projectBillingSubscription g i c inp u)"
proof (rule keepsI)
  fix s r t
  assume inv: "seats_inv s" and run: "projectBillingSubscription g i c inp u s = (r, t)"
  have step: "seats_inv s \<Longrightarrow> int (assigned_seats g s) \<le> n
      \<Longrightarrow> upsert_subscription (new_subscription g i c a b d n e f h) s = (q, v) \<Longrightarrow> seats_inv v" for n a b d e f h q v
    by (erule upsert_subscription_keeps_seats, assumption) (simp_all add: assms)
  show "seats_inv t"
    using run inv
    by (auto simp: projectBillingSubscription_def obind_def operation_defs require_def
        split: if_splits sum.splits prod.splits option.splits
        dest: step intro: keepsD [OF reconcile_keeps_seats])
qed
lemma project_event_keeps_seats: "keeps seats_inv (project_event inp event inserted at)"
  unfolding project_event_def apply_customer_def apply_subscription_def Let_def
  by (intro keeps_intro projectBillingCustomer_keeps projectBillingSubscription_keeps_seats
      completeStripeEvent_keeps) (simp_all add: seats_inv_other)

lemma invoiced_row_simps [simp]:
  "su_organization_id (invoiced_row p g e a r) = su_organization_id r"
  "su_entitled_seats (invoiced_row p g e a r) = su_entitled_seats r"
  by (simp_all add: invoiced_row_def)

lemma invoice_update_keeps_seats:
  "keeps seats_inv (update_in subscriptions set_subscriptions subscription_schema p (invoiced_row a b c d))"
proof (rule keepsI)
  fix s r t
  assume inv: "seats_inv s"
    and run: "update_in subscriptions set_subscriptions subscription_schema p (invoiced_row a b c d) s = (r, t)"
  show "seats_inv t"
  proof (cases r)
    case (Inl e)
    with run inv show ?thesis by (auto dest: su_tbl.update_Inl)
  next
    case (Inr n)
    with run have "t = set_subscriptions (map (\<lambda>r. if p r then invoiced_row a b c d r else r) (subscriptions s)) s"
      by (auto dest: su_tbl.update_Inr)
    with inv show ?thesis
      by (auto simp: seats_inv_def assigned_seats_def entitlements_ok_def set_subscriptions_def)
  qed
qed

lemma project_invoice_keeps_seats: "keeps seats_inv (project_invoice inp event inserted at)"
  unfolding project_invoice_def Let_def
  by (intro keeps_intro invoice_update_keeps_seats reconcile_keeps_seats completeStripeEvent_keeps)
    (simp_all add: seats_inv_other)

lemma applyStripeBillingProjection_keeps_seats: "keeps seats_inv (applyStripeBillingProjection inp now)"
  unfolding applyStripeBillingProjection_def
  by (intro keeps_intro registerStripeEvent_keeps project_event_keeps_seats completeStripeEvent_keeps)
    (simp_all add: seats_inv_other)

lemma applyStripeInvoiceProjection_keeps_seats: "keeps seats_inv (applyStripeInvoiceProjection inp now)"
  unfolding applyStripeInvoiceProjection_def
  by (intro keeps_intro registerStripeEvent_keeps project_invoice_keeps_seats failStripeEvent_keeps)
    (simp_all add: seats_inv_other)

lemma stripe_seat_replaced [simp]: "stripe_seat g (replaced_entitlement e r) = stripe_seat g e"
  by (simp add: stripe_seat_def)

text \<open>Giving the seat of a membership to an organization adds at most one to its seats.\<close>

lemma upserted_seats:
  assumes "upsert_entitlement e s = (Inr n, t)" and "entitlements_ok s"
  shows "assigned_seats g t \<le> length (filter (\<lambda>x. stripe_seat g x
      \<and> en_membership_id x \<noteq> en_membership_id e) (entitlements s)) + (if stripe_seat g e then 1 else 0)"
  using upsert_entitlement_Inr [OF assms(1)]
proof (elim conjE disjE)
  assume none: "find (\<lambda>r. en_membership_id r = en_membership_id e) (entitlements s) = None"
    and t: "t = s\<lparr>entitlements := entitlements s @ [e]\<rparr>"
  then have "filter (\<lambda>x. stripe_seat g x \<and> en_membership_id x \<noteq> en_membership_id e) (entitlements s)
      = filter (stripe_seat g) (entitlements s)"
    by (intro filter_cong) (auto simp: find_None_iff)
  then show ?thesis by (simp add: t assigned_seats_def)
next
  assume t: "t = s\<lparr>entitlements := map (\<lambda>r. if en_membership_id r = en_membership_id e
                    then replaced_entitlement e r else r) (entitlements s)\<rparr>"
  have "length (filter (stripe_seat g) (map (\<lambda>r. if en_membership_id r = en_membership_id e
                    then replaced_entitlement e r else r) rows))
      \<le> length (filter (\<lambda>x. stripe_seat g x \<and> en_membership_id x \<noteq> en_membership_id e) rows)
        + (if stripe_seat g e then 1 else 0)" if "distinct (map en_membership_id rows)" for rows
    using that
  proof (induction rows)
    case (Cons y rows)
    show ?case
    proof (cases "en_membership_id y = en_membership_id e")
      case True
      then have others: "\<forall>x \<in> set rows. en_membership_id x \<noteq> en_membership_id e"
        using map_distinct_tail [OF Cons.prems] by simp
      then have "map (\<lambda>r. if en_membership_id r = en_membership_id e
                    then replaced_entitlement e r else r) rows = rows"
        and "filter (\<lambda>x. stripe_seat g x \<and> en_membership_id x \<noteq> en_membership_id e) rows
          = filter (stripe_seat g) rows"
        by (auto intro: map_idI filter_cong)
      with True show ?thesis by simp
    next
      case False
      with Cons show ?thesis by (auto split: if_splits)
    qed
  qed simp
  from this [OF entitlements_ok_distinct [OF assms(2)]] show ?thesis
    by (simp add: t assigned_seats_def)
qed

lemma upserted_seats_keep:
  assumes "seats_inv s" and "upsert_entitlement e s = (Inr n, t)"
    and "\<And>r. stripe_seat (en_organization_id e) e \<Longrightarrow> r \<in> set (subscriptions s)
        \<Longrightarrow> su_organization_id r = en_organization_id e
        \<Longrightarrow> int (length (filter (\<lambda>x. stripe_seat (en_organization_id e) x
              \<and> en_membership_id x \<noteq> en_membership_id e) (entitlements s))) < su_entitled_seats r"
  shows "seats_inv t"
proof -
  have ok: "entitlements_ok s" using assms(1) by (simp add: seats_inv_def)
  have "entitlements_ok t" using keepsD [OF upsert_entitlement_keeps_ok ok assms(2)] .
  moreover have same: "subscriptions t = subscriptions s" using upsert_entitlement_Inr [OF assms(2)] by auto
  moreover have "int (assigned_seats (su_organization_id r) t) \<le> su_entitled_seats r"
    if r: "r \<in> set (subscriptions s)" for r
  proof (cases "stripe_seat (su_organization_id r) e")
    case True
    then have org: "en_organization_id e = su_organization_id r" by (simp add: stripe_seat_def)
    have "stripe_seat (en_organization_id e) e" using True unfolding org .
    from assms(3) [OF this r org [symmetric]] upserted_seats [OF assms(2) ok, of "su_organization_id r"] True
    show ?thesis by (simp add: org)
  next
    case False
    let ?others = "length (filter (\<lambda>x. stripe_seat (su_organization_id r) x
        \<and> en_membership_id x \<noteq> en_membership_id e) (entitlements s))"
    have "assigned_seats (su_organization_id r) t \<le> ?others"
      using upserted_seats [OF assms(2) ok, of "su_organization_id r"] False by simp
    also have "?others \<le> assigned_seats (su_organization_id r) s"
      unfolding assigned_seats_def by (rule length_filter_conj_le)
    finally have "int (assigned_seats (su_organization_id r) t) \<le> int (assigned_seats (su_organization_id r) s)"
      by simp
    also have "\<dots> \<le> su_entitled_seats r" using assms(1) r by (simp add: seats_inv_def)
    finally show ?thesis .
  qed
  ultimately show ?thesis using assms(1) by (simp add: seats_inv_def)
qed
lemma assignStripeOperatorSeat_Inr:
  assumes "assignStripeOperatorSeat userId g m now uuid s = (Inr x, t)"
  obtains role timestamp subscription e n v opts ev where
    "requireOrganizationAdmin userId g s = Inr role" and "now = JInt timestamp"
    and "getBillingSubscription g s = Some subscription"
    and "int (length (filter (\<lambda>e. stripe_seat g e \<and> en_membership_id e \<noteq> trim m) (entitlements s)))
      < sub_entitledSeats subscription"
    and "upsert_entitlement e s = (Inr n, v)" and "en_membership_id e = trim m"
    and "en_organization_id e = g" and "en_source e = SrcStripe"
    and "(en_state e, en_ends_at e) = stripeEntitlementAccess subscription timestamp"
    and "recordAuditEvent opts uuid timestamp v = (Inr ev, t)"
    and "getOperatorEntitlement (trim m) g t = Some x"
  using assms
  by (auto simp: assignStripeOperatorSeat_def Let_def stripeTimestamp_Inr seat_row_def split: option.splits)

lemma getBillingSubscription_SomeD:
  assumes "getBillingSubscription g s = Some subscription"
  obtains r where "r \<in> set (subscriptions s)" and "su_organization_id r = trim g"
    and "subscription = toBillingSubscription r" and "findSubscription (trim g) s = Some r"
  using assms by (auto simp: getBillingSubscription_def dest: findSubscription_SomeD)

lemma assignStripeOperatorSeat_Inl:
  "assignStripeOperatorSeat userId g m now uuid s = (Inl x, t) \<Longrightarrow> t = s"
  by (auto simp: assignStripeOperatorSeat_def Let_def obind_eq_Inl operation_defs dest: atomic_rolls_back)

lemma seats_inv_unique_organization:
  assumes "schema_ok subscription_schema (subscriptions s)" and "r \<in> set (subscriptions s)"
    and "x \<in> set (subscriptions s)" and "su_organization_id r = su_organization_id x"
  shows "r = x"
  by (rule schema_ok_same_key [where u = "(''subscription.organization_id'', \<lambda>r. Some [SText (su_organization_id r)])"])
    (use assms in \<open>auto simp: subscription_schema_def\<close>)

lemma assignStripeOperatorSeat_keeps_seats:
  assumes "schema_ok subscription_schema (subscriptions s)" and "seats_inv s"
    and "assignStripeOperatorSeat userId g m now uuid s = (r, t)"
  shows "seats_inv t"
proof (cases r)
  case (Inl e)
  with assms show ?thesis using assignStripeOperatorSeat_Inl by blast
next
  case (Inr x)
  from assms(3) [unfolded Inr] obtain subscription e n v opts ev timestamp where
    sub: "getBillingSubscription g s = Some subscription"
    and room: "int (length (filter (\<lambda>e. stripe_seat g e \<and> en_membership_id e \<noteq> trim m) (entitlements s)))
      < sub_entitledSeats subscription"
    and up: "upsert_entitlement e s = (Inr n, v)" and e: "en_membership_id e = trim m" "en_organization_id e = g"
    and audit: "recordAuditEvent opts uuid timestamp v = (Inr ev, t)"
    by (rule assignStripeOperatorSeat_Inr)
  from sub obtain row where row: "row \<in> set (subscriptions s)" "su_organization_id row = trim g"
    "subscription = toBillingSubscription row"
    by (rule getBillingSubscription_SomeD)
  have "seats_inv v"
  proof (rule upserted_seats_keep [OF assms(2) up])
    fix r assume r: "r \<in> set (subscriptions s)" "su_organization_id r = en_organization_id e"
    with assms(2) have "trim g = g" by (auto simp: seats_inv_def e)
    with row r e have "r = row" by (intro seats_inv_unique_organization [OF assms(1)]) simp_all
    with room row show "int (length (filter (\<lambda>x. stripe_seat (en_organization_id e) x
        \<and> en_membership_id x \<noteq> en_membership_id e) (entitlements s))) < su_entitled_seats r"
      by (simp add: e toBillingSubscription_def)
  qed
  then show ?thesis
    using keepsD [OF recordAuditEvent_keeps [of seats_inv] _ audit] by (simp add: seats_inv_other)
qed

lemma revokeStripeOperatorSeat_keeps_seats:
  "keeps seats_inv (revokeStripeOperatorSeat userId g m now uuid)"
  unfolding revokeStripeOperatorSeat_def Let_def
  by (intro keeps_intro entitlement_update_keeps_seats recordAuditEvent_keeps)
    (auto simp: seats_inv_other stripe_seat_def)

lemma revokeOperatorEntitlement_keeps_seats: "keeps seats_inv (revokeOperatorEntitlement m g now)"
  unfolding revokeOperatorEntitlement_def
  by (intro keeps_intro entitlement_update_keeps_seats) (auto simp: stripe_seat_def)

lemma keeps_obind_olift:
  "(\<And>x. r = Inr x \<Longrightarrow> keeps I (f x)) \<Longrightarrow> keeps I (obind (olift r) f)"
  by (cases r) (simp_all add: keeps_def operation_defs)

lemma other_source_keeps_seats: "en_source e \<noteq> SrcStripe \<Longrightarrow> keeps seats_inv (upsert_entitlement e)"
proof (rule keepsI)
  fix s r t
  assume src: "en_source e \<noteq> SrcStripe" and inv: "seats_inv s" and run: "upsert_entitlement e s = (r, t)"
  show "seats_inv t"
  proof (cases r)
    case (Inl x)
    with run inv show ?thesis by (auto dest: upsert_entitlement_Inl)
  next
    case (Inr n)
    from inv run [unfolded Inr] show ?thesis
      by (rule upserted_seats_keep) (simp add: src stripe_seat_def)
  qed
qed

lemma upsertOperatorEntitlement_keeps_seats:
  assumes "ei_source inp \<noteq> ''stripe''"
  shows "keeps seats_inv (upsertOperatorEntitlement inp now)"
  unfolding upsertOperatorEntitlement_def Let_def
  by (intro keeps_obind_olift keeps_intro other_source_keeps_seats)
    (use assms in \<open>auto simp: parse_entitlement_source_def split: option.splits if_splits\<close>)

subsection \<open>Histories of billing operations\<close>

definition subscriptions_ok :: "cloud_db \<Rightarrow> bool" where
  "subscriptions_ok db \<longleftrightarrow> schema_ok subscription_schema (subscriptions db)"

definition seats_books :: "cloud_db \<Rightarrow> bool" where
  "seats_books db \<longleftrightarrow> subscriptions_ok db \<and> seats_inv db"

lemma subscriptions_ok_other:
  "subscriptions_ok (set_stripe_events x s) = subscriptions_ok s"
  "subscriptions_ok (set_billing_customers y s) = subscriptions_ok s"
  "subscriptions_ok (set_audit_events z s) = subscriptions_ok s"
  "subscriptions_ok (set_entitlements w s) = subscriptions_ok s"
  by (simp_all add: subscriptions_ok_def set_stripe_events_def set_entitlements_def
      set_billing_customers_def set_audit_events_def)

lemma subscription_table_keeps:
  "keeps subscriptions_ok (upsert_in subscriptions set_subscriptions subscription_schema key n w f)"
  "keeps subscriptions_ok (update_in subscriptions set_subscriptions subscription_schema p f)"
  unfolding subscriptions_ok_def by (rule su_tbl.upsert_keeps_schema su_tbl.update_keeps_schema)+

lemma entitlement_table_keeps_subscriptions:
  "keeps subscriptions_ok (update_in entitlements set_entitlements entitlement_schema p f)"
  "keeps subscriptions_ok (upsert_entitlement e)"
  unfolding upsert_entitlement_def
  by (intro keeps_intro en_tbl.update_keeps_other en_tbl.upsert_keeps_other; simp add: subscriptions_ok_other)+

lemma billing_operations_keep_subscriptions:
  "keeps subscriptions_ok (applyStripeBillingProjection bin now)"
  "keeps subscriptions_ok (applyStripeInvoiceProjection iin now)"
  "keeps subscriptions_ok (assignStripeOperatorSeat u g m now uuid)"
  "keeps subscriptions_ok (revokeStripeOperatorSeat u g m now uuid)"
  "keeps subscriptions_ok (upsertOperatorEntitlement ein now)"
  "keeps subscriptions_ok (revokeOperatorEntitlement m g at)"
  unfolding applyStripeBillingProjection_def project_event_def apply_customer_def
    apply_subscription_def projectBillingSubscription_def
    upsert_subscription_def reconcileStripeAssignedEntitlements_def applyStripeInvoiceProjection_def
    project_invoice_def assignStripeOperatorSeat_def revokeStripeOperatorSeat_def
    upsertOperatorEntitlement_def revokeOperatorEntitlement_def Let_def
  by (intro keeps_intro registerStripeEvent_keeps completeStripeEvent_keeps failStripeEvent_keeps
      projectBillingCustomer_keeps recordAuditEvent_keeps subscription_table_keeps
      entitlement_table_keeps_subscriptions; simp add: subscriptions_ok_other)+

text \<open>Every operation that writes subscriptions or seats, successful or not.\<close>

inductive seat_step :: "cloud_db \<Rightarrow> cloud_db \<Rightarrow> bool" where
  projection: "applyStripeBillingProjection bin now s = (r, t) \<Longrightarrow> seat_step s t"
| invoice: "applyStripeInvoiceProjection iin now s = (r, t) \<Longrightarrow> seat_step s t"
| assign: "assignStripeOperatorSeat userId g m now uuid s = (e, t) \<Longrightarrow> seat_step s t"
| revoke: "revokeStripeOperatorSeat userId g m now uuid s = (v, t) \<Longrightarrow> seat_step s t"
| grant: "upsertOperatorEntitlement ein now s = (e, t) \<Longrightarrow> ei_source ein \<noteq> ''stripe'' \<Longrightarrow> seat_step s t"
| withdraw: "revokeOperatorEntitlement m g at s = (v, t) \<Longrightarrow> seat_step s t"

lemma seat_step_subscriptions: "seat_step s t \<Longrightarrow> subscriptions_ok s \<Longrightarrow> subscriptions_ok t"
  by (erule seat_step.cases) (auto dest: keepsD [OF billing_operations_keep_subscriptions(1)]
      keepsD [OF billing_operations_keep_subscriptions(2)] keepsD [OF billing_operations_keep_subscriptions(3)]
      keepsD [OF billing_operations_keep_subscriptions(4)] keepsD [OF billing_operations_keep_subscriptions(5)]
      keepsD [OF billing_operations_keep_subscriptions(6)])

interpretation seats: invariant_system seat_step seats_books
proof
  fix s t
  assume step: "seat_step s t" and books: "seats_books s"
  then have "subscriptions_ok t" using seat_step_subscriptions [OF step] by (simp add: seats_books_def)
  moreover have inv: "seats_inv s" and ok: "schema_ok subscription_schema (subscriptions s)"
    using books by (simp_all add: seats_books_def subscriptions_ok_def)
  from step have "seats_inv t"
    by cases (use inv in \<open>auto intro: assignStripeOperatorSeat_keeps_seats [OF ok]
      dest: keepsD [OF applyStripeBillingProjection_keeps_seats]
      keepsD [OF applyStripeInvoiceProjection_keeps_seats]
      keepsD [OF revokeStripeOperatorSeat_keeps_seats]
      keepsD [OF revokeOperatorEntitlement_keeps_seats]
      keepsD [OF upsertOperatorEntitlement_keeps_seats]\<close>)
  ultimately show "seats_books t" by (simp add: seats_books_def)
qed

section \<open>Registering and settling events\<close>

lemma insert_stripe_event_Inr:
  "insert_stripe_event e s = (Inr n, t) \<Longrightarrow>
     (n = 1 \<and> findStripeEvent (se_stripe_event_id e) s = None
        \<and> t = set_stripe_events (stripe_events s @ [e]) s)
   \<or> (n = 0 \<and> findStripeEvent (se_stripe_event_id e) s \<noteq> None \<and> t = s)"
  by (auto simp: insert_stripe_event_def se_tbl.insert_Inr split: if_splits)

lemma findStripeEvent_id: "findStripeEvent i s = Some row \<Longrightarrow> se_stripe_event_id row = i"
  by (auto simp: findStripeEvent_def dest: find_SomeD)

lemma getStripeEvent_Inr:
  "getStripeEvent i s = Inr v \<longleftrightarrow> (\<exists>x. requiredStripeText i ''stripeEventId'' 255 = Inr x
     \<and> v = map_option toStripeEvent (findStripeEvent x s))"
  by (auto simp: getStripeEvent_def sbind_eq_Inr)

lemma requiredStripeText_again: "requiredStripeText v f m = Inr x \<Longrightarrow> requiredStripeText x f m = Inr x"
  by (auto simp: requiredStripeText_Inr)

lemma registerStripeEvent_Inr:
  assumes "registerStripeEvent inp s = (Inr (event, inserted), t)"
  obtains i type created received n row where
    "requiredStripeText (sei_stripeEventId inp) ''stripeEventId'' 255 = Inr i"
    and "requiredStripeText (sei_type inp) ''type'' 255 = Inr type"
    and "stripeTimestamp (sei_eventCreatedAt inp) ''eventCreatedAt'' = Inr created"
    and "insert_stripe_event (new_stripe_event i type created received) s = (Inr n, t)"
    and "findStripeEvent i t = Some row" and "event = toStripeEvent row"
    and "se_type row = type" and "se_event_created_at row = created" and "inserted = (n = 1)"
  using assms
  by (auto simp: registerStripeEvent_def getStripeEvent_Inr requiredStripeText_again toStripeEvent_def
      split: option.splits if_splits)

text \<open>Registering an event again finds its row and writes nothing.\<close>

lemma registerStripeEvent_again:
  assumes "requiredStripeText (sei_stripeEventId inp) ''stripeEventId'' 255 = Inr i"
    and "requiredStripeText (sei_type inp) ''type'' 255 = Inr (se_type row)"
    and "stripeTimestamp (sei_eventCreatedAt inp) ''eventCreatedAt'' = Inr (se_event_created_at row)"
    and "stripeTimestamp (sei_receivedAt inp) ''receivedAt'' = Inr received"
    and "findStripeEvent i s = Some row"
  shows "registerStripeEvent inp s = (Inr (toStripeEvent row, False), s)"
proof -
  have "getStripeEvent i s = Inr (Some (toStripeEvent row))"
    using requiredStripeText_again [OF assms(1)] assms(5) by (auto simp: getStripeEvent_Inr)
  with assms show ?thesis
    by (simp add: registerStripeEvent_def insert_stripe_event_def new_stripe_event_def
        toStripeEvent_def obind_def operation_defs)
qed

lemma completed_event_simps [simp]:
  "se_stripe_event_id (completed_event r m p e) = se_stripe_event_id e"
  "se_type (completed_event r m p e) = se_type e"
  "se_event_created_at (completed_event r m p e) = se_event_created_at e"
  "se_processing_result (completed_event r m p e) = r"
  "se_processing_message (completed_event r m p e) = m"
  "se_attempt_count (completed_event r m p e) = se_attempt_count e + 1"
  by (simp_all add: completed_event_def)

lemma completeStripeEvent_Inr:
  assumes "completeStripeEvent i result message processedAt s = (Inr e, t)"
  obtains row where "findStripeEvent i s = Some row"
    and "findStripeEvent i t = Some (completed_event result (event_message message) processedAt row)"
    and "t = set_stripe_events (stripe_events t) s"
proof -
  let ?f = "completed_event result (event_message message) processedAt"
  from assms obtain u where upd: "update_in stripe_events set_stripe_events stripe_event_schema
      (\<lambda>e. se_stripe_event_id e = i) ?f s = (Inr (Suc 0), u)" and "u = t"
    by (auto simp: completeStripeEvent_def event_message_def Let_def split: if_splits option.splits)
  with se_tbl.update_Inr [OF upd] have one: "length (filter (\<lambda>e. se_stripe_event_id e = i) (stripe_events s)) = 1"
    and t: "t = set_stripe_events (map (\<lambda>e. if se_stripe_event_id e = i then ?f e else e) (stripe_events s)) s"
    by auto
  from one obtain row where row: "findStripeEvent i s = Some row"
    unfolding findStripeEvent_def by (cases "find (\<lambda>e. se_stripe_event_id e = i) (stripe_events s)")
      (auto simp: find_None_iff filter_empty_conv dest!: arg_cong [where f = length])
  then have "findStripeEvent i t = Some (?f row)"
    unfolding t by (simp add: findStripeEvent_def set_stripe_events_def find_keyed_update)
  with row show ?thesis by (rule that) (simp add: t set_stripe_events_def)
qed

text \<open>On a table that satisfies its schema the completion of a known event cannot fail.\<close>

lemma completeStripeEvent_ok:
  assumes "schema_ok stripe_event_schema (stripe_events s)" and "findStripeEvent i s = Some row"
    and "result \<noteq> StripePending" and "requiredStripeText i ''stripeEventId'' 255 = Inr i"
  shows "\<exists>e t. completeStripeEvent i result message processedAt s = (Inr e, t)"
proof -
  let ?f = "completed_event result (event_message message) processedAt"
  let ?rows = "map (\<lambda>e. if se_stripe_event_id e = i then ?f e else e) (stripe_events s)"
  have "update_in stripe_events set_stripe_events stripe_event_schema (\<lambda>e. se_stripe_event_id e = i) ?f s
    = (Inr (length (filter (\<lambda>e. se_stripe_event_id e = i) (stripe_events s))), set_stripe_events ?rows s)"
    using assms(1,3)
    by (intro se_tbl.update_ok) (auto simp: schema_ok_def row_ok_iff stripe_event_schema_def
        completed_event_def event_message_def split: option.splits)
  moreover have "distinct (map se_stripe_event_id (stripe_events s))"
    by (rule schema_ok_distinct [OF assms(1), where u = "(''stripe_event.stripe_event_id'', \<lambda>e. Some [SText (se_stripe_event_id e)])"
          and g = "\<lambda>i. [SText i]"]) (simp_all add: stripe_event_schema_def)
  then have "filter (\<lambda>e. se_stripe_event_id e = i) (stripe_events s) = [row]"
    using assms(2) filter_key_single [of se_stripe_event_id "stripe_events s" row]
    by (auto simp: findStripeEvent_def dest: find_SomeD)
  moreover have "findStripeEvent i (set_stripe_events ?rows s) = Some (?f row)"
    using assms(2) by (simp add: findStripeEvent_def set_stripe_events_def find_keyed_update)
  ultimately show ?thesis
    using assms(4)
    by (simp add: completeStripeEvent_def event_message_def Let_def getStripeEvent_def obind_def operation_defs)
qed

lemma projections_keep_events:
  "keeps (\<lambda>x. stripe_events x = E) (projectBillingCustomer g i c cin u)"
  "keeps (\<lambda>x. stripe_events x = E) (projectBillingSubscription g i c xin u)"
  "keeps (\<lambda>x. stripe_events x = E) (reconcileStripeAssignedEntitlements subscription u)"
  "keeps (\<lambda>x. stripe_events x = E) (update_in subscriptions set_subscriptions subscription_schema p f)"
  unfolding projectBillingSubscription_def upsert_subscription_def reconcileStripeAssignedEntitlements_def Let_def
  by (intro keeps_intro projectBillingCustomer_keeps su_tbl.upsert_keeps_other su_tbl.update_keeps_other
      en_tbl.update_keeps_other;
      simp add: set_billing_customers_def set_subscriptions_def set_entitlements_def)+

lemma parts_keep_events:
  "keeps (\<lambda>x. stripe_events x = E) (apply_customer g i c cin u c0)"
  "keeps (\<lambda>x. stripe_events x = E) (apply_subscription g i c sin u s0)"
  unfolding apply_customer_def apply_subscription_def by (intro keeps_intro projections_keep_events)+

text \<open>A projection that returns has completed its event as applied or ignored.\<close>

lemma project_event_Inr:
  assumes "project_event inp event inserted at s = (Inr r, t)"
  obtains u message e where "stripe_events u = stripe_events s"
    and "completeStripeEvent (ser_stripeEventId event) (pr_processingResult r) message at u = (Inr e, t)"
    and "pr_processingResult r = StripeApplied \<or> pr_processingResult r = StripeIgnored"
    and "pr_duplicate r = (\<not> inserted)"
proof -
  from assms obtain c sub a b v w u message e where
    "apply_customer (trim (bpi_organizationId inp)) (ser_stripeEventId event) (ser_eventCreatedAt event)
       (bpi_customer inp) at (getBillingCustomer (trim (bpi_organizationId inp)) s) s = (Inr (c, a), v)"
    and "apply_subscription (trim (bpi_organizationId inp)) (ser_stripeEventId event) (ser_eventCreatedAt event)
       (bpi_subscription inp) at (getBillingSubscription (trim (bpi_organizationId inp)) s) v = (Inr (sub, b), u)"
    and fin: "completeStripeEvent (ser_stripeEventId event) (pr_processingResult r) message at u = (Inr e, t)"
    and result: "pr_processingResult r = StripeApplied \<or> pr_processingResult r = StripeIgnored"
      "pr_duplicate r = (\<not> inserted)"
    by (auto simp: project_event_def Let_def)
  then have "stripe_events u = stripe_events s"
    using keepsD [OF parts_keep_events(1) refl] keepsD [OF parts_keep_events(2)] by metis
  from that [OF this fin result] show ?thesis .
qed

lemma insert_stripe_event_keeps_schema:
  "keeps (\<lambda>x. schema_ok stripe_event_schema (stripe_events x)) (insert_stripe_event e)"
  unfolding insert_stripe_event_def by (intro keeps_intro se_tbl.insert_keeps_schema)

lemma project_event_Inl: "project_event inp event inserted at s = (Inl e, t) \<Longrightarrow> t = s"
  unfolding project_event_def by (rule atomic_rolls_back)

text \<open>What a returned projection of an event leaves in the event table.\<close>

lemma applyStripeBillingProjection_settles:
  assumes "applyStripeBillingProjection inp now s = (Inr r, t)"
  obtains i row where "requiredStripeText (sei_stripeEventId (bpi_event inp)) ''stripeEventId'' 255 = Inr i"
    and "requiredStripeText (sei_type (bpi_event inp)) ''type'' 255 = Inr (se_type row)"
    and "stripeTimestamp (sei_eventCreatedAt (bpi_event inp)) ''eventCreatedAt'' = Inr (se_event_created_at row)"
    and "findStripeEvent i t = Some row" and "se_processing_result row = pr_processingResult r"
    and "settled (toStripeEvent row)"
proof -
  from assms obtain event inserted v where reg: "registerStripeEvent (bpi_event inp) s = (Inr (event, inserted), v)"
    and rest: "(\<not> inserted \<and> settled event \<and> t = v \<and> pr_processingResult r = ser_processingResult event)
      \<or> (\<exists>at. project_event inp event inserted at v = (Inr r, t))"
    by (auto simp: applyStripeBillingProjection_def ocatch_def split: if_splits prod.splits sum.splits) blast+
  from reg obtain i type created received n row where
    e: "requiredStripeText (sei_stripeEventId (bpi_event inp)) ''stripeEventId'' 255 = Inr i"
      "requiredStripeText (sei_type (bpi_event inp)) ''type'' 255 = Inr type"
      "stripeTimestamp (sei_eventCreatedAt (bpi_event inp)) ''eventCreatedAt'' = Inr created"
    and row: "findStripeEvent i v = Some row" "event = toStripeEvent row"
      "se_type row = type" "se_event_created_at row = created"
    by (rule registerStripeEvent_Inr)
  have id: "ser_stripeEventId event = i" using row(2) findStripeEvent_id [OF row(1)] by (simp add: toStripeEvent_def)
  from rest show ?thesis
  proof (elim disjE conjE exE)
    assume "settled event" "t = v" "pr_processingResult r = ser_processingResult event"
    then show ?thesis using that [OF e(1), of row] e row by (simp add: toStripeEvent_def)
  next
    fix at assume "project_event inp event inserted at v = (Inr r, t)"
    then obtain u message x where same: "stripe_events u = stripe_events v"
      and fin: "completeStripeEvent (ser_stripeEventId event) (pr_processingResult r) message at u = (Inr x, t)"
      and res: "pr_processingResult r = StripeApplied \<or> pr_processingResult r = StripeIgnored"
      by (rule project_event_Inr)
    from fin obtain row' where "findStripeEvent i u = Some row'"
      and "findStripeEvent i t = Some (completed_event (pr_processingResult r) (event_message message) at row')"
      unfolding id by (rule completeStripeEvent_Inr)
    with same row(1) have "findStripeEvent i t = Some (completed_event (pr_processingResult r) (event_message message) at row)"
      by (simp add: findStripeEvent_def)
    with res show ?thesis
      using e row by (intro that [OF e(1)]) (auto simp: settled_def toStripeEvent_def)
  qed
qed

section \<open>Properties\<close>

text \<open>C8: No history of webhook projections, invoices, seat assignments, revocations and beta grants,
  failed ones included, ever leaves an organization with more assigned Stripe seats than its
  subscription pays for.\<close>

theorem operator_seats_within_capacity:
  assumes "seat_step\<^sup>*\<^sup>* s t" and "seats_books s" and "r \<in> set (subscriptions t)"
  shows "int (assigned_seats (su_organization_id r) t) \<le> su_entitled_seats r"
  using seats.run_inv [OF assms(1,2)] assms(3) by (simp add: seats_books_def seats_inv_def)

text \<open>A webhook event takes effect once: delivering it again, whatever the payload and the
  clock, changes nothing, is reported as a duplicate and repeats the first result.\<close>

theorem billing_event_applied_once:
  assumes "applyStripeBillingProjection inp now s = (Inr r, t)"
    and "bpi_event again = (bpi_event inp)\<lparr>sei_receivedAt := JInt received\<rparr>"
    and "0 \<le> received" and "received \<le> MAX_SAFE_INTEGER"
  shows "\<exists>r'. applyStripeBillingProjection again later t = (Inr r', t)
    \<and> pr_duplicate r' \<and> pr_processingResult r' = pr_processingResult r"
proof -
  from assms(1) obtain i row where
    e: "requiredStripeText (sei_stripeEventId (bpi_event inp)) ''stripeEventId'' 255 = Inr i"
      "requiredStripeText (sei_type (bpi_event inp)) ''type'' 255 = Inr (se_type row)"
      "stripeTimestamp (sei_eventCreatedAt (bpi_event inp)) ''eventCreatedAt'' = Inr (se_event_created_at row)"
    and row: "findStripeEvent i t = Some row" "se_processing_result row = pr_processingResult r"
      "settled (toStripeEvent row)"
    by (rule applyStripeBillingProjection_settles)
  have "registerStripeEvent (bpi_event again) t = (Inr (toStripeEvent row, False), t)"
    by (rule registerStripeEvent_again) (use e row assms(2-4) in \<open>simp_all add: stripeTimestamp_Inr\<close>)
  with row show ?thesis
    by (simp add: applyStripeBillingProjection_def obind_def operation_defs toStripeEvent_def)
qed

text \<open>A projection that throws after its event was registered rolls everything back but the event,
  which is marked failed with the message and one more attempt, so that a redelivery runs the
  projection again instead of being taken for a duplicate.\<close>

theorem failed_projection_is_retryable:
  assumes "applyStripeBillingProjection inp (JInt at) s = (Inl e, t)"
    and "registerStripeEvent (bpi_event inp) s = (Inr (event, inserted), u)"
    and "\<not> (\<not> inserted \<and> settled event)" and "0 \<le> at" and "at \<le> MAX_SAFE_INTEGER"
    and "schema_ok stripe_event_schema (stripe_events s)"
  shows "t = set_stripe_events (stripe_events t) s
    \<and> (\<exists>row. findStripeEvent (ser_stripeEventId event) t = Some row \<and> se_processing_result row = StripeFailed
        \<and> se_attempt_count row = ser_attemptCount event + 1
        \<and> se_processing_message row = event_message (error_message e))"
proof -
  from assms(2) obtain i type created received n row where
    i: "requiredStripeText (sei_stripeEventId (bpi_event inp)) ''stripeEventId'' 255 = Inr i"
    and ins: "insert_stripe_event (new_stripe_event i type created received) s = (Inr n, u)"
    and row: "findStripeEvent i u = Some row" "event = toStripeEvent row"
    by (rule registerStripeEvent_Inr)
  have id: "ser_stripeEventId event = i" using row(2) findStripeEvent_id [OF row(1)] by (simp add: toStripeEvent_def)
  have ok: "schema_ok stripe_event_schema (stripe_events u)"
    using keepsD [OF insert_stripe_event_keeps_schema assms(6) ins] .
  obtain e' where proj: "project_event inp event inserted at u = (Inl e', u)"
    and handler: "completeStripeEvent i StripeFailed (error_message e') at u = (Inl e, t)
       \<or> (\<exists>x. completeStripeEvent i StripeFailed (error_message e') at u = (Inr x, t) \<and> e = e')"
    using assms(1-5)
    by (auto dest: project_event_Inl simp: applyStripeBillingProjection_def obind_def ocatch_def operation_defs stripeTimestamp_def
        is_safe_int_def MAX_SAFE_INTEGER_def id split: prod.splits sum.splits if_splits)
  have "\<exists>x v. completeStripeEvent i StripeFailed (error_message e') at u = (Inr x, v)"
    by (rule completeStripeEvent_ok [OF ok row(1)]) (use requiredStripeText_again [OF i] in simp_all)
  with handler obtain x where fin: "completeStripeEvent i StripeFailed (error_message e) at u = (Inr x, t)"
    by auto
  from fin obtain row' where "findStripeEvent i u = Some row'"
    and found: "findStripeEvent i t = Some (completed_event StripeFailed (event_message (error_message e)) at row')"
    and t: "t = set_stripe_events (stripe_events t) u"
    by (rule completeStripeEvent_Inr)
  moreover have "set_stripe_events x u = set_stripe_events x s" for x
    using insert_stripe_event_Inr [OF ins] by (auto simp: set_stripe_events_def)
  ultimately show ?thesis
    using row id by (auto simp: toStripeEvent_def)
qed

section \<open>The newest event wins\<close>

lemma newer_event_less: "newer_event c e lc le \<longleftrightarrow> (lc, le) < (c, e)"
  by (auto simp: newer_event_def)

definition customer_version :: "billing_customer_row \<Rightarrow> int \<times> string" where
  "customer_version r = (bc_last_event_created_at r, bc_last_stripe_event_id r)"

interpretation customer_register: versioned_register customer_version replaced_customer
  "\<lambda>r. (bc_stripe_customer_id r, bc_billing_email r, bc_country r, bc_last_event_created_at r, bc_last_stripe_event_id r)"
  by unfold_locales (simp_all add: customer_version_def replaced_customer_def)

definition subscription_version :: "subscription_row \<Rightarrow> int \<times> string" where
  "subscription_version r = (su_last_event_created_at r, su_last_stripe_event_id r)"

definition subscription_content ::
  "subscription_row \<Rightarrow> string \<times> string \<times> string \<times> int \<times> int \<times> int option \<times> int \<times> string"
where
  "subscription_content r = (su_stripe_subscription_id r, su_stripe_price_id r, su_status r, su_entitled_seats r,
     su_cancel_at_period_end r, su_current_period_end r, su_last_event_created_at r, su_last_stripe_event_id r)"

interpretation subscription_register: versioned_register subscription_version replaced_subscription subscription_content
  by unfold_locales (simp_all add: subscription_version_def subscription_content_def replaced_subscription_def)

lemma find_conditional_update:
  assumes "\<And>r. k (f r) = k r"
  shows "find (\<lambda>r. k r = i) (map (\<lambda>r. if k r = i \<and> q r then f r else r) rows)
    = map_option (\<lambda>r. if q r then f r else r) (find (\<lambda>r. k r = i) rows)"
  using assms by (induction rows) auto

lemma find_snoc_None: "find P xs = None \<Longrightarrow> P y \<Longrightarrow> find P (xs @ [y]) = Some y"
  by (induction xs) (auto split: if_splits)

text \<open>An upsert of a subscription is a write to the register of its organization.\<close>

lemma upsert_subscription_register:
  assumes "upsert_subscription new s = (Inr n, t)"
  shows "findSubscription (su_organization_id new) t
    = register_write subscription_version replaced_subscription new (findSubscription (su_organization_id new) s)"
proof -
  have org: "su_organization_id (replaced_subscription new r) = su_organization_id r" for r
    by (simp add: replaced_subscription_def)
  show ?thesis
    using su_tbl.upsert_Inr [OF assms [unfolded upsert_subscription_def]]
    by (auto simp: findSubscription_def set_subscriptions_def find_snoc_None find_conditional_update org
        register_write_def newer_event_less subscription_version_def)
qed

text \<open>The events of one organization, each with its identifier, creation time, payload and the
  time it is processed, delivered one after the other.\<close>

primrec deliver_subscriptions :: "string \<Rightarrow> (string \<times> int \<times> subscription_input \<times> int) list \<Rightarrow> unit dbop" where
  "deliver_subscriptions g [] = oreturn ()"
| "deliver_subscriptions g (d # ds) =
     (case d of (eventId, createdAt, inp, processedAt) \<Rightarrow>
        obind (projectBillingSubscription g eventId createdAt inp processedAt) (\<lambda>_.
        deliver_subscriptions g ds))"

definition delivered_row :: "string \<Rightarrow> string \<times> int \<times> subscription_input \<times> int \<Rightarrow> subscription_row" where
  "delivered_row g d =
     (case d of (eventId, createdAt, inp, processedAt) \<Rightarrow>
        new_subscription g eventId createdAt (trim (si_stripeSubscriptionId inp)) (trim (si_stripePriceId inp))
          (trim (si_status inp)) (int_value (si_entitledSeats inp)) (si_cancelAtPeriodEnd inp)
          (map_option int_value (si_currentPeriodEnd inp)) processedAt)"

lemma reconcile_subscriptions:
  "reconcileStripeAssignedEntitlements sub u s = (Inr n, t) \<Longrightarrow> subscriptions t = subscriptions s"
  by (auto simp: reconcileStripeAssignedEntitlements_def set_entitlements_def dest!: en_tbl.update_Inr)

lemma projectBillingSubscription_Inr:
  assumes "projectBillingSubscription g i c inp u s = (Inr (sub, applied), t)"
  obtains n v k where "upsert_subscription (delivered_row g (i, c, inp, u)) s = (Inr n, v)"
    and "getBillingSubscription g v = Some sub" and "reconcileStripeAssignedEntitlements sub u v = (Inr k, t)"
  using assms
  by (cases "si_currentPeriodEnd inp")
    (auto simp: projectBillingSubscription_def delivered_row_def checked_Inr sbind_eq_Inr
      split: option.splits intro: that)

lemma deliver_subscriptions_register:
  "deliver_subscriptions g ds s = (Inr x, t) \<Longrightarrow> findSubscription g t
     = fold (register_write subscription_version replaced_subscription) (map (delivered_row g) ds) (findSubscription g s)"
proof (induction ds arbitrary: s)
  case Nil
  then show ?case by simp
next
  case (Cons d ds)
  obtain i c inp u where d: "d = (i, c, inp, u)" by (cases d) auto
  with Cons.prems obtain sub applied v where run: "projectBillingSubscription g i c inp u s = (Inr (sub, applied), v)"
    and rest: "deliver_subscriptions g ds v = (Inr x, t)" by auto
  from run obtain n w k where up: "upsert_subscription (delivered_row g d) s = (Inr n, w)"
    and rec: "reconcileStripeAssignedEntitlements sub u w = (Inr k, v)"
    unfolding d by (rule projectBillingSubscription_Inr)
  have "su_organization_id (delivered_row g d) = g" by (simp add: d delivered_row_def)
  with upsert_subscription_register [OF up] reconcile_subscriptions [OF rec]
  have "findSubscription g v
      = register_write subscription_version replaced_subscription (delivered_row g d) (findSubscription g s)"
    by (simp add: findSubscription_def)
  with Cons.IH [OF rest] show ?case by simp
qed

text \<open>C9: Subscription events may arrive in any order: two deliveries of the same events of an
  organization that had no subscription end with the same subscription, that of the newest event,
  whatever the order and the processing times.\<close>

theorem subscription_events_order_free:
  assumes "deliver_subscriptions g ds s = (Inr x, t)" and "deliver_subscriptions g es s' = (Inr y, t')"
    and "findSubscription g s = None" and "findSubscription g s' = None" and "ds \<noteq> []"
    and "(\<lambda>(i, c, inp, u). (i, c, inp)) ` set ds = (\<lambda>(i, c, inp, u). (i, c, inp)) ` set es"
    and "\<And>i c inp u c' inp' u'. (i, c, inp, u) \<in> set ds \<Longrightarrow> (i, c', inp', u') \<in> set ds \<Longrightarrow> c = c' \<and> inp = inp'"
  shows "\<exists>a b. findSubscription g t = Some a \<and> findSubscription g t' = Some b
    \<and> subscription_content a = subscription_content b"
proof -
  define payload where "payload = (\<lambda>(i :: string, c :: int, inp :: subscription_input, u :: int). (i, c, inp))"
  have same: "payload ` set ds = payload ` set es" using assms(6) by (simp add: payload_def)
  have content: "subscription_content (delivered_row g d) = subscription_content (delivered_row g e)"
    and version: "subscription_version (delivered_row g d) = subscription_version (delivered_row g e)"
    if "payload d = payload e" for d e
    using that by (cases d; cases e; simp add: payload_def subscription_content_def subscription_version_def
        delivered_row_def new_subscription_def)+
  have half: "subscription_content ` set (map (delivered_row g) fs) \<subseteq> subscription_content ` set (map (delivered_row g) hs)"
    if "payload ` set fs = payload ` set hs" for fs hs
  proof (rule image_subsetI)
    fix r assume "r \<in> set (map (delivered_row g) fs)"
    then obtain d where d: "r = delivered_row g d" "d \<in> set fs" by auto
    from d(2) that obtain e where e: "e \<in> set hs" "payload d = payload e" by (metis imageE imageI)
    show "subscription_content r \<in> subscription_content ` set (map (delivered_row g) hs)"
      by (rule image_eqI [of _ _ "delivered_row g e"]) (use d(1) e(1) content [OF e(2)] in simp_all)
  qed
  have rep: "\<exists>d' \<in> set ds. payload d' = payload d" if "d \<in> set ds \<union> set es" for d
  proof -
    from that have "payload d \<in> payload ` set ds \<union> payload ` set es" by auto
    then have "payload d \<in> payload ` set ds" unfolding same by simp
    then show ?thesis by auto
  qed
  have "\<exists>r q. fold (register_write subscription_version replaced_subscription) (map (delivered_row g) ds) None = Some r
    \<and> fold (register_write subscription_version replaced_subscription) (map (delivered_row g) es) None = Some q
    \<and> subscription_content r = subscription_content q"
  proof (rule subscription_register.order_free)
    show "subscription_content ` set (map (delivered_row g) ds) = subscription_content ` set (map (delivered_row g) es)"
      using half [OF same] half [OF same [symmetric]] by (rule subset_antisym)
  next
    fix a b
    assume "a \<in> set (map (delivered_row g) ds) \<union> set (map (delivered_row g) es)"
      and "b \<in> set (map (delivered_row g) ds) \<union> set (map (delivered_row g) es)"
    then obtain d e where d: "a = delivered_row g d" "d \<in> set ds \<union> set es"
      and e: "b = delivered_row g e" "e \<in> set ds \<union> set es" by auto
    have "payload d = payload e" if "subscription_version a = subscription_version b"
    proof -
      obtain d' e' where d': "d' \<in> set ds" "payload d' = payload d"
        and e': "e' \<in> set ds" "payload e' = payload e" using rep [OF d(2)] rep [OF e(2)] by blast
      have "subscription_version (delivered_row g d') = subscription_version (delivered_row g e')"
        using that version [OF d'(2)] version [OF e'(2)] d(1) e(1) by simp
      with assms(7) d'(1) e'(1) have "payload d' = payload e'"
        by (cases d'; cases e') (auto simp: payload_def subscription_version_def delivered_row_def new_subscription_def)
      with d'(2) e'(2) show ?thesis by simp
    qed
    moreover have "subscription_content a = subscription_content b \<Longrightarrow> subscription_version a = subscription_version b"
      by (simp add: subscription_content_def subscription_version_def)
    ultimately show "subscription_content a = subscription_content b \<longleftrightarrow> subscription_version a = subscription_version b"
      using content d(1) e(1) by blast
  qed (use assms(5) in simp)
  then show ?thesis
    using deliver_subscriptions_register [OF assms(1)] deliver_subscriptions_register [OF assms(2)] assms(3,4) by auto
qed

section \<open>Invoices move the payment state and the seats\<close>

lemma updated_subscription:
  assumes "update_in subscriptions set_subscriptions subscription_schema (\<lambda>r. su_organization_id r = g)
      (invoiced_row p e ev at) s = (Inr n, t)"
  shows "findSubscription g t = map_option (invoiced_row p e ev at) (findSubscription g s)"
    and "entitlements t = entitlements s"
  using su_tbl.update_Inr [OF assms]
  by (simp_all add: findSubscription_def set_subscriptions_def find_keyed_update)

lemma reconciled_seats:
  assumes "reconcileStripeAssignedEntitlements sub at s = (Inr n, t)"
    and "e \<in> set (entitlements t)" and "stripe_seat (sub_organizationId sub) e"
  shows "(en_state e, en_ends_at e) = stripeEntitlementAccess sub at"
  using en_tbl.update_Inr [OF assms(1) [unfolded reconcileStripeAssignedEntitlements_def]] assms(2,3)
  by (auto simp: set_entitlements_def reconciled_row_def split: if_splits)

lemma project_invoice_applied:
  assumes "project_invoice inp event inserted at s = (Inr r, t)" and "pr_processingResult r = StripeApplied"
  obtains sub u v w n k x message where
    "getBillingSubscriptionByStripeId (ii_stripeSubscriptionId inp) s = Inr (Some sub)"
    and "update_in subscriptions set_subscriptions subscription_schema
        (\<lambda>r. su_organization_id r = sub_organizationId sub)
        (invoiced_row (fst (invoice_payment (ii_type inp) event sub at)) (snd (invoice_payment (ii_type inp) event sub at))
           event at) s = (Inr n, v)"
    and "getBillingSubscription (sub_organizationId sub) v = Some u"
    and "reconcileStripeAssignedEntitlements u at v = (Inr k, w)"
    and "completeStripeEvent (ser_stripeEventId event) StripeApplied message at w = (Inr x, t)"
    and "pr_subscription r = Some u"
  using assms by (auto simp: project_invoice_def Let_def split: option.splits if_splits prod.splits)

lemma completeStripeEvent_entitlements:
  assumes "completeStripeEvent i r m at s = (Inr x, t)"
  shows "entitlements t = entitlements s"
proof -
  from assms have "t = set_stripe_events (stripe_events t) s" by (rule completeStripeEvent_Inr)
  then have "entitlements t = entitlements (set_stripe_events (stripe_events t) s)" by (rule arg_cong)
  then show ?thesis by (simp add: set_stripe_events_def)
qed

text \<open>An applied invoice event settles the payment state and the seats together: a payment restores
  the subscription; a failed payment starts a grace of fourteen days, which no later failure extends,
  and makes the subscription delinquent once it has run out; every assigned seat of the organization
  then carries the access the subscription gives.\<close>

theorem invoice_settles_payment_and_seats:
  assumes "project_invoice inp event inserted at s = (Inr r, t)" and "pr_processingResult r = StripeApplied"
    and "getBillingSubscriptionByStripeId (ii_stripeSubscriptionId inp) s = Inr (Some before)"
    and "trim (sub_organizationId before) = sub_organizationId before"
    and "findSubscription (sub_organizationId before) s = Some row" and "toBillingSubscription row = before"
  shows "\<exists>u. pr_subscription r = Some u \<and> sub_organizationId u = sub_organizationId before
    \<and> sub_entitledSeats u = sub_entitledSeats before
    \<and> (ii_type inp = InvoicePaid \<longrightarrow> sub_paymentState u = PayCurrent \<and> sub_graceEndsAt u = None)
    \<and> (ii_type inp = InvoicePaymentFailed \<longrightarrow>
         (\<exists>deadline. sub_graceEndsAt u = Some deadline
            \<and> deadline = (case sub_graceEndsAt before of
                  Some g \<Rightarrow> g | None \<Rightarrow> ser_eventCreatedAt event + 1209600000)
            \<and> sub_paymentState u = (if at < deadline then PayGrace else PayDelinquent)))
    \<and> (\<forall>e \<in> set (entitlements t). stripe_seat (sub_organizationId before) e \<longrightarrow>
         (en_state e, en_ends_at e) = stripeEntitlementAccess u at)"
proof -
  let ?pay = "invoice_payment (ii_type inp) event before at"
  from assms(1,2) obtain sub u v w n k x message where
    sub: "getBillingSubscriptionByStripeId (ii_stripeSubscriptionId inp) s = Inr (Some sub)"
    and upd: "update_in subscriptions set_subscriptions subscription_schema
        (\<lambda>r. su_organization_id r = sub_organizationId sub)
        (invoiced_row (fst (invoice_payment (ii_type inp) event sub at)) (snd (invoice_payment (ii_type inp) event sub at))
           event at) s = (Inr n, v)"
    and u: "getBillingSubscription (sub_organizationId sub) v = Some u"
    and rec: "reconcileStripeAssignedEntitlements u at v = (Inr k, w)"
    and fin: "completeStripeEvent (ser_stripeEventId event) StripeApplied message at w = (Inr x, t)"
    and res: "pr_subscription r = Some u"
    by (rule project_invoice_applied)
  have before: "sub = before" using sub assms(3) by simp
  have u_row: "u = toBillingSubscription (invoiced_row (fst ?pay) (snd ?pay) event at row)"
    using u updated_subscription(1) [OF upd] assms(4,5) by (simp add: before getBillingSubscription_def)
  have org: "sub_organizationId u = sub_organizationId before"
    using assms(6) by (auto simp: u_row toBillingSubscription_def)
  moreover have "sub_entitledSeats u = sub_entitledSeats before"
    using assms(6) by (auto simp: u_row toBillingSubscription_def)
  moreover have pay: "sub_paymentState u = fst ?pay" "sub_graceEndsAt u = snd ?pay"
    by (simp_all add: u_row toBillingSubscription_def invoiced_row_def)
  moreover have "\<forall>e \<in> set (entitlements t). stripe_seat (sub_organizationId before) e \<longrightarrow>
      (en_state e, en_ends_at e) = stripeEntitlementAccess u at"
    unfolding completeStripeEvent_entitlements [OF fin] using reconciled_seats [OF rec] by (simp add: org)
  ultimately show ?thesis
    using res by (auto simp: invoice_payment_def stripePaymentGraceDurationMs_def Let_def split: option.splits)
qed

section \<open>Seats after an expired grace\<close>

lemma upsert_entitlement_check:
  assumes "failed_check entitlement_schema e = Some n"
    and "list_ex (\<lambda>m. mb_id m = en_membership_id e \<and> mb_organizationId m = en_organization_id e) (members s)"
  shows "upsert_entitlement e s = (Inl (SqliteCheck n), s)"
  using assms(2) en_tbl.upsert_check [OF assms(1), where key = en_membership_id]
  by (simp add: upsert_entitlement_def atomic_def obind_def operation_defs entitlement_membership_guard_def)

text \<open>The assignment of a seat is refused by the table's own constraint, not granted as suspended,
  when the subscription's access is suspended and its grace deadline has passed: the new row would end
  before it starts.\<close>

theorem assign_after_expired_grace_fails:
  assumes "requireOrganizationAdmin userId g s = Inr role"
    and "list_ex (\<lambda>m. mb_id m = trim m0 \<and> mb_organizationId m = g \<and> member_disabled (mb_id m) s = 0) (members s)"
    and "getBillingSubscription g s = Some sub" and "0 \<le> timestamp" and "timestamp \<le> MAX_SAFE_INTEGER"
    and "int (length (filter (\<lambda>e. stripe_seat g e \<and> en_membership_id e \<noteq> trim m0) (entitlements s)))
      < sub_entitledSeats sub"
    and "stripeEntitlementAccess sub timestamp = (EntSuspended, Some deadline)" and "deadline \<le> timestamp"
  shows "assignStripeOperatorSeat userId g m0 (JInt timestamp) uuid s
    = (Inl (SqliteCheck ''ends_at IS NULL OR ends_at > starts_at''), s)"
proof -
  have fail: "upsert_entitlement (seat_row (trim m0) g (EntSuspended, Some deadline) created timestamp) s
      = (Inl (SqliteCheck ''ends_at IS NULL OR ends_at > starts_at''), s)" for created
  proof -
    have "failed_check entitlement_schema (seat_row (trim m0) g (EntSuspended, Some deadline) created timestamp)
        = Some ''ends_at IS NULL OR ends_at > starts_at''"
      using assms(8) by (simp add: failed_check_def entitlement_schema_def seat_row_def)
    then show ?thesis
      by (rule upsert_entitlement_check) (use assms(2) in \<open>auto simp: list_ex_iff seat_row_def\<close>)
  qed
  from assms(1-7) show ?thesis
    by (simp add: assignStripeOperatorSeat_def Let_def stripeTimestamp_def is_safe_int_def MAX_SAFE_INTEGER_def
        atomic_def obind_def operation_defs fail)
qed

section \<open>The properties on a concrete database\<close>

definition sample_subscription :: subscription_row where
  "sample_subscription =
     \<lparr>su_organization_id = ''o1'', su_stripe_subscription_id = ''s1'', su_stripe_price_id = ''p1'',
      su_status = ''active'', su_entitled_seats = 2, su_cancel_at_period_end = 0,
      su_current_period_end = None, su_payment_state = PayDelinquent, su_grace_ends_at = Some 50,
      su_last_invoice_event_created_at = None, su_last_invoice_event_id = None,
      su_last_event_created_at = 3, su_last_stripe_event_id = ''e0'', su_created_at = 3, su_updated_at = 3\<rparr>"

definition billing_db :: cloud_db where
  "billing_db = sample_db
     \<lparr>subscriptions := [sample_subscription],
      entitlements := [\<lparr>en_membership_id = ''m2'', en_organization_id = ''o1'', en_state = EntActive,
        en_source = SrcStripe, en_starts_at = 5, en_ends_at = None, en_created_at = 5, en_updated_at = 5\<rparr>],
      stripe_events := [new_stripe_event ''e1'' ''invoice.paid'' 4 4]\<rparr>"

definition sample_event :: "string \<Rightarrow> stripe_event_input" where
  "sample_event i = \<lparr>sei_stripeEventId = i, sei_type = ''t'', sei_eventCreatedAt = JInt 7, sei_receivedAt = JInt 8\<rparr>"

definition sample_projection :: "string \<Rightarrow> billing_projection_input" where
  "sample_projection g = \<lparr>bpi_event = sample_event ''e2'', bpi_organizationId = g, bpi_customer = None, bpi_subscription = None\<rparr>"

lemmas billing_run = registerStripeEvent_def insert_stripe_event_def findStripeEvent_def getStripeEvent_def
  requiredStripeText_def stripeTimestamp_def is_safe_int_def MAX_SAFE_INTEGER_def trim_def js_space_def
  new_stripe_event_def stripe_event_schema_def set_stripe_events_def length_between_def toStripeEvent_def
  completeStripeEvent_def completed_event_def event_message_def update_in_def sql_update_def settled_def
  getBillingSubscription_def findSubscription_def getBillingCustomer_def findCustomer_def

lemma billing_db_books: "seats_books billing_db"
  by (simp add: seats_books_def subscriptions_ok_def seats_inv_def entitlements_ok_def billing_db_def
      sample_subscription_def row_ok_iff subscription_schema_def entitlement_schema_def flag_ok_def
      length_between_def assigned_seats_def stripe_seat_def trim_def js_space_def)

theorem operator_seats_within_capacity_witness:
  "seat_step\<^sup>*\<^sup>* billing_db (snd (revokeOperatorEntitlement ''m2'' ''o1'' 8 billing_db))
   \<and> (\<exists>r. r \<in> set (subscriptions (snd (revokeOperatorEntitlement ''m2'' ''o1'' 8 billing_db)))
        \<and> int (assigned_seats (su_organization_id r) (snd (revokeOperatorEntitlement ''m2'' ''o1'' 8 billing_db)))
            \<le> su_entitled_seats r)"
proof -
  let ?t = "snd (revokeOperatorEntitlement ''m2'' ''o1'' 8 billing_db)"
  have step: "seat_step\<^sup>*\<^sup>* billing_db ?t"
    by (rule r_into_rtranclp, rule seat_step.withdraw [where v = "fst (revokeOperatorEntitlement ''m2'' ''o1'' 8 billing_db)"])
      simp
  have sub: "sample_subscription \<in> set (subscriptions ?t)"
    by (simp add: revokeOperatorEntitlement_def obind_def operation_defs update_in_def sql_update_def row_error_def
        failed_check_def failed_unique_def entitlement_schema_def set_entitlements_def billing_db_def trim_def js_space_def)
  show ?thesis using operator_seats_within_capacity [OF step billing_db_books sub] step sub by blast
qed

theorem billing_event_applied_once_witness:
  "\<exists>r t r'. applyStripeBillingProjection (sample_projection ''o1'') (JInt 9) billing_db = (Inr r, t)
     \<and> applyStripeBillingProjection (sample_projection ''o1'') (JInt 30) t = (Inr r', t) \<and> pr_duplicate r'"
proof -
  have "\<exists>r t. applyStripeBillingProjection (sample_projection ''o1'') (JInt 9) billing_db = (Inr r, t)"
    by (simp add: applyStripeBillingProjection_def sample_projection_def sample_event_def billing_run
        project_event_def apply_customer_def apply_subscription_def ocatch_def Let_def sample_run billing_db_def)
  then obtain r t where run: "applyStripeBillingProjection (sample_projection ''o1'') (JInt 9) billing_db = (Inr r, t)"
    by blast
  have "bpi_event (sample_projection ''o1'') = (bpi_event (sample_projection ''o1''))\<lparr>sei_receivedAt := JInt 8\<rparr>"
    by (simp add: sample_projection_def sample_event_def)
  from billing_event_applied_once [OF run this, of "JInt 30"] run show ?thesis
    by (auto simp: MAX_SAFE_INTEGER_def)
qed

theorem failed_projection_is_retryable_witness:
  "\<exists>e t. applyStripeBillingProjection (sample_projection ''o9'') (JInt 9) billing_db = (Inl e, t)
     \<and> (\<exists>row. findStripeEvent ''e2'' t = Some row \<and> se_processing_result row = StripeFailed \<and> se_attempt_count row = 1)"
proof -
  have "\<exists>e t. applyStripeBillingProjection (sample_projection ''o9'') (JInt 9) billing_db = (Inl e, t)"
    by (simp add: applyStripeBillingProjection_def sample_projection_def sample_event_def billing_run
        project_event_def apply_customer_def apply_subscription_def ocatch_def Let_def sample_run billing_db_def)
  then obtain e t where run: "applyStripeBillingProjection (sample_projection ''o9'') (JInt 9) billing_db = (Inl e, t)"
    by blast
  have "\<exists>event u. registerStripeEvent (bpi_event (sample_projection ''o9'')) billing_db = (Inr (event, True), u)
      \<and> ser_stripeEventId event = ''e2'' \<and> ser_attemptCount event = 0"
    by (simp add: sample_projection_def sample_event_def billing_run sample_run billing_db_def Let_def)
  then obtain event u where reg: "registerStripeEvent (bpi_event (sample_projection ''o9'')) billing_db = (Inr (event, True), u)"
    and i: "ser_stripeEventId event = ''e2''" "ser_attemptCount event = 0" by blast
  have ok: "schema_ok stripe_event_schema (stripe_events billing_db)"
    by (simp add: billing_db_def row_ok_iff stripe_event_schema_def new_stripe_event_def length_between_def)
  from failed_projection_is_retryable [OF run reg _ _ _ ok] run i show ?thesis
    by (auto simp: MAX_SAFE_INTEGER_def)
qed

theorem assign_after_expired_grace_fails_witness:
  "assignStripeOperatorSeat ''u1'' ''o1'' ''m1'' (JInt 60) ''a'' billing_db
    = (Inl (SqliteCheck ''ends_at IS NULL OR ends_at > starts_at''), billing_db)"
  by (rule assign_after_expired_grace_fails [where role = "''owner''" and deadline = 50
        and sub = "toBillingSubscription sample_subscription"])
    (simp_all add: billing_db_def sample_db_def empty_db_def requireOrganizationAdmin_def find_membership_def
      member_disabled_def is_admin_role_def billing_run sample_subscription_def toBillingSubscription_def
      stripe_seat_def stripeEntitlementAccess_def)

definition sample_plan :: "int \<Rightarrow> subscription_input" where
  "sample_plan seats = \<lparr>si_stripeSubscriptionId = ''s1'', si_stripePriceId = ''p1'', si_status = ''active'',
     si_entitledSeats = JInt seats, si_cancelAtPeriodEnd = False, si_currentPeriodEnd = None\<rparr>"

lemmas subscription_run = projectBillingSubscription_def sample_plan_def upsert_subscription_def upsert_in_def
  new_subscription_def replaced_subscription_def subscription_schema_def set_subscriptions_def newer_event_def
  reconcileStripeAssignedEntitlements_def assigned_seats_def toBillingSubscription_def set_entitlements_def
  flag_ok_def

theorem subscription_events_order_free_witness:
  "\<exists>t t' a b. deliver_subscriptions ''o1'' [(''e1'', 5, sample_plan 3, 9), (''e2'', 6, sample_plan 4, 10)] sample_db = (Inr (), t)
     \<and> deliver_subscriptions ''o1'' [(''e2'', 6, sample_plan 4, 11), (''e1'', 5, sample_plan 3, 12)] sample_db = (Inr (), t')
     \<and> findSubscription ''o1'' t = Some a \<and> findSubscription ''o1'' t' = Some b
     \<and> subscription_content a = subscription_content b"
proof -
  let ?ds = "[(''e1'', 5, sample_plan 3, 9), (''e2'', 6, sample_plan 4, 10)]"
  let ?es = "[(''e2'', 6, sample_plan 4, 11), (''e1'', 5, sample_plan 3, 12)]"
  have "\<exists>t. deliver_subscriptions ''o1'' ?ds sample_db = (Inr (), t)"
    by (simp add: subscription_run billing_run sample_run Let_def)
  then obtain t where ds: "deliver_subscriptions ''o1'' ?ds sample_db = (Inr (), t)" by blast
  have "\<exists>t. deliver_subscriptions ''o1'' ?es sample_db = (Inr (), t)"
    by (simp add: subscription_run billing_run sample_run Let_def)
  then obtain t' where es: "deliver_subscriptions ''o1'' ?es sample_db = (Inr (), t')" by blast
  have none: "findSubscription ''o1'' sample_db = None" by (simp add: findSubscription_def sample_db_def empty_db_def)
  have "\<exists>a b. findSubscription ''o1'' t = Some a \<and> findSubscription ''o1'' t' = Some b
    \<and> subscription_content a = subscription_content b"
    by (rule subscription_events_order_free [OF ds es none none]) auto
  with ds es show ?thesis by blast
qed

theorem invoice_settles_payment_and_seats_witness:
  "\<exists>r t u. project_invoice \<lparr>ii_stripeEventId = ''e1'', ii_type = InvoicePaid, ii_eventCreatedAt = JInt 4,
        ii_receivedAt = JInt 4, ii_stripeSubscriptionId = ''s1''\<rparr>
      (toStripeEvent (new_stripe_event ''e1'' ''invoice.paid'' 4 4)) True 60 billing_db = (Inr r, t)
    \<and> pr_subscription r = Some u \<and> sub_paymentState u = PayCurrent \<and> sub_graceEndsAt u = None"
proof -
  let ?inp = "\<lparr>ii_stripeEventId = ''e1'', ii_type = InvoicePaid, ii_eventCreatedAt = JInt 4,
        ii_receivedAt = JInt 4, ii_stripeSubscriptionId = ''s1''\<rparr>"
  let ?event = "toStripeEvent (new_stripe_event ''e1'' ''invoice.paid'' 4 4)"
  have found: "getBillingSubscriptionByStripeId (ii_stripeSubscriptionId ?inp) billing_db
      = Inr (Some (toBillingSubscription sample_subscription))"
    by (simp add: getBillingSubscriptionByStripeId_def billing_run billing_db_def sample_subscription_def Let_def)
  have "\<exists>r t. project_invoice ?inp ?event True 60 billing_db = (Inr r, t) \<and> pr_processingResult r = StripeApplied"
    by (simp add: project_invoice_def getBillingSubscriptionByStripeId_def billing_run billing_db_def
        sample_subscription_def sample_run subscription_run invoice_is_newer_def invoice_payment_def
        invoiced_row_def stripe_seat_def reconciled_row_def stripeEntitlementAccess_def entitlement_schema_def Let_def)
  then obtain r t where run: "project_invoice ?inp ?event True 60 billing_db = (Inr r, t)"
    and applied: "pr_processingResult r = StripeApplied" by blast
  have org: "trim (sub_organizationId (toBillingSubscription sample_subscription))
      = sub_organizationId (toBillingSubscription sample_subscription)"
    by (simp add: toBillingSubscription_def sample_subscription_def trim_def js_space_def)
  have row: "findSubscription (sub_organizationId (toBillingSubscription sample_subscription)) billing_db
      = Some sample_subscription"
    by (simp add: findSubscription_def billing_db_def toBillingSubscription_def)
  from invoice_settles_payment_and_seats [OF run applied found org row refl] run show ?thesis by auto
qed

end
