(* ===== verification/Organizations.thy ===== *)
theory Organizations
  imports Billing Publications
begin

text \<open>
  The control plane of an organization: its plan account, its members and their disabling, its
  join code, its name, and the summaries its administrators read.
\<close>

section \<open>Plan accounts\<close>

record plan_account =
  pla_id :: string
  pla_accountType :: plan_account_type
  pla_plan :: nubols_plan
  pla_ownerUserId :: "string option"
  pla_organizationId :: string
  pla_organizationName :: string
  pla_organizationSlug :: string
  pla_createdByUserId :: string
  pla_createdAt :: int
  pla_updatedAt :: int

definition toPlanAccount :: "plan_account_row \<Rightarrow> organization_row \<Rightarrow> plan_account" where
  "toPlanAccount row g =
     \<lparr>pla_id = pa_id row, pla_accountType = pa_account_type row, pla_plan = pa_plan row,
      pla_ownerUserId = pa_owner_user_id row, pla_organizationId = pa_organization_id row,
      pla_organizationName = og_name g, pla_organizationSlug = og_slug g,
      pla_createdByUserId = pa_created_by_user_id row, pla_createdAt = pa_created_at row,
      pla_updatedAt = pa_updated_at row\<rparr>"

definition plan_account_schema :: "plan_account_row schema" where
  "plan_account_schema =
     \<lparr>checks =
        [(''created_at >= 0'', \<lambda>a. pa_created_at a \<ge> 0),
         (''updated_at >= created_at'', \<lambda>a. pa_updated_at a \<ge> pa_created_at a),
         (''account_type'', \<lambda>a.
            (pa_account_type a = AccIndividual \<and> pa_plan a = PlanIndividual \<and> pa_owner_user_id a \<noteq> None)
            \<or> (pa_account_type a = AccOrganization
               \<and> (pa_plan a = PlanTeam \<or> pa_plan a = PlanBusiness \<or> pa_plan a = PlanEnterprise)
               \<and> pa_owner_user_id a = None))],
      uniques =
        [(''plan_account.id'', \<lambda>a. Some [SText (pa_id a)]),
         (''plan_account.organization_id'', \<lambda>a. Some [SText (pa_organization_id a)]),
         (''plan_account.owner_user_id'', \<lambda>a.
            if pa_account_type a = AccIndividual then map_option (\<lambda>u. [SText u]) (pa_owner_user_id a) else None)]\<rparr>"

definition set_plan_accounts :: "plan_account_row list \<Rightarrow> cloud_db \<Rightarrow> cloud_db" where
  "set_plan_accounts rows db = db\<lparr>plan_accounts := rows\<rparr>"

interpretation pa_tbl: sql_table plan_accounts set_plan_accounts plan_account_schema
  by unfold_locales (simp_all add: set_plan_accounts_def)

definition getPlanAccountByOrganizationId :: "string \<Rightarrow> cloud_db \<Rightarrow> plan_account option" where
  "getPlanAccountByOrganizationId organizationId db =
     (case find (\<lambda>a. pa_organization_id a = trim organizationId
              \<and> find_organization (pa_organization_id a) db \<noteq> None) (plan_accounts db) of
        None \<Rightarrow> None
      | Some a \<Rightarrow> map_option (toPlanAccount a) (find_organization (pa_organization_id a) db))"

text \<open>An organization account is listed once for each enabled membership the join finds.\<close>

definition listPlanAccountsForUser :: "string \<Rightarrow> cloud_db \<Rightarrow> db_error + plan_account list" where
  "listPlanAccountsForUser rawUserId db =
     (let userId = trim rawUserId in
      if userId = [] then Inl (JsError ''userId is required'')
      else
        let joined = concat (map (\<lambda>a. case find_organization (pa_organization_id a) db of
                None \<Rightarrow> []
              | Some g \<Rightarrow>
                  (let ms = filter (\<lambda>m. mb_organizationId m = pa_organization_id a \<and> mb_userId m = userId) (members db) in
                   if pa_account_type a = AccIndividual
                   then (if pa_owner_user_id a = Some userId then replicate (max 1 (length ms)) (toPlanAccount a g) else [])
                   else map (\<lambda>_. toPlanAccount a g) (filter (\<lambda>m. member_disabled (mb_id m) db = 0) ms)))
              (plan_accounts db))
        in Inr (sort_key (\<lambda>a. (if pla_accountType a = AccIndividual then 0 else 1 :: int,
                                nocase (pla_organizationName a), pla_id a)) joined))"

record plan_input =
  pli_userId :: string
  pli_accountType :: plan_account_type
  pli_plan :: nubols_plan
  pli_organizationId :: string

definition valid_plan :: "plan_account_type \<Rightarrow> nubols_plan \<Rightarrow> bool" where
  "valid_plan accountType plan \<longleftrightarrow>
     (if accountType = AccIndividual then plan = PlanIndividual
      else plan = PlanTeam \<or> plan = PlanBusiness \<or> plan = PlanEnterprise)"

text \<open>The foreign keys of the owner and the creator; that of the organization comes from the membership.\<close>

definition insert_plan_account :: "plan_account_row \<Rightarrow> unit dbop" where
  "insert_plan_account a = atomic (
     obind (insert_into plan_accounts set_plan_accounts plan_account_schema a) (\<lambda>_.
     obind (oget (\<lambda>db. find_organization (pa_organization_id a) db \<noteq> None
                      \<and> find_user (pa_created_by_user_id a) db \<noteq> None)) (\<lambda>known.
     if known then oreturn () else othrow SqliteForeignKey)))"

definition is_unique_error :: "db_error \<Rightarrow> bool" where
  "is_unique_error e \<longleftrightarrow> (case e of SqliteUnique _ \<Rightarrow> True | _ \<Rightarrow> False)"

definition new_plan_account :: "plan_input \<Rightarrow> string \<Rightarrow> string \<Rightarrow> string \<Rightarrow> int \<Rightarrow> plan_account_row" where
  "new_plan_account inp userId organizationId newId timestamp =
     \<lparr>pa_id = newId, pa_account_type = pli_accountType inp, pa_plan = pli_plan inp,
      pa_owner_user_id = (if pli_accountType inp = AccIndividual then Some userId else None),
      pa_organization_id = organizationId, pa_created_by_user_id = userId,
      pa_created_at = timestamp, pa_updated_at = timestamp\<rparr>"

definition createPlanAccount :: "plan_input \<Rightarrow> string \<Rightarrow> int \<Rightarrow> plan_account dbop" where
  "createPlanAccount inp newId now =
     (let userId = trim (pli_userId inp); organizationId = trim (pli_organizationId inp) in
     obind (olift (require (userId \<noteq> []) (JsError ''userId is required''))) (\<lambda>_.
     obind (olift (require (organizationId \<noteq> []) (JsError ''organizationId is required''))) (\<lambda>_.
     obind (olift (require (valid_plan (pli_accountType inp) (pli_plan inp))
              (JsError ''The selected plan does not match the account type''))) (\<lambda>_. atomic (
     obind (oget (\<lambda>db. case find_membership userId organizationId db of None \<Rightarrow> False
                | Some m \<Rightarrow> member_disabled (mb_id m) db \<noteq> 1 \<and> mb_role m = ''owner'')) (\<lambda>owner.
     obind (olift (require owner OrganizationAccessDeniedError)) (\<lambda>_.
     obind (oget (getPlanAccountByOrganizationId organizationId)) (\<lambda>existing.
     case existing of
       Some a \<Rightarrow>
         if pla_accountType a = pli_accountType inp \<and> pla_plan a = pli_plan inp
            \<and> (pli_accountType inp \<noteq> AccIndividual \<or> pla_ownerUserId a = Some userId)
         then oreturn a
         else othrow (PlanAccountConflictError ''This organization already has a different plan account'')
     | None \<Rightarrow>
         obind (ocatch (insert_plan_account (new_plan_account inp userId organizationId newId now))
                  (\<lambda>e. othrow (if is_unique_error e
                       then PlanAccountConflictError ''This user or organization already has a plan account'' else e))) (\<lambda>_.
         obind (oget (getPlanAccountByOrganizationId organizationId)) (\<lambda>created.
         case created of
           None \<Rightarrow> othrow (JsError ''Plan account could not be created'')
         | Some a \<Rightarrow> oreturn a))))))))))"

section \<open>Members\<close>

definition role_rank :: "string \<Rightarrow> int" where
  "role_rank role = (if role = ''owner'' then 0 else if role = ''admin'' then 1 else 2)"

record member_summary =
  oms_membershipId :: string
  oms_userId :: string
  oms_name :: string
  oms_email :: string
  oms_role :: string
  oms_disabled :: bool
  oms_joinedAt :: int
  oms_operatorEntitlement :: "(entitlement_source \<times> entitlement_state \<times> int option) option"

record seat_summary =
  oss_purchased :: int
  oss_assigned :: int
  oss_paymentState :: payment_state
  oss_graceEndsAt :: "int option"

record members_summary =
  oml_actorRole :: string
  oml_operatorSeats :: "seat_summary option"
  oml_members :: "member_summary list"

text \<open>An expired grace reads as suspended, and as delinquent for the subscription.\<close>

definition effective_entitlement :: "entitlement_row \<Rightarrow> int \<Rightarrow> entitlement_source \<times> entitlement_state \<times> int option" where
  "effective_entitlement e now =
     (en_source e,
      (if en_state e = EntGrace \<and> (case en_ends_at e of None \<Rightarrow> False | Some t \<Rightarrow> t \<le> now)
       then EntSuspended else en_state e),
      en_ends_at e)"

definition effective_payment :: "billing_subscription \<Rightarrow> int \<Rightarrow> payment_state" where
  "effective_payment subscription now =
     (if sub_paymentState subscription = PayGrace
         \<and> (case sub_graceEndsAt subscription of None \<Rightarrow> False | Some g \<Rightarrow> g \<le> now)
      then PayDelinquent else sub_paymentState subscription)"

definition member_summary_of :: "cloud_db \<Rightarrow> int \<Rightarrow> member_row \<Rightarrow> user_row \<Rightarrow> member_summary" where
  "member_summary_of db now m u =
     \<lparr>oms_membershipId = mb_id m, oms_userId = mb_userId m, oms_name = us_name u, oms_email = us_email u,
      oms_role = mb_role m, oms_disabled = (member_disabled (mb_id m) db = 1), oms_joinedAt = mb_createdAt m,
      oms_operatorEntitlement =
        map_option (\<lambda>e. effective_entitlement e now)
          (find (\<lambda>e. en_membership_id e = mb_id m) (entitlements db))\<rparr>"

definition organization_roster :: "string \<Rightarrow> cloud_db \<Rightarrow> (member_row \<times> user_row) list" where
  "organization_roster organizationId db =
     List.map_filter (\<lambda>m. if mb_organizationId m = organizationId
         then map_option (\<lambda>u. (m, u)) (find_user (mb_userId m) db) else None) (members db)"

definition getOrganizationMembers :: "string \<Rightarrow> string \<Rightarrow> int \<Rightarrow> cloud_db \<Rightarrow> db_error + members_summary" where
  "getOrganizationMembers userId organizationId now db =
     sbind (requireOrganizationAdmin userId organizationId db) (\<lambda>actorRole.
     let rows = sort_key (\<lambda>(m, u). (role_rank (mb_role m), nocase (us_name u), mb_id m))
                  (organization_roster organizationId db)
     in Inr \<lparr>oml_actorRole = actorRole,
          oml_operatorSeats = map_option (\<lambda>subscription.
              \<lparr>oss_purchased = sub_entitledSeats subscription,
               oss_assigned = int (assigned_seats organizationId db),
               oss_paymentState = effective_payment subscription now,
               oss_graceEndsAt = sub_graceEndsAt subscription\<rparr>)
            (getBillingSubscription organizationId db),
          oml_members = map (\<lambda>(m, u). member_summary_of db now m u) rows\<rparr>)"

definition disabled_state :: "string \<Rightarrow> string \<Rightarrow> bool \<Rightarrow> int \<Rightarrow> member_state_row" where
  "disabled_state membershipId userId disabled timestamp =
     \<lparr>ms_member_id = membershipId, ms_disabled = (if disabled then 1 else 0),
      ms_disabled_by = (if disabled then Some userId else None),
      ms_disabled_at = (if disabled then Some timestamp else None), ms_updated_at = timestamp\<rparr>"

definition replaced_state :: "member_state_row \<Rightarrow> member_state_row \<Rightarrow> member_state_row" where
  "replaced_state excluded r =
     r\<lparr>ms_disabled := ms_disabled excluded, ms_disabled_by := ms_disabled_by excluded,
       ms_disabled_at := ms_disabled_at excluded, ms_updated_at := ms_updated_at excluded\<rparr>"

definition setOrganizationMemberDisabled ::
  "string \<Rightarrow> string \<Rightarrow> string \<Rightarrow> bool \<Rightarrow> int \<Rightarrow> member_summary dbop"
where
  "setOrganizationMemberDisabled userId organizationId membershipId disabled now =
     obind (oread (requireOrganizationAdmin userId organizationId)) (\<lambda>_.
     obind (oget (\<lambda>db. find (\<lambda>m. mb_id m = membershipId \<and> mb_organizationId m = organizationId) (members db))) (\<lambda>target.
     case target of
       None \<Rightarrow> othrow (OrganizationMemberMutationError ''member_not_found'' ''Organization member not found'')
     | Some m \<Rightarrow>
       if mb_role m = ''owner''
       then othrow (OrganizationMemberMutationError ''owner_protected'' ''The organization owner cannot be disabled'')
       else if mb_userId m = userId
       then othrow (OrganizationMemberMutationError ''self_protected'' ''You cannot disable your own membership'')
       else
       obind (upsert_in member_states set_member_states member_state_schema ms_member_id
                (disabled_state membershipId userId disabled now) (\<lambda>_. True)
                (replaced_state (disabled_state membershipId userId disabled now))) (\<lambda>_.
       obind (oread (getOrganizationMembers userId organizationId now)) (\<lambda>roster.
       case find (\<lambda>c. oms_membershipId c = membershipId) (oml_members roster) of
         None \<Rightarrow> othrow (JsError ''Organization member could not be reloaded'')
       | Some c \<Rightarrow> oreturn c))))"

record operator_summary =
  oos_workspaceId :: "string option"
  oos_membershipId :: string
  oos_name :: string
  oos_email :: string
  oos_state :: "workspace_state option"
  oos_disabled :: bool
  oos_createdAt :: "int option"
  oos_updatedAt :: "int option"

text \<open>The state \<open>None\<close> is \<open>'not_created'\<close>.\<close>

definition getOrganizationOperators :: "string \<Rightarrow> string \<Rightarrow> cloud_db \<Rightarrow> db_error + operator_summary list" where
  "getOrganizationOperators userId organizationId db =
     sbind (requireOrganizationAdmin userId organizationId db) (\<lambda>_.
     Inr (map (\<lambda>(m, u).
         let w = find (\<lambda>w. ws_member_id w = mb_id m) (workspaces db) in
         \<lparr>oos_workspaceId = map_option ws_id w, oos_membershipId = mb_id m, oos_name = us_name u,
          oos_email = us_email u, oos_state = map_option ws_state w,
          oos_disabled = (member_disabled (mb_id m) db = 1),
          oos_createdAt = map_option ws_created_at w, oos_updatedAt = map_option ws_updated_at w\<rparr>)
       (sort_key (\<lambda>(m, u). (nocase (us_name u), mb_id m)) (organization_roster organizationId db))))"

section \<open>Summaries\<close>

record dashboard_options =
  dao_userId :: string
  dao_organizationId :: string
  dao_since :: js_num
  dao_heartbeatMaxAgeMs :: "js_num option"

record dashboard =
  das_organizationScope :: bool
  das_enabledMembers :: "nat option"
  das_entitledMembers :: nat
  das_ready :: nat
  das_total :: nat
  das_sessions :: nat
  das_modelTurns :: nat
  das_totalTokens :: int
  das_estimatedCostMicrousd :: int
  das_provisioningFailures :: nat
  das_healthyWorkers :: nat
  das_totalWorkers :: nat

text \<open>
  A dashboard covers the whole organization for its administrators, the own data for everybody
  else and in individual accounts. \<open>scoped\<close> is \<open>(? = 1 OR membership_id = ?)\<close>.
\<close>

definition dashboard_workspaces :: "string \<Rightarrow> (string \<Rightarrow> bool) \<Rightarrow> cloud_db \<Rightarrow> workspace_row list" where
  "dashboard_workspaces organizationId scoped db =
     filter (\<lambda>w. ws_organization_id w = organizationId \<and> scoped (ws_member_id w)) (workspaces db)"

definition dashboard_usage :: "string \<Rightarrow> (string \<Rightarrow> bool) \<Rightarrow> int \<Rightarrow> cloud_db \<Rightarrow> usage_event_row list" where
  "dashboard_usage organizationId scoped since db =
     filter (\<lambda>e. ue_organization_id e = organizationId \<and> scoped (ue_membership_id e) \<and> ue_occurred_at e \<ge> since)
       (usage_events db)"

definition dashboard_entitled :: "string \<Rightarrow> (string \<Rightarrow> bool) \<Rightarrow> int \<Rightarrow> cloud_db \<Rightarrow> nat" where
  "dashboard_entitled organizationId scoped timestamp db =
     length (filter (\<lambda>e. en_organization_id e = organizationId \<and> scoped (en_membership_id e)
          \<and> entitled_row timestamp e
          \<and> list_ex (\<lambda>m. mb_id m = en_membership_id e \<and> mb_organizationId m = en_organization_id e
               \<and> member_disabled (mb_id m) db = 0) (members db))
       (entitlements db))"

definition dashboard_failures :: "string \<Rightarrow> (string \<Rightarrow> bool) \<Rightarrow> int \<Rightarrow> cloud_db \<Rightarrow> nat" where
  "dashboard_failures organizationId scoped since db =
     length (filter (\<lambda>j. pj_status j = JobFailed
          \<and> (case pj_completed_at j of None \<Rightarrow> pj_updated_at j | Some t \<Rightarrow> t) \<ge> since
          \<and> list_ex (\<lambda>w. ws_id w = pj_workspace_id j) (dashboard_workspaces organizationId scoped db))
       (provisioning_jobs db))"

definition dashboard_hosts :: "string \<Rightarrow> (string \<Rightarrow> bool) \<Rightarrow> cloud_db \<Rightarrow> worker_host_row list" where
  "dashboard_hosts organizationId scoped db =
     filter (\<lambda>h. list_ex (\<lambda>w. ws_worker_host_id w = Some (wh_id h)) (dashboard_workspaces organizationId scoped db))
       (worker_hosts db)"

definition getOrganizationDashboardSummary :: "dashboard_options \<Rightarrow> int \<Rightarrow> cloud_db \<Rightarrow> db_error + dashboard" where
  "getOrganizationDashboardSummary opts timestamp db =
     (case find_membership (dao_userId opts) (dao_organizationId opts) db of
        None \<Rightarrow> Inl OrganizationAccessDeniedError
      | Some actor \<Rightarrow>
        if member_disabled (mb_id actor) db = 1 then Inl OrganizationAccessDeniedError
        else
        let organizationId = dao_organizationId opts;
            heartbeatMaxAgeMs = (case dao_heartbeatMaxAgeMs opts of None \<Rightarrow> JInt 30000 | Some h \<Rightarrow> h) in
        if \<not> is_safe_integer (dao_since opts) \<or> int_value (dao_since opts) < 0 \<or> int_value (dao_since opts) > timestamp
        then Inl (JsError ''Dashboard range is invalid'')
        else if \<not> is_safe_integer heartbeatMaxAgeMs \<or> int_value heartbeatMaxAgeMs < 1000
        then Inl (JsError ''Dashboard worker heartbeat age is invalid'')
        else
        let since = int_value (dao_since opts);
            organizationScope = (\<not> is_individual_organization organizationId db \<and> is_admin_role (mb_role actor));
            scoped = (\<lambda>membershipId. organizationScope \<or> membershipId = mb_id actor);
            operators = dashboard_workspaces organizationId scoped db;
            usage = dashboard_usage organizationId scoped since db;
            hosts = dashboard_hosts organizationId scoped db
        in Inr \<lparr>das_organizationScope = organizationScope,
             das_enabledMembers = (if organizationScope
               then Some (length (filter (\<lambda>m. mb_organizationId m = organizationId
                      \<and> member_disabled (mb_id m) db = 0) (members db))) else None),
             das_entitledMembers = dashboard_entitled organizationId scoped timestamp db,
             das_ready = length (filter (\<lambda>w. ws_state w = WsReady) operators),
             das_total = length operators,
             das_sessions = length (remdups (map (\<lambda>e. (ue_workspace_id e, ue_session_id e)) usage)),
             das_modelTurns = length usage,
             das_totalTokens = sum_list (map ue_input_tokens usage) + sum_list (map ue_output_tokens usage),
             das_estimatedCostMicrousd = sum_list (map ue_estimated_cost_microusd usage),
             das_provisioningFailures = dashboard_failures organizationId scoped since db,
             das_healthyWorkers = length (filter (\<lambda>h. wh_enabled h = 1 \<and> wh_state h = WorkerHealthy
                 \<and> (case wh_last_heartbeat_at h of None \<Rightarrow> False
                    | Some t \<Rightarrow> t \<ge> timestamp - int_value heartbeatMaxAgeMs)) hosts),
             das_totalWorkers = length hosts\<rparr>)"

record admin_summary =
  oas_organizationId :: string
  oas_name :: string
  oas_slug :: string
  oas_actorRole :: string
  oas_joinCodeLookupKey :: "string option"
  oas_admins :: "member_summary list"

definition findJoinCode :: "string \<Rightarrow> cloud_db \<Rightarrow> join_code_row option" where
  "findJoinCode organizationId db = find (\<lambda>c. jc_organization_id c = organizationId) (join_codes db)"

definition getOrganizationAdminSummary :: "string \<Rightarrow> string \<Rightarrow> int \<Rightarrow> cloud_db \<Rightarrow> db_error + admin_summary" where
  "getOrganizationAdminSummary userId organizationId now db =
     sbind (requireOrganizationAdmin userId organizationId db) (\<lambda>actorRole.
     case find_organization organizationId db of
       None \<Rightarrow> Inl OrganizationAccessDeniedError
     | Some g \<Rightarrow>
         sbind (getOrganizationMembers userId organizationId now db) (\<lambda>roster.
         Inr \<lparr>oas_organizationId = organizationId, oas_name = og_name g, oas_slug = og_slug g,
              oas_actorRole = actorRole,
              oas_joinCodeLookupKey = map_option jc_lookup_key (findJoinCode organizationId db),
              oas_admins = filter (\<lambda>c. is_admin_role (oms_role c)) (oml_members roster)\<rparr>))"

section \<open>Joining\<close>

definition join_code_schema :: "join_code_row schema" where
  "join_code_schema =
     \<lparr>checks = [],
      uniques =
        [(''organization_join_code.organization_id'', \<lambda>c. Some [SText (jc_organization_id c)]),
         (''organization_join_code.lookup_key'', \<lambda>c. Some [SText (jc_lookup_key c)])]\<rparr>"

definition set_join_codes :: "join_code_row list \<Rightarrow> cloud_db \<Rightarrow> cloud_db" where
  "set_join_codes rows db = db\<lparr>join_codes := rows\<rparr>"

interpretation jc_tbl: sql_table join_codes set_join_codes join_code_schema
  by unfold_locales (simp_all add: set_join_codes_def)

definition new_code :: "string \<Rightarrow> string \<Rightarrow> string \<Rightarrow> int \<Rightarrow> join_code_row" where
  "new_code organizationId lookupKey userId timestamp =
     \<lparr>jc_organization_id = organizationId, jc_lookup_key = lookupKey, jc_created_by = userId,
      jc_created_at = timestamp, jc_updated_at = timestamp\<rparr>"

definition replaced_code :: "join_code_row \<Rightarrow> join_code_row \<Rightarrow> join_code_row" where
  "replaced_code excluded r =
     r\<lparr>jc_lookup_key := jc_lookup_key excluded, jc_created_by := jc_created_by excluded,
       jc_updated_at := jc_updated_at excluded\<rparr>"

text \<open>The foreign keys of the statement hold for an administrator who is a user of the organization.\<close>

definition rotateOrganizationJoinCode :: "string \<Rightarrow> string \<Rightarrow> string \<Rightarrow> int \<Rightarrow> string dbop" where
  "rotateOrganizationJoinCode userId organizationId lookupKey now =
     obind (oread (requireOrganizationAdmin userId organizationId)) (\<lambda>_.
     obind (upsert_in join_codes set_join_codes join_code_schema jc_organization_id
              (new_code organizationId lookupKey userId now) (\<lambda>_. True)
              (replaced_code (new_code organizationId lookupKey userId now))) (\<lambda>_.
     oreturn lookupKey))"

definition resolveOrganizationJoinCode :: "string \<Rightarrow> cloud_db \<Rightarrow> (string \<times> string) option" where
  "resolveOrganizationJoinCode lookupKey db =
     map_option (\<lambda>c. (jc_organization_id c, jc_lookup_key c))
       (find (\<lambda>c. jc_lookup_key c = lookupKey) (join_codes db))"

text \<open>The membership table belongs to Better Auth; its primary key is the identifier.\<close>

definition member_schema :: "member_row schema" where
  "member_schema = \<lparr>checks = [], uniques = [(''member.id'', \<lambda>m. Some [SText (mb_id m)])]\<rparr>"

definition set_members :: "member_row list \<Rightarrow> cloud_db \<Rightarrow> cloud_db" where
  "set_members rows db = db\<lparr>members := rows\<rparr>"

interpretation mb_tbl: sql_table members set_members member_schema
  by unfold_locales (simp_all add: set_members_def)

definition joinOrganizationById :: "string \<Rightarrow> string \<Rightarrow> string \<Rightarrow> int \<Rightarrow> string dbop" where
  "joinOrganizationById userId organizationId newId now =
     obind (oget (find_user userId)) (\<lambda>user.
     obind (olift (require (user \<noteq> None) (OrganizationMemberMutationError ''user_not_found'' ''User not found''))) (\<lambda>_.
     obind (oget (find_organization organizationId)) (\<lambda>organization.
     obind (olift (require (organization \<noteq> None)
              (OrganizationMemberMutationError ''organization_not_found'' ''Organization not found''))) (\<lambda>_.
     obind (oget (find_membership userId organizationId)) (\<lambda>existing.
     case existing of
       Some m \<Rightarrow> oreturn (mb_id m)
     | None \<Rightarrow>
         obind (insert_into members set_members member_schema
           \<lparr>mb_id = newId, mb_organizationId = organizationId, mb_userId = userId, mb_role = ''member'',
            mb_createdAt = now\<rparr>) (\<lambda>_. oreturn newId))))))"

definition updateOrganizationName :: "string \<Rightarrow> string \<Rightarrow> string \<Rightarrow> unit dbop" where
  "updateOrganizationName userId organizationId rawName =
     obind (oread (requireOrganizationAdmin userId organizationId)) (\<lambda>_.
     let name = trim rawName in
     if name = [] \<or> length name > 120
     then othrow (OrganizationMemberMutationError ''invalid_organization_name''
            ''Organization name must contain between 1 and 120 characters'')
     else (\<lambda>db. (Inr (), db\<lparr>organizations :=
            map (\<lambda>g. if og_id g = organizationId then g\<lparr>og_name := name\<rparr> else g) (organizations db)\<rparr>)))"

section \<open>What disabling changes\<close>

lemma disabled_state_simps [simp]:
  "ms_member_id (disabled_state m u d at) = m"
  "ms_disabled (disabled_state m u d at) = (if d then 1 else 0)"
  "ms_member_id (replaced_state e r) = ms_member_id r" "ms_disabled (replaced_state e r) = ms_disabled e"
  by (simp_all add: disabled_state_def replaced_state_def)

lemma upsert_state_Inr:
  assumes "upsert_in member_states set_member_states member_state_schema ms_member_id
      (disabled_state m u d at) (\<lambda>_. True) (replaced_state (disabled_state m u d at)) s = (Inr n, t)"
  shows "member_disabled x t = (if x = m then (if d then 1 else 0) else member_disabled x s)"
    and "t = set_member_states (member_states t) s"
proof -
  note run = ms_tbl.upsert_Inr [OF assms]
  show "t = set_member_states (member_states t) s" using run by (auto simp: set_member_states_def)
  from run show "member_disabled x t = (if x = m then (if d then 1 else 0) else member_disabled x s)"
    by (cases "x = m") (auto simp: member_disabled_def set_member_states_def find_append find_keyed_update
        find_other_update split: option.splits)
qed

lemma setOrganizationMemberDisabled_Inr:
  assumes "setOrganizationMemberDisabled u g m d now s = (Inr c, t)"
  shows "member_disabled x t = (if x = m then (if d then 1 else 0) else member_disabled x s)"
    and "t = set_member_states (member_states t) s"
    and "\<exists>r. r \<in> set (members s) \<and> mb_id r = m \<and> mb_organizationId r = g \<and> mb_role r \<noteq> ''owner'' \<and> mb_userId r \<noteq> u"
proof -
  from assms obtain n r where up: "upsert_in member_states set_member_states member_state_schema ms_member_id
      (disabled_state m u d now) (\<lambda>_. True) (replaced_state (disabled_state m u d now)) s = (Inr n, t)"
    and r: "find (\<lambda>x. mb_id x = m \<and> mb_organizationId x = g) (members s) = Some r"
      "mb_role r \<noteq> ''owner''" "mb_userId r \<noteq> u"
    by (auto simp: setOrganizationMemberDisabled_def split: option.splits if_splits)
  from up show "member_disabled x t = (if x = m then (if d then 1 else 0) else member_disabled x s)"
    by (rule upsert_state_Inr)
  from up show "t = set_member_states (member_states t) s" by (rule upsert_state_Inr)
  from r find_SomeD [OF r(1)] show "\<exists>r. r \<in> set (members s) \<and> mb_id r = m \<and> mb_organizationId r = g
      \<and> mb_role r \<noteq> ''owner'' \<and> mb_userId r \<noteq> u" by blast
qed

text \<open>A throw leaves the state as it was, or comes from the reload after the write.\<close>

lemma setOrganizationMemberDisabled_Inl:
  assumes "setOrganizationMemberDisabled u g m d now s = (Inl e, t)"
  shows "t = s \<or> ((\<exists>r. r \<in> set (members s) \<and> mb_id r = m \<and> mb_organizationId r = g \<and> mb_role r \<noteq> ''owner'')
    \<and> t = set_member_states (member_states t) s
    \<and> (\<forall>x. member_disabled x t = (if x = m then (if d then 1 else 0) else member_disabled x s)))"
proof -
  from assms consider "t = s"
    | n r where "upsert_in member_states set_member_states member_state_schema ms_member_id
        (disabled_state m u d now) (\<lambda>_. True) (replaced_state (disabled_state m u d now)) s = (Inr n, t)"
      and "find (\<lambda>x. mb_id x = m \<and> mb_organizationId x = g) (members s) = Some r" and "mb_role r \<noteq> ''owner''"
    by (auto simp: setOrganizationMemberDisabled_def obind_eq_Inl operation_defs dest: ms_tbl.upsert_Inl
        split: option.splits if_splits)
  then show ?thesis
  proof cases
    case (2 n r)
    with upsert_state_Inr [OF 2(1)] find_SomeD [OF 2(2)] show ?thesis by auto
  qed simp
qed

section \<open>No organization loses its last owner\<close>

definition has_enabled_owner :: "string \<Rightarrow> cloud_db \<Rightarrow> bool" where
  "has_enabled_owner g db \<longleftrightarrow>
     (\<exists>m \<in> set (members db). mb_organizationId m = g \<and> mb_role m = ''owner'' \<and> member_disabled (mb_id m) db = 0)"

definition owner_inv :: "string \<Rightarrow> cloud_db \<Rightarrow> bool" where
  "owner_inv g db \<longleftrightarrow> schema_ok member_schema (members db) \<and> has_enabled_owner g db"

text \<open>The operations of administrators and of joining users, successful or not.\<close>

inductive organization_step :: "cloud_db \<Rightarrow> cloud_db \<Rightarrow> bool" where
  disable: "setOrganizationMemberDisabled u g m d now s = (c, t) \<Longrightarrow> organization_step s t"
| join: "joinOrganizationById u g i now s = (k, t) \<Longrightarrow> organization_step s t"
| rotate: "rotateOrganizationJoinCode u g k now s = (v, t) \<Longrightarrow> organization_step s t"
| rename: "updateOrganizationName u g nm s = (w, t) \<Longrightarrow> organization_step s t"
| plan: "createPlanAccount inp i now s = (a, t) \<Longrightarrow> organization_step s t"

lemma owner_inv_others:
  "owner_inv g (set_join_codes a s) = owner_inv g s" "owner_inv g (set_plan_accounts b s) = owner_inv g s"
  "owner_inv g (s\<lparr>organizations := c\<rparr>) = owner_inv g s"
  by (simp_all add: owner_inv_def has_enabled_owner_def member_disabled_def set_join_codes_def set_plan_accounts_def)

lemma same_member:
  assumes "schema_ok member_schema (members s)" and "x \<in> set (members s)" and "y \<in> set (members s)"
    and "mb_id x = mb_id y"
  shows "x = y"
  by (rule schema_ok_same_key [where u = "(''member.id'', \<lambda>m. Some [SText (mb_id m)])"])
    (use assms in \<open>auto simp: member_schema_def\<close>)

lemma disabling_keeps_owner:
  assumes "owner_inv g s" and "r \<in> set (members s)" and "mb_role r \<noteq> ''owner''"
    and "t = set_member_states rows s"
    and "\<forall>x. member_disabled x t = (if x = mb_id r then v else member_disabled x s)"
  shows "owner_inv g t"
proof -
  from assms(1) obtain o1 where o1: "o1 \<in> set (members s)" "mb_organizationId o1 = g" "mb_role o1 = ''owner''"
    "member_disabled (mb_id o1) s = 0"
    by (auto simp: owner_inv_def has_enabled_owner_def)
  have "mb_id o1 \<noteq> mb_id r" using same_member o1 assms(1-3) unfolding owner_inv_def by metis
  with o1 assms(5) have "member_disabled (mb_id o1) t = 0" by simp
  with o1 assms(1,4) show ?thesis by (auto simp: owner_inv_def has_enabled_owner_def set_member_states_def)
qed

lemma done_disabling_keeps_owner:
  assumes "setOrganizationMemberDisabled u h m d now s = (Inr c, t)" and "owner_inv g s"
  shows "owner_inv g t"
proof -
  note eff = setOrganizationMemberDisabled_Inr [OF assms(1)]
  from eff(3) obtain r where r: "r \<in> set (members s)" "mb_id r = m" "mb_role r \<noteq> ''owner''" by blast
  show ?thesis
    by (rule disabling_keeps_owner [OF assms(2) r(1,3) eff(2), where v = "if d then 1 else 0"]) (simp add: eff(1) r(2))
qed

lemma refused_disabling_keeps_owner:
  assumes "setOrganizationMemberDisabled u h m d now s = (Inl e, t)" and "owner_inv g s"
  shows "owner_inv g t"
  using setOrganizationMemberDisabled_Inl [OF assms(1)]
proof (elim disjE conjE exE)
  assume "t = s"
  with assms(2) show ?thesis by simp
next
  fix r
  assume r: "r \<in> set (members s)" "mb_id r = m" "mb_role r \<noteq> ''owner''"
    and eff: "t = set_member_states (member_states t) s"
      "\<forall>x. member_disabled x t = (if x = m then (if d then 1 else 0) else member_disabled x s)"
  show ?thesis
    by (rule disabling_keeps_owner [OF assms(2) r(1,3) eff(1), where v = "if d then 1 else 0"]) (simp add: eff(2) r(2))
qed

lemma join_keeps_owner: "keeps (owner_inv g) (joinOrganizationById u h i now)"
proof -
  have "keeps (owner_inv g) (insert_into members set_members member_schema m)" for m
  proof (rule keepsI)
    fix s r t
    assume inv: "owner_inv g s" and run: "insert_into members set_members member_schema m s = (r, t)"
    have "schema_ok member_schema (members t)"
      using keepsD [OF mb_tbl.insert_keeps_schema _ run] inv by (simp add: owner_inv_def)
    moreover have "has_enabled_owner g t"
      using run inv by (cases r) (auto simp: mb_tbl.insert_Inr mb_tbl.insert_Inl owner_inv_def has_enabled_owner_def
          set_members_def member_disabled_def)
    ultimately show "owner_inv g t" by (simp add: owner_inv_def)
  qed
  then show ?thesis unfolding joinOrganizationById_def by (intro keeps_intro)
qed

lemma administration_keeps_owner:
  "keeps (owner_inv g) (rotateOrganizationJoinCode u h k now)"
  "keeps (owner_inv g) (createPlanAccount inp i now)"
  unfolding rotateOrganizationJoinCode_def createPlanAccount_def insert_plan_account_def Let_def
  by (intro keeps_intro jc_tbl.upsert_keeps_other pa_tbl.insert_keeps_other; simp add: owner_inv_others)+

lemma rename_keeps_owner: "updateOrganizationName u h nm s = (w, t) \<Longrightarrow> owner_inv g s \<Longrightarrow> owner_inv g t"
  by (auto simp: updateOrganizationName_def obind_def operation_defs Let_def owner_inv_others
      split: sum.splits if_splits)

interpretation owners: invariant_system organization_step "owner_inv g" for g
proof
  fix s t
  assume "organization_step s t" and inv: "owner_inv g s"
  then show "owner_inv g t"
  proof cases
    case (disable u h m d now c)
    with inv show ?thesis by (cases c) (auto dest: refused_disabling_keeps_owner done_disabling_keeps_owner)
  next
    case (join u h i now k)
    with inv show ?thesis using keepsD [OF join_keeps_owner] by blast
  next
    case (rotate u h k now v)
    with inv show ?thesis using keepsD [OF administration_keeps_owner(1)] by blast
  next
    case (rename u h nm w)
    with inv show ?thesis using rename_keeps_owner by blast
  next
    case (plan inp i now a)
    with inv show ?thesis using keepsD [OF administration_keeps_owner(2)] by blast
  qed
qed

section \<open>Properties\<close>

text \<open>C13: No history of administration locks an organization: an organization with an enabled owner
  keeps one, whoever disables members, joins, rotates codes, renames or picks plans.\<close>

theorem organization_keeps_enabled_owner:
  assumes "organization_step\<^sup>*\<^sup>* s t" and "schema_ok member_schema (members s)" and "has_enabled_owner g s"
  shows "has_enabled_owner g t"
  using owners.run_inv [OF assms(1), of g] assms(2,3) by (simp add: owner_inv_def)

lemma new_code_simps [simp]:
  "jc_organization_id (new_code g k u now) = g" "jc_lookup_key (new_code g k u now) = k"
  "jc_organization_id (replaced_code e r) = jc_organization_id r"
  "jc_lookup_key (replaced_code e r) = jc_lookup_key e"
  by (simp_all add: new_code_def replaced_code_def)

lemma rotated_codes:
  assumes "rotateOrganizationJoinCode u g k now s = (Inr v, t)"
  shows "v = k"
    and "(findJoinCode g s = None \<and> join_codes t = join_codes s @ [new_code g k u now])
      \<or> (findJoinCode g s \<noteq> None \<and> join_codes t = map (\<lambda>r. if jc_organization_id r = g
            then replaced_code (new_code g k u now) r else r) (join_codes s))"
    and "schema_ok join_code_schema (join_codes s) \<Longrightarrow> schema_ok join_code_schema (join_codes t)"
proof -
  from assms obtain n where up: "upsert_in join_codes set_join_codes join_code_schema jc_organization_id
      (new_code g k u now) (\<lambda>_. True) (replaced_code (new_code g k u now)) s = (Inr n, t)" and "v = k"
    by (auto simp: rotateOrganizationJoinCode_def)
  then show "v = k" by simp
  from jc_tbl.upsert_Inr [OF up]
  show "(findJoinCode g s = None \<and> join_codes t = join_codes s @ [new_code g k u now])
      \<or> (findJoinCode g s \<noteq> None \<and> join_codes t = map (\<lambda>r. if jc_organization_id r = g
            then replaced_code (new_code g k u now) r else r) (join_codes s))"
    by (auto simp: findJoinCode_def set_join_codes_def)
  show "schema_ok join_code_schema (join_codes s) \<Longrightarrow> schema_ok join_code_schema (join_codes t)"
    using keepsD [OF jc_tbl.upsert_keeps_schema _ up] by simp
qed

lemma same_code:
  assumes "schema_ok join_code_schema (join_codes s)" and "x \<in> set (join_codes s)" and "y \<in> set (join_codes s)"
    and "jc_lookup_key x = jc_lookup_key y"
  shows "x = y"
  by (rule schema_ok_same_key [where u = "(''organization_join_code.lookup_key'', \<lambda>c. Some [SText (jc_lookup_key c)])"])
    (use assms in \<open>auto simp: join_code_schema_def\<close>)

lemma rotated_code_in:
  assumes "rotateOrganizationJoinCode u g k now s = (Inr v, t)"
  shows "\<exists>c \<in> set (join_codes t). jc_organization_id c = g \<and> jc_lookup_key c = k"
    and "c \<in> set (join_codes t) \<Longrightarrow> jc_organization_id c = g \<Longrightarrow> jc_lookup_key c = k"
    and "c \<in> set (join_codes t) \<Longrightarrow> jc_organization_id c \<noteq> g \<Longrightarrow> c \<in> set (join_codes s)"
    and "c \<in> set (join_codes s) \<Longrightarrow> jc_organization_id c \<noteq> g \<Longrightarrow> c \<in> set (join_codes t)"
proof -
  note rows = rotated_codes(2) [OF assms]
  show "\<exists>c \<in> set (join_codes t). jc_organization_id c = g \<and> jc_lookup_key c = k"
    using rows
  proof (elim disjE conjE)
    assume "findJoinCode g s \<noteq> None" and t: "join_codes t = map (\<lambda>r. if jc_organization_id r = g
            then replaced_code (new_code g k u now) r else r) (join_codes s)"
    then obtain r where "r \<in> set (join_codes s)" "jc_organization_id r = g"
      by (auto simp: findJoinCode_def dest: find_SomeD)
    then show ?thesis by (intro bexI [of _ "replaced_code (new_code g k u now) r"]) (auto simp: t)
  qed auto
  show "jc_lookup_key c = k" if "c \<in> set (join_codes t)" and g: "jc_organization_id c = g"
    using rows
  proof (elim disjE conjE)
    assume "findJoinCode g s = None" and "join_codes t = join_codes s @ [new_code g k u now]"
    with that have "c \<in> set (join_codes s) \<or> c = new_code g k u now" and "c \<notin> set (join_codes s)"
      by (simp_all, auto simp: findJoinCode_def find_None_iff)
    then have "c = new_code g k u now" by blast
    from arg_cong [where f = jc_lookup_key, OF this] show ?thesis by simp
  next
    let ?f = "\<lambda>r. if jc_organization_id r = g then replaced_code (new_code g k u now) r else r"
    assume "join_codes t = map ?f (join_codes s)"
    with that(1) have "c \<in> ?f ` set (join_codes s)" by (metis set_map)
    then obtain r where r: "c = ?f r" by (rule imageE)
    show ?thesis
    proof (cases "jc_organization_id r = g")
      case True
      with arg_cong [where f = jc_lookup_key, OF r] show ?thesis by simp
    next
      case False
      with arg_cong [where f = jc_organization_id, OF r] g show ?thesis by simp
    qed
  qed
  show "c \<in> set (join_codes t) \<Longrightarrow> jc_organization_id c \<noteq> g \<Longrightarrow> c \<in> set (join_codes s)"
    using rows by auto
  show "c \<in> set (join_codes s) \<Longrightarrow> jc_organization_id c \<noteq> g \<Longrightarrow> c \<in> set (join_codes t)"
    using rows by (auto simp: image_iff)
qed

lemma resolve_Some:
  "resolveOrganizationJoinCode k s = Some (g, l) \<longleftrightarrow>
     (\<exists>c. find (\<lambda>c. jc_lookup_key c = k) (join_codes s) = Some c \<and> jc_organization_id c = g \<and> jc_lookup_key c = l)"
  by (auto simp: resolveOrganizationJoinCode_def)

lemma resolve_in:
  assumes "schema_ok join_code_schema (join_codes s)" and "c \<in> set (join_codes s)"
  shows "resolveOrganizationJoinCode (jc_lookup_key c) s = Some (jc_organization_id c, jc_lookup_key c)"
proof -
  obtain x where x: "find (\<lambda>x. jc_lookup_key x = jc_lookup_key c) (join_codes s) = Some x"
    using find_ex [OF assms(2), of "\<lambda>x. jc_lookup_key x = jc_lookup_key c"] by auto
  with find_SomeD [OF x] same_code [OF assms(1)] assms(2) have "x = c" by blast
  with x show ?thesis by (simp add: resolveOrganizationJoinCode_def)
qed

text \<open>A rotated join code resolves to its organization; every earlier code of the organization stops
  resolving to it, and the codes of other organizations keep resolving as before.\<close>

theorem rotated_code_resolves:
  assumes "rotateOrganizationJoinCode u g k now s = (Inr v, t)" and "schema_ok join_code_schema (join_codes s)"
  shows "resolveOrganizationJoinCode k t = Some (g, k)
    \<and> (\<forall>old l. old \<noteq> k \<longrightarrow> resolveOrganizationJoinCode old t \<noteq> Some (g, l))
    \<and> (\<forall>code h l. h \<noteq> g \<longrightarrow>
         resolveOrganizationJoinCode code t = Some (h, l) \<longleftrightarrow> resolveOrganizationJoinCode code s = Some (h, l))"
proof -
  note ok = rotated_codes(3) [OF assms(1,2)]
  note rows = rotated_code_in [OF assms(1)]
  from rows(1) obtain c where "c \<in> set (join_codes t)" "jc_organization_id c = g" "jc_lookup_key c = k" by blast
  with resolve_in [OF ok] have "resolveOrganizationJoinCode k t = Some (g, k)" by metis
  moreover have "resolveOrganizationJoinCode old t \<noteq> Some (g, l)" if "old \<noteq> k" for old l
    using that rows(2) by (auto simp: resolve_Some dest!: find_SomeD)
  moreover have "resolveOrganizationJoinCode code t = Some (h, l) \<longleftrightarrow> resolveOrganizationJoinCode code s = Some (h, l)"
    if "h \<noteq> g" for code h l
  proof
    assume "resolveOrganizationJoinCode code t = Some (h, l)"
    then obtain c where c: "c \<in> set (join_codes t)" "jc_organization_id c = h" "jc_lookup_key c = l" "code = l"
      by (auto simp: resolve_Some dest!: find_SomeD)
    with rows(3) that have "c \<in> set (join_codes s)" by blast
    from resolve_in [OF assms(2) this] c show "resolveOrganizationJoinCode code s = Some (h, l)" by simp
  next
    assume "resolveOrganizationJoinCode code s = Some (h, l)"
    then obtain c where c: "c \<in> set (join_codes s)" "jc_organization_id c = h" "jc_lookup_key c = l" "code = l"
      by (auto simp: resolve_Some dest!: find_SomeD)
    with rows(4) that have "c \<in> set (join_codes t)" by blast
    from resolve_in [OF ok this] c show "resolveOrganizationJoinCode code t = Some (h, l)" by simp
  qed
  ultimately show ?thesis by blast
qed

lemma insert_plan_account_Inr:
  "insert_plan_account a s = (Inr x, t) \<Longrightarrow> t = set_plan_accounts (plan_accounts s @ [a]) s"
  by (auto simp: insert_plan_account_def pa_tbl.insert_Inr split: if_splits)

lemma createPlanAccount_Inr:
  assumes "createPlanAccount inp i now s = (Inr a, t)"
  shows "getPlanAccountByOrganizationId (trim (pli_organizationId inp)) t = Some a"
    and "pla_accountType a = pli_accountType inp \<and> pla_plan a = pli_plan inp
      \<and> (pli_accountType inp = AccIndividual \<longrightarrow> pla_ownerUserId a = Some (trim (pli_userId inp)))"
    and "t = set_plan_accounts (plan_accounts t) s" and "trim (pli_userId inp) \<noteq> []"
    and "trim (pli_organizationId inp) \<noteq> []" and "valid_plan (pli_accountType inp) (pli_plan inp)"
    and "case find_membership (trim (pli_userId inp)) (trim (pli_organizationId inp)) s of None \<Rightarrow> False
           | Some m \<Rightarrow> member_disabled (mb_id m) s \<noteq> 1 \<and> mb_role m = ''owner''"
proof -
  let ?g = "trim (pli_organizationId inp)" and ?u = "trim (pli_userId inp)"
  from assms have facts: "?u \<noteq> []" "?g \<noteq> []" "valid_plan (pli_accountType inp) (pli_plan inp)"
    "case find_membership ?u ?g s of None \<Rightarrow> False | Some m \<Rightarrow> member_disabled (mb_id m) s \<noteq> 1 \<and> mb_role m = ''owner''"
    and run: "(getPlanAccountByOrganizationId ?g s = Some a \<and> t = s
        \<and> pla_accountType a = pli_accountType inp \<and> pla_plan a = pli_plan inp
        \<and> (pli_accountType inp \<noteq> AccIndividual \<or> pla_ownerUserId a = Some ?u))
      \<or> (\<exists>x. getPlanAccountByOrganizationId ?g s = None
            \<and> insert_plan_account (new_plan_account inp ?u ?g i now) s = (Inr x, t)
            \<and> getPlanAccountByOrganizationId ?g t = Some a)"
    by (auto simp: createPlanAccount_def Let_def ocatch_def othrow_def split: option.splits if_splits prod.splits sum.splits)
  then show "?u \<noteq> []" "?g \<noteq> []" "valid_plan (pli_accountType inp) (pli_plan inp)"
    "case find_membership ?u ?g s of None \<Rightarrow> False | Some m \<Rightarrow> member_disabled (mb_id m) s \<noteq> 1 \<and> mb_role m = ''owner''"
    by simp_all
  from run show "getPlanAccountByOrganizationId ?g t = Some a" by blast
  from run show "t = set_plan_accounts (plan_accounts t) s"
    by (auto simp: set_plan_accounts_def dest!: insert_plan_account_Inr)
  from run show "pla_accountType a = pli_accountType inp \<and> pla_plan a = pli_plan inp
      \<and> (pli_accountType inp = AccIndividual \<longrightarrow> pla_ownerUserId a = Some ?u)"
  proof (elim disjE conjE exE)
    fix x
    assume none: "getPlanAccountByOrganizationId ?g s = None"
      and ins: "insert_plan_account (new_plan_account inp ?u ?g i now) s = (Inr x, t)"
      and found: "getPlanAccountByOrganizationId ?g t = Some a"
    have t: "t = set_plan_accounts (plan_accounts s @ [new_plan_account inp ?u ?g i now]) s"
      using ins by (rule insert_plan_account_Inr)
    have "find (\<lambda>a. pa_organization_id a = ?g \<and> find_organization (pa_organization_id a) s \<noteq> None) (plan_accounts s) = None"
      using none by (auto simp: getPlanAccountByOrganizationId_def split: option.splits dest: find_SomeD)
    with found show ?thesis
      by (auto simp: getPlanAccountByOrganizationId_def t set_plan_accounts_def find_append find_organization_def
          new_plan_account_def toPlanAccount_def split: if_splits option.splits)
  qed auto
qed

text \<open>Picking a plan is idempotent and final: asking again, with any new identifier and at any time,
  returns the same account and changes nothing, and no other plan is accepted for the organization.\<close>

theorem createPlanAccount_settles:
  assumes "createPlanAccount inp i now s = (Inr a, t)"
  shows "createPlanAccount inp i' now' t = (Inr a, t)
    \<and> (\<forall>other j later b u. trim (pli_organizationId other) = trim (pli_organizationId inp)
         \<and> (pli_accountType other, pli_plan other) \<noteq> (pli_accountType inp, pli_plan inp)
         \<longrightarrow> createPlanAccount other j later t \<noteq> (Inr b, u))"
proof -
  note run = createPlanAccount_Inr [OF assms]
  have same: "find_membership v g t = find_membership v g s" "member_disabled m t = member_disabled m s" for v g m
  proof -
    have "members t = members s" "member_states t = member_states s"
      using run(3) by (metis cloud_db.ext_inject cloud_db.surjective cloud_db.update_convs(14) set_plan_accounts_def)+
    then show "find_membership v g t = find_membership v g s" "member_disabled m t = member_disabled m s"
      by (simp_all add: find_membership_def member_disabled_def)
  qed
  have owner: "case find_membership (trim (pli_userId inp)) (trim (pli_organizationId inp)) t of None \<Rightarrow> False
           | Some m \<Rightarrow> member_disabled (mb_id m) t \<noteq> 1 \<and> mb_role m = ''owner''"
    using run(7) by (simp add: same split: option.splits)
  have "createPlanAccount inp i' now' t = (Inr a, t)"
    using run owner by (auto simp: createPlanAccount_def Let_def atomic_def obind_def operation_defs require_def)
  moreover have "createPlanAccount other j later t \<noteq> (Inr b, u)"
    if "trim (pli_organizationId other) = trim (pli_organizationId inp)"
      and "(pli_accountType other, pli_plan other) \<noteq> (pli_accountType inp, pli_plan inp)" for other j later b u
    using that run(1,2) by (auto simp: createPlanAccount_def Let_def split: if_splits)
  ultimately show ?thesis by blast
qed

section \<open>Witnesses\<close>

lemmas organization_run = sample_db_def empty_db_def find_membership_def find_user_def find_organization_def
  trim_def js_space_def is_admin_role_def insert_into_def sql_insert_def row_error_def failed_check_def failed_unique_def
  collides_def atomic_def obind_def operation_defs

theorem organization_keeps_enabled_owner_witness:
  "\<exists>r t. joinOrganizationById ''u2'' ''o1'' ''m9'' 5 sample_db = (r, t) \<and> has_enabled_owner ''o1'' t"
proof -
  obtain r t where run: "joinOrganizationById ''u2'' ''o1'' ''m9'' 5 sample_db = (r, t)" by fastforce
  have "schema_ok member_schema (members sample_db)" "has_enabled_owner ''o1'' sample_db"
    by (simp_all add: member_schema_def has_enabled_owner_def member_disabled_def sample_db_def empty_db_def
        schema_ok_def row_ok_iff distinct_key_def)
  moreover from organization_step.join [OF run] have "organization_step\<^sup>*\<^sup>* sample_db t" by blast
  ultimately show ?thesis using organization_keeps_enabled_owner run by blast
qed

theorem rotated_code_resolves_witness:
  "\<exists>v t. rotateOrganizationJoinCode ''u1'' ''o1'' ''k1'' 5 sample_db = (Inr v, t)
     \<and> resolveOrganizationJoinCode ''k1'' t = Some (''o1'', ''k1'')"
proof -
  have "\<exists>v t. rotateOrganizationJoinCode ''u1'' ''o1'' ''k1'' 5 sample_db = (Inr v, t)"
    by (simp add: rotateOrganizationJoinCode_def organization_run requireOrganizationAdmin_def member_disabled_def
        upsert_in_def join_code_schema_def new_code_def set_join_codes_def)
  then obtain v t where run: "rotateOrganizationJoinCode ''u1'' ''o1'' ''k1'' 5 sample_db = (Inr v, t)" by blast
  have "schema_ok join_code_schema (join_codes sample_db)" by (simp add: sample_db_def empty_db_def)
  from conjunct1 [OF rotated_code_resolves [OF run this]] run show ?thesis by blast
qed

definition team_choice :: plan_input where
  "team_choice = \<lparr>pli_userId = ''u1'', pli_accountType = AccOrganization, pli_plan = PlanTeam, pli_organizationId = ''o1''\<rparr>"

theorem createPlanAccount_settles_witness:
  "\<exists>a t. createPlanAccount team_choice ''a1'' 5 sample_db = (Inr a, t)
     \<and> createPlanAccount team_choice ''a2'' 9 t = (Inr a, t)"
proof -
  have "\<exists>a t. createPlanAccount team_choice ''a1'' 5 sample_db = (Inr a, t)"
    by (simp add: createPlanAccount_def team_choice_def organization_run member_disabled_def valid_plan_def
        insert_plan_account_def plan_account_schema_def new_plan_account_def set_plan_accounts_def
        getPlanAccountByOrganizationId_def toPlanAccount_def ocatch_def Let_def)
  then obtain a t where run: "createPlanAccount team_choice ''a1'' 5 sample_db = (Inr a, t)" by blast
  from conjunct1 [OF createPlanAccount_settles [OF run]] run show ?thesis by blast
qed

end
