(* ===== verification/Provisioning.thy ===== *)
theory Provisioning
  imports Workspaces
begin

text \<open>
  The durable work queue: a request leaves a queued job, a processor claims it under a
  lease, asks a worker to run the workspace, and finishes the job, which settles the state
  of the workspace.
\<close>

section \<open>Jobs\<close>

record provisioning_job =
  job_id :: string
  job_workspaceId :: string
  job_status :: job_status
  job_attempt :: int
  job_availableAt :: int
  job_leaseOwner :: "string option"
  job_leaseExpiresAt :: "int option"
  job_errorCode :: "string option"
  job_errorMessage :: "string option"
  job_createdAt :: int
  job_updatedAt :: int
  job_completedAt :: "int option"

definition toProvisioningJob :: "provisioning_job_row \<Rightarrow> provisioning_job" where
  "toProvisioningJob row =
     \<lparr>job_id = pj_id row, job_workspaceId = pj_workspace_id row, job_status = pj_status row,
      job_attempt = pj_attempt row, job_availableAt = pj_available_at row,
      job_leaseOwner = pj_lease_owner row, job_leaseExpiresAt = pj_lease_expires_at row,
      job_errorCode = pj_error_code row, job_errorMessage = pj_error_message row,
      job_createdAt = pj_created_at row, job_updatedAt = pj_updated_at row,
      job_completedAt = pj_completed_at row\<rparr>"

definition active_status :: "job_status \<Rightarrow> bool" where
  "active_status st \<longleftrightarrow> st = JobQueued \<or> st = JobRunning"

text \<open>
  The table has one operation, \<open>ensure_running\<close>, so the partial unique index is on the
  workspace alone.
\<close>

definition provisioning_job_schema :: "provisioning_job_row schema" where
  "provisioning_job_schema =
     \<lparr>checks =
        [(''attempt >= 0'', \<lambda>j. pj_attempt j \<ge> 0),
         (''lease'', \<lambda>j. pj_status j \<noteq> JobRunning
                       \<or> (pj_lease_owner j \<noteq> None \<and> pj_lease_expires_at j \<noteq> None))],
      uniques =
        [(''provisioning_job.id'', \<lambda>j. Some [SText (pj_id j)]),
         (''provisioning_job.workspace_id, provisioning_job.operation'',
            \<lambda>j. if active_status (pj_status j) then Some [SText (pj_workspace_id j)] else None)]\<rparr>"

definition set_provisioning_jobs :: "provisioning_job_row list \<Rightarrow> cloud_db \<Rightarrow> cloud_db" where
  "set_provisioning_jobs rows db = db\<lparr>provisioning_jobs := rows\<rparr>"

interpretation pj_tbl: sql_table provisioning_jobs set_provisioning_jobs provisioning_job_schema
  by unfold_locales (simp_all add: set_provisioning_jobs_def)

definition findJob :: "string \<Rightarrow> cloud_db \<Rightarrow> provisioning_job_row option" where
  "findJob jobId db = find (\<lambda>j. pj_id j = jobId) (provisioning_jobs db)"

definition findActiveJob :: "string \<Rightarrow> cloud_db \<Rightarrow> provisioning_job_row option" where
  "findActiveJob workspaceId db =
     find (\<lambda>j. pj_workspace_id j = workspaceId \<and> active_status (pj_status j)) (provisioning_jobs db)"

section \<open>Requesting a running workspace\<close>

text \<open>\<open>INSERT \<dots> ON CONFLICT DO NOTHING\<close>: a collision with any key inserts nothing.\<close>

definition new_job :: "string \<Rightarrow> string \<Rightarrow> int \<Rightarrow> provisioning_job_row" where
  "new_job jobId workspaceId timestamp =
     \<lparr>pj_id = jobId, pj_workspace_id = workspaceId, pj_status = JobQueued, pj_attempt = 0,
      pj_available_at = timestamp, pj_lease_owner = None, pj_lease_expires_at = None,
      pj_error_code = None, pj_error_message = None, pj_created_at = timestamp,
      pj_updated_at = timestamp, pj_completed_at = None\<rparr>"

definition insertJob :: "string \<Rightarrow> string \<Rightarrow> int \<Rightarrow> unit dbop" where
  "insertJob jobId workspaceId timestamp = atomic (
     obind (oget (\<lambda>db. failed_unique provisioning_job_schema (new_job jobId workspaceId timestamp)
                         (provisioning_jobs db))) (\<lambda>conflict.
     if conflict \<noteq> None then oreturn ()
     else
       obind (insert_into provisioning_jobs set_provisioning_jobs provisioning_job_schema
                (new_job jobId workspaceId timestamp)) (\<lambda>_.
       obind (oget (findWorkspace workspaceId)) (\<lambda>w.
       if w = None then othrow SqliteForeignKey else oreturn ()))))"

definition markProvisioning :: "string \<Rightarrow> int \<Rightarrow> nat dbop" where
  "markProvisioning workspaceId timestamp =
     update_in workspaces set_workspaces workspace_schema
       (\<lambda>w. ws_id w = workspaceId \<and> ws_state w \<noteq> WsReady)
       (\<lambda>w. w\<lparr>ws_state := WsProvisioning, ws_updated_at := timestamp\<rparr>)"

text \<open>The second transaction of \<open>ensureWorkspaceRunning\<close>, on the workspace the first returned.\<close>

definition requestRunning ::
  "string \<Rightarrow> string \<Rightarrow> int \<Rightarrow> (personal_workspace \<times> provisioning_job option) dbop"
where
  "requestRunning workspaceId createJobId now = atomic (
     obind (oget (findActiveJob workspaceId)) (\<lambda>active.
     obind (case active of
              Some j \<Rightarrow> oreturn (Some j)
            | None \<Rightarrow>
                obind (insertJob createJobId workspaceId now) (\<lambda>_.
                oget (findActiveJob workspaceId))) (\<lambda>job.
     case job of
       None \<Rightarrow> othrow (JsError ''Provisioning job could not be resolved'')
     | Some j \<Rightarrow>
         obind (markProvisioning workspaceId now) (\<lambda>_.
         obind (oget (findWorkspace workspaceId)) (\<lambda>updated.
         case updated of
           None \<Rightarrow> othrow (JsError ''Personal workspace disappeared'')
         | Some w \<Rightarrow> oreturn (toPersonalWorkspace w, Some (toProvisioningJob j)))))))"

definition ensureWorkspaceRunning ::
  "string \<Rightarrow> string \<Rightarrow> string \<Rightarrow> string \<Rightarrow> int \<Rightarrow> (personal_workspace \<times> provisioning_job option) dbop"
where
  "ensureWorkspaceRunning userId organizationId createId createJobId now =
     obind (ensurePersonalWorkspace userId organizationId createId now) (\<lambda>workspace.
     if pw_state workspace = WsReady then oreturn (workspace, None)
     else requestRunning (pw_id workspace) createJobId now)"

section \<open>Claiming and finishing\<close>

definition claimable :: "int \<Rightarrow> provisioning_job_row \<Rightarrow> bool" where
  "claimable timestamp j \<longleftrightarrow>
     (pj_status j = JobQueued \<and> pj_available_at j \<le> timestamp)
     \<or> (pj_status j = JobRunning
        \<and> (case pj_lease_expires_at j of None \<Rightarrow> False | Some e \<Rightarrow> e \<le> timestamp))"

definition queue_key :: "provisioning_job_row \<Rightarrow> int \<times> int \<times> int" where
  "queue_key j = (if pj_status j = JobQueued then 0 else 1, pj_available_at j, pj_created_at j)"

definition findClaimable :: "int \<Rightarrow> cloud_db \<Rightarrow> provisioning_job_row option" where
  "findClaimable timestamp db =
     (case sort_key queue_key (filter (claimable timestamp) (provisioning_jobs db)) of
        [] \<Rightarrow> None | j # _ \<Rightarrow> Some j)"

text \<open>The row the \<open>UPDATE\<close> of a claim writes.\<close>

definition claimed_row :: "string \<Rightarrow> int \<Rightarrow> int \<Rightarrow> provisioning_job_row \<Rightarrow> provisioning_job_row" where
  "claimed_row leaseOwner leaseDurationMs timestamp j =
     j\<lparr>pj_status := JobRunning, pj_attempt := pj_attempt j + 1,
       pj_lease_owner := Some leaseOwner,
       pj_lease_expires_at := Some (timestamp + leaseDurationMs),
       pj_updated_at := timestamp, pj_completed_at := None\<rparr>"

text \<open>The lease duration is an integral number of milliseconds.\<close>

definition claimProvisioningJob :: "string \<Rightarrow> int \<Rightarrow> int \<Rightarrow> provisioning_job option dbop" where
  "claimProvisioningJob leaseOwner leaseDurationMs now =
     obind (olift (require (trim leaseOwner \<noteq> []) (JsError ''leaseOwner is required''))) (\<lambda>_.
     obind (olift (require (leaseDurationMs > 0) (JsError ''leaseDurationMs must be positive''))) (\<lambda>_.
     atomic (
     obind (oget (findClaimable now)) (\<lambda>candidate.
     case candidate of
       None \<Rightarrow> oreturn None
     | Some c \<Rightarrow>
         obind (update_in provisioning_jobs set_provisioning_jobs provisioning_job_schema
             (\<lambda>j. pj_id j = pj_id c)
             (claimed_row leaseOwner leaseDurationMs now)) (\<lambda>_.
         obind (oget (findJob (pj_id c))) (\<lambda>claimed.
         oreturn (map_option toProvisioningJob claimed)))))))"

datatype job_outcome = OutcomeSucceeded | OutcomeFailed

record finish_options =
  fo_jobId :: string
  fo_leaseOwner :: string
  fo_outcome :: job_outcome
  fo_retryable :: bool
  fo_retryDelayMs :: int
  fo_errorCode :: "string option"
  fo_errorMessage :: "string option"
  fo_workerWorkspaceId :: "string option"

definition set_workspace_outcome :: "string \<Rightarrow> workspace_state \<Rightarrow> string option \<Rightarrow> int \<Rightarrow> nat dbop" where
  "set_workspace_outcome workspaceId state workerWorkspaceId timestamp =
     update_in workspaces set_workspaces workspace_schema (\<lambda>w. ws_id w = workspaceId)
       (\<lambda>w. w\<lparr>ws_state := state,
              ws_worker_workspace_id :=
                (case workerWorkspaceId of None \<Rightarrow> ws_worker_workspace_id w | Some i \<Rightarrow> Some i),
              ws_updated_at := timestamp\<rparr>)"

text \<open>The row the \<open>UPDATE\<close> of a finish writes, under its guard on the lease.\<close>

definition finished_row :: "finish_options \<Rightarrow> int \<Rightarrow> provisioning_job_row \<Rightarrow> provisioning_job_row" where
  "finished_row opts now j =
     (let failed = (fo_outcome opts = OutcomeFailed);
          requeue = (failed \<and> fo_retryable opts);
          nextStatus = (if requeue then JobQueued else if failed then JobFailed else JobSucceeded);
          completedAt = (if requeue then None else Some now);
          boundedRetryDelay = max 0 (fo_retryDelayMs opts);
          boundedErrorCode = take 64 (trim (case fo_errorCode opts of
             None \<Rightarrow> ''provisioning_failed'' | Some c \<Rightarrow> c));
          boundedErrorMessage = take 512 (trim (case fo_errorMessage opts of
             None \<Rightarrow> ''Workspace provisioning failed'' | Some m \<Rightarrow> m)) in
      j\<lparr>pj_status := nextStatus,
        pj_available_at := (if requeue then now + boundedRetryDelay else now),
        pj_lease_owner := None, pj_lease_expires_at := None,
        pj_error_code := (if failed then Some boundedErrorCode else None),
        pj_error_message := (if failed then Some boundedErrorMessage else None),
        pj_updated_at := now, pj_completed_at := completedAt\<rparr>)"

definition holds_lease :: "string \<Rightarrow> string \<Rightarrow> provisioning_job_row \<Rightarrow> bool" where
  "holds_lease jobId owner j \<longleftrightarrow>
     pj_id j = jobId \<and> pj_status j = JobRunning \<and> pj_lease_owner j = Some owner"

definition settle_workspace :: "finish_options \<Rightarrow> string \<Rightarrow> int \<Rightarrow> nat dbop" where
  "settle_workspace opts workspaceId timestamp =
     (if fo_outcome opts = OutcomeSucceeded then
        set_workspace_outcome workspaceId WsReady
          (Some (case fo_workerWorkspaceId opts of None \<Rightarrow> workspaceId | Some i \<Rightarrow> i)) timestamp
      else if \<not> fo_retryable opts then set_workspace_outcome workspaceId WsFailed None timestamp
      else oreturn 0)"

definition finishProvisioningJob :: "finish_options \<Rightarrow> int \<Rightarrow> provisioning_job dbop" where
  "finishProvisioningJob opts now = atomic (
     obind (oget (findJob (fo_jobId opts))) (\<lambda>found.
     case found of
       None \<Rightarrow> othrow ProvisioningJobLeaseLostError
     | Some current \<Rightarrow>
       if pj_status current \<noteq> JobRunning \<or> pj_lease_owner current \<noteq> Some (fo_leaseOwner opts)
       then othrow ProvisioningJobLeaseLostError
       else
       obind (update_in provisioning_jobs set_provisioning_jobs provisioning_job_schema
           (holds_lease (fo_jobId opts) (fo_leaseOwner opts)) (finished_row opts now)) (\<lambda>changes.
       if changes \<noteq> 1 then othrow ProvisioningJobLeaseLostError
       else
       obind (settle_workspace opts (pj_workspace_id current) now) (\<lambda>_.
       obind (oget (findJob (fo_jobId opts))) (\<lambda>updated.
       case updated of
         None \<Rightarrow> othrow (JsError ''Provisioning job disappeared'')
       | Some j \<Rightarrow> oreturn (toProvisioningJob j))))))"

section \<open>The processor\<close>

text \<open>
  What \<open>worker.ensureWorkspaceRunning\<close> throws: a \<open>WorkerClientError\<close> (message, code,
  retryable, status), the \<open>AbortError\<close> of a stopped processor, or anything else.
\<close>

datatype worker_failure = WorkerClientError string string bool int | AbortFailure | UnexpectedFailure

text \<open>
  The processor of a control plane. \<open>worker\<close> is the call that is awaited: it runs on the
  database, which it and everything that happens meanwhile may change, and returns the
  worker's name of the workspace. \<open>stopped\<close> is the flag at the time of a failure.
\<close>

record processor =
  px_id :: string
  px_leaseDurationMs :: int
  px_maximumAttempts :: int
  px_canProcess :: "cloud_db \<Rightarrow> bool"
  px_authorizeWorkspace :: "string \<Rightarrow> cloud_db \<Rightarrow> bool"
  px_worker :: "string \<Rightarrow> string \<Rightarrow> cloud_db \<Rightarrow> (worker_failure + string) \<times> cloud_db"

definition retry_delay :: "int \<Rightarrow> int" where
  "retry_delay attempt = min 60000 (1000 * 2 ^ nat (max 0 (attempt - 1)))"

text \<open>The \<open>catch\<close> block: the failure is written to the job unless its lease is lost.\<close>

definition settle_failure ::
  "processor \<Rightarrow> provisioning_job \<Rightarrow> worker_failure \<Rightarrow> bool \<Rightarrow> int \<Rightarrow> bool dbop"
where
  "settle_failure p job failure stopped now =
     (if failure = AbortFailure \<and> stopped then oreturn True
      else
      let (message, code, retryableError) =
            (case failure of
               WorkerClientError m c r _ \<Rightarrow> (m, c, r)
             | _ \<Rightarrow> (''Unexpected provisioning failure'', ''worker_unexpected_failure'', True));
          retryable = (retryableError \<and> job_attempt job < px_maximumAttempts p) in
      ocatch
        (obind (finishProvisioningJob
            \<lparr>fo_jobId = job_id job, fo_leaseOwner = px_id p, fo_outcome = OutcomeFailed,
             fo_retryable = retryable, fo_retryDelayMs = retry_delay (job_attempt job),
             fo_errorCode = Some code, fo_errorMessage = Some message,
             fo_workerWorkspaceId = None\<rparr> now) (\<lambda>_. oreturn True))
        (\<lambda>e. if e = ProvisioningJobLeaseLostError then oreturn True else othrow e))"

text \<open>
  One round. An error that \<open>finishProvisioningJob\<close> throws inside the \<open>try\<close> is not a
  \<open>WorkerClientError\<close>, so it is settled as an unexpected failure.
\<close>

definition processNext :: "processor \<Rightarrow> bool \<Rightarrow> int \<Rightarrow> int \<Rightarrow> bool dbop" where
  "processNext p stopped claimNow finishNow =
     obind (oget (px_canProcess p)) (\<lambda>allowed.
     if \<not> allowed then oreturn False
     else
     obind (claimProvisioningJob (px_id p) (px_leaseDurationMs p) claimNow) (\<lambda>claimed.
     case claimed of
       None \<Rightarrow> oreturn False
     | Some job \<Rightarrow>
         obind (oget (px_authorizeWorkspace p (job_workspaceId job))) (\<lambda>authorized.
         if \<not> authorized then
           settle_failure p job
             (WorkerClientError ''An active Operator entitlement is required''
                ''operator_entitlement_required'' False 403) stopped finishNow
         else (\<lambda>db.
           case px_worker p (job_workspaceId job) (job_id job) db of
             (Inl failure, db') \<Rightarrow> settle_failure p job failure stopped finishNow db'
           | (Inr workerWorkspaceId, db') \<Rightarrow>
               (case finishProvisioningJob
                   \<lparr>fo_jobId = job_id job, fo_leaseOwner = px_id p, fo_outcome = OutcomeSucceeded,
                    fo_retryable = False, fo_retryDelayMs = 0, fo_errorCode = None,
                    fo_errorMessage = None, fo_workerWorkspaceId = Some workerWorkspaceId\<rparr>
                   finishNow db' of
                  (Inr _, db'') \<Rightarrow> (Inr True, db'')
                | (Inl _, db'') \<Rightarrow> settle_failure p job UnexpectedFailure stopped finishNow db'')))))"

section \<open>What the operations do to the tables\<close>

lemma findJob_SomeD: "findJob i db = Some j \<Longrightarrow> j \<in> set (provisioning_jobs db) \<and> pj_id j = i"
  by (auto simp: findJob_def dest: find_SomeD)

lemma findActiveJob_SomeD:
  "findActiveJob w db = Some j \<Longrightarrow>
     j \<in> set (provisioning_jobs db) \<and> pj_workspace_id j = w \<and> active_status (pj_status j)"
  by (auto simp: findActiveJob_def dest: find_SomeD)

definition jobs_ok :: "cloud_db \<Rightarrow> bool" where
  "jobs_ok db \<longleftrightarrow> schema_ok provisioning_job_schema (provisioning_jobs db)"

text \<open>No workspace is left in \<open>provisioning\<close> without an active job that will settle it.\<close>

definition provisioning_covered :: "cloud_db \<Rightarrow> bool" where
  "provisioning_covered db \<longleftrightarrow>
     (\<forall>w \<in> set (workspaces db). ws_state w = WsProvisioning \<longrightarrow>
        (\<exists>j \<in> set (provisioning_jobs db). active_status (pj_status j) \<and> pj_workspace_id j = ws_id w))"

definition provisioning_inv :: "cloud_db \<Rightarrow> bool" where
  "provisioning_inv db \<longleftrightarrow> jobs_ok db \<and> workspaces_ok db \<and> provisioning_covered db"

lemma jobs_ok_same_id:
  assumes "jobs_ok db" and "j \<in> set (provisioning_jobs db)" and "k \<in> set (provisioning_jobs db)"
    and "pj_id j = pj_id k"
  shows "j = k"
  by (rule schema_ok_same_key [where u = "(''provisioning_job.id'', \<lambda>j. Some [SText (pj_id j)])"])
    (use assms in \<open>auto simp: jobs_ok_def provisioning_job_schema_def\<close>)

lemma jobs_ok_one_active:
  assumes "jobs_ok db" and "j \<in> set (provisioning_jobs db)" and "k \<in> set (provisioning_jobs db)"
    and "pj_workspace_id j = pj_workspace_id k"
    and "active_status (pj_status j)" and "active_status (pj_status k)"
  shows "j = k"
  by (rule schema_ok_same_key [where u = "(''provisioning_job.workspace_id, provisioning_job.operation'',
        \<lambda>j. if active_status (pj_status j) then Some [SText (pj_workspace_id j)] else None)"])
    (use assms in \<open>auto simp: jobs_ok_def provisioning_job_schema_def\<close>)

lemma job_updated_Inr:
  assumes "update_in provisioning_jobs set_provisioning_jobs provisioning_job_schema p f s = (Inr n, t)"
  shows "n = length (filter p (provisioning_jobs s))"
    and "t = s\<lparr>provisioning_jobs := map (\<lambda>j. if p j then f j else j) (provisioning_jobs s)\<rparr>"
  using pj_tbl.update_Inr [OF assms] by (auto simp: set_provisioning_jobs_def)

lemma insertJob_Inr:
  assumes "insertJob i w now s = (Inr u, t)"
  shows "t = s \<or> (t = s\<lparr>provisioning_jobs := provisioning_jobs s @ [new_job i w now]\<rparr>
    \<and> row_error provisioning_job_schema (new_job i w now) (provisioning_jobs s) = None
    \<and> findWorkspace w s \<noteq> None)"
  using assms
  by (auto simp: insertJob_def pj_tbl.insert_Inr set_provisioning_jobs_def set_workspaces_def findWorkspace_def split: if_splits)

lemma new_job_simps [simp]:
  "pj_id (new_job i w t) = i" "pj_workspace_id (new_job i w t) = w"
  "pj_status (new_job i w t) = JobQueued" "pj_available_at (new_job i w t) = t"
  by (simp_all add: new_job_def)

lemma markProvisioning_Inr:
  assumes "markProvisioning i now s = (Inr n, t)"
  shows "t = s\<lparr>workspaces := map (\<lambda>w. if ws_id w = i \<and> ws_state w \<noteq> WsReady
           then w\<lparr>ws_state := WsProvisioning, ws_updated_at := now\<rparr> else w) (workspaces s)\<rparr>"
  using assms unfolding markProvisioning_def by (rule workspace_updated_Inr(2))

lemma markProvisioning_keeps_ok: "keeps workspaces_ok (markProvisioning i now)"
  unfolding markProvisioning_def workspaces_ok_def by (rule ws_tbl.update_keeps_schema)

text \<open>The successful runs of \<open>requestRunning\<close>: an active job is there, then the state is set.\<close>

lemma requestRunning_Inr:
  assumes "requestRunning i newJob now s = (Inr (w, job), t)"
  obtains u j n where "insertJob newJob i now s = (Inr (), u) \<or> u = s"
    and "findActiveJob i u = Some j" and "job = Some (toProvisioningJob j)"
    and "findActiveJob i s = Some j \<and> u = s \<or> findActiveJob i s = None"
    and "markProvisioning i now u = (Inr n, t)"
    and "\<exists>r. findWorkspace i t = Some r \<and> w = toPersonalWorkspace r"
  using assms
  by (cases "findActiveJob i s")
    (force simp: requestRunning_def split: option.splits if_splits)+

lemma insertJob_keeps:
  assumes "insertJob i w now s = (Inr u, t)" and "provisioning_inv s"
  shows "provisioning_inv t"
  using insertJob_Inr [OF assms(1)] assms(2)
  by (auto simp: provisioning_inv_def jobs_ok_def workspaces_ok_def provisioning_covered_def
      intro: schema_ok_append)

lemma requestRunning_keeps_inv: "keeps provisioning_inv (requestRunning i newJob now)"
proof (rule keepsI)
  fix s r t
  assume inv: "provisioning_inv s" and run: "requestRunning i newJob now s = (r, t)"
  show "provisioning_inv t"
  proof (cases r)
    case (Inl e)
    with run inv show ?thesis by (auto simp: requestRunning_def dest: atomic_rolls_back)
  next
    case (Inr p)
    obtain w job where "p = (w, job)" by fastforce
    with Inr run have ok: "requestRunning i newJob now s = (Inr (w, job), t)" by simp
    obtain u j n where u: "insertJob newJob i now s = (Inr (), u) \<or> u = s"
      and j: "findActiveJob i u = Some j" and mark: "markProvisioning i now u = (Inr n, t)"
      by (rule requestRunning_Inr [OF ok])
    from u inv have inv_u: "provisioning_inv u" by (auto intro: insertJob_keeps)
    then have "workspaces_ok t"
      using keepsD [OF markProvisioning_keeps_ok _ mark] by (simp add: provisioning_inv_def)
    moreover have "provisioning_covered t"
      using inv_u findActiveJob_SomeD [OF j] markProvisioning_Inr [OF mark]
      by (auto simp: provisioning_covered_def provisioning_inv_def)
    ultimately show ?thesis
      using inv_u markProvisioning_Inr [OF mark] by (simp add: provisioning_inv_def jobs_ok_def)
  qed
qed

lemma ensurePersonalWorkspace_keeps_covered:
  "keeps provisioning_inv (ensurePersonalWorkspace u g i now)"
proof (rule keepsI)
  fix s r t
  assume inv: "provisioning_inv s" and run: "ensurePersonalWorkspace u g i now s = (r, t)"
  have "workspaces_ok t"
    using keepsD [OF ensurePersonalWorkspace_keeps_ok _ run] inv by (simp add: provisioning_inv_def)
  moreover have "provisioning_jobs t = provisioning_jobs s
      \<and> (\<forall>w \<in> set (workspaces t). ws_state w = WsProvisioning \<longrightarrow> w \<in> set (workspaces s))"
  proof (cases r)
    case (Inl e)
    with run show ?thesis by (auto simp: ensurePersonalWorkspace_def dest: atomic_rolls_back)
  next
    case (Inr w)
    with run show ?thesis by (auto elim!: ensurePersonalWorkspace_Inr)
  qed
  ultimately show "provisioning_inv t"
    using inv by (auto simp: provisioning_inv_def jobs_ok_def provisioning_covered_def)
qed

lemma ensureWorkspaceRunning_keeps_inv:
  "keeps provisioning_inv (ensureWorkspaceRunning u g i k now)"
  unfolding ensureWorkspaceRunning_def
  by (intro keeps_intro ensurePersonalWorkspace_keeps_covered requestRunning_keeps_inv)


lemma findClaimable_SomeD:
  assumes "findClaimable now s = Some c"
  shows "c \<in> set (provisioning_jobs s)" and "claimable now c"
    and "j \<in> set (provisioning_jobs s) \<Longrightarrow> claimable now j \<Longrightarrow> queue_key c \<le> queue_key j"
proof -
  from assms obtain rest where
    sorted: "sort_key queue_key (filter (claimable now) (provisioning_jobs s)) = c # rest"
    by (auto simp: findClaimable_def split: list.splits)
  show "c \<in> set (provisioning_jobs s)" and "claimable now c"
    using sort_key_hd_le(1) [OF sorted] by auto
  show "j \<in> set (provisioning_jobs s) \<Longrightarrow> claimable now j \<Longrightarrow> queue_key c \<le> queue_key j"
    using sort_key_hd_le(2) [OF sorted, of j] by simp
qed

lemma findClaimable_None_iff:
  "findClaimable now s = None \<longleftrightarrow> (\<forall>j \<in> set (provisioning_jobs s). \<not> claimable now j)"
  by (auto simp: findClaimable_def sort_key_Nil_iff filter_empty_conv split: list.splits)
    (metis filter_empty_conv list.distinct(1) sort_key_Nil_iff)

lemma claimable_active: "claimable now j \<Longrightarrow> active_status (pj_status j)"
  by (auto simp: claimable_def active_status_def)

lemma claimed_row_simps [simp]:
  "pj_id (claimed_row p d n j) = pj_id j" "pj_workspace_id (claimed_row p d n j) = pj_workspace_id j"
  "pj_status (claimed_row p d n j) = JobRunning" "pj_attempt (claimed_row p d n j) = pj_attempt j + 1"
  "pj_lease_owner (claimed_row p d n j) = Some p"
  "pj_lease_expires_at (claimed_row p d n j) = Some (n + d)"
  by (simp_all add: claimed_row_def)

lemma claimProvisioningJob_Inr:
  assumes "claimProvisioningJob owner duration now s = (Inr result, t)"
  shows "trim owner \<noteq> [] \<and> duration > 0 \<and>
    (case findClaimable now s of
       None \<Rightarrow> result = None \<and> t = s
     | Some c \<Rightarrow>
         t = s\<lparr>provisioning_jobs := map (\<lambda>j. if pj_id j = pj_id c then claimed_row owner duration now j else j)
                 (provisioning_jobs s)\<rparr>
         \<and> result = map_option toProvisioningJob (findJob (pj_id c) t))"
  using assms
  by (auto simp: claimProvisioningJob_def split: option.splits dest!: job_updated_Inr(2))

lemma claimProvisioningJob_Inl:
  "claimProvisioningJob owner duration now s = (Inl e, t) \<Longrightarrow> t = s"
  by (auto simp: claimProvisioningJob_def obind_eq_Inl operation_defs dest: atomic_rolls_back)

lemma provisioning_covered_map:
  assumes "provisioning_covered s"
    and "workspaces t = map f (workspaces s)" and "provisioning_jobs t = map g (provisioning_jobs s)"
    and "\<And>w. ws_id (f w) = ws_id w"
    and "\<And>w. ws_state (f w) = WsProvisioning \<Longrightarrow> ws_state w = WsProvisioning"
    and "\<And>w j. ws_state (f w) = WsProvisioning \<Longrightarrow> w \<in> set (workspaces s) \<Longrightarrow>
           j \<in> set (provisioning_jobs s) \<Longrightarrow> pj_workspace_id j = ws_id w \<Longrightarrow>
           active_status (pj_status j) \<Longrightarrow>
           active_status (pj_status (g j)) \<and> pj_workspace_id (g j) = ws_id w"
  shows "provisioning_covered t"
  unfolding provisioning_covered_def
proof (intro ballI impI)
  fix v
  assume "v \<in> set (workspaces t)" and "ws_state v = WsProvisioning"
  then obtain w where w: "w \<in> set (workspaces s)" "v = f w" "ws_state (f w) = WsProvisioning"
    using assms(2) by auto
  then obtain j where j: "j \<in> set (provisioning_jobs s)" "active_status (pj_status j)"
      "pj_workspace_id j = ws_id w"
    using assms(1,5) by (auto simp: provisioning_covered_def)
  then have "g j \<in> set (provisioning_jobs t)" using assms(3) by simp
  then show "\<exists>j\<in>set (provisioning_jobs t). active_status (pj_status j) \<and> pj_workspace_id j = ws_id v"
    using assms(4) assms(6) [OF w(3,1) j(1,3,2)] w(2) by auto
qed

lemma claimProvisioningJob_keeps_inv: "keeps provisioning_inv (claimProvisioningJob owner duration now)"
proof (rule keepsI)
  fix s r t
  assume inv: "provisioning_inv s" and run: "claimProvisioningJob owner duration now s = (r, t)"
  have "keeps jobs_ok (claimProvisioningJob owner duration now)"
    unfolding claimProvisioningJob_def jobs_ok_def
    by (intro keeps_intro pj_tbl.update_keeps_schema)
  then have jobs: "jobs_ok t" using inv run by (auto simp: provisioning_inv_def dest: keepsD)
  show "provisioning_inv t"
  proof (cases r)
    case (Inl e)
    with run inv show ?thesis by (auto dest: claimProvisioningJob_Inl)
  next
    case (Inr result)
    show ?thesis
    proof (cases "findClaimable now s")
      case None
      with Inr run inv show ?thesis by (auto dest!: claimProvisioningJob_Inr)
    next
      case (Some c)
      with Inr run have t: "t = s\<lparr>provisioning_jobs :=
          map (\<lambda>j. if pj_id j = pj_id c then claimed_row owner duration now j else j) (provisioning_jobs s)\<rparr>"
        by (auto dest!: claimProvisioningJob_Inr)
      have "provisioning_covered t"
        by (rule provisioning_covered_map [where s = s and f = id
              and g = "\<lambda>j. if pj_id j = pj_id c then claimed_row owner duration now j else j"])
          (use inv t in \<open>auto simp: provisioning_inv_def claimed_row_def active_status_def\<close>)
      with jobs inv t show ?thesis by (simp add: provisioning_inv_def workspaces_ok_def)
    qed
  qed
qed

text \<open>What a finish does to the workspace of the job.\<close>

definition outcome_workspace :: "finish_options \<Rightarrow> int \<Rightarrow> workspace_row \<Rightarrow> workspace_row" where
  "outcome_workspace opts now w =
     (if fo_outcome opts = OutcomeSucceeded then
        w\<lparr>ws_state := WsReady,
          ws_worker_workspace_id :=
            Some (case fo_workerWorkspaceId opts of None \<Rightarrow> ws_id w | Some i \<Rightarrow> i),
          ws_updated_at := now\<rparr>
      else if fo_retryable opts then w
      else w\<lparr>ws_state := WsFailed, ws_updated_at := now\<rparr>)"

lemma settle_workspace_Inr:
  assumes "settle_workspace opts wid now s = (Inr n, t)"
  shows "t = s\<lparr>workspaces := map (\<lambda>w. if ws_id w = wid then outcome_workspace opts now w else w) (workspaces s)\<rparr>"
proof -
  let ?same = "map (\<lambda>w. if ws_id w = wid then outcome_workspace opts now w else w) (workspaces s)"
  have "map (\<lambda>w. if ws_id w = wid then w\<lparr>ws_state := WsReady,
          ws_worker_workspace_id := Some (case fo_workerWorkspaceId opts of None \<Rightarrow> wid | Some i \<Rightarrow> i),
          ws_updated_at := now\<rparr> else w) (workspaces s) = ?same" if "fo_outcome opts = OutcomeSucceeded"
    using that by (intro map_cong) (auto simp: outcome_workspace_def)
  moreover have "map (\<lambda>w. if ws_id w = wid then w\<lparr>ws_state := WsFailed, ws_updated_at := now\<rparr> else w)
        (workspaces s) = ?same" if "fo_outcome opts \<noteq> OutcomeSucceeded" "\<not> fo_retryable opts"
    using that by (intro map_cong) (auto simp: outcome_workspace_def)
  moreover have "?same = workspaces s" if "fo_outcome opts \<noteq> OutcomeSucceeded" "fo_retryable opts"
    using that by (intro map_idI) (auto simp: outcome_workspace_def)
  ultimately show ?thesis
    using assms by (auto simp: settle_workspace_def set_workspace_outcome_def split: if_splits dest!: workspace_updated_Inr(2))
qed

lemma finishProvisioningJob_Inr:
  assumes "finishProvisioningJob opts now s = (Inr result, t)"
  obtains current where "findJob (fo_jobId opts) s = Some current"
    and "holds_lease (fo_jobId opts) (fo_leaseOwner opts) current"
    and "t = s\<lparr>provisioning_jobs := map (\<lambda>j. if holds_lease (fo_jobId opts) (fo_leaseOwner opts) j
                  then finished_row opts now j else j) (provisioning_jobs s),
             workspaces := map (\<lambda>w. if ws_id w = pj_workspace_id current
                  then outcome_workspace opts now w else w) (workspaces s)\<rparr>"
    and "\<exists>r. findJob (fo_jobId opts) t = Some r \<and> result = toProvisioningJob r"
proof -
  from assms obtain current where found: "findJob (fo_jobId opts) s = Some current"
    and lease: "pj_status current = JobRunning" "pj_lease_owner current = Some (fo_leaseOwner opts)"
    by (auto simp: finishProvisioningJob_def split: option.splits if_splits)
  have "holds_lease (fo_jobId opts) (fo_leaseOwner opts) current"
    using lease findJob_SomeD [OF found] by (simp add: holds_lease_def)
  moreover have "t = s\<lparr>provisioning_jobs := map (\<lambda>j. if holds_lease (fo_jobId opts) (fo_leaseOwner opts) j
                  then finished_row opts now j else j) (provisioning_jobs s),
             workspaces := map (\<lambda>w. if ws_id w = pj_workspace_id current
                  then outcome_workspace opts now w else w) (workspaces s)\<rparr>
      \<and> (\<exists>r. findJob (fo_jobId opts) t = Some r \<and> result = toProvisioningJob r)"
    using assms unfolding finishProvisioningJob_def
    by (simp add: found lease split: option.splits if_splits del: not_None_eq)
      (auto split: option.splits if_splits dest!: job_updated_Inr(2) settle_workspace_Inr)
  ultimately show thesis using found that by blast
qed

lemma settle_workspace_keeps: "keeps workspaces_ok (settle_workspace opts wid now)"
  and settle_workspace_keeps_jobs: "keeps jobs_ok (settle_workspace opts wid now)"
  unfolding settle_workspace_def set_workspace_outcome_def workspaces_ok_def jobs_ok_def
  by (intro keeps_intro ws_tbl.update_keeps_schema ws_tbl.update_keeps_other;
      simp add: set_workspaces_def)+

lemma finishProvisioningJob_keeps_ok: "keeps (\<lambda>s. jobs_ok s \<and> workspaces_ok s) (finishProvisioningJob opts now)"
proof (intro keeps_conj)
  show "keeps jobs_ok (finishProvisioningJob opts now)"
    unfolding finishProvisioningJob_def
    by (intro keeps_intro settle_workspace_keeps_jobs
        pj_tbl.update_keeps_schema [folded jobs_ok_def])
  show "keeps workspaces_ok (finishProvisioningJob opts now)"
    unfolding finishProvisioningJob_def
    by (intro keeps_intro settle_workspace_keeps pj_tbl.update_keeps_other)
      (simp add: set_provisioning_jobs_def workspaces_ok_def)
qed

lemma finishProvisioningJob_Inl: "finishProvisioningJob opts now s = (Inl e, t) \<Longrightarrow> t = s"
  unfolding finishProvisioningJob_def by (rule atomic_rolls_back)

lemma finished_row_simps [simp]:
  "pj_id (finished_row opts now j) = pj_id j"
  "pj_workspace_id (finished_row opts now j) = pj_workspace_id j"
  "pj_attempt (finished_row opts now j) = pj_attempt j"
  "pj_lease_owner (finished_row opts now j) = None"
  "pj_status (finished_row opts now j) =
     (if fo_outcome opts = OutcomeSucceeded then JobSucceeded
      else if fo_retryable opts then JobQueued else JobFailed)"
  by (cases "fo_outcome opts"; simp add: finished_row_def Let_def)+

lemma finishProvisioningJob_keeps_inv: "keeps provisioning_inv (finishProvisioningJob opts now)"
proof (rule keepsI)
  fix s r t
  assume inv: "provisioning_inv s" and run: "finishProvisioningJob opts now s = (r, t)"
  then have ok: "jobs_ok t \<and> workspaces_ok t"
    using keepsD [OF finishProvisioningJob_keeps_ok _ run] by (simp add: provisioning_inv_def)
  show "provisioning_inv t"
  proof (cases r)
    case (Inl e)
    with run inv show ?thesis by (auto dest: finishProvisioningJob_Inl)
  next
    case (Inr result)
    with run have "finishProvisioningJob opts now s = (Inr result, t)" by simp
    then obtain c where c: "findJob (fo_jobId opts) s = Some c"
        "holds_lease (fo_jobId opts) (fo_leaseOwner opts) c"
      and t: "t = s\<lparr>provisioning_jobs := map (\<lambda>j. if holds_lease (fo_jobId opts) (fo_leaseOwner opts) j
                  then finished_row opts now j else j) (provisioning_jobs s),
             workspaces := map (\<lambda>w. if ws_id w = pj_workspace_id c
                  then outcome_workspace opts now w else w) (workspaces s)\<rparr>"
      by (rule finishProvisioningJob_Inr)
    have same: "j = c" if "j \<in> set (provisioning_jobs s)" "holds_lease (fo_jobId opts) (fo_leaseOwner opts) j" for j
      using that c inv findJob_SomeD [OF c(1)]
      by (auto simp: provisioning_inv_def holds_lease_def intro: jobs_ok_same_id)
    have "provisioning_covered t"
      by (rule provisioning_covered_map [where s = s
            and f = "\<lambda>w. if ws_id w = pj_workspace_id c then outcome_workspace opts now w else w"
            and g = "\<lambda>j. if holds_lease (fo_jobId opts) (fo_leaseOwner opts) j
                         then finished_row opts now j else j"])
        (use inv t in \<open>auto simp: provisioning_inv_def outcome_workspace_def active_status_def
            split: if_splits dest: same\<close>)
    with ok show ?thesis by (simp add: provisioning_inv_def)
  qed
qed

section \<open>The queue as a step relation\<close>

text \<open>Everything that happens to the queue: any user, processor and clock may come next.\<close>

inductive queue_step :: "cloud_db \<Rightarrow> cloud_db \<Rightarrow> bool" where
  request: "queue_step s (snd (ensureWorkspaceRunning u g i k now s))"
| claim: "queue_step s (snd (claimProvisioningJob owner duration now s))"
| finish: "queue_step s (snd (finishProvisioningJob opts now s))"

interpretation queue: invariant_system queue_step provisioning_inv
proof
  fix s t
  assume "queue_step s t" and "provisioning_inv s"
  then show "provisioning_inv t"
  proof (cases rule: queue_step.cases)
    case (request u g i k now)
    with \<open>provisioning_inv s\<close> show ?thesis
      using ensureWorkspaceRunning_keeps_inv by (simp add: keeps_def)
  next
    case (claim owner duration now)
    with \<open>provisioning_inv s\<close> show ?thesis
      using claimProvisioningJob_keeps_inv by (simp add: keeps_def)
  next
    case (finish opts now)
    with \<open>provisioning_inv s\<close> show ?thesis
      using finishProvisioningJob_keeps_inv by (simp add: keeps_def)
  qed
qed

lemma ensureWorkspaceRunning_keeps_jobs: "keeps jobs_ok (ensureWorkspaceRunning u g i k now)"
  unfolding ensureWorkspaceRunning_def requestRunning_def ensurePersonalWorkspace_def
    insertWorkspace_def insertJob_def markProvisioning_def
  by (intro keeps_intro pj_tbl.insert_keeps_schema [folded jobs_ok_def] ws_tbl.insert_keeps_other
      ws_tbl.update_keeps_other; simp add: set_workspaces_def jobs_ok_def)

section \<open>Leases\<close>

text \<open>
  The contract between the queue and a processor: a claim gives the lease to the claimer, a
  finish without the lease is refused and changes nothing, a finish gives the lease up.
\<close>

locale lease_queue =
  fixes claim :: "string \<Rightarrow> int \<Rightarrow> int \<Rightarrow> ('s, db_error, 'j option) operation"
    and finish :: "'o \<Rightarrow> int \<Rightarrow> ('s, db_error, 'j) operation"
    and ident :: "'j \<Rightarrow> string"
    and target :: "'o \<Rightarrow> string"
    and actor :: "'o \<Rightarrow> string"
    and held :: "string \<Rightarrow> string \<Rightarrow> 's \<Rightarrow> bool"
    and ok :: "'s \<Rightarrow> bool"
  assumes claim_held: "ok s \<Longrightarrow> claim p d n s = (Inr (Some j), t) \<Longrightarrow> held (ident j) p t"
    and claim_ok: "ok s \<Longrightarrow> claim p d n s = (r, t) \<Longrightarrow> ok t"
    and held_one: "ok s \<Longrightarrow> held i p s \<Longrightarrow> held i q s \<Longrightarrow> p = q"
    and finish_fenced: "ok s \<Longrightarrow> \<not> held (target opts) (actor opts) s \<Longrightarrow>
          finish opts n s = (Inl ProvisioningJobLeaseLostError, s)"
    and finish_released: "ok s \<Longrightarrow> finish opts n s = (Inr j, t) \<Longrightarrow> \<not> held (target opts) q t"
    and finish_ok: "ok s \<Longrightarrow> finish opts n s = (f, t) \<Longrightarrow> ok t"
begin

text \<open>A job is settled once: the second finish of any processor finds its lease gone.\<close>

lemma finish_once:
  assumes "ok s" and "finish opts n s = (Inr j, t)" and "target opts' = target opts"
  shows "finish opts' n' t = (Inl ProvisioningJobLeaseLostError, t)"
  using assms by (metis finish_fenced finish_ok finish_released)

text \<open>After somebody else took the job over, the old holder cannot settle it.\<close>

lemma taken_over:
  assumes "ok s" and "claim p d n s = (Inr (Some j), t)"
    and "target opts = ident j" and "actor opts \<noteq> p"
  shows "finish opts n' t = (Inl ProvisioningJobLeaseLostError, t)"
  using assms by (metis claim_held claim_ok finish_fenced held_one)

end

definition leased :: "string \<Rightarrow> string \<Rightarrow> cloud_db \<Rightarrow> bool" where
  "leased jobId owner db = list_ex (holds_lease jobId owner) (provisioning_jobs db)"

lemma findJob_eq:
  "jobs_ok db \<Longrightarrow> j \<in> set (provisioning_jobs db) \<Longrightarrow> findJob (pj_id j) db = Some j"
  by (metis (mono_tags, lifting) find_ex findJob_SomeD findJob_def jobs_ok_same_id)

lemma claim_result:
  assumes "jobs_ok s" and "claimProvisioningJob owner duration now s = (Inr (Some job), t)"
  obtains c where "findClaimable now s = Some c" and "job = toProvisioningJob (claimed_row owner duration now c)"
    and "claimed_row owner duration now c \<in> set (provisioning_jobs t)"
    and "t = s\<lparr>provisioning_jobs := map (\<lambda>j. if pj_id j = pj_id c then claimed_row owner duration now j else j)
                 (provisioning_jobs s)\<rparr>"
proof -
  from claimProvisioningJob_Inr [OF assms(2)] obtain c where c: "findClaimable now s = Some c"
    and t: "t = s\<lparr>provisioning_jobs := map (\<lambda>j. if pj_id j = pj_id c then claimed_row owner duration now j else j)
                 (provisioning_jobs s)\<rparr>"
    and job: "Some job = map_option toProvisioningJob (findJob (pj_id c) t)"
    by (auto split: option.splits)
  from t have "findJob (pj_id c) t = map_option (claimed_row owner duration now) (findJob (pj_id c) s)"
    by (simp add: findJob_def find_keyed_update)
  also have "findJob (pj_id c) s = Some c"
    using findClaimable_SomeD(1) [OF c] assms(1) by (simp add: findJob_eq)
  finally have found: "findJob (pj_id c) t = Some (claimed_row owner duration now c)" by simp
  with job c t that show thesis by (auto dest: findJob_SomeD)
qed

lemma leasedI: "j \<in> set (provisioning_jobs db) \<Longrightarrow> holds_lease i p j \<Longrightarrow> leased i p db"
  by (auto simp: leased_def list_ex_iff)

lemma lease_one_owner: "jobs_ok s \<Longrightarrow> leased i p s \<Longrightarrow> leased i q s \<Longrightarrow> p = q"
proof -
  assume ok: "jobs_ok s" and "leased i p s" and "leased i q s"
  then obtain j k where "j \<in> set (provisioning_jobs s)" "holds_lease i p j"
      and "k \<in> set (provisioning_jobs s)" "holds_lease i q k"
    by (auto simp: leased_def list_ex_iff)
  moreover from this have "j = k" by (intro jobs_ok_same_id [OF ok]) (simp_all add: holds_lease_def)
  ultimately show "p = q" by (simp add: holds_lease_def)
qed

lemma finish_without_lease:
  assumes "\<not> leased (fo_jobId opts) (fo_leaseOwner opts) s"
  shows "finishProvisioningJob opts now s = (Inl ProvisioningJobLeaseLostError, s)"
  using assms
  by (auto simp: finishProvisioningJob_def atomic_def leased_def list_ex_iff holds_lease_def
      operation_defs obind_def split: option.splits dest: findJob_SomeD)

lemma finish_gives_up:
  assumes "jobs_ok s" and "finishProvisioningJob opts now s = (Inr job, t)"
  shows "\<not> leased (fo_jobId opts) q t"
proof -
  from assms(2) obtain c where c: "findJob (fo_jobId opts) s = Some c"
        "holds_lease (fo_jobId opts) (fo_leaseOwner opts) c"
      and t: "t = s\<lparr>provisioning_jobs := map (\<lambda>j. if holds_lease (fo_jobId opts) (fo_leaseOwner opts) j
                  then finished_row opts now j else j) (provisioning_jobs s),
             workspaces := map (\<lambda>w. if ws_id w = pj_workspace_id c
                  then outcome_workspace opts now w else w) (workspaces s)\<rparr>"
    by (rule finishProvisioningJob_Inr)
  have "\<not> holds_lease (fo_jobId opts) q j"
    if "j \<in> set (provisioning_jobs s)" "\<not> holds_lease (fo_jobId opts) (fo_leaseOwner opts) j" for j
    using that c assms(1) findJob_SomeD [OF c(1)] jobs_ok_same_id [OF assms(1), of j c]
    by (auto simp: holds_lease_def)
  then show ?thesis
    by (auto simp: leased_def list_ex_iff t) (auto simp: holds_lease_def)
qed

interpretation leases: lease_queue claimProvisioningJob finishProvisioningJob job_id fo_jobId fo_leaseOwner
  leased jobs_ok
proof
  fix s t p d n j
  assume "jobs_ok s" and "claimProvisioningJob p d n s = (Inr (Some j), t)"
  then show "leased (job_id j) p t"
    by (rule claim_result) (auto intro!: leasedI simp: holds_lease_def toProvisioningJob_def)
next
  fix s t p d n r
  assume "jobs_ok s" and "claimProvisioningJob p d n s = (r, t)"
  moreover have "keeps jobs_ok (claimProvisioningJob p d n)"
    unfolding claimProvisioningJob_def by (intro keeps_intro pj_tbl.update_keeps_schema [folded jobs_ok_def])
  ultimately show "jobs_ok t" by (metis keepsD)
next
  fix s t opts n r
  assume "jobs_ok s" and "finishProvisioningJob opts n s = (r, t)"
  moreover have "keeps jobs_ok (finishProvisioningJob opts n)"
    unfolding finishProvisioningJob_def
    by (intro keeps_intro settle_workspace_keeps_jobs pj_tbl.update_keeps_schema [folded jobs_ok_def])
  ultimately show "jobs_ok t" by (metis keepsD)
qed (simp_all add: lease_one_owner finish_without_lease finish_gives_up)

text \<open>
  What may happen while \<open>owner\<close> holds a lease that runs until \<open>deadline\<close>: requests, claims
  of any processor at a clock before the deadline, finishes of other processors.
\<close>

inductive foreign_step :: "string \<Rightarrow> int \<Rightarrow> cloud_db \<Rightarrow> cloud_db \<Rightarrow> bool" for owner deadline where
  request: "foreign_step owner deadline s (snd (ensureWorkspaceRunning u g i k now s))"
| claim: "now < deadline \<Longrightarrow> foreign_step owner deadline s (snd (claimProvisioningJob p d now s))"
| finish: "fo_leaseOwner opts \<noteq> owner \<Longrightarrow>
    foreign_step owner deadline s (snd (finishProvisioningJob opts now s))"

definition leased_until :: "string \<Rightarrow> string \<Rightarrow> int \<Rightarrow> cloud_db \<Rightarrow> bool" where
  "leased_until jobId owner deadline db \<longleftrightarrow>
     list_ex (\<lambda>j. holds_lease jobId owner j \<and> pj_lease_expires_at j = Some deadline)
       (provisioning_jobs db)"

lemma leased_until_leased: "leased_until i p d db \<Longrightarrow> leased i p db"
  by (auto simp: leased_until_def leased_def list_ex_iff)

lemma requests_append_jobs:
  assumes "ensureWorkspaceRunning u g i k now s = (r, t)"
  shows "\<exists>new. provisioning_jobs t = provisioning_jobs s @ new"
proof -
  have workspace: "provisioning_jobs y = provisioning_jobs x"
    if "ensurePersonalWorkspace u g i now x = (f, y)" for x y f
  proof (cases f)
    case (Inl e)
    with that show ?thesis by (auto simp: ensurePersonalWorkspace_def dest: atomic_rolls_back)
  next
    case (Inr w)
    with that show ?thesis by (auto elim!: ensurePersonalWorkspace_Inr)
  qed
  have request: "\<exists>new. provisioning_jobs y = provisioning_jobs x @ new"
    if "requestRunning w k now x = (f, y)" for w x y f
  proof (cases f)
    case (Inl e)
    with that show ?thesis by (auto simp: requestRunning_def dest: atomic_rolls_back)
  next
    case (Inr p)
    obtain v job where "p = (v, job)" by fastforce
    with Inr that have "requestRunning w k now x = (Inr (v, job), y)" by simp
    then obtain u' j n where "insertJob k w now x = (Inr (), u') \<or> u' = x"
      and "markProvisioning w now u' = (Inr n, y)"
      by (rule requestRunning_Inr)
    then show ?thesis by (auto dest!: insertJob_Inr markProvisioning_Inr)
  qed
  from assms show ?thesis
    unfolding ensureWorkspaceRunning_def obind_def
    by (auto split: prod.splits sum.splits if_splits dest!: workspace request simp: operation_defs)
qed

interpretation lease_kept: invariant_system "foreign_step owner deadline"
  "\<lambda>db. jobs_ok db \<and> leased_until jobId owner deadline db" for owner deadline jobId
proof
  fix s t
  assume step: "foreign_step owner deadline s t" and inv: "jobs_ok s \<and> leased_until jobId owner deadline s"
  then obtain j where j: "j \<in> set (provisioning_jobs s)" "holds_lease jobId owner j"
      "pj_lease_expires_at j = Some deadline"
    by (auto simp: leased_until_def list_ex_iff)
  have keepI: "leased_until jobId owner deadline t" if "j \<in> set (provisioning_jobs t)"
    using that j by (auto simp: leased_until_def list_ex_iff)
  from step show "jobs_ok t \<and> leased_until jobId owner deadline t"
  proof (cases rule: foreign_step.cases)
    case (request u g i k now)
    have "keeps jobs_ok (ensureWorkspaceRunning u g i k now)" by (rule ensureWorkspaceRunning_keeps_jobs)
    moreover obtain r where "ensureWorkspaceRunning u g i k now s = (r, t)"
      using request by (metis prod.collapse)
    ultimately show ?thesis
      using inv j(1) requests_append_jobs keepI by (metis Un_iff keepsD set_append)
  next
    case (claim now p d)
    obtain r where run: "claimProvisioningJob p d now s = (r, t)" using claim by (metis prod.collapse)
    then have "jobs_ok t" using inv leases.claim_ok by blast
    moreover have "j \<in> set (provisioning_jobs t)"
    proof (cases r)
      case (Inl e)
      with run j show ?thesis by (auto dest: claimProvisioningJob_Inl)
    next
      case (Inr result)
      have "pj_id j \<noteq> pj_id c" if "findClaimable now s = Some c" for c
      proof
        assume "pj_id j = pj_id c"
        then have "c = j" using inv j(1) findClaimable_SomeD(1) [OF that] by (metis jobs_ok_same_id)
        with findClaimable_SomeD(2) [OF that] j claim(2) show False
          by (auto simp: claimable_def holds_lease_def)
      qed
      with Inr run j show ?thesis
        by (auto dest!: claimProvisioningJob_Inr split: option.splits)
    qed
    ultimately show ?thesis using keepI by simp
  next
    case (finish opts now)
    obtain r where run: "finishProvisioningJob opts now s = (r, t)" using finish by (metis prod.collapse)
    then have "jobs_ok t" using inv leases.finish_ok by blast
    moreover have "j \<in> set (provisioning_jobs t)"
    proof (cases r)
      case (Inl e)
      with run j show ?thesis by (auto dest: finishProvisioningJob_Inl)
    next
      case (Inr job)
      with run have "finishProvisioningJob opts now s = (Inr job, t)" by simp
      then show ?thesis
        by (rule finishProvisioningJob_Inr) (use j finish in \<open>auto simp: holds_lease_def\<close>)
    qed
    ultimately show ?thesis using keepI by simp
  qed
qed

lemma claim_leases_until:
  assumes "jobs_ok s" and "claimProvisioningJob owner duration now s = (Inr (Some job), t)"
  shows "leased_until (job_id job) owner (now + duration) t"
proof -
  obtain c where "job = toProvisioningJob (claimed_row owner duration now c)"
    and "claimed_row owner duration now c \<in> set (provisioning_jobs t)"
    by (rule claim_result [OF assms])
  then show ?thesis
    unfolding leased_until_def list_ex_iff
    by (intro bexI [of _ "claimed_row owner duration now c"])
      (simp_all add: holds_lease_def toProvisioningJob_def)
qed

section \<open>Properties\<close>

lemma claim_runs:
  assumes "jobs_ok s" and "findClaimable now s = Some c" and "trim owner \<noteq> []" and "0 < duration"
  shows "\<exists>job t. claimProvisioningJob owner duration now s = (Inr (Some job), t)"
proof -
  have c: "c \<in> set (provisioning_jobs s)" "claimable now c"
    using findClaimable_SomeD [OF assms(2)] by auto
  have same: "j = c" if "j \<in> set (provisioning_jobs s)" "pj_id j = pj_id c" for j
    using that c assms(1) jobs_ok_same_id by blast
  have attempt: "pj_attempt c \<ge> 0"
    using assms(1) c by (auto simp: jobs_ok_def schema_ok_def row_ok_iff provisioning_job_schema_def)
  have "update_in provisioning_jobs set_provisioning_jobs provisioning_job_schema
      (\<lambda>j. pj_id j = pj_id c) (claimed_row owner duration now) s
    = (Inr (length (filter (\<lambda>j. pj_id j = pj_id c) (provisioning_jobs s))),
       set_provisioning_jobs (map (\<lambda>j. if pj_id j = pj_id c then claimed_row owner duration now j else j)
         (provisioning_jobs s)) s)"
    using assms(1) attempt claimable_active [OF c(2)]
    by (intro pj_tbl.update_ok)
      (auto simp: jobs_ok_def row_ok_iff provisioning_job_schema_def active_status_def dest!: same)
  moreover have "find (\<lambda>j. pj_id j = pj_id c) (provisioning_jobs s) = Some c"
    using findJob_eq [OF assms(1) c(1)] by (simp add: findJob_def)
  ultimately show ?thesis
    using assms by (simp add: claimProvisioningJob_def atomic_def obind_def operation_defs findJob_def
        set_provisioning_jobs_def require_def find_keyed_update)
qed

text \<open>A valid claim never fails. When some job is claimable it takes one that no claimable
  job precedes in the queue order (queued before abandoned, then by availability and age),
  counts the attempt and leases it to the claimer until now plus the lease duration; when none
  is claimable it returns null and changes nothing.\<close>

theorem claimProvisioningJob_takes_next:
  assumes "jobs_ok s" and "trim owner \<noteq> []" and "0 < duration"
  shows "if \<exists>j \<in> set (provisioning_jobs s). claimable now j
    then \<exists>c \<in> set (provisioning_jobs s). claimable now c
       \<and> (\<forall>j \<in> set (provisioning_jobs s). claimable now j \<longrightarrow> queue_key c \<le> queue_key j)
       \<and> claimProvisioningJob owner duration now s =
           (Inr (Some (toProvisioningJob (c\<lparr>pj_status := JobRunning, pj_attempt := pj_attempt c + 1,
                pj_lease_owner := Some owner, pj_lease_expires_at := Some (now + duration),
                pj_updated_at := now, pj_completed_at := None\<rparr>))),
            s\<lparr>provisioning_jobs := map (\<lambda>j. if pj_id j = pj_id c then claimed_row owner duration now j else j)
               (provisioning_jobs s)\<rparr>)
    else claimProvisioningJob owner duration now s = (Inr None, s)"
proof (cases "findClaimable now s")
  case None
  then have "\<not> (\<exists>j \<in> set (provisioning_jobs s). claimable now j)"
    by (simp add: findClaimable_None_iff)
  with None assms show ?thesis
    by (auto simp: claimProvisioningJob_def atomic_def obind_def operation_defs require_def)
next
  case (Some c)
  obtain job t where run: "claimProvisioningJob owner duration now s = (Inr (Some job), t)"
    using claim_runs [OF assms(1) Some assms(2,3)] by blast
  then have "job = toProvisioningJob (claimed_row owner duration now c)"
    and "t = s\<lparr>provisioning_jobs := map (\<lambda>j. if pj_id j = pj_id c then claimed_row owner duration now j else j)
               (provisioning_jobs s)\<rparr>"
    using claim_result [OF assms(1) run] Some by auto
  with run findClaimable_SomeD [OF Some] show ?thesis
    by (auto simp: claimed_row_def fun_eq_iff intro!: bexI [of _ c])
qed

text \<open>C1: While a lease runs, nothing that users and other processors do takes the job away:
  the claimer still holds it, no claim before the deadline hands it out again, and a finish
  by anybody else is refused without effect.\<close>

theorem claimed_job_is_exclusive:
  assumes "jobs_ok s" and "claimProvisioningJob owner duration now s = (Inr (Some job), s1)"
    and "rtranclp (foreign_step owner (now + duration)) s1 s2"
  shows "leased (job_id job) owner s2
    \<and> (\<forall>p d later job' s3. later < now + duration \<longrightarrow>
         claimProvisioningJob p d later s2 = (Inr (Some job'), s3) \<longrightarrow> job_id job' \<noteq> job_id job)
    \<and> (\<forall>opts later. fo_jobId opts = job_id job \<longrightarrow> fo_leaseOwner opts \<noteq> owner \<longrightarrow>
         finishProvisioningJob opts later s2 = (Inl ProvisioningJobLeaseLostError, s2))"
proof -
  from assms(1,2) have "jobs_ok s1 \<and> leased_until (job_id job) owner (now + duration) s1"
    using leases.claim_ok claim_leases_until by blast
  with assms(3) have s2: "jobs_ok s2" "leased_until (job_id job) owner (now + duration) s2"
    using lease_kept.run_inv by blast+
  have fresh: "job_id job' \<noteq> job_id job"
    if "later < now + duration" and run: "claimProvisioningJob p d later s2 = (Inr (Some job'), s3)"
    for p d later job' s3
  proof
    assume same: "job_id job' = job_id job"
    from s2 run obtain c where c: "findClaimable later s2 = Some c" "job_id job' = pj_id c"
      by (auto elim!: claim_result simp: toProvisioningJob_def)
    from s2(2) obtain j where j: "j \<in> set (provisioning_jobs s2)" "holds_lease (job_id job) owner j"
        "pj_lease_expires_at j = Some (now + duration)"
      by (auto simp: leased_until_def list_ex_iff)
    with c same have "j = c"
      using jobs_ok_same_id [OF s2(1)] findClaimable_SomeD(1) [OF c(1)] by (simp add: holds_lease_def)
    with findClaimable_SomeD(2) [OF c(1)] j that(1) show False
      by (auto simp: claimable_def holds_lease_def)
  qed
  moreover have "finishProvisioningJob opts later s2 = (Inl ProvisioningJobLeaseLostError, s2)"
    if "fo_jobId opts = job_id job" "fo_leaseOwner opts \<noteq> owner" for opts later
    using that s2 leased_until_leased leases.held_one leases.finish_fenced by metis
  ultimately show ?thesis using s2 leased_until_leased by blast
qed

text \<open>A job is settled at most once: after a successful finish every further finish of
  the same job, by the same processor or another, is refused and changes nothing.\<close>

theorem finishProvisioningJob_once:
  assumes "jobs_ok s" and "finishProvisioningJob opts now s = (Inr job, t)"
    and "fo_jobId opts' = fo_jobId opts"
  shows "finishProvisioningJob opts' later t = (Inl ProvisioningJobLeaseLostError, t)"
  using assms by (rule leases.finish_once)

text \<open>C5: Along every history of requests, claims and finishes a workspace that shows
  \<open>provisioning\<close> has an active job, and no workspace ever has two active jobs.\<close>

theorem no_workspace_stuck_provisioning:
  assumes "rtranclp queue_step s t" and "provisioning_inv s"
  shows "(\<forall>w \<in> set (workspaces t). ws_state w = WsProvisioning \<longrightarrow>
            (\<exists>j \<in> set (provisioning_jobs t). active_status (pj_status j) \<and> pj_workspace_id j = ws_id w))
    \<and> (\<forall>j \<in> set (provisioning_jobs t). \<forall>k \<in> set (provisioning_jobs t).
          active_status (pj_status j) \<and> active_status (pj_status k)
          \<and> pj_workspace_id j = pj_workspace_id k \<longrightarrow> j = k)"
proof -
  have "provisioning_inv t" using assms by (rule queue.run_inv)
  then show ?thesis
    by (auto simp: provisioning_inv_def provisioning_covered_def intro: jobs_ok_one_active)
qed

lemma finishProvisioningJob_row:
  assumes "jobs_ok s" and "finishProvisioningJob opts now s = (Inr result, t)"
  obtains c where "c \<in> set (provisioning_jobs s)"
    and "\<forall>j \<in> set (provisioning_jobs s).
           holds_lease (fo_jobId opts) (fo_leaseOwner opts) j \<longleftrightarrow> j = c"
    and "provisioning_jobs t = map (\<lambda>j. if holds_lease (fo_jobId opts) (fo_leaseOwner opts) j
                  then finished_row opts now j else j) (provisioning_jobs s)"
    and "workspaces t = map (\<lambda>w. if ws_id w = pj_workspace_id c
                  then outcome_workspace opts now w else w) (workspaces s)"
    and "result = toProvisioningJob (finished_row opts now c)"
    and "finished_row opts now c \<in> set (provisioning_jobs t)"
proof -
  from assms(2) obtain c where c: "findJob (fo_jobId opts) s = Some c"
        "holds_lease (fo_jobId opts) (fo_leaseOwner opts) c"
      and t: "t = s\<lparr>provisioning_jobs := map (\<lambda>j. if holds_lease (fo_jobId opts) (fo_leaseOwner opts) j
                  then finished_row opts now j else j) (provisioning_jobs s),
             workspaces := map (\<lambda>w. if ws_id w = pj_workspace_id c
                  then outcome_workspace opts now w else w) (workspaces s)\<rparr>"
      and found: "\<exists>r. findJob (fo_jobId opts) t = Some r \<and> result = toProvisioningJob r"
    by (rule finishProvisioningJob_Inr)
  note cD = findJob_SomeD [OF c(1)]
  have same: "holds_lease (fo_jobId opts) (fo_leaseOwner opts) j \<longleftrightarrow> j = c"
    if "j \<in> set (provisioning_jobs s)" for j
    using that c cD jobs_ok_same_id [OF assms(1), of j c] by (auto simp: holds_lease_def)
  have "finished_row opts now c \<in> set (provisioning_jobs t)" using cD c(2) by (auto simp: t)
  then have "findJob (fo_jobId opts) t = Some (finished_row opts now c)"
    using findJob_eq [of t "finished_row opts now c"] cD leases.finish_ok [OF assms] by simp
  with found have result: "result = toProvisioningJob (finished_row opts now c)" by simp
  show thesis
    by (rule that [of c]) (use cD same result \<open>finished_row opts now c \<in> set (provisioning_jobs t)\<close> in \<open>auto simp: t\<close>)
qed

text \<open>A successful finish writes the outcome to the job and to its workspace together: a
  success leaves the job succeeded and the workspace ready under the worker's identifier, a
  failure without retry leaves both failed, a failure with retry puts the job back in the
  queue and leaves the workspace alone; all other rows stay.\<close>

theorem finishProvisioningJob_settles:
  assumes "jobs_ok s" and "finishProvisioningJob opts now s = (Inr result, t)"
  shows "\<exists>j \<in> set (provisioning_jobs s). holds_lease (fo_jobId opts) (fo_leaseOwner opts) j
    \<and> job_id result = pj_id j
    \<and> (\<forall>k \<in> set (provisioning_jobs s). k \<noteq> j \<longrightarrow> k \<in> set (provisioning_jobs t))
    \<and> (\<forall>w \<in> set (workspaces s). ws_id w \<noteq> pj_workspace_id j \<longrightarrow> w \<in> set (workspaces t))
    \<and> (case fo_outcome opts of
         OutcomeSucceeded \<Rightarrow>
           job_status result = JobSucceeded \<and> job_completedAt result = Some now
           \<and> job_errorCode result = None
           \<and> (\<forall>w \<in> set (workspaces t). ws_id w = pj_workspace_id j \<longrightarrow> ws_state w = WsReady
                \<and> ws_worker_workspace_id w
                    = Some (case fo_workerWorkspaceId opts of None \<Rightarrow> ws_id w | Some i \<Rightarrow> i))
       | OutcomeFailed \<Rightarrow>
           job_errorCode result \<noteq> None \<and>
           (if fo_retryable opts
            then job_status result = JobQueued \<and> job_completedAt result = None
               \<and> job_availableAt result = now + max 0 (fo_retryDelayMs opts)
               \<and> workspaces t = workspaces s
            else job_status result = JobFailed \<and> job_completedAt result = Some now
               \<and> (\<forall>w \<in> set (workspaces t). ws_id w = pj_workspace_id j \<longrightarrow> ws_state w = WsFailed)))"
proof -
  obtain c where c: "c \<in> set (provisioning_jobs s)"
    and same: "\<forall>j \<in> set (provisioning_jobs s).
           holds_lease (fo_jobId opts) (fo_leaseOwner opts) j \<longleftrightarrow> j = c"
    and t: "provisioning_jobs t = map (\<lambda>j. if holds_lease (fo_jobId opts) (fo_leaseOwner opts) j
                  then finished_row opts now j else j) (provisioning_jobs s)"
      "workspaces t = map (\<lambda>w. if ws_id w = pj_workspace_id c
                  then outcome_workspace opts now w else w) (workspaces s)"
    and result: "result = toProvisioningJob (finished_row opts now c)"
    and "finished_row opts now c \<in> set (provisioning_jobs t)"
    by (rule finishProvisioningJob_row [OF assms])
  show ?thesis
  proof (intro bexI [of _ c] conjI, goal_cases)
    case 5
    show ?case
      by (cases "fo_outcome opts")
        (auto simp: result t toProvisioningJob_def finished_row_def outcome_workspace_def Let_def
          intro!: map_idI split: option.split)
  qed (use c same result in \<open>auto simp: t toProvisioningJob_def\<close>)
qed

lemma find_marked:
  assumes "markProvisioning i now u = (Inr n, t)" and "findWorkspace i t = Some r"
    and "findWorkspace i u = Some v" and "ws_state v \<noteq> WsReady"
  shows "ws_state r = WsProvisioning"
proof -
  have "find (\<lambda>w. ws_id w = i) (map (\<lambda>w. if ws_id w = i \<and> ws_state w \<noteq> WsReady
           then w\<lparr>ws_state := WsProvisioning, ws_updated_at := now\<rparr> else w) rows)
      = map_option (\<lambda>w. if ws_state w \<noteq> WsReady
           then w\<lparr>ws_state := WsProvisioning, ws_updated_at := now\<rparr> else w) (find (\<lambda>w. ws_id w = i) rows)" for rows
    by (induction rows) auto
  then have "findWorkspace i t = map_option (\<lambda>w. if ws_state w \<noteq> WsReady
           then w\<lparr>ws_state := WsProvisioning, ws_updated_at := now\<rparr> else w) (findWorkspace i u)"
    using markProvisioning_Inr [OF assms(1)] by (simp add: findWorkspace_def)
  with assms show ?thesis by auto
qed

lemma ensurePersonalWorkspace_found:
  assumes "ensurePersonalWorkspace u g i now s = (Inr w, t)" and "workspaces_ok s"
  obtains v where "findWorkspace (pw_id w) t = Some v" and "w = toPersonalWorkspace v"
proof -
  from assms(1) obtain m :: member_row and r where "w = toPersonalWorkspace r" and "findWorkspaceOfMember (mb_id m) t = Some r"
    by (rule ensurePersonalWorkspace_Inr) blast
  moreover have "workspaces_ok t" using assms ensurePersonalWorkspace_keeps_ok by (metis keepsD)
  ultimately have "r \<in> set (workspaces t)" and "pw_id w = ws_id r" and "workspaces_ok t"
    by (auto simp: toPersonalWorkspace_def dest: findWorkspaceOfMember_SomeD)
  then have "findWorkspace (pw_id w) t = Some r"
    by (metis (mono_tags, lifting) find_ex findWorkspace_SomeD findWorkspace_def workspaces_ok_same_id)
  with \<open>w = toPersonalWorkspace r\<close> that show thesis by blast
qed

lemma ensureWorkspaceRunning_Inr:
  assumes "ensureWorkspaceRunning u g i k now s = (Inr (w, result), t)"
  obtains v x where "ensurePersonalWorkspace u g i now s = (Inr v, x)"
    and "pw_state v = WsReady \<and> w = v \<and> result = None \<and> t = x
       \<or> pw_state v \<noteq> WsReady \<and> requestRunning (pw_id v) k now x = (Inr (w, result), t)"
  using assms by (auto simp: ensureWorkspaceRunning_def split: if_splits)

lemma requestRunning_result:
  assumes "jobs_ok x" and "requestRunning i k now x = (Inr (w, result), t)"
    and "findWorkspace i x = Some v" and "ws_state v \<noteq> WsReady"
  shows "pw_state w = WsProvisioning \<and> pw_id w = i
    \<and> (\<exists>j. findActiveJob i t = Some j \<and> result = Some (toProvisioningJob j))"
proof -
  from assms(2) obtain u j n where u: "insertJob k i now x = (Inr (), u) \<or> u = x"
    and j: "findActiveJob i u = Some j" "result = Some (toProvisioningJob j)"
    and mark: "markProvisioning i now u = (Inr n, t)"
    and w: "\<exists>r. findWorkspace i t = Some r \<and> w = toPersonalWorkspace r"
    by (rule requestRunning_Inr)
  from u have "workspaces u = workspaces x" by (auto dest: insertJob_Inr)
  then have "findWorkspace i u = Some v" using assms(3) by (simp add: findWorkspace_def)
  moreover obtain r where "findWorkspace i t = Some r" "w = toPersonalWorkspace r" using w by blast
  ultimately have "pw_state w = WsProvisioning" "pw_id w = i"
    using find_marked [OF mark] assms(4) findWorkspace_SomeD by (auto simp: toPersonalWorkspace_def)
  moreover have "provisioning_jobs t = provisioning_jobs u" using markProvisioning_Inr [OF mark] by simp
  ultimately show ?thesis using j by (simp add: findActiveJob_def)
qed

lemma running_job_active:
  assumes "provisioning_inv s" and "ensureWorkspaceRunning u g i k now s = (Inr (w, Some job), t)"
  shows "pw_state w = WsProvisioning
    \<and> (\<exists>j. findActiveJob (pw_id w) t = Some j \<and> job = toProvisioningJob j)"
proof -
  from assms(2) obtain v x where first: "ensurePersonalWorkspace u g i now s = (Inr v, x)"
    and "pw_state v \<noteq> WsReady" and second: "requestRunning (pw_id v) k now x = (Inr (w, Some job), t)"
    by (rule ensureWorkspaceRunning_Inr) auto
  moreover have "provisioning_inv x"
    using assms(1) first ensurePersonalWorkspace_keeps_covered by (metis keepsD)
  moreover obtain row where "findWorkspace (pw_id v) x = Some row" "v = toPersonalWorkspace row"
    using ensurePersonalWorkspace_found [OF first] assms(1) by (auto simp: provisioning_inv_def)
  ultimately show ?thesis
    using requestRunning_result [OF _ second]
    by (auto simp: provisioning_inv_def toPersonalWorkspace_def)
qed

text \<open>A request for a running workspace returns no job exactly when the workspace is
  ready; otherwise the workspace is provisioning and the returned job is its one active job.\<close>

theorem ensureWorkspaceRunning_one_job:
  assumes "provisioning_inv s"
    and "ensureWorkspaceRunning userId organizationId createId createJobId now s = (Inr (w, result), t)"
  shows "(result = None \<longleftrightarrow> pw_state w = WsReady)
    \<and> (\<forall>job. result = Some job \<longrightarrow> pw_state w = WsProvisioning
         \<and> (\<exists>!j. j \<in> set (provisioning_jobs t) \<and> pj_workspace_id j = pw_id w \<and> active_status (pj_status j))
         \<and> (\<exists>j \<in> set (provisioning_jobs t). pj_workspace_id j = pw_id w
              \<and> active_status (pj_status j) \<and> job = toProvisioningJob j))"
proof (cases result)
  case None
  with assms(2) have "pw_state w = WsReady"
    by (auto elim!: ensureWorkspaceRunning_Inr dest: requestRunning_Inr)
  with None show ?thesis by simp
next
  case (Some job)
  with assms running_job_active [OF assms(1)] have state: "pw_state w = WsProvisioning"
    and "\<exists>j. findActiveJob (pw_id w) t = Some j \<and> job = toProvisioningJob j" by auto
  then obtain j where j: "j \<in> set (provisioning_jobs t)" "pj_workspace_id j = pw_id w"
      "active_status (pj_status j)" "job = toProvisioningJob j"
    by (auto dest: findActiveJob_SomeD)
  moreover have "jobs_ok t"
    using assms ensureWorkspaceRunning_keeps_inv by (metis keepsD provisioning_inv_def)
  ultimately show ?thesis
    using Some state by (auto intro: jobs_ok_one_active)
qed

lemma requestRunning_tables:
  assumes "requestRunning i k now x = (Inr p, t)"
  shows "members t = members x"
    and "findWorkspaceOfMember m t = map_option (\<lambda>w. if ws_id w = i \<and> ws_state w \<noteq> WsReady
           then w\<lparr>ws_state := WsProvisioning, ws_updated_at := now\<rparr> else w) (findWorkspaceOfMember m x)"
proof -
  obtain w result where "p = (w, result)" by fastforce
  with assms have "requestRunning i k now x = (Inr (w, result), t)" by simp
  then obtain u j n where u: "insertJob k i now x = (Inr (), u) \<or> u = x"
    and mark: "markProvisioning i now u = (Inr n, t)"
    by (rule requestRunning_Inr)
  from u have "workspaces u = workspaces x" "members u = members x" by (auto dest: insertJob_Inr)
  then show "members t = members x"
    and "findWorkspaceOfMember m t = map_option (\<lambda>w. if ws_id w = i \<and> ws_state w \<noteq> WsReady
           then w\<lparr>ws_state := WsProvisioning, ws_updated_at := now\<rparr> else w) (findWorkspaceOfMember m x)"
    using markProvisioning_Inr [OF mark]
    by (simp_all add: findWorkspaceOfMember_def find_map_update)
qed

text \<open>What the second request finds: the workspace of the first, now provisioning.\<close>

lemma ensurePersonalWorkspace_again:
  assumes "ensurePersonalWorkspace u g i now s = (Inr v, x)"
    and "requestRunning (pw_id v) k now x = (Inr p, t)" and "pw_state v \<noteq> WsReady"
  shows "\<exists>w. ensurePersonalWorkspace u g i' later t = (Inr w, t) \<and> pw_id w = pw_id v
    \<and> pw_state w = WsProvisioning"
proof -
  from assms(1) obtain m r where m: "find_membership u g s = Some m" and v: "v = toPersonalWorkspace r"
    and r: "findWorkspaceOfMember (mb_id m) x = Some r" and "members x = members s"
    by (auto elim!: ensurePersonalWorkspace_Inr)
  with requestRunning_tables [OF assms(2)] have "find_membership u g t = Some m"
    by (simp add: find_membership_def)
  moreover have "findWorkspaceOfMember (mb_id m) t
      = Some (r\<lparr>ws_state := WsProvisioning, ws_updated_at := now\<rparr>)"
    using requestRunning_tables(2) [OF assms(2), of "mb_id m"] r v assms(3)
    by (simp add: toPersonalWorkspace_def)
  ultimately show ?thesis
    using v by (simp add: ensurePersonalWorkspace_def atomic_def oreturn_def toPersonalWorkspace_def)
qed

lemma requestRunning_active:
  assumes "findActiveJob i t = Some j" and "requestRunning i k later t = (r, t')"
  shows "provisioning_jobs t' = provisioning_jobs t
    \<and> (\<forall>w result. r = Inr (w, result) \<longrightarrow> pw_id w = i \<and> result = Some (toProvisioningJob j))"
proof (cases r)
  case (Inl e)
  with assms show ?thesis by (auto simp: requestRunning_def dest: atomic_rolls_back)
next
  case (Inr p)
  obtain w result where p: "p = (w, result)" by fastforce
  with Inr assms(2) have "requestRunning i k later t = (Inr (w, result), t')" by simp
  then obtain u j' n where "findActiveJob i u = Some j'" "result = Some (toProvisioningJob j')"
    and "findActiveJob i t = Some j' \<and> u = t \<or> findActiveJob i t = None"
    and "markProvisioning i later u = (Inr n, t')"
    and "\<exists>r. findWorkspace i t' = Some r \<and> w = toPersonalWorkspace r"
    by (rule requestRunning_Inr)
  with assms(1) Inr p show ?thesis
    by (auto dest!: markProvisioning_Inr findWorkspace_SomeD simp: toPersonalWorkspace_def)
qed

text \<open>Asking again while the job is active joins that job: the second request returns the
  same job and leaves the queue as it is, whatever its clock and its fresh identifiers.\<close>

theorem ensureWorkspaceRunning_joins:
  assumes "provisioning_inv s"
    and "ensureWorkspaceRunning userId organizationId createId createJobId now s = (Inr (w, Some job), t)"
    and "ensureWorkspaceRunning userId organizationId createId' createJobId' later t = (r, t')"
  shows "provisioning_jobs t' = provisioning_jobs t
    \<and> (\<forall>w' result. r = Inr (w', result) \<longrightarrow> pw_id w' = pw_id w \<and> result = Some job)"
proof -
  obtain j where j: "findActiveJob (pw_id w) t = Some j" "job = toProvisioningJob j"
    using running_job_active [OF assms(1,2)] by blast
  from assms(2) obtain v x where first: "ensurePersonalWorkspace userId organizationId createId now s = (Inr v, x)"
    and ready: "pw_state v \<noteq> WsReady" and second: "requestRunning (pw_id v) createJobId now x = (Inr (w, Some job), t)"
    by (rule ensureWorkspaceRunning_Inr) auto
  have "pw_id w = pw_id v"
    using second by (rule requestRunning_Inr) (auto simp: toPersonalWorkspace_def dest: findWorkspace_SomeD)
  with ensurePersonalWorkspace_again [OF first second ready, of createId' later]
  have "requestRunning (pw_id w) createJobId' later t = (r, t')"
    using assms(3) by (auto simp: ensureWorkspaceRunning_def obind_def)
  with j show ?thesis using requestRunning_active by blast
qed

lemma settle_workspace_failed_runs:
  assumes "workspaces_ok s" and "fo_outcome opts = OutcomeFailed"
  shows "\<exists>n t. settle_workspace opts wid now s = (Inr n, t)"
proof -
  have "update_in workspaces set_workspaces workspace_schema (\<lambda>w. ws_id w = wid)
      (\<lambda>w. w\<lparr>ws_state := WsFailed, ws_worker_workspace_id := ws_worker_workspace_id w,
             ws_updated_at := now\<rparr>) s
    = (Inr (length (filter (\<lambda>w. ws_id w = wid) (workspaces s))),
       set_workspaces (map (\<lambda>w. if ws_id w = wid then w\<lparr>ws_state := WsFailed,
          ws_worker_workspace_id := ws_worker_workspace_id w, ws_updated_at := now\<rparr> else w) (workspaces s)) s)"
    using assms(1)
    by (intro ws_tbl.update_ok) (auto simp: workspaces_ok_def schema_ok_def row_ok_iff workspace_schema_def)
  with assms(2) show ?thesis
    by (simp add: settle_workspace_def set_workspace_outcome_def oreturn_def)
qed

lemma jobs_ok_distinct: "jobs_ok s \<Longrightarrow> distinct (map pj_id (provisioning_jobs s))"
  unfolding jobs_ok_def
  by (erule schema_ok_distinct [where u = "(''provisioning_job.id'', \<lambda>j. Some [SText (pj_id j)])"
        and g = "\<lambda>i. [SText i]"]) (simp_all add: provisioning_job_schema_def)

lemma finish_update_runs:
  assumes "jobs_ok s" and "j \<in> set (provisioning_jobs s)"
    and "holds_lease (fo_jobId opts) (fo_leaseOwner opts) j"
  shows "update_in provisioning_jobs set_provisioning_jobs provisioning_job_schema
      (holds_lease (fo_jobId opts) (fo_leaseOwner opts)) (finished_row opts now) s
    = (Inr 1, set_provisioning_jobs (map (\<lambda>k. if holds_lease (fo_jobId opts) (fo_leaseOwner opts) k
         then finished_row opts now k else k) (provisioning_jobs s)) s)"
proof -
  have "filter (holds_lease (fo_jobId opts) (fo_leaseOwner opts)) (provisioning_jobs s)
      = filter (\<lambda>k. pj_id k = pj_id j) (provisioning_jobs s)"
    using assms jobs_ok_same_id [OF assms(1), of _ j]
    by (intro filter_cong refl) (metis (mono_tags, lifting) holds_lease_def)
  then have "length (filter (holds_lease (fo_jobId opts) (fo_leaseOwner opts)) (provisioning_jobs s)) = 1"
    using filter_key_single [OF jobs_ok_distinct [OF assms(1)] assms(2)] by simp
  moreover have "update_in provisioning_jobs set_provisioning_jobs provisioning_job_schema
      (holds_lease (fo_jobId opts) (fo_leaseOwner opts)) (finished_row opts now) s
    = (Inr (length (filter (holds_lease (fo_jobId opts) (fo_leaseOwner opts)) (provisioning_jobs s))),
       set_provisioning_jobs (map (\<lambda>k. if holds_lease (fo_jobId opts) (fo_leaseOwner opts) k
         then finished_row opts now k else k) (provisioning_jobs s)) s)"
    using assms(1)
    by (intro pj_tbl.update_ok)
      (auto simp: jobs_ok_def schema_ok_def row_ok_iff provisioning_job_schema_def holds_lease_def active_status_def
        split: if_splits)
  ultimately show ?thesis by simp
qed

lemma finish_failed_runs:
  assumes "jobs_ok s" and "workspaces_ok s" and "leased (fo_jobId opts) (fo_leaseOwner opts) s"
    and "fo_outcome opts = OutcomeFailed"
  obtains result t where "finishProvisioningJob opts now s = (Inr result, t)"
proof -
  from assms(3) obtain j where j: "j \<in> set (provisioning_jobs s)"
      "holds_lease (fo_jobId opts) (fo_leaseOwner opts) j"
    by (auto simp: leased_def list_ex_iff)
  then have found: "findJob (fo_jobId opts) s = Some j"
    using findJob_eq [OF assms(1), of j] by (simp add: holds_lease_def)
  let ?u = "set_provisioning_jobs (map (\<lambda>k. if holds_lease (fo_jobId opts) (fo_leaseOwner opts) k
         then finished_row opts now k else k) (provisioning_jobs s)) s"
  have "workspaces_ok ?u" using assms(2) by (simp add: workspaces_ok_def set_provisioning_jobs_def)
  then obtain n t where settle: "settle_workspace opts (pj_workspace_id j) now ?u = (Inr n, t)"
    using settle_workspace_failed_runs assms(4) by blast
  then have "provisioning_jobs t = provisioning_jobs ?u" by (auto dest: settle_workspace_Inr)
  then have "\<exists>r. findJob (fo_jobId opts) t = Some r"
    unfolding findJob_def using j by (intro find_ex [of "finished_row opts now j"])
      (auto simp: set_provisioning_jobs_def holds_lease_def)
  then obtain r where r: "findJob (fo_jobId opts) t = Some r" by blast
  have "finishProvisioningJob opts now s = (Inr (toProvisioningJob r), t)"
    using found j(2) settle r finish_update_runs [OF assms(1) j]
    by (simp add: finishProvisioningJob_def atomic_def obind_def operation_defs holds_lease_def)
  with that show thesis by blast
qed

text \<open>Whether a failure asks for another attempt.\<close>

fun retryable_failure :: "worker_failure \<Rightarrow> bool" where
  "retryable_failure (WorkerClientError m c r st) = r"
| "retryable_failure _ = True"

lemma retry_delay_bounds: "1000 \<le> retry_delay n" "retry_delay n \<le> 60000"
proof -
  have "(1::int) \<le> 2 ^ k" for k by simp
  then show "1000 \<le> retry_delay n" unfolding retry_delay_def by (smt (verit))
qed (simp add: retry_delay_def)

text \<open>C6: A processor that still holds its lease always settles a failed round: the job is
  queued again, with a delay of one to sixty seconds, exactly when the failure is retryable
  and the attempt is below the maximum; otherwise the job is failed for good.\<close>

theorem settle_failure_retries_until_limit:
  assumes "jobs_ok s" and "workspaces_ok s" and "leased (job_id job) (px_id p) s"
    and "failure \<noteq> AbortFailure \<or> \<not> stopped"
  shows "\<exists>t. settle_failure p job failure stopped now s = (Inr True, t)
    \<and> (\<exists>j \<in> set (provisioning_jobs t). pj_id j = job_id job
        \<and> (if retryable_failure failure \<and> job_attempt job < px_maximumAttempts p
           then pj_status j = JobQueued \<and> now + 1000 \<le> pj_available_at j \<and> pj_available_at j \<le> now + 60000
           else pj_status j = JobFailed))"
proof -
  define opts where "opts =
     \<lparr>fo_jobId = job_id job, fo_leaseOwner = px_id p, fo_outcome = OutcomeFailed,
      fo_retryable = (retryable_failure failure \<and> job_attempt job < px_maximumAttempts p),
      fo_retryDelayMs = retry_delay (job_attempt job),
      fo_errorCode = Some (case failure of WorkerClientError m c r st \<Rightarrow> c | _ \<Rightarrow> ''worker_unexpected_failure''),
      fo_errorMessage = Some (case failure of WorkerClientError m c r st \<Rightarrow> m | _ \<Rightarrow> ''Unexpected provisioning failure''),
      fo_workerWorkspaceId = None\<rparr>"
  obtain result t where finish: "finishProvisioningJob opts now s = (Inr result, t)"
    by (rule finish_failed_runs [of s opts now]) (use assms in \<open>auto simp: opts_def\<close>)
  obtain c where "c \<in> set (provisioning_jobs s)" and "holds_lease (fo_jobId opts) (fo_leaseOwner opts) c"
    and row: "finished_row opts now c \<in> set (provisioning_jobs t)"
    by (rule finishProvisioningJob_row [OF assms(1) finish]) blast
  then have "pj_id c = job_id job" by (simp add: holds_lease_def opts_def)
  have "settle_failure p job failure stopped now s = (Inr True, t)"
    using finish assms(4)
    by (cases failure) (auto simp: settle_failure_def opts_def ocatch_def obind_def oreturn_def)
  with row \<open>pj_id c = job_id job\<close> show ?thesis
    using retry_delay_bounds [of "job_attempt job"]
    by (auto simp: opts_def finished_row_def intro!: bexI [of _ "finished_row opts now c"] split: if_splits)
qed

section \<open>The properties on a concrete queue\<close>

definition queue_db :: cloud_db where
  "queue_db = sample_db
     \<lparr>workspaces := [(new_workspace ''w1'' ''m1'' ''o1'' 5)\<lparr>ws_state := WsProvisioning\<rparr>],
      provisioning_jobs := [new_job ''j1'' ''w1'' 10]\<rparr>"

definition leased_db :: cloud_db where
  "leased_db = queue_db\<lparr>provisioning_jobs := [claimed_row ''p1'' 30000 20 (new_job ''j1'' ''w1'' 10)]\<rparr>"

definition sample_finish :: finish_options where
  "sample_finish =
     \<lparr>fo_jobId = ''j1'', fo_leaseOwner = ''p1'', fo_outcome = OutcomeSucceeded, fo_retryable = False,
      fo_retryDelayMs = 0, fo_errorCode = None, fo_errorMessage = None, fo_workerWorkspaceId = None\<rparr>"

lemmas queue_run = queue_db_def leased_db_def claimProvisioningJob_def trim_def js_space_def
  findClaimable_def claimable_def update_in_def sql_update_def provisioning_job_schema_def
  findJob_def set_provisioning_jobs_def new_job_def claimed_row_def active_status_def
  finishProvisioningJob_def holds_lease_def settle_workspace_def set_workspace_outcome_def
  finished_row_def sample_finish_def new_workspace_def

lemma queue_db_inv: "provisioning_inv queue_db" "provisioning_inv leased_db"
  by (simp_all add: provisioning_inv_def jobs_ok_def workspaces_ok_def provisioning_covered_def
      leased_db_def queue_db_def schema_ok_def row_ok_iff distinct_key_def map_filter_Cons
      provisioning_job_schema_def workspace_schema_def active_status_def new_job_def claimed_row_def
      new_workspace_def)

lemma queue_db_jobs: "jobs_ok queue_db" "jobs_ok leased_db" "workspaces_ok leased_db"
  using queue_db_inv by (simp_all add: provisioning_inv_def)

lemma queue_db_claim:
  "claimProvisioningJob ''p1'' 30000 20 queue_db
     = (Inr (Some (toProvisioningJob (claimed_row ''p1'' 30000 20 (new_job ''j1'' ''w1'' 10)))), leased_db)"
  by (simp add: queue_run sample_run)

lemma leased_db_finish:
  "\<exists>result t. finishProvisioningJob sample_finish 50 leased_db = (Inr result, t) \<and> job_status result = JobSucceeded"
  by (simp add: queue_run sample_run toProvisioningJob_def)

lemma queue_db_running:
  "\<exists>w t. ensureWorkspaceRunning ''u1'' ''o1'' ''w9'' ''j9'' 15 queue_db
     = (Inr (w, Some (toProvisioningJob (new_job ''j1'' ''w1'' 10))), t) \<and> provisioning_inv t"
proof -
  have "\<exists>w t. ensureWorkspaceRunning ''u1'' ''o1'' ''w9'' ''j9'' 15 queue_db
     = (Inr (w, Some (toProvisioningJob (new_job ''j1'' ''w1'' 10))), t)"
    by (simp add: queue_run sample_run ensureWorkspaceRunning_def requestRunning_def markProvisioning_def
        findActiveJob_def findWorkspace_def)
  then show ?thesis
    using ensureWorkspaceRunning_keeps_inv queue_db_inv(1) by (metis keepsD)
qed

theorem claimProvisioningJob_takes_next_witness:
  "\<exists>job t. claimProvisioningJob ''p1'' 30000 20 queue_db = (Inr (Some job), t)
     \<and> claimProvisioningJob ''p2'' 30000 21 leased_db = (Inr None, leased_db)"
proof -
  have "trim ''p1'' \<noteq> []" "trim ''p2'' \<noteq> []" by (simp_all add: trim_def js_space_def)
  moreover have "\<exists>j \<in> set (provisioning_jobs queue_db). claimable 20 j"
    and "\<not> (\<exists>j \<in> set (provisioning_jobs leased_db). claimable 21 j)"
    by (simp_all add: queue_run)
  ultimately show ?thesis
    using claimProvisioningJob_takes_next [OF queue_db_jobs(1), of "''p1''" 30000 20]
      claimProvisioningJob_takes_next [OF queue_db_jobs(2), of "''p2''" 30000 21]
    by auto
qed

theorem claimed_job_is_exclusive_witness:
  "\<exists>s2. rtranclp (foreign_step ''p1'' 30020) leased_db s2 \<and> leased ''j1'' ''p1'' s2
     \<and> finishProvisioningJob (sample_finish\<lparr>fo_leaseOwner := ''p2''\<rparr>) 50 s2
         = (Inl ProvisioningJobLeaseLostError, s2)"
proof -
  let ?s2 = "snd (claimProvisioningJob ''p2'' 10 300 leased_db)"
  have "rtranclp (foreign_step ''p1'' (20 + 30000)) leased_db ?s2"
    by (rule r_into_rtranclp) (rule foreign_step.claim, simp)
  note claimed_job_is_exclusive [OF queue_db_jobs(1) queue_db_claim this]
  then show ?thesis
    using \<open>rtranclp (foreign_step ''p1'' (20 + 30000)) leased_db ?s2\<close>
    by (intro exI [of _ ?s2]) (simp add: sample_finish_def toProvisioningJob_def new_job_def)
qed

theorem finishProvisioningJob_once_witness:
  "\<exists>result t. finishProvisioningJob sample_finish 50 leased_db = (Inr result, t)
     \<and> finishProvisioningJob (sample_finish\<lparr>fo_leaseOwner := ''p2''\<rparr>) 60 t
         = (Inl ProvisioningJobLeaseLostError, t)"
proof -
  obtain result t where run: "finishProvisioningJob sample_finish 50 leased_db = (Inr result, t)"
    using leased_db_finish by blast
  have "finishProvisioningJob (sample_finish\<lparr>fo_leaseOwner := ''p2''\<rparr>) 60 t
      = (Inl ProvisioningJobLeaseLostError, t)"
    by (rule finishProvisioningJob_once [OF queue_db_jobs(2) run]) simp
  with run show ?thesis by blast
qed

theorem no_workspace_stuck_provisioning_witness:
  "\<exists>t. rtranclp queue_step queue_db t \<and> t = leased_db
     \<and> (\<exists>j \<in> set (provisioning_jobs t). active_status (pj_status j) \<and> pj_workspace_id j = ''w1'')"
proof -
  have "queue_step queue_db leased_db"
    using queue_step.claim [of queue_db "''p1''" 30000 20] queue_db_claim by simp
  then have run: "rtranclp queue_step queue_db leased_db" by blast
  have "\<forall>w \<in> set (workspaces leased_db). ws_state w = WsProvisioning \<longrightarrow>
            (\<exists>j \<in> set (provisioning_jobs leased_db). active_status (pj_status j) \<and> pj_workspace_id j = ws_id w)"
    using no_workspace_stuck_provisioning [OF run queue_db_inv(1)] by blast
  moreover have "(new_workspace ''w1'' ''m1'' ''o1'' 5)\<lparr>ws_state := WsProvisioning\<rparr> \<in> set (workspaces leased_db)"
    by (simp add: leased_db_def queue_db_def)
  ultimately show ?thesis using run by fastforce
qed

theorem finishProvisioningJob_settles_witness:
  "\<exists>result t. finishProvisioningJob sample_finish 50 leased_db = (Inr result, t)
     \<and> job_status result = JobSucceeded \<and> job_completedAt result = Some 50"
proof -
  obtain result t where run: "finishProvisioningJob sample_finish 50 leased_db = (Inr result, t)"
    using leased_db_finish by blast
  from finishProvisioningJob_settles [OF queue_db_jobs(2) run] run show ?thesis
    by (auto simp: sample_finish_def leased_db_def new_job_def claimed_row_def)
qed

theorem ensureWorkspaceRunning_one_job_witness:
  "\<exists>w job t. ensureWorkspaceRunning ''u1'' ''o1'' ''w9'' ''j9'' 15 queue_db = (Inr (w, Some job), t)
     \<and> job_id job = ''j1'' \<and> pw_state w = WsProvisioning"
proof -
  obtain w t where run: "ensureWorkspaceRunning ''u1'' ''o1'' ''w9'' ''j9'' 15 queue_db
     = (Inr (w, Some (toProvisioningJob (new_job ''j1'' ''w1'' 10))), t)"
    using queue_db_running by blast
  with ensureWorkspaceRunning_one_job [OF queue_db_inv(1) run] show ?thesis
    by (auto simp: toProvisioningJob_def)
qed

theorem ensureWorkspaceRunning_joins_witness:
  "\<exists>w job t. ensureWorkspaceRunning ''u1'' ''o1'' ''w9'' ''j9'' 15 queue_db = (Inr (w, Some job), t)
     \<and> provisioning_jobs (snd (ensureWorkspaceRunning ''u1'' ''o1'' ''w8'' ''j8'' 16 t)) = provisioning_jobs t"
proof -
  obtain w t where run: "ensureWorkspaceRunning ''u1'' ''o1'' ''w9'' ''j9'' 15 queue_db
     = (Inr (w, Some (toProvisioningJob (new_job ''j1'' ''w1'' 10))), t)"
    using queue_db_running by blast
  obtain r t' where "ensureWorkspaceRunning ''u1'' ''o1'' ''w8'' ''j8'' 16 t = (r, t')"
    by fastforce
  with run ensureWorkspaceRunning_joins [OF queue_db_inv(1) run this] show ?thesis by auto
qed

definition sample_processor :: processor where
  "sample_processor =
     \<lparr>px_id = ''p1'', px_leaseDurationMs = 180000, px_maximumAttempts = 8, px_canProcess = (\<lambda>_. True),
      px_authorizeWorkspace = (\<lambda>_ _. True), px_worker = (\<lambda>w j db. (Inl UnexpectedFailure, db))\<rparr>"

theorem settle_failure_retries_until_limit_witness:
  "let job = toProvisioningJob (claimed_row ''p1'' 30000 20 (new_job ''j1'' ''w1'' 10)) in
   \<exists>t. settle_failure sample_processor job UnexpectedFailure False 50 leased_db = (Inr True, t)
     \<and> (\<exists>j \<in> set (provisioning_jobs t). pj_id j = ''j1'' \<and> pj_status j = JobQueued \<and> 1050 \<le> pj_available_at j)"
proof -
  let ?job = "toProvisioningJob (claimed_row ''p1'' 30000 20 (new_job ''j1'' ''w1'' 10))"
  have "job_id ?job = ''j1''" "job_attempt ?job = 1" by (simp_all add: toProvisioningJob_def new_job_def)
  moreover have "leased ''j1'' ''p1'' leased_db" by (simp add: leased_def queue_run)
  ultimately show ?thesis
    using settle_failure_retries_until_limit
      [OF queue_db_jobs(2,3), of ?job sample_processor UnexpectedFailure False 50]
    by (auto simp: sample_processor_def Let_def)
qed

end
