(* ===== verification/Contacts.thy ===== *)
theory Contacts
  imports Members
begin

text \<open>
  Contact requests (\<open>src/packages/database/src/index.ts\<close>): the rate-limited form of the
  public site and the paginated inbox of the operators.
\<close>

section \<open>The table\<close>

definition contact_request_schema :: "contact_request_row schema" where
  "contact_request_schema =
     \<lparr>checks = [], uniques = [(''contact_request.id'', \<lambda>r. Some [SText (cr_id r)])]\<rparr>"

definition set_contact_requests :: "contact_request_row list \<Rightarrow> cloud_db \<Rightarrow> cloud_db" where
  "set_contact_requests rows db = db\<lparr>contact_requests := rows\<rparr>"

interpretation cr_tbl: sql_table contact_requests set_contact_requests contact_request_schema
  by unfold_locales (simp_all add: set_contact_requests_def)

record contact_request =
  con_id :: string
  con_name :: string
  con_email :: string
  con_organization :: "string option"
  con_topic :: contact_topic
  con_message :: string
  con_status :: contact_status
  con_notificationStatus :: contact_notification
  con_providerMessageId :: "string option"
  con_sourceHash :: string
  con_privacyVersion :: string
  con_createdAt :: int
  con_updatedAt :: int

definition toContactRequest :: "contact_request_row \<Rightarrow> contact_request" where
  "toContactRequest row =
     \<lparr>con_id = cr_id row, con_name = cr_name row, con_email = cr_email row, con_organization = cr_organization row,
      con_topic = cr_topic row, con_message = cr_message row, con_status = cr_status row,
      con_notificationStatus = cr_notification_status row, con_providerMessageId = cr_provider_message_id row,
      con_sourceHash = cr_source_hash row, con_privacyVersion = cr_privacy_version row,
      con_createdAt = cr_created_at row, con_updatedAt = cr_updated_at row\<rparr>"

definition getContactRequestById :: "string \<Rightarrow> cloud_db \<Rightarrow> contact_request option" where
  "getContactRequestById requestId db =
     map_option toContactRequest (find (\<lambda>r. cr_id r = requestId) (contact_requests db))"

section \<open>Operations\<close>

record contact_input =
  cin_id :: string
  cin_name :: string
  cin_email :: string
  cin_organization :: "string option"
  cin_topic :: contact_topic
  cin_message :: string
  cin_sourceHash :: string
  cin_privacyVersion :: string
  cin_windowMs :: "js_num option"
  cin_maximumPerSource :: "js_num option"
  cin_maximumPerEmail :: "js_num option"

definition positive_option :: "js_num option \<Rightarrow> int \<Rightarrow> string \<Rightarrow> db_error + int" where
  "positive_option v dflt message =
     (let x = (case v of None \<Rightarrow> JInt dflt | Some y \<Rightarrow> y) in
      if \<not> is_safe_integer x \<or> int_value x \<le> 0 then Inl (JsError message) else Inr (int_value x))"

text \<open>\<open>input.organization?.trim().slice(0, 160) || null\<close>.\<close>

definition contact_organization :: "string option \<Rightarrow> string option" where
  "contact_organization v =
     (case v of None \<Rightarrow> None | Some s \<Rightarrow> (let t = take 160 (trim s) in if t = [] then None else Some t))"

definition contact_row :: "contact_input \<Rightarrow> int \<Rightarrow> db_error + contact_request_row" where
  "contact_row inp timestamp =
     sbind (boundedContactText (cin_id inp) ''id'' 1 128) (\<lambda>requestId.
     sbind (boundedContactText (cin_name inp) ''name'' 1 120) (\<lambda>name.
     sbind (boundedContactText (cin_email inp) ''email'' 3 254) (\<lambda>email.
     sbind (boundedContactText (cin_message inp) ''message'' 10 4000) (\<lambda>message.
     sbind (boundedContactText (cin_sourceHash inp) ''sourceHash'' 16 128) (\<lambda>sourceHash.
     sbind (boundedContactText (cin_privacyVersion inp) ''privacyVersion'' 1 64) (\<lambda>privacyVersion.
     Inr \<lparr>cr_id = requestId, cr_name = name, cr_email = toLowerCase email,
          cr_organization = contact_organization (cin_organization inp), cr_topic = cin_topic inp,
          cr_message = message, cr_status = ContactNew, cr_notification_status = NotifyPending,
          cr_provider_message_id = None, cr_source_hash = sourceHash, cr_privacy_version = privacyVersion,
          cr_created_at = timestamp, cr_updated_at = timestamp\<rparr>))))))"

definition recent_requests :: "(contact_request_row \<Rightarrow> bool) \<Rightarrow> int \<Rightarrow> cloud_db \<Rightarrow> nat" where
  "recent_requests p since db = length (filter (\<lambda>r. p r \<and> cr_created_at r \<ge> since) (contact_requests db))"

definition store_contact :: "contact_request_row \<Rightarrow> int \<Rightarrow> int \<Rightarrow> int \<Rightarrow> (contact_request \<times> bool) dbop" where
  "store_contact r windowMs maximumPerSource maximumPerEmail = atomic (
     obind (oget (getContactRequestById (cr_id r))) (\<lambda>existing.
     case existing of
       Some c \<Rightarrow> oreturn (c, False)
     | None \<Rightarrow>
         let since = cr_created_at r - windowMs in
         obind (oget (\<lambda>db.
             int (recent_requests (\<lambda>x. cr_source_hash x = cr_source_hash r) since db) \<ge> maximumPerSource
             \<or> int (recent_requests (\<lambda>x. cr_email x = cr_email r) since db) \<ge> maximumPerEmail)) (\<lambda>limited.
         obind (olift (require (\<not> limited) ContactRateLimitError)) (\<lambda>_.
         obind (insert_into contact_requests set_contact_requests contact_request_schema r) (\<lambda>_.
         obind (oget (getContactRequestById (cr_id r))) (\<lambda>request.
         case request of
           None \<Rightarrow> othrow (JsError ''Contact request could not be resolved'')
         | Some c \<Rightarrow> oreturn (c, True)))))))"

definition createContactRequest :: "contact_input \<Rightarrow> int \<Rightarrow> (contact_request \<times> bool) dbop" where
  "createContactRequest inp now =
     obind (olift (contact_row inp now)) (\<lambda>r.
     obind (olift (positive_option (cin_windowMs inp) 3600000
        ''Contact rate-limit window must be a positive integer'')) (\<lambda>windowMs.
     obind (olift (positive_option (cin_maximumPerSource inp) 5
        ''Contact source limit must be a positive integer'')) (\<lambda>maximumPerSource.
     obind (olift (positive_option (cin_maximumPerEmail inp) 3
        ''Contact email limit must be a positive integer'')) (\<lambda>maximumPerEmail.
     store_contact r windowMs maximumPerSource maximumPerEmail))))"

definition notified_row :: "contact_notification \<Rightarrow> string option \<Rightarrow> int \<Rightarrow> contact_request_row \<Rightarrow> contact_request_row"
where
  "notified_row status messageId now r =
     r\<lparr>cr_notification_status := status, cr_provider_message_id := messageId, cr_updated_at := now\<rparr>"

definition setContactNotificationResult ::
  "string \<Rightarrow> contact_notification \<Rightarrow> string option \<Rightarrow> int \<Rightarrow> contact_request dbop"
where
  "setContactNotificationResult requestId status providerMessageId now =
     obind (update_in contact_requests set_contact_requests contact_request_schema
         (\<lambda>r. cr_id r = requestId) (notified_row status (trim_or_null providerMessageId) now)) (\<lambda>changes.
     if changes \<noteq> 1 then othrow (JsError ''Contact request was not found'')
     else
     obind (oget (getContactRequestById requestId)) (\<lambda>request.
     case request of
       None \<Rightarrow> othrow (JsError ''Contact request disappeared'')
     | Some c \<Rightarrow> oreturn c))"

text \<open>
  A page goes back in time from the cursor. Without one the bounds are \<open>Number.MAX_SAFE_INTEGER\<close>
  and \<open>'\uffff'\<close>, which lies above every identifier.
\<close>

definition before_cursor :: "(int \<times> string) option \<Rightarrow> contact_request_row \<Rightarrow> bool" where
  "before_cursor before r \<longleftrightarrow>
     (case before of
        None \<Rightarrow> cr_created_at r \<le> MAX_SAFE_INTEGER
      | Some (createdAt, requestId) \<Rightarrow>
          cr_created_at r < createdAt \<or> (cr_created_at r = createdAt \<and> cr_id r < requestId))"

text \<open>\<open>ORDER BY created_at DESC, id DESC\<close>.\<close>

definition newest_first :: "contact_request_row list \<Rightarrow> contact_request_row list" where
  "newest_first rows = rev (sort_key (\<lambda>r. (cr_created_at r, cr_id r)) rows)"

definition listContactRequests ::
  "contact_status option \<Rightarrow> int option \<Rightarrow> (int \<times> string) option \<Rightarrow> cloud_db
     \<Rightarrow> contact_request list \<times> (int \<times> string) option"
where
  "listContactRequests status limit before db =
     (let n = nat (page_limit limit);
          rows = take (n + 1) (newest_first (filter (\<lambda>r.
                   (case status of None \<Rightarrow> True | Some x \<Rightarrow> cr_status r = x) \<and> before_cursor before r)
                   (contact_requests db)));
          requests = map toContactRequest (take n rows)
      in (requests,
          if length rows > n then Some (con_createdAt (List.last requests), con_id (List.last requests)) else None))"

definition parse_contact_status :: "string \<Rightarrow> contact_status option" where
  "parse_contact_status s =
     (if s = ''new'' then Some ContactNew else if s = ''contacted'' then Some ContactContacted
      else if s = ''qualified'' then Some ContactQualified else if s = ''closed'' then Some ContactClosed else None)"

definition updateContactRequestStatus :: "string \<Rightarrow> string \<Rightarrow> int \<Rightarrow> contact_request option dbop" where
  "updateContactRequestStatus requestId rawStatus now =
     (case parse_contact_status rawStatus of
        None \<Rightarrow> othrow (JsError ''Contact request status is invalid'')
      | Some status \<Rightarrow>
          obind (update_in contact_requests set_contact_requests contact_request_schema
              (\<lambda>r. cr_id r = requestId) (\<lambda>r. r\<lparr>cr_status := status, cr_updated_at := now\<rparr>)) (\<lambda>changes.
          if changes \<noteq> 1 then oreturn None else oget (getContactRequestById requestId)))"

definition deleteContactRequestsCreatedBefore :: "js_num \<Rightarrow> nat dbop" where
  "deleteContactRequestsCreatedBefore before =
     (if \<not> is_safe_integer before \<or> int_value before < 0
      then othrow (JsError ''Contact retention cutoff must be a non-negative safe integer'')
      else (\<lambda>db. (Inr (length (filter (\<lambda>r. cr_created_at r < int_value before) (contact_requests db))),
              set_contact_requests (filter (\<lambda>r. \<not> cr_created_at r < int_value before) (contact_requests db)) db)))"

section \<open>Paging\<close>

text \<open>The whole inbox in one list, and a client that follows the cursors; the fuel bounds its pages.\<close>

definition with_status :: "contact_status option \<Rightarrow> contact_request_row \<Rightarrow> bool" where
  "with_status status r \<longleftrightarrow> (case status of None \<Rightarrow> True | Some x \<Rightarrow> cr_status r = x)"

definition inbox :: "contact_status option \<Rightarrow> cloud_db \<Rightarrow> contact_request_row list" where
  "inbox status db = newest_first (filter (\<lambda>r. with_status status r \<and> cr_created_at r \<le> MAX_SAFE_INTEGER)
     (contact_requests db))"

fun read_inbox ::
  "nat \<Rightarrow> contact_status option \<Rightarrow> int option \<Rightarrow> (int \<times> string) option \<Rightarrow> cloud_db \<Rightarrow> contact_request list"
where
  "read_inbox 0 status limit cursor db = []"
| "read_inbox (Suc n) status limit cursor db =
     (let (requests, nextCursor) = listContactRequests status limit cursor db in
      requests @ (case nextCursor of None \<Rightarrow> [] | Some c \<Rightarrow> read_inbox n status limit (Some c) db))"

definition contact_key :: "contact_request_row \<Rightarrow> int \<times> string" where
  "contact_key r = (cr_created_at r, cr_id r)"

lemma before_cursor_Some: "before_cursor (Some k) r \<longleftrightarrow> contact_key r < k"
  by (cases k) (auto simp: before_cursor_def contact_key_def less_prod_def)

lemma newest_first_filter: "newest_first (filter p rows) = filter p (newest_first rows)"
  by (simp add: newest_first_def filter_sort flip: rev_filter)

lemma newest_first_sorted:
  assumes "schema_ok contact_request_schema rows"
  shows "sorted_wrt (\<lambda>a b. contact_key b < contact_key a) (newest_first rows)"
proof -
  have "distinct_key (\<lambda>r. Some [SText (cr_id r)]) rows"
    using assms by (simp add: schema_ok_def contact_request_schema_def)
  then have "distinct (map cr_id rows)"
    by (simp add: distinct_key_def map_filter_def distinct_map inj_on_def comp_def)
  then have "distinct (map contact_key rows)"
    by (auto simp: distinct_map inj_on_def contact_key_def)
  then have "distinct (map contact_key (sort_key contact_key rows))"
    by (simp add: distinct_map)
  moreover have "sorted (map contact_key (sort_key contact_key rows))" by simp
  ultimately have "sorted_wrt (<) (map contact_key (sort_key contact_key rows))"
    by (simp only: strict_sorted_iff)
  then show ?thesis
    by (simp add: newest_first_def contact_key_def [abs_def] sorted_wrt_rev sorted_wrt_map)
qed

lemma after_key:
  assumes "sorted_wrt (\<lambda>a b. k b < (k a :: 'k :: linorder)) (xs @ x # ys)"
  shows "filter (\<lambda>r. k r < k x) (xs @ x # ys) = ys"
proof -
  have "filter (\<lambda>r. k r < k x) xs = []"
    using assms by (auto simp: sorted_wrt_append filter_empty_conv dest: less_asym)
  moreover have "filter (\<lambda>r. k r < k x) ys = ys"
    using assms by (auto simp: sorted_wrt_append intro: filter_True)
  ultimately show ?thesis by simp
qed

lemma strictly_sorted_distinct: "sorted_wrt (\<lambda>a b. k b < (k a :: 'k :: order)) xs \<Longrightarrow> distinct xs"
  by (induction xs) auto

lemma page_limit_pos: "1 \<le> page_limit limit"
  by (simp add: page_limit_def)

lemma list_page:
  assumes "filter (before_cursor cursor) (inbox status db) = ys"
    and "\<forall>k. cursor = Some k \<longrightarrow> fst k \<le> MAX_SAFE_INTEGER" and "n = nat (page_limit limit)"
  shows "listContactRequests status limit cursor db =
    (map toContactRequest (take n ys), if length ys > n then Some (contact_key (List.last (take n ys))) else None)"
proof -
  have same: "with_status status r \<and> before_cursor cursor r
      \<longleftrightarrow> (with_status status r \<and> cr_created_at r \<le> MAX_SAFE_INTEGER) \<and> before_cursor cursor r" for r
    using assms(2) by (cases cursor) (auto simp: before_cursor_def)
  have rows: "newest_first (filter (\<lambda>r. with_status status r \<and> before_cursor cursor r) (contact_requests db)) = ys"
    unfolding same assms(1) [symmetric] inbox_def newest_first_filter by (simp add: conj_commute)
  have "0 < n" using page_limit_pos [of limit] assms(3) by simp
  then have "n < length ys \<Longrightarrow> take n ys \<noteq> []" by (cases ys) auto
  then show ?thesis
    using \<open>0 < n\<close> rows by (auto simp: listContactRequests_def with_status_def [symmetric] assms(3) [symmetric] Let_def
        last_map toContactRequest_def contact_key_def min_def)
qed

lemma next_page:
  assumes "schema_ok contact_request_schema (contact_requests db)" and "inbox status db = xs @ ys"
    and "0 < n" and "n < length ys"
  shows "filter (before_cursor (Some (contact_key (List.last (take n ys))))) (inbox status db) = drop n ys"
    and "fst (contact_key (List.last (take n ys))) \<le> MAX_SAFE_INTEGER"
proof -
  let ?x = "List.last (take n ys)"
  have "take n ys \<noteq> []" using assms(3,4) by (cases ys) auto
  then have ys: "ys = butlast (take n ys) @ ?x # drop n ys"
    by (metis append_Cons append_butlast_last_id append_eq_append_conv2 append_take_drop_id self_append_conv2)
  have box: "inbox status db = (xs @ butlast (take n ys)) @ ?x # drop n ys" using assms(2) ys by simp
  have mem: "?x \<in> set (inbox status db)" by (subst box) simp
  have "sorted_wrt (\<lambda>a b. contact_key b < contact_key a) (inbox status db)"
    unfolding inbox_def newest_first_filter by (intro sorted_wrt_filter newest_first_sorted assms(1))
  then show "filter (before_cursor (Some (contact_key ?x))) (inbox status db) = drop n ys"
    unfolding before_cursor_Some by (subst box) (rule after_key, simp add: box)
  show "fst (contact_key ?x) \<le> MAX_SAFE_INTEGER"
    using mem by (simp add: inbox_def newest_first_def contact_key_def)
qed

lemma read_inbox_rest:
  assumes "schema_ok contact_request_schema (contact_requests db)" and "inbox status db = xs @ ys"
    and "filter (before_cursor cursor) (inbox status db) = ys"
    and "\<forall>k. cursor = Some k \<longrightarrow> fst k \<le> MAX_SAFE_INTEGER" and "length ys \<le> fuel"
  shows "read_inbox (Suc fuel) status limit cursor db = map toContactRequest ys"
  using assms(2-5)
proof (induction fuel arbitrary: xs ys cursor)
  case 0
  then show ?case by (simp add: list_page [OF 0(2,3) refl])
next
  case (Suc fuel)
  define n where "n = nat (page_limit limit)"
  have n: "0 < n" using page_limit_pos [of limit] by (simp add: n_def)
  note page = list_page [OF Suc.prems(2,3) n_def]
  show ?case
  proof (cases "length ys > n")
    case False
    then show ?thesis by (simp add: page)
  next
    case True
    let ?x = "List.last (take n ys)"
    note page_after = next_page [OF assms(1) Suc.prems(1) n True]
    have "read_inbox (Suc fuel) status limit (Some (contact_key ?x)) db = map toContactRequest (drop n ys)"
      using Suc.prems(1,4) n page_after by (intro Suc.IH [of "xs @ take n ys"]) auto
    then have "read_inbox (Suc (Suc fuel)) status limit cursor db
        = map toContactRequest (take n ys) @ map toContactRequest (drop n ys)"
      using True by (subst read_inbox.simps(2)) (simp add: page del: read_inbox.simps(2))
    then show ?thesis by (simp flip: map_append)
  qed
qed

section \<open>The rate limit\<close>

definition window_count :: "(contact_request_row \<Rightarrow> bool) \<Rightarrow> int \<Rightarrow> int \<Rightarrow> contact_request_row list \<Rightarrow> nat" where
  "window_count p w end_time rows =
     length (filter (\<lambda>r. p r \<and> end_time - w \<le> cr_created_at r \<and> cr_created_at r \<le> end_time) rows)"

lemma window_count_submit:
  assumes "\<forall>e. int (window_count p w e rows) \<le> m"
    and "int (length (filter (\<lambda>x. p x \<and> cr_created_at x \<ge> cr_created_at r - w) rows)) < m \<or> \<not> p r"
    and "\<forall>x \<in> set rows. cr_created_at x \<le> cr_created_at r"
  shows "int (window_count p w e (rows @ [r])) \<le> m"
proof (cases "p r \<and> e - w \<le> cr_created_at r \<and> cr_created_at r \<le> e")
  case True
  have "window_count p w e rows \<le> length (filter (\<lambda>x. p x \<and> cr_created_at x \<ge> cr_created_at r - w) rows)"
    unfolding window_count_def using True by (intro length_filter_mono) auto
  with True assms(2) show ?thesis by (simp add: window_count_def)
next
  case False
  then have "window_count p w e (rows @ [r]) = window_count p w e rows" by (auto simp: window_count_def)
  with assms(1) show ?thesis by simp
qed

lemma window_count_map:
  "(\<And>r. p (f r) = p r) \<Longrightarrow> (\<And>r. cr_created_at (f r) = cr_created_at r) \<Longrightarrow>
     window_count p w e (map f rows) = window_count p w e rows"
  by (simp add: window_count_def filter_map comp_def)

lemma window_count_filter: "window_count p w e (filter q rows) \<le> window_count p w e rows"
  unfolding window_count_def filter_filter by (intro length_filter_mono) auto

text \<open>
  Submissions under one window and one pair of limits, interleaved with the notifications, triage and
  purges of the operators; the clock does not go back.
\<close>

inductive contact_step :: "int \<Rightarrow> int \<Rightarrow> int \<Rightarrow> cloud_db \<times> int \<Rightarrow> cloud_db \<times> int \<Rightarrow> bool" for w ms me where
  submit: "contact_step w ms me (s, clock) (t, now)"
    if "createContactRequest inp now s = (r, t)" and "clock \<le> now"
      and "positive_option (cin_windowMs inp) 3600000 ''Contact rate-limit window must be a positive integer'' = Inr w"
      and "positive_option (cin_maximumPerSource inp) 5 ''Contact source limit must be a positive integer'' = Inr ms"
      and "positive_option (cin_maximumPerEmail inp) 3 ''Contact email limit must be a positive integer'' = Inr me"
| notified: "contact_step w ms me (s, clock) (t, clock)"
    if "setContactNotificationResult i status messageId at_time s = (c, t)"
| triage: "contact_step w ms me (s, clock) (t, clock)" if "updateContactRequestStatus i raw at_time s = (u, t)"
| purge: "contact_step w ms me (s, clock) (t, clock)" if "deleteContactRequestsCreatedBefore before s = (n, t)"

definition contact_inv :: "int \<Rightarrow> int \<Rightarrow> int \<Rightarrow> cloud_db \<times> int \<Rightarrow> bool" where
  "contact_inv w ms me st \<longleftrightarrow>
     (\<forall>r \<in> set (contact_requests (fst st)). cr_created_at r \<le> snd st)
     \<and> (\<forall>h e. int (window_count (\<lambda>r. cr_source_hash r = h) w e (contact_requests (fst st))) \<le> ms)
     \<and> (\<forall>a e. int (window_count (\<lambda>r. cr_email r = a) w e (contact_requests (fst st))) \<le> me)"

lemma store_contact_Inr:
  assumes "store_contact r w ms me s = (Inr c, t)"
  shows "t = s \<or> (t = set_contact_requests (contact_requests s @ [r]) s
    \<and> int (recent_requests (\<lambda>x. cr_source_hash x = cr_source_hash r) (cr_created_at r - w) s) < ms
    \<and> int (recent_requests (\<lambda>x. cr_email x = cr_email r) (cr_created_at r - w) s) < me)"
  using assms by (auto simp: store_contact_def Let_def cr_tbl.insert_Inr split: option.splits)

lemma store_contact_Inl: "store_contact r w ms me s = (Inl e, t) \<Longrightarrow> t = s"
  by (auto simp: store_contact_def dest: atomic_rolls_back)

lemma contact_row_created: "contact_row inp now = Inr r \<Longrightarrow> cr_created_at r = now"
  by (auto simp: contact_row_def elim!: sbind_InrE)

lemma createContactRequest_cases:
  assumes "createContactRequest inp now s = (c, t)"
    and "positive_option (cin_windowMs inp) 3600000 ''Contact rate-limit window must be a positive integer'' = Inr w"
    and "positive_option (cin_maximumPerSource inp) 5 ''Contact source limit must be a positive integer'' = Inr ms"
    and "positive_option (cin_maximumPerEmail inp) 3 ''Contact email limit must be a positive integer'' = Inr me"
  obtains "t = s" | r where "contact_row inp now = Inr r" and "t = set_contact_requests (contact_requests s @ [r]) s"
    and "int (recent_requests (\<lambda>x. cr_source_hash x = cr_source_hash r) (cr_created_at r - w) s) < ms"
    and "int (recent_requests (\<lambda>x. cr_email x = cr_email r) (cr_created_at r - w) s) < me"
proof (cases "contact_row inp now")
  case (Inl e)
  with assms(1) that show ?thesis by (simp add: createContactRequest_def obind_def operation_defs)
next
  case (Inr r)
  with assms have "store_contact r w ms me s = (c, t)"
    by (simp add: createContactRequest_def obind_def operation_defs)
  with that Inr show ?thesis by (cases c) (auto dest: store_contact_Inl store_contact_Inr)
qed

lemma contact_inv_submit:
  assumes "contact_inv w ms me (s, clock)" and "cr_created_at r = now" and "clock \<le> now"
    and "int (recent_requests (\<lambda>x. cr_source_hash x = cr_source_hash r) (cr_created_at r - w) s) < ms"
    and "int (recent_requests (\<lambda>x. cr_email x = cr_email r) (cr_created_at r - w) s) < me"
  shows "contact_inv w ms me (set_contact_requests (contact_requests s @ [r]) s, now)"
proof -
  have older: "\<forall>x \<in> set (contact_requests s). cr_created_at x \<le> cr_created_at r"
    using assms(1-3) by (auto simp: contact_inv_def)
  have "int (window_count (\<lambda>x. cr_source_hash x = h) w e (contact_requests s @ [r])) \<le> ms" for h e
    using assms(1,4) older by (intro window_count_submit) (auto simp: contact_inv_def recent_requests_def)
  moreover have "int (window_count (\<lambda>x. cr_email x = a) w e (contact_requests s @ [r])) \<le> me" for a e
    using assms(1,5) older by (intro window_count_submit) (auto simp: contact_inv_def recent_requests_def)
  ultimately show ?thesis
    using older assms(2) by (simp add: contact_inv_def set_contact_requests_def)
qed

lemma contact_inv_map:
  assumes "contact_inv w ms me (s, clock)" and "\<And>r. cr_created_at (f r) = cr_created_at r"
    and "\<And>r. cr_source_hash (f r) = cr_source_hash r" and "\<And>r. cr_email (f r) = cr_email r"
  shows "contact_inv w ms me (set_contact_requests (map f (contact_requests s)) s, clock)"
  using assms by (auto simp: contact_inv_def set_contact_requests_def window_count_map)

lemma contact_inv_update:
  assumes "update_in contact_requests set_contact_requests contact_request_schema p f s = (n, t)"
    and "contact_inv w ms me (s, clock)" and "\<And>r. cr_created_at (f r) = cr_created_at r"
    and "\<And>r. cr_source_hash (f r) = cr_source_hash r" and "\<And>r. cr_email (f r) = cr_email r"
  shows "contact_inv w ms me (t, clock)"
proof (cases n)
  case (Inl e)
  with assms(1,2) show ?thesis by (auto dest: cr_tbl.update_Inl)
next
  case (Inr k)
  with assms(1) have "t = set_contact_requests (map (\<lambda>r. if p r then f r else r) (contact_requests s)) s"
    by (auto dest: cr_tbl.update_Inr)
  moreover have "contact_inv w ms me (set_contact_requests (map (\<lambda>r. if p r then f r else r) (contact_requests s)) s, clock)"
    using assms(2-5) by (intro contact_inv_map) auto
  ultimately show ?thesis by simp
qed

lemma contact_inv_purge:
  "contact_inv w ms me (s, clock) \<Longrightarrow> contact_inv w ms me (set_contact_requests (filter q (contact_requests s)) s, clock)"
  unfolding contact_inv_def set_contact_requests_def
  by (auto intro: order_trans [OF of_nat_mono [OF window_count_filter]])

interpretation rate_limit: invariant_system "contact_step w ms me" "contact_inv w ms me" for w ms me
proof
  fix a b
  assume "contact_step w ms me a b" and inv: "contact_inv w ms me a"
  then show "contact_inv w ms me b"
  proof cases
    case (submit inp now s c t clock)
    from submit(3,5-7) show ?thesis
    proof (cases rule: createContactRequest_cases)
      case 1
      with inv submit(1,2,4) show ?thesis by (auto simp: contact_inv_def)
    next
      case (2 r)
      with inv submit(1,2,4) show ?thesis using contact_inv_submit [OF _ contact_row_created [OF 2(1)]] by simp
    qed
  next
    case (notified i status messageId at_time s c t clock)
    from notified(3) obtain n u where up: "update_in contact_requests set_contact_requests contact_request_schema
        (\<lambda>r. cr_id r = i) (notified_row status (trim_or_null messageId) at_time) s = (n, u)" and "t = u"
      by (auto simp: setContactNotificationResult_def obind_def operation_defs split: prod.splits sum.splits option.splits if_splits)
    with notified(1,2) inv show ?thesis using contact_inv_update [OF up] by (simp add: notified_row_def)
  next
    case (triage i raw at_time s u t clock)
    show ?thesis
    proof (cases "parse_contact_status raw")
      case None
      with triage inv show ?thesis by (simp add: updateContactRequestStatus_def operation_defs)
    next
      case (Some x)
      with triage(3) obtain n v where up: "update_in contact_requests set_contact_requests contact_request_schema
          (\<lambda>r. cr_id r = i) (\<lambda>r. r\<lparr>cr_status := x, cr_updated_at := at_time\<rparr>) s = (n, v)" and "t = v"
        by (auto simp: updateContactRequestStatus_def obind_def operation_defs split: prod.splits sum.splits if_splits)
      with triage(1,2) inv show ?thesis using contact_inv_update [OF up] by simp
    qed
  next
    case (purge before s n t clock)
    then show ?thesis using inv contact_inv_purge
      by (auto simp: deleteContactRequestsCreatedBefore_def operation_defs split: if_splits)
  qed
qed

section \<open>Properties\<close>

text \<open>Under every interleaving of submissions, notifications, triage and purges, no window of the configured length
  holds more requests of one source than its limit, nor more of one address than the other.\<close>

theorem contact_rate_limit_holds:
  assumes "(contact_step w ms me)\<^sup>*\<^sup>* (s, clock) (t, now)" and "contact_requests s = []" and "0 \<le> ms" and "0 \<le> me"
  shows "int (window_count (\<lambda>r. cr_source_hash r = h) w moment (contact_requests t)) \<le> ms
    \<and> int (window_count (\<lambda>r. cr_email r = a) w moment (contact_requests t)) \<le> me"
proof -
  have "contact_inv w ms me (s, clock)"
    using assms(2-4) by (simp add: contact_inv_def window_count_def)
  from rate_limit.run_inv [OF assms(1) this] show ?thesis by (simp add: contact_inv_def)
qed

text \<open>Whoever follows the cursors of the inbox reaches its end, and has then seen every request with the wanted
  status exactly once, the newest first, in pages of at most two hundred.\<close>

theorem contact_inbox_read_completely:
  assumes "schema_ok contact_request_schema (contact_requests db)"
  shows "read_inbox (Suc (length (contact_requests db))) status limit None db = map toContactRequest (inbox status db)
    \<and> distinct (inbox status db)
    \<and> set (inbox status db) = {r \<in> set (contact_requests db). with_status status r \<and> cr_created_at r \<le> MAX_SAFE_INTEGER}
    \<and> length (fst (listContactRequests status limit cursor db)) \<le> 200"
proof -
  have all: "filter (before_cursor None) (inbox status db) = inbox status db"
    by (auto simp: inbox_def newest_first_def before_cursor_def intro: filter_True)
  have "length (inbox status db) \<le> length (contact_requests db)"
    by (simp add: inbox_def newest_first_def)
  then have "read_inbox (Suc (length (contact_requests db))) status limit None db = map toContactRequest (inbox status db)"
    using read_inbox_rest [OF assms, of status "[]"] all by simp
  moreover have "distinct (inbox status db)"
  proof -
    have "sorted_wrt (\<lambda>a b. contact_key b < contact_key a) (inbox status db)"
      unfolding inbox_def newest_first_filter by (intro sorted_wrt_filter newest_first_sorted assms)
    then show ?thesis by (rule strictly_sorted_distinct)
  qed
  moreover have "set (inbox status db) = {r \<in> set (contact_requests db). with_status status r \<and> cr_created_at r \<le> MAX_SAFE_INTEGER}"
    by (auto simp: inbox_def newest_first_def)
  moreover have "length (fst (listContactRequests status limit cursor db)) \<le> 200"
    by (simp add: listContactRequests_def Let_def page_limit_def)
  ultimately show ?thesis by blast
qed

section \<open>The properties on a concrete inbox\<close>

definition sample_contact :: contact_input where
  "sample_contact = \<lparr>cin_id = ''c1'', cin_name = ''Ada'', cin_email = ''ada@x.io'', cin_organization = None,
     cin_topic = TopicSales, cin_message = ''hello there'', cin_sourceHash = ''0123456789abcdef'',
     cin_privacyVersion = ''v1'', cin_windowMs = None, cin_maximumPerSource = None, cin_maximumPerEmail = None\<rparr>"

lemma contact_runs: "\<exists>c t. createContactRequest sample_contact 10 empty_db = (Inr (c, True), t)
  \<and> length (contact_requests t) = 1 \<and> schema_ok contact_request_schema (contact_requests t)
  \<and> window_count (\<lambda>r. cr_email r = ''ada@x.io'') 3600000 10 (contact_requests t) = 1"
  by (simp add: createContactRequest_def contact_row_def sample_contact_def boundedContactText_def trim_def js_space_def
      positive_option_def is_safe_int_def MAX_SAFE_INTEGER_def store_contact_def getContactRequestById_def
      recent_requests_def insert_into_def sql_insert_def row_error_def failed_check_def failed_unique_def
      contact_request_schema_def set_contact_requests_def schema_ok_def row_ok_def distinct_key_def window_count_def
      toLowerCase_def lower_char_def atomic_def obind_def operation_defs empty_db_def contact_organization_def Let_def)

theorem contact_rate_limit_holds_witness:
  "\<exists>t. contact_step 3600000 5 3 (empty_db, 0) (t, 10)
     \<and> window_count (\<lambda>r. cr_email r = ''ada@x.io'') 3600000 10 (contact_requests t) = 1
     \<and> window_count (\<lambda>r. cr_email r = ''ada@x.io'') 3600000 10 (contact_requests t) \<le> 3"
proof -
  obtain c t where run: "createContactRequest sample_contact 10 empty_db = (Inr (c, True), t)"
    and one: "window_count (\<lambda>r. cr_email r = ''ada@x.io'') 3600000 10 (contact_requests t) = 1"
    using contact_runs by blast
  have step: "contact_step 3600000 5 3 (empty_db, 0) (t, 10)"
    by (rule contact_step.submit [OF run])
      (simp_all add: positive_option_def sample_contact_def is_safe_int_def MAX_SAFE_INTEGER_def)
  then have "(contact_step 3600000 5 3)\<^sup>*\<^sup>* (empty_db, 0) (t, 10)" by blast
  from contact_rate_limit_holds [OF this, of _ 10 "''ada@x.io''"] step one show ?thesis by (auto simp: empty_db_def)
qed

theorem contact_inbox_read_completely_witness:
  "\<exists>t r. contact_requests t = [r] \<and> map con_id (read_inbox 2 None (Some 1) None t) = [cr_id r]"
proof -
  obtain c t where "length (contact_requests t) = 1" and ok: "schema_ok contact_request_schema (contact_requests t)"
    and run: "createContactRequest sample_contact 10 empty_db = (Inr (c, True), t)" using contact_runs by blast
  then obtain r where r: "contact_requests t = [r]" by (cases "contact_requests t") auto
  have "cr_created_at r \<le> MAX_SAFE_INTEGER"
    using run r by (auto simp: createContactRequest_def empty_db_def set_contact_requests_def MAX_SAFE_INTEGER_def
        dest!: store_contact_Inr contact_row_created)
  then have "inbox None t = [r]" by (simp add: inbox_def newest_first_def with_status_def r)
  with contact_inbox_read_completely [OF ok, of None "Some 1"] r
  have "map con_id (read_inbox 2 None (Some 1) None t) = [cr_id r]" by (simp add: numeral_2_eq_2 toContactRequest_def)
  with r show ?thesis by (intro exI conjI)
qed

end
