(* ===== verification/Control.thy ===== *)
theory Control
  imports Serving Organizations Provisioning Contacts
begin

text \<open>
  The request handlers that the control plane composes from the operations of the database package
  (\<open>controlPlaneHandler\<close> in \<open>src/apps/control-plane/src/index.ts\<close>): join codes with their keyed signatures,
  administration with its audit trail, the kill switches in front of provisioning, sessions, and the contact form.
  The keyed digests are parameters; a handler is one step on the database.
\<close>

section \<open>Codes and credentials\<close>

text \<open>\<open>hmac m\<close> is the hexadecimal HMAC-SHA256 of \<open>m\<close> under the configured secret.\<close>

definition organizationCodeSignature :: "(string \<Rightarrow> string) \<Rightarrow> string \<Rightarrow> string \<Rightarrow> string" where
  "organizationCodeSignature hmac organizationId lookupKey =
     toUpperCase (take 12 (hmac (organizationId @ '':'' @ lookupKey)))"

definition organizationCode :: "(string \<Rightarrow> string) \<Rightarrow> string \<Rightarrow> string \<Rightarrow> string" where
  "organizationCode hmac organizationId lookupKey =
     ''NBL-'' @ lookupKey @ ''-'' @ organizationCodeSignature hmac organizationId lookupKey"

definition buffer_from :: "string \<Rightarrow> nat list" where
  "buffer_from s = concat (map utf8_bytes s)"

definition safeEqual :: "string \<Rightarrow> string \<Rightarrow> bool" where
  "safeEqual left right =
     (let leftBuffer = buffer_from left; rightBuffer = buffer_from right in
      length leftBuffer = length rightBuffer \<and> leftBuffer = rightBuffer)"

definition starts_with :: "string \<Rightarrow> string \<Rightarrow> bool" where
  "starts_with prefix s \<longleftrightarrow> take (length prefix) s = prefix"

definition authorizePlatformAdministration :: "string \<Rightarrow> string option \<Rightarrow> bool" where
  "authorizePlatformAdministration platformAdminToken header =
     (let authorization = (case header of None \<Rightarrow> [] | Some h \<Rightarrow> h) in
      platformAdminToken \<noteq> [] \<and> starts_with ''Bearer '' authorization
      \<and> safeEqual (drop (length ''Bearer '') authorization) platformAdminToken)"

text \<open>\<open>/^NBL-([A-F0-9]{12})-([A-F0-9]{12})$/\<close>.\<close>

definition is_upper_hex :: "char \<Rightarrow> bool" where
  "is_upper_hex c \<longleftrightarrow> is_digit c \<or> (CHR ''A'' \<le> c \<and> c \<le> CHR ''F'')"

definition match_join_code :: "string \<Rightarrow> (string \<times> string) option" where
  "match_join_code c =
     (let lookupKey = take 12 (drop 4 c); signature = drop 17 c in
      if take 4 c = ''NBL-'' \<and> length lookupKey = 12 \<and> list_all is_upper_hex lookupKey
         \<and> take 1 (drop 16 c) = ''-'' \<and> length signature = 12 \<and> list_all is_upper_hex signature
      then Some (lookupKey, signature) else None)"

section \<open>Administration and its audit trail\<close>

definition handler_audit ::
  "string \<Rightarrow> string \<Rightarrow> string \<Rightarrow> string \<Rightarrow> string \<Rightarrow> (string \<times> audit_value) list \<Rightarrow> audit_options"
where
  "handler_audit userId organizationId action targetType targetId metadata =
     \<lparr>ao_userId = userId, ao_organizationId = organizationId, ao_eventId = None, ao_action = action,
      ao_targetType = targetType, ao_targetId = targetId, ao_result = None, ao_sourceIpHash = None,
      ao_metadata = metadata\<rparr>"

text \<open>\<open>randomHex\<close> is \<open>randomBytes(6).toString('hex')\<close>.\<close>

definition rotate_join_code ::
  "(string \<Rightarrow> string) \<Rightarrow> string \<Rightarrow> string \<Rightarrow> string \<Rightarrow> int \<Rightarrow> string \<Rightarrow> int \<Rightarrow> string dbop"
where
  "rotate_join_code hmac userId organizationId randomHex now eventId auditAt =
     (let lookupKey = toUpperCase randomHex in
      obind (rotateOrganizationJoinCode userId organizationId lookupKey now) (\<lambda>_.
      obind (recordAuditEvent (handler_audit userId organizationId ''organization.access_code_rotated''
        ''organization'' organizationId []) eventId auditAt) (\<lambda>_.
      oreturn (organizationCode hmac organizationId lookupKey))))"

definition invalid_code :: db_error where
  "invalid_code = OrganizationMemberMutationError ''invalid_organization_code'' ''Invalid organization code''"

definition join_organization ::
  "(string \<Rightarrow> string) \<Rightarrow> string \<Rightarrow> string \<Rightarrow> string \<Rightarrow> int \<Rightarrow> string \<Rightarrow> int \<Rightarrow> (string \<times> string) dbop"
where
  "join_organization hmac userId code newId now eventId auditAt =
     (case match_join_code (toUpperCase (trim code)) of
        None \<Rightarrow> othrow invalid_code
      | Some (key, signature) \<Rightarrow>
          obind (oget (resolveOrganizationJoinCode key)) (\<lambda>resolved.
          case resolved of
            None \<Rightarrow> othrow invalid_code
          | Some (organizationId, lookupKey) \<Rightarrow>
              if \<not> safeEqual (organizationCodeSignature hmac organizationId lookupKey) signature
              then othrow invalid_code
              else
                obind (joinOrganizationById userId organizationId newId now) (\<lambda>membershipId.
                obind (recordAuditEvent (handler_audit userId organizationId ''organization.access_code_used''
                  ''membership'' membershipId []) eventId auditAt) (\<lambda>_.
                oreturn (organizationId, membershipId)))))"

definition update_organization :: "string \<Rightarrow> string \<Rightarrow> string \<Rightarrow> string \<Rightarrow> int \<Rightarrow> unit dbop" where
  "update_organization userId organizationId name eventId auditAt =
     obind (updateOrganizationName userId organizationId name) (\<lambda>_.
     obind (recordAuditEvent (handler_audit userId organizationId ''organization.name_updated''
       ''organization'' organizationId []) eventId auditAt) (\<lambda>_.
     oreturn ()))"

definition set_member_disabled ::
  "string \<Rightarrow> string \<Rightarrow> string \<Rightarrow> bool \<Rightarrow> int \<Rightarrow> string \<Rightarrow> int \<Rightarrow> member_summary dbop"
where
  "set_member_disabled userId organizationId membershipId disabled now eventId auditAt =
     obind (setOrganizationMemberDisabled userId organizationId membershipId disabled now) (\<lambda>member.
     obind (recordAuditEvent (handler_audit userId organizationId
         (if disabled then ''organization.member_disabled'' else ''organization.member_enabled'')
         ''membership'' membershipId
         [(''targetUserId'', MetaString (oms_userId member)), (''role'', MetaString (oms_role member))])
       eventId auditAt) (\<lambda>_.
     oreturn member))"

text \<open>\<open>getOrganizationAdmin\<close>: the code is shown to administrators in full.\<close>

definition shown_join_code :: "(string \<Rightarrow> string) \<Rightarrow> admin_summary \<Rightarrow> string option" where
  "shown_join_code hmac summary =
     (case oas_joinCodeLookupKey summary of
        None \<Rightarrow> None
      | Some k \<Rightarrow> if k = [] then None else Some (organizationCode hmac (oas_organizationId summary) k))"

definition get_organization_admin ::
  "(string \<Rightarrow> string) \<Rightarrow> string \<Rightarrow> string \<Rightarrow> int \<Rightarrow> cloud_db \<Rightarrow> db_error + admin_summary \<times> string option"
where
  "get_organization_admin hmac userId organizationId now db =
     sbind (getOrganizationAdminSummary userId organizationId now db) (\<lambda>summary.
     Inr (summary, shown_join_code hmac summary))"

section \<open>Sessions\<close>

text \<open>What Better Auth knows of a signed-in request, and what the handlers are told.\<close>

record auth_session =
  as_userId :: string
  as_email :: string
  as_activeOrganizationId :: "string option"

definition resolve_session :: "auth_session option \<Rightarrow> cloud_db \<Rightarrow> auth_session option" where
  "resolve_session session db =
     map_option (\<lambda>s. s\<lparr>as_activeOrganizationId :=
       (case as_activeOrganizationId s of
          None \<Rightarrow> None
        | Some g \<Rightarrow> if g \<noteq> [] \<and> isOrganizationMemberEnabled (as_userId s) g db then Some g else None)\<rparr>) session"

section \<open>Workspaces behind the kill switches\<close>

record workspace_view =
  wv_id :: string
  wv_organizationId :: string
  wv_state :: workspace_state
  wv_createdAt :: int
  wv_updatedAt :: int

definition workspace_view_of :: "personal_workspace \<Rightarrow> workspace_view" where
  "workspace_view_of w =
     \<lparr>wv_id = pw_id w, wv_organizationId = pw_organizationId w, wv_state = pw_state w,
      wv_createdAt = pw_createdAt w, wv_updatedAt = pw_updatedAt w\<rparr>"

text \<open>\<open>existing ?? ensurePersonalWorkspace(\<dots>)\<close>, which only an open provisioning control lets create.\<close>

definition existing_or_new ::
  "string \<Rightarrow> string \<Rightarrow> string \<Rightarrow> int \<Rightarrow> personal_workspace dbop"
where
  "existing_or_new userId organizationId createId now =
     obind (oget (getPersonalWorkspace userId organizationId)) (\<lambda>existing.
     case existing of
       Some w \<Rightarrow> oreturn w
     | None \<Rightarrow>
         obind (oread (isPlatformControlPaused ''provisioning'')) (\<lambda>paused.
         if paused then othrow (PlatformControlPausedError ''provisioning'')
         else ensurePersonalWorkspace userId organizationId createId now))"

definition ensure_personal_workspace :: "string \<Rightarrow> string \<Rightarrow> string \<Rightarrow> int \<Rightarrow> workspace_view dbop" where
  "ensure_personal_workspace userId organizationId createId now =
     obind (existing_or_new userId organizationId createId now) (\<lambda>w.
     oreturn (workspace_view_of w))"

fun workspace_state_text :: "workspace_state \<Rightarrow> string" where
  "workspace_state_text WsPending = ''pending''"
| "workspace_state_text WsProvisioning = ''provisioning''"
| "workspace_state_text WsReady = ''ready''"
| "workspace_state_text WsStopped = ''stopped''"
| "workspace_state_text WsFailed = ''failed''"

definition running_audit :: "string \<Rightarrow> string \<Rightarrow> personal_workspace \<Rightarrow> bool \<Rightarrow> audit_options" where
  "running_audit userId organizationId w scheduled =
     handler_audit userId organizationId ''operator.ensure_running_requested'' ''workspace'' (pw_id w)
       [(''state'', MetaString (workspace_state_text (pw_state w))), (''scheduled'', MetaBool scheduled)]"

definition ensure_workspace_running ::
  "bool \<Rightarrow> string \<Rightarrow> string \<Rightarrow> string \<Rightarrow> string \<Rightarrow> int \<Rightarrow> string \<Rightarrow> int
     \<Rightarrow> (workspace_view \<times> provisioning_job option) dbop"
where
  "ensure_workspace_running entitlementsRequired userId organizationId createId createJobId now eventId auditAt =
     obind (existing_or_new userId organizationId createId now) (\<lambda>workspace.
     obind (oget (workspaceHasOperatorEntitlement entitlementsRequired (pw_id workspace) now)) (\<lambda>entitled.
     if \<not> entitled then othrow OperatorEntitlementRequiredError
     else
     obind (if pw_state workspace = WsReady then oreturn False
            else oread (isPlatformControlPaused ''workspace_start'')) (\<lambda>paused.
     if paused then othrow (PlatformControlPausedError ''workspace_start'')
     else
     obind (ensureWorkspaceRunning userId organizationId createId createJobId now) (\<lambda>result.
     obind (recordAuditEvent (running_audit userId organizationId (fst result) (snd result \<noteq> None))
       eventId auditAt) (\<lambda>_.
     oreturn (workspace_view_of (fst result), snd result))))))"

section \<open>The contact form\<close>

definition purge_expired_contacts :: "int \<Rightarrow> int \<Rightarrow> nat dbop" where
  "purge_expired_contacts retentionDays now =
     deleteContactRequestsCreatedBefore (JInt (max 0 (now - retentionDays * 24 * 60 * 60 * 1000)))"

record contact_form =
  cf_submissionId :: string
  cf_name :: string
  cf_email :: string
  cf_organization :: "string option"
  cf_topic :: contact_topic
  cf_message :: string
  cf_privacyVersion :: string
  cf_sourceAddress :: "string option"

definition contact_source_hash :: "(string \<Rightarrow> string) \<Rightarrow> string option \<Rightarrow> string" where
  "contact_source_hash hmac address =
     hmac (case address of None \<Rightarrow> ''unavailable'' | Some a \<Rightarrow> if a = [] then ''unavailable'' else a)"

definition contact_of_form :: "(string \<Rightarrow> string) \<Rightarrow> contact_form \<Rightarrow> contact_input" where
  "contact_of_form hmac form =
     \<lparr>cin_id = cf_submissionId form, cin_name = cf_name form, cin_email = cf_email form,
      cin_organization = cf_organization form, cin_topic = cf_topic form, cin_message = cf_message form,
      cin_sourceHash = contact_source_hash hmac (cf_sourceAddress form), cin_privacyVersion = cf_privacyVersion form,
      cin_windowMs = None, cin_maximumPerSource = None, cin_maximumPerEmail = None\<rparr>"

text \<open>\<open>send\<close> is the mail transport: what it does with the notification of a request, an error or its message identifier.\<close>

definition notify_contact ::
  "(contact_request \<Rightarrow> db_error + string option) \<Rightarrow> int \<Rightarrow> contact_request \<Rightarrow> unit dbop"
where
  "notify_contact send now request =
     (if con_notificationStatus request = NotifySent then oreturn ()
      else
        ocatch
          (obind (olift (send request)) (\<lambda>messageId.
           obind (setContactNotificationResult (con_id request) NotifySent messageId now) (\<lambda>_. oreturn ())))
          (\<lambda>e. obind (setContactNotificationResult (con_id request) NotifyFailed None now) (\<lambda>_. othrow e)))"

definition submit_contact ::
  "(string \<Rightarrow> string) \<Rightarrow> int \<Rightarrow> (contact_request \<Rightarrow> db_error + string option) \<Rightarrow> contact_form \<Rightarrow> int \<Rightarrow> int
     \<Rightarrow> string dbop"
where
  "submit_contact hmac retentionDays send form now later =
     obind (purge_expired_contacts retentionDays now) (\<lambda>_.
     obind (createContactRequest (contact_of_form hmac form) now) (\<lambda>stored.
     obind (notify_contact send later (fst stored)) (\<lambda>_.
     oreturn (con_id (fst stored)))))"

section \<open>Comparing codes\<close>

lemma utf8_bytes_head: "utf8_bytes c @ xs = utf8_bytes d @ ys \<longleftrightarrow> c = d \<and> xs = ys"
proof
  assume eq: "utf8_bytes c @ xs = utf8_bytes d @ ys"
  have split: "c = d" if "(of_char c :: nat) div 64 = of_char d div 64" "(of_char c :: nat) mod 64 = of_char d mod 64"
    using that by (metis div_mult_mod_eq char_of_char)
  show "c = d \<and> xs = ys"
    using eq by (auto simp: utf8_bytes_def Let_def intro: split split: if_splits)
qed simp

lemma buffer_from_inj: "buffer_from s = buffer_from t \<longleftrightarrow> s = t"
proof (induction s arbitrary: t)
  case Nil
  show ?case by (cases t) (auto simp: buffer_from_def utf8_bytes_def Let_def split: if_splits)
next
  case (Cons c s)
  show ?case
  proof (cases t)
    case Nil
    then show ?thesis by (auto simp: buffer_from_def utf8_bytes_def Let_def split: if_splits)
  next
    case t: (Cons d t')
    then show ?thesis using Cons.IH [of t'] utf8_bytes_head [of c "buffer_from s" d "buffer_from t'"]
      by (simp add: buffer_from_def)
  qed
qed

lemma safeEqual_iff [simp]: "safeEqual left right \<longleftrightarrow> left = right"
  by (auto simp: safeEqual_def Let_def buffer_from_inj)

lemma upper_of_hex: "is_lower_hex c \<Longrightarrow> \<exists>d. upper_char c = [d] \<and> is_upper_hex d"
  by (auto simp: is_lower_hex_def upper_char_def is_upper_hex_def is_digit_def less_eq_char_def Let_def)

lemma upper_hex_upper: "is_upper_hex c \<Longrightarrow> upper_char c = [c]"
  by (auto simp: upper_char_def is_upper_hex_def is_digit_def less_eq_char_def Let_def)

lemma toUpperCase_hex:
  "list_all is_lower_hex s \<Longrightarrow> length (toUpperCase s) = length s \<and> list_all is_upper_hex (toUpperCase s)"
proof (induction s)
  case (Cons c s)
  then obtain d where "upper_char c = [d]" "is_upper_hex d" using upper_of_hex [of c] by auto
  with Cons show ?case by (simp add: toUpperCase_def)
qed (simp add: toUpperCase_def)

lemma signature_hex:
  assumes "\<And>m. is_sha256_hex (hmac m)"
  shows "length (organizationCodeSignature hmac g k) = 12 \<and> list_all is_upper_hex (organizationCodeSignature hmac g k)"
proof -
  have "is_sha256_hex (hmac (g @ '':'' @ k))" by (rule assms)
  then have "length (take 12 (hmac (g @ '':'' @ k))) = 12" "list_all is_lower_hex (take 12 (hmac (g @ '':'' @ k)))"
    by (auto simp: is_sha256_hex_def list_all_iff dest: in_set_takeD)
  with toUpperCase_hex show ?thesis by (simp add: organizationCodeSignature_def)
qed

text \<open>The pattern reads exactly the two groups of a code.\<close>

lemma match_join_code_iff:
  "match_join_code c = Some (k, g) \<longleftrightarrow> c = ''NBL-'' @ k @ ''-'' @ g
     \<and> length k = 12 \<and> length g = 12 \<and> list_all is_upper_hex k \<and> list_all is_upper_hex g"
proof
  assume "match_join_code c = Some (k, g)"
  then have parts: "take 4 c = ''NBL-''" "k = take 12 (drop 4 c)" "take 1 (drop 16 c) = ''-''" "g = drop 17 c"
    and rest: "length k = 12" "length g = 12" "list_all is_upper_hex k" "list_all is_upper_hex g"
    by (auto simp: match_join_code_def Let_def split: if_splits)
  have "c = take 4 c @ take 12 (drop 4 c) @ take 1 (drop 16 c) @ drop 17 c"
    using append_take_drop_id [of 4 c] append_take_drop_id [of 12 "drop 4 c"] append_take_drop_id [of 1 "drop 16 c"]
    by simp
  with parts rest show "c = ''NBL-'' @ k @ ''-'' @ g
     \<and> length k = 12 \<and> length g = 12 \<and> list_all is_upper_hex k \<and> list_all is_upper_hex g" by metis
next
  assume "c = ''NBL-'' @ k @ ''-'' @ g
     \<and> length k = 12 \<and> length g = 12 \<and> list_all is_upper_hex k \<and> list_all is_upper_hex g"
  then show "match_join_code c = Some (k, g)"
    by (auto simp: match_join_code_def Let_def)
qed

text \<open>The codes the handlers store: one per organization, their lookup keys twelve capital digits.\<close>

definition codes_ok :: "cloud_db \<Rightarrow> bool" where
  "codes_ok db \<longleftrightarrow> schema_ok join_code_schema (join_codes db)
     \<and> (\<forall>c \<in> set (join_codes db). length (jc_lookup_key c) = 12 \<and> list_all is_upper_hex (jc_lookup_key c))"

definition shown_code :: "(string \<Rightarrow> string) \<Rightarrow> join_code_row \<Rightarrow> string" where
  "shown_code hmac c = organizationCode hmac (jc_organization_id c) (jc_lookup_key c)"

lemma match_organizationCode:
  assumes "\<And>m. is_sha256_hex (hmac m)" and "length k = 12" and "list_all is_upper_hex k"
  shows "match_join_code (organizationCode hmac g k) = Some (k, organizationCodeSignature hmac g k)"
  using signature_hex [of hmac g k] assms by (simp add: match_join_code_iff organizationCode_def)

lemma codes_okD:
  assumes "codes_ok s" and "c \<in> set (join_codes s)"
  shows "resolveOrganizationJoinCode (jc_lookup_key c) s = Some (jc_organization_id c, jc_lookup_key c)"
    and "length (jc_lookup_key c) = 12" and "list_all is_upper_hex (jc_lookup_key c)"
  using assms resolve_in [of s c] by (auto simp: codes_ok_def)

text \<open>What a typed code is answered with: joining starts exactly for a stored code.\<close>

lemma join_of_stored_code:
  assumes "codes_ok s" and "\<And>m. is_sha256_hex (hmac m)" and "c \<in> set (join_codes s)"
    and "toUpperCase (trim typed) = shown_code hmac c"
  shows "join_organization hmac u typed i now ev at s =
    obind (joinOrganizationById u (jc_organization_id c) i now) (\<lambda>membershipId.
    obind (recordAuditEvent (handler_audit u (jc_organization_id c) ''organization.access_code_used''
      ''membership'' membershipId []) ev at) (\<lambda>_. oreturn (jc_organization_id c, membershipId))) s"
proof -
  note key = codes_okD [OF assms(1,3)]
  from match_organizationCode [where hmac = hmac, OF assms(2) key(2,3)] assms(4)
  have "match_join_code (toUpperCase (trim typed))
    = Some (jc_lookup_key c, organizationCodeSignature hmac (jc_organization_id c) (jc_lookup_key c))"
    by (simp add: shown_code_def)
  with key(1) show ?thesis by (simp add: join_organization_def)
qed

lemma join_of_other_code:
  assumes "\<And>c. c \<in> set (join_codes s) \<Longrightarrow> toUpperCase (trim typed) \<noteq> shown_code hmac c"
  shows "join_organization hmac u typed i now ev at s = (Inl invalid_code, s)"
proof (cases "match_join_code (toUpperCase (trim typed))")
  case None
  then show ?thesis by (simp add: join_organization_def operation_defs)
next
  case (Some kg)
  obtain k g where kg: "kg = (k, g)" by fastforce
  show ?thesis
  proof (cases "resolveOrganizationJoinCode k s")
    case None
    then show ?thesis using Some kg by (simp add: join_organization_def operation_defs)
  next
    case resolved: (Some hl)
    then obtain c where c: "c \<in> set (join_codes s)" "jc_lookup_key c = k" "hl = (jc_organization_id c, k)"
      by (auto simp: resolveOrganizationJoinCode_def dest!: find_SomeD)
    have "organizationCodeSignature hmac (jc_organization_id c) k \<noteq> g"
      using assms [OF c(1)] Some kg c(2) by (auto simp: match_join_code_iff shown_code_def organizationCode_def)
    then show ?thesis using Some kg resolved c by (simp add: join_organization_def operation_defs)
  qed
qed

lemma rotate_keeps_codes:
  assumes "rotateOrganizationJoinCode u g k now s = (Inr v, t)" and "codes_ok s"
    and "length k = 12" and "list_all is_upper_hex k"
  shows "codes_ok t"
proof -
  have "length (jc_lookup_key c) = 12 \<and> list_all is_upper_hex (jc_lookup_key c)" if "c \<in> set (join_codes t)" for c
    using rotated_code_in(2,3) [OF assms(1) that] assms(2-4) by (cases "jc_organization_id c = g") (auto simp: codes_ok_def)
  with rotated_codes(3) [OF assms(1)] assms(2) show ?thesis by (simp add: codes_ok_def)
qed

lemma join_codes_audited [simp]: "join_codes (set_audit_events es s) = join_codes s"
  by (simp add: set_audit_events_def)

lemma codes_ok_audited [simp]: "codes_ok (set_audit_events es s) = codes_ok s"
  by (simp add: codes_ok_def)

lemma rotate_join_code_Inr:
  assumes "rotate_join_code hmac u g hex now ev at s = (Inr code, t)" and "codes_ok s"
    and "length hex = 12" and "list_all is_lower_hex hex"
  obtains c where "c \<in> set (join_codes t)" and "jc_organization_id c = g" and "code = shown_code hmac c" and "codes_ok t"
    and "\<And>d. d \<in> set (join_codes t) \<Longrightarrow> jc_organization_id d = g \<Longrightarrow> shown_code hmac d = code"
proof -
  from assms(1) obtain v m e where run: "rotateOrganizationJoinCode u g (toUpperCase hex) now s = (Inr v, m)"
    and audit: "recordAuditEvent (handler_audit u g ''organization.access_code_rotated'' ''organization'' g []) ev at m
        = (Inr e, t)" and code: "code = organizationCode hmac g (toUpperCase hex)"
    by (auto simp: rotate_join_code_def Let_def)
  from recordAuditEvent_Inr(2) [OF audit] obtain es where t: "t = set_audit_events es m" by blast
  note upper = toUpperCase_hex [OF assms(4)]
  have ok: "codes_ok m" using rotate_keeps_codes [OF run assms(2)] upper assms(3) by simp
  from rotated_code_in(1) [OF run] obtain c where c: "c \<in> set (join_codes m)" "jc_organization_id c = g"
    "jc_lookup_key c = toUpperCase hex" by blast
  have current: "shown_code hmac d = code" if "d \<in> set (join_codes m)" "jc_organization_id d = g" for d
    using rotated_code_in(2) [OF run that] that by (simp add: shown_code_def code)
  from c ok current show ?thesis by (intro that [of c]) (simp_all add: t)
qed

text \<open>When an event without fields is recorded.\<close>

definition may_record :: "string \<Rightarrow> string \<Rightarrow> string \<Rightarrow> cloud_db \<Rightarrow> bool" where
  "may_record userId organizationId eventId db \<longleftrightarrow>
     isOrganizationMemberEnabled userId organizationId db \<and> find_organization organizationId db \<noteq> None
     \<and> find_user userId db \<noteq> None \<and> (\<forall>e \<in> set (audit_events db). ae_event_id e \<noteq> eventId)"

lemma handler_audit_runs:
  assumes "may_record u g ev s" and "auditIdentifierPattern (trim action)" and "auditIdentifierPattern (trim targetType)"
    and "auditIdentifierPattern (trim targetId)"
  shows "\<exists>e t. recordAuditEvent (handler_audit u g action targetType targetId []) ev at s = (Inr e, t)"
proof -
  let ?row = "\<lparr>ae_event_id = ev, ae_organization_id = g, ae_actor_user_id = u, ae_action = trim action,
    ae_target_type = trim targetType, ae_target_id = trim targetId, ae_result = AuditSuccess, ae_source_ip_hash = None,
    ae_metadata = [], ae_occurred_at = at\<rparr>"
  have ids: "requireAuditIdentifier action f = Inr (trim action)" "requireAuditIdentifier targetType f = Inr (trim targetType)"
    "requireAuditIdentifier targetId f = Inr (trim targetId)" for f
    using assms(2-4) by (simp_all add: requireAuditIdentifier_Inr)
  have "row_error audit_event_schema ?row (audit_events s) = None"
    using assms(1) by (auto simp: row_error_None audit_event_schema_def row_ok_iff may_record_def collides_def)
  then have "insertAuditEvent ?row s = (Inr (), set_audit_events (audit_events s @ [?row]) s)"
    using assms(1) by (simp add: insertAuditEvent_def atomic_def obind_def insert_into_def sql_insert_def operation_defs
        may_record_def find_organization_def find_user_def set_audit_events_def)
  then show ?thesis using assms(1)
    by (simp add: recordAuditEvent_def handler_audit_def requireEnabledOrganizationMember_def may_record_def obind_def
        operation_defs ids serializeAuditMetadata_def json_object_bytes_def trim_or_null_def Let_def)
qed

lemmas identifier_simps = auditIdentifierPattern_def is_audit_char_def is_lower_letter_def is_upper_letter_def
  is_digit_def less_eq_char_def trim_def js_space_def

lemma handler_identifiers:
  "auditIdentifierPattern (trim ''organization.access_code_used'')" "auditIdentifierPattern (trim ''membership'')"
  "auditIdentifierPattern (trim ''organization'')" "auditIdentifierPattern (trim ''organization.access_code_rotated'')"
  by (simp_all add: identifier_simps)

text \<open>A new member joins, with an identifier that is new to the tables.\<close>

lemma join_new_member:
  assumes "find_user u s \<noteq> None" and "find_organization g s \<noteq> None" and "find_membership u g s = None"
    and "\<forall>m \<in> set (members s). mb_id m \<noteq> i"
  shows "joinOrganizationById u g i now s = (Inr i, set_members (members s @
    [\<lparr>mb_id = i, mb_organizationId = g, mb_userId = u, mb_role = ''member'', mb_createdAt = now\<rparr>]) s)"
proof -
  let ?m = "\<lparr>mb_id = i, mb_organizationId = g, mb_userId = u, mb_role = ''member'', mb_createdAt = now\<rparr>"
  have "row_error member_schema ?m (members s) = None"
    using assms(4) by (auto simp: row_error_None member_schema_def row_ok_iff collides_def)
  with assms(1-3) show ?thesis
    by (simp add: joinOrganizationById_def obind_def operation_defs insert_into_def sql_insert_def)
qed

lemma joined_is_enabled:
  assumes "find_membership u g s = None" and "member_disabled i s = 0"
  shows "isOrganizationMemberEnabled u g (set_members (members s @
    [\<lparr>mb_id = i, mb_organizationId = g, mb_userId = u, mb_role = r, mb_createdAt = now\<rparr>]) s)"
proof -
  have "find (\<lambda>m. mb_userId m = u \<and> mb_organizationId m = g) (members s) = None"
    using assms(1) by (simp add: find_membership_def)
  then have "find_membership u g (set_members (members s @
    [\<lparr>mb_id = i, mb_organizationId = g, mb_userId = u, mb_role = r, mb_createdAt = now\<rparr>]) s)
    = Some \<lparr>mb_id = i, mb_organizationId = g, mb_userId = u, mb_role = r, mb_createdAt = now\<rparr>"
    by (simp add: find_membership_def set_members_def find_append)
  with assms(2) show ?thesis
    by (simp add: isOrganizationMemberEnabled_def member_disabled_def set_members_def)
qed

lemma member_tables [simp]:
  "join_codes (set_members rows s) = join_codes s" "audit_events (set_members rows s) = audit_events s"
  "find_user u (set_members rows s) = find_user u s" "find_organization g (set_members rows s) = find_organization g s"
  by (simp_all add: set_members_def find_user_def find_organization_def)

lemma enabled_audited [simp]:
  "member_disabled m (set_audit_events es s) = member_disabled m s"
  "find_membership u g (set_audit_events es s) = find_membership u g s"
  "isOrganizationMemberEnabled u g (set_audit_events es s) = isOrganizationMemberEnabled u g s"
proof -
  show member: "member_disabled m (set_audit_events es s) = member_disabled m s" for m
    by (simp add: member_disabled_def set_audit_events_def)
  show "find_membership u g (set_audit_events es s) = find_membership u g s"
    by (simp add: find_membership_def set_audit_events_def)
  then show "isOrganizationMemberEnabled u g (set_audit_events es s) = isOrganizationMemberEnabled u g s"
    by (simp add: isOrganizationMemberEnabled_def member split: option.split)
qed

section \<open>Gates in front of a start\<close>

text \<open>A user has one membership of an organization; the authentication library keeps it that way.\<close>

definition memberships_unique :: "cloud_db \<Rightarrow> bool" where
  "memberships_unique db \<longleftrightarrow> (\<forall>m \<in> set (members db). \<forall>n \<in> set (members db).
     mb_userId m = mb_userId n \<longrightarrow> mb_organizationId m = mb_organizationId n \<longrightarrow> m = n)"

lemma existing_workspace_found:
  assumes "getPersonalWorkspace u g s = Some w" and "memberships_unique s" and "workspaces_ok s"
  shows "ensurePersonalWorkspace u g i now s = (Inr w, s)"
proof -
  from assms(1) obtain r m where r: "r \<in> set (workspaces s)" "w = toPersonalWorkspace r"
    and m: "m \<in> set (members s)" "mb_id m = ws_member_id r" "mb_userId m = u" "mb_organizationId m = g"
    by (auto simp: getPersonalWorkspace_def list_ex_iff split: if_splits dest!: find_SomeD)
  obtain n where n: "find_membership u g s = Some n"
    using find_ex [OF m(1), of "\<lambda>x. mb_userId x = u \<and> mb_organizationId x = g"] m by (auto simp: find_membership_def)
  with find_membership_SomeD [OF n] m assms(2) have "n = m" by (auto simp: memberships_unique_def)
  obtain q where q: "findWorkspaceOfMember (mb_id m) s = Some q"
    using find_ex [OF r(1), of "\<lambda>x. ws_member_id x = mb_id m"] m by (auto simp: findWorkspaceOfMember_def)
  with findWorkspaceOfMember_SomeD [OF q] r(1) m(2) assms(3) have "q = r" by (metis workspaces_ok_same_member)
  with n q r(2) \<open>n = m\<close> show ?thesis by (simp add: ensurePersonalWorkspace_def atomic_def operation_defs)
qed

lemma existing_or_new_Inr:
  assumes "existing_or_new u g i now s = (Inr w, x)" and "memberships_unique s" and "workspaces_ok s"
  shows "ensurePersonalWorkspace u g j later x = (Inr w, x)"
    and "x = s \<or> isPlatformControlPaused ''provisioning'' s = Inr False"
    and "provisioning_jobs x = provisioning_jobs s" and "platform_controls x = platform_controls s"
proof -
  consider (old) "getPersonalWorkspace u g s = Some w" "x = s"
    | (new) "isPlatformControlPaused ''provisioning'' s = Inr False" "ensurePersonalWorkspace u g i now s = (Inr w, x)"
    using assms(1) by (auto simp: existing_or_new_def split: option.splits if_splits)
  then show "ensurePersonalWorkspace u g j later x = (Inr w, x)"
    and "x = s \<or> isPlatformControlPaused ''provisioning'' s = Inr False"
    and "provisioning_jobs x = provisioning_jobs s" and "platform_controls x = platform_controls s"
    using existing_workspace_found assms(2,3) ensurePersonalWorkspace_idempotent
    by (cases; auto elim!: ensurePersonalWorkspace_Inr)+
qed

lemma existing_or_new_Inl: "existing_or_new u g i now s = (Inl e, x) \<Longrightarrow> x = s"
  by (auto simp: existing_or_new_def ensurePersonalWorkspace_def obind_eq_Inl operation_defs
      split: option.splits if_splits dest: atomic_rolls_back)

lemma requestRunning_ids:
  assumes "requestRunning i k now s = (r, t)"
  shows "map ws_id (workspaces t) = map ws_id (workspaces s)"
proof (cases r)
  case (Inl e)
  with assms show ?thesis by (auto simp: requestRunning_def dest: atomic_rolls_back)
next
  case (Inr p)
  obtain w job where "p = (w, job)" by fastforce
  with Inr assms have "requestRunning i k now s = (Inr (w, job), t)" by simp
  then show ?thesis
    by (rule requestRunning_Inr) (auto dest!: insertJob_Inr markProvisioning_Inr)
qed

lemma recordAuditEvent_tables:
  assumes "recordAuditEvent opts ev at s = (r, t)"
  shows "workspaces t = workspaces s" and "provisioning_jobs t = provisioning_jobs s"
  using assms by (cases r; auto dest!: recordAuditEvent_Inr(2) recordAuditEvent_Inl simp: set_audit_events_def)+

section \<open>What a contact submission leaves\<close>

lemma find_filter: "find P xs = Some x \<Longrightarrow> Q x \<Longrightarrow> find P (filter Q xs) = Some x"
  by (induction xs) (auto split: if_splits)

definition contact_id :: "contact_form \<Rightarrow> string" where
  "contact_id form = trim (cf_submissionId form)"

lemma contact_row_form:
  assumes "contact_row (contact_of_form hmac form) now = Inr r"
  shows "cr_id r = contact_id form" and "\<exists>r'. contact_row (contact_of_form hmac form) now' = Inr r'"
  using assms
  by (auto simp: contact_row_def contact_of_form_def contact_id_def boundedContactText_def Let_def split: if_splits)

lemma createContactRequest_stored:
  assumes "createContactRequest (contact_of_form hmac form) now s = (Inr (c, new), t)"
  shows "getContactRequestById (contact_id form) t = Some c"
    and "\<exists>r. contact_row (contact_of_form hmac form) now = Inr r"
  using assms contact_row_form(1)
  by (auto simp: createContactRequest_def store_contact_def Let_def positive_option_def contact_of_form_def
      split: option.splits)

text \<open>A request that is known already is returned as it is.\<close>

lemma createContactRequest_known:
  assumes "contact_row (contact_of_form hmac form) now = Inr r" and "getContactRequestById (contact_id form) s = Some c"
  shows "createContactRequest (contact_of_form hmac form) now s = (Inr (c, False), s)"
proof -
  have "positive_option (cin_windowMs (contact_of_form hmac form)) d m = Inr d"
    "positive_option (cin_maximumPerSource (contact_of_form hmac form)) d m = Inr d"
    "positive_option (cin_maximumPerEmail (contact_of_form hmac form)) d m = Inr d" if "0 < d" "is_safe_int d" for d m
    using that by (simp_all add: positive_option_def contact_of_form_def)
  then show ?thesis using assms contact_row_form(1) [OF assms(1)]
    by (simp add: createContactRequest_def store_contact_def atomic_def operation_defs obind_def is_safe_int_def
        MAX_SAFE_INTEGER_def)
qed

lemma find_notified:
  assumes "setContactNotificationResult i status messageId now s = (Inr c, t)"
  shows "getContactRequestById i t = Some c \<and> con_notificationStatus c = status \<and> con_id c = i"
proof -
  from assms obtain k where up: "update_in contact_requests set_contact_requests contact_request_schema
      (\<lambda>r. cr_id r = i) (notified_row status (trim_or_null messageId) now) s = (Inr k, t)"
    and found: "getContactRequestById i t = Some c"
    by (auto simp: setContactNotificationResult_def split: option.splits if_splits)
  from found obtain r where r: "find (\<lambda>r. cr_id r = i) (contact_requests t) = Some r" "c = toContactRequest r"
    by (auto simp: getContactRequestById_def)
  note row = find_SomeD [OF r(1)]
  from row have "r \<in> set (map (\<lambda>r. if cr_id r = i then notified_row status (trim_or_null messageId) now r else r) (contact_requests s))"
    by (simp only: cr_tbl.update_rows [OF up])
  then obtain x where "x \<in> set (contact_requests s)"
    and x: "r = (if cr_id x = i then notified_row status (trim_or_null messageId) now x else x)" by auto
  from row x have "cr_id x = i" by (simp add: notified_row_def split: if_splits)
  with x have "cr_notification_status r = status" by (simp add: notified_row_def)
  with found r(2) row show ?thesis by (simp add: toContactRequest_def)
qed

lemma submit_contact_Inr:
  assumes "submit_contact hmac days send form now later s = (Inr i, t)"
  obtains r c where "contact_row (contact_of_form hmac form) now = Inr r" and "i = contact_id form"
    and "getContactRequestById i t = Some c" and "con_notificationStatus c = NotifySent"
proof -
  from assms obtain n m c new u where create: "createContactRequest (contact_of_form hmac form) now m = (Inr (c, new), u)"
    and notify: "notify_contact send later c u = (Inr (), t)" and i: "i = con_id c"
    by (auto simp: submit_contact_def)
  note stored = createContactRequest_stored [OF create]
  have c: "con_id c = contact_id form"
    using stored(1) by (auto simp: getContactRequestById_def toContactRequest_def dest!: find_SomeD)
  show thesis
  proof (cases "con_notificationStatus c = NotifySent")
    case True
    with notify have "t = u" by (simp add: notify_contact_def)
    with True stored(1) c i have "i = contact_id form" "getContactRequestById i t = Some c" by auto
    moreover obtain r where "contact_row (contact_of_form hmac form) now = Inr r" using stored(2) by blast
    ultimately show thesis using that True by blast
  next
    case False
    with notify obtain mid d where "setContactNotificationResult (con_id c) NotifySent mid later u = (Inr d, t)"
      by (auto simp: notify_contact_def ocatch_def split: prod.splits sum.splits)
    from find_notified [OF this] i have "getContactRequestById i t = Some d" "con_notificationStatus d = NotifySent" by auto
    moreover obtain r where "contact_row (contact_of_form hmac form) now = Inr r" using stored(2) by blast
    ultimately show thesis using that c i by metis
  qed
qed

lemma purge_keeps:
  assumes "getContactRequestById i s = Some c" and "is_safe_int (max 0 (now - days * 24 * 60 * 60 * 1000))"
    and "max 0 (now - days * 24 * 60 * 60 * 1000) \<le> con_createdAt c"
  shows "\<exists>n t. purge_expired_contacts days now s = (Inr n, t) \<and> getContactRequestById i t = Some c"
proof -
  let ?b = "max 0 (now - days * 24 * 60 * 60 * 1000)"
  from assms(1) obtain r where r: "find (\<lambda>r. cr_id r = i) (contact_requests s) = Some r" "c = toContactRequest r"
    by (auto simp: getContactRequestById_def)
  with assms(3) have "find (\<lambda>r. cr_id r = i) (filter (\<lambda>r. \<not> cr_created_at r < ?b) (contact_requests s)) = Some r"
    by (intro find_filter) (simp_all add: toContactRequest_def max_def split: if_splits)
  with assms(2) r(2) show ?thesis
    by (simp add: purge_expired_contacts_def deleteContactRequestsCreatedBefore_def getContactRequestById_def
        set_contact_requests_def)
qed

section \<open>Properties\<close>


text \<open>A forged code does nothing: unless what is typed is the signed code of a stored join code, the request is
  refused with the code for an invalid organization code and the database stays as it is, and a request that succeeds
  joins the organization of the code that was typed.\<close>

theorem forged_join_code_refused:
  assumes "join_organization hmac v typed i now ev at s = (r, t)" and "codes_ok s" and "\<And>m. is_sha256_hex (hmac m)"
  shows "((\<forall>c \<in> set (join_codes s). toUpperCase (trim typed) \<noteq> organizationCode hmac (jc_organization_id c) (jc_lookup_key c))
      \<longrightarrow> r = Inl invalid_code \<and> t = s)
    \<and> (\<forall>g m. r = Inr (g, m) \<longrightarrow> (\<exists>c \<in> set (join_codes s). jc_organization_id c = g
      \<and> toUpperCase (trim typed) = organizationCode hmac g (jc_lookup_key c)))"
proof (cases "\<exists>c \<in> set (join_codes s). toUpperCase (trim typed) = shown_code hmac c")
  case True
  then obtain c where c: "c \<in> set (join_codes s)" "toUpperCase (trim typed) = shown_code hmac c" by blast
  have "g = jc_organization_id c" if "r = Inr (g, m)" for g m
    using assms(1) that unfolding join_of_stored_code [where hmac = hmac, OF assms(2,3) c]
    by (auto simp: obind_eq_Inr)
  with c show ?thesis by (auto simp: shown_code_def)
next
  case False
  with join_of_other_code [of s typed hmac v i now ev at] assms(1) show ?thesis by (auto simp: shown_code_def)
qed

text \<open>The kill switches and the entitlement gate every start. While provisioning is paused no workspace is created;
  while starting is paused no job is queued; and a job is queued only for a workspace of the requesting member that is
  entitled to an operator, whatever becomes of the request afterwards.\<close>

theorem starts_are_gated:
  assumes "ensure_workspace_running required u g i k now ev at s = (r, t)"
    and "memberships_unique s" and "workspaces_ok s"
  shows "(isPlatformControlPaused ''provisioning'' s = Inr True \<longrightarrow> map ws_id (workspaces t) = map ws_id (workspaces s))
    \<and> (isPlatformControlPaused ''workspace_start'' s = Inr True \<longrightarrow> provisioning_jobs t = provisioning_jobs s)
    \<and> (provisioning_jobs t \<noteq> provisioning_jobs s \<longrightarrow>
        (\<exists>w x. existing_or_new u g i now s = (Inr w, x) \<and> workspaceHasOperatorEntitlement required (pw_id w) now x))"
proof -
  obtain first x where first: "existing_or_new u g i now s = (first, x)" by fastforce
  show ?thesis
  proof (cases first)
    case (Inl e)
    with first existing_or_new_Inl have "x = s" by metis
    with assms(1) first Inl have "t = s" by (auto simp: ensure_workspace_running_def obind_def)
    then show ?thesis by simp
  next
    case (Inr w)
    note found = existing_or_new_Inr [OF first [unfolded Inr] assms(2,3)]
    have same_control: "isPlatformControlPaused c x = isPlatformControlPaused c s" for c
      using found(4) by (simp add: isPlatformControlPaused_def getPlatformControl_def findControl_def)
    have ids: "isPlatformControlPaused ''provisioning'' s = Inr True \<Longrightarrow> x = s" using found(2) by auto
    obtain started y where started: "ensureWorkspaceRunning u g i k now x = (started, y)" by fastforce
    have run: "ensureWorkspaceRunning u g i k now x
        = (if pw_state w = WsReady then (Inr (w, None), x) else requestRunning (pw_id w) k now x)"
      using found(1) [of i now] by (simp add: ensureWorkspaceRunning_def obind_def operation_defs)
    have step: "t = x \<or> (workspaceHasOperatorEntitlement required (pw_id w) now x
      \<and> (pw_state w = WsReady \<or> isPlatformControlPaused ''workspace_start'' x = Inr False)
      \<and> workspaces t = workspaces y \<and> provisioning_jobs t = provisioning_jobs y)"
      using assms(1) first Inr started
      by (auto simp: ensure_workspace_running_def obind_def operation_defs
          split: if_splits sum.splits prod.splits dest: recordAuditEvent_tables)
    have y: "map ws_id (workspaces y) = map ws_id (workspaces x)" "pw_state w = WsReady \<Longrightarrow> y = x"
      using run started requestRunning_ids [of "pw_id w" k now x started y] by (auto split: if_splits)
    have jobs: "provisioning_jobs t = provisioning_jobs s"
      if "isPlatformControlPaused ''workspace_start'' s = Inr True"
      using step that y(2) found(3) same_control by auto
    have spaces: "map ws_id (workspaces t) = map ws_id (workspaces s)"
      if "isPlatformControlPaused ''provisioning'' s = Inr True"
      using step y(1) ids [OF that] by auto
    have entitled: "workspaceHasOperatorEntitlement required (pw_id w) now x"
      if "provisioning_jobs t \<noteq> provisioning_jobs s"
      using step that found(3) by auto
    show ?thesis using jobs spaces entitled first Inr by blast
  qed
qed

text \<open>A contact request is announced once. When a submission succeeded, its request is stored as announced, and a
  repetition of the submission within the retention time succeeds with the same identifier without the mail transport:
  whatever the transport would answer, the result is the same and the request is still the announced one.\<close>

theorem contact_announced_once:
  assumes "submit_contact hmac days send form now later s = (Inr i, t)"
    and "is_safe_int (max 0 (now' - days * 24 * 60 * 60 * 1000))"
    and "\<forall>r \<in> set (contact_requests t). cr_id r = i \<longrightarrow> max 0 (now' - days * 24 * 60 * 60 * 1000) \<le> cr_created_at r"
  shows "\<exists>c u. getContactRequestById i t = Some c \<and> con_notificationStatus c = NotifySent
    \<and> (\<forall>send' later'. submit_contact hmac days send' form now' later' t = (Inr i, u))
    \<and> getContactRequestById i u = Some c"
proof -
  from assms(1) obtain r c where row: "contact_row (contact_of_form hmac form) now = Inr r" and i: "i = contact_id form"
    and c: "getContactRequestById i t = Some c" "con_notificationStatus c = NotifySent"
    by (rule submit_contact_Inr)
  from c(1) have "max 0 (now' - days * 24 * 60 * 60 * 1000) \<le> con_createdAt c" and id: "con_id c = i"
    using assms(3) by (auto simp: getContactRequestById_def toContactRequest_def dest!: find_SomeD)
  with purge_keeps [OF c(1) assms(2)] obtain n u where purge: "purge_expired_contacts days now' t = (Inr n, u)"
    and kept: "getContactRequestById i u = Some c" by blast
  obtain r' where "contact_row (contact_of_form hmac form) now' = Inr r'" using contact_row_form(2) [OF row] by blast
  from createContactRequest_known [OF this kept [unfolded i]]
  have "submit_contact hmac days send' form now' later' t = (Inr i, u)" for send' later'
    using purge c(2) id by (simp add: submit_contact_def notify_contact_def obind_def operation_defs)
  with c kept show ?thesis by blast
qed

text \<open>A session acts for an organization only while its user is an enabled member of it.\<close>

lemma session_scope_is_enabled:
  assumes "resolve_session session db = Some v" and "as_activeOrganizationId v = Some g"
  shows "isOrganizationMemberEnabled (as_userId v) g db \<and> g \<noteq> []"
proof -
  from assms(1) obtain a where "session = Some a" and v: "v = a\<lparr>as_activeOrganizationId :=
       (case as_activeOrganizationId a of
          None \<Rightarrow> None
        | Some g \<Rightarrow> if g \<noteq> [] \<and> isOrganizationMemberEnabled (as_userId a) g db then Some g else None)\<rparr>"
    by (auto simp: resolve_session_def)
  with assms(2) show ?thesis by (auto split: option.splits if_splits)
qed

section \<open>The properties on concrete requests\<close>

definition joining_db :: cloud_db where
  "joining_db = sample_db\<lparr>users := users sample_db @ [\<lparr>us_id = ''u3'', us_name = ''Cleo'', us_email = ''cleo@x.io''\<rparr>]\<rparr>"

definition sample_hmac :: "string \<Rightarrow> string" where
  "sample_hmac m = replicate 64 (CHR ''a'')"

lemma sample_hmac_hex: "is_sha256_hex (sample_hmac m)"
  by (simp add: is_sha256_hex_def sample_hmac_def is_lower_hex_def less_eq_char_def list_all_iff)

lemma sample_code: "organizationCode sample_hmac g k = ''NBL-'' @ k @ ''-AAAAAAAAAAAA''"
proof -
  have "toUpperCase (replicate 12 (CHR ''a'')) = ''AAAAAAAAAAAA''" by code_simp
  then show ?thesis by (simp add: organizationCode_def organizationCodeSignature_def sample_hmac_def)
qed

lemma joining_rotates:
  "rotateOrganizationJoinCode ''u1'' ''o1'' ''0123456789AB'' 5 joining_db
     = (Inr ''0123456789AB'', set_join_codes [new_code ''o1'' ''0123456789AB'' ''u1'' 5] joining_db)"
  by (simp add: rotateOrganizationJoinCode_def joining_db_def organization_run requireOrganizationAdmin_def member_disabled_def
        upsert_in_def join_code_schema_def new_code_def set_join_codes_def)

lemma joining_records: "may_record ''u1'' ''o1'' ''e1'' (set_join_codes rows joining_db)"
  by (simp add: may_record_def joining_db_def sample_db_def empty_db_def set_join_codes_def isOrganizationMemberEnabled_def
      find_membership_def member_disabled_def find_organization_def find_user_def)

lemma sample_upper: "toUpperCase ''0123456789ab'' = ''0123456789AB''"
  by code_simp

lemma rotation_runs:
  obtains t es where "rotate_join_code sample_hmac ''u1'' ''o1'' ''0123456789ab'' 5 ''e1'' 6 joining_db
      = (Inr ''NBL-0123456789AB-AAAAAAAAAAAA'', t)"
    and "t = set_audit_events es (set_join_codes [new_code ''o1'' ''0123456789AB'' ''u1'' 5] joining_db)"
    and "\<forall>e \<in> set es. ae_event_id e = ''e1''"
proof -
  let ?m = "set_join_codes [new_code ''o1'' ''0123456789AB'' ''u1'' 5] joining_db"
  have o1: "auditIdentifierPattern (trim ''o1'')" by (simp add: identifier_simps)
  from handler_audit_runs [OF joining_records handler_identifiers(4,3) o1] obtain e t
    where run: "recordAuditEvent (handler_audit ''u1'' ''o1'' ''organization.access_code_rotated'' ''organization'' ''o1'' [])
      ''e1'' 6 ?m = (Inr e, t)" by blast
  then have "\<exists>e. t = set_audit_events (audit_events ?m @ [e]) ?m \<and> ae_event_id e = ''e1''"
    by (auto simp: recordAuditEvent_def handler_audit_def Let_def dest!: insertAuditEvent_Inr)
  moreover have "audit_events ?m = []" by (simp add: joining_db_def sample_db_def empty_db_def set_join_codes_def)
  ultimately obtain x where t: "t = set_audit_events [x] ?m" "ae_event_id x = ''e1''" by auto
  have "rotate_join_code sample_hmac ''u1'' ''o1'' ''0123456789ab'' 5 ''e1'' 6 joining_db
      = (Inr ''NBL-0123456789AB-AAAAAAAAAAAA'', t)"
    using run by (simp add: rotate_join_code_def sample_upper joining_rotates obind_def operation_defs sample_code Let_def)
  with t show thesis by (intro that [of t "[x]"]) simp_all
qed

lemma joining_codes_ok: "codes_ok joining_db"
  by (simp add: codes_ok_def joining_db_def sample_db_def empty_db_def)


theorem forged_join_code_refused_witness:
  "\<exists>t. rotate_join_code sample_hmac ''u1'' ''o1'' ''0123456789ab'' 5 ''e1'' 6 joining_db
       = (Inr ''NBL-0123456789AB-AAAAAAAAAAAA'', t)
     \<and> join_organization sample_hmac ''u3'' ''NBL-0123456789AB-AAAAAAAAAAAB'' ''m3'' 7 ''e2'' 8 t = (Inl invalid_code, t)"
proof -
  obtain t es where run: "rotate_join_code sample_hmac ''u1'' ''o1'' ''0123456789ab'' 5 ''e1'' 6 joining_db
      = (Inr ''NBL-0123456789AB-AAAAAAAAAAAA'', t)"
    and t: "t = set_audit_events es (set_join_codes [new_code ''o1'' ''0123456789AB'' ''u1'' 5] joining_db)" by (rule rotation_runs)
  have "codes_ok t"
    using rotate_keeps_codes [OF joining_rotates joining_codes_ok]
    by (simp add: t is_upper_hex_def is_digit_def less_eq_char_def)
  moreover obtain r u where "join_organization sample_hmac ''u3'' ''NBL-0123456789AB-AAAAAAAAAAAB'' ''m3'' 7 ''e2'' 8 t = (r, u)"
    by fastforce
  moreover have "toUpperCase (trim ''NBL-0123456789AB-AAAAAAAAAAAB'') = ''NBL-0123456789AB-AAAAAAAAAAAB''"
    by code_simp
  then have "\<forall>c \<in> set (join_codes t). toUpperCase (trim ''NBL-0123456789AB-AAAAAAAAAAAB'')
      \<noteq> organizationCode sample_hmac (jc_organization_id c) (jc_lookup_key c)"
    by (simp add: t jc_tbl.get_put sample_code)
  ultimately show ?thesis
    using forged_join_code_refused [of sample_hmac "''u3''" "''NBL-0123456789AB-AAAAAAAAAAAB''" "''m3''" 7 "''e2''" 8 t r u]
      run sample_hmac_hex by auto
qed

definition paused_db :: cloud_db where
  "paused_db = sample_db\<lparr>platform_controls :=
     [\<lparr>pc_name = Ctl_provisioning, pc_paused = 1, pc_reason = ''x'', pc_updated_by = ''ops'', pc_updated_at = 1\<rparr>,
      \<lparr>pc_name = Ctl_workspace_start, pc_paused = 1, pc_reason = ''x'', pc_updated_by = ''ops'', pc_updated_at = 1\<rparr>],
      workspaces := [new_workspace ''w1'' ''m1'' ''o1'' 5]\<rparr>"

lemma paused_db_facts:
  "memberships_unique paused_db" "workspaces_ok paused_db" "isPlatformControlPaused ''provisioning'' paused_db = Inr True"
  "isPlatformControlPaused ''workspace_start'' paused_db = Inr True"
  by (simp_all add: memberships_unique_def workspaces_ok_def paused_db_def sample_db_def empty_db_def row_ok_iff
      workspace_schema_def isPlatformControlPaused_def getPlatformControl_def requirePlatformControlName_def findControl_def
      control_text_def toPlatformControl_def)

theorem starts_are_gated_witness:
  "\<exists>r t. ensure_workspace_running False ''u1'' ''o1'' ''w9'' ''j9'' 10 ''e1'' 11 paused_db = (r, t)
     \<and> provisioning_jobs t = [] \<and> map ws_id (workspaces t) = [''w1'']"
proof -
  obtain r t where run: "ensure_workspace_running False ''u1'' ''o1'' ''w9'' ''j9'' 10 ''e1'' 11 paused_db = (r, t)" by fastforce
  have "provisioning_jobs paused_db = []" "map ws_id (workspaces paused_db) = [''w1'']"
    by (simp_all add: paused_db_def sample_db_def empty_db_def)
  with starts_are_gated [OF run paused_db_facts(1,2)] paused_db_facts(3,4) run show ?thesis by auto
qed

definition sample_form :: contact_form where
  "sample_form = \<lparr>cf_submissionId = ''c1'', cf_name = ''Ada'', cf_email = ''ada@x.io'', cf_organization = None,
     cf_topic = TopicSales, cf_message = ''hello there'', cf_privacyVersion = ''v1'', cf_sourceAddress = None\<rparr>"

lemma sample_submission:
  "\<exists>t. submit_contact (\<lambda>_. ''0123456789abcdef'') 730 (\<lambda>_. Inr (Some ''mail1'')) sample_form 10 11 empty_db = (Inr ''c1'', t)
     \<and> (\<forall>r \<in> set (contact_requests t). cr_created_at r = 10)"
  by (simp add: submit_contact_def purge_expired_contacts_def deleteContactRequestsCreatedBefore_def is_safe_int_def
      MAX_SAFE_INTEGER_def createContactRequest_def contact_row_def contact_of_form_def sample_form_def contact_source_hash_def
      boundedContactText_def trim_def js_space_def positive_option_def store_contact_def getContactRequestById_def
      recent_requests_def insert_into_def sql_insert_def row_error_def failed_check_def failed_unique_def
      contact_request_schema_def set_contact_requests_def toLowerCase_def lower_char_def atomic_def obind_def operation_defs
      empty_db_def contact_organization_def Let_def notify_contact_def ocatch_def setContactNotificationResult_def
      update_in_def sql_update_def toContactRequest_def notified_row_def collides_def)

theorem contact_announced_once_witness:
  "\<exists>t u. submit_contact (\<lambda>_. ''0123456789abcdef'') 730 (\<lambda>_. Inr (Some ''mail1'')) sample_form 10 11 empty_db = (Inr ''c1'', t)
     \<and> submit_contact (\<lambda>_. ''0123456789abcdef'') 730 (\<lambda>_. Inl (JsError ''no mail'')) sample_form 20 21 t = (Inr ''c1'', u)"
proof -
  obtain t where run: "submit_contact (\<lambda>_. ''0123456789abcdef'') 730 (\<lambda>_. Inr (Some ''mail1'')) sample_form 10 11 empty_db
      = (Inr ''c1'', t)" and created: "\<forall>r \<in> set (contact_requests t). cr_created_at r = 10" using sample_submission by blast
  have "is_safe_int (max 0 (20 - 730 * 24 * 60 * 60 * 1000))" by (simp add: is_safe_int_def MAX_SAFE_INTEGER_def)
  from contact_announced_once [OF run this] created run show ?thesis by auto
qed

end
