(* ===== verification/Workers.thy ===== *)
theory Workers
  imports Complex_Main Workspaces
begin

text \<open>
  The worker fleet: registration with capacity ceilings, scheduling switches, health
  samples, and the placement of a workspace on the least loaded healthy worker, which
  reserves capacity on the host and records the same reservation on the workspace.
\<close>

section \<open>Hosts\<close>

record worker_host =
  host_id :: string
  host_name :: string
  host_provider :: string
  host_region :: string
  host_baseURL :: string
  host_credentialKeyId :: string
  host_enabled :: bool
  host_schedulable :: bool
  host_state :: worker_state
  host_totalMemoryBytes :: int
  host_reservedMemoryBytes :: int
  host_totalCpuMillis :: int
  host_reservedCpuMillis :: int
  host_totalDiskBytes :: int
  host_reservedDiskBytes :: int
  host_totalWorkspaceSlots :: int
  host_reservedWorkspaceSlots :: int
  host_lastHeartbeatAt :: "int option"
  host_lastErrorCode :: "string option"
  host_createdAt :: int
  host_updatedAt :: int

definition toWorkerHost :: "worker_host_row \<Rightarrow> worker_host" where
  "toWorkerHost row =
     \<lparr>host_id = wh_id row, host_name = wh_name row, host_provider = wh_provider row,
      host_region = wh_region row, host_baseURL = wh_base_url row,
      host_credentialKeyId = wh_credential_key_id row,
      host_enabled = (wh_enabled row = 1), host_schedulable = (wh_schedulable row = 1),
      host_state = wh_state row,
      host_totalMemoryBytes = wh_total_memory_bytes row,
      host_reservedMemoryBytes = wh_reserved_memory_bytes row,
      host_totalCpuMillis = wh_total_cpu_millis row,
      host_reservedCpuMillis = wh_reserved_cpu_millis row,
      host_totalDiskBytes = wh_total_disk_bytes row,
      host_reservedDiskBytes = wh_reserved_disk_bytes row,
      host_totalWorkspaceSlots = wh_total_workspace_slots row,
      host_reservedWorkspaceSlots = wh_reserved_workspace_slots row,
      host_lastHeartbeatAt = wh_last_heartbeat_at row,
      host_lastErrorCode = wh_last_error_code row,
      host_createdAt = wh_created_at row, host_updatedAt = wh_updated_at row\<rparr>"

definition worker_host_schema :: "worker_host_row schema" where
  "worker_host_schema =
     \<lparr>checks =
        [(''enabled IN (0, 1)'', \<lambda>h. flag_ok (wh_enabled h)),
         (''schedulable IN (0, 1)'', \<lambda>h. flag_ok (wh_schedulable h)),
         (''total_memory_bytes'', \<lambda>h. wh_total_memory_bytes h \<ge> 0),
         (''reserved_memory_bytes'', \<lambda>h. wh_reserved_memory_bytes h \<ge> 0
            \<and> wh_reserved_memory_bytes h \<le> wh_total_memory_bytes h),
         (''total_cpu_millis'', \<lambda>h. wh_total_cpu_millis h \<ge> 0),
         (''reserved_cpu_millis'', \<lambda>h. wh_reserved_cpu_millis h \<ge> 0
            \<and> wh_reserved_cpu_millis h \<le> wh_total_cpu_millis h),
         (''total_disk_bytes'', \<lambda>h. wh_total_disk_bytes h \<ge> 0),
         (''reserved_disk_bytes'', \<lambda>h. wh_reserved_disk_bytes h \<ge> 0
            \<and> wh_reserved_disk_bytes h \<le> wh_total_disk_bytes h),
         (''total_workspace_slots'', \<lambda>h. wh_total_workspace_slots h \<ge> 0),
         (''reserved_workspace_slots'', \<lambda>h. wh_reserved_workspace_slots h \<ge> 0
            \<and> wh_reserved_workspace_slots h \<le> wh_total_workspace_slots h)],
      uniques =
        [(''worker_host.id'', \<lambda>h. Some [SText (wh_id h)]),
         (''worker_host.name'', \<lambda>h. Some [SText (wh_name h)]),
         (''worker_host.base_url'', \<lambda>h. Some [SText (wh_base_url h)])]\<rparr>"

definition set_worker_hosts :: "worker_host_row list \<Rightarrow> cloud_db \<Rightarrow> cloud_db" where
  "set_worker_hosts rows db = db\<lparr>worker_hosts := rows\<rparr>"

interpretation wh_tbl: sql_table worker_hosts set_worker_hosts worker_host_schema
  by unfold_locales (simp_all add: set_worker_hosts_def)

definition findWorkerRow :: "string \<Rightarrow> cloud_db \<Rightarrow> worker_host_row option" where
  "findWorkerRow workerHostId db = find (\<lambda>h. wh_id h = workerHostId) (worker_hosts db)"

definition getWorkerHost :: "string \<Rightarrow> cloud_db \<Rightarrow> worker_host option" where
  "getWorkerHost workerHostId db = map_option toWorkerHost (findWorkerRow workerHostId db)"

definition listWorkerHosts :: "cloud_db \<Rightarrow> worker_host list" where
  "listWorkerHosts db = map toWorkerHost (sort_key (\<lambda>h. (wh_name h, wh_id h)) (worker_hosts db))"

section \<open>Registration\<close>

record register_worker_input =
  rw_id :: string
  rw_name :: string
  rw_provider :: string
  rw_region :: string
  rw_baseURL :: string
  rw_credentialKeyId :: string
  rw_totalMemoryBytes :: js_num
  rw_totalCpuMillis :: js_num
  rw_totalDiskBytes :: js_num
  rw_totalWorkspaceSlots :: js_num
  rw_enabled :: "bool option"
  rw_schedulable :: "bool option"

text \<open>\<open>value.replace(/\/$/, '')\<close>.\<close>

definition strip_slash :: "string \<Rightarrow> string" where
  "strip_slash s = (if s \<noteq> [] \<and> last s = CHR ''/'' then butlast s else s)"

text \<open>
  \<open>INSERT INTO worker_host \<dots> ON CONFLICT(id) DO UPDATE SET \<dots>\<close>: the update keeps the
  state, the reservations, the heartbeat and the creation time of the existing row.
\<close>

definition registered_row :: "worker_host_row \<Rightarrow> worker_host_row \<Rightarrow> worker_host_row" where
  "registered_row excluded r =
     r\<lparr>wh_name := wh_name excluded, wh_provider := wh_provider excluded, wh_region := wh_region excluded,
       wh_base_url := wh_base_url excluded, wh_credential_key_id := wh_credential_key_id excluded,
       wh_enabled := wh_enabled excluded, wh_schedulable := wh_schedulable excluded,
       wh_total_memory_bytes := wh_total_memory_bytes excluded,
       wh_total_cpu_millis := wh_total_cpu_millis excluded,
       wh_total_disk_bytes := wh_total_disk_bytes excluded,
       wh_total_workspace_slots := wh_total_workspace_slots excluded,
       wh_updated_at := wh_updated_at excluded\<rparr>"

definition upsert_worker_row :: "worker_host_row \<Rightarrow> nat dbop" where
  "upsert_worker_row h =
     obind (oget (findWorkerRow (wh_id h))) (\<lambda>conflict.
     case conflict of
       None \<Rightarrow> obind (insert_into worker_hosts set_worker_hosts worker_host_schema h) (\<lambda>_. oreturn 1)
     | Some _ \<Rightarrow>
         update_in worker_hosts set_worker_hosts worker_host_schema (\<lambda>r. wh_id r = wh_id h)
           (registered_row h))"

text \<open>The \<open>VALUES\<close> of the registration.\<close>

definition new_host_row ::
  "string \<Rightarrow> string \<Rightarrow> string \<Rightarrow> string \<Rightarrow> string \<Rightarrow> string \<Rightarrow> int \<Rightarrow> int \<Rightarrow> int \<Rightarrow> int
     \<Rightarrow> bool option \<Rightarrow> bool option \<Rightarrow> int \<Rightarrow> worker_host_row"
where
  "new_host_row i nm provider region baseURL credentialKeyId memory cpu disk slots enabled schedulable timestamp =
     \<lparr>wh_id = i, wh_name = nm, wh_provider = provider, wh_region = region,
      wh_base_url = baseURL, wh_credential_key_id = credentialKeyId,
      wh_enabled = (if enabled = Some False then 0 else 1),
      wh_schedulable = (if schedulable = Some False then 0 else 1),
      wh_state = WorkerUnknown,
      wh_total_memory_bytes = memory, wh_reserved_memory_bytes = 0,
      wh_total_cpu_millis = cpu, wh_reserved_cpu_millis = 0,
      wh_total_disk_bytes = disk, wh_reserved_disk_bytes = 0,
      wh_total_workspace_slots = slots, wh_reserved_workspace_slots = 0,
      wh_last_heartbeat_at = None, wh_last_error_code = None,
      wh_created_at = timestamp, wh_updated_at = timestamp\<rparr>"

text \<open>
  \<open>urlProtocol s\<close> is the protocol of \<open>new URL(s)\<close>, \<open>None\<close> where the constructor throws.
\<close>

definition upsertWorkerHost ::
  "(string \<Rightarrow> string option) \<Rightarrow> register_worker_input \<Rightarrow> int \<Rightarrow> worker_host dbop"
where
  "upsertWorkerHost urlProtocol inp now =
     obind (olift (requiredWorkerText (rw_id inp) ''id'' 128)) (\<lambda>i.
     obind (olift (requiredWorkerText (rw_name inp) ''name'' 128)) (\<lambda>nm.
     obind (olift (requiredWorkerText (rw_provider inp) ''provider'' 64)) (\<lambda>provider.
     obind (olift (requiredWorkerText (rw_region inp) ''region'' 64)) (\<lambda>region.
     obind (olift (requiredWorkerText (rw_baseURL inp) ''baseURL'' 512)) (\<lambda>rawURL.
     let baseURL = strip_slash rawURL in
     obind (olift (requiredWorkerText (rw_credentialKeyId inp) ''credentialKeyId'' 128)) (\<lambda>credentialKeyId.
     obind (olift (nonNegativeInteger (rw_totalMemoryBytes inp) ''totalMemoryBytes'')) (\<lambda>memory.
     obind (olift (nonNegativeInteger (rw_totalCpuMillis inp) ''totalCpuMillis'')) (\<lambda>cpu.
     obind (olift (nonNegativeInteger (rw_totalDiskBytes inp) ''totalDiskBytes'')) (\<lambda>disk.
     obind (olift (nonNegativeInteger (rw_totalWorkspaceSlots inp) ''totalWorkspaceSlots'')) (\<lambda>slots.
     obind (olift (require (slots \<noteq> 0) (JsError ''totalWorkspaceSlots must be positive''))) (\<lambda>_.
     obind (oget (getWorkerHost i)) (\<lambda>existing.
     obind (olift (require
         (case existing of None \<Rightarrow> True
          | Some h \<Rightarrow> \<not> (memory < host_reservedMemoryBytes h \<or> cpu < host_reservedCpuMillis h
                       \<or> disk < host_reservedDiskBytes h \<or> slots < host_reservedWorkspaceSlots h))
         (JsError ''Worker capacity cannot be lower than its current reservations''))) (\<lambda>_.
     obind (olift (case urlProtocol baseURL of
                None \<Rightarrow> Inl (JsError ''baseURL must be an absolute URL'')
              | Some protocol \<Rightarrow>
                  require (protocol = ''http:'' \<or> protocol = ''https:'')
                    (JsError ''baseURL must use HTTP or HTTPS''))) (\<lambda>_.
     obind (upsert_worker_row
         (new_host_row i nm provider region baseURL credentialKeyId memory cpu disk slots
            (rw_enabled inp) (rw_schedulable inp) now)) (\<lambda>_.
     obind (oget (getWorkerHost i)) (\<lambda>stored.
     case stored of
       None \<Rightarrow> othrow (JsError ''Worker host could not be resolved'')
     | Some h \<Rightarrow> oreturn h))))))))))))))))"

section \<open>Scheduling and health\<close>

definition setWorkerHostScheduling ::
  "string \<Rightarrow> bool option \<Rightarrow> bool option \<Rightarrow> worker_state option \<Rightarrow> int \<Rightarrow> worker_host dbop"
where
  "setWorkerHostScheduling workerHostId enabled schedulable state now =
     obind (update_in worker_hosts set_worker_hosts worker_host_schema (\<lambda>r. wh_id r = workerHostId)
         (\<lambda>r. r\<lparr>wh_enabled := (case enabled of None \<Rightarrow> wh_enabled r | Some b \<Rightarrow> of_bool b),
                wh_schedulable := (case schedulable of None \<Rightarrow> wh_schedulable r | Some b \<Rightarrow> of_bool b),
                wh_state := (case state of None \<Rightarrow> wh_state r | Some st \<Rightarrow> st),
                wh_updated_at := now\<rparr>)) (\<lambda>changes.
     if changes \<noteq> 1 then othrow (JsError ''Worker host was not found'')
     else obind (oget (getWorkerHost workerHostId)) (\<lambda>h.
       case h of None \<Rightarrow> othrow (JsError ''Worker host disappeared'') | Some w \<Rightarrow> oreturn w))"

record reported_capacity =
  cap_totalMemoryBytes :: js_num
  cap_reservedMemoryBytes :: js_num
  cap_totalCpuMillis :: js_num
  cap_reservedCpuMillis :: js_num
  cap_totalDiskBytes :: js_num
  cap_reservedDiskBytes :: js_num
  cap_totalWorkspaceSlots :: js_num
  cap_reservedWorkspaceSlots :: js_num

text \<open>The eight checks of a reported capacity, in the order the object literal evaluates them.\<close>

definition check_capacity :: "reported_capacity \<Rightarrow> db_error + int list" where
  "check_capacity c =
     sbind (nonNegativeInteger (cap_totalMemoryBytes c) ''totalMemoryBytes'') (\<lambda>tm.
     sbind (nonNegativeInteger (cap_reservedMemoryBytes c) ''reservedMemoryBytes'') (\<lambda>rm.
     sbind (nonNegativeInteger (cap_totalCpuMillis c) ''totalCpuMillis'') (\<lambda>tc.
     sbind (nonNegativeInteger (cap_reservedCpuMillis c) ''reservedCpuMillis'') (\<lambda>rc.
     sbind (nonNegativeInteger (cap_totalDiskBytes c) ''totalDiskBytes'') (\<lambda>td.
     sbind (nonNegativeInteger (cap_reservedDiskBytes c) ''reservedDiskBytes'') (\<lambda>rd.
     sbind (nonNegativeInteger (cap_totalWorkspaceSlots c) ''totalWorkspaceSlots'') (\<lambda>ts.
     sbind (nonNegativeInteger (cap_reservedWorkspaceSlots c) ''reservedWorkspaceSlots'') (\<lambda>rs.
     Inr [tm, rm, tc, rc, td, rd, ts, rs]))))))))"

definition health_sample_schema :: "worker_health_sample_row schema" where
  "health_sample_schema =
     \<lparr>checks =
        [(''state'', \<lambda>h. hs_state h = WorkerHealthy \<or> hs_state h = WorkerUnavailable),
         (''reserved_memory_bytes'', \<lambda>h. hs_reserved_memory_bytes h \<ge> 0),
         (''reserved_cpu_millis'', \<lambda>h. hs_reserved_cpu_millis h \<ge> 0),
         (''reserved_disk_bytes'', \<lambda>h. hs_reserved_disk_bytes h \<ge> 0),
         (''reserved_workspace_slots'', \<lambda>h. hs_reserved_workspace_slots h \<ge> 0),
         (''total_memory_bytes'', \<lambda>h. hs_total_memory_bytes h \<ge> 0),
         (''total_cpu_millis'', \<lambda>h. hs_total_cpu_millis h \<ge> 0),
         (''total_disk_bytes'', \<lambda>h. hs_total_disk_bytes h \<ge> 0),
         (''total_workspace_slots'', \<lambda>h. hs_total_workspace_slots h \<ge> 0)],
      uniques = [(''worker_health_sample.id'', \<lambda>h. Some [SInt (int (hs_id h))])]\<rparr>"

definition set_health_samples :: "worker_health_sample_row list \<Rightarrow> cloud_db \<Rightarrow> cloud_db" where
  "set_health_samples rows db = db\<lparr>health_samples := rows\<rparr>"

interpretation hs_tbl: sql_table health_samples set_health_samples health_sample_schema
  by unfold_locales (simp_all add: set_health_samples_def)

text \<open>An \<open>AUTOINCREMENT\<close> key takes the next value of the table's sequence.\<close>

definition next_sample_id :: "nat dbop" where
  "next_sample_id db = (Inr (Suc (health_sample_seq db)), db\<lparr>health_sample_seq := Suc (health_sample_seq db)\<rparr>)"

text \<open>\<open>DELETE \<dots> AND id NOT IN (SELECT id \<dots> ORDER BY observed_at DESC, id DESC LIMIT 1000)\<close>.\<close>

definition newest_samples :: "string \<Rightarrow> worker_health_sample_row list \<Rightarrow> worker_health_sample_row list" where
  "newest_samples hostId samples =
     take 1000 (rev (sort_key (\<lambda>s. (hs_observed_at s, hs_id s))
       (filter (\<lambda>s. hs_worker_host_id s = hostId) samples)))"

definition prune_health_samples :: "string \<Rightarrow> unit dbop" where
  "prune_health_samples hostId db =
     (Inr (), set_health_samples
        (filter (\<lambda>s. hs_worker_host_id s = hostId
             \<longrightarrow> hs_id s \<in> hs_id ` set (newest_samples hostId (health_samples db)))
          (health_samples db)) db)"

record worker_health_input =
  hi_workerHostId :: string
  hi_state :: worker_state
  hi_errorCode :: "string option"
  hi_heartbeatObserved :: "bool option"
  hi_capacity :: "reported_capacity option"

definition sample_row ::
  "worker_host_row \<Rightarrow> nat \<Rightarrow> worker_health_input \<Rightarrow> int list option \<Rightarrow> string option \<Rightarrow> int
     \<Rightarrow> worker_health_sample_row"
where
  "sample_row host sid inp reported errorCode timestamp =
     (case reported of
        Some [tm, rm, tc, rc, td, rd, ts, rs] \<Rightarrow>
          \<lparr>hs_id = sid, hs_worker_host_id = wh_id host, hs_observed_at = timestamp,
           hs_state = hi_state inp,
           hs_reserved_memory_bytes = rm, hs_reserved_cpu_millis = rc,
           hs_reserved_disk_bytes = rd, hs_reserved_workspace_slots = rs,
           hs_error_code = errorCode,
           hs_total_memory_bytes = tm, hs_total_cpu_millis = tc,
           hs_total_disk_bytes = td, hs_total_workspace_slots = ts\<rparr>
      | _ \<Rightarrow>
          \<lparr>hs_id = sid, hs_worker_host_id = wh_id host, hs_observed_at = timestamp,
           hs_state = hi_state inp,
           hs_reserved_memory_bytes = wh_reserved_memory_bytes host,
           hs_reserved_cpu_millis = wh_reserved_cpu_millis host,
           hs_reserved_disk_bytes = wh_reserved_disk_bytes host,
           hs_reserved_workspace_slots = wh_reserved_workspace_slots host,
           hs_error_code = errorCode,
           hs_total_memory_bytes = wh_total_memory_bytes host,
           hs_total_cpu_millis = wh_total_cpu_millis host,
           hs_total_disk_bytes = wh_total_disk_bytes host,
           hs_total_workspace_slots = wh_total_workspace_slots host\<rparr>)"

text \<open>\<open>input.errorCode?.trim().slice(0, 64) || null\<close>, and the row the \<open>UPDATE\<close> writes.\<close>

definition health_error_code :: "worker_health_input \<Rightarrow> string option" where
  "health_error_code inp =
     (case hi_errorCode inp of
        None \<Rightarrow> None
      | Some e \<Rightarrow> if take 64 (trim e) = [] then None else Some (take 64 (trim e)))"

definition health_row :: "worker_health_input \<Rightarrow> int \<Rightarrow> worker_host_row \<Rightarrow> worker_host_row" where
  "health_row inp timestamp r =
     (let heartbeatObserved = (case hi_heartbeatObserved inp of None \<Rightarrow> True | Some b \<Rightarrow> b) in
      r\<lparr>wh_state := (if wh_state r = WorkerDraining then wh_state r else hi_state inp),
        wh_last_heartbeat_at := (if heartbeatObserved then Some timestamp else wh_last_heartbeat_at r),
        wh_last_error_code := health_error_code inp,
        wh_updated_at := timestamp\<rparr>)"

definition store_sample ::
  "worker_host_row \<Rightarrow> worker_health_input \<Rightarrow> int list option \<Rightarrow> int \<Rightarrow> unit dbop"
where
  "store_sample host inp reported timestamp =
     obind next_sample_id (\<lambda>sid.
     obind (insert_into health_samples set_health_samples health_sample_schema
              (sample_row host sid inp reported (health_error_code inp) timestamp)) (\<lambda>_.
     prune_health_samples (wh_id host)))"

definition recordWorkerHealth :: "worker_health_input \<Rightarrow> int \<Rightarrow> worker_host dbop" where
  "recordWorkerHealth inp timestamp =
     obind (olift (case hi_capacity inp of
                None \<Rightarrow> Inr None | Some c \<Rightarrow> sbind (check_capacity c) (\<lambda>xs. Inr (Some xs)))) (\<lambda>reported.
     atomic (
     obind (update_in worker_hosts set_worker_hosts worker_host_schema
         (\<lambda>r. wh_id r = hi_workerHostId inp) (health_row inp timestamp)) (\<lambda>changes.
     if changes \<noteq> 1 then othrow (JsError ''Worker host was not found'')
     else
     obind (oget (findWorkerRow (hi_workerHostId inp))) (\<lambda>found.
     case found of
       None \<Rightarrow> othrow (JsError ''Worker host disappeared'')
     | Some host \<Rightarrow>
         obind (store_sample host inp reported timestamp) (\<lambda>_.
         oreturn (toWorkerHost host))))))"

section \<open>Placement\<close>

record placement_requirements =
  pr_memoryBytes :: js_num
  pr_cpuMillis :: js_num
  pr_diskBytes :: js_num
  pr_workspaceSlots :: "js_num option"

text \<open>
  SQLite's \<open>CAST(a AS REAL) / b\<close>: the quotient rounded to a 53-bit significand, ties to
  even, for \<open>0 \<le> a \<le> b\<close>, \<open>0 < b\<close>, both exact as doubles (the columns hold safe integers).
\<close>

fun bit_count :: "nat \<Rightarrow> nat" where
  "bit_count n = (if n = 0 then 0 else Suc (bit_count (n div 2)))"

declare bit_count.simps [simp del]

definition round_half_even :: "int \<Rightarrow> int \<Rightarrow> int" where
  "round_half_even n d =
     (let q = n div d; r = n mod d in
      if 2 * r < d then q else if 2 * r > d then q + 1 else if even q then q else q + 1)"

definition real_quotient :: "int \<Rightarrow> int \<Rightarrow> rat" where
  "real_quotient a b =
     (if a = 0 then 0
      else let k = 53 + bit_count (nat b) - bit_count (nat a);
               k' = (if a * 2 ^ k div b \<ge> 2 ^ 53 then k - 1 else k)
           in of_int (round_half_even (a * 2 ^ k') b) / 2 ^ k')"

definition load_ratio :: "int \<Rightarrow> int \<Rightarrow> rat" where
  "load_ratio reserved capacity = (if capacity = 0 then 0 else real_quotient reserved capacity)"

definition placement_key :: "worker_host_row \<Rightarrow> rat \<times> rat \<times> rat \<times> rat \<times> string" where
  "placement_key h =
     (load_ratio (wh_reserved_workspace_slots h) (wh_total_workspace_slots h),
      load_ratio (wh_reserved_memory_bytes h) (wh_total_memory_bytes h),
      load_ratio (wh_reserved_cpu_millis h) (wh_total_cpu_millis h),
      load_ratio (wh_reserved_disk_bytes h) (wh_total_disk_bytes h),
      wh_id h)"

definition has_room :: "int \<Rightarrow> int \<Rightarrow> int \<Rightarrow> int \<Rightarrow> worker_host_row \<Rightarrow> bool" where
  "has_room memory cpu disk slots h \<longleftrightarrow>
     wh_total_memory_bytes h - wh_reserved_memory_bytes h \<ge> memory
     \<and> wh_total_cpu_millis h - wh_reserved_cpu_millis h \<ge> cpu
     \<and> wh_total_disk_bytes h - wh_reserved_disk_bytes h \<ge> disk
     \<and> wh_total_workspace_slots h - wh_reserved_workspace_slots h \<ge> slots"

definition is_candidate :: "int \<Rightarrow> int \<Rightarrow> int \<Rightarrow> int \<Rightarrow> int \<Rightarrow> worker_host_row \<Rightarrow> bool" where
  "is_candidate oldest memory cpu disk slots h \<longleftrightarrow>
     wh_enabled h = 1 \<and> wh_schedulable h = 1 \<and> wh_state h = WorkerHealthy
     \<and> (case wh_last_heartbeat_at h of None \<Rightarrow> False | Some t \<Rightarrow> t \<ge> oldest)
     \<and> has_room memory cpu disk slots h"

definition findCandidate :: "int \<Rightarrow> int \<Rightarrow> int \<Rightarrow> int \<Rightarrow> int \<Rightarrow> cloud_db \<Rightarrow> worker_host_row option" where
  "findCandidate oldest memory cpu disk slots db =
     (case sort_key placement_key (filter (is_candidate oldest memory cpu disk slots) (worker_hosts db)) of
        [] \<Rightarrow> None | h # _ \<Rightarrow> Some h)"

text \<open>The row a reservation writes, and the one an assignment writes.\<close>

definition reserved_row :: "int \<Rightarrow> int \<Rightarrow> int \<Rightarrow> int \<Rightarrow> int \<Rightarrow> worker_host_row \<Rightarrow> worker_host_row" where
  "reserved_row memory cpu disk slots timestamp h =
     h\<lparr>wh_reserved_memory_bytes := wh_reserved_memory_bytes h + memory,
       wh_reserved_cpu_millis := wh_reserved_cpu_millis h + cpu,
       wh_reserved_disk_bytes := wh_reserved_disk_bytes h + disk,
       wh_reserved_workspace_slots := wh_reserved_workspace_slots h + slots,
       wh_updated_at := timestamp\<rparr>"

definition assigned_row :: "string \<Rightarrow> int \<Rightarrow> int \<Rightarrow> int \<Rightarrow> int \<Rightarrow> int \<Rightarrow> workspace_row \<Rightarrow> workspace_row" where
  "assigned_row hostId memory cpu disk slots timestamp w =
     w\<lparr>ws_worker_host_id := Some hostId,
       ws_reserved_memory_bytes := memory, ws_reserved_cpu_millis := cpu,
       ws_reserved_disk_bytes := disk, ws_reserved_workspace_slots := slots,
       ws_updated_at := timestamp\<rparr>"

definition reserve_capacity :: "string \<Rightarrow> int \<Rightarrow> int \<Rightarrow> int \<Rightarrow> int \<Rightarrow> int \<Rightarrow> nat dbop" where
  "reserve_capacity hostId memory cpu disk slots timestamp =
     update_in worker_hosts set_worker_hosts worker_host_schema
       (\<lambda>h. wh_id h = hostId \<and> has_room memory cpu disk slots h)
       (reserved_row memory cpu disk slots timestamp)"

definition assign_to_host :: "string \<Rightarrow> string \<Rightarrow> int \<Rightarrow> int \<Rightarrow> int \<Rightarrow> int \<Rightarrow> int \<Rightarrow> nat dbop" where
  "assign_to_host workspaceId hostId memory cpu disk slots timestamp =
     update_in workspaces set_workspaces workspace_schema
       (\<lambda>w. ws_id w = workspaceId \<and> ws_worker_host_id w = None)
       (assigned_row hostId memory cpu disk slots timestamp)"

text \<open>A string in a condition counts when it is neither \<open>null\<close> nor empty.\<close>

definition truthy :: "string option \<Rightarrow> string option" where
  "truthy v = (if v = Some [] then None else v)"

text \<open>The transaction of a placement.\<close>

definition place_workspace ::
  "string \<Rightarrow> int \<Rightarrow> int \<Rightarrow> int \<Rightarrow> int \<Rightarrow> int \<Rightarrow> int \<Rightarrow> (personal_workspace \<times> worker_host) dbop"
where
  "place_workspace workspaceId oldest memory cpu disk slots timestamp = atomic (
     obind (oget (findWorkspace workspaceId)) (\<lambda>found.
     case found of
       None \<Rightarrow> othrow (JsError ''Workspace was not found'')
     | Some workspace \<Rightarrow>
       (case truthy (ws_worker_host_id workspace) of
          Some hostId \<Rightarrow>
            obind (oget (findWorkerRow hostId)) (\<lambda>assigned.
            case assigned of
              None \<Rightarrow> othrow (JsError ''Assigned worker host was not found'')
            | Some h \<Rightarrow> oreturn (toPersonalWorkspace workspace, toWorkerHost h))
        | None \<Rightarrow>
            obind (oget (findCandidate oldest memory cpu disk slots)) (\<lambda>candidate.
            case candidate of
              None \<Rightarrow> othrow WorkerPlacementUnavailableError
            | Some h \<Rightarrow>
                obind (reserve_capacity (wh_id h) memory cpu disk slots timestamp) (\<lambda>reserved.
                if reserved \<noteq> 1 then othrow WorkerPlacementUnavailableError
                else
                obind (assign_to_host (ws_id workspace) (wh_id h) memory cpu disk slots timestamp) (\<lambda>assigned.
                if assigned \<noteq> 1 then othrow (JsError ''Workspace assignment changed concurrently'')
                else
                obind (oget (findWorkspace (ws_id workspace))) (\<lambda>updatedWorkspace.
                obind (oget (findWorkerRow (wh_id h))) (\<lambda>updatedHost.
                case (updatedWorkspace, updatedHost) of
                  (Some w', Some h') \<Rightarrow> oreturn (toPersonalWorkspace w', toWorkerHost h')
                | _ \<Rightarrow> othrow (JsError ''Worker assignment disappeared'')))))))))"

text \<open>The heartbeat age is an integral number of milliseconds, so its floor is itself.\<close>

definition assignWorkspaceWorker ::
  "string \<Rightarrow> placement_requirements \<Rightarrow> int option \<Rightarrow> int \<Rightarrow> (personal_workspace \<times> worker_host) dbop"
where
  "assignWorkspaceWorker workspaceId requirements maxAge now =
     (let heartbeatMaxAgeMs = (case maxAge of None \<Rightarrow> 30000 | Some a \<Rightarrow> a) in
     obind (olift (nonNegativeInteger (pr_memoryBytes requirements) ''memoryBytes'')) (\<lambda>memory.
     obind (olift (nonNegativeInteger (pr_cpuMillis requirements) ''cpuMillis'')) (\<lambda>cpu.
     obind (olift (nonNegativeInteger (pr_diskBytes requirements) ''diskBytes'')) (\<lambda>disk.
     obind (olift (nonNegativeInteger
         (case pr_workspaceSlots requirements of None \<Rightarrow> JInt 1 | Some s \<Rightarrow> s) ''workspaceSlots'')) (\<lambda>slots.
     obind (olift (require (slots \<noteq> 0) (JsError ''workspaceSlots must be positive''))) (\<lambda>_.
     obind (olift (require (heartbeatMaxAgeMs \<ge> 0) (JsError ''heartbeatMaxAgeMs must be non-negative''))) (\<lambda>_.
     place_workspace workspaceId (now - heartbeatMaxAgeMs) memory cpu disk slots now)))))))"

text \<open>
  A workspace row disappears when its membership is deleted (\<open>ON DELETE CASCADE\<close>); the
  trigger \<open>workspace_worker_reservation_release\<close> then gives its reservation back. \<open>clock\<close>
  is the trigger's own \<open>strftime('%s', 'now') * 1000\<close>.
\<close>

definition release_reservation :: "workspace_row \<Rightarrow> int \<Rightarrow> worker_host_row \<Rightarrow> worker_host_row" where
  "release_reservation old clock h = h
     \<lparr>wh_reserved_memory_bytes := max 0 (wh_reserved_memory_bytes h - ws_reserved_memory_bytes old),
      wh_reserved_cpu_millis := max 0 (wh_reserved_cpu_millis h - ws_reserved_cpu_millis old),
      wh_reserved_disk_bytes := max 0 (wh_reserved_disk_bytes h - ws_reserved_disk_bytes old),
      wh_reserved_workspace_slots := max 0 (wh_reserved_workspace_slots h - ws_reserved_workspace_slots old),
      wh_updated_at := clock\<rparr>"

definition delete_workspace :: "string \<Rightarrow> int \<Rightarrow> unit dbop" where
  "delete_workspace workspaceId clock = atomic (
     obind (oget (findWorkspace workspaceId)) (\<lambda>found.
     case found of
       None \<Rightarrow> oreturn ()
     | Some old \<Rightarrow>
         obind (\<lambda>db. (Inr (), set_workspaces (filter (\<lambda>w. ws_id w \<noteq> workspaceId) (workspaces db)) db)) (\<lambda>_.
         if ws_worker_host_id old = None then oreturn ()
         else obind (update_in worker_hosts set_worker_hosts worker_host_schema
                (\<lambda>h. Some (wh_id h) = ws_worker_host_id old) (release_reservation old clock)) (\<lambda>_. oreturn ()))))"

section \<open>What the operations do to the tables\<close>

definition hosts_ok :: "cloud_db \<Rightarrow> bool" where
  "hosts_ok db \<longleftrightarrow> schema_ok worker_host_schema (worker_hosts db)"

lemma hosts_ok_same_id:
  assumes "hosts_ok db" and "h \<in> set (worker_hosts db)" and "k \<in> set (worker_hosts db)"
    and "wh_id h = wh_id k"
  shows "h = k"
  by (rule schema_ok_same_key [where u = "(''worker_host.id'', \<lambda>h. Some [SText (wh_id h)])"])
    (use assms in \<open>auto simp: hosts_ok_def worker_host_schema_def\<close>)

lemma findWorkerRow_SomeD: "findWorkerRow i db = Some h \<Longrightarrow> h \<in> set (worker_hosts db) \<and> wh_id h = i"
  by (auto simp: findWorkerRow_def dest: find_SomeD)

lemma host_updated_Inr:
  assumes "update_in worker_hosts set_worker_hosts worker_host_schema p f s = (Inr n, t)"
  shows "n = length (filter p (worker_hosts s))"
    and "t = s\<lparr>worker_hosts := map (\<lambda>h. if p h then f h else h) (worker_hosts s)\<rparr>"
  using wh_tbl.update_Inr [OF assms] by (auto simp: set_worker_hosts_def)

lemma hosts_ok_distinct: "hosts_ok s \<Longrightarrow> distinct (map wh_id (worker_hosts s))"
  unfolding hosts_ok_def
  by (erule schema_ok_distinct [where u = "(''worker_host.id'', \<lambda>h. Some [SText (wh_id h)])"
        and g = "\<lambda>i. [SText i]"]) (simp_all add: worker_host_schema_def)

lemma workspaces_ok_distinct: "workspaces_ok s \<Longrightarrow> distinct (map ws_id (workspaces s))"
  unfolding workspaces_ok_def
  by (erule schema_ok_distinct [where u = "(''workspace.id'', \<lambda>w. Some [SText (ws_id w)])"
        and g = "\<lambda>i. [SText i]"]) (simp_all add: workspace_schema_def)

lemma reserved_row_simps [simp]:
  "wh_id (reserved_row m c d k t h) = wh_id h" "wh_name (reserved_row m c d k t h) = wh_name h"
  "wh_base_url (reserved_row m c d k t h) = wh_base_url h"
  "wh_enabled (reserved_row m c d k t h) = wh_enabled h"
  "wh_schedulable (reserved_row m c d k t h) = wh_schedulable h"
  "wh_total_memory_bytes (reserved_row m c d k t h) = wh_total_memory_bytes h"
  "wh_total_cpu_millis (reserved_row m c d k t h) = wh_total_cpu_millis h"
  "wh_total_disk_bytes (reserved_row m c d k t h) = wh_total_disk_bytes h"
  "wh_total_workspace_slots (reserved_row m c d k t h) = wh_total_workspace_slots h"
  "wh_reserved_memory_bytes (reserved_row m c d k t h) = wh_reserved_memory_bytes h + m"
  "wh_reserved_cpu_millis (reserved_row m c d k t h) = wh_reserved_cpu_millis h + c"
  "wh_reserved_disk_bytes (reserved_row m c d k t h) = wh_reserved_disk_bytes h + d"
  "wh_reserved_workspace_slots (reserved_row m c d k t h) = wh_reserved_workspace_slots h + k"
  by (simp_all add: reserved_row_def)

lemma assigned_row_simps [simp]:
  "ws_id (assigned_row i m c d k t w) = ws_id w" "ws_member_id (assigned_row i m c d k t w) = ws_member_id w"
  "ws_worker_workspace_id (assigned_row i m c d k t w) = ws_worker_workspace_id w"
  "ws_worker_host_id (assigned_row i m c d k t w) = Some i"
  "ws_reserved_memory_bytes (assigned_row i m c d k t w) = m"
  "ws_reserved_cpu_millis (assigned_row i m c d k t w) = c"
  "ws_reserved_disk_bytes (assigned_row i m c d k t w) = d"
  "ws_reserved_workspace_slots (assigned_row i m c d k t w) = k"
  by (simp_all add: assigned_row_def)

lemma findCandidate_SomeD:
  assumes "findCandidate oldest m c d k s = Some h"
  shows "h \<in> set (worker_hosts s)" and "is_candidate oldest m c d k h"
    and "x \<in> set (worker_hosts s) \<Longrightarrow> is_candidate oldest m c d k x \<Longrightarrow> placement_key h \<le> placement_key x"
proof -
  from assms obtain rest where
    sorted: "sort_key placement_key (filter (is_candidate oldest m c d k) (worker_hosts s)) = h # rest"
    by (auto simp: findCandidate_def split: list.splits)
  show "h \<in> set (worker_hosts s)" and "is_candidate oldest m c d k h"
    using sort_key_hd_le(1) [OF sorted] by auto
  show "x \<in> set (worker_hosts s) \<Longrightarrow> is_candidate oldest m c d k x \<Longrightarrow> placement_key h \<le> placement_key x"
    using sort_key_hd_le(2) [OF sorted, of x] by simp
qed

lemma findCandidate_None_iff:
  "findCandidate oldest m c d k s = None \<longleftrightarrow> (\<forall>h \<in> set (worker_hosts s). \<not> is_candidate oldest m c d k h)"
proof -
  have "findCandidate oldest m c d k s = None
      \<longleftrightarrow> sort_key placement_key (filter (is_candidate oldest m c d k) (worker_hosts s)) = []"
    by (simp add: findCandidate_def split: list.split)
  also have "\<dots> \<longleftrightarrow> (\<forall>h \<in> set (worker_hosts s). \<not> is_candidate oldest m c d k h)"
    unfolding sort_key_Nil_iff by (simp add: filter_empty_conv)
  finally show ?thesis .
qed

lemma reserve_capacity_runs:
  assumes "hosts_ok s" and "h \<in> set (worker_hosts s)" and "has_room m c d k h"
    and "0 \<le> m" "0 \<le> c" "0 \<le> d" "0 \<le> k"
  shows "reserve_capacity (wh_id h) m c d k t s =
    (Inr 1, s\<lparr>worker_hosts := map (\<lambda>x. if wh_id x = wh_id h then reserved_row m c d k t x else x) (worker_hosts s)\<rparr>)"
proof -
  have same: "wh_id x = wh_id h \<and> has_room m c d k x \<longleftrightarrow> wh_id x = wh_id h" if "x \<in> set (worker_hosts s)" for x
    using that assms hosts_ok_same_id by blast
  have "filter (\<lambda>x. wh_id x = wh_id h \<and> has_room m c d k x) (worker_hosts s)
      = filter (\<lambda>x. wh_id x = wh_id h) (worker_hosts s)"
    using same by (intro filter_cong) auto
  then have "length (filter (\<lambda>x. wh_id x = wh_id h \<and> has_room m c d k x) (worker_hosts s)) = 1"
    using filter_key_single [OF hosts_ok_distinct [OF assms(1)] assms(2)] by simp
  moreover have "map (\<lambda>x. if wh_id x = wh_id h \<and> has_room m c d k x then reserved_row m c d k t x else x) (worker_hosts s)
      = map (\<lambda>x. if wh_id x = wh_id h then reserved_row m c d k t x else x) (worker_hosts s)"
    using same by (intro map_cong) auto
  moreover have "row_ok worker_host_schema (reserved_row m c d k t x)"
    if "x \<in> set (worker_hosts s)" and "has_room m c d k x" for x
    using that assms(1,4-) by (auto simp: hosts_ok_def schema_ok_def row_ok_iff worker_host_schema_def has_room_def)
  ultimately show ?thesis
    unfolding reserve_capacity_def using assms(1)
    by (subst wh_tbl.update_ok)
      (auto simp: hosts_ok_def worker_host_schema_def set_worker_hosts_def)
qed

lemma assign_to_host_runs:
  assumes "workspaces_ok s" and "w \<in> set (workspaces s)" and "ws_worker_host_id w = None"
    and "0 \<le> m" "0 \<le> c" "0 \<le> d" "0 \<le> k"
  shows "assign_to_host (ws_id w) i m c d k t s =
    (Inr 1, s\<lparr>workspaces := map (\<lambda>v. if ws_id v = ws_id w then assigned_row i m c d k t v else v) (workspaces s)\<rparr>)"
proof -
  have same: "ws_id v = ws_id w \<and> ws_worker_host_id v = None \<longleftrightarrow> ws_id v = ws_id w" if "v \<in> set (workspaces s)" for v
    using that assms workspaces_ok_same_id by blast
  have "filter (\<lambda>v. ws_id v = ws_id w \<and> ws_worker_host_id v = None) (workspaces s)
      = filter (\<lambda>v. ws_id v = ws_id w) (workspaces s)"
    using same by (intro filter_cong) auto
  then have "length (filter (\<lambda>v. ws_id v = ws_id w \<and> ws_worker_host_id v = None) (workspaces s)) = 1"
    using filter_key_single [OF workspaces_ok_distinct [OF assms(1)] assms(2)] by simp
  moreover have "map (\<lambda>v. if ws_id v = ws_id w \<and> ws_worker_host_id v = None then assigned_row i m c d k t v else v) (workspaces s)
      = map (\<lambda>v. if ws_id v = ws_id w then assigned_row i m c d k t v else v) (workspaces s)"
    using same by (intro map_cong) auto
  ultimately show ?thesis
    unfolding assign_to_host_def using assms
    by (subst ws_tbl.update_ok)
      (auto simp: workspaces_ok_def row_ok_iff workspace_schema_def set_workspaces_def)
qed

lemma findWorkspace_eq: "workspaces_ok s \<Longrightarrow> w \<in> set (workspaces s) \<Longrightarrow> findWorkspace (ws_id w) s = Some w"
  by (metis (mono_tags, lifting) find_ex findWorkspace_SomeD findWorkspace_def workspaces_ok_same_id)

lemma findWorkerRow_eq: "hosts_ok s \<Longrightarrow> h \<in> set (worker_hosts s) \<Longrightarrow> findWorkerRow (wh_id h) s = Some h"
  by (metis (mono_tags, lifting) find_ex findWorkerRow_SomeD findWorkerRow_def hosts_ok_same_id)

text \<open>The state a placement of \<open>w\<close> on \<open>h\<close> leaves.\<close>

definition placed :: "workspace_row \<Rightarrow> worker_host_row \<Rightarrow> int \<Rightarrow> int \<Rightarrow> int \<Rightarrow> int \<Rightarrow> int \<Rightarrow> cloud_db \<Rightarrow> cloud_db" where
  "placed w h m c d k t s = s
     \<lparr>worker_hosts := map (\<lambda>x. if wh_id x = wh_id h then reserved_row m c d k t x else x) (worker_hosts s),
      workspaces := map (\<lambda>v. if ws_id v = ws_id w then assigned_row (wh_id h) m c d k t v else v) (workspaces s)\<rparr>"

lemma place_workspace_runs:
  assumes "hosts_ok s" and "workspaces_ok s" and "findWorkspace i s = Some w" and "ws_worker_host_id w = None"
    and "findCandidate oldest m c d k s = Some h" and "0 \<le> m" "0 \<le> c" "0 \<le> d" "0 \<le> k"
  shows "place_workspace i oldest m c d k t s =
    (Inr (toPersonalWorkspace (assigned_row (wh_id h) m c d k t w), toWorkerHost (reserved_row m c d k t h)),
     placed w h m c d k t s)"
proof -
  note wD = findWorkspace_SomeD [OF assms(3)]
  note hD = findCandidate_SomeD [OF assms(5)]
  let ?u = "s\<lparr>worker_hosts := map (\<lambda>x. if wh_id x = wh_id h then reserved_row m c d k t x else x) (worker_hosts s)\<rparr>"
  have reserve: "reserve_capacity (wh_id h) m c d k t s = (Inr 1, ?u)"
    using hD(2) assms by (intro reserve_capacity_runs hD(1)) (auto simp: is_candidate_def)
  have "workspaces_ok ?u" using assms(2) by (simp add: workspaces_ok_def)
  then have assign: "assign_to_host (ws_id w) (wh_id h) m c d k t ?u = (Inr 1, placed w h m c d k t s)"
    using assms wD assign_to_host_runs [of ?u w m c d k "wh_id h" t] by (simp add: placed_def)
  have "findWorkspace (ws_id w) (placed w h m c d k t s) = Some (assigned_row (wh_id h) m c d k t w)"
    using assms(3) wD by (simp add: findWorkspace_def placed_def find_keyed_update)
  moreover have "findWorkerRow (wh_id h) (placed w h m c d k t s) = Some (reserved_row m c d k t h)"
    using findWorkerRow_eq [OF assms(1) hD(1)] by (simp add: findWorkerRow_def placed_def find_keyed_update)
  ultimately show ?thesis
    using assms(3-5) reserve assign
    by (simp add: place_workspace_def atomic_def obind_def operation_defs truthy_def)
qed

lemma place_workspace_full:
  assumes "findWorkspace i s = Some w" and "truthy (ws_worker_host_id w) = None"
    and "findCandidate oldest m c d k s = None"
  shows "place_workspace i oldest m c d k t s = (Inl WorkerPlacementUnavailableError, s)"
  using assms by (simp add: place_workspace_def atomic_def obind_def operation_defs)

lemma place_workspace_assigned:
  assumes "findWorkspace i s = Some w" and "truthy (ws_worker_host_id w) = Some hid"
    and "findWorkerRow hid s = Some h"
  shows "place_workspace i oldest m c d k t s = (Inr (toPersonalWorkspace w, toWorkerHost h), s)"
  using assms by (simp add: place_workspace_def atomic_def obind_def operation_defs)

text \<open>The requests \<open>assignWorkspaceWorker\<close> accepts, and what it then runs.\<close>

definition valid_requirements :: "placement_requirements \<Rightarrow> int option \<Rightarrow> (int \<times> int \<times> int \<times> int) option" where
  "valid_requirements req maxAge =
     (case (pr_memoryBytes req, pr_cpuMillis req, pr_diskBytes req,
            case pr_workspaceSlots req of None \<Rightarrow> JInt 1 | Some x \<Rightarrow> x) of
        (JInt m, JInt c, JInt d, JInt k) \<Rightarrow>
          (if 0 \<le> m \<and> 0 \<le> c \<and> 0 \<le> d \<and> 0 < k \<and> is_safe_int m \<and> is_safe_int c \<and> is_safe_int d \<and> is_safe_int k
              \<and> (case maxAge of None \<Rightarrow> True | Some a \<Rightarrow> 0 \<le> a)
           then Some (m, c, d, k) else None)
      | _ \<Rightarrow> None)"

lemma assignWorkspaceWorker_valid:
  "valid_requirements req maxAge = Some (m, c, d, k) \<Longrightarrow>
     assignWorkspaceWorker i req maxAge now s
       = place_workspace i (now - (case maxAge of None \<Rightarrow> 30000 | Some a \<Rightarrow> a)) m c d k now s
     \<and> 0 \<le> m \<and> 0 \<le> c \<and> 0 \<le> d \<and> 0 < k"
  by (auto simp: valid_requirements_def assignWorkspaceWorker_def nonNegativeInteger_def Let_def
      split: js_num.splits option.splits if_splits)

lemma assignWorkspaceWorker_accepts:
  "assignWorkspaceWorker i req maxAge now s = (Inr x, t) \<Longrightarrow>
     \<exists>m c d k. valid_requirements req maxAge = Some (m, c, d, k)"
  by (auto simp: assignWorkspaceWorker_def valid_requirements_def nonNegativeInteger_Inr Let_def
      is_safe_int_def MAX_SAFE_INTEGER_def split: option.splits)

lemma assignWorkspaceWorker_Inl: "assignWorkspaceWorker i req maxAge now s = (Inl e, t) \<Longrightarrow> t = s"
  by (auto simp: assignWorkspaceWorker_def place_workspace_def obind_eq_Inl operation_defs Let_def
      dest: atomic_rolls_back)

text \<open>A successful placement either finds the assignment or makes one.\<close>

lemma assignWorkspaceWorker_Inr:
  assumes "hosts_ok s" and "workspaces_ok s"
    and "assignWorkspaceWorker i req maxAge now s = (Inr (pw, host), t)"
  obtains (found) w hid h where "findWorkspace i s = Some w" and "truthy (ws_worker_host_id w) = Some hid"
      and "findWorkerRow hid s = Some h" and "pw = toPersonalWorkspace w" and "host = toWorkerHost h" and "t = s"
  | (made) w m c d k h where "valid_requirements req maxAge = Some (m, c, d, k)"
      and "findWorkspace i s = Some w" and "truthy (ws_worker_host_id w) = None"
      and "findCandidate (now - (case maxAge of None \<Rightarrow> 30000 | Some a \<Rightarrow> a)) m c d k s = Some h"
      and "pw = toPersonalWorkspace (assigned_row (wh_id h) m c d k now w)"
      and "host = toWorkerHost (reserved_row m c d k now h)"
      and "t = placed w h m c d k now s" and "ws_worker_host_id w = None"
proof -
  let ?oldest = "now - (case maxAge of None \<Rightarrow> 30000 | Some a \<Rightarrow> a)"
  obtain m c d k where valid: "valid_requirements req maxAge = Some (m, c, d, k)"
    using assignWorkspaceWorker_accepts [OF assms(3)] by blast
  note eq = assignWorkspaceWorker_valid [OF valid, of i now s]
  with assms(3) have run: "place_workspace i ?oldest m c d k now s = (Inr (pw, host), t)" by simp
  then obtain w where w: "findWorkspace i s = Some w"
    by (auto simp: place_workspace_def split: option.splits)
  show thesis
  proof (cases "truthy (ws_worker_host_id w)")
    case (Some hid)
    with run w obtain h where h: "findWorkerRow hid s = Some h"
      by (auto simp: place_workspace_def split: option.splits)
    with run w Some show thesis
      by (intro found [OF w Some h]) (auto simp: place_workspace_assigned)
  next
    case None
    with run w obtain h where h: "findCandidate ?oldest m c d k s = Some h"
      by (cases "findCandidate ?oldest m c d k s") (auto simp: place_workspace_full)
    have free: "ws_worker_host_id w = None"
    proof (rule ccontr)
      assume "ws_worker_host_id w \<noteq> None"
      with None have empty: "ws_worker_host_id w = Some []" by (auto simp: truthy_def split: if_splits)
      have "filter (\<lambda>v. ws_id v = ws_id w \<and> ws_worker_host_id v = None) (workspaces s) = []"
        using workspaces_ok_same_id [OF assms(2)] findWorkspace_SomeD [OF w] empty
        by (auto simp: filter_empty_conv)
      then show False
        using run w None h findWorkspace_SomeD [OF w]
        by (auto simp: place_workspace_def reserve_capacity_def assign_to_host_def
            dest!: host_updated_Inr(2) ws_tbl.update_Inr split: if_splits)
    qed
    from place_workspace_runs [OF assms(1,2) w free h] eq run
    have "pw = toPersonalWorkspace (assigned_row (wh_id h) m c d k now w)"
      and "host = toWorkerHost (reserved_row m c d k now h)" and "t = placed w h m c d k now s"
      by auto
    with valid w None h free show thesis by (intro made)
  qed
qed

section \<open>Reservations are conserved\<close>

text \<open>The sum of a column over the workspaces assigned to a host.\<close>

definition assigned_sum :: "(workspace_row \<Rightarrow> int) \<Rightarrow> string \<Rightarrow> workspace_row list \<Rightarrow> int" where
  "assigned_sum f hostId rows = sum_list (map (\<lambda>w. if ws_worker_host_id w = Some hostId then f w else 0) rows)"

definition balanced :: "worker_host_row \<Rightarrow> workspace_row list \<Rightarrow> bool" where
  "balanced h rows \<longleftrightarrow>
     wh_reserved_memory_bytes h = assigned_sum ws_reserved_memory_bytes (wh_id h) rows
     \<and> wh_reserved_cpu_millis h = assigned_sum ws_reserved_cpu_millis (wh_id h) rows
     \<and> wh_reserved_disk_bytes h = assigned_sum ws_reserved_disk_bytes (wh_id h) rows
     \<and> wh_reserved_workspace_slots h = assigned_sum ws_reserved_workspace_slots (wh_id h) rows"

text \<open>Every host's books agree with its workspaces, and no workspace names an unknown host.\<close>

definition fleet_inv :: "cloud_db \<Rightarrow> bool" where
  "fleet_inv db \<longleftrightarrow> hosts_ok db \<and> workspaces_ok db
     \<and> (\<forall>h \<in> set (worker_hosts db). balanced h (workspaces db))
     \<and> (\<forall>w \<in> set (workspaces db). \<forall>i. ws_worker_host_id w = Some i \<longrightarrow> i \<in> wh_id ` set (worker_hosts db))"

lemma fleet_invD:
  "fleet_inv db \<Longrightarrow> hosts_ok db" "fleet_inv db \<Longrightarrow> workspaces_ok db"
  by (simp_all add: fleet_inv_def)

lemma assigned_sum_place:
  assumes "distinct (map ws_id rows)" and "w \<in> set rows" and "ws_worker_host_id w = None"
  shows "assigned_sum f hid (map (\<lambda>v. if ws_id v = ws_id w then assigned_row i m c d k t v else v) rows)
    = assigned_sum f hid rows + (if i = hid then f (assigned_row i m c d k t w) else 0)"
  unfolding assigned_sum_def
  by (subst sum_list_key_update [OF assms(1,2)]) (simp add: assms(3))

lemma assigned_sum_delete:
  assumes "distinct (map ws_id rows)" and "w \<in> set rows"
  shows "assigned_sum f hid (filter (\<lambda>v. ws_id v \<noteq> ws_id w) rows)
    = assigned_sum f hid rows - (if ws_worker_host_id w = Some hid then f w else 0)"
  unfolding assigned_sum_def by (rule sum_list_key_delete [OF assms])

lemma assigned_sum_nonneg: "(\<And>w. w \<in> set rows \<Longrightarrow> 0 \<le> f w) \<Longrightarrow> 0 \<le> assigned_sum f hid rows"
  unfolding assigned_sum_def by (rule sum_list_nonneg) auto

lemma assigned_sum_append:
  "ws_worker_host_id w = None \<Longrightarrow> assigned_sum f hid (rows @ [w]) = assigned_sum f hid rows"
  by (simp add: assigned_sum_def)

lemma assigned_sum_unknown:
  "(\<And>w. w \<in> set rows \<Longrightarrow> ws_worker_host_id w \<noteq> Some hid) \<Longrightarrow> assigned_sum f hid rows = 0"
  unfolding assigned_sum_def by (induction rows) auto

lemma fleet_inv_placed:
  assumes inv: "fleet_inv s" and w: "findWorkspace i s = Some w" "ws_worker_host_id w = None"
    and h: "findCandidate oldest m c d k s = Some h" and nonneg: "0 \<le> m" "0 \<le> c" "0 \<le> d" "0 \<le> k"
  shows "fleet_inv (placed w h m c d k t s)"
proof -
  note ok = fleet_invD [OF inv]
  note wD = findWorkspace_SomeD [OF w(1)]
  note hD = findCandidate_SomeD [OF h]
  have "hosts_ok (placed w h m c d k t s)"
  proof -
    have room: "has_room m c d k h" using hD(2) by (simp add: is_candidate_def)
    have "keeps hosts_ok (reserve_capacity (wh_id h) m c d k t)"
      unfolding reserve_capacity_def hosts_ok_def by (rule wh_tbl.update_keeps_schema)
    from keepsD [OF this ok(1) reserve_capacity_runs [OF ok(1) hD(1) room nonneg]]
    show ?thesis by (simp add: hosts_ok_def placed_def)
  qed
  moreover have "workspaces_ok (placed w h m c d k t s)"
  proof -
    have "keeps workspaces_ok (assign_to_host (ws_id w) (wh_id h) m c d k t)"
      unfolding assign_to_host_def workspaces_ok_def by (rule ws_tbl.update_keeps_schema)
    from keepsD [OF this ok(2) assign_to_host_runs [OF ok(2) _ w(2) nonneg]] wD
    show ?thesis by (simp add: workspaces_ok_def placed_def)
  qed
  moreover have "balanced x (workspaces (placed w h m c d k t s))"
    if "x \<in> set (worker_hosts (placed w h m c d k t s))" for x
  proof -
    from that obtain y where y: "y \<in> set (worker_hosts s)"
        "x = (if wh_id y = wh_id h then reserved_row m c d k t y else y)"
      by (auto simp: placed_def)
    then have "balanced y (workspaces s)" using inv by (simp add: fleet_inv_def)
    with y(2) wD show ?thesis
      by (auto simp: balanced_def placed_def assigned_sum_place [OF workspaces_ok_distinct [OF ok(2)] _ w(2)])
  qed
  moreover have "j \<in> wh_id ` set (worker_hosts (placed w h m c d k t s))"
    if "v \<in> set (workspaces (placed w h m c d k t s))" "ws_worker_host_id v = Some j" for v j
  proof -
    have "map wh_id (worker_hosts (placed w h m c d k t s)) = map wh_id (worker_hosts s)"
      by (simp add: placed_def)
    then have "wh_id ` set (worker_hosts (placed w h m c d k t s)) = wh_id ` set (worker_hosts s)"
      by (metis set_map)
    with that inv hD(1) show ?thesis
      by (auto simp: placed_def fleet_inv_def split: if_splits)
  qed
  ultimately show ?thesis by (simp add: fleet_inv_def)
qed

lemma assignWorkspaceWorker_keeps_fleet: "keeps fleet_inv (assignWorkspaceWorker i req maxAge now)"
proof (rule keepsI)
  fix s r t
  assume inv: "fleet_inv s" and run: "assignWorkspaceWorker i req maxAge now s = (r, t)"
  show "fleet_inv t"
  proof (cases r)
    case (Inl e)
    with run inv show ?thesis by (auto dest: assignWorkspaceWorker_Inl)
  next
    case (Inr p)
    obtain pw host where "p = (pw, host)" by fastforce
    with Inr run have "assignWorkspaceWorker i req maxAge now s = (Inr (pw, host), t)" by simp
    from fleet_invD [OF inv] this show ?thesis
    proof (cases rule: assignWorkspaceWorker_Inr)
      case found
      with inv show ?thesis by simp
    next
      case (made w m c d k h)
      have "0 \<le> m" "0 \<le> c" "0 \<le> d" "0 \<le> k"
        using assignWorkspaceWorker_valid [OF made(1), of i now s] by simp_all
      with inv made show ?thesis by (metis fleet_inv_placed)
    qed
  qed
qed

text \<open>A change of a host row that leaves its identity and its books alone.\<close>

definition keeps_books :: "(worker_host_row \<Rightarrow> worker_host_row) \<Rightarrow> bool" where
  "keeps_books f \<longleftrightarrow>
     (\<forall>h. wh_id (f h) = wh_id h \<and> wh_reserved_memory_bytes (f h) = wh_reserved_memory_bytes h
        \<and> wh_reserved_cpu_millis (f h) = wh_reserved_cpu_millis h
        \<and> wh_reserved_disk_bytes (f h) = wh_reserved_disk_bytes h
        \<and> wh_reserved_workspace_slots (f h) = wh_reserved_workspace_slots h)"

lemma keeps_books_if: "keeps_books f \<Longrightarrow> keeps_books (\<lambda>h. if p h then f h else h)"
  by (simp add: keeps_books_def)

lemma fleet_inv_hosts_map:
  assumes "fleet_inv s" and "hosts_ok t" and "workspaces t = workspaces s"
    and "worker_hosts t = map f (worker_hosts s)" and "keeps_books f"
  shows "fleet_inv t"
  using assms by (auto simp: fleet_inv_def balanced_def workspaces_ok_def image_image keeps_books_def)

lemma keeps_books_registered: "keeps_books (registered_row h)"
  by (simp add: keeps_books_def registered_row_def)

lemma upsert_worker_row_Inr:
  assumes "upsert_worker_row h s = (Inr n, t)"
  shows "(findWorkerRow (wh_id h) s = None \<and> t = s\<lparr>worker_hosts := worker_hosts s @ [h]\<rparr>)
    \<or> (findWorkerRow (wh_id h) s \<noteq> None
      \<and> t = s\<lparr>worker_hosts := map (\<lambda>r. if wh_id r = wh_id h then registered_row h r else r) (worker_hosts s)\<rparr>)"
  using assms
  by (auto simp: upsert_worker_row_def wh_tbl.insert_Inr set_worker_hosts_def
      split: option.splits dest!: host_updated_Inr(2))

lemma upsert_worker_row_found:
  assumes "upsert_worker_row h s = (Inr n, t)"
  shows "findWorkerRow (wh_id h) t
    = Some (case findWorkerRow (wh_id h) s of None \<Rightarrow> h | Some r \<Rightarrow> registered_row h r)"
proof -
  have keep: "wh_id (registered_row h r) = wh_id r" for r by (simp add: registered_row_def)
  from upsert_worker_row_Inr [OF assms] show ?thesis
    by (elim disjE conjE) (auto simp: findWorkerRow_def find_append find_keyed_update keep)
qed

lemma upsert_worker_row_keeps_fleet:
  assumes "wh_reserved_memory_bytes h = 0" "wh_reserved_cpu_millis h = 0"
    "wh_reserved_disk_bytes h = 0" "wh_reserved_workspace_slots h = 0"
  shows "keeps fleet_inv (upsert_worker_row h)"
proof (rule keepsI)
  fix s r t
  assume inv: "fleet_inv s" and run: "upsert_worker_row h s = (r, t)"
  have "keeps hosts_ok (upsert_worker_row h)"
    unfolding upsert_worker_row_def hosts_ok_def
    by (intro keeps_intro wh_tbl.insert_keeps_schema wh_tbl.update_keeps_schema)
  then have ok: "hosts_ok t" using inv run by (auto simp: fleet_inv_def dest: keepsD)
  show "fleet_inv t"
  proof (cases r)
    case (Inl e)
    with run have "t = s"
      by (auto simp: upsert_worker_row_def obind_eq_Inl operation_defs wh_tbl.insert_Inl
          split: option.splits dest: wh_tbl.update_Inl)
    with inv show ?thesis by simp
  next
    case (Inr n)
    with run have "upsert_worker_row h s = (Inr n, t)" by simp
    from upsert_worker_row_Inr [OF this] consider
        "findWorkerRow (wh_id h) s = None" "t = s\<lparr>worker_hosts := worker_hosts s @ [h]\<rparr>"
      | "t = s\<lparr>worker_hosts := map (\<lambda>r. if wh_id r = wh_id h then registered_row h r else r) (worker_hosts s)\<rparr>"
      by (elim disjE conjE)
    then show ?thesis
    proof cases
      case 1
      then have "wh_id h \<notin> wh_id ` set (worker_hosts s)"
        by (auto simp: findWorkerRow_def find_None_iff)
      with inv have "ws_worker_host_id w \<noteq> Some (wh_id h)" if "w \<in> set (workspaces s)" for w
        using that by (auto simp: fleet_inv_def)
      then have "balanced h (workspaces s)"
        using assms by (simp add: balanced_def assigned_sum_unknown)
      with inv 1 ok show ?thesis by (auto simp: fleet_inv_def workspaces_ok_def)
    next
      case 2
      then show ?thesis
        by (intro fleet_inv_hosts_map [OF inv ok _ _
              keeps_books_if [OF keeps_books_registered [of h], of "\<lambda>r. wh_id r = wh_id h"]]) simp_all
    qed
  qed
qed

lemma upsertWorkerHost_keeps_fleet: "keeps fleet_inv (upsertWorkerHost urlProtocol inp now)"
  unfolding upsertWorkerHost_def Let_def
  by (intro keeps_intro upsert_worker_row_keeps_fleet) (simp_all add: new_host_row_def)

lemma host_update_keeps_fleet:
  assumes "keeps_books f"
  shows "keeps fleet_inv (update_in worker_hosts set_worker_hosts worker_host_schema p f)"
proof (rule keepsI)
  fix s r t
  assume inv: "fleet_inv s" and run: "update_in worker_hosts set_worker_hosts worker_host_schema p f s = (r, t)"
  have ok: "hosts_ok t"
    using keepsD [OF wh_tbl.update_keeps_schema _ run] inv by (simp add: hosts_ok_def fleet_inv_def)
  show "fleet_inv t"
  proof (cases r)
    case (Inl e)
    with run inv show ?thesis by (auto dest: wh_tbl.update_Inl)
  next
    case (Inr n)
    with run host_updated_Inr(2) have "t = s\<lparr>worker_hosts := map (\<lambda>h. if p h then f h else h) (worker_hosts s)\<rparr>"
      by blast
    then show ?thesis
      by (intro fleet_inv_hosts_map [OF inv ok _ _ keeps_books_if [OF assms, of p]]) simp_all
  qed
qed

lemma setWorkerHostScheduling_keeps_fleet: "keeps fleet_inv (setWorkerHostScheduling i e c st now)"
  unfolding setWorkerHostScheduling_def by (intro keeps_intro host_update_keeps_fleet) (simp add: keeps_books_def)

lemma fleet_inv_other [simp]:
  "fleet_inv (set_health_samples rows s) = fleet_inv s"
  "fleet_inv (s\<lparr>health_sample_seq := n\<rparr>) = fleet_inv s"
  by (simp_all add: fleet_inv_def hosts_ok_def workspaces_ok_def set_health_samples_def)

lemma recordWorkerHealth_keeps_fleet: "keeps fleet_inv (recordWorkerHealth inp now)"
  unfolding recordWorkerHealth_def store_sample_def
  by (intro keeps_intro host_update_keeps_fleet hs_tbl.insert_keeps_other)
    (simp_all add: keeps_books_def health_row_def keeps_def next_sample_id_def prune_health_samples_def)

lemma ensurePersonalWorkspace_keeps_fleet: "keeps fleet_inv (ensurePersonalWorkspace u g i now)"
proof (rule keepsI)
  fix s r t
  assume inv: "fleet_inv s" and run: "ensurePersonalWorkspace u g i now s = (r, t)"
  have "workspaces_ok t"
    using keepsD [OF ensurePersonalWorkspace_keeps_ok _ run] inv by (simp add: fleet_inv_def)
  moreover have "t = s \<or> (\<exists>w. t = s\<lparr>workspaces := workspaces s @ [w]\<rparr> \<and> ws_worker_host_id w = None)"
  proof (cases r)
    case (Inl e)
    with run show ?thesis by (auto simp: ensurePersonalWorkspace_def dest: atomic_rolls_back)
  next
    case (Inr w)
    with run show ?thesis by (auto elim!: ensurePersonalWorkspace_Inr)
  qed
  ultimately show "fleet_inv t"
    using inv by (auto simp: fleet_inv_def balanced_def hosts_ok_def assigned_sum_append)
qed

text \<open>A host never books less than one of its workspaces reserves.\<close>

lemma balanced_covers:
  assumes "workspaces_ok s" and "balanced h (workspaces s)" and "w \<in> set (workspaces s)"
    and "ws_worker_host_id w = Some (wh_id h)"
  shows "ws_reserved_memory_bytes w \<le> wh_reserved_memory_bytes h"
    and "ws_reserved_cpu_millis w \<le> wh_reserved_cpu_millis h"
    and "ws_reserved_disk_bytes w \<le> wh_reserved_disk_bytes h"
    and "ws_reserved_workspace_slots w \<le> wh_reserved_workspace_slots h"
proof -
  have nonneg: "0 \<le> ws_reserved_memory_bytes v \<and> 0 \<le> ws_reserved_cpu_millis v
      \<and> 0 \<le> ws_reserved_disk_bytes v \<and> 0 \<le> ws_reserved_workspace_slots v"
    if "v \<in> set (workspaces s)" for v
    using that assms(1) by (auto simp: workspaces_ok_def schema_ok_def row_ok_iff workspace_schema_def)
  have "f w \<le> assigned_sum f (wh_id h) (workspaces s)"
    if "\<And>v. v \<in> set (workspaces s) \<Longrightarrow> 0 \<le> f v" for f :: "workspace_row \<Rightarrow> int"
    using assigned_sum_delete [OF workspaces_ok_distinct [OF assms(1)] assms(3), of f "wh_id h"]
      assigned_sum_nonneg [of "filter (\<lambda>v. ws_id v \<noteq> ws_id w) (workspaces s)" f "wh_id h"] that assms(4)
    by simp
  then show "ws_reserved_memory_bytes w \<le> wh_reserved_memory_bytes h"
    and "ws_reserved_cpu_millis w \<le> wh_reserved_cpu_millis h"
    and "ws_reserved_disk_bytes w \<le> wh_reserved_disk_bytes h"
    and "ws_reserved_workspace_slots w \<le> wh_reserved_workspace_slots h"
    using assms(2) nonneg by (auto simp: balanced_def)
qed

lemma delete_workspace_Inr:
  assumes "delete_workspace i clock s = (Inr u, t)"
  shows "(findWorkspace i s = None \<and> t = s)
    \<or> (\<exists>w. findWorkspace i s = Some w
        \<and> t = s\<lparr>workspaces := filter (\<lambda>v. ws_id v \<noteq> i) (workspaces s),
                worker_hosts := map (\<lambda>h. if Some (wh_id h) = ws_worker_host_id w
                  then release_reservation w clock h else h) (worker_hosts s)\<rparr>)"
proof (cases "findWorkspace i s")
  case None
  with assms show ?thesis by (simp add: delete_workspace_def)
next
  case (Some w)
  let ?u = "set_workspaces (filter (\<lambda>v. ws_id v \<noteq> i) (workspaces s)) s"
  show ?thesis
  proof (cases "ws_worker_host_id w")
    case None
    with Some assms show ?thesis
      by (simp add: delete_workspace_def set_workspaces_def obind_eq_Inr)
  next
    case assigned: (Some hid)
    with Some assms obtain n where
      "update_in worker_hosts set_worker_hosts worker_host_schema (\<lambda>h. Some (wh_id h) = ws_worker_host_id w)
         (release_reservation w clock) ?u = (Inr n, t)"
      by (auto simp: delete_workspace_def obind_eq_Inr)
    from host_updated_Inr(2) [OF this] Some show ?thesis by (simp add: set_workspaces_def)
  qed
qed

lemma delete_workspace_Inl: "delete_workspace i clock s = (Inl e, t) \<Longrightarrow> t = s"
  unfolding delete_workspace_def by (rule atomic_rolls_back)

lemma delete_workspace_keeps_hosts: "keeps hosts_ok (delete_workspace i clock)"
  unfolding delete_workspace_def
  by (intro keeps_intro wh_tbl.update_keeps_schema [folded hosts_ok_def])
    (simp add: keeps_def hosts_ok_def set_workspaces_def)

lemma delete_workspace_keeps_fleet: "keeps fleet_inv (delete_workspace i clock)"
proof (rule keepsI)
  fix s r t
  assume inv: "fleet_inv s" and run: "delete_workspace i clock s = (r, t)"
  note ok = fleet_invD [OF inv]
  have hosts: "hosts_ok t" using keepsD [OF delete_workspace_keeps_hosts ok(1) run] .
  show "fleet_inv t"
  proof (cases r)
    case (Inl e)
    with run inv show ?thesis by (auto dest: delete_workspace_Inl)
  next
    case (Inr u)
    with run delete_workspace_Inr consider "t = s"
      | w where "findWorkspace i s = Some w"
          "t = s\<lparr>workspaces := filter (\<lambda>v. ws_id v \<noteq> i) (workspaces s),
                worker_hosts := map (\<lambda>h. if Some (wh_id h) = ws_worker_host_id w
                  then release_reservation w clock h else h) (worker_hosts s)\<rparr>"
      by blast
    then show ?thesis
    proof cases
      case 1
      with inv show ?thesis by simp
    next
      case (2 w)
      have w: "w \<in> set (workspaces s)" "ws_id w = i" using findWorkspace_SomeD [OF 2(1)] by auto
      have balanced: "balanced (if Some (wh_id h) = ws_worker_host_id w then release_reservation w clock h else h)
          (filter (\<lambda>v. ws_id v \<noteq> i) (workspaces s))" if "h \<in> set (worker_hosts s)" for h
      proof -
        have b: "balanced h (workspaces s)" using that inv by (simp add: fleet_inv_def)
        note cover = balanced_covers [OF ok(2) b w(1)]
        note deleted = assigned_sum_delete [OF workspaces_ok_distinct [OF ok(2)] w(1), unfolded w(2)]
        show ?thesis
          using b cover by (auto simp: balanced_def release_reservation_def deleted)
      qed
      have "workspaces_ok t" using ok(2) by (simp add: 2(2) workspaces_ok_def schema_ok_filter)
      moreover have "map wh_id (worker_hosts t) = map wh_id (worker_hosts s)"
        by (simp add: 2(2) release_reservation_def)
      then have "wh_id ` set (worker_hosts t) = wh_id ` set (worker_hosts s)" by (metis set_map)
      ultimately have "workspaces_ok t" and "wh_id ` set (worker_hosts t) = wh_id ` set (worker_hosts s)"
        by simp_all
      moreover have "\<forall>h \<in> set (worker_hosts t). balanced h (workspaces t)"
        unfolding 2(2) using balanced by (simp del: if_image_distrib)
      moreover have "set (workspaces t) \<subseteq> set (workspaces s)" by (auto simp: 2(2))
      ultimately show ?thesis
        using hosts inv unfolding fleet_inv_def by blast
    qed
  qed
qed

section \<open>The fleet as a step relation\<close>

inductive fleet_step :: "cloud_db \<Rightarrow> cloud_db \<Rightarrow> bool" where
  register: "fleet_step s (snd (upsertWorkerHost urlProtocol inp now s))"
| schedule: "fleet_step s (snd (setWorkerHostScheduling i enabled schedulable st now s))"
| health: "fleet_step s (snd (recordWorkerHealth input now s))"
| create: "fleet_step s (snd (ensurePersonalWorkspace u g createId now s))"
| place: "fleet_step s (snd (assignWorkspaceWorker i req maxAge now s))"
| delete: "fleet_step s (snd (delete_workspace i now s))"

interpretation fleet: invariant_system fleet_step fleet_inv
proof
  fix s t
  assume "fleet_step s t" and "fleet_inv s"
  then show "fleet_inv t"
    using upsertWorkerHost_keeps_fleet setWorkerHostScheduling_keeps_fleet recordWorkerHealth_keeps_fleet
      ensurePersonalWorkspace_keeps_fleet assignWorkspaceWorker_keeps_fleet delete_workspace_keeps_fleet
    by (cases rule: fleet_step.cases) (auto simp: keeps_def)
qed

section \<open>Properties\<close>

text \<open>C4: An admissible request for an unassigned workspace is served whenever some enabled,
  schedulable, healthy host with a recent heartbeat has room, and then by a host that no such
  host precedes in the load order; its books grow by exactly the request, which the workspace
  records. When no host qualifies the request is refused and nothing changes.\<close>

theorem assignWorkspaceWorker_picks_least_loaded:
  assumes "hosts_ok s" and "workspaces_ok s"
    and "valid_requirements req maxAge = Some (m, c, d, k)"
    and "findWorkspace i s = Some w" and "ws_worker_host_id w = None"
    and "oldest = now - (case maxAge of None \<Rightarrow> 30000 | Some a \<Rightarrow> a)"
  shows "if \<exists>h \<in> set (worker_hosts s). is_candidate oldest m c d k h
    then \<exists>h \<in> set (worker_hosts s). \<exists>pw host. is_candidate oldest m c d k h
       \<and> (\<forall>x \<in> set (worker_hosts s). is_candidate oldest m c d k x \<longrightarrow> placement_key h \<le> placement_key x)
       \<and> assignWorkspaceWorker i req maxAge now s = (Inr (pw, host), placed w h m c d k now s)
       \<and> pw_id pw = i \<and> pw_workerHostId pw = Some (wh_id h) \<and> pw_reservedMemoryBytes pw = m
       \<and> host_id host = wh_id h \<and> host_reservedMemoryBytes host = wh_reserved_memory_bytes h + m
       \<and> host_reservedWorkspaceSlots host = wh_reserved_workspace_slots h + k
    else assignWorkspaceWorker i req maxAge now s = (Inl WorkerPlacementUnavailableError, s)"
proof -
  note valid = assignWorkspaceWorker_valid [OF assms(3), of i now s, folded assms(6)]
  show ?thesis
  proof (cases "findCandidate oldest m c d k s")
    case None
    with valid assms(4,5) have "assignWorkspaceWorker i req maxAge now s = (Inl WorkerPlacementUnavailableError, s)"
      by (simp add: place_workspace_full truthy_def)
    moreover have "\<not> (\<exists>h \<in> set (worker_hosts s). is_candidate oldest m c d k h)"
      using None by (simp add: findCandidate_None_iff)
    ultimately show ?thesis by simp
  next
    case (Some h)
    have "assignWorkspaceWorker i req maxAge now s =
      (Inr (toPersonalWorkspace (assigned_row (wh_id h) m c d k now w), toWorkerHost (reserved_row m c d k now h)),
       placed w h m c d k now s)"
      using valid place_workspace_runs [OF assms(1,2,4,5) Some] by simp
    with findCandidate_SomeD [OF Some] findWorkspace_SomeD [OF assms(4)] show ?thesis
      by (auto simp: toPersonalWorkspace_def toWorkerHost_def intro!: bexI [of _ h])
  qed
qed

text \<open>C2: Along every history of registrations, scheduling changes, health reports, workspace
  creations, placements and deletions, what each host books in memory, processor, disk and
  slots is exactly the sum of its workspaces' reservations and never exceeds its capacity.\<close>

theorem fleet_never_overcommitted:
  assumes "rtranclp fleet_step s t" and "fleet_inv s" and "h \<in> set (worker_hosts t)"
  shows "assigned_sum ws_reserved_memory_bytes (wh_id h) (workspaces t) = wh_reserved_memory_bytes h
    \<and> wh_reserved_memory_bytes h \<le> wh_total_memory_bytes h
    \<and> assigned_sum ws_reserved_cpu_millis (wh_id h) (workspaces t) = wh_reserved_cpu_millis h
    \<and> wh_reserved_cpu_millis h \<le> wh_total_cpu_millis h
    \<and> assigned_sum ws_reserved_disk_bytes (wh_id h) (workspaces t) = wh_reserved_disk_bytes h
    \<and> wh_reserved_disk_bytes h \<le> wh_total_disk_bytes h
    \<and> assigned_sum ws_reserved_workspace_slots (wh_id h) (workspaces t) = wh_reserved_workspace_slots h
    \<and> wh_reserved_workspace_slots h \<le> wh_total_workspace_slots h"
proof -
  have inv: "fleet_inv t" using assms(1,2) by (rule fleet.run_inv)
  then have "balanced h (workspaces t)" and "row_ok worker_host_schema h"
    using assms(3) by (auto simp: fleet_inv_def hosts_ok_def schema_ok_def)
  then show ?thesis by (simp add: balanced_def row_ok_iff worker_host_schema_def)
qed

text \<open>Placement is sticky: once a workspace has its worker, every further admissible
  request returns the same workspace and worker and reserves nothing more.\<close>

theorem assignWorkspaceWorker_sticky:
  assumes "fleet_inv s" and "\<forall>h \<in> set (worker_hosts s). wh_id h \<noteq> []"
    and "assignWorkspaceWorker i req maxAge now s = (Inr (pw, host), t)"
    and "valid_requirements req' maxAge' = Some (m', c', d', k')"
  shows "assignWorkspaceWorker i req' maxAge' later t = (Inr (pw, host), t)"
proof -
  have again: "assignWorkspaceWorker i req' maxAge' later t
      = place_workspace i (later - (case maxAge' of None \<Rightarrow> 30000 | Some a \<Rightarrow> a)) m' c' d' k' later t"
    using assignWorkspaceWorker_valid [OF assms(4)] by blast
  from fleet_invD [OF assms(1)] assms(3) show ?thesis
  proof (cases rule: assignWorkspaceWorker_Inr)
    case (found w hid h)
    with again show ?thesis by (simp add: place_workspace_assigned)
  next
    case (made w m c d k h)
    note hD = findCandidate_SomeD [OF made(4)]
    have "findWorkspace i t = Some (assigned_row (wh_id h) m c d k now w)"
      using made(2,7) findWorkspace_SomeD [OF made(2)]
      by (simp add: findWorkspace_def placed_def find_keyed_update)
    moreover have "findWorkerRow (wh_id h) t = Some (reserved_row m c d k now h)"
      using findWorkerRow_eq [OF fleet_invD(1) [OF assms(1)] hD(1)] made(7)
      by (simp add: findWorkerRow_def placed_def find_keyed_update)
    ultimately show ?thesis
      using again made(5,6) hD(1) assms(2)
      by (simp add: place_workspace_assigned [where hid = "wh_id h"] truthy_def)
  qed
qed

lemma pruned_count:
  assumes "distinct (map hs_id rows)"
  shows "length (filter (\<lambda>x. hs_worker_host_id x = i)
      (filter (\<lambda>x. hs_worker_host_id x = i \<longrightarrow> hs_id x \<in> hs_id ` set (newest_samples i rows)) rows)) \<le> 1000"
proof -
  let ?kept = "filter (\<lambda>x. hs_worker_host_id x = i \<and> hs_id x \<in> hs_id ` set (newest_samples i rows)) rows"
  have "length ?kept = card (hs_id ` set ?kept)"
    using distinct_card [OF distinct_map_filter [OF assms,
        of "\<lambda>x. hs_worker_host_id x = i \<and> hs_id x \<in> hs_id ` set (newest_samples i rows)"]]
    by simp
  also have "\<dots> \<le> card (hs_id ` set (newest_samples i rows))" by (rule card_mono) auto
  also have "\<dots> \<le> length (newest_samples i rows)"
    using card_image_le [of "set (newest_samples i rows)" hs_id] card_length [of "newest_samples i rows"] by simp
  also have "\<dots> \<le> 1000" by (simp add: newest_samples_def)
  finally have "length ?kept \<le> 1000" .
  moreover have "filter (\<lambda>x. hs_worker_host_id x = i)
      (filter (\<lambda>x. hs_worker_host_id x = i \<longrightarrow> hs_id x \<in> hs_id ` set (newest_samples i rows)) rows) = ?kept"
    unfolding filter_filter by (rule filter_cong) auto
  ultimately show ?thesis by simp
qed

lemma store_sample_Inr:
  assumes "store_sample host inp reported now u = (Inr x, t)"
  shows "worker_hosts t = worker_hosts u
    \<and> (\<exists>new. row_error health_sample_schema new (health_samples u) = None
       \<and> hs_worker_host_id new = wh_id host
       \<and> health_samples t = filter (\<lambda>y. hs_worker_host_id y = wh_id host
           \<longrightarrow> hs_id y \<in> hs_id ` set (newest_samples (wh_id host) (health_samples u @ [new])))
         (health_samples u @ [new]))"
proof -
  define new where "new = sample_row host (Suc (health_sample_seq u)) inp reported (health_error_code inp) now"
  have "hs_worker_host_id new = wh_id host"
    by (simp add: new_def sample_row_def split: option.split list.split)
  with assms show ?thesis
    by (intro conjI exI [of _ new])
      (auto simp: store_sample_def next_sample_id_def hs_tbl.insert_Inr set_health_samples_def
        prune_health_samples_def new_def)
qed

lemma recordWorkerHealth_Inr:
  assumes "recordWorkerHealth inp now s = (Inr host, t)"
  obtains old new where "findWorkerRow (hi_workerHostId inp) s = Some old"
    and "host = toWorkerHost (health_row inp now old)"
    and "row_error health_sample_schema new (health_samples s) = None"
    and "hs_worker_host_id new = hi_workerHostId inp"
    and "health_samples t = filter (\<lambda>y. hs_worker_host_id y = hi_workerHostId inp
           \<longrightarrow> hs_id y \<in> hs_id ` set (newest_samples (hi_workerHostId inp) (health_samples s @ [new])))
         (health_samples s @ [new])"
proof -
  from assms obtain reported n u row where
      upd: "update_in worker_hosts set_worker_hosts worker_host_schema
         (\<lambda>r. wh_id r = hi_workerHostId inp) (health_row inp now) s = (Inr n, u)"
    and found: "findWorkerRow (hi_workerHostId inp) u = Some row"
    and host: "host = toWorkerHost row" and store: "store_sample row inp reported now u = (Inr (), t)"
    by (auto simp: recordWorkerHealth_def split: option.splits if_splits)
  note u = host_updated_Inr(2) [OF upd]
  have "wh_id (health_row inp now h) = wh_id h" for h by (simp add: health_row_def Let_def)
  then have "findWorkerRow (hi_workerHostId inp) u
      = map_option (health_row inp now) (findWorkerRow (hi_workerHostId inp) s)"
    unfolding u by (simp add: findWorkerRow_def find_keyed_update)
  with found obtain old where old: "findWorkerRow (hi_workerHostId inp) s = Some old" "row = health_row inp now old"
    by auto
  have id: "wh_id row = hi_workerHostId inp" using findWorkerRow_SomeD [OF found] by simp
  have same: "health_samples u = health_samples s" by (simp add: u)
  from store_sample_Inr [OF store] show thesis
    unfolding id same using that old host by blast
qed

text \<open>A health report never takes a draining host out of draining and never touches its
  books; it keeps at most the thousand newest samples of the host and all samples of others.\<close>

theorem recordWorkerHealth_bounded:
  assumes "schema_ok health_sample_schema (health_samples s)"
    and "recordWorkerHealth inp now s = (Inr host, t)"
  shows "(\<exists>old \<in> set (worker_hosts s). wh_id old = hi_workerHostId inp
        \<and> host_state host = (if wh_state old = WorkerDraining then WorkerDraining else hi_state inp)
        \<and> host_reservedMemoryBytes host = wh_reserved_memory_bytes old)
    \<and> length (filter (\<lambda>x. hs_worker_host_id x = hi_workerHostId inp) (health_samples t)) \<le> 1000
    \<and> filter (\<lambda>x. hs_worker_host_id x \<noteq> hi_workerHostId inp) (health_samples t)
        = filter (\<lambda>x. hs_worker_host_id x \<noteq> hi_workerHostId inp) (health_samples s)"
proof -
  obtain old x where old: "findWorkerRow (hi_workerHostId inp) s = Some old"
    and host: "host = toWorkerHost (health_row inp now old)"
    and x: "row_error health_sample_schema x (health_samples s) = None"
      "hs_worker_host_id x = hi_workerHostId inp"
      "health_samples t = filter (\<lambda>y. hs_worker_host_id y = hi_workerHostId inp
           \<longrightarrow> hs_id y \<in> hs_id ` set (newest_samples (hi_workerHostId inp) (health_samples s @ [x])))
         (health_samples s @ [x])"
    using assms(2) by (rule recordWorkerHealth_Inr)
  have "schema_ok health_sample_schema (health_samples s @ [x])"
    using assms(1) x(1) by (rule schema_ok_append)
  then have "distinct (map hs_id (health_samples s @ [x]))"
    by (rule schema_ok_distinct [where u = "(''worker_health_sample.id'', \<lambda>h. Some [SInt (int (hs_id h))])"
          and g = "\<lambda>i. [SInt (int i)]"]) (simp_all add: health_sample_schema_def)
  from pruned_count [OF this, of "hi_workerHostId inp"]
  have "length (filter (\<lambda>x. hs_worker_host_id x = hi_workerHostId inp) (health_samples t)) \<le> 1000"
    unfolding x(3) .
  moreover have "filter (\<lambda>x. hs_worker_host_id x \<noteq> hi_workerHostId inp) (health_samples t)
      = filter (\<lambda>x. hs_worker_host_id x \<noteq> hi_workerHostId inp) (health_samples s @ [x])"
    unfolding x(3) filter_filter by (rule filter_cong) auto
  ultimately show ?thesis
    using x(2) host findWorkerRow_SomeD [OF old]
    by (auto simp: toWorkerHost_def health_row_def Let_def intro!: bexI [of _ old])
qed

lemma upsertWorkerHost_Inr:
  assumes "upsertWorkerHost urlProtocol inp now s = (Inr host, t)"
  obtains nm provider region baseURL key memory cpu disk slots n where
    "upsert_worker_row (new_host_row (trim (rw_id inp)) nm provider region baseURL key memory cpu disk slots
        (rw_enabled inp) (rw_schedulable inp) now) s = (Inr n, t)"
    and "getWorkerHost (trim (rw_id inp)) t = Some host"
    and "rw_totalMemoryBytes inp = JInt memory" and "rw_totalWorkspaceSlots inp = JInt slots"
  using assms
  by (auto simp: upsertWorkerHost_def Let_def requiredWorkerText_Inr nonNegativeInteger_Inr
      split: option.splits)

text \<open>Registering a worker again changes its address and ceilings but neither its state nor
  its reservations, and it is refused when a ceiling would fall below them; a new worker starts
  unknown and empty.\<close>

theorem upsertWorkerHost_keeps_reservations:
  assumes "hosts_ok s" and "upsertWorkerHost urlProtocol inp now s = (Inr host, t)"
  shows "host_id host = trim (rw_id inp)
    \<and> rw_totalMemoryBytes inp = JInt (host_totalMemoryBytes host)
    \<and> rw_totalWorkspaceSlots inp = JInt (host_totalWorkspaceSlots host)
    \<and> host_reservedMemoryBytes host \<le> host_totalMemoryBytes host
    \<and> host_reservedWorkspaceSlots host \<le> host_totalWorkspaceSlots host
    \<and> (case findWorkerRow (trim (rw_id inp)) s of
         None \<Rightarrow> host_state host = WorkerUnknown \<and> host_reservedMemoryBytes host = 0
           \<and> host_reservedWorkspaceSlots host = 0
       | Some old \<Rightarrow> host_state host = wh_state old
           \<and> host_reservedMemoryBytes host = wh_reserved_memory_bytes old
           \<and> host_reservedWorkspaceSlots host = wh_reserved_workspace_slots old)"
proof -
  from assms(2) obtain nm provider region baseURL key memory cpu disk slots n where
    run: "upsert_worker_row (new_host_row (trim (rw_id inp)) nm provider region baseURL key memory cpu disk slots
        (rw_enabled inp) (rw_schedulable inp) now) s = (Inr n, t)" (is "upsert_worker_row ?new s = _")
    and host: "getWorkerHost (trim (rw_id inp)) t = Some host"
    and totals: "rw_totalMemoryBytes inp = JInt memory" "rw_totalWorkspaceSlots inp = JInt slots"
    by (rule upsertWorkerHost_Inr)
  have id: "wh_id ?new = trim (rw_id inp)" by (simp add: new_host_row_def)
  define row where "row = (case findWorkerRow (trim (rw_id inp)) s of None \<Rightarrow> ?new | Some r \<Rightarrow> registered_row ?new r)"
  have found: "findWorkerRow (trim (rw_id inp)) t = Some row"
    using upsert_worker_row_found [OF run] by (simp add: id row_def)
  have "keeps hosts_ok (upsert_worker_row ?new)"
    unfolding upsert_worker_row_def hosts_ok_def
    by (intro keeps_intro wh_tbl.insert_keeps_schema wh_tbl.update_keeps_schema)
  then have "hosts_ok t" using assms(1) run by (metis keepsD)
  then have "row_ok worker_host_schema row"
    using findWorkerRow_SomeD [OF found] by (auto simp: hosts_ok_def schema_ok_def)
  moreover have "host = toWorkerHost row" using host found by (simp add: getWorkerHost_def)
  moreover have "wh_id row = trim (rw_id inp)" using findWorkerRow_SomeD [OF found] by simp
  ultimately show ?thesis
    using totals
    by (auto simp: row_def toWorkerHost_def row_ok_iff worker_host_schema_def registered_row_def
        new_host_row_def split: option.splits)
qed

section \<open>The properties on a concrete fleet\<close>

definition fleet_db :: cloud_db where
  "fleet_db = sample_db
     \<lparr>workspaces := [new_workspace ''w1'' ''m1'' ''o1'' 5],
      worker_hosts :=
        [(new_host_row ''h1'' ''a'' ''p'' ''r'' ''http://a'' ''k'' 100 100 100 2 None None 1)
           \<lparr>wh_state := WorkerHealthy, wh_last_heartbeat_at := Some 10\<rparr>,
         (new_host_row ''h2'' ''b'' ''p'' ''r'' ''http://b'' ''k'' 100 100 100 2 None None 1)
           \<lparr>wh_state := WorkerDraining, wh_last_heartbeat_at := Some 10\<rparr>]\<rparr>"

definition sample_requirements :: placement_requirements where
  "sample_requirements =
     \<lparr>pr_memoryBytes = JInt 60, pr_cpuMillis = JInt 50, pr_diskBytes = JInt 10, pr_workspaceSlots = None\<rparr>"

lemma fleet_db_inv: "fleet_inv fleet_db"
  by (simp add: fleet_inv_def hosts_ok_def workspaces_ok_def fleet_db_def schema_ok_def row_ok_iff
      worker_host_schema_def workspace_schema_def new_host_row_def flag_ok_def distinct_key_def
      map_filter_Cons balanced_def assigned_sum_def new_workspace_def)

lemma sample_requirements_valid: "valid_requirements sample_requirements None = Some (60, 50, 10, 1)"
  by (simp add: valid_requirements_def sample_requirements_def is_safe_int_def MAX_SAFE_INTEGER_def)

lemma fleet_db_workspace:
  "findWorkspace ''w1'' fleet_db = Some (new_workspace ''w1'' ''m1'' ''o1'' 5)"
  by (simp add: findWorkspace_def fleet_db_def)

lemma fleet_db_candidates:
  "\<exists>h \<in> set (worker_hosts fleet_db). is_candidate (20 - 30000) 60 50 10 1 h"
  "x \<in> set (worker_hosts fleet_db) \<Longrightarrow> is_candidate (20 - 30000) 60 50 10 1 x \<Longrightarrow> wh_id x = ''h1''"
  by (auto simp: fleet_db_def is_candidate_def has_room_def new_host_row_def)

theorem assignWorkspaceWorker_picks_least_loaded_witness:
  "\<exists>pw host t. assignWorkspaceWorker ''w1'' sample_requirements None 20 fleet_db = (Inr (pw, host), t)
     \<and> pw_workerHostId pw = Some ''h1'' \<and> host_reservedMemoryBytes host \<ge> 60"
proof -
  have "hosts_ok fleet_db" "workspaces_ok fleet_db" using fleet_db_inv by (simp_all add: fleet_inv_def)
  from assignWorkspaceWorker_picks_least_loaded
      [OF this sample_requirements_valid fleet_db_workspace _ refl, of 20] fleet_db_candidates
  obtain h pw host where "h \<in> set (worker_hosts fleet_db)" "wh_id h = ''h1''"
    "assignWorkspaceWorker ''w1'' sample_requirements None 20 fleet_db
       = (Inr (pw, host), placed (new_workspace ''w1'' ''m1'' ''o1'' 5) h 60 50 10 1 20 fleet_db)"
    "pw_workerHostId pw = Some (wh_id h)" "host_reservedMemoryBytes host = wh_reserved_memory_bytes h + 60"
    by auto
  moreover have "0 \<le> wh_reserved_memory_bytes h"
    using calculation(1) by (auto simp: fleet_db_def new_host_row_def)
  ultimately show ?thesis by auto
qed

lemma fleet_db_placed:
  "\<exists>pw host t. assignWorkspaceWorker ''w1'' sample_requirements None 20 fleet_db = (Inr (pw, host), t)
     \<and> fleet_step fleet_db t \<and> worker_hosts t \<noteq> []"
proof -
  obtain h where h: "findCandidate (20 - 30000) 60 50 10 1 fleet_db = Some h"
    using fleet_db_candidates(1) by (metis findCandidate_None_iff not_None_eq)
  have "assignWorkspaceWorker ''w1'' sample_requirements None 20 fleet_db
    = place_workspace ''w1'' (20 - 30000) 60 50 10 1 20 fleet_db"
    using assignWorkspaceWorker_valid [OF sample_requirements_valid] by simp
  also have "\<dots> = (Inr (toPersonalWorkspace (assigned_row (wh_id h) 60 50 10 1 20 (new_workspace ''w1'' ''m1'' ''o1'' 5)),
      toWorkerHost (reserved_row 60 50 10 1 20 h)), placed (new_workspace ''w1'' ''m1'' ''o1'' 5) h 60 50 10 1 20 fleet_db)"
    using fleet_db_inv h fleet_db_workspace by (intro place_workspace_runs) (auto simp: fleet_inv_def)
  finally have run: "assignWorkspaceWorker ''w1'' sample_requirements None 20 fleet_db = \<dots>" .
  from fleet_step.place [of fleet_db "''w1''" sample_requirements None 20] run show ?thesis
    by (auto simp: placed_def fleet_db_def)
qed

theorem fleet_never_overcommitted_witness:
  "\<exists>t h. rtranclp fleet_step fleet_db t \<and> h \<in> set (worker_hosts t)
     \<and> wh_reserved_memory_bytes h \<le> wh_total_memory_bytes h"
proof -
  obtain t where "fleet_step fleet_db t" "worker_hosts t \<noteq> []" using fleet_db_placed by blast
  then have "rtranclp fleet_step fleet_db t" "hd (worker_hosts t) \<in> set (worker_hosts t)" by auto
  with fleet_never_overcommitted [OF this(1) fleet_db_inv this(2)] show ?thesis by blast
qed

theorem assignWorkspaceWorker_sticky_witness:
  "\<exists>pw host t. assignWorkspaceWorker ''w1'' sample_requirements None 20 fleet_db = (Inr (pw, host), t)
     \<and> assignWorkspaceWorker ''w1'' sample_requirements None 99999 t = (Inr (pw, host), t)"
proof -
  obtain pw host t where run: "assignWorkspaceWorker ''w1'' sample_requirements None 20 fleet_db = (Inr (pw, host), t)"
    using fleet_db_placed by blast
  have "\<forall>h \<in> set (worker_hosts fleet_db). wh_id h \<noteq> []" by (simp add: fleet_db_def new_host_row_def)
  from assignWorkspaceWorker_sticky [OF fleet_db_inv this run sample_requirements_valid] run
  show ?thesis by blast
qed

definition sample_health :: worker_health_input where
  "sample_health = \<lparr>hi_workerHostId = ''h2'', hi_state = WorkerHealthy, hi_errorCode = None,
     hi_heartbeatObserved = None, hi_capacity = None\<rparr>"

theorem recordWorkerHealth_bounded_witness:
  "\<exists>host t. recordWorkerHealth sample_health 40 fleet_db = (Inr host, t) \<and> host_state host = WorkerDraining"
proof -
  have "\<exists>host t. recordWorkerHealth sample_health 40 fleet_db = (Inr host, t)"
    by (simp add: recordWorkerHealth_def sample_health_def sample_run update_in_def sql_update_def
        set_worker_hosts_def worker_host_schema_def new_host_row_def health_row_def
        findWorkerRow_def store_sample_def next_sample_id_def sample_row_def health_sample_schema_def
        set_health_samples_def prune_health_samples_def fleet_db_def flag_ok_def health_error_code_def)
  then obtain host t where run: "recordWorkerHealth sample_health 40 fleet_db = (Inr host, t)" by blast
  have "schema_ok health_sample_schema (health_samples fleet_db)"
    by (simp add: fleet_db_def sample_db_def empty_db_def)
  from recordWorkerHealth_bounded [OF this run] run show ?thesis
    by (auto simp: fleet_db_def sample_health_def new_host_row_def)
qed

definition sample_registration :: register_worker_input where
  "sample_registration = \<lparr>rw_id = ''h1'', rw_name = ''a'', rw_provider = ''p'', rw_region = ''r'',
     rw_baseURL = ''http://a/'', rw_credentialKeyId = ''k2'', rw_totalMemoryBytes = JInt 80,
     rw_totalCpuMillis = JInt 100, rw_totalDiskBytes = JInt 100, rw_totalWorkspaceSlots = JInt 1,
     rw_enabled = None, rw_schedulable = None\<rparr>"

theorem upsertWorkerHost_keeps_reservations_witness:
  "\<exists>host t. upsertWorkerHost (\<lambda>_. Some ''http:'') sample_registration 50 fleet_db = (Inr host, t)
     \<and> host_state host = WorkerHealthy \<and> host_totalMemoryBytes host = 80"
proof -
  have "\<exists>host t. upsertWorkerHost (\<lambda>_. Some ''http:'') sample_registration 50 fleet_db = (Inr host, t)"
    by (simp add: upsertWorkerHost_def sample_registration_def sample_run update_in_def sql_update_def
        set_worker_hosts_def worker_host_schema_def new_host_row_def registered_row_def getWorkerHost_def
        findWorkerRow_def upsert_worker_row_def fleet_db_def flag_ok_def requiredWorkerText_def trim_def
        js_space_def nonNegativeInteger_def is_safe_int_def MAX_SAFE_INTEGER_def toWorkerHost_def strip_slash_def Let_def)
  then obtain host t where run: "upsertWorkerHost (\<lambda>_. Some ''http:'') sample_registration 50 fleet_db = (Inr host, t)"
    by blast
  have "hosts_ok fleet_db" using fleet_db_inv by (simp add: fleet_inv_def)
  moreover have "findWorkerRow (trim (rw_id sample_registration)) fleet_db
    = Some ((new_host_row ''h1'' ''a'' ''p'' ''r'' ''http://a'' ''k'' 100 100 100 2 None None 1)
           \<lparr>wh_state := WorkerHealthy, wh_last_heartbeat_at := Some 10\<rparr>)"
    by (simp add: sample_registration_def trim_def js_space_def findWorkerRow_def fleet_db_def new_host_row_def)
  ultimately show ?thesis
    using upsertWorkerHost_keeps_reservations [OF _ run] run
    by (auto simp: sample_registration_def)
qed

end
