(* ===== verification/Directory.thy ===== *)
theory Directory
  imports Workers Platform "HOL-Library.Multiset"
begin

text \<open>
  The control plane's side of the worker fleet: the directory that finds the worker of a workspace and its
  credential (\<open>workerDirectory.ts\<close>), the header that signs a request to it (\<open>workerAuth.ts\<close>), the administration of
  hosts (\<open>workerAdministration.ts\<close>) and the health monitor that polls them (\<open>workerHealthMonitor.ts\<close>). What a
  worker answers, the keyed digest and the URL parser are parameters.
\<close>

section \<open>Finding the worker of a workspace\<close>

text \<open>\<open>MapWorkerCredentialProvider.getSecret\<close>.\<close>

definition getSecret :: "(string \<Rightarrow> string option) \<Rightarrow> string \<Rightarrow> string option" where
  "getSecret secrets credentialKeyId = trim_or_null (secrets credentialKeyId)"

record worker_connection =
  wcn_baseURL :: string
  wcn_token :: string

definition connection :: "(string \<Rightarrow> string option) \<Rightarrow> worker_host \<Rightarrow> db_error + worker_connection" where
  "connection secrets host =
     (case getSecret secrets (host_credentialKeyId host) of
        None \<Rightarrow> Inl (JsError (''Worker credential '' @ host_credentialKeyId host @ '' is unavailable''))
      | Some token \<Rightarrow> Inr \<lparr>wcn_baseURL = host_baseURL host, wcn_token = token\<rparr>)"

definition assigned :: "string \<Rightarrow> cloud_db \<Rightarrow> db_error + (worker_host \<times> string)" where
  "assigned workspaceId db =
     (case getWorkspaceById workspaceId db of
        None \<Rightarrow> Inl (JsError ''Workspace has not been assigned to a worker'')
      | Some w \<Rightarrow>
          (case (truthy (pw_workerHostId w), truthy (pw_workerWorkspaceId w)) of
             (Some hostId, Some workerWorkspaceId) \<Rightarrow>
               (case getWorkerHost hostId db of
                  None \<Rightarrow> Inl (JsError ''Assigned worker host was not found'')
                | Some host \<Rightarrow> Inr (host, workerWorkspaceId))
           | _ \<Rightarrow> Inl (JsError ''Workspace has not been assigned to a worker'')))"

definition connectionForWorkspace :: "(string \<Rightarrow> string option) \<Rightarrow> string \<Rightarrow> cloud_db \<Rightarrow> db_error + worker_connection" where
  "connectionForWorkspace secrets workspaceId db =
     sbind (assigned workspaceId db) (\<lambda>a. connection secrets (fst a))"

definition tcpConnectionForWorkspace ::
  "(string \<Rightarrow> string option) \<Rightarrow> string \<Rightarrow> cloud_db \<Rightarrow> db_error + (worker_connection \<times> string)"
where
  "tcpConnectionForWorkspace secrets workspaceId db =
     sbind (assigned workspaceId db) (\<lambda>a.
     sbind (connection secrets (fst a)) (\<lambda>c. Inr (c, snd a)))"

section \<open>Signing a request to a worker\<close>

definition nonce_char :: "char \<Rightarrow> bool" where
  "nonce_char c \<longleftrightarrow> is_upper_letter c \<or> is_lower_letter c \<or> is_digit c \<or> c = CHR ''_'' \<or> c = CHR ''-''"

text \<open>\<open>/^[A-Za-z0-9_-]{16,128}$/\<close>.\<close>

definition valid_nonce :: "string \<Rightarrow> bool" where
  "valid_nonce n \<longleftrightarrow> 16 \<le> length n \<and> length n \<le> 128 \<and> list_all nonce_char n"

definition authorization_payload :: "int \<Rightarrow> string \<Rightarrow> string \<Rightarrow> string \<Rightarrow> string" where
  "authorization_payload expiresAt requestNonce method path =
     ''v1'' @ [CHR 0x0A] @ show_int expiresAt @ [CHR 0x0A] @ requestNonce @ [CHR 0x0A] @ toUpperCase method
       @ [CHR 0x0A] @ path"

text \<open>\<open>sign secret payload\<close> is the base64url digest; \<open>now\<close> is in milliseconds.\<close>

definition workerAuthorizationHeader ::
  "(string \<Rightarrow> string \<Rightarrow> string) \<Rightarrow> string \<Rightarrow> string \<Rightarrow> string \<Rightarrow> int \<Rightarrow> string \<Rightarrow> db_error + string"
where
  "workerAuthorizationHeader sign secret method path now requestNonce =
     (if trim secret = [] then Inl (JsError ''Worker service signing secret is required'')
      else if \<not> valid_nonce requestNonce then Inl (JsError ''Worker service credential nonce is invalid'')
      else
        let expiresAt = now div 1000 + 60 in
        Inr (''Nebula-HMAC v1.'' @ show_int expiresAt @ ''.'' @ requestNonce @ ''.''
          @ sign secret (authorization_payload expiresAt requestNonce method path)))"

section \<open>Administration of hosts\<close>

text \<open>\<open>ActListed a\<close> is an action inside an array: the validation of the request compares the text of the value, which
  for an array of one element is the text of the element.\<close>

datatype host_action = ActEnable | ActDisable | ActDrain | ActResume | ActListed host_action

record capacity_input =
  ci_memoryBytes :: js_num
  ci_cpuMillis :: js_num
  ci_diskBytes :: js_num
  ci_workspaceSlots :: js_num

record register_host_request =
  rh_id :: string
  rh_name :: string
  rh_provider :: string
  rh_region :: string
  rh_baseURL :: string
  rh_credentialKeyId :: string
  rh_capacity :: capacity_input
  rh_enabled :: "bool option"
  rh_schedulable :: "bool option"

definition default_to :: "'a \<Rightarrow> 'a option \<Rightarrow> 'a" where
  "default_to d v = (case v of None \<Rightarrow> d | Some x \<Rightarrow> x)"

definition register_host :: "(string \<Rightarrow> string option) \<Rightarrow> register_host_request \<Rightarrow> int \<Rightarrow> worker_host dbop" where
  "register_host urlProtocol req now =
     upsertWorkerHost urlProtocol
       \<lparr>rw_id = rh_id req, rw_name = rh_name req, rw_provider = rh_provider req, rw_region = rh_region req,
        rw_baseURL = rh_baseURL req, rw_credentialKeyId = rh_credentialKeyId req,
        rw_totalMemoryBytes = ci_memoryBytes (rh_capacity req), rw_totalCpuMillis = ci_cpuMillis (rh_capacity req),
        rw_totalDiskBytes = ci_diskBytes (rh_capacity req), rw_totalWorkspaceSlots = ci_workspaceSlots (rh_capacity req),
        rw_enabled = Some (default_to True (rh_enabled req)),
        rw_schedulable = Some (default_to False (rh_schedulable req))\<rparr> now"

record capacity_patch =
  cp_memoryBytes :: "js_num option"
  cp_cpuMillis :: "js_num option"
  cp_diskBytes :: "js_num option"
  cp_workspaceSlots :: "js_num option"

record update_host_request =
  uh_name :: "string option"
  uh_provider :: "string option"
  uh_region :: "string option"
  uh_baseURL :: "string option"
  uh_credentialKeyId :: "string option"
  uh_capacity :: "capacity_patch option"
  uh_action :: "host_action option"
  uh_reason :: "string option"

definition changes_host :: "update_host_request \<Rightarrow> bool" where
  "changes_host req \<longleftrightarrow> uh_name req \<noteq> None \<or> uh_provider req \<noteq> None \<or> uh_region req \<noteq> None
     \<or> uh_baseURL req \<noteq> None \<or> uh_credentialKeyId req \<noteq> None \<or> uh_capacity req \<noteq> None"

definition merged_host :: "worker_host \<Rightarrow> update_host_request \<Rightarrow> register_worker_input" where
  "merged_host current req =
     \<lparr>rw_id = host_id current, rw_name = default_to (host_name current) (uh_name req),
      rw_provider = default_to (host_provider current) (uh_provider req),
      rw_region = default_to (host_region current) (uh_region req),
      rw_baseURL = default_to (host_baseURL current) (uh_baseURL req),
      rw_credentialKeyId = default_to (host_credentialKeyId current) (uh_credentialKeyId req),
      rw_totalMemoryBytes = default_to (JInt (host_totalMemoryBytes current)) (Option.bind (uh_capacity req) cp_memoryBytes),
      rw_totalCpuMillis = default_to (JInt (host_totalCpuMillis current)) (Option.bind (uh_capacity req) cp_cpuMillis),
      rw_totalDiskBytes = default_to (JInt (host_totalDiskBytes current)) (Option.bind (uh_capacity req) cp_diskBytes),
      rw_totalWorkspaceSlots =
        default_to (JInt (host_totalWorkspaceSlots current)) (Option.bind (uh_capacity req) cp_workspaceSlots),
      rw_enabled = Some (host_enabled current), rw_schedulable = Some (host_schedulable current)\<rparr>"

text \<open>The comparisons \<open>input.action === 'enable'\<close> and so on; an array equals none of the names.\<close>

fun apply_action :: "worker_host \<Rightarrow> string \<Rightarrow> host_action \<Rightarrow> int \<Rightarrow> worker_host dbop" where
  "apply_action worker i ActEnable now = setWorkerHostScheduling i (Some True) (Some False) (Some WorkerUnknown) now"
| "apply_action worker i ActDisable now = setWorkerHostScheduling i (Some False) (Some False) (Some WorkerUnavailable) now"
| "apply_action worker i ActDrain now = setWorkerHostScheduling i None (Some False) (Some WorkerDraining) now"
| "apply_action worker i ActResume now = setWorkerHostScheduling i (Some True) (Some True) (Some WorkerUnknown) now"
| "apply_action worker i (ActListed a) now = oreturn worker"

definition update_host ::
  "(string \<Rightarrow> string option) \<Rightarrow> string \<Rightarrow> update_host_request \<Rightarrow> int \<Rightarrow> worker_host option dbop"
where
  "update_host urlProtocol workerHostId req now = atomic (
     obind (oget (getWorkerHost workerHostId)) (\<lambda>found.
     case found of
       None \<Rightarrow> oreturn None
     | Some current \<Rightarrow>
         obind (if changes_host req then upsertWorkerHost urlProtocol (merged_host current req) now
                else oreturn current) (\<lambda>worker.
         case uh_action req of
           None \<Rightarrow> oreturn (Some worker)
         | Some action \<Rightarrow> obind (apply_action worker workerHostId action now) (\<lambda>w. oreturn (Some w)))))"

fun action_text :: "host_action \<Rightarrow> string" where
  "action_text ActEnable = ''enable''"
| "action_text ActDisable = ''disable''"
| "action_text ActDrain = ''drain''"
| "action_text ActResume = ''resume''"
| "action_text (ActListed a) = action_text a"

fun worker_state_text :: "worker_state \<Rightarrow> string" where
  "worker_state_text WorkerUnknown = ''unknown''"
| "worker_state_text WorkerHealthy = ''healthy''"
| "worker_state_text WorkerUnavailable = ''unavailable''"
| "worker_state_text WorkerDraining = ''draining''"

text \<open>The handler in \<open>index.ts\<close>: an action of a named actor is audited after the update.\<close>

definition host_audit :: "string \<Rightarrow> update_host_request \<Rightarrow> string \<Rightarrow> host_action \<Rightarrow> worker_host \<Rightarrow> operation_audit_input" where
  "host_audit workerHostId req actor action worker =
     \<lparr>opi_actor = actor, opi_action = ''worker.'' @ action_text action, opi_targetType = ''worker_host'',
      opi_targetId = workerHostId, opi_result = None,
      opi_metadata =
        [(''reason'', case uh_reason req of None \<Rightarrow> MetaNull | Some r \<Rightarrow> MetaString r),
         (''enabled'', MetaBool (host_enabled worker)), (''schedulable'', MetaBool (host_schedulable worker)),
         (''state'', MetaString (worker_state_text (host_state worker)))],
      opi_eventId = None\<rparr>"

definition updateWorkerHost ::
  "(string \<Rightarrow> string option) \<Rightarrow> string \<Rightarrow> update_host_request \<Rightarrow> string option \<Rightarrow> int \<Rightarrow> js_num \<Rightarrow> string
     \<Rightarrow> worker_host option dbop"
where
  "updateWorkerHost urlProtocol workerHostId req actor now auditAt eventId =
     obind (update_host urlProtocol workerHostId req now) (\<lambda>worker.
     case (worker, uh_action req, truthy actor) of
       (Some w, Some action, Some a) \<Rightarrow>
         obind (recordPlatformOperationAuditEvent (host_audit workerHostId req a action w) auditAt eventId) (\<lambda>_.
         oreturn (Some w))
     | _ \<Rightarrow> oreturn worker)"

section \<open>The health monitor\<close>

text \<open>What the status request to a worker ends with: a failure, or its readiness and its capacity.\<close>

datatype probe_failure = ClientFailure string | ProbeTimeout | ProbeOther

type_synonym probe = "probe_failure + (bool \<times> reported_capacity)"

datatype poll_error = PollDb db_error | PollProbe probe_failure

datatype health_alert =
    AlertUnavailable string worker_state string
  | AlertRecovered string worker_state
  | AlertStale string worker_state string "int option"

record health_monitor =
  hm_db :: cloud_db
  hm_staleWorkers :: "string set"
  hm_alerts :: "health_alert list"

type_synonym 'a mop = "(health_monitor, poll_error, 'a) operation"

definition with_monitor_db :: "'a dbop \<Rightarrow> 'a mop" where
  "with_monitor_db m s =
     (case m (hm_db s) of
        (Inl e, d) \<Rightarrow> (Inl (PollDb e), s\<lparr>hm_db := d\<rparr>)
      | (Inr x, d) \<Rightarrow> (Inr x, s\<lparr>hm_db := d\<rparr>))"

definition raise_alert :: "health_alert \<Rightarrow> unit mop" where
  "raise_alert a s = (Inr (), s\<lparr>hm_alerts := hm_alerts s @ [a]\<rparr>)"

definition mark_stale :: "string \<Rightarrow> bool \<Rightarrow> unit mop" where
  "mark_stale i stale s =
     (Inr (), s\<lparr>hm_staleWorkers := (if stale then insert i (hm_staleWorkers s) else hm_staleWorkers s - {i})\<rparr>)"

fun healthErrorCode :: "poll_error \<Rightarrow> string" where
  "healthErrorCode (PollProbe (ClientFailure code)) = code"
| "healthErrorCode (PollProbe ProbeTimeout) = ''worker_health_timeout''"
| "healthErrorCode _ = ''worker_health_failed''"

definition capacity_matches :: "worker_host \<Rightarrow> reported_capacity \<Rightarrow> bool" where
  "capacity_matches host c \<longleftrightarrow>
     cap_totalMemoryBytes c = JInt (host_totalMemoryBytes host) \<and> cap_totalCpuMillis c = JInt (host_totalCpuMillis host)
     \<and> cap_totalDiskBytes c = JInt (host_totalDiskBytes host)
     \<and> cap_totalWorkspaceSlots c = JInt (host_totalWorkspaceSlots host)"

definition unavailable_report :: "string \<Rightarrow> string \<Rightarrow> bool \<Rightarrow> worker_health_input" where
  "unavailable_report i errorCode heartbeatObserved =
     \<lparr>hi_workerHostId = i, hi_state = WorkerUnavailable, hi_errorCode = Some errorCode,
      hi_heartbeatObserved = Some heartbeatObserved, hi_capacity = None\<rparr>"

definition healthy_report :: "string \<Rightarrow> reported_capacity \<Rightarrow> worker_health_input" where
  "healthy_report i capacity =
     \<lparr>hi_workerHostId = i, hi_state = WorkerHealthy, hi_errorCode = None, hi_heartbeatObserved = None,
      hi_capacity = Some capacity\<rparr>"

definition is_stale :: "int \<Rightarrow> bool \<Rightarrow> int \<Rightarrow> worker_host \<Rightarrow> bool" where
  "is_stale staleAfterMs heartbeatObserved checkedAt host \<longleftrightarrow> \<not> heartbeatObserved
     \<and> (case host_lastHeartbeatAt host of None \<Rightarrow> False | Some t \<Rightarrow> checkedAt - t \<ge> staleAfterMs)"

text \<open>\<open>host\<close> is the row as it was listed at the start of the round.\<close>

definition recordUnavailable :: "int \<Rightarrow> worker_host \<Rightarrow> string \<Rightarrow> bool \<Rightarrow> int \<Rightarrow> int \<Rightarrow> unit mop" where
  "recordUnavailable staleAfterMs host errorCode heartbeatObserved now checkedAt =
     obind (with_monitor_db (recordWorkerHealth (unavailable_report (host_id host) errorCode heartbeatObserved) now)) (\<lambda>_.
     obind (if host_state host \<noteq> WorkerUnavailable
            then raise_alert (AlertUnavailable (host_id host) (host_state host) errorCode) else oreturn ()) (\<lambda>_.
     obind (oget (\<lambda>s. is_stale staleAfterMs heartbeatObserved checkedAt host \<and> host_id host \<notin> hm_staleWorkers s)) (\<lambda>first.
     if first then
       obind (mark_stale (host_id host) True) (\<lambda>_.
       raise_alert (AlertStale (host_id host) (host_state host) errorCode (host_lastHeartbeatAt host)))
     else oreturn ())))"

definition poll_body :: "int \<Rightarrow> worker_host \<Rightarrow> probe \<Rightarrow> int \<Rightarrow> int \<Rightarrow> unit mop" where
  "poll_body staleAfterMs host probe now checkedAt =
     (case probe of
        Inl f \<Rightarrow> othrow (PollProbe f)
      | Inr (ready, capacity) \<Rightarrow>
          if \<not> capacity_matches host capacity then othrow (PollProbe (ClientFailure ''worker_capacity_mismatch''))
          else if \<not> ready then recordUnavailable staleAfterMs host ''worker_not_ready'' True now checkedAt
          else
            obind (with_monitor_db (recordWorkerHealth (healthy_report (host_id host) capacity) now)) (\<lambda>_.
            obind (mark_stale (host_id host) False) (\<lambda>_.
            if host_state host = WorkerUnavailable
            then raise_alert (AlertRecovered (host_id host) (host_state host)) else oreturn ())))"

definition pollHost :: "int \<Rightarrow> worker_host \<Rightarrow> probe \<Rightarrow> int \<Rightarrow> int \<Rightarrow> unit mop" where
  "pollHost staleAfterMs host probe now checkedAt =
     ocatch (poll_body staleAfterMs host probe now checkedAt)
       (\<lambda>e. recordUnavailable staleAfterMs host (healthErrorCode e) False now checkedAt)"

text \<open>
  \<open>pollOnce\<close>: the hosts are listed once, and each poll completes on its own; \<open>polls\<close> gives the listed hosts in the
  order in which their probes complete, with what each ends with and when. A rejected poll leaves the others alone.
\<close>

fun poll_hosts :: "int \<Rightarrow> (worker_host \<times> probe \<times> int) list \<Rightarrow> health_monitor \<Rightarrow> health_monitor" where
  "poll_hosts staleAfterMs [] s = s"
| "poll_hosts staleAfterMs ((host, probe, now) # polls) s =
     poll_hosts staleAfterMs polls (snd (pollHost staleAfterMs host probe now now s))"

section \<open>A health report is always stored\<close>

text \<open>The sequence of the sample table is ahead of its identifiers.\<close>

definition samples_ahead :: "cloud_db \<Rightarrow> bool" where
  "samples_ahead db \<longleftrightarrow> (\<forall>x \<in> set (health_samples db). hs_id x \<le> health_sample_seq db)"

definition accepted_report :: "worker_health_input \<Rightarrow> bool" where
  "accepted_report inp \<longleftrightarrow> hi_state inp \<in> {WorkerHealthy, WorkerUnavailable}
     \<and> (case hi_capacity inp of None \<Rightarrow> True | Some c \<Rightarrow> (\<exists>xs. check_capacity c = Inr xs))"

lemma check_capacity_shape:
  assumes "check_capacity c = Inr xs"
  shows "length xs = 8 \<and> (\<forall>x \<in> set xs. 0 \<le> x)"
  using assms unfolding check_capacity_def
  apply (elim sbind_InrE)
  apply (simp only: nonNegativeInteger_Inr)
  apply (elim conjE)
  apply (drule sym)
  apply (drule sum.inject(2) [THEN iffD1])
  apply simp
  done

lemma eight_elements: "length xs = 8 \<Longrightarrow> \<exists>a b c d e f g h. xs = [a, b, c, d, e, f, g, h]"
  by (simp add: numeral_eq_Suc length_Suc_conv) blast

lemma sample_row_ok:
  assumes "row_ok worker_host_schema host" and "hi_state inp \<in> {WorkerHealthy, WorkerUnavailable}"
    and "case reported of None \<Rightarrow> True | Some xs \<Rightarrow> (\<exists>c. check_capacity c = Inr xs)"
  shows "row_ok health_sample_schema (sample_row host sid inp reported code now)"
    and "hs_id (sample_row host sid inp reported code now) = sid"
proof -
  show "row_ok health_sample_schema (sample_row host sid inp reported code now)"
  proof (cases reported)
    case None
    with assms(1,2) show ?thesis
      by (auto simp: sample_row_def row_ok_iff health_sample_schema_def worker_host_schema_def)
  next
    case (Some xs)
    with assms(3) obtain c where "check_capacity c = Inr xs" by auto
    note shape = check_capacity_shape [OF this]
    then obtain tm rm tc rc td rd ts rs where xs: "xs = [tm, rm, tc, rc, td, rd, ts, rs]"
      using eight_elements by blast
    from shape have "0 \<le> tm" "0 \<le> rm" "0 \<le> tc" "0 \<le> rc" "0 \<le> td" "0 \<le> rd" "0 \<le> ts" "0 \<le> rs"
      unfolding xs by simp_all
    with Some xs assms(2) show ?thesis by (auto simp: sample_row_def row_ok_iff health_sample_schema_def)
  qed
  show "hs_id (sample_row host sid inp reported code now) = sid"
    by (simp add: sample_row_def split: option.split list.split)
qed

definition reported_host :: "worker_health_input \<Rightarrow> int \<Rightarrow> worker_host_row list \<Rightarrow> worker_host_row list" where
  "reported_host inp now rows = map (\<lambda>x. if wh_id x = hi_workerHostId inp then health_row inp now x else x) rows"

lemma health_row_simps [simp]:
  "wh_id (health_row inp now r) = wh_id r" "wh_name (health_row inp now r) = wh_name r"
  "wh_base_url (health_row inp now r) = wh_base_url r" "wh_enabled (health_row inp now r) = wh_enabled r"
  "wh_schedulable (health_row inp now r) = wh_schedulable r"
  by (simp_all add: health_row_def Let_def)

lemma health_row_ok: "row_ok worker_host_schema r \<Longrightarrow> row_ok worker_host_schema (health_row inp now r)"
  by (simp add: row_ok_iff worker_host_schema_def health_row_def Let_def)

lemma hosts_ok_reported:
  assumes "hosts_ok s"
  shows "update_in worker_hosts set_worker_hosts worker_host_schema (\<lambda>r. wh_id r = hi_workerHostId inp) (health_row inp now) s
      = (Inr (length (filter (\<lambda>r. wh_id r = hi_workerHostId inp) (worker_hosts s))),
         s\<lparr>worker_hosts := reported_host inp now (worker_hosts s)\<rparr>)"
    and "hosts_ok (s\<lparr>worker_hosts := reported_host inp now (worker_hosts s)\<rparr>)"
proof -
  show run: "update_in worker_hosts set_worker_hosts worker_host_schema (\<lambda>r. wh_id r = hi_workerHostId inp) (health_row inp now) s
      = (Inr (length (filter (\<lambda>r. wh_id r = hi_workerHostId inp) (worker_hosts s))),
         s\<lparr>worker_hosts := reported_host inp now (worker_hosts s)\<rparr>)"
    using assms health_row_ok unfolding reported_host_def
    by (subst wh_tbl.update_ok) (auto simp: hosts_ok_def schema_ok_def set_worker_hosts_def worker_host_schema_def)
  show "hosts_ok (s\<lparr>worker_hosts := reported_host inp now (worker_hosts s)\<rparr>)"
    using keepsD [OF wh_tbl.update_keeps_schema _ run] assms by (simp add: hosts_ok_def)
qed

lemma find_reported:
  "findWorkerRow i (s\<lparr>worker_hosts := reported_host inp now (worker_hosts s)\<rparr>)
     = map_option (\<lambda>r. if i = hi_workerHostId inp then health_row inp now r else r) (findWorkerRow i s)"
proof -
  have "find (\<lambda>h. wh_id h = i) (map (\<lambda>x. if wh_id x = k then health_row inp now x else x) rows)
      = map_option (\<lambda>r. if i = k then health_row inp now r else r) (find (\<lambda>h. wh_id h = i) rows)" for k rows
    by (induction rows) auto
  then show ?thesis by (simp add: findWorkerRow_def reported_host_def)
qed

lemma store_sample_runs:
  assumes "row_ok worker_host_schema host" and "hi_state inp \<in> {WorkerHealthy, WorkerUnavailable}"
    and "case reported of None \<Rightarrow> True | Some xs \<Rightarrow> (\<exists>c. check_capacity c = Inr xs)" and "samples_ahead s"
  obtains t where "store_sample host inp reported now s = (Inr (), t)" and "worker_hosts t = worker_hosts s" and "samples_ahead t"
proof -
  let ?n = "Suc (health_sample_seq s)"
  let ?r = "sample_row host ?n inp reported (health_error_code inp) now"
  note row = sample_row_ok [OF assms(1-3), of ?n "health_error_code inp" now]
  have "row_error health_sample_schema ?r (health_samples s) = None"
    using row assms(4) by (auto simp: row_error_None health_sample_schema_def collides_def samples_ahead_def)
  then have "\<exists>t. store_sample host inp reported now s = (Inr (), t) \<and> worker_hosts t = worker_hosts s \<and> samples_ahead t"
    using assms(4) row(2)
    by (force simp: store_sample_def next_sample_id_def obind_def insert_into_def sql_insert_def prune_health_samples_def
        set_health_samples_def samples_ahead_def)
  with that show thesis by blast
qed

lemma recordWorkerHealth_runs:
  assumes "hosts_ok s" and "samples_ahead s" and "accepted_report inp" and "findWorkerRow (hi_workerHostId inp) s = Some old"
  obtains t where "recordWorkerHealth inp now s = (Inr (toWorkerHost (health_row inp now old)), t)"
    and "worker_hosts t = reported_host inp now (worker_hosts s)" and "hosts_ok t" and "samples_ahead t"
proof -
  let ?u = "s\<lparr>worker_hosts := reported_host inp now (worker_hosts s)\<rparr>"
  note up = hosts_ok_reported [OF assms(1), of inp now]
  have old: "old \<in> set (worker_hosts s)" "wh_id old = hi_workerHostId inp" using findWorkerRow_SomeD [OF assms(4)] by auto
  have "length (filter (\<lambda>r. wh_id r = wh_id old) (worker_hosts s)) = 1"
    using filter_key_single [OF hosts_ok_distinct [OF assms(1)] old(1)] by simp
  with old have one: "length (filter (\<lambda>r. wh_id r = hi_workerHostId inp) (worker_hosts s)) = 1" by simp
  have found: "findWorkerRow (hi_workerHostId inp) ?u = Some (health_row inp now old)" by (simp add: find_reported assms(4))
  have "row_ok worker_host_schema old" using old(1) assms(1) by (simp add: hosts_ok_def schema_ok_def)
  note row = health_row_ok [OF this, of inp now]
  define reported where "reported = (case hi_capacity inp of None \<Rightarrow> None
    | Some c \<Rightarrow> (case check_capacity c of Inl _ \<Rightarrow> None | Inr xs \<Rightarrow> Some xs))"
  have checked: "(case hi_capacity inp of None \<Rightarrow> Inr None | Some c \<Rightarrow> sbind (check_capacity c) (\<lambda>xs. Inr (Some xs)))
      = Inr reported"
    using assms(3) by (auto simp: reported_def accepted_report_def split: option.splits)
  have shape: "case reported of None \<Rightarrow> True | Some xs \<Rightarrow> (\<exists>c. check_capacity c = Inr xs)"
    using assms(3) by (auto simp: reported_def accepted_report_def split: option.splits)
  have "samples_ahead ?u" using assms(2) by (simp add: samples_ahead_def)
  then have ahead: "samples_ahead ?u" .
  have "hi_state inp \<in> {WorkerHealthy, WorkerUnavailable}" using assms(3) by (auto simp: accepted_report_def)
  from store_sample_runs [OF row this shape ahead, of now] obtain t
    where store: "store_sample (health_row inp now old) inp reported now ?u = (Inr (), t)"
    and t: "worker_hosts t = worker_hosts ?u" "samples_ahead t" .
  have "recordWorkerHealth inp now s = (Inr (toWorkerHost (health_row inp now old)), t)"
    by (simp add: recordWorkerHealth_def checked atomic_def obind_def up(1) one found store operation_defs)
  moreover have "hosts_ok t" using up(2) t(1) by (simp add: hosts_ok_def)
  ultimately show thesis using that t by simp
qed

section \<open>What a poll does\<close>

text \<open>The report a probe leads to, and the alerts it raises.\<close>

definition probe_report :: "worker_host \<Rightarrow> probe \<Rightarrow> worker_health_input" where
  "probe_report host probe =
     (case probe of
        Inl f \<Rightarrow> unavailable_report (host_id host) (healthErrorCode (PollProbe f)) False
      | Inr (ready, c) \<Rightarrow>
          if \<not> capacity_matches host c then unavailable_report (host_id host) ''worker_capacity_mismatch'' False
          else if \<not> ready then unavailable_report (host_id host) ''worker_not_ready'' True
          else (case check_capacity c of
                  Inl _ \<Rightarrow> unavailable_report (host_id host) ''worker_health_failed'' False
                | Inr _ \<Rightarrow> healthy_report (host_id host) c))"

definition probe_alerts :: "int \<Rightarrow> worker_host \<Rightarrow> probe \<Rightarrow> int \<Rightarrow> string set \<Rightarrow> health_alert list" where
  "probe_alerts staleAfterMs host probe now stale =
     (let report = probe_report host probe; code = default_to [] (hi_errorCode report) in
      if hi_state report = WorkerHealthy
      then (if host_state host = WorkerUnavailable then [AlertRecovered (host_id host) (host_state host)] else [])
      else (if host_state host \<noteq> WorkerUnavailable then [AlertUnavailable (host_id host) (host_state host) code] else [])
        @ (if is_stale staleAfterMs (hi_heartbeatObserved report = Some True) now host \<and> host_id host \<notin> stale
           then [AlertStale (host_id host) (host_state host) code (host_lastHeartbeatAt host)] else []))"

lemma probe_report_id [simp]: "hi_workerHostId (probe_report host probe) = host_id host"
  by (simp add: probe_report_def unavailable_report_def healthy_report_def split: sum.split)

lemma recordUnavailable_runs:
  assumes "hosts_ok (hm_db s)" and "samples_ahead (hm_db s)" and "findWorkerRow (host_id host) (hm_db s) = Some old"
  obtains t where "recordUnavailable staleAfterMs host code heartbeat now checkedAt s = (Inr (), t)"
    and "worker_hosts (hm_db t) = reported_host (unavailable_report (host_id host) code heartbeat) now (worker_hosts (hm_db s))"
    and "hosts_ok (hm_db t)" and "samples_ahead (hm_db t)"
    and "hm_alerts t = hm_alerts s
       @ (if host_state host \<noteq> WorkerUnavailable then [AlertUnavailable (host_id host) (host_state host) code] else [])
       @ (if is_stale staleAfterMs heartbeat checkedAt host \<and> host_id host \<notin> hm_staleWorkers s
          then [AlertStale (host_id host) (host_state host) code (host_lastHeartbeatAt host)] else [])"
proof -
  let ?r = "unavailable_report (host_id host) code heartbeat"
  have "accepted_report ?r" "hi_workerHostId ?r = host_id host" by (simp_all add: accepted_report_def unavailable_report_def)
  with assms obtain d where d: "recordWorkerHealth ?r now (hm_db s) = (Inr (toWorkerHost (health_row ?r now old)), d)"
    and rest: "worker_hosts d = reported_host ?r now (worker_hosts (hm_db s))" "hosts_ok d" "samples_ahead d"
    using recordWorkerHealth_runs [of "hm_db s" ?r old now] by metis
  let ?t = "snd (recordUnavailable staleAfterMs host code heartbeat now checkedAt s)"
  have "recordUnavailable staleAfterMs host code heartbeat now checkedAt s = (Inr (), ?t)" and "hm_db ?t = d"
    and "hm_alerts ?t = hm_alerts s
       @ (if host_state host \<noteq> WorkerUnavailable then [AlertUnavailable (host_id host) (host_state host) code] else [])
       @ (if is_stale staleAfterMs heartbeat checkedAt host \<and> host_id host \<notin> hm_staleWorkers s
          then [AlertStale (host_id host) (host_state host) code (host_lastHeartbeatAt host)] else [])"
    by (simp_all add: recordUnavailable_def with_monitor_db_def obind_def d operation_defs raise_alert_def mark_stale_def)
  with rest that show thesis by metis
qed

text \<open>A poll always ends, with the report of its probe stored and its alerts raised.\<close>

lemma pollHost_runs:
  assumes "hosts_ok (hm_db s)" and "samples_ahead (hm_db s)" and "findWorkerRow (host_id host) (hm_db s) = Some old"
  shows "\<exists>t. pollHost staleAfterMs host probe now now s = (Inr (), t)
    \<and> worker_hosts (hm_db t) = reported_host (probe_report host probe) now (worker_hosts (hm_db s))
    \<and> hosts_ok (hm_db t) \<and> samples_ahead (hm_db t)
    \<and> hm_alerts t = hm_alerts s @ probe_alerts staleAfterMs host probe now (hm_staleWorkers s)"
proof -
  have failed: ?thesis if body: "poll_body staleAfterMs host probe now now s = (Inl e, s)"
    and report: "probe_report host probe = unavailable_report (host_id host) (healthErrorCode e) False" for e
  proof -
    have start: "pollHost staleAfterMs host probe now now s
        = recordUnavailable staleAfterMs host (healthErrorCode e) False now now s"
      by (simp add: pollHost_def ocatch_def body)
    from assms obtain t where "recordUnavailable staleAfterMs host (healthErrorCode e) False now now s = (Inr (), t)"
      and "worker_hosts (hm_db t) = reported_host (unavailable_report (host_id host) (healthErrorCode e) False) now (worker_hosts (hm_db s))"
      and "hosts_ok (hm_db t)" and "samples_ahead (hm_db t)"
      and "hm_alerts t = hm_alerts s
        @ (if host_state host \<noteq> WorkerUnavailable then [AlertUnavailable (host_id host) (host_state host) (healthErrorCode e)] else [])
        @ (if is_stale staleAfterMs False now host \<and> host_id host \<notin> hm_staleWorkers s
           then [AlertStale (host_id host) (host_state host) (healthErrorCode e) (host_lastHeartbeatAt host)] else [])"
      by (rule recordUnavailable_runs)
    then show ?thesis
      by (intro exI [of _ t]) (simp add: start report probe_alerts_def Let_def, simp add: unavailable_report_def default_to_def)
  qed
  show ?thesis
  proof (cases probe)
    case (Inl f)
    then show ?thesis by (intro failed [of "PollProbe f"]) (simp_all add: poll_body_def operation_defs probe_report_def)
  next
    case (Inr rc)
    obtain ready c where rc: "rc = (ready, c)" by fastforce
    show ?thesis
    proof (cases "capacity_matches host c")
      case False
      with Inr rc show ?thesis
        by (intro failed [of "PollProbe (ClientFailure ''worker_capacity_mismatch'')"])
          (simp_all add: poll_body_def operation_defs probe_report_def)
    next
      case matches: True
      show ?thesis
      proof (cases ready)
        case False
        then have report: "probe_report host probe = unavailable_report (host_id host) ''worker_not_ready'' True"
          and body: "pollHost staleAfterMs host probe now now s = (case recordUnavailable staleAfterMs host ''worker_not_ready'' True now now s of
            (Inl e, s') \<Rightarrow> recordUnavailable staleAfterMs host (healthErrorCode e) False now now s' | (Inr x, s') \<Rightarrow> (Inr x, s'))"
          using Inr rc matches by (simp_all add: probe_report_def pollHost_def ocatch_def poll_body_def)
        from assms obtain t where "recordUnavailable staleAfterMs host ''worker_not_ready'' True now now s = (Inr (), t)"
          and "worker_hosts (hm_db t) = reported_host (unavailable_report (host_id host) ''worker_not_ready'' True) now (worker_hosts (hm_db s))"
          and "hosts_ok (hm_db t)" and "samples_ahead (hm_db t)"
          and "hm_alerts t = hm_alerts s
            @ (if host_state host \<noteq> WorkerUnavailable then [AlertUnavailable (host_id host) (host_state host) ''worker_not_ready''] else [])
            @ (if is_stale staleAfterMs True now host \<and> host_id host \<notin> hm_staleWorkers s
               then [AlertStale (host_id host) (host_state host) ''worker_not_ready'' (host_lastHeartbeatAt host)] else [])"
          by (rule recordUnavailable_runs)
        then show ?thesis
          by (intro exI [of _ t]) (simp add: body report probe_alerts_def Let_def, simp add: unavailable_report_def default_to_def)
      next
        case True
        show ?thesis
        proof (cases "check_capacity c")
          case (Inl e)
          have "recordWorkerHealth (healthy_report (host_id host) c) now (hm_db s) = (Inl e, hm_db s)"
            by (simp add: recordWorkerHealth_def healthy_report_def Inl obind_def operation_defs)
          with Inr rc matches True Inl show ?thesis
            by (intro failed [of "PollDb e"])
              (simp_all add: poll_body_def with_monitor_db_def obind_def probe_report_def)
        next
          case valid: (Inr xs)
          let ?r = "healthy_report (host_id host) c"
          have "accepted_report ?r" "hi_workerHostId ?r = host_id host"
            using valid by (auto simp: accepted_report_def healthy_report_def)
          with assms obtain d where d: "recordWorkerHealth ?r now (hm_db s) = (Inr (toWorkerHost (health_row ?r now old)), d)"
            and rest: "worker_hosts d = reported_host ?r now (worker_hosts (hm_db s))" "hosts_ok d" "samples_ahead d"
            using recordWorkerHealth_runs [of "hm_db s" ?r old now] by metis
          have report: "probe_report host probe = ?r" using Inr rc matches True valid by (simp add: probe_report_def)
          let ?t = "snd (pollHost staleAfterMs host probe now now s)"
          have "pollHost staleAfterMs host probe now now s = (Inr (), ?t)" and "hm_db ?t = d"
            and "hm_alerts ?t = hm_alerts s
              @ (if host_state host = WorkerUnavailable then [AlertRecovered (host_id host) (host_state host)] else [])"
            using Inr rc matches True
            by (simp_all add: pollHost_def ocatch_def poll_body_def with_monitor_db_def obind_def d mark_stale_def raise_alert_def
                operation_defs)
          moreover have "probe_alerts staleAfterMs host probe now (hm_staleWorkers s)
              = (if host_state host = WorkerUnavailable then [AlertRecovered (host_id host) (host_state host)] else [])"
            by (simp add: probe_alerts_def report Let_def, simp add: healthy_report_def)
          ultimately have "pollHost staleAfterMs host probe now now s = (Inr (), ?t)
            \<and> worker_hosts (hm_db ?t) = reported_host (probe_report host probe) now (worker_hosts (hm_db s))
            \<and> hosts_ok (hm_db ?t) \<and> samples_ahead (hm_db ?t)
            \<and> hm_alerts ?t = hm_alerts s @ probe_alerts staleAfterMs host probe now (hm_staleWorkers s)"
            using rest report by simp
          then show ?thesis by blast
        qed
      qed
    qed
  qed
qed

text \<open>A round: each host ends with the report of its own probe, in whatever order the probes complete.\<close>

definition polled :: "(worker_host \<times> probe \<times> int) list \<Rightarrow> string \<Rightarrow> worker_host_row \<Rightarrow> worker_host_row" where
  "polled polls i r =
     (case find (\<lambda>q. host_id (fst q) = i) polls of
        None \<Rightarrow> r
      | Some (host, probe, now) \<Rightarrow> health_row (probe_report host probe) now r)"

lemma poll_hosts_rows:
  assumes "hosts_ok (hm_db s)" and "samples_ahead (hm_db s)" and "distinct (map (\<lambda>q. host_id (fst q)) polls)"
    and "\<And>q. q \<in> set polls \<Longrightarrow> findWorkerRow (host_id (fst q)) (hm_db s) \<noteq> None"
  shows "findWorkerRow i (hm_db (poll_hosts staleAfterMs polls s)) = map_option (polled polls i) (findWorkerRow i (hm_db s))"
  using assms
proof (induction polls arbitrary: s)
  case Nil
  then show ?case by (simp add: polled_def option.map_ident)
next
  case (Cons q polls)
  obtain host probe now where q: "q = (host, probe, now)" by (cases q) auto
  obtain old where "findWorkerRow (host_id host) (hm_db s) = Some old" using Cons.prems(4) [of q] q by auto
  with Cons.prems(1,2) pollHost_runs obtain t where t: "pollHost staleAfterMs host probe now now s = (Inr (), t)"
    and rows: "worker_hosts (hm_db t) = reported_host (probe_report host probe) now (worker_hosts (hm_db s))"
    and inv: "hosts_ok (hm_db t)" "samples_ahead (hm_db t)" by blast
  have step: "findWorkerRow j (hm_db t)
      = map_option (\<lambda>r. if j = host_id host then health_row (probe_report host probe) now r else r) (findWorkerRow j (hm_db s))" for j
    using find_reported [where i = j and s = "hm_db s" and inp = "probe_report host probe" and now = now] by (simp add: findWorkerRow_def rows)
  have "findWorkerRow i (hm_db (poll_hosts staleAfterMs polls t)) = map_option (polled polls i) (findWorkerRow i (hm_db t))"
    using Cons.prems inv by (intro Cons.IH) (auto simp: step)
  moreover have "find (\<lambda>q. host_id (fst q) = i) polls = None" if "i = host_id host"
    using Cons.prems(3) that q by (force simp: find_None_iff)
  ultimately show ?case
    by (cases "findWorkerRow i (hm_db s)") (auto simp: q t step polled_def)
qed

section \<open>A host that was taken out\<close>

text \<open>Registered identifiers are trimmed; the host \<open>i\<close>, where it is registered, takes no new workspaces.\<close>

definition stays_out :: "string \<Rightarrow> cloud_db \<Rightarrow> bool" where
  "stays_out i db \<longleftrightarrow>
     (\<forall>h \<in> set (worker_hosts db). trim (wh_id h) = wh_id h \<and> (wh_id h = i \<longrightarrow> wh_schedulable h = 0))"

lemma keeps_olift: "(\<And>x. r = Inr x \<Longrightarrow> keeps I (f x)) \<Longrightarrow> keeps I (obind (olift r) f)"
  by (cases r) (simp_all add: keeps_reads)

lemma stays_out_update:
  assumes "\<And>h. wh_id (f h) = wh_id h" and "\<And>h. wh_id h = i \<Longrightarrow> p h \<Longrightarrow> wh_schedulable h = 0 \<Longrightarrow> wh_schedulable (f h) = 0"
  shows "keeps (stays_out i) (update_in worker_hosts set_worker_hosts worker_host_schema p f)"
proof (rule keepsI)
  fix s r t
  assume out: "stays_out i s" and run: "update_in worker_hosts set_worker_hosts worker_host_schema p f s = (r, t)"
  show "stays_out i t"
  proof (cases r)
    case (Inl e)
    with run out show ?thesis by (auto dest: wh_tbl.update_Inl)
  next
    case (Inr n)
    from host_updated_Inr(2) [OF run [unfolded Inr]] out show ?thesis
      by (auto simp: stays_out_def assms(1) intro: assms(2))
  qed
qed

lemma stays_out_other [simp]:
  "stays_out i (set_health_samples rows s) = stays_out i s" "stays_out i (s\<lparr>health_sample_seq := n\<rparr>) = stays_out i s"
  "stays_out i (set_workspaces ws s) = stays_out i s"
  by (simp_all add: stays_out_def set_health_samples_def set_workspaces_def)

lemma recordWorkerHealth_stays_out: "keeps (stays_out i) (recordWorkerHealth inp now)"
  unfolding recordWorkerHealth_def store_sample_def
  by (intro keeps_intro stays_out_update hs_tbl.insert_keeps_other)
    (simp_all add: keeps_def next_sample_id_def prune_health_samples_def)

lemma assignWorkspaceWorker_stays_out: "keeps (stays_out i) (assignWorkspaceWorker w req maxAge now)"
  unfolding assignWorkspaceWorker_def place_workspace_def reserve_capacity_def assign_to_host_def Let_def
  by (intro keeps_intro stays_out_update ws_tbl.update_keeps_other)
    (auto simp: reserved_row_def intro: keeps_intro split: option.split)

lemma delete_workspace_stays_out: "keeps (stays_out i) (delete_workspace w clock)"
  unfolding delete_workspace_def
  by (intro keeps_intro stays_out_update) (simp_all add: release_reservation_def keeps_def)

lemma upsertWorkerHost_stays_out:
  assumes "trim (rw_id inp) \<noteq> i \<or> rw_schedulable inp = Some False"
  shows "keeps (stays_out i) (upsertWorkerHost urlProtocol inp now)"
proof -
  have row: "keeps (stays_out i) (upsert_worker_row (new_host_row (trim (rw_id inp)) nm pr re ba ke me cp di sl en (rw_schedulable inp) now))"
    for nm pr re ba ke me cp di sl en
    unfolding upsert_worker_row_def
  proof (intro keeps_intro stays_out_update)
    let ?h = "new_host_row (trim (rw_id inp)) nm pr re ba ke me cp di sl en (rw_schedulable inp) now"
    show "keeps (stays_out i) (insert_into worker_hosts set_worker_hosts worker_host_schema ?h)"
    proof (rule keepsI)
      fix s r t
      assume "stays_out i s" and "insert_into worker_hosts set_worker_hosts worker_host_schema ?h s = (r, t)"
      with assms show "stays_out i t"
        by (cases r) (auto simp: wh_tbl.insert_Inr wh_tbl.insert_Inl stays_out_def set_worker_hosts_def new_host_row_def)
    qed
  qed (use assms in \<open>auto simp: registered_row_def new_host_row_def\<close>)
  show ?thesis
    unfolding upsertWorkerHost_def Let_def
    by (rule keeps_olift, simp only: requiredWorkerText_Inr) (intro keeps_intro row)
qed

lemma update_host_stays_out:
  assumes "j = i \<Longrightarrow> uh_action req \<noteq> Some ActResume"
  shows "keeps (stays_out i) (update_host urlProtocol j req now)"
proof (rule keepsI)
  fix s r t
  assume out: "stays_out i s" and run: "update_host urlProtocol j req now s = (r, t)"
  show "stays_out i t"
  proof (cases "getWorkerHost j s")
    case None
    with run out show ?thesis by (simp add: update_host_def atomic_def operation_defs)
  next
    case (Some current)
    then obtain old where old: "findWorkerRow j s = Some old" "current = toWorkerHost old" by (auto simp: getWorkerHost_def)
    from findWorkerRow_SomeD [OF old(1)] out have id: "host_id current = j" "trim j = j" "j = i \<Longrightarrow> \<not> host_schedulable current"
      by (auto simp: old(2) toWorkerHost_def stays_out_def)
    then have "trim (rw_id (merged_host current req)) \<noteq> i \<or> rw_schedulable (merged_host current req) = Some False"
      by (auto simp: merged_host_def)
    note first = upsertWorkerHost_stays_out [OF this]
    have second: "keeps (stays_out i) (apply_action w j a now)" if "uh_action req = Some a" for a w
      using assms that
      by (cases a) (auto simp: setWorkerHostScheduling_def intro!: keeps_intro stays_out_update)
    have kept: "keeps (stays_out i) (atomic (obind (if changes_host req then upsertWorkerHost urlProtocol (merged_host current req) now
                else oreturn current) (\<lambda>worker.
         case uh_action req of None \<Rightarrow> oreturn (Some worker)
         | Some action \<Rightarrow> obind (apply_action worker j action now) (\<lambda>w. oreturn (Some w)))))" (is "keeps _ (atomic ?m)")
      by (cases "uh_action req") (auto intro!: keeps_intro first second)
    have "atomic ?m s = (r, t)" using run Some by (simp add: update_host_def atomic_def)
    from keepsD [OF kept out this] show ?thesis .
  qed
qed

lemma ensurePersonalWorkspace_stays_out: "keeps (stays_out i) (ensurePersonalWorkspace u g c now)"
proof (rule keepsI)
  fix s r t
  assume "stays_out i s" and run: "ensurePersonalWorkspace u g c now s = (r, t)"
  moreover have "worker_hosts t = worker_hosts s"
  proof (cases r)
    case (Inl e)
    with run show ?thesis by (auto simp: ensurePersonalWorkspace_def dest: atomic_rolls_back)
  next
    case (Inr w)
    with run show ?thesis by (auto elim!: ensurePersonalWorkspace_Inr)
  qed
  ultimately show "stays_out i t" by (simp add: stays_out_def)
qed

lemma unscheduled_stays_out:
  assumes "setWorkerHostScheduling i enabled (Some False) state now m = (Inr w, t)"
    and "\<forall>h \<in> set (worker_hosts m). trim (wh_id h) = wh_id h"
  shows "stays_out i t"
proof -
  obtain f n where up: "update_in worker_hosts set_worker_hosts worker_host_schema (\<lambda>r. wh_id r = i) f m = (Inr n, t)"
    and f: "\<And>r. wh_id (f r) = wh_id r \<and> wh_schedulable (f r) = 0"
  proof -
    let ?f = "\<lambda>r. r\<lparr>wh_enabled := (case enabled of None \<Rightarrow> wh_enabled r | Some b \<Rightarrow> of_bool b),
                wh_schedulable := (case Some False of None \<Rightarrow> wh_schedulable r | Some b \<Rightarrow> of_bool b),
                wh_state := (case state of None \<Rightarrow> wh_state r | Some st \<Rightarrow> st), wh_updated_at := now\<rparr>"
    from assms(1) obtain n where "update_in worker_hosts set_worker_hosts worker_host_schema (\<lambda>r. wh_id r = i) ?f m = (Inr n, t)"
      unfolding setWorkerHostScheduling_def
      by (elim obind_InrE) (auto simp: operation_defs split: if_splits option.splits)
    then show thesis by (rule that) simp
  qed
  from host_updated_Inr(2) [OF up] assms(2) f show ?thesis by (auto simp: stays_out_def)
qed

text \<open>What may happen to the fleet while nobody resumes the host \<open>i\<close> or registers it as schedulable.\<close>

inductive quiet_step :: "string \<Rightarrow> cloud_db \<Rightarrow> cloud_db \<Rightarrow> bool" for i where
  health: "quiet_step i s (snd (recordWorkerHealth inp now s))"
| place: "quiet_step i s (snd (assignWorkspaceWorker w req maxAge now s))"
| delete: "quiet_step i s (snd (delete_workspace w now s))"
| create: "quiet_step i s (snd (ensurePersonalWorkspace u g c now s))"
| register: "trim (rh_id req) \<noteq> i \<or> rh_schedulable req \<noteq> Some True \<Longrightarrow> quiet_step i s (snd (register_host urlProtocol req now s))"
| update: "j = i \<longrightarrow> uh_action chg \<noteq> Some ActResume \<Longrightarrow> quiet_step i s (snd (update_host urlProtocol j chg now s))"

interpretation taken_out: invariant_system "quiet_step i" "stays_out i" for i
proof
  fix s t
  assume step: "quiet_step i s t" and out: "stays_out i s"
  from step show "stays_out i t"
  proof cases
    case (register req urlProtocol now)
    then have "keeps (stays_out i) (register_host urlProtocol req now)"
      unfolding register_host_def by (intro upsertWorkerHost_stays_out) (auto simp: default_to_def split: option.split)
    with out register show ?thesis by (simp add: keeps_def)
  qed (use out recordWorkerHealth_stays_out assignWorkspaceWorker_stays_out delete_workspace_stays_out update_host_stays_out
       ensurePersonalWorkspace_stays_out in \<open>auto simp: keeps_def\<close>)
qed

section \<open>Properties\<close>

text \<open>A polling round judges each worker by its own answer: in whatever order the answers arrive, every registered worker
  ends with the health report of its own probe, written at the time of that probe on the row the round found, and it can
  be given workspaces only if it answered ready with the capacity it is registered with.\<close>

theorem poll_round_settles_fleet:
  assumes "hosts_ok (hm_db s)" and "samples_ahead (hm_db s)"
    and "mset (map fst polls) = mset (listWorkerHosts (hm_db s))" and "old \<in> set (worker_hosts (hm_db s))"
  shows "\<exists>probe now row. (toWorkerHost old, probe, now) \<in> set polls
    \<and> findWorkerRow (wh_id old) (hm_db (poll_hosts staleAfterMs polls s)) = Some row
    \<and> row = health_row (probe_report (toWorkerHost old) probe) now old
    \<and> (is_candidate oldest memory cpu disk slots row \<longrightarrow>
         (\<exists>c. probe = Inr (True, c) \<and> capacity_matches (toWorkerHost old) c))"
proof -
  have id: "host_id (toWorkerHost h) = wh_id h" for h by (simp add: toWorkerHost_def)
  have listed: "set (listWorkerHosts (hm_db s)) = toWorkerHost ` set (worker_hosts (hm_db s))"
    by (simp add: listWorkerHosts_def)
  have fsts: "set (map fst polls) = toWorkerHost ` set (worker_hosts (hm_db s))"
    using mset_eq_setD [OF assms(3)] listed by simp
  have "mset (map host_id (map fst polls)) = mset (map host_id (listWorkerHosts (hm_db s)))"
    using assms(3) by (metis mset_map)
  moreover have "mset (map host_id (listWorkerHosts (hm_db s))) = mset (map wh_id (worker_hosts (hm_db s)))"
    by (simp add: listWorkerHosts_def o_def id)
  ultimately have "distinct (map host_id (map fst polls))"
    using hosts_ok_distinct [OF assms(1)] by (metis mset_eq_imp_distinct_iff)
  then have distinct: "distinct (map (\<lambda>q. host_id (fst q)) polls)" by (simp add: o_def)
  have "findWorkerRow (host_id (fst q)) (hm_db s) \<noteq> None" if "q \<in> set polls" for q
  proof -
    have "fst q \<in> set (map fst polls)" using that by simp
    then obtain h where "h \<in> set (worker_hosts (hm_db s))" "fst q = toWorkerHost h" unfolding fsts by blast
    with findWorkerRow_eq [OF assms(1)] show ?thesis by (simp add: id)
  qed
  from poll_hosts_rows [OF assms(1,2) distinct this]
  have rows: "findWorkerRow (wh_id old) (hm_db (poll_hosts staleAfterMs polls s)) = Some (polled polls (wh_id old) old)"
    using findWorkerRow_eq [OF assms(1,4)] by simp
  have "toWorkerHost old \<in> set (map fst polls)" using assms(4) unfolding fsts by blast
  then obtain probe now where member: "(toWorkerHost old, probe, now) \<in> set polls" by auto
  then have "find (\<lambda>q. host_id (fst q) = wh_id old) polls = Some (toWorkerHost old, probe, now)"
    using distinct by (induction polls) (auto simp: id image_iff)
  then have polled: "polled polls (wh_id old) old = health_row (probe_report (toWorkerHost old) probe) now old"
    by (simp add: polled_def)
  have "\<exists>c. probe = Inr (True, c) \<and> capacity_matches (toWorkerHost old) c"
    if "is_candidate oldest memory cpu disk slots (health_row (probe_report (toWorkerHost old) probe) now old)"
    using that by (auto simp: is_candidate_def health_row_def Let_def probe_report_def unavailable_report_def healthy_report_def
        split: if_splits sum.splits prod.splits)
  with member rows polled show ?thesis
    by (intro exI [of _ probe] exI [of _ now] exI [of _ "polled polls (wh_id old) old"]) simp
qed

text \<open>Rounds in which a worker does not answer, each on the row it finds.\<close>

fun failing_rounds :: "int \<Rightarrow> string \<Rightarrow> int list \<Rightarrow> health_monitor \<Rightarrow> health_monitor" where
  "failing_rounds staleAfterMs i [] s = s"
| "failing_rounds staleAfterMs i (now # later) s =
     (case getWorkerHost i (hm_db s) of
        None \<Rightarrow> s
      | Some host \<Rightarrow> failing_rounds staleAfterMs i later (poll_hosts staleAfterMs [(host, Inl ProbeTimeout, now)] s))"

fun announces :: "health_alert \<Rightarrow> bool" where
  "announces (AlertUnavailable _ _ _) \<longleftrightarrow> True"
| "announces _ \<longleftrightarrow> False"

lemma failing_round:
  assumes "hosts_ok (hm_db s)" and "samples_ahead (hm_db s)" and "findWorkerRow i (hm_db s) = Some old"
  obtains t old' where "failing_rounds staleAfterMs i (now # later) s = failing_rounds staleAfterMs i later t"
    and "hosts_ok (hm_db t)" and "samples_ahead (hm_db t)" and "findWorkerRow i (hm_db t) = Some old'"
    and "wh_state old' = (if wh_state old = WorkerDraining then WorkerDraining else WorkerUnavailable)"
    and "length (filter announces (hm_alerts t))
       = length (filter announces (hm_alerts s)) + (if wh_state old = WorkerUnavailable then 0 else 1)"
proof -
  let ?h = "toWorkerHost old"
  have host: "getWorkerHost i (hm_db s) = Some ?h" by (simp add: getWorkerHost_def assms(3))
  have id: "host_id ?h = i" using findWorkerRow_SomeD [OF assms(3)] by (simp add: toWorkerHost_def)
  have report: "probe_report ?h (Inl ProbeTimeout) = unavailable_report i ''worker_health_timeout'' False"
    by (simp add: probe_report_def id)
  from pollHost_runs [OF assms(1,2), of ?h old staleAfterMs "Inl ProbeTimeout" now] assms(3) id
  obtain t where t: "pollHost staleAfterMs ?h (Inl ProbeTimeout) now now s = (Inr (), t)"
    and rows: "worker_hosts (hm_db t) = reported_host (unavailable_report i ''worker_health_timeout'' False) now (worker_hosts (hm_db s))"
    and inv: "hosts_ok (hm_db t)" "samples_ahead (hm_db t)"
    and alerts: "hm_alerts t = hm_alerts s @ probe_alerts staleAfterMs ?h (Inl ProbeTimeout) now (hm_staleWorkers s)"
    by (auto simp: report)
  have found: "findWorkerRow i (hm_db t) = Some (health_row (unavailable_report i ''worker_health_timeout'' False) now old)"
    using find_reported [where i = i and s = "hm_db s" and inp = "unavailable_report i ''worker_health_timeout'' False" and now = now]
    by (simp add: findWorkerRow_def rows assms(3) [unfolded findWorkerRow_def] unavailable_report_def)
  have "length (filter announces (probe_alerts staleAfterMs ?h (Inl ProbeTimeout) now (hm_staleWorkers s)))
      = (if wh_state old = WorkerUnavailable then 0 else 1)"
    by (simp add: probe_alerts_def report Let_def, simp add: unavailable_report_def toWorkerHost_def)
  with inv found alerts that [of t] show thesis
    by (simp add: host t health_row_def Let_def unavailable_report_def)
qed

text \<open>An outage is announced once: of any number of rounds in which a worker that was not unavailable does not answer,
  exactly the first raises an alert that it is unavailable; a worker known to be unavailable raises none.\<close>

theorem outage_announced_once:
  assumes "hosts_ok (hm_db s)" and "samples_ahead (hm_db s)" and "findWorkerRow i (hm_db s) = Some old"
    and "wh_state old \<noteq> WorkerDraining" and "rounds \<noteq> []"
  shows "length (filter announces (hm_alerts (failing_rounds staleAfterMs i rounds s)))
    = length (filter announces (hm_alerts s)) + (if wh_state old = WorkerUnavailable then 0 else 1)"
proof -
  have quiet: "length (filter announces (hm_alerts (failing_rounds staleAfterMs i rounds s))) = length (filter announces (hm_alerts s))"
    if "hosts_ok (hm_db s)" "samples_ahead (hm_db s)" "findWorkerRow i (hm_db s) = Some old" "wh_state old = WorkerUnavailable"
    for rounds s old
    using that
  proof (induction rounds arbitrary: s old)
    case (Cons now later)
    from Cons.prems(1-3) obtain t old' where "failing_rounds staleAfterMs i (now # later) s = failing_rounds staleAfterMs i later t"
      and "hosts_ok (hm_db t)" "samples_ahead (hm_db t)" "findWorkerRow i (hm_db t) = Some old'"
      and "wh_state old' = (if wh_state old = WorkerDraining then WorkerDraining else WorkerUnavailable)"
      and "length (filter announces (hm_alerts t))
       = length (filter announces (hm_alerts s)) + (if wh_state old = WorkerUnavailable then 0 else 1)"
      by (rule failing_round)
    with Cons.IH [of t old'] Cons.prems(4) show ?case by simp
  qed simp
  obtain now later where rounds: "rounds = now # later" using assms(5) by (cases rounds) auto
  from assms(1-3) obtain t old' where "failing_rounds staleAfterMs i (now # later) s = failing_rounds staleAfterMs i later t"
    and "hosts_ok (hm_db t)" "samples_ahead (hm_db t)" "findWorkerRow i (hm_db t) = Some old'"
    and "wh_state old' = (if wh_state old = WorkerDraining then WorkerDraining else WorkerUnavailable)"
    and "length (filter announces (hm_alerts t))
       = length (filter announces (hm_alerts s)) + (if wh_state old = WorkerUnavailable then 0 else 1)"
    by (rule failing_round)
  with quiet [of t old' later] assms(4) show ?thesis by (simp add: rounds)
qed

text \<open>A draining worker breaks that rule: its state stays draining through every report, so every round in which it
  does not answer announces the same outage again.\<close>

theorem draining_worker_alerts_every_round:
  assumes "hosts_ok (hm_db s)" and "samples_ahead (hm_db s)" and "findWorkerRow i (hm_db s) = Some old"
    and "wh_state old = WorkerDraining"
  shows "length (filter announces (hm_alerts (failing_rounds staleAfterMs i rounds s)))
    = length (filter announces (hm_alerts s)) + length rounds"
  using assms
proof (induction rounds arbitrary: s old)
  case (Cons now later)
  from Cons.prems(1-3) obtain t old' where "failing_rounds staleAfterMs i (now # later) s = failing_rounds staleAfterMs i later t"
    and "hosts_ok (hm_db t)" "samples_ahead (hm_db t)" "findWorkerRow i (hm_db t) = Some old'"
    and "wh_state old' = (if wh_state old = WorkerDraining then WorkerDraining else WorkerUnavailable)"
    and "length (filter announces (hm_alerts t))
     = length (filter announces (hm_alerts s)) + (if wh_state old = WorkerUnavailable then 0 else 1)"
    by (rule failing_round)
  with Cons.IH [of t old'] Cons.prems(4) show ?case by simp
qed simp

text \<open>A worker that an administrator drained or disabled gets no new workspace until it is resumed: along every history of
  health reports, placements, deletions, registrations and updates in which nobody resumes it or registers it as
  schedulable, placement never picks it.\<close>

theorem drained_worker_gets_nothing:
  assumes "update_host urlProtocol i req now s = (Inr (Some worker), t)"
    and "uh_action req = Some ActDrain \<or> uh_action req = Some ActDisable"
    and "\<forall>h \<in> set (worker_hosts s). trim (wh_id h) = wh_id h"
    and "(quiet_step i)\<^sup>*\<^sup>* t u"
  shows "\<forall>h. findCandidate oldest memory cpu disk slots u = Some h \<longrightarrow> wh_id h \<noteq> i"
proof -
  from assms(1) obtain current where host: "getWorkerHost i s = Some current"
    by (cases "getWorkerHost i s") (auto simp: update_host_def atomic_def operation_defs)
  obtain a where a: "uh_action req = Some a" "a = ActDrain \<or> a = ActDisable" using assms(2) by auto
  from assms(1) host a(1) obtain v m w where first: "(if changes_host req then upsertWorkerHost urlProtocol (merged_host current req) now
                else oreturn current) s = (Inr v, m)" and acted: "apply_action v i a now m = (Inr w, t)"
    by (auto simp: update_host_def)
  have trimmed: "keeps (stays_out (CHR '' '' # k)) (if changes_host req then upsertWorkerHost urlProtocol (merged_host current req) now
                else oreturn current)" for k
  proof -
    have "trim x \<noteq> CHR '' '' # k" for x
    proof
      assume "trim x = CHR '' '' # k"
      then have "trim (CHR '' '' # k) = CHR '' '' # k" by (metis trim_idem)
      then have "length (CHR '' '' # k) \<le> length (dropWhile js_space (CHR '' '' # k))"
        by (metis length_dropWhile_le length_rev trim_def)
      also have "\<dots> \<le> length k" using length_dropWhile_le [of js_space k] by (simp add: js_space_def)
      finally show False by simp
    qed
    then show ?thesis by (intro keeps_intro upsertWorkerHost_stays_out) simp
  qed
  have "stays_out (CHR '' '' # []) s" using assms(3)
    by (auto simp: stays_out_def trim_def js_space_def)
  then have ids: "\<forall>h \<in> set (worker_hosts m). trim (wh_id h) = wh_id h"
    using keepsD [OF trimmed [of "[]"] _ first] by (simp add: stays_out_def)
  from acted a(2) have "stays_out i t" by (elim disjE) (auto intro: unscheduled_stays_out [OF _ ids])
  with taken_out.run_inv [OF assms(4)] have "stays_out i u" by blast
  then have "wh_schedulable h = 0" if "h \<in> set (worker_hosts u)" "wh_id h = i" for h
    using that by (simp add: stays_out_def)
  with findCandidate_SomeD(1,2) show ?thesis by (fastforce simp: is_candidate_def)
qed

section \<open>The properties on a concrete fleet\<close>

definition watched_fleet :: health_monitor where
  "watched_fleet = \<lparr>hm_db = fleet_db, hm_staleWorkers = {}, hm_alerts = []\<rparr>"

definition ready_capacity :: reported_capacity where
  "ready_capacity = \<lparr>cap_totalMemoryBytes = JInt 100, cap_reservedMemoryBytes = JInt 0, cap_totalCpuMillis = JInt 100,
     cap_reservedCpuMillis = JInt 0, cap_totalDiskBytes = JInt 100, cap_reservedDiskBytes = JInt 0,
     cap_totalWorkspaceSlots = JInt 2, cap_reservedWorkspaceSlots = JInt 0\<rparr>"

definition host_a :: worker_host_row where
  "host_a = (new_host_row ''h1'' ''a'' ''p'' ''r'' ''http://a'' ''k'' 100 100 100 2 None None 1)
     \<lparr>wh_state := WorkerHealthy, wh_last_heartbeat_at := Some 10\<rparr>"

definition host_b :: worker_host_row where
  "host_b = (new_host_row ''h2'' ''b'' ''p'' ''r'' ''http://b'' ''k'' 100 100 100 2 None None 1)
     \<lparr>wh_state := WorkerDraining, wh_last_heartbeat_at := Some 10\<rparr>"

lemma watched_facts:
  "hosts_ok (hm_db watched_fleet)" "samples_ahead (hm_db watched_fleet)" "worker_hosts (hm_db watched_fleet) = [host_a, host_b]"
  "findWorkerRow ''h1'' (hm_db watched_fleet) = Some host_a" "findWorkerRow ''h2'' (hm_db watched_fleet) = Some host_b"
  "wh_state host_a = WorkerHealthy" "wh_state host_b = WorkerDraining" "wh_id host_a = ''h1''" "wh_id host_b = ''h2''"
  "hm_alerts watched_fleet = []"
  using fleet_db_inv
  by (simp_all add: watched_fleet_def fleet_inv_def samples_ahead_def fleet_db_def sample_db_def empty_db_def findWorkerRow_def
      host_a_def host_b_def new_host_row_def)

theorem poll_round_settles_fleet_witness:
  "\<exists>row. findWorkerRow ''h1'' (hm_db (poll_hosts 30000
       [(toWorkerHost host_b, Inl ProbeTimeout, 20), (toWorkerHost host_a, Inr (True, ready_capacity), 21)] watched_fleet)) = Some row
     \<and> wh_state row = WorkerHealthy \<and> wh_last_heartbeat_at row = Some 21"
proof -
  let ?polls = "[(toWorkerHost host_b, Inl ProbeTimeout, 20), (toWorkerHost host_a, Inr (True, ready_capacity), 21)]"
  have ids: "host_id (toWorkerHost host_a) = ''h1''" "host_id (toWorkerHost host_b) = ''h2''"
    by (simp_all add: toWorkerHost_def watched_facts)
  have "mset (map fst ?polls) = mset (listWorkerHosts (hm_db watched_fleet))"
    by (simp add: listWorkerHosts_def watched_facts add_mset_commute)
  from poll_round_settles_fleet [OF watched_facts(1,2) this, of host_a 30000 0 0 0 0 0] obtain probe now where
    poll: "(toWorkerHost host_a, probe, now) \<in> set ?polls"
    and row: "findWorkerRow ''h1'' (hm_db (poll_hosts 30000 ?polls watched_fleet))
        = Some (health_row (probe_report (toWorkerHost host_a) probe) now host_a)"
    by (auto simp: watched_facts)
  have "toWorkerHost host_a \<noteq> toWorkerHost host_b" using ids by auto
  with poll have "probe = Inr (True, ready_capacity)" "now = 21" by auto
  moreover have "probe_report (toWorkerHost host_a) (Inr (True, ready_capacity)) = healthy_report ''h1'' ready_capacity"
    by (simp add: probe_report_def capacity_matches_def ready_capacity_def toWorkerHost_def host_a_def new_host_row_def
        check_capacity_def nonNegativeInteger_def is_safe_int_def MAX_SAFE_INTEGER_def)
  ultimately show ?thesis
    using row by (simp add: health_row_def healthy_report_def Let_def watched_facts)
qed

theorem outage_announced_once_witness:
  "length (filter announces (hm_alerts (failing_rounds 30000 ''h1'' [20, 30, 40] watched_fleet))) = 1"
  using outage_announced_once [OF watched_facts(1,2,4), of "[20, 30, 40]" 30000] by (simp add: watched_facts)

theorem draining_worker_alerts_every_round_witness:
  "length (filter announces (hm_alerts (failing_rounds 30000 ''h2'' [20, 30, 40] watched_fleet))) = 3"
  using draining_worker_alerts_every_round [OF watched_facts(1,2,5), of 30000 "[20, 30, 40]"] by (simp add: watched_facts)

definition drain_request :: update_host_request where
  "drain_request = \<lparr>uh_name = None, uh_provider = None, uh_region = None, uh_baseURL = None, uh_credentialKeyId = None,
     uh_capacity = None, uh_action = Some ActDrain, uh_reason = None\<rparr>"

theorem drained_worker_gets_nothing_witness:
  "\<exists>worker t u. update_host (\<lambda>_. None) ''h1'' drain_request 20 fleet_db = (Inr (Some worker), t)
     \<and> quiet_step ''h1'' t u \<and> findCandidate 0 1 1 1 1 u \<noteq> Some host_a"
proof -
  have "\<exists>worker t. update_host (\<lambda>_. None) ''h1'' drain_request 20 fleet_db = (Inr (Some worker), t)"
    by (simp add: update_host_def drain_request_def changes_host_def getWorkerHost_def findWorkerRow_def fleet_db_def sample_run
        new_host_row_def setWorkerHostScheduling_def update_in_def sql_update_def worker_host_schema_def set_worker_hosts_def
        flag_ok_def)
  then obtain worker t where run: "update_host (\<lambda>_. None) ''h1'' drain_request 20 fleet_db = (Inr (Some worker), t)" by blast
  define u where "u = snd (recordWorkerHealth (healthy_report ''h1'' ready_capacity) 30 t)"
  have step: "quiet_step ''h1'' t u" unfolding u_def by (rule quiet_step.health)
  then have "(quiet_step ''h1'')\<^sup>*\<^sup>* t u" by blast
  moreover have "\<forall>h \<in> set (worker_hosts fleet_db). trim (wh_id h) = wh_id h"
    by (simp add: fleet_db_def new_host_row_def trim_def js_space_def)
  ultimately have "\<forall>h. findCandidate 0 1 1 1 1 u = Some h \<longrightarrow> wh_id h \<noteq> ''h1''"
    using drained_worker_gets_nothing [OF run] by (simp add: drain_request_def)
  with run step show ?thesis by (auto simp: watched_facts)
qed

end
