(* ===== verification/Console.thy ===== *)
theory Console
  imports Control Directory "HOL-Library.Sublist"
begin

text \<open>
  The browser console of a workspace: the WebSocket upgrade request (\<open>consoleUpgrade.ts\<close>), the gateway that checks it
  and opens the connection to the worker, and the bridge between the two sockets (\<open>consoleGateway.ts\<close>), as
  \<open>index.ts\<close> wires them together. The URL parser, the keyed digest and what the worker's socket does are parameters.
\<close>

section \<open>Reading the request\<close>

text \<open>
  \<open>decodeURIComponent\<close>: the UTF-8 sequences of one and two bytes that lie in the Latin-1 range of strings; \<open>None\<close>
  where it throws.
\<close>

definition hex_digit_value :: "char \<Rightarrow> nat option" where
  "hex_digit_value c =
     (let n = of_char c :: nat in
      if 48 \<le> n \<and> n \<le> 57 then Some (n - 48) else if 65 \<le> n \<and> n \<le> 70 then Some (n - 55)
      else if 97 \<le> n \<and> n \<le> 102 then Some (n - 87) else None)"

definition hex_byte :: "char \<Rightarrow> char \<Rightarrow> nat option" where
  "hex_byte a b =
     (case (hex_digit_value a, hex_digit_value b) of (Some x, Some y) \<Rightarrow> Some (16 * x + y) | _ \<Rightarrow> None)"

definition decoded_pair :: "nat \<Rightarrow> char \<Rightarrow> char \<Rightarrow> char \<Rightarrow> char option" where
  "decoded_pair first p a b =
     (if first \<in> {194, 195} \<and> p = CHR ''%'' then
        (case hex_byte a b of
           Some second \<Rightarrow> if 128 \<le> second \<and> second < 192 then Some (char_of ((first - 192) * 64 + (second - 128))) else None
         | None \<Rightarrow> None)
      else None)"

fun decodeURIComponent :: "string \<Rightarrow> string option" where
  "decodeURIComponent [] = Some []"
| "decodeURIComponent (c # cs) =
     (if c \<noteq> CHR ''%'' then map_option (\<lambda>r. c # r) (decodeURIComponent cs)
      else (case cs of
        a # b # rest \<Rightarrow>
          (case hex_byte a b of
             None \<Rightarrow> None
           | Some x \<Rightarrow>
               if x < 128 then map_option (\<lambda>r. char_of x # r) (decodeURIComponent rest)
               else (case rest of
                 p # d # e # rest' \<Rightarrow>
                   (case decoded_pair x p d e of
                      None \<Rightarrow> None
                    | Some y \<Rightarrow> map_option (\<lambda>r. y # r) (decodeURIComponent rest'))
               | _ \<Rightarrow> None))
      | _ \<Rightarrow> None))"

fun digits_value :: "nat \<Rightarrow> string \<Rightarrow> nat" where
  "digits_value n [] = n"
| "digits_value n (c # cs) = digits_value (10 * n + (of_char c - 48)) cs"

definition dimension :: "string option \<Rightarrow> nat \<Rightarrow> nat \<Rightarrow> nat option" where
  "dimension v fallback maximum =
     (case truthy v of
        None \<Rightarrow> Some fallback
      | Some s \<Rightarrow>
          if \<not> list_all is_digit s then None
          else let parsed = digits_value 0 s in if 1 \<le> parsed \<and> parsed \<le> maximum then Some parsed else None)"

definition terminal_pattern :: "string \<Rightarrow> bool" where
  "terminal_pattern s \<longleftrightarrow> 1 \<le> length s \<and> length s \<le> 48
     \<and> list_all (\<lambda>c. is_lower_letter c \<or> is_digit c \<or> c = CHR ''-'') s"

definition console_terminal :: "string option \<Rightarrow> string" where
  "console_terminal v = (case trim_or_null v of None \<Rightarrow> ''terminal-1'' | Some t \<Rightarrow> t)"

section \<open>Opening a console\<close>

record console_environment =
  ce_entitlementsRequired :: bool
  ce_secrets :: "string \<Rightarrow> string option"
  ce_parseURL :: "string \<Rightarrow> (string \<times> string) option"
  ce_sign :: "string \<Rightarrow> string \<Rightarrow> string"

record console_call =
  cc_url :: string
  cc_authorization :: string
  cc_actorId :: string

datatype console_reply =
    ConsoleError nat string bool
  | ConsoleBridge console_call

definition console_path :: "string \<Rightarrow> string" where
  "console_path workerWorkspaceId = ''/internal/v1/workspaces/'' @ encodeURIComponent workerWorkspaceId @ ''/console''"

text \<open>\<open>ce_parseURL\<close> gives protocol and host of \<open>new URL(workerURL)\<close>.\<close>

definition webSocketWorkerURL ::
  "(string \<Rightarrow> (string \<times> string) option) \<Rightarrow> string \<Rightarrow> string \<Rightarrow> nat \<Rightarrow> nat \<Rightarrow> string \<Rightarrow> db_error + string"
where
  "webSocketWorkerURL parseURL workerURL workerWorkspaceId rows columns terminalId =
     (case parseURL workerURL of
        None \<Rightarrow> Inl (JsTypeError ''Invalid URL'')
      | Some (protocol, host) \<Rightarrow>
          sbind (if protocol = ''http:'' then Inr ''ws:'' else if protocol = ''https:'' then Inr ''wss:''
                 else Inl (JsError ''Worker URL must use HTTP or HTTPS'')) (\<lambda>scheme.
          Inr (scheme @ ''//'' @ host @ console_path workerWorkspaceId @ ''?rows='' @ show_nat rows @ ''&columns=''
            @ show_nat columns @ ''&terminal_id='' @ terminalId)))"

definition console_call_for ::
  "console_environment \<Rightarrow> string \<Rightarrow> string \<Rightarrow> string \<Rightarrow> nat \<Rightarrow> nat \<Rightarrow> string \<Rightarrow> int \<Rightarrow> string \<Rightarrow> cloud_db
     \<Rightarrow> db_error + console_call"
where
  "console_call_for env workspaceId workerWorkspaceId actorId rows columns terminalId now nonce db =
     sbind (connectionForWorkspace (ce_secrets env) workspaceId db) (\<lambda>c.
     sbind (webSocketWorkerURL (ce_parseURL env) (wcn_baseURL c) workerWorkspaceId rows columns terminalId) (\<lambda>url.
     sbind (workerAuthorizationHeader (ce_sign env) (wcn_token c) ''GET'' (console_path workerWorkspaceId) now nonce) (\<lambda>authorization.
     Inr \<lparr>cc_url = url, cc_authorization = authorization, cc_actorId = take 256 actorId\<rparr>)))"

record console_input =
  csi_workspaceId :: string
  csi_userId :: string
  csi_organizationId :: string
  csi_rows :: "string option"
  csi_columns :: "string option"
  csi_terminalId :: "string option"

text \<open>\<open>connects call\<close>: the worker's socket opens. The actor is the user himself.\<close>

definition prepare_console ::
  "console_environment \<Rightarrow> (console_call \<Rightarrow> bool) \<Rightarrow> console_input \<Rightarrow> int \<Rightarrow> string \<Rightarrow> cloud_db \<Rightarrow> console_reply"
where
  "prepare_console env connects inp now nonce db =
     (case (dimension (csi_rows inp) 24 500, dimension (csi_columns inp) 80 1000) of
        (Some rows, Some columns) \<Rightarrow>
          let terminalId = console_terminal (csi_terminalId inp) in
          if \<not> terminal_pattern terminalId then ConsoleError 400 ''invalid_terminal_id'' False
          else (case resolveEntitledWorkspaceAccess (ce_entitlementsRequired env) (csi_workspaceId inp) (csi_userId inp)
                       (csi_organizationId inp) now db of
              None \<Rightarrow> ConsoleError 404 ''workspace_not_found'' False
            | Some w \<Rightarrow>
                (case (pw_state w, truthy (pw_workerWorkspaceId w)) of
                   (WsReady, Some workerWorkspaceId) \<Rightarrow>
                     (case console_call_for env (pw_id w) workerWorkspaceId (csi_userId inp) rows columns terminalId now nonce db of
                        Inl _ \<Rightarrow> ConsoleError 502 ''console_unavailable'' True
                      | Inr call \<Rightarrow>
                          if connects call then ConsoleBridge call else ConsoleError 502 ''console_unavailable'' True)
                 | _ \<Rightarrow> ConsoleError 409 ''workspace_not_ready'' True))
      | _ \<Rightarrow> ConsoleError 400 ''invalid_console_size'' False)"

record upgrade_request =
  ur_upgrade :: "string option"
  ur_origin :: "string option"
  ur_encodedWorkspaceId :: string
  ur_encodedTerminalId :: "string option"
  ur_rows :: "string option"
  ur_columns :: "string option"
  ur_terminalId :: "string option"

definition prepareConsoleUpgrade ::
  "string list \<Rightarrow> auth_session option \<Rightarrow> (console_input \<Rightarrow> console_reply) option \<Rightarrow> upgrade_request \<Rightarrow> console_reply"
where
  "prepareConsoleUpgrade trustedOrigins session gateway req =
     (if map_option toLowerCase (ur_upgrade req) \<noteq> Some ''websocket''
      then ConsoleError 426 ''websocket_upgrade_required'' False
      else case truthy (ur_origin req) of
        None \<Rightarrow> ConsoleError 403 ''origin_not_allowed'' False
      | Some origin \<Rightarrow>
        if origin \<notin> set trustedOrigins then ConsoleError 403 ''origin_not_allowed'' False
        else case session of
          None \<Rightarrow> ConsoleError 401 ''authentication_required'' False
        | Some s \<Rightarrow>
          (case truthy (as_activeOrganizationId s) of
             None \<Rightarrow> ConsoleError 403 ''active_organization_required'' False
           | Some organizationId \<Rightarrow>
             (case gateway of
                None \<Rightarrow> ConsoleError 503 ''console_gateway_unavailable'' True
              | Some prepare \<Rightarrow>
                (case decodeURIComponent (ur_encodedWorkspaceId req) of
                   None \<Rightarrow> ConsoleError 400 ''invalid_request'' False
                 | Some workspaceId \<Rightarrow>
                   if trim workspaceId = [] then ConsoleError 400 ''invalid_request'' False
                   else
                     (case (case truthy (ur_encodedTerminalId req) of
                              None \<Rightarrow> Some None
                            | Some t \<Rightarrow> map_option Some (decodeURIComponent t)) of
                        None \<Rightarrow> ConsoleError 400 ''invalid_request'' False
                      | Some terminalId \<Rightarrow>
                          prepare \<lparr>csi_workspaceId = workspaceId, csi_userId = as_userId s,
                            csi_organizationId = organizationId, csi_rows = ur_rows req, csi_columns = ur_columns req,
                            csi_terminalId = (case terminalId of None \<Rightarrow> ur_terminalId req | Some t \<Rightarrow> Some t)\<rparr>)))))"

text \<open>The wiring of \<open>index.ts\<close>: the session is handed on as Better Auth keeps it.\<close>

definition open_console ::
  "console_environment \<Rightarrow> string list \<Rightarrow> (console_call \<Rightarrow> bool) \<Rightarrow> auth_session option \<Rightarrow> upgrade_request \<Rightarrow> int \<Rightarrow> string
     \<Rightarrow> cloud_db \<Rightarrow> console_reply"
where
  "open_console env trustedOrigins connects session req now nonce db =
     prepareConsoleUpgrade trustedOrigins session (Some (\<lambda>inp. prepare_console env connects inp now nonce db)) req"

section \<open>The bridge between the two sockets\<close>

datatype payload = PayText string | PayBytes "nat list"

definition payloadSize :: "payload \<Rightarrow> nat" where
  "payloadSize p = (case p of PayText t \<Rightarrow> length (buffer_from t) | PayBytes bs \<Rightarrow> length bs)"

definition maximumPendingBytes :: nat where
  "maximumPendingBytes = 1024 * 1024"

datatype socket_state = SockConnecting | SockOpen | SockClosing | SockClosed

text \<open>
  The browser's socket is absent, attached, or gone after its close. Besides the fields of \<open>ConsoleBridgeData\<close> the
  record keeps what each socket was told: payloads sent and close calls.
\<close>

datatype browser_phase = BrowserAwaited | BrowserAttached | BrowserGone

record console_bridge =
  cb_upstream :: socket_state
  cb_browser :: browser_phase
  cb_pending :: "payload list"
  cb_pendingBytes :: nat
  cb_upstreamClosed :: "(nat \<times> string) option"
  cb_received :: "payload list"
  cb_delivered :: "payload list"
  cb_browserCloses :: "(nat \<times> string) list"
  cb_forwarded :: "payload list"
  cb_upstreamCloses :: "(nat \<times> string) list"

definition new_bridge :: console_bridge where
  "new_bridge = \<lparr>cb_upstream = SockOpen, cb_browser = BrowserAwaited, cb_pending = [], cb_pendingBytes = 0,
     cb_upstreamClosed = None, cb_received = [], cb_delivered = [], cb_browserCloses = [], cb_forwarded = [],
     cb_upstreamCloses = []\<rparr>"

text \<open>\<open>socket.close(code, reason)\<close> of the upstream socket.\<close>

definition close_upstream :: "nat \<Rightarrow> string \<Rightarrow> console_bridge \<Rightarrow> console_bridge" where
  "close_upstream code reason b =
     b\<lparr>cb_upstream := (if cb_upstream b = SockClosed then SockClosed else SockClosing),
       cb_upstreamCloses := cb_upstreamCloses b @ [(code, reason)]\<rparr>"

definition close_browser :: "nat \<Rightarrow> string \<Rightarrow> console_bridge \<Rightarrow> console_bridge" where
  "close_browser code reason b =
     (if cb_browser b = BrowserAttached then b\<lparr>cb_browserCloses := cb_browserCloses b @ [(code, reason)]\<rparr> else b)"

definition upstream_message :: "payload \<Rightarrow> console_bridge \<Rightarrow> console_bridge" where
  "upstream_message p b0 =
     (let b = b0\<lparr>cb_received := cb_received b0 @ [p]\<rparr> in
      if cb_browser b = BrowserAttached then b\<lparr>cb_delivered := cb_delivered b @ [p]\<rparr>
      else
        let bytes = cb_pendingBytes b + payloadSize p; c = b\<lparr>cb_pendingBytes := bytes\<rparr> in
        if bytes > maximumPendingBytes
        then close_upstream 1013 ''Console output backpressure'' (c\<lparr>cb_pending := []\<rparr>)
        else c\<lparr>cb_pending := cb_pending c @ [p]\<rparr>)"

definition upstream_close :: "nat \<Rightarrow> string \<Rightarrow> console_bridge \<Rightarrow> console_bridge" where
  "upstream_close code reason b =
     (let closed = (if code = 0 then 1000 else code, take 120 reason) in
      close_browser (fst closed) (snd closed) (b\<lparr>cb_upstream := SockClosed, cb_upstreamClosed := Some closed\<rparr>))"

definition upstream_error :: "console_bridge \<Rightarrow> console_bridge" where
  "upstream_error b = close_browser 1011 ''Console upstream error'' b"

definition attachConsoleBrowser :: "console_bridge \<Rightarrow> console_bridge" where
  "attachConsoleBrowser b =
     (let c = b\<lparr>cb_browser := BrowserAttached, cb_delivered := cb_delivered b @ cb_pending b, cb_pending := [],
                cb_pendingBytes := 0\<rparr> in
      case cb_upstreamClosed c of None \<Rightarrow> c | Some (code, reason) \<Rightarrow> close_browser code reason c)"

definition forwardConsoleInput :: "payload \<Rightarrow> console_bridge \<Rightarrow> console_bridge" where
  "forwardConsoleInput p b =
     (if cb_upstream b \<noteq> SockOpen then close_browser 1011 ''Console upstream unavailable'' b
      else b\<lparr>cb_forwarded := cb_forwarded b @ [p]\<rparr>)"

definition closeConsoleBridge :: "nat \<Rightarrow> string \<Rightarrow> console_bridge \<Rightarrow> console_bridge" where
  "closeConsoleBridge code reason b =
     (let c = b\<lparr>cb_browser := BrowserGone\<rparr> in
      if cb_upstream c \<in> {SockOpen, SockConnecting} then close_upstream code (take 120 reason) c else c)"

text \<open>The events of the two sockets; a browser is attached once, and a failed upgrade closes the bridge without one.\<close>

inductive bridge_step :: "console_bridge \<Rightarrow> console_bridge \<Rightarrow> bool" where
  message: "cb_upstream b \<noteq> SockClosed \<Longrightarrow> bridge_step b (upstream_message p b)"
| upstream_closes: "cb_upstream b \<noteq> SockClosed \<Longrightarrow> bridge_step b (upstream_close code reason b)"
| upstream_fails: "bridge_step b (upstream_error b)"
| attach: "cb_browser b = BrowserAwaited \<Longrightarrow> bridge_step b (attachConsoleBrowser b)"
| typed: "cb_browser b = BrowserAttached \<Longrightarrow> bridge_step b (forwardConsoleInput p b)"
| disconnect: "cb_browser b = BrowserAttached \<Longrightarrow> bridge_step b (closeConsoleBridge 1000 ''Browser disconnected'' b)"
| upgrade_failed: "cb_browser b = BrowserAwaited \<Longrightarrow> bridge_step b (closeConsoleBridge 1011 ''Browser upgrade failed'' b)"

section \<open>The bridge loses nothing and holds little\<close>

definition sizes :: "payload list \<Rightarrow> nat" where
  "sizes ps = sum_list (map payloadSize ps)"

definition overflowed :: "console_bridge \<Rightarrow> bool" where
  "overflowed b \<longleftrightarrow> (1013, ''Console output backpressure'') \<in> set (cb_upstreamCloses b)"

definition bridge_inv :: "console_bridge \<Rightarrow> bool" where
  "bridge_inv b \<longleftrightarrow>
     sizes (cb_pending b) \<le> cb_pendingBytes b \<and> sizes (cb_pending b) \<le> maximumPendingBytes
     \<and> (cb_browser b = BrowserAwaited \<longrightarrow> cb_delivered b = [])
     \<and> (cb_browser b = BrowserAttached \<longrightarrow> cb_pending b = [])
     \<and> subseq (cb_delivered b @ cb_pending b) (cb_received b)
     \<and> (\<not> overflowed b \<longrightarrow> cb_delivered b @ cb_pending b = cb_received b)
     \<and> (overflowed b \<longrightarrow> cb_upstream b \<in> {SockClosing, SockClosed})
     \<and> (cb_upstream b = SockClosed \<longleftrightarrow> cb_upstreamClosed b \<noteq> None)
     \<and> (cb_browser b = BrowserAttached \<longrightarrow>
          (\<forall>closed. cb_upstreamClosed b = Some closed \<longrightarrow> closed \<in> set (cb_browserCloses b)))"

lemma sizes_simps [simp]: "sizes [] = 0" "sizes (ps @ [p]) = sizes ps + payloadSize p"
  by (simp_all add: sizes_def)

lemmas bridge_defs = upstream_message_def upstream_close_def upstream_error_def attachConsoleBrowser_def
  forwardConsoleInput_def closeConsoleBridge_def close_upstream_def close_browser_def Let_def

lemma message_inv:
  assumes "bridge_inv b" and "cb_upstream b \<noteq> SockClosed"
  shows "bridge_inv (upstream_message p b)"
proof (cases "cb_browser b = BrowserAttached")
  case True
  moreover from True assms(1) have "cb_pending b = []" by (simp add: bridge_inv_def)
  ultimately show ?thesis using assms by (simp add: bridge_inv_def upstream_message_def Let_def overflowed_def)
next
  case False
  have order: "subseq (cb_delivered b @ cb_pending b) (cb_received b)" using assms(1) by (simp add: bridge_inv_def)
  show ?thesis
  proof (cases "cb_pendingBytes b + payloadSize p > maximumPendingBytes")
    case True
    have "subseq (cb_delivered b) (cb_received b)"
      by (rule subseq_order.trans [OF prefix_imp_subseq order]) (simp add: prefix_def)
    then have "subseq (cb_delivered b) (cb_received b @ [p])" by (rule subseq_rev_drop_many)
    with assms False True show ?thesis
      by (simp add: bridge_inv_def upstream_message_def Let_def overflowed_def close_upstream_def)
  next
    case fits: False
    from order have "subseq ((cb_delivered b @ cb_pending b) @ [p]) (cb_received b @ [p])" by (simp only: subseq_append)
    then have "subseq (cb_delivered b @ cb_pending b @ [p]) (cb_received b @ [p])" by (simp only: append_assoc)
    moreover have "cb_delivered b @ cb_pending b @ [p] = cb_received b @ [p]" if "cb_delivered b @ cb_pending b = cb_received b"
      using that by (simp flip: append_assoc)
    ultimately show ?thesis using assms False fits
      by (simp add: bridge_inv_def upstream_message_def Let_def overflowed_def)
  qed
qed

lemma upstream_close_inv: "bridge_inv b \<Longrightarrow> bridge_inv (upstream_close code reason b)"
  by (auto simp: bridge_inv_def upstream_close_def close_browser_def Let_def overflowed_def)

lemma upstream_error_inv: "bridge_inv b \<Longrightarrow> bridge_inv (upstream_error b)"
  by (auto simp: bridge_inv_def upstream_error_def close_browser_def overflowed_def)

lemma attach_inv: "bridge_inv b \<Longrightarrow> bridge_inv (attachConsoleBrowser b)"
  by (cases "cb_upstreamClosed b")
    (auto simp: bridge_inv_def attachConsoleBrowser_def close_browser_def Let_def overflowed_def)

lemma forward_inv: "bridge_inv b \<Longrightarrow> bridge_inv (forwardConsoleInput p b)"
  by (auto simp: bridge_inv_def forwardConsoleInput_def close_browser_def overflowed_def)

lemma close_inv:
  assumes "bridge_inv b" and "code \<noteq> 1013"
  shows "bridge_inv (closeConsoleBridge code reason b)"
  using assms by (auto simp: bridge_inv_def closeConsoleBridge_def close_upstream_def Let_def overflowed_def)

lemma bridge_step_inv: "bridge_step b c \<Longrightarrow> bridge_inv b \<Longrightarrow> bridge_inv c"
  by (induction rule: bridge_step.induct)
    (simp_all add: message_inv upstream_close_inv upstream_error_inv attach_inv forward_inv close_inv)

interpretation bridge: invariant_system bridge_step bridge_inv
  by unfold_locales (rule bridge_step_inv)

lemma new_bridge_inv: "bridge_inv new_bridge"
  by (simp add: bridge_inv_def new_bridge_def overflowed_def)

section \<open>Escaped identifiers\<close>

lemma hex_digit_back: "n < 16 \<Longrightarrow> hex_digit_value (hex_digit n) = Some n"
  by (auto simp: hex_digit_value_def hex_digit_def Let_def)

lemma hex_byte_back: "n < 256 \<Longrightarrow> hex_byte (hex_digit (n div 16)) (hex_digit (n mod 16)) = Some n"
  by (simp add: hex_byte_def hex_digit_back)

lemma decode_unreserved: "uri_unreserved c \<Longrightarrow> decodeURIComponent (c # cs) = map_option (\<lambda>r. c # r) (decodeURIComponent cs)"
  by (auto simp: uri_unreserved_def is_lower_letter_def is_upper_letter_def is_digit_def less_eq_char_def)

lemma decode_escaped:
  assumes "\<not> uri_unreserved c"
  shows "decodeURIComponent (concat (map (\<lambda>b. [CHR ''%'', hex_digit (b div 16), hex_digit (b mod 16)]) (utf8_bytes c)) @ cs)
    = map_option (\<lambda>r. c # r) (decodeURIComponent cs)"
proof (cases "(of_char c :: nat) < 128")
  case True
  then show ?thesis by (simp add: utf8_bytes_def Let_def hex_byte_back)
next
  case False
  let ?n = "of_char c :: nat"
  let ?a = "192 + ?n div 64" and ?b = "128 + ?n mod 64"
  have n: "?n < 256" by simp
  have "2 \<le> ?n div 64" using False by simp
  moreover have "?n div 64 < 4" by (rule less_mult_imp_div_less) (use n in simp)
  ultimately have "?n div 64 = 2 \<or> ?n div 64 = 3" by linarith
  then have a: "?a < 256" "?a \<in> {194, 195}" "\<not> ?a < 128" by auto
  have b: "?b < 256" "128 \<le> ?b" "?b < 192" by auto
  have "decoded_pair ?a (CHR ''%'') (hex_digit (?b div 16)) (hex_digit (?b mod 16)) = Some c"
    using a b hex_byte_back [OF b(1)] by (simp add: decoded_pair_def)
  then show ?thesis
    using False a hex_byte_back [OF a(1)] by (simp add: utf8_bytes_def Let_def)
qed

section \<open>Accepted upgrades\<close>

lemma truthy_Some: "truthy v = Some x \<longleftrightarrow> v = Some x \<and> x \<noteq> []"
  by (auto simp: truthy_def)

lemma upgraded:
  assumes "prepareConsoleUpgrade trustedOrigins session (Some prepare) req = ConsoleBridge call"
  obtains s g origin i inp where "session = Some s" and "as_activeOrganizationId s = Some g"
    and "ur_origin req = Some origin" and "origin \<in> set trustedOrigins"
    and "decodeURIComponent (ur_encodedWorkspaceId req) = Some i"
    and "csi_workspaceId inp = i" and "csi_userId inp = as_userId s" and "csi_organizationId inp = g"
    and "prepare inp = ConsoleBridge call"
proof -
  from assms obtain origin where origin: "truthy (ur_origin req) = Some origin" "origin \<in> set trustedOrigins"
    by (auto simp: prepareConsoleUpgrade_def split: if_splits option.splits)
  from assms obtain s g where s: "session = Some s" "truthy (as_activeOrganizationId s) = Some g"
    by (auto simp: prepareConsoleUpgrade_def split: if_splits option.splits)
  from assms s origin obtain i where i: "decodeURIComponent (ur_encodedWorkspaceId req) = Some i" "trim i \<noteq> []"
    by (auto simp: prepareConsoleUpgrade_def split: if_splits option.splits)
  from assms s origin i obtain terminal where run:
    "prepare \<lparr>csi_workspaceId = i, csi_userId = as_userId s, csi_organizationId = g, csi_rows = ur_rows req,
       csi_columns = ur_columns req, csi_terminalId = terminal\<rparr> = ConsoleBridge call"
    by (auto simp: prepareConsoleUpgrade_def split: if_splits option.splits)
  from s origin have "as_activeOrganizationId s = Some g" "ur_origin req = Some origin" by (simp_all add: truthy_Some)
  from that [OF s(1) this origin(2) i(1) _ _ _ run] show thesis by simp
qed

section \<open>A member is disabled\<close>

lemma disabled_lookups:
  assumes "t = set_member_states rows s"
  shows "resolveWorkspaceAccess i u g t = resolveWorkspaceAccess i u g s" "getWorkspaceById i t = getWorkspaceById i s"
    "connectionForWorkspace secrets i t = connectionForWorkspace secrets i s"
    "members t = members s" "entitlements t = entitlements s" "find_membership u g t = find_membership u g s"
proof -
  show "members t = members s" "entitlements t = entitlements s" "find_membership u g t = find_membership u g s"
    by (simp_all add: assms set_member_states_def find_membership_def)
  show get: "getWorkspaceById i t = getWorkspaceById i s"
    by (simp add: assms getWorkspaceById_def findWorkspace_def set_member_states_def)
  show "resolveWorkspaceAccess i u g t = resolveWorkspaceAccess i u g s"
    by (simp add: assms resolveWorkspaceAccess_def set_member_states_def)
  have "getWorkerHost h t = getWorkerHost h s" for h
    by (simp add: assms getWorkerHost_def findWorkerRow_def set_member_states_def)
  then show "connectionForWorkspace secrets i t = connectionForWorkspace secrets i s"
    unfolding connectionForWorkspace_def assigned_def get by (simp split: option.split)
qed

lemma other_entitlement_kept:
  assumes "\<And>x. x \<noteq> mid \<Longrightarrow> member_disabled x t = member_disabled x s" and "members t = members s"
    and "entitlements t = entitlements s" and "trim i \<noteq> mid"
  shows "hasActiveOperatorEntitlement i g now t = hasActiveOperatorEntitlement i g now s"
proof -
  have "(en_membership_id e = trim i \<and> en_organization_id e = trim g \<and> entitled_row n e
      \<and> list_ex (\<lambda>m. mb_id m = en_membership_id e \<and> mb_organizationId m = en_organization_id e
          \<and> member_disabled (mb_id m) t = 0) (members s))
    = (en_membership_id e = trim i \<and> en_organization_id e = trim g \<and> entitled_row n e
      \<and> list_ex (\<lambda>m. mb_id m = en_membership_id e \<and> mb_organizationId m = en_organization_id e
          \<and> member_disabled (mb_id m) s = 0) (members s))" for e n
    using assms(1) [OF assms(4)] by (auto simp: list_ex_iff)
  then show ?thesis unfolding hasActiveOperatorEntitlement_def assms(2,3) by simp
qed

section \<open>Properties\<close>

text \<open>The identifier of a workspace survives the path of a request: decoding what \<open>encodeURIComponent\<close> wrote gives it
  back, for every string of the Latin-1 range.\<close>

theorem decode_encode: "decodeURIComponent (encodeURIComponent s) = Some s"
proof (induction s)
  case (Cons c s)
  then show ?case
    using decode_unreserved [of c "encodeURIComponent s"] decode_escaped [of c "encodeURIComponent s"]
    by (simp add: encodeURIComponent_def)
qed (simp add: encodeURIComponent_def)

text \<open>The console shows what the worker printed: in every reachable state of a bridge the browser has been given the
  worker's output in its order, each piece at most once, and together with what waits for him all of it unless the
  bridge closed the worker's socket for exceeding the memory it may hold, which is never more than a mebibyte; and a
  browser that is attached when the worker's socket has closed has been closed with its code.\<close>

theorem console_output_in_order:
  assumes "bridge_step\<^sup>*\<^sup>* new_bridge b"
  shows "subseq (cb_delivered b @ cb_pending b) (cb_received b)
    \<and> (\<not> overflowed b \<longrightarrow> cb_delivered b @ cb_pending b = cb_received b)
    \<and> (overflowed b \<longrightarrow> cb_upstream b \<in> {SockClosing, SockClosed})
    \<and> sizes (cb_pending b) \<le> 1048576
    \<and> (cb_browser b = BrowserAttached \<longrightarrow> cb_upstream b = SockClosed \<longrightarrow>
        (\<exists>closed. cb_upstreamClosed b = Some closed \<and> closed \<in> set (cb_browserCloses b)))"
  using bridge.run_inv [OF assms new_bridge_inv] by (auto simp: bridge_inv_def maximumPendingBytes_def)

text \<open>A console is opened only for a trusted origin, a signed-in user with an active organization, and a ready
  workspace of that organization that is his own or that his role lets him administer, whose operator is entitled where
  that is required.\<close>

theorem console_needs_access:
  assumes "open_console env trustedOrigins connects session req now nonce db = ConsoleBridge call"
  shows "\<exists>s g origin i w. session = Some s \<and> as_activeOrganizationId s = Some g
    \<and> ur_origin req = Some origin \<and> origin \<in> set trustedOrigins
    \<and> decodeURIComponent (ur_encodedWorkspaceId req) = Some i \<and> getWorkspaceById i db \<noteq> None
    \<and> resolveWorkspaceAccess i (as_userId s) g db = Some w \<and> pw_state w = WsReady
    \<and> (\<exists>m \<in> set (members db). mb_userId m = as_userId s \<and> mb_organizationId m = g
         \<and> (mb_id m = pw_memberId w \<or> is_admin_role (mb_role m)))
    \<and> workspaceHasOperatorEntitlement (ce_entitlementsRequired env) (pw_id w) now db"
proof -
  from assms [unfolded open_console_def] obtain s g origin i inp where session: "session = Some s" "as_activeOrganizationId s = Some g"
    and origin: "ur_origin req = Some origin" "origin \<in> set trustedOrigins"
    and i: "decodeURIComponent (ur_encodedWorkspaceId req) = Some i"
    and inp: "csi_workspaceId inp = i" "csi_userId inp = as_userId s" "csi_organizationId inp = g"
    and prepared: "prepare_console env connects inp now nonce db = ConsoleBridge call"
    by (rule upgraded)
  from prepared inp obtain w where w: "resolveEntitledWorkspaceAccess (ce_entitlementsRequired env) i (as_userId s) g now db = Some w"
    and ready: "pw_state w = WsReady"
    by (auto simp: prepare_console_def Let_def split: option.splits if_splits workspace_state.splits)
  from w have access: "resolveWorkspaceAccess i (as_userId s) g db = Some w"
    and entitled: "workspaceHasOperatorEntitlement (ce_entitlementsRequired env) (pw_id w) now db"
    by (auto simp: resolveEntitledWorkspaceAccess_def split: option.splits if_splits)
  from access obtain r where r: "r \<in> set (workspaces db)" "ws_id r = i" "w = toPersonalWorkspace r"
    and m: "\<exists>m \<in> set (members db). mb_userId m = as_userId s \<and> mb_organizationId m = g
         \<and> (mb_id m = ws_member_id r \<or> is_admin_role (mb_role m))"
    by (auto simp: resolveWorkspaceAccess_def list_ex_iff split: if_splits dest!: find_SomeD)
  have "getWorkspaceById i db \<noteq> None"
    using find_ex [OF r(1), of "\<lambda>x. ws_id x = i"] r(2) by (auto simp: getWorkspaceById_def findWorkspace_def)
  moreover have "\<exists>m \<in> set (members db). mb_userId m = as_userId s \<and> mb_organizationId m = g
         \<and> (mb_id m = pw_memberId w \<or> is_admin_role (mb_role m))"
    using m r(3) by (simp add: toPersonalWorkspace_def)
  ultimately show ?thesis using session origin i access ready entitled by blast
qed

text \<open>C21: Disabling a member does not close his console. Every other handler learns from his session that he has no active
  organization any more, but the console is given the session as the authentication library keeps it and looks at his
  membership without its state: whatever console he could open before he was disabled he can open afterwards, unless it
  is his own workspace and operators need an entitlement.\<close>

theorem disabled_member_keeps_console:
  assumes "setOrganizationMemberDisabled admin g (mb_id m) True moment s = (Inr c, t)" and "find_membership v g s = Some m"
    and "as_userId session = v" and "as_activeOrganizationId session = Some g"
    and "\<And>i w. ce_entitlementsRequired env \<Longrightarrow> decodeURIComponent (ur_encodedWorkspaceId req) = Some i
      \<Longrightarrow> getWorkspaceById i s = Some w \<Longrightarrow> trim (pw_memberId w) \<noteq> mb_id m"
  shows "map_option as_activeOrganizationId (resolve_session (Some session) t) = Some None
    \<and> open_console env origins connects (Some session) req now nonce t
        = open_console env origins connects (Some session) req now nonce s"
proof
  note run = setOrganizationMemberDisabled_Inr [OF assms(1)]
  note lookups = disabled_lookups [OF run(2)]
  have "member_disabled (mb_id m) t = 1" using run(1) by simp
  with assms(2) have "\<not> isOrganizationMemberEnabled v g t" by (simp add: isOrganizationMemberEnabled_def lookups)
  with assms(3,4) show "map_option as_activeOrganizationId (resolve_session (Some session) t) = Some None"
    by (simp add: resolve_session_def)
  have same: "prepare_console env connects inp now nonce t = prepare_console env connects inp now nonce s"
    if "decodeURIComponent (ur_encodedWorkspaceId req) = Some (csi_workspaceId inp)" for inp
  proof -
    have id: "pw_id w = csi_workspaceId inp" if "resolveWorkspaceAccess (csi_workspaceId inp) u h s = Some w" for u h w
      using that by (auto simp: resolveWorkspaceAccess_def toPersonalWorkspace_def split: if_splits dest!: find_SomeD)
    have kept: "hasActiveOperatorEntitlement i h n t = hasActiveOperatorEntitlement i h n s" if "trim i \<noteq> mb_id m" for i h n
      by (rule other_entitlement_kept [OF _ lookups(4,5) that]) (simp add: run(1))
    have "workspaceHasOperatorEntitlement (ce_entitlementsRequired env) (csi_workspaceId inp) now t
        = workspaceHasOperatorEntitlement (ce_entitlementsRequired env) (csi_workspaceId inp) now s"
      using assms(5) that by (auto simp: workspaceHasOperatorEntitlement_def lookups(2) kept split: option.split)
    then have entitled: "resolveEntitledWorkspaceAccess (ce_entitlementsRequired env) (csi_workspaceId inp) u h now t
        = resolveEntitledWorkspaceAccess (ce_entitlementsRequired env) (csi_workspaceId inp) u h now s" for u h
      using id by (auto simp: resolveEntitledWorkspaceAccess_def lookups(1) split: option.split)
    show ?thesis unfolding prepare_console_def console_call_for_def lookups(3) entitled ..
  qed
  show "open_console env origins connects (Some session) req now nonce t
        = open_console env origins connects (Some session) req now nonce s"
    unfolding open_console_def prepareConsoleUpgrade_def
    by (auto simp: same split: option.split)
qed

definition console_env :: console_environment where
  "console_env = \<lparr>ce_entitlementsRequired = False, ce_secrets = (\<lambda>_. Some (replicate 32 CHR ''s'')),
     ce_parseURL = (\<lambda>_. Some (''https:'', ''worker'')), ce_sign = (\<lambda>_ _. ''sig'')\<rparr>"

definition console_req :: upgrade_request where
  "console_req = \<lparr>ur_upgrade = Some ''websocket'', ur_origin = Some ''https://app'', ur_encodedWorkspaceId = ''w2'',
     ur_encodedTerminalId = None, ur_rows = None, ur_columns = Some ''120'', ur_terminalId = None\<rparr>"

definition console_session :: auth_session where
  "console_session = \<lparr>as_userId = ''u2'', as_email = ''bob@x.io'', as_activeOrganizationId = Some ''o1''\<rparr>"

definition console_db :: cloud_db where
  "console_db = sample_db
     \<lparr>workspaces := [(new_workspace ''w2'' ''m2'' ''o1'' 5)
        \<lparr>ws_state := WsReady, ws_worker_host_id := Some ''h1'', ws_worker_workspace_id := Some ''w2''\<rparr>],
      worker_hosts := [host_a]\<rparr>"

theorem console_output_in_order_witness:
  "bridge_step\<^sup>*\<^sup>* new_bridge (attachConsoleBrowser (upstream_message (PayText ''hi'') new_bridge))
    \<and> cb_delivered (attachConsoleBrowser (upstream_message (PayText ''hi'') new_bridge)) = [PayText ''hi'']"
proof -
  let ?b = "upstream_message (PayText ''hi'') new_bridge"
  have two: "payloadSize (PayText ''hi'') = 2" by code_simp
  have start: "?b = new_bridge\<lparr>cb_received := [PayText ''hi''], cb_pending := [PayText ''hi''], cb_pendingBytes := payloadSize (PayText ''hi'')\<rparr>"
    by (simp add: upstream_message_def new_bridge_def Let_def two maximumPendingBytes_def)
  have "bridge_step new_bridge ?b" by (rule bridge_step.message) (simp add: new_bridge_def)
  moreover have "bridge_step ?b (attachConsoleBrowser ?b)"
    unfolding start by (rule bridge_step.attach) (simp add: new_bridge_def)
  ultimately have run: "bridge_step\<^sup>*\<^sup>* new_bridge (attachConsoleBrowser ?b)" by simp
  have "cb_received (attachConsoleBrowser ?b) = [PayText ''hi'']" "cb_pending (attachConsoleBrowser ?b) = []"
    "\<not> overflowed (attachConsoleBrowser ?b)"
    unfolding start by (simp_all add: attachConsoleBrowser_def new_bridge_def overflowed_def)
  with console_output_in_order [OF run] run show ?thesis by simp
qed

lemma console_db_facts:
  "find_membership ''u2'' ''o1'' console_db
     = Some \<lparr>mb_id = ''m2'', mb_organizationId = ''o1'', mb_userId = ''u2'', mb_role = ''member'', mb_createdAt = 2\<rparr>"
  "members console_db = members sample_db" "worker_hosts console_db = [host_a]"
  "workspaces console_db = [(new_workspace ''w2'' ''m2'' ''o1'' 5)
     \<lparr>ws_state := WsReady, ws_worker_host_id := Some ''h1'', ws_worker_workspace_id := Some ''w2''\<rparr>]"
  by (simp_all add: console_db_def sample_db_def empty_db_def find_membership_def)

lemma console_opens: "\<exists>call. open_console console_env [''https://app''] (\<lambda>_. True) (Some console_session) console_req 5000
    ''aaaaaaaaaaaaaaaaaaaaaaaaaaaaaaaa'' console_db = ConsoleBridge call"
proof -
  have "case open_console console_env [''https://app''] (\<lambda>_. True) (Some console_session) console_req 5000
      ''aaaaaaaaaaaaaaaaaaaaaaaaaaaaaaaa'' console_db of ConsoleBridge _ \<Rightarrow> True | _ \<Rightarrow> False"
    by code_simp
  then show ?thesis by (simp split: console_reply.splits)
qed

theorem console_needs_access_witness:
  "\<exists>call. open_console console_env [''https://app''] (\<lambda>_. True) (Some console_session) console_req 5000
    ''aaaaaaaaaaaaaaaaaaaaaaaaaaaaaaaa'' console_db = ConsoleBridge call
    \<and> (\<exists>w. resolveWorkspaceAccess ''w2'' ''u2'' ''o1'' console_db = Some w \<and> pw_state w = WsReady)"
proof -
  from console_opens obtain call where opened: "open_console console_env [''https://app''] (\<lambda>_. True) (Some console_session)
    console_req 5000 ''aaaaaaaaaaaaaaaaaaaaaaaaaaaaaaaa'' console_db = ConsoleBridge call" by blast
  have path: "decodeURIComponent (ur_encodedWorkspaceId console_req) = Some ''w2''" by code_simp
  from console_needs_access [OF opened] path opened show ?thesis by (auto simp: console_session_def)
qed

theorem disabled_member_keeps_console_witness:
  "\<exists>c t. setOrganizationMemberDisabled ''u1'' ''o1'' ''m2'' True 9 console_db = (Inr c, t)
    \<and> resolve_session (Some console_session) t = Some (console_session\<lparr>as_activeOrganizationId := None\<rparr>)
    \<and> (\<exists>call. open_console console_env [''https://app''] (\<lambda>_. True) (Some console_session) console_req 5000
         ''aaaaaaaaaaaaaaaaaaaaaaaaaaaaaaaa'' t = ConsoleBridge call)"
proof -
  let ?m = "\<lparr>mb_id = ''m2'', mb_organizationId = ''o1'', mb_userId = ''u2'', mb_role = ''member'', mb_createdAt = 2\<rparr>"
  have "\<exists>c t. setOrganizationMemberDisabled ''u1'' ''o1'' ''m2'' True 9 console_db = (Inr c, t)"
    by (simp add: setOrganizationMemberDisabled_def organization_run console_db_def requireOrganizationAdmin_def
        member_disabled_def upsert_in_def member_state_schema_def set_member_states_def disabled_state_def flag_ok_def
        getOrganizationMembers_def organization_roster_def member_summary_of_def Let_def)
  then obtain c t where run: "setOrganizationMemberDisabled ''u1'' ''o1'' (mb_id ?m) True 9 console_db = (Inr c, t)" by auto
  have session: "as_userId console_session = ''u2''" "as_activeOrganizationId console_session = Some ''o1''"
    by (simp_all add: console_session_def)
  have "\<not> ce_entitlementsRequired console_env" by (simp add: console_env_def)
  with disabled_member_keeps_console [OF run console_db_facts(1) session, of console_env console_req "[''https://app'']"
      "\<lambda>_. True" 5000 "''aaaaaaaaaaaaaaaaaaaaaaaaaaaaaaaa''"]
  have kept: "map_option as_activeOrganizationId (resolve_session (Some console_session) t) = Some None
    \<and> open_console console_env [''https://app''] (\<lambda>_. True) (Some console_session) console_req 5000
        ''aaaaaaaaaaaaaaaaaaaaaaaaaaaaaaaa'' t
      = open_console console_env [''https://app''] (\<lambda>_. True) (Some console_session) console_req 5000
        ''aaaaaaaaaaaaaaaaaaaaaaaaaaaaaaaa'' console_db" by simp
  then have "resolve_session (Some console_session) t = Some (console_session\<lparr>as_activeOrganizationId := None\<rparr>)"
    by (auto simp: resolve_session_def session split: if_splits)
  with kept run console_opens show ?thesis by auto
qed

end
