(* ===== verification/Http.thy ===== *)
theory Http
  imports Console Usage
begin

text \<open>
  The parts of requests and responses that \<open>src/apps/control-plane/src/server.ts\<close> reads and
  writes itself: JSON values and their validation, bounded bodies, the paging cursor of the contact
  inbox and the two CSV exports. The routes that use them are in the theory \<open>Server\<close>.
\<close>

section \<open>JSON values\<close>

datatype json =
    JsonNull | JsonBool bool | JsonNumber js_num | JsonString string
  | JsonArray "json list" | JsonObject "(string \<times> json) list"

text \<open>\<open>value[key]\<close>, \<open>None\<close> for \<open>undefined\<close>. Of equal keys in a text the last one counts.\<close>

fun field :: "string \<Rightarrow> json \<Rightarrow> json option" where
  "field k (JsonObject fs) = map_of (rev fs) k"
| "field k _ = None"

fun isRecord :: "json \<Rightarrow> bool" where
  "isRecord (JsonObject fs) = True"
| "isRecord _ = False"

fun object_keys :: "json \<Rightarrow> string list" where
  "object_keys (JsonObject fs) = remdups (map fst fs)"
| "object_keys _ = []"

definition hasOnlyKeys :: "json \<Rightarrow> string list \<Rightarrow> bool" where
  "hasOnlyKeys v allowed \<longleftrightarrow> list_all (\<lambda>k. k \<in> set allowed) (object_keys v)"

text \<open>\<open>typeof value === 'string'\<close> and so on, with the value.\<close>

fun json_string :: "json option \<Rightarrow> string option" where
  "json_string (Some (JsonString s)) = Some s"
| "json_string _ = None"

fun json_bool :: "json option \<Rightarrow> bool option" where
  "json_bool (Some (JsonBool b)) = Some b"
| "json_bool _ = None"

fun json_number :: "json option \<Rightarrow> js_num option" where
  "json_number (Some (JsonNumber n)) = Some n"
| "json_number _ = None"

text \<open>
  \<open>names.includes(String(value))\<close>: the text of a string is the string, that of an array of one
  element the text of its element; the text of every other value is none of the names tested here.
\<close>

fun text_of :: "json \<Rightarrow> string option" where
  "text_of (JsonString s) = Some s"
| "text_of (JsonArray [v]) = text_of v"
| "text_of _ = None"

section \<open>Validation of requests\<close>

definition isNonEmptyString :: "json option \<Rightarrow> bool" where
  "isNonEmptyString v \<longleftrightarrow> (case json_string v of None \<Rightarrow> False | Some s \<Rightarrow> trim s \<noteq> [])"

definition isPositiveSafeInteger :: "json option \<Rightarrow> bool" where
  "isPositiveSafeInteger v \<longleftrightarrow> (case json_number v of None \<Rightarrow> False | Some n \<Rightarrow> is_safe_integer n \<and> int_value n > 0)"

definition capacity_keys :: "string list" where
  "capacity_keys = [''memoryBytes'', ''cpuMillis'', ''diskBytes'', ''workspaceSlots'']"

definition isWorkerCapacity :: "bool \<Rightarrow> json option \<Rightarrow> bool" where
  "isWorkerCapacity partial value =
     (case value of
        None \<Rightarrow> False
      | Some v \<Rightarrow>
          isRecord v \<and> hasOnlyKeys v capacity_keys \<and> \<not> (partial \<and> object_keys v = [])
          \<and> list_all (\<lambda>k. (partial \<and> field k v = None) \<or> isPositiveSafeInteger (field k v)) capacity_keys)"

definition optional_bool :: "json option \<Rightarrow> bool" where
  "optional_bool v \<longleftrightarrow> v = None \<or> json_bool v \<noteq> None"

definition isRegisterWorkerHostRequest :: "json \<Rightarrow> bool" where
  "isRegisterWorkerHostRequest v \<longleftrightarrow>
     isRecord v
     \<and> hasOnlyKeys v [''id'', ''name'', ''provider'', ''region'', ''baseURL'', ''credentialKeyId'', ''capacity'',
         ''enabled'', ''schedulable'']
     \<and> list_all (\<lambda>k. isNonEmptyString (field k v)) [''id'', ''name'', ''provider'', ''region'', ''baseURL'', ''credentialKeyId'']
     \<and> isWorkerCapacity False (field ''capacity'' v)
     \<and> optional_bool (field ''enabled'' v) \<and> optional_bool (field ''schedulable'' v)"

fun host_action_of :: "json \<Rightarrow> host_action option" where
  "host_action_of (JsonString s) =
     (if s = ''enable'' then Some ActEnable else if s = ''disable'' then Some ActDisable
      else if s = ''drain'' then Some ActDrain else if s = ''resume'' then Some ActResume else None)"
| "host_action_of (JsonArray [v]) = map_option ActListed (host_action_of v)"
| "host_action_of _ = None"

text \<open>A reason between 1 and 256 characters, as three requests ask for.\<close>

definition valid_reason :: "json option \<Rightarrow> bool" where
  "valid_reason v \<longleftrightarrow> (case json_string v of None \<Rightarrow> False | Some r \<Rightarrow> 1 \<le> length (trim r) \<and> length (trim r) \<le> 256)"

definition isUpdateWorkerHostRequest :: "json \<Rightarrow> bool" where
  "isUpdateWorkerHostRequest v \<longleftrightarrow>
     isRecord v \<and> object_keys v \<noteq> []
     \<and> hasOnlyKeys v [''name'', ''provider'', ''region'', ''baseURL'', ''credentialKeyId'', ''capacity'', ''action'', ''reason'']
     \<and> list_all (\<lambda>k. field k v = None \<or> isNonEmptyString (field k v)) [''name'', ''provider'', ''region'', ''baseURL'', ''credentialKeyId'']
     \<and> (field ''capacity'' v = None \<or> isWorkerCapacity True (field ''capacity'' v))
     \<and> (case field ''action'' v of
          None \<Rightarrow> field ''reason'' v = None
        | Some a \<Rightarrow> text_of a \<in> Some ` {''enable'', ''disable'', ''drain'', ''resume''} \<and> valid_reason (field ''reason'' v))"

text \<open>The validated values as the requests the handlers take.\<close>

definition text_field :: "string \<Rightarrow> json \<Rightarrow> string" where
  "text_field k v = (case json_string (field k v) of None \<Rightarrow> [] | Some s \<Rightarrow> s)"

definition number_field :: "string \<Rightarrow> json \<Rightarrow> js_num" where
  "number_field k v = (case json_number (field k v) of None \<Rightarrow> JNaN | Some n \<Rightarrow> n)"

definition register_request :: "json \<Rightarrow> register_host_request" where
  "register_request v =
     (let c = (case field ''capacity'' v of None \<Rightarrow> JsonNull | Some x \<Rightarrow> x) in
      \<lparr>rh_id = text_field ''id'' v, rh_name = text_field ''name'' v, rh_provider = text_field ''provider'' v,
       rh_region = text_field ''region'' v, rh_baseURL = text_field ''baseURL'' v,
       rh_credentialKeyId = text_field ''credentialKeyId'' v,
       rh_capacity = \<lparr>ci_memoryBytes = number_field ''memoryBytes'' c, ci_cpuMillis = number_field ''cpuMillis'' c,
         ci_diskBytes = number_field ''diskBytes'' c, ci_workspaceSlots = number_field ''workspaceSlots'' c\<rparr>,
       rh_enabled = json_bool (field ''enabled'' v), rh_schedulable = json_bool (field ''schedulable'' v)\<rparr>)"

definition update_request :: "json \<Rightarrow> update_host_request" where
  "update_request v =
     \<lparr>uh_name = json_string (field ''name'' v), uh_provider = json_string (field ''provider'' v),
      uh_region = json_string (field ''region'' v), uh_baseURL = json_string (field ''baseURL'' v),
      uh_credentialKeyId = json_string (field ''credentialKeyId'' v),
      uh_capacity = map_option (\<lambda>c.
        \<lparr>cp_memoryBytes = json_number (field ''memoryBytes'' c), cp_cpuMillis = json_number (field ''cpuMillis'' c),
         cp_diskBytes = json_number (field ''diskBytes'' c), cp_workspaceSlots = json_number (field ''workspaceSlots'' c)\<rparr>)
        (field ''capacity'' v),
      uh_action = Option.bind (field ''action'' v) host_action_of, uh_reason = json_string (field ''reason'' v)\<rparr>"

definition isPlatformControlName :: "string \<Rightarrow> bool" where
  "isPlatformControlName s \<longleftrightarrow> s \<in> {''provisioning'', ''workspace_start'', ''publication''}"

definition isUpdatePlatformControlRequest :: "json \<Rightarrow> bool" where
  "isUpdatePlatformControlRequest v \<longleftrightarrow>
     isRecord v \<and> hasOnlyKeys v [''paused'', ''reason''] \<and> json_bool (field ''paused'' v) \<noteq> None
     \<and> valid_reason (field ''reason'' v)"

text \<open>The header \<open>x-nebula-admin-actor\<close>.\<close>

definition platformAdministratorActor :: "string option \<Rightarrow> string option" where
  "platformAdministratorActor header =
     (let actor = (case header of None \<Rightarrow> [] | Some h \<Rightarrow> trim h) in
      if 1 \<le> length actor \<and> length actor \<le> 128 \<and> \<not> has_control_char actor then Some actor else None)"

definition isUpsertOperatorEntitlementRequest :: "json \<Rightarrow> bool" where
  "isUpsertOperatorEntitlementRequest v \<longleftrightarrow>
     isRecord v \<and> hasOnlyKeys v [''organizationId'', ''state'', ''source'', ''startsAt'', ''endsAt'']
     \<and> isNonEmptyString (field ''organizationId'' v)
     \<and> (case Option.bind (field ''state'' v) text_of of None \<Rightarrow> False
        | Some s \<Rightarrow> s \<in> {''pending'', ''active'', ''grace'', ''suspended'', ''revoked''})
     \<and> (case Option.bind (field ''source'' v) text_of of None \<Rightarrow> False | Some s \<Rightarrow> s \<in> {''beta'', ''admin''})
     \<and> (case json_number (field ''startsAt'' v) of
          None \<Rightarrow> False
        | Some starts \<Rightarrow> is_safe_integer starts \<and> int_value starts \<ge> 0
            \<and> (field ''endsAt'' v = Some JsonNull
               \<or> (case json_number (field ''endsAt'' v) of None \<Rightarrow> False
                  | Some ends \<Rightarrow> is_safe_integer ends \<and> int_value ends > int_value starts)))
     \<and> (field ''source'' v \<noteq> Some (JsonString ''beta'') \<or> field ''endsAt'' v \<noteq> Some JsonNull)"

text \<open>A state or source inside an array is no member of the lists the database package tests, as the empty text is none.\<close>

definition entitlement_request :: "string \<Rightarrow> json \<Rightarrow> entitlement_input" where
  "entitlement_request membershipId v =
     \<lparr>ei_membershipId = membershipId, ei_organizationId = text_field ''organizationId'' v,
      ei_state = text_field ''state'' v, ei_source = text_field ''source'' v,
      ei_startsAt = number_field ''startsAt'' v, ei_endsAt = json_number (field ''endsAt'' v)\<rparr>"

definition isPublishedServiceName :: "string \<Rightarrow> bool" where
  "isPublishedServiceName s \<longleftrightarrow> label_pattern 30 s"

definition isPublishedServicePort :: "json option \<Rightarrow> bool" where
  "isPublishedServicePort v \<longleftrightarrow>
     (case json_number v of None \<Rightarrow> False
      | Some n \<Rightarrow> is_safe_integer n \<and> 1024 \<le> int_value n \<and> int_value n \<le> 65535 \<and> int_value n \<noteq> 7777)"

text \<open>\<open>Inr None\<close> is \<open>undefined\<close>, no filter; \<open>Inl ()\<close> is \<open>null\<close>, an unknown status.\<close>

definition contactStatus :: "string option \<Rightarrow> unit + contact_status option" where
  "contactStatus v =
     (case v of
        None \<Rightarrow> Inr None
      | Some s \<Rightarrow> if s = [] then Inr None
                  else case parse_contact_status s of None \<Rightarrow> Inl () | Some x \<Rightarrow> Inr (Some x))"

section \<open>Bounded bodies\<close>

datatype body_error = RequestTooLarge | InvalidJson

fun declares_more :: "js_num \<Rightarrow> nat \<Rightarrow> bool" where
  "declares_more (JInt n) maximum \<longleftrightarrow> n > int maximum"
| "declares_more (JFrac n) maximum \<longleftrightarrow> n \<ge> int maximum"
| "declares_more _ maximum \<longleftrightarrow> False"

text \<open>The reading loop, which gives up as soon as the chunks exceed the bound.\<close>

fun read_chunks :: "nat \<Rightarrow> nat list list \<Rightarrow> nat list \<Rightarrow> body_error + nat list" where
  "read_chunks maximum [] read = Inr read"
| "read_chunks maximum (c # cs) read =
     (if length (read @ c) > maximum then Inl RequestTooLarge else read_chunks maximum cs (read @ c))"

text \<open>\<open>declared\<close> is \<open>Number(request.headers.get('content-length'))\<close>.\<close>

definition readBoundedBytes :: "js_num \<Rightarrow> nat list list \<Rightarrow> nat \<Rightarrow> body_error + nat list" where
  "readBoundedBytes declared chunks maximum =
     (if declares_more declared maximum then Inl RequestTooLarge else read_chunks maximum chunks [])"

definition readBoundedJSON ::
  "(nat list \<Rightarrow> json option) \<Rightarrow> js_num \<Rightarrow> nat list list \<Rightarrow> nat \<Rightarrow> body_error + json"
where
  "readBoundedJSON parse declared chunks maximum =
     sbind (readBoundedBytes declared chunks maximum) (\<lambda>bytes.
     if bytes = [] then Inl InvalidJson else case parse bytes of None \<Rightarrow> Inl InvalidJson | Some v \<Rightarrow> Inr v)"

section \<open>The contact form\<close>

definition is_any_hex :: "char \<Rightarrow> bool" where
  "is_any_hex c \<longleftrightarrow> is_lower_hex c \<or> (CHR ''A'' \<le> c \<and> c \<le> CHR ''F'')"

text \<open>The pattern of a random UUID, case-insensitive.\<close>

definition submission_pattern :: "string \<Rightarrow> bool" where
  "submission_pattern s \<longleftrightarrow>
     length s = 36 \<and> s ! 14 = CHR ''4'' \<and> s ! 19 \<in> set ''89abAB''
     \<and> list_all (\<lambda>i. if i \<in> {8, 13, 18, 23} then s ! i = CHR ''-'' else is_any_hex (s ! i)) [0..<36]"

definition mail_part :: "string \<Rightarrow> bool" where
  "mail_part s \<longleftrightarrow> s \<noteq> [] \<and> list_all (\<lambda>c. \<not> js_space c \<and> c \<noteq> CHR ''@'') s"

text \<open>\<open>/^[^\s@]+@[^\s@]+\.[^\s@]+$/\<close>: one \<open>@\<close>, and a dot inside what follows it.\<close>

definition mail_pattern :: "string \<Rightarrow> bool" where
  "mail_pattern s \<longleftrightarrow>
     (case split_on CHR ''@'' s of
        [local, domain] \<Rightarrow> mail_part local
          \<and> list_ex (\<lambda>i. domain ! i = CHR ''.'' \<and> mail_part (take i domain) \<and> mail_part (drop (Suc i) domain))
              [0..<length domain]
      | _ \<Rightarrow> False)"

definition parse_topic :: "string \<Rightarrow> contact_topic option" where
  "parse_topic s =
     (if s = ''sales'' then Some TopicSales else if s = ''support'' then Some TopicSupport
      else if s = ''security'' then Some TopicSecurity else if s = ''partnerships'' then Some TopicPartnerships
      else if s = ''other'' then Some TopicOther else None)"

definition sized :: "nat \<Rightarrow> nat \<Rightarrow> string \<Rightarrow> bool" where
  "sized lo hi s \<longleftrightarrow> lo \<le> length (trim s) \<and> length (trim s) \<le> hi"

text \<open>The validated form, with the value of the hidden field \<open>website\<close> that only robots fill in.\<close>

definition contactRequest :: "string option \<Rightarrow> json \<Rightarrow> (contact_form \<times> string option) option" where
  "contactRequest sourceAddress v =
     (if \<not> isRecord v \<or> \<not> hasOnlyKeys v [''submissionId'', ''name'', ''email'', ''organization'', ''topic'', ''message'',
           ''privacyVersion'', ''website''] then None
      else
        case (json_string (field ''submissionId'' v), json_string (field ''name'' v), json_string (field ''email'' v),
              json_string (field ''message'' v), json_string (field ''privacyVersion'' v),
              Option.bind (json_string (field ''topic'' v)) parse_topic) of
          (Some submissionId, Some name, Some email, Some message, Some privacyVersion, Some topic) \<Rightarrow>
            if submission_pattern submissionId \<and> sized 1 120 name \<and> sized 3 254 email \<and> mail_pattern (trim email)
               \<and> (case field ''organization'' v of None \<Rightarrow> True
                  | Some g \<Rightarrow> (case json_string (Some g) of None \<Rightarrow> False | Some s \<Rightarrow> length (trim s) \<le> 160))
               \<and> sized 10 4000 message \<and> sized 1 64 privacyVersion
               \<and> (case field ''website'' v of None \<Rightarrow> True
                  | Some w \<Rightarrow> (case json_string (Some w) of None \<Rightarrow> False | Some s \<Rightarrow> length s \<le> 256))
            then Some
              (\<lparr>cf_submissionId = submissionId, cf_name = trim name, cf_email = toLowerCase (trim email),
                cf_organization = trim_or_null (json_string (field ''organization'' v)), cf_topic = topic,
                cf_message = trim message, cf_privacyVersion = trim privacyVersion, cf_sourceAddress = sourceAddress\<rparr>,
               truthy (json_string (field ''website'' v)))
            else None
        | _ \<Rightarrow> None)"

section \<open>Paging and exports\<close>

text \<open>
  The cursor of a page: \<open>write\<close> is JSON, UTF-8 and base64url of the pair, \<open>read\<close> the way back to a
  JSON value. \<open>Inl ()\<close> is \<open>undefined\<close>, an invalid cursor.
\<close>

definition cursor_json :: "int \<times> string \<Rightarrow> json" where
  "cursor_json cursor = JsonObject [(''createdAt'', JsonNumber (JInt (fst cursor))), (''id'', JsonString (snd cursor))]"

definition encodeContactCursor :: "(json \<Rightarrow> string) \<Rightarrow> int \<times> string \<Rightarrow> string" where
  "encodeContactCursor encode cursor = encode (cursor_json cursor)"

definition decodeContactCursor :: "(string \<Rightarrow> json option) \<Rightarrow> string option \<Rightarrow> unit + (int \<times> string) option" where
  "decodeContactCursor read v =
     (case v of
        None \<Rightarrow> Inr None
      | Some s \<Rightarrow>
          if s = [] then Inr None
          else if length s > 512 then Inl ()
          else case read s of
            None \<Rightarrow> Inl ()
          | Some parsed \<Rightarrow>
              if \<not> isRecord parsed \<or> \<not> hasOnlyKeys parsed [''createdAt'', ''id''] then Inl ()
              else (case (json_number (field ''createdAt'' parsed), json_string (field ''id'' parsed)) of
                 (Some createdAt, Some i) \<Rightarrow>
                   if is_safe_integer createdAt \<and> int_value createdAt \<ge> 0 \<and> 1 \<le> length i \<and> length i \<le> 128
                   then Inr (Some (int_value createdAt, i)) else Inl ()
               | _ \<Rightarrow> Inl ()))"

definition contactExportMaximumRows :: nat where
  "contactExportMaximumRows = 5000"

text \<open>The export reads pages of 200 until the inbox or the limit ends; it returns what it read and the cursor it
  stopped at, which marks the file as truncated.\<close>

fun export_pages ::
  "nat \<Rightarrow> contact_status option \<Rightarrow> (int \<times> string) option \<Rightarrow> contact_request list \<Rightarrow> cloud_db
     \<Rightarrow> (contact_request list \<times> (int \<times> string) option) option"
where
  "export_pages 0 status before requests db = None"
| "export_pages (Suc fuel) status before requests db =
     (let (page, nextCursor) = listContactRequests status (Some 200) before db; read = requests @ page in
      if nextCursor \<noteq> None \<and> length read < contactExportMaximumRows
      then export_pages fuel status nextCursor read db
      else Some (read, nextCursor))"

text \<open>A cell: a text that a spreadsheet would take for a formula gets an apostrophe.\<close>

definition formula_like :: "string \<Rightarrow> bool" where
  "formula_like text \<longleftrightarrow> text \<noteq> [] \<and> hd text \<in> set ''=+-@''"

definition guarded :: "string \<Rightarrow> string" where
  "guarded text = (if formula_like text then CHR 0x27 # text else text)"

fun doubled :: "string \<Rightarrow> string" where
  "doubled [] = []"
| "doubled (c # cs) = (if c = CHR 0x22 then [CHR 0x22, CHR 0x22] else [c]) @ doubled cs"

text \<open>The cells come as texts, \<open>null\<close> as the empty one and a number as its decimal text.\<close>

definition csvCell :: "string \<Rightarrow> string" where
  "csvCell text = CHR 0x22 # doubled (guarded text) @ [CHR 0x22]"

fun join_with :: "string \<Rightarrow> string list \<Rightarrow> string" where
  "join_with sep [] = []"
| "join_with sep [x] = x"
| "join_with sep (x # y # xs) = x @ sep @ join_with sep (y # xs)"

definition line_end :: string where
  "line_end = [CHR 0x0D, CHR 0x0A]"

definition csv_file :: "string list \<Rightarrow> string list list \<Rightarrow> string" where
  "csv_file header rows =
     join_with '','' (map csvCell header) @ line_end
       @ join_with line_end (map (\<lambda>r. join_with '','' (map csvCell r)) rows) @ line_end"

section \<open>The two exports\<close>

fun contact_status_text :: "contact_status \<Rightarrow> string" where
  "contact_status_text ContactNew = ''new''"
| "contact_status_text ContactContacted = ''contacted''"
| "contact_status_text ContactQualified = ''qualified''"
| "contact_status_text ContactClosed = ''closed''"

fun notification_text :: "contact_notification \<Rightarrow> string" where
  "notification_text NotifyPending = ''pending''"
| "notification_text NotifySent = ''sent''"
| "notification_text NotifyFailed = ''failed''"

fun topic_text :: "contact_topic \<Rightarrow> string" where
  "topic_text TopicSales = ''sales''"
| "topic_text TopicSupport = ''support''"
| "topic_text TopicSecurity = ''security''"
| "topic_text TopicPartnerships = ''partnerships''"
| "topic_text TopicOther = ''other''"

definition null_text :: "string option \<Rightarrow> string" where
  "null_text v = (case v of None \<Rightarrow> [] | Some s \<Rightarrow> s)"

text \<open>\<open>isoDate\<close> is \<open>new Date(milliseconds).toISOString()\<close>.\<close>

definition contact_cells :: "(int \<Rightarrow> string) \<Rightarrow> contact_request \<Rightarrow> string list" where
  "contact_cells isoDate r =
     [con_id r, isoDate (con_createdAt r), isoDate (con_updatedAt r), contact_status_text (con_status r),
      notification_text (con_notificationStatus r), null_text (con_providerMessageId r), topic_text (con_topic r),
      con_name r, con_email r, null_text (con_organization r), con_message r, con_privacyVersion r]"

definition contact_header :: "string list" where
  "contact_header = [''id'', ''created_at'', ''updated_at'', ''status'', ''notification_status'', ''provider_message_id'',
     ''topic'', ''name'', ''email'', ''organization'', ''message'', ''privacy_version'']"

definition contactRequestsCSV :: "(int \<Rightarrow> string) \<Rightarrow> contact_request list \<Rightarrow> string" where
  "contactRequestsCSV isoDate requests = csv_file contact_header (map (contact_cells isoDate) requests)"

definition usage_cells :: "organization_usage \<Rightarrow> member_usage \<Rightarrow> string list" where
  "usage_cells u m =
     (let t = mus_totals m in
      [ous_organizationId u, show_int (ous_rangeDays u), mus_membershipId m, mus_userId m, mus_name m,
       show_nat (ut_modelTurns t), show_int (ut_inputTokens t), show_int (ut_outputTokens t), show_int (ut_cachedTokens t),
       show_int (ut_reasoningTokens t), show_int (ut_totalTokens t), show_int (ut_estimatedCostMicrousd t),
       show_int (ut_cacheSavingsMicrousd t)])"

definition usage_header :: "string list" where
  "usage_header = [''organization_id'', ''range_days'', ''membership_id'', ''user_id'', ''name'', ''model_turns'',
     ''input_tokens'', ''output_tokens'', ''cached_tokens'', ''reasoning_tokens'', ''total_tokens'',
     ''estimated_cost_microusd'', ''cache_savings_microusd'']"

definition organizationUsageCSV :: "organization_usage \<Rightarrow> string" where
  "organizationUsageCSV u = csv_file usage_header (map (usage_cells u) (ous_members u))"

section \<open>A reader of CSV files\<close>

text \<open>Quoted or plain cells, separated by commas; records ended by carriage return and line feed.\<close>

datatype csv_state = CellStart | Plain | Quoted | QuoteSeen | ReturnSeen

fun csv_run :: "csv_state \<Rightarrow> string \<Rightarrow> string list \<Rightarrow> string \<Rightarrow> string list list option" where
  "csv_run st cell row [] = (if st = CellStart \<and> cell = [] \<and> row = [] then Some [] else None)"
| "csv_run st cell row (c # cs) =
     (case st of
        Quoted \<Rightarrow> if c = CHR 0x22 then csv_run QuoteSeen cell row cs else csv_run Quoted (cell @ [c]) row cs
      | ReturnSeen \<Rightarrow>
          if c = CHR 0x0A then map_option (\<lambda>rows. (row @ [cell]) # rows) (csv_run CellStart [] [] cs) else None
      | _ \<Rightarrow>
          if c = CHR '','' then csv_run CellStart [] (row @ [cell]) cs
          else if c = CHR 0x0D then csv_run ReturnSeen cell row cs
          else if c = CHR 0x22
          then (if st = CellStart then csv_run Quoted [] row cs
                else if st = QuoteSeen then csv_run Quoted (cell @ [c]) row cs else None)
          else if st = QuoteSeen then None
          else csv_run Plain (cell @ [c]) row cs)"

definition csv_parse :: "string \<Rightarrow> string list list option" where
  "csv_parse s = csv_run CellStart [] [] s"

lemma csv_quoted: "csv_run Quoted cell row (doubled body @ CHR 0x22 # rest) = csv_run QuoteSeen (cell @ body) row rest"
  by (induction body arbitrary: cell) simp_all

lemma csv_cell: "csv_run CellStart [] row (csvCell text @ rest) = csv_run QuoteSeen (guarded text) row rest"
  using csv_quoted [of "[]" row "guarded text" rest] by (simp add: csvCell_def)

lemma csv_cells:
  "cells \<noteq> [] \<Longrightarrow> csv_run CellStart [] row (join_with '','' (map csvCell cells) @ line_end @ rest)
     = map_option (\<lambda>rows. (row @ map guarded cells) # rows) (csv_run CellStart [] [] rest)"
proof (induction cells arbitrary: row)
  case (Cons c cells)
  then show ?case by (cases cells) (simp_all add: csv_cell line_end_def)
qed simp

lemma csv_rows:
  "list_all (\<lambda>r. r \<noteq> []) rows \<Longrightarrow> rows \<noteq> [] \<Longrightarrow>
     csv_run CellStart [] [] (join_with line_end (map (\<lambda>r. join_with '','' (map csvCell r)) rows) @ line_end)
       = Some (map (map guarded) rows)"
proof (induction rows)
  case (Cons r rows)
  show ?case
  proof (cases rows)
    case Nil
    then show ?thesis using Cons.prems csv_cells [of r "[]" "[]"] by simp
  next
    case (Cons q qs)
    then show ?thesis using Cons.prems Cons.IH csv_cells [of r "[]"] by simp
  qed
qed simp

lemma csv_file_parsed:
  assumes "header \<noteq> []" and "list_all (\<lambda>r. r \<noteq> []) rows"
  shows "csv_parse (csv_file header rows) = Some (map guarded header # (if rows = [] then [[[]]] else map (map guarded) rows))"
proof (cases "rows = []")
  case True
  then show ?thesis
    using csv_cells [OF assms(1), of "[]" "line_end"] by (simp add: csv_parse_def csv_file_def line_end_def)
next
  case False
  show ?thesis
    using csv_cells [OF assms(1), of "[]"] csv_rows [OF assms(2) False] False by (simp add: csv_parse_def csv_file_def)
qed

lemma guarded_plain: "\<not> formula_like (guarded text)"
  by (simp add: guarded_def formula_like_def)

section \<open>Reading the whole inbox\<close>

lemma export_rest:
  assumes "schema_ok contact_request_schema (contact_requests db)" and "inbox status db = xs @ ys"
    and "filter (before_cursor cursor) (inbox status db) = ys"
    and "\<forall>k. cursor = Some k \<longrightarrow> fst k \<le> MAX_SAFE_INTEGER"
    and "length xs + 200 * fuel = contactExportMaximumRows" and "0 < fuel"
  shows "\<exists>cursor'. export_pages fuel status cursor (map toContactRequest xs) db
      = Some (map toContactRequest (take contactExportMaximumRows (inbox status db)), cursor')
    \<and> (cursor' = None \<longleftrightarrow> length (inbox status db) \<le> contactExportMaximumRows)"
  using assms(2-6)
proof (induction fuel arbitrary: xs ys cursor)
  case (Suc fuel)
  note page = list_page [OF Suc.prems(2,3), of 200 "Some 200", simplified page_limit_def, simplified]
  show ?case
  proof (cases "length ys > 200")
    case False
    then have "length (inbox status db) \<le> contactExportMaximumRows" using Suc.prems(1,4) by simp
    moreover from this False have "export_pages (Suc fuel) status cursor (map toContactRequest xs) db
        = Some (map toContactRequest (take contactExportMaximumRows (inbox status db)), None)"
      by (simp add: page Suc.prems(1))
    ultimately show ?thesis by simp
  next
    case True
    let ?key = "contact_key (List.last (take 200 ys))"
    note page_after = next_page [OF assms(1) Suc.prems(1) _ True]
    have read: "map toContactRequest xs @ map toContactRequest (take 200 ys) = map toContactRequest (xs @ take 200 ys)" by simp
    show ?thesis
    proof (cases "fuel = 0")
      case last_round: True
      then have "contactExportMaximumRows - length xs = 200" using Suc.prems(4) by simp
      moreover have "length xs \<le> contactExportMaximumRows" using Suc.prems(4) by simp
      ultimately have "take contactExportMaximumRows (inbox status db) = xs @ take 200 ys" using Suc.prems(1) by simp
      moreover have "contactExportMaximumRows < length (inbox status db)" using last_round Suc.prems(1,4) True by simp
      moreover have "length (xs @ take 200 ys) = contactExportMaximumRows" using last_round Suc.prems(4) True by simp
      ultimately show ?thesis using True by (auto simp: page read simp del: map_append)
    next
      case False
      have "\<exists>cursor'. export_pages fuel status (Some ?key) (map toContactRequest (xs @ take 200 ys)) db
            = Some (map toContactRequest (take contactExportMaximumRows (inbox status db)), cursor')
          \<and> (cursor' = None \<longleftrightarrow> length (inbox status db) \<le> contactExportMaximumRows)"
        using Suc.prems(1,4) False True page_after by (intro Suc.IH [of "xs @ take 200 ys" "drop 200 ys"]) auto
      moreover have "length (xs @ take 200 ys) < contactExportMaximumRows" using Suc.prems(4) False True by simp
      ultimately show ?thesis using True by (simp add: page read del: map_append)
    qed
  qed
qed simp

section \<open>Properties\<close>

text \<open>C29: The CSV exports are read back exactly, whatever the members of an organization or the visitors of the contact form
  have written into them: a CSV reader finds the header, and one record for each contact request and for each member with
  its cells in order, a text that a spreadsheet would run as a formula with an apostrophe before it; and no cell looks like a
  formula. Only the file of an empty list has a record too many, an empty one.\<close>

theorem csv_exports_read_back:
  "csv_parse (contactRequestsCSV isoDate requests)
      = Some (contact_header # (if requests = [] then [[[]]] else map (map guarded \<circ> contact_cells isoDate) requests))
    \<and> csv_parse (organizationUsageCSV u)
      = Some (usage_header # (if ous_members u = [] then [[[]]] else map (map guarded \<circ> usage_cells u) (ous_members u)))
    \<and> (\<exists>rows. csv_parse (contactRequestsCSV isoDate requests) = Some rows \<and> list_all (list_all (\<lambda>c. \<not> formula_like c)) rows)
    \<and> (\<exists>rows. csv_parse (organizationUsageCSV u) = Some rows \<and> list_all (list_all (\<lambda>c. \<not> formula_like c)) rows)"
proof -
  have headers: "map guarded contact_header = contact_header" "map guarded usage_header = usage_header" by code_simp+
  have filled: "contact_header \<noteq> []" "usage_header \<noteq> []" "list_all (\<lambda>r. r \<noteq> []) (map (contact_cells isoDate) requests)"
    "list_all (\<lambda>r. r \<noteq> []) (map (usage_cells u) (ous_members u))"
    by (simp_all add: contact_header_def usage_header_def list_all_iff contact_cells_def usage_cells_def Let_def)
  note read = csv_file_parsed [OF filled(1,3), unfolded headers] csv_file_parsed [OF filled(2,4), unfolded headers]
  have plain: "list_all (list_all (\<lambda>c. \<not> formula_like c)) (map guarded h # (if rows = [] then [[[]]] else map (map guarded) rows))"
    for h rows by (auto simp: list_all_iff guarded_plain) (simp add: formula_like_def)
  show ?thesis
    using plain [of contact_header "map (contact_cells isoDate) requests"] plain [of usage_header "map (usage_cells u) (ous_members u)"]
    by (simp add: contactRequestsCSV_def organizationUsageCSV_def read headers comp_def)
qed

text \<open>The export of the contact inbox is complete: it ends after at most 25 pages and holds the newest requests of the
  filter in order, each once, all of them or the first 5000; and it is marked as truncated exactly when there are more.\<close>

theorem contact_export_complete:
  assumes "schema_ok contact_request_schema (contact_requests db)"
  shows "\<exists>cursor. export_pages 25 status None [] db
      = Some (map toContactRequest (take contactExportMaximumRows (inbox status db)), cursor)
    \<and> (cursor = None \<longleftrightarrow> length (inbox status db) \<le> contactExportMaximumRows)"
proof -
  have "filter (before_cursor None) (inbox status db) = inbox status db"
    by (auto simp: inbox_def newest_first_def before_cursor_def intro: filter_True)
  then show ?thesis
    using export_rest [OF assms, of status "[]" "inbox status db" None 25] by (simp add: contactExportMaximumRows_def)
qed

text \<open>A body is never read beyond its bound: what arrives does not depend on how it is cut into chunks, a body within the
  bound arrives whole, and a longer one is refused, also when its declared length was within the bound.\<close>

theorem bounded_body_ignores_chunking:
  "readBoundedBytes declared chunks maximum =
     (if declares_more declared maximum \<or> length (concat chunks) > maximum then Inl RequestTooLarge else Inr (concat chunks))"
proof -
  have "read_chunks maximum chunks done_before =
      (if length (done_before @ concat chunks) > maximum then Inl RequestTooLarge else Inr (done_before @ concat chunks))"
    if "length done_before \<le> maximum" for done_before
    using that by (induction chunks arbitrary: done_before) auto
  from this [of "[]"] show ?thesis by (simp add: readBoundedBytes_def)
qed

section \<open>Accepted forms\<close>

lemma lower_space [simp]: "js_space (lower_char c) = js_space c"
  by (auto simp: lower_char_def js_space_def Let_def)

lemma trim_lower [simp]: "trim (toLowerCase s) = toLowerCase (trim s)"
  by (simp add: trim_def toLowerCase_def dropWhile_map rev_map comp_def)

lemma lower_lower [simp]: "lower_char (lower_char c) = lower_char c"
  by (auto simp: lower_char_def Let_def)

lemma lower_idem [simp]: "toLowerCase (toLowerCase s) = toLowerCase s"
  by (simp add: toLowerCase_def)

lemma length_lower [simp]: "length (toLowerCase s) = length s"
  by (simp add: toLowerCase_def)

lemma trim_filled:
  assumes "s \<noteq> []" and "\<not> js_space (hd s)" and "\<not> js_space (List.last s)"
  shows "trim s = s"
proof -
  have "dropWhile js_space s = s" using assms(1,2) by (cases s) auto
  moreover have "dropWhile js_space (rev s) = rev s" using assms(1,3) by (cases "rev s") (auto simp: last_rev [symmetric] hd_rev)
  ultimately show ?thesis by (simp add: trim_def)
qed

lemma hex_no_space: "is_any_hex c \<Longrightarrow> \<not> js_space c"
  by (auto simp: is_any_hex_def is_lower_hex_def is_digit_def less_eq_char_def js_space_def)

lemma digest_trim:
  assumes "is_sha256_hex s"
  shows "trim s = s"
proof -
  have "s \<noteq> []" and hex: "\<forall>c \<in> set s. is_any_hex c" using assms by (auto simp: is_sha256_hex_def is_any_hex_def list_all_iff)
  then have "is_any_hex (hd s)" "is_any_hex (List.last s)" by simp_all
  with \<open>s \<noteq> []\<close> show ?thesis by (intro trim_filled) (auto dest: hex_no_space)
qed

lemma submission_trim:
  assumes "submission_pattern s"
  shows "trim s = s"
proof -
  have "length s = 36" and hex: "is_any_hex (s ! 0)" "is_any_hex (s ! 35)"
    using assms by (auto simp: submission_pattern_def list_all_iff)
  then have "s \<noteq> []" by auto
  moreover from this \<open>length s = 36\<close> have "hd s = s ! 0" "List.last s = s ! 35" by (simp_all add: hd_conv_nth last_conv_nth)
  ultimately show ?thesis using hex by (intro trim_filled) (auto dest: hex_no_space)
qed

lemma contactRequest_Some:
  assumes "contactRequest address v = Some (form, website)"
  obtains i n e m p g topic where "form = \<lparr>cf_submissionId = i, cf_name = trim n, cf_email = toLowerCase (trim e),
      cf_organization = trim_or_null g, cf_topic = topic, cf_message = trim m, cf_privacyVersion = trim p,
      cf_sourceAddress = address\<rparr>"
    and "submission_pattern i" and "sized 1 120 n" and "sized 3 254 e" and "sized 10 4000 m" and "sized 1 64 p"
    and "\<forall>s. g = Some s \<longrightarrow> length (trim s) \<le> 160"
proof -
  let ?s = "\<lambda>k. json_string (field k v)"
  from assms obtain i n e m p topic where
    strings: "?s ''submissionId'' = Some i" "?s ''name'' = Some n" "?s ''email'' = Some e" "?s ''message'' = Some m"
      "?s ''privacyVersion'' = Some p" "Option.bind (?s ''topic'') parse_topic = Some topic"
    unfolding contactRequest_def by (auto split: if_splits option.splits)
  have "submission_pattern i \<and> sized 1 120 n \<and> sized 3 254 e \<and> sized 10 4000 m \<and> sized 1 64 p
      \<and> (case field ''organization'' v of None \<Rightarrow> True
         | Some g \<Rightarrow> (case json_string (Some g) of None \<Rightarrow> False | Some s \<Rightarrow> length (trim s) \<le> 160))
      \<and> form = \<lparr>cf_submissionId = i, cf_name = trim n, cf_email = toLowerCase (trim e),
          cf_organization = trim_or_null (?s ''organization''), cf_topic = topic, cf_message = trim m,
          cf_privacyVersion = trim p, cf_sourceAddress = address\<rparr>"
    using assms unfolding contactRequest_def strings by (simp split: if_splits)
  moreover from this have "\<forall>s. ?s ''organization'' = Some s \<longrightarrow> length (trim s) \<le> 160"
    by (cases "field ''organization'' v") auto
  ultimately show thesis by (intro that [of i n e "?s ''organization''" topic m p]) auto
qed

lemma form_limits:
  "cin_windowMs (contact_of_form hmac form) = None" "cin_maximumPerSource (contact_of_form hmac form) = None"
  "cin_maximumPerEmail (contact_of_form hmac form) = None"
  by (simp_all add: contact_of_form_def)

lemma accepted_row:
  assumes "contactRequest address v = Some (form, website)" and "\<And>m. is_sha256_hex (hmac m)"
  obtains r where "contact_row (contact_of_form hmac form) now = Inr r" and "cr_id r = cf_submissionId form"
    and "cr_name r = cf_name form" and "cr_email r = cf_email form" and "cr_organization r = cf_organization form"
    and "cr_topic r = cf_topic form" and "cr_message r = cf_message form"
proof -
  from assms(1) obtain i n e m p g topic where form: "form = \<lparr>cf_submissionId = i, cf_name = trim n,
      cf_email = toLowerCase (trim e), cf_organization = trim_or_null g, cf_topic = topic, cf_message = trim m,
      cf_privacyVersion = trim p, cf_sourceAddress = address\<rparr>"
    and ok: "submission_pattern i" "sized 1 120 n" "sized 3 254 e" "sized 10 4000 m" "sized 1 64 p"
      "\<forall>s. g = Some s \<longrightarrow> length (trim s) \<le> 160"
    by (rule contactRequest_Some)
  have "is_sha256_hex (contact_source_hash hmac address)" using assms(2) by (simp add: contact_source_hash_def)
  then have hash: "length (contact_source_hash hmac address) = 64" "trim (contact_source_hash hmac address) = contact_source_hash hmac address"
    by (auto simp: digest_trim is_sha256_hex_def)
  have organization: "contact_organization (trim_or_null g) = trim_or_null g"
    using ok(6) by (auto simp: contact_organization_def trim_or_null_def Let_def split: option.splits)
  have "length i = 36" using ok(1) by (simp add: submission_pattern_def)
  then show thesis
    using ok(2-5) submission_trim [OF ok(1)] hash organization
    by (intro that) (auto simp: contact_row_def contact_of_form_def form boundedContactText_def sized_def Let_def)
qed

text \<open>A contact form the server accepts is never refused by the database for its contents: it is stored, as a new request
  with the contents of the form or as the one this submission has made before, unless the sender or the address has
  reached its limit, and then nothing is written.\<close>

theorem accepted_form_is_stored:
  assumes "contactRequest address v = Some (form, website)" and "\<And>m. is_sha256_hex (hmac m)"
    and "createContactRequest (contact_of_form hmac form) now s = (result, t)"
  shows "(\<exists>c new. result = Inr (c, new) \<and> getContactRequestById (cf_submissionId form) t = Some c
      \<and> (new \<longrightarrow> con_name c = cf_name form \<and> con_email c = cf_email form \<and> con_organization c = cf_organization form
            \<and> con_topic c = cf_topic form \<and> con_message c = cf_message form)
      \<and> (\<not> new \<longrightarrow> t = s))
    \<or> (result = Inl ContactRateLimitError \<and> t = s)"
proof -
  from assms(1,2) obtain r where row: "contact_row (contact_of_form hmac form) now = Inr r" and id: "cr_id r = cf_submissionId form"
    and same: "cr_name r = cf_name form" "cr_email r = cf_email form" "cr_organization r = cf_organization form"
      "cr_topic r = cf_topic form" "cr_message r = cf_message form" by (rule accepted_row)
  have run: "store_contact r 3600000 5 3 s = (result, t)"
    using assms(3) by (simp add: createContactRequest_def row form_limits positive_option_def is_safe_int_def MAX_SAFE_INTEGER_def)
  show ?thesis
  proof (cases "getContactRequestById (cr_id r) s")
    case (Some c)
    have "store_contact r 3600000 5 3 s = (Inr (c, False), s)"
      by (simp add: store_contact_def atomic_def obind_def operation_defs Some)
    with run id Some show ?thesis by auto
  next
    case None
    then have new: "\<forall>x \<in> set (contact_requests s). cr_id x \<noteq> cr_id r"
      by (auto simp: getContactRequestById_def find_None_iff)
    then have fresh: "row_error contact_request_schema r (contact_requests s) = None"
      by (auto simp: row_error_None row_ok_iff contact_request_schema_def collides_def)
    have found: "getContactRequestById (cr_id r) (set_contact_requests (contact_requests s @ [r]) s) = Some (toContactRequest r)"
      using new by (simp add: getContactRequestById_def set_contact_requests_def find_append find_None_iff [THEN iffD2] split: option.split)
    have "store_contact r 3600000 5 3 s = (Inl ContactRateLimitError, s)
        \<or> store_contact r 3600000 5 3 s = (Inr (toContactRequest r, True), set_contact_requests (contact_requests s @ [r]) s)"
      by (simp add: store_contact_def atomic_def obind_def operation_defs require_def None Let_def insert_into_def sql_insert_def
          fresh found)
    then show ?thesis
    proof
      assume "store_contact r 3600000 5 3 s = (Inl ContactRateLimitError, s)"
      with run show ?thesis by simp
    next
      assume "store_contact r 3600000 5 3 s = (Inr (toContactRequest r, True), set_contact_requests (contact_requests s @ [r]) s)"
      with run have "result = Inr (toContactRequest r, True)" "t = set_contact_requests (contact_requests s @ [r]) s" by simp_all
      moreover have "con_name (toContactRequest r) = cf_name form" "con_email (toContactRequest r) = cf_email form"
        "con_organization (toContactRequest r) = cf_organization form" "con_topic (toContactRequest r) = cf_topic form"
        "con_message (toContactRequest r) = cf_message form" using same by (simp_all add: toContactRequest_def)
      ultimately show ?thesis
        using found id by (intro disjI1 exI [of _ "toContactRequest r"] exI [of _ True]) simp
    qed
  qed
qed

theorem contact_export_complete_witness:
  "\<exists>t r. contact_requests t = [r] \<and> export_pages 25 None None [] t = Some ([toContactRequest r], None)"
proof -
  obtain c t where "length (contact_requests t) = 1" and ok: "schema_ok contact_request_schema (contact_requests t)"
    and run: "createContactRequest sample_contact 10 empty_db = (Inr (c, True), t)" using contact_runs by blast
  then obtain r where r: "contact_requests t = [r]" by (cases "contact_requests t") auto
  have "cr_created_at r \<le> MAX_SAFE_INTEGER"
    using run r by (auto simp: createContactRequest_def empty_db_def set_contact_requests_def MAX_SAFE_INTEGER_def
        dest!: store_contact_Inr contact_row_created)
  then have "inbox None t = [r]" by (simp add: inbox_def newest_first_def with_status_def r)
  with contact_export_complete [OF ok, of None] r show ?thesis by (auto simp: contactExportMaximumRows_def)
qed

definition form_json :: json where
  "form_json = JsonObject [(''submissionId'', JsonString ''0f8fad5b-d9cb-469f-a165-70867728950e''), (''name'', JsonString '' Ada ''),
     (''email'', JsonString ''Ada@x.io''), (''topic'', JsonString ''sales''), (''message'', JsonString ''hello there''),
     (''privacyVersion'', JsonString ''v1'')]"

theorem accepted_form_is_stored_witness:
  "\<exists>form c t. contactRequest None form_json = Some (form, None)
    \<and> createContactRequest (contact_of_form sample_hmac form) 10 empty_db = (Inr (c, True), t) \<and> con_email c = ''ada@x.io''"
proof -
  obtain form where form: "contactRequest None form_json = Some (form, None)"
    and mail: "cf_email form = ''ada@x.io''"
  proof -
    have "case contactRequest None form_json of Some (f, w) \<Rightarrow> w = None \<and> cf_email f = ''ada@x.io'' | None \<Rightarrow> False" by code_simp
    then show thesis using that by (auto split: option.splits)
  qed
  obtain result t where run: "createContactRequest (contact_of_form sample_hmac form) 10 empty_db = (result, t)" by fastforce
  from form sample_hmac_hex obtain r where row: "contact_row (contact_of_form sample_hmac form) 10 = Inr r" by (rule accepted_row)
  have "result = Inr (toContactRequest r, True)"
    using run by (simp add: createContactRequest_def row form_limits store_contact_def positive_option_def is_safe_int_def
        MAX_SAFE_INTEGER_def recent_requests_def empty_db_def atomic_def obind_def operation_defs require_def Let_def
        getContactRequestById_def insert_into_def sql_insert_def row_error_def failed_check_def failed_unique_def
        contact_request_schema_def set_contact_requests_def)
  with accepted_form_is_stored [OF form sample_hmac_hex run] run form mail show ?thesis by auto
qed

end
