(* ===== verification/Emails.thy ===== *)
theory Emails
  imports Members
begin

text \<open>
  Email delivery diagnostics and invitation states (\<open>src/packages/database/src/index.ts\<close>): the
  status of a delivery as the sender and the provider's webhooks move it, the suppression list
  read from it, and what an invited user is told.
\<close>

section \<open>The table\<close>

definition email_delivery_schema :: "email_delivery_row schema" where
  "email_delivery_schema =
     \<lparr>checks =
        [(''length(provider) BETWEEN 1 AND 32'', \<lambda>d. 1 \<le> length (ed_provider d) \<and> length (ed_provider d) \<le> 32),
         (''recipient_hash'', \<lambda>d. is_sha256_hex (ed_recipient_hash d)),
         (''error_code'', \<lambda>d. case ed_error_code d of None \<Rightarrow> True | Some c \<Rightarrow> length c \<le> 128),
         (''created_at >= 0'', \<lambda>d. ed_created_at d \<ge> 0),
         (''updated_at >= created_at'', \<lambda>d. ed_updated_at d \<ge> ed_created_at d)],
      uniques =
        [(''email_delivery.id'', \<lambda>d. Some [SText (ed_id d)]),
         (''email_delivery.provider_message_id'', \<lambda>d. map_option (\<lambda>m. [SText m]) (ed_provider_message_id d))]\<rparr>"

definition set_email_deliveries :: "email_delivery_row list \<Rightarrow> cloud_db \<Rightarrow> cloud_db" where
  "set_email_deliveries rows db = db\<lparr>email_deliveries := rows\<rparr>"

interpretation ed_tbl: sql_table email_deliveries set_email_deliveries email_delivery_schema
  by unfold_locales (simp_all add: set_email_deliveries_def)

record email_diagnostic =
  emd_id :: string
  emd_provider :: string
  emd_providerMessageId :: "string option"
  emd_kind :: email_kind
  emd_recipientHash :: string
  emd_status :: email_status
  emd_errorCode :: "string option"
  emd_createdAt :: int
  emd_updatedAt :: int

definition toEmailDeliveryDiagnostic :: "email_delivery_row \<Rightarrow> email_diagnostic" where
  "toEmailDeliveryDiagnostic row =
     \<lparr>emd_id = ed_id row, emd_provider = ed_provider row, emd_providerMessageId = ed_provider_message_id row,
      emd_kind = ed_kind row, emd_recipientHash = ed_recipient_hash row, emd_status = ed_status row,
      emd_errorCode = ed_error_code row, emd_createdAt = ed_created_at row, emd_updatedAt = ed_updated_at row\<rparr>"

definition getEmailDelivery :: "string \<Rightarrow> cloud_db \<Rightarrow> email_diagnostic option" where
  "getEmailDelivery deliveryId db =
     map_option toEmailDeliveryDiagnostic (find (\<lambda>d. ed_id d = deliveryId) (email_deliveries db))"

section \<open>Operations\<close>

record email_input =
  emi_id :: string
  emi_provider :: string
  emi_kind :: email_kind
  emi_recipientHash :: string

definition new_delivery :: "string \<Rightarrow> string \<Rightarrow> email_kind \<Rightarrow> string \<Rightarrow> int \<Rightarrow> email_delivery_row" where
  "new_delivery deliveryId provider kind recipientHash timestamp =
     \<lparr>ed_id = deliveryId, ed_provider = provider, ed_provider_message_id = None, ed_kind = kind,
      ed_recipient_hash = recipientHash, ed_status = MailSending, ed_error_code = None,
      ed_created_at = timestamp, ed_updated_at = timestamp\<rparr>"

text \<open>The result is \<open>getEmailDelivery(database, id)!\<close>: the row just inserted.\<close>

definition beginEmailDelivery :: "email_input \<Rightarrow> int \<Rightarrow> email_diagnostic option dbop" where
  "beginEmailDelivery inp now =
     obind (olift (emailDiagnosticText (emi_id inp) ''Email delivery id'' 128)) (\<lambda>deliveryId.
     obind (olift (emailDiagnosticText (emi_provider inp) ''Email provider'' 32)) (\<lambda>provider.
     obind (olift (require (is_sha256_hex (emi_recipientHash inp)) (JsError ''Email recipient hash is invalid''))) (\<lambda>_.
     obind (insert_into email_deliveries set_email_deliveries email_delivery_schema
              (new_delivery deliveryId provider (emi_kind inp) (emi_recipientHash inp) now)) (\<lambda>_.
     oget (getEmailDelivery deliveryId)))))"

definition sent_row :: "string \<Rightarrow> int \<Rightarrow> email_delivery_row \<Rightarrow> email_delivery_row" where
  "sent_row messageId now d =
     d\<lparr>ed_provider_message_id := Some messageId, ed_status := MailSent, ed_error_code := None, ed_updated_at := now\<rparr>"

definition markEmailDeliverySent :: "string \<Rightarrow> string \<Rightarrow> int \<Rightarrow> email_diagnostic option dbop" where
  "markEmailDeliverySent deliveryId rawMessageId now =
     obind (olift (emailDiagnosticText rawMessageId ''Email provider message id'' 256)) (\<lambda>messageId.
     obind (update_in email_deliveries set_email_deliveries email_delivery_schema
              (\<lambda>d. ed_id d = deliveryId \<and> ed_status d = MailSending) (sent_row messageId now)) (\<lambda>_.
     oget (getEmailDelivery deliveryId)))"

definition failed_row :: "string \<Rightarrow> int \<Rightarrow> email_delivery_row \<Rightarrow> email_delivery_row" where
  "failed_row code now d = d\<lparr>ed_status := MailFailed, ed_error_code := Some code, ed_updated_at := now\<rparr>"

definition markEmailDeliveryFailed :: "string \<Rightarrow> string \<Rightarrow> int \<Rightarrow> email_diagnostic option dbop" where
  "markEmailDeliveryFailed deliveryId rawCode now =
     obind (olift (emailDiagnosticText rawCode ''Email error code'' 128)) (\<lambda>code.
     obind (update_in email_deliveries set_email_deliveries email_delivery_schema
              (\<lambda>d. ed_id d = deliveryId \<and> ed_status d = MailSending) (failed_row code now)) (\<lambda>_.
     oget (getEmailDelivery deliveryId)))"

text \<open>What a webhook of the provider may report.\<close>

datatype provider_status = ReportDelivered | ReportDelayed | ReportBounced | ReportComplained | ReportSuppressed

fun reported_status :: "provider_status \<Rightarrow> email_status" where
  "reported_status ReportDelivered = MailDelivered"
| "reported_status ReportDelayed = MailDelayed"
| "reported_status ReportBounced = MailBounced"
| "reported_status ReportComplained = MailComplained"
| "reported_status ReportSuppressed = MailSuppressed"

definition terminal_status :: "email_status \<Rightarrow> bool" where
  "terminal_status st \<longleftrightarrow> st = MailBounced \<or> st = MailComplained \<or> st = MailSuppressed"

definition projected_row :: "email_status \<Rightarrow> int \<Rightarrow> email_delivery_row \<Rightarrow> email_delivery_row" where
  "projected_row st now d = d\<lparr>ed_status := st, ed_error_code := None, ed_updated_at := now\<rparr>"

definition projectEmailDeliveryStatus :: "string \<Rightarrow> provider_status \<Rightarrow> int \<Rightarrow> email_diagnostic option dbop" where
  "projectEmailDeliveryStatus rawMessageId status now =
     obind (olift (emailDiagnosticText rawMessageId ''Email provider message id'' 256)) (\<lambda>messageId. atomic (
     obind (oget (\<lambda>db. find (\<lambda>d. ed_provider_message_id d = Some messageId) (email_deliveries db))) (\<lambda>found.
     case found of
       None \<Rightarrow> oreturn None
     | Some current \<Rightarrow>
         if terminal_status (ed_status current) \<or> (ed_status current = MailDelivered \<and> status = ReportDelayed)
         then oreturn (Some (toEmailDeliveryDiagnostic current))
         else
         obind (update_in email_deliveries set_email_deliveries email_delivery_schema
                  (\<lambda>d. ed_id d = ed_id current) (projected_row (reported_status status) now)) (\<lambda>_.
         oget (getEmailDelivery (ed_id current))))))"

definition isEmailRecipientSuppressed :: "string \<Rightarrow> cloud_db \<Rightarrow> bool" where
  "isEmailRecipientSuppressed recipientHash db \<longleftrightarrow>
     \<not> is_sha256_hex recipientHash
     \<or> list_ex (\<lambda>d. ed_recipient_hash d = recipientHash \<and> terminal_status (ed_status d)) (email_deliveries db)"

text \<open>What an invited user is told about an invitation.\<close>

datatype invitation_status =
  InvPending string string int
| InvExpired
| InvAlreadyUsed
| InvWrongAccount
| InvNotFound

definition getOrganizationInvitationStatus :: "string \<Rightarrow> string \<Rightarrow> int \<Rightarrow> cloud_db \<Rightarrow> invitation_status" where
  "getOrganizationInvitationStatus rawInvitationId rawEmail now db =
     (let invitationId = trim rawInvitationId; userEmail = toLowerCase (trim rawEmail) in
      if invitationId = [] \<or> length invitationId > 256 \<or> userEmail = [] then InvNotFound
      else case find (\<lambda>i. iv_id i = invitationId \<and> find_organization (iv_organizationId i) db \<noteq> None) (invitations db) of
        None \<Rightarrow> InvNotFound
      | Some i \<Rightarrow>
          if toLowerCase (trim (iv_email i)) \<noteq> userEmail then InvWrongAccount
          else if iv_status i \<noteq> ''pending'' then InvAlreadyUsed
          else if \<not> is_safe_integer (iv_expiresAt i) \<or> int_value (iv_expiresAt i) \<le> now then InvExpired
          else InvPending (case find_organization (iv_organizationId i) db of None \<Rightarrow> [] | Some g \<Rightarrow> og_name g)
                 (case iv_role i of None \<Rightarrow> ''member'' | Some r \<Rightarrow> r) (int_value (iv_expiresAt i)))"

section \<open>Deliveries only move forward\<close>

text \<open>
  \<open>sending\<close> comes before \<open>sent\<close>, then \<open>delayed\<close> and \<open>delivered\<close>; the rest is final. A delivery has a
  message identifier of the provider only once it is sent.
\<close>

fun mail_rank :: "email_status \<Rightarrow> nat" where
  "mail_rank MailSending = 0"
| "mail_rank MailSent = 1"
| "mail_rank MailDelayed = 2"
| "mail_rank MailDelivered = 3"
| "mail_rank _ = 4"

definition mail_ok :: "email_delivery_row \<Rightarrow> bool" where
  "mail_ok d \<longleftrightarrow> (ed_provider_message_id d = None \<longleftrightarrow> ed_status d = MailSending \<or> ed_status d = MailFailed)"

definition mails_ok :: "cloud_db \<Rightarrow> bool" where
  "mails_ok db \<longleftrightarrow> schema_ok email_delivery_schema (email_deliveries db) \<and> (\<forall>d \<in> set (email_deliveries db). mail_ok d)"

definition moved_forward :: "email_delivery_row \<Rightarrow> email_delivery_row \<Rightarrow> bool" where
  "moved_forward d e \<longleftrightarrow>
     ed_id e = ed_id d \<and> ed_recipient_hash e = ed_recipient_hash d \<and> ed_kind e = ed_kind d
     \<and> mail_rank (ed_status d) \<le> mail_rank (ed_status e)
     \<and> (mail_rank (ed_status d) = 4 \<longrightarrow> ed_status e = ed_status d)"

definition mails_forward :: "cloud_db \<Rightarrow> cloud_db \<Rightarrow> bool" where
  "mails_forward s t \<longleftrightarrow> (\<forall>d \<in> set (email_deliveries s). \<exists>e \<in> set (email_deliveries t). moved_forward d e)"

inductive mail_step :: "cloud_db \<Rightarrow> cloud_db \<Rightarrow> bool" where
  begin_delivery: "beginEmailDelivery inp now s = (r, t) \<Longrightarrow> mail_step s t"
| mark_sent: "markEmailDeliverySent i m now s = (r, t) \<Longrightarrow> mail_step s t"
| mark_failed: "markEmailDeliveryFailed i c now s = (r, t) \<Longrightarrow> mail_step s t"
| report: "projectEmailDeliveryStatus m st now s = (r, t) \<Longrightarrow> mail_step s t"

inductive_cases mail_stepE: "mail_step s t"

lemma moved_forward_refl [simp]: "moved_forward d d"
  by (simp add: moved_forward_def)

lemma moved_forward_trans: "moved_forward d e \<Longrightarrow> moved_forward e f \<Longrightarrow> moved_forward d f"
  by (auto simp: moved_forward_def)

lemma mails_forward_refl: "mails_forward s s"
  by (auto simp: mails_forward_def intro: moved_forward_refl)

lemma mails_forward_trans: "mails_forward s t \<Longrightarrow> mails_forward t u \<Longrightarrow> mails_forward s u"
  unfolding mails_forward_def by (blast intro: moved_forward_trans)

lemma mail_update:
  assumes "update_in email_deliveries set_email_deliveries email_delivery_schema p f s = (r, t)" and "mails_ok s"
    and "\<And>d. d \<in> set (email_deliveries s) \<Longrightarrow> p d \<Longrightarrow> mail_ok (f d) \<and> moved_forward d (f d)"
  shows "mails_ok t \<and> mails_forward s t"
proof (cases r)
  case (Inl e)
  with assms(1,2) show ?thesis by (auto dest: ed_tbl.update_Inl intro: mails_forward_refl)
next
  case (Inr n)
  with assms(1) have rows: "email_deliveries t = map (\<lambda>d. if p d then f d else d) (email_deliveries s)"
    by (auto dest: ed_tbl.update_rows)
  have "schema_ok email_delivery_schema (email_deliveries t)"
    using keepsD [OF ed_tbl.update_keeps_schema _ assms(1)] assms(2) by (simp add: mails_ok_def)
  moreover have "\<forall>d \<in> set (email_deliveries t). mail_ok d" using assms(2,3) by (auto simp: rows mails_ok_def)
  moreover have "mails_forward s t"
    unfolding mails_forward_def rows
  proof
    fix d
    assume d: "d \<in> set (email_deliveries s)"
    let ?e = "if p d then f d else d"
    have "?e \<in> set (map (\<lambda>d. if p d then f d else d) (email_deliveries s))" using d by simp
    moreover have "moved_forward d ?e" using assms(3) [OF d] by simp
    ultimately show "\<exists>e \<in> set (map (\<lambda>d. if p d then f d else d) (email_deliveries s)). moved_forward d e" by blast
  qed
  ultimately show ?thesis by (simp add: mails_ok_def)
qed

lemma mail_insert:
  assumes "insert_into email_deliveries set_email_deliveries email_delivery_schema d s = (r, t)" and "mails_ok s"
    and "mail_ok d"
  shows "mails_ok t \<and> mails_forward s t"
proof (cases r)
  case (Inl e)
  with assms(1,2) show ?thesis by (auto simp: ed_tbl.insert_Inl intro: mails_forward_refl)
next
  case (Inr u)
  with assms(1) have rows: "email_deliveries t = email_deliveries s @ [d]" by (auto dest: ed_tbl.insert_rows)
  have "schema_ok email_delivery_schema (email_deliveries t)"
    using keepsD [OF ed_tbl.insert_keeps_schema _ assms(1)] assms(2) by (simp add: mails_ok_def)
  then show ?thesis using assms(2,3) by (auto simp: mails_ok_def mails_forward_def rows intro: moved_forward_refl)
qed

lemma same_delivery:
  assumes "mails_ok s" and "d \<in> set (email_deliveries s)" and "e \<in> set (email_deliveries s)" and "ed_id d = ed_id e"
  shows "d = e"
  by (rule schema_ok_same_key [where u = "(''email_delivery.id'', \<lambda>d. Some [SText (ed_id d)])"])
    (use assms in \<open>auto simp: mails_ok_def email_delivery_schema_def\<close>)

lemma report_forward:
  assumes "projectEmailDeliveryStatus m st now s = (r, t)" and "mails_ok s"
  shows "mails_ok t \<and> mails_forward s t"
proof -
  have kept: ?thesis if "t = s" using that assms(2) by (simp add: mails_forward_refl)
  show ?thesis
  proof (cases "\<exists>messageId current u n. find (\<lambda>d. ed_provider_message_id d = Some messageId) (email_deliveries s) = Some current
      \<and> \<not> terminal_status (ed_status current) \<and> \<not> (ed_status current = MailDelivered \<and> st = ReportDelayed)
      \<and> update_in email_deliveries set_email_deliveries email_delivery_schema
           (\<lambda>d. ed_id d = ed_id current) (projected_row (reported_status st) now) s = (n, t)")
    case True
    then obtain messageId current u n where cur: "find (\<lambda>d. ed_provider_message_id d = Some messageId) (email_deliveries s) = Some current"
      and open_status: "\<not> terminal_status (ed_status current)" "\<not> (ed_status current = MailDelivered \<and> st = ReportDelayed)"
      and up: "update_in email_deliveries set_email_deliveries email_delivery_schema
           (\<lambda>d. ed_id d = ed_id current) (projected_row (reported_status st) now) s = (n, t)" by blast
    note mine = find_SomeD [OF cur]
    have "mail_ok current" using mine assms(2) by (simp add: mails_ok_def)
    show ?thesis
    proof (rule mail_update [OF up assms(2)])
      fix d
      assume "d \<in> set (email_deliveries s)" and "ed_id d = ed_id current"
      then have "d = current" using same_delivery [OF assms(2)] mine by blast
      then show "mail_ok (projected_row (reported_status st) now d)
          \<and> moved_forward d (projected_row (reported_status st) now d)"
        using mine open_status \<open>mail_ok current\<close>
        by (cases st; cases "ed_status current") (auto simp: mail_ok_def moved_forward_def projected_row_def terminal_status_def)
    qed
  next
    case False
    with assms(1) have "t = s"
      by (auto simp: projectEmailDeliveryStatus_def obind_def operation_defs atomic_def
          split: option.splits sum.splits prod.splits if_splits dest: ed_tbl.update_Inl)
    then show ?thesis by (rule kept)
  qed
qed

lemma mail_step_forward:
  assumes "mail_step s t" and "mails_ok s"
  shows "mails_ok t \<and> mails_forward s t"
  using assms(1)
proof (cases rule: mail_step.cases)
  case (begin_delivery inp now r)
  then consider "t = s" | d u where "insert_into email_deliveries set_email_deliveries email_delivery_schema d s = (u, t)"
    and "mail_ok d"
    by (auto simp: beginEmailDelivery_def new_delivery_def mail_ok_def obind_def operation_defs
        split: sum.splits prod.splits if_splits)
  then show ?thesis
  proof cases
    case (2 d u)
    then show ?thesis using mail_insert [OF _ assms(2)] by blast
  qed (use assms(2) in \<open>auto intro: mails_forward_refl\<close>)
next
  case (mark_sent i m now r)
  then consider "t = s" | x u where "update_in email_deliveries set_email_deliveries email_delivery_schema
      (\<lambda>d. ed_id d = i \<and> ed_status d = MailSending) (sent_row x now) s = (u, t)"
    by (auto simp: markEmailDeliverySent_def obind_def operation_defs split: sum.splits prod.splits)
  then show ?thesis
  proof cases
    case (2 x u)
    then show ?thesis by (rule mail_update [OF _ assms(2)]) (auto simp: mail_ok_def moved_forward_def sent_row_def)
  qed (use assms(2) in \<open>auto intro: mails_forward_refl\<close>)
next
  case (mark_failed i c now r)
  then consider "t = s" | x u where "update_in email_deliveries set_email_deliveries email_delivery_schema
      (\<lambda>d. ed_id d = i \<and> ed_status d = MailSending) (failed_row x now) s = (u, t)"
    by (auto simp: markEmailDeliveryFailed_def obind_def operation_defs split: sum.splits prod.splits)
  then show ?thesis
  proof cases
    case (2 x u)
    moreover have "mail_ok (failed_row x now d) \<and> moved_forward d (failed_row x now d)"
      if "d \<in> set (email_deliveries s)" "ed_id d = i \<and> ed_status d = MailSending" for d
      using that assms(2) by (auto simp: mails_ok_def mail_ok_def moved_forward_def failed_row_def)
    ultimately show ?thesis by (rule mail_update [OF _ assms(2)])
  qed (use assms(2) in \<open>auto intro: mails_forward_refl\<close>)
next
  case (report m st now r)
  then show ?thesis using assms(2) by (rule report_forward)
qed

interpretation mail: monotone_system mail_step "\<lambda>s t. mails_ok s \<longrightarrow> mails_ok t \<and> mails_forward s t"
  by unfold_locales (use mail_step_forward mails_forward_refl mails_forward_trans in blast)+

section \<open>Properties\<close>

text \<open>Whatever the sender and the webhooks do, and in whatever order, a delivery keeps its recipient and its status
  only moves forward; a final status stays, so a suppressed recipient stays suppressed.\<close>

theorem email_status_moves_forward:
  assumes "mail_step\<^sup>*\<^sup>* s t" and "mails_ok s"
  shows "(\<forall>d \<in> set (email_deliveries s). \<exists>e \<in> set (email_deliveries t). moved_forward d e)
    \<and> (isEmailRecipientSuppressed h s \<longrightarrow> isEmailRecipientSuppressed h t)"
proof -
  have fwd: "mails_forward s t" using mail.run_rel [OF assms(1)] assms(2) by blast
  have "isEmailRecipientSuppressed h t" if "isEmailRecipientSuppressed h s"
  proof (cases "is_sha256_hex h")
    case True
    with that obtain d where d: "d \<in> set (email_deliveries s)" "ed_recipient_hash d = h" "terminal_status (ed_status d)"
      by (auto simp: isEmailRecipientSuppressed_def list_ex_iff)
    with fwd obtain e where "e \<in> set (email_deliveries t)" "moved_forward d e" by (auto simp: mails_forward_def)
    with d True show ?thesis
      by (auto simp: isEmailRecipientSuppressed_def list_ex_iff moved_forward_def terminal_status_def)
  qed (simp add: isEmailRecipientSuppressed_def)
  with fwd show ?thesis by (simp add: mails_forward_def)
qed

definition bounced_db :: cloud_db where
  "bounced_db = empty_db\<lparr>email_deliveries := [\<lparr>ed_id = ''d1'', ed_provider = ''resend'', ed_provider_message_id = Some ''m1'',
     ed_kind = MailPasswordReset, ed_recipient_hash = replicate 64 CHR ''a'', ed_status = MailBounced, ed_error_code = None,
     ed_created_at = 1, ed_updated_at = 2\<rparr>]\<rparr>"

theorem email_status_moves_forward_witness:
  "\<exists>r t. projectEmailDeliveryStatus ''m1'' ReportDelivered 9 bounced_db = (r, t)
     \<and> isEmailRecipientSuppressed (replicate 64 CHR ''a'') bounced_db
     \<and> isEmailRecipientSuppressed (replicate 64 CHR ''a'') t"
proof -
  obtain r t where run: "projectEmailDeliveryStatus ''m1'' ReportDelivered 9 bounced_db = (r, t)" by fastforce
  then have "mail_step\<^sup>*\<^sup>* bounced_db t" by (blast intro: mail_step.report)
  moreover have "mails_ok bounced_db"
    by (simp add: mails_ok_def bounced_db_def empty_db_def mail_ok_def schema_ok_def row_ok_iff email_delivery_schema_def
        is_sha256_hex_def is_lower_hex_def list_all_iff distinct_key_def)
  moreover have "isEmailRecipientSuppressed (replicate 64 CHR ''a'') bounced_db"
    by (simp add: isEmailRecipientSuppressed_def bounced_db_def terminal_status_def)
  ultimately show ?thesis using email_status_moves_forward run by blast
qed

end
