(* ===== verification/Webhooks.thy ===== *)
theory Webhooks
  imports Http Billing Emails
begin

text \<open>
  The processors of the webhooks: \<open>StripeWebhookProcessor\<close> (\<open>stripeWebhook.ts\<close>), which turns a
  verified event into one projection of the billing tables, and \<open>ResendWebhookProcessor\<close>
  (\<open>resendWebhook.ts\<close>), which verifies the signature itself and reports a delivery status.

  What Stripe's library makes of a signed body is a parameter, as are the keyed digest, the base64
  and the UTF-8 decoder and the JSON parser. The clock is read once per use.
\<close>

section \<open>Values of an event\<close>

text \<open>A webhook whose signature does not hold throws the verification error of its processor.\<close>

datatype failure = Thrown db_error | VerificationError string

definition requiredString :: "json option \<Rightarrow> string \<Rightarrow> db_error + string" where
  "requiredString value what =
     (case json_string value of
        None \<Rightarrow> Inl (JsTypeError (''Stripe '' @ what @ '' is required''))
      | Some s \<Rightarrow> if trim s = [] then Inl (JsTypeError (''Stripe '' @ what @ '' is required'')) else Inr (trim s))"

definition optionalString :: "json option \<Rightarrow> string option" where
  "optionalString value = trim_or_null (json_string value)"

definition record_field :: "string \<Rightarrow> json option \<Rightarrow> json option" where
  "record_field k value = (case value of None \<Rightarrow> None | Some v \<Rightarrow> if isRecord v then field k v else None)"

definition expandableId :: "json option \<Rightarrow> string option" where
  "expandableId value =
     (case json_string value of
        Some s \<Rightarrow> trim_or_null (Some s)
      | None \<Rightarrow> optionalString (record_field ''id'' value))"

definition nullish_value :: "json option \<Rightarrow> bool" where
  "nullish_value v \<longleftrightarrow> v = None \<or> v = Some JsonNull"

definition secondsToMilliseconds :: "json option \<Rightarrow> string \<Rightarrow> db_error + int option" where
  "secondsToMilliseconds value what =
     (if nullish_value value then Inr None
      else case json_number value of
        None \<Rightarrow> Inl (JsTypeError (''Stripe '' @ what @ '' is invalid''))
      | Some n \<Rightarrow>
          if \<not> is_safe_integer n \<or> int_value n < 0 \<or> \<not> is_safe_int (int_value n * 1000)
          then Inl (JsTypeError (''Stripe '' @ what @ '' is invalid''))
          else Inr (Some (int_value n * 1000)))"

definition eventOrganizationId :: "json \<Rightarrow> string option" where
  "eventOrganizationId event = optionalString (record_field ''nubols_organization_id'' (field ''metadata'' event))"

definition customerOrganizationId :: "json \<Rightarrow> string \<Rightarrow> cloud_db \<Rightarrow> db_error + string" where
  "customerOrganizationId event stripeCustomerId db =
     sbind (case eventOrganizationId event of
              Some g \<Rightarrow> Inr (Some g)
            | None \<Rightarrow> sbind (getBillingCustomerByStripeId stripeCustomerId db) (\<lambda>c. Inr (map_option cus_organizationId c)))
       (\<lambda>found. case truthy found of
          None \<Rightarrow> Inl (JsTypeError ''Stripe nubols_organization_id is required'')
        | Some g \<Rightarrow> Inr g)"

section \<open>Projections\<close>

definition customerProjection :: "json \<Rightarrow> cloud_db \<Rightarrow> db_error + (string \<times> customer_input)" where
  "customerProjection event db =
     sbind (requiredString (field ''id'' event) ''customer id'') (\<lambda>stripeCustomerId.
     sbind (customerOrganizationId event stripeCustomerId db) (\<lambda>organizationId.
     Inr (organizationId,
       \<lparr>ci_stripeCustomerId = stripeCustomerId, ci_billingEmail = optionalString (field ''email'' event),
        ci_country = optionalString (record_field ''country'' (field ''address'' event))\<rparr>)))"

definition checkoutProjection :: "json \<Rightarrow> cloud_db \<Rightarrow> db_error + (string \<times> customer_input)" where
  "checkoutProjection event db =
     (case expandableId (field ''customer'' event) of
        None \<Rightarrow> Inl (JsTypeError ''Stripe Checkout customer id is required'')
      | Some stripeCustomerId \<Rightarrow>
          let details = field ''customer_details'' event in
          sbind (customerOrganizationId event stripeCustomerId db) (\<lambda>organizationId.
          Inr (organizationId,
            \<lparr>ci_stripeCustomerId = stripeCustomerId, ci_billingEmail = optionalString (record_field ''email'' details),
             ci_country = optionalString (record_field ''country'' (record_field ''address'' details))\<rparr>)))"

definition subscription_items :: "json \<Rightarrow> json list" where
  "subscription_items event =
     (case record_field ''data'' (field ''items'' event) of
        Some (JsonArray items) \<Rightarrow> filter isRecord items
      | _ \<Rightarrow> [])"

definition subscriptionProjection :: "json \<Rightarrow> cloud_db \<Rightarrow> db_error + (string \<times> subscription_input)" where
  "subscriptionProjection event db =
     (case expandableId (field ''customer'' event) of
        None \<Rightarrow> Inl (JsTypeError ''Stripe subscription customer id is required'')
      | Some stripeCustomerId \<Rightarrow>
          (case subscription_items event of
             [item] \<Rightarrow>
               (case field ''price'' item of
                  Some (JsonObject price) \<Rightarrow>
                    (case json_number (field ''quantity'' item) of
                       None \<Rightarrow> Inl (JsTypeError ''Stripe subscription quantity is invalid'')
                     | Some quantity \<Rightarrow>
                         if \<not> is_safe_integer quantity \<or> int_value quantity < 0
                         then Inl (JsTypeError ''Stripe subscription quantity is invalid'')
                         else
                         sbind (secondsToMilliseconds
                                  (if nullish_value (field ''current_period_end'' item) then field ''current_period_end'' event
                                   else field ''current_period_end'' item) ''subscription period end'') (\<lambda>currentPeriodEnd.
                         sbind (customerOrganizationId event stripeCustomerId db) (\<lambda>organizationId.
                         sbind (requiredString (field ''id'' event) ''subscription id'') (\<lambda>subscriptionId.
                         sbind (requiredString (field ''id'' (JsonObject price)) ''price id'') (\<lambda>priceId.
                         sbind (requiredString (field ''status'' event) ''subscription status'') (\<lambda>status.
                         Inr (organizationId,
                           \<lparr>si_stripeSubscriptionId = subscriptionId, si_stripePriceId = priceId, si_status = status,
                            si_entitledSeats = quantity,
                            si_cancelAtPeriodEnd = (json_bool (field ''cancel_at_period_end'' event) = Some True),
                            si_currentPeriodEnd = map_option JInt currentPeriodEnd\<rparr>)))))))
                | _ \<Rightarrow> Inl (JsTypeError ''Stripe subscription price is required''))
           | _ \<Rightarrow> Inl (JsTypeError ''Nubols subscriptions require exactly one Stripe price'')))"

definition invoiceSubscriptionId :: "json \<Rightarrow> db_error + string" where
  "invoiceSubscriptionId event =
     (case expandableId (field ''subscription'' event) of
        Some legacy \<Rightarrow> Inr legacy
      | None \<Rightarrow>
          (case expandableId (record_field ''subscription''
                  (record_field ''subscription_details'' (field ''parent'' event))) of
             Some current \<Rightarrow> Inr current
           | None \<Rightarrow> Inl (JsTypeError ''Stripe invoice subscription id is required'')))"

section \<open>The Stripe processor\<close>

text \<open>The event the library returns for a verified body; \<open>created\<close> and \<open>data.object\<close> are checked by the processor.\<close>

record stripe_webhook =
  sw_id :: string
  sw_type :: string
  sw_created :: "json option"
  sw_object :: "json option"

record stripe_webhook_result =
  swr_eventId :: string
  swr_type :: string
  swr_duplicate :: bool
  swr_processingResult :: stripe_result

record webhook_clock =
  wc_receivedAt :: js_num
  wc_processedAt :: js_num
  wc_failedAt :: js_num

definition webhook_input :: "stripe_webhook \<Rightarrow> int \<Rightarrow> webhook_clock \<Rightarrow> stripe_event_input" where
  "webhook_input event created clock =
     \<lparr>sei_stripeEventId = sw_id event, sei_type = sw_type event, sei_eventCreatedAt = JInt created,
      sei_receivedAt = wc_receivedAt clock\<rparr>"

definition webhook_result :: "stripe_webhook \<Rightarrow> bool \<Rightarrow> stripe_result \<Rightarrow> stripe_webhook_result" where
  "webhook_result event duplicate result =
     \<lparr>swr_eventId = sw_id event, swr_type = sw_type event, swr_duplicate = duplicate, swr_processingResult = result\<rparr>"

definition project_billing ::
  "stripe_event_input \<Rightarrow> (cloud_db \<Rightarrow> db_error + (string \<times> customer_input option \<times> subscription_input option))
     \<Rightarrow> js_num \<Rightarrow> stripe_result dbop"
where
  "project_billing inp projection now =
     obind (oread projection) (\<lambda>(organizationId, customer, subscription).
     obind (applyStripeBillingProjection
              \<lparr>bpi_event = inp, bpi_organizationId = organizationId, bpi_customer = customer,
               bpi_subscription = subscription\<rparr> now) (\<lambda>r.
     oreturn (pr_processingResult r)))"

definition project_paid :: "stripe_event_input \<Rightarrow> invoice_type \<Rightarrow> json \<Rightarrow> js_num \<Rightarrow> stripe_result dbop" where
  "project_paid inp kind event now =
     obind (olift (invoiceSubscriptionId event)) (\<lambda>subscriptionId.
     obind (applyStripeInvoiceProjection
              \<lparr>ii_stripeEventId = sei_stripeEventId inp, ii_type = kind, ii_eventCreatedAt = sei_eventCreatedAt inp,
               ii_receivedAt = sei_receivedAt inp, ii_stripeSubscriptionId = subscriptionId\<rparr> now) (\<lambda>r.
     oreturn (pr_processingResult r)))"

text \<open>The switch over the type of the event.\<close>

definition project_stripe_event :: "stripe_webhook \<Rightarrow> stripe_event_input \<Rightarrow> js_num \<Rightarrow> stripe_result dbop" where
  "project_stripe_event event inp now =
     (case sw_object event of
        Some (JsonObject fs) \<Rightarrow>
          let object = JsonObject fs; type = sw_type event in
          if type \<in> {''customer.created'', ''customer.updated''}
          then project_billing inp (\<lambda>db. sbind (customerProjection object db) (\<lambda>(g, c). Inr (g, Some c, None))) now
          else if type = ''checkout.session.completed''
          then project_billing inp (\<lambda>db. sbind (checkoutProjection object db) (\<lambda>(g, c). Inr (g, Some c, None))) now
          else if type \<in> {''customer.subscription.created'', ''customer.subscription.updated'', ''customer.subscription.deleted''}
          then project_billing inp (\<lambda>db. sbind (subscriptionProjection object db) (\<lambda>(g, x). Inr (g, None, Some x))) now
          else if type = ''invoice.paid'' then project_paid inp InvoicePaid object now
          else if type = ''invoice.payment_failed'' then project_paid inp InvoicePaymentFailed object now
          else obind (ignoreStripeEvent inp ''event type is not projected'' now) (\<lambda>_. oreturn StripeIgnored)
      | _ \<Rightarrow> othrow (JsTypeError ''Stripe event object is invalid''))"

text \<open>The handler of the \<open>catch\<close>: an attempt the projection has not counted yet is counted.\<close>

definition fail_once :: "stripe_webhook \<Rightarrow> stripe_event_input \<Rightarrow> int \<Rightarrow> js_num \<Rightarrow> db_error \<Rightarrow> stripe_result dbop" where
  "fail_once event inp attempts now e =
     obind (oread (getStripeEvent (sw_id event))) (\<lambda>current.
     obind (if map_option ser_attemptCount current = Some attempts
            then obind (failStripeEvent inp (error_message e) now) (\<lambda>_. oreturn ()) else oreturn ()) (\<lambda>_.
     othrow e))"

definition process_event :: "stripe_webhook \<Rightarrow> int \<Rightarrow> webhook_clock \<Rightarrow> stripe_webhook_result dbop" where
  "process_event event created clock =
     (let inp = webhook_input event created clock in
      obind (registerStripeEvent inp) (\<lambda>(registered, inserted).
      if settled registered
      then oreturn (webhook_result event True (ser_processingResult registered))
      else
      obind (ocatch (project_stripe_event event inp (wc_processedAt clock))
               (fail_once event inp (ser_attemptCount registered) (wc_failedAt clock))) (\<lambda>result.
      oreturn (webhook_result event (\<not> inserted) result))))"

definition thrown :: "'a dbop \<Rightarrow> cloud_db \<Rightarrow> (failure + 'a) \<times> cloud_db" where
  "thrown m db = (case m db of (Inl e, t) \<Rightarrow> (Inl (Thrown e), t) | (Inr x, t) \<Rightarrow> (Inr x, t))"

definition processStripeWebhook ::
  "(nat list \<Rightarrow> string \<Rightarrow> stripe_webhook option) \<Rightarrow> nat list \<Rightarrow> string \<Rightarrow> webhook_clock \<Rightarrow> cloud_db
     \<Rightarrow> (failure + stripe_webhook_result) \<times> cloud_db"
where
  "processStripeWebhook constructEvent rawBody signature clock db =
     (case constructEvent rawBody signature of
        None \<Rightarrow> (Inl (VerificationError ''stripe_webhook_verification_failed''), db)
      | Some event \<Rightarrow>
          thrown (obind (olift (secondsToMilliseconds (sw_created event) ''event creation time'')) (\<lambda>created.
            case created of
              None \<Rightarrow> othrow (JsTypeError ''Stripe event creation time is required'')
            | Some ms \<Rightarrow> process_event event ms clock)) db)"

section \<open>The Resend processor\<close>

definition maximumWebhookAgeSeconds :: int where
  "maximumWebhookAgeSeconds = 5 * 60"

text \<open>The secret of the constructor: the decoded text behind an optional prefix.\<close>

definition resend_secret :: "(string \<Rightarrow> nat list) \<Rightarrow> string \<Rightarrow> db_error + nat list" where
  "resend_secret base64 webhookSecret =
     (let given = trim webhookSecret;
          encoded = (if take 6 given = ''whsec_'' then drop 6 given else given) in
      if length (base64 encoded) < 16 then Inl (JsError ''Resend webhook secret is invalid'') else Inr (base64 encoded))"

definition resendStatus :: "json option \<Rightarrow> provider_status option" where
  "resendStatus value =
     (case json_string value of
        None \<Rightarrow> None
      | Some s \<Rightarrow>
          if s = ''email.delivered'' then Some ReportDelivered
          else if s = ''email.delivery_delayed'' then Some ReportDelayed
          else if s = ''email.bounced'' then Some ReportBounced
          else if s = ''email.complained'' then Some ReportComplained
          else if s = ''email.suppressed'' then Some ReportSuppressed else None)"

record resend_env =
  rse_hmac :: "string \<Rightarrow> nat list"
  rse_base64 :: "string \<Rightarrow> nat list"
  rse_utf8 :: "nat list \<Rightarrow> string"
  rse_number :: "string \<Rightarrow> js_num"
  rse_parse :: "string \<Rightarrow> json option"

text \<open>\<open>signatures.split(' ').some(\<dots>)\<close>: a candidate of version 1 that equals the digest.\<close>

definition signature_matches :: "resend_env \<Rightarrow> nat list \<Rightarrow> string \<Rightarrow> bool" where
  "signature_matches env expected signature =
     (case split_on CHR '','' signature of
        version # encoded # _ \<Rightarrow> version = ''v1'' \<and> encoded \<noteq> [] \<and> rse_base64 env encoded = expected
      | _ \<Rightarrow> False)"

definition header_text :: "(string \<Rightarrow> string option) \<Rightarrow> string \<Rightarrow> string" where
  "header_text headers name = (case headers name of None \<Rightarrow> [] | Some v \<Rightarrow> trim v)"

definition recent_timestamp :: "js_num \<Rightarrow> int \<Rightarrow> bool" where
  "recent_timestamp timestamp now \<longleftrightarrow>
     is_safe_integer timestamp \<and> \<bar>now div 1000 - int_value timestamp\<bar> \<le> maximumWebhookAgeSeconds"

definition resend_verified :: "resend_env \<Rightarrow> nat list \<Rightarrow> (string \<Rightarrow> string option) \<Rightarrow> int \<Rightarrow> bool" where
  "resend_verified env rawBody headers now \<longleftrightarrow>
     (let webhookId = header_text headers ''svix-id'';
          timestampText = header_text headers ''svix-timestamp'';
          signatures = header_text headers ''svix-signature'';
          signed = webhookId @ ''.'' @ timestampText @ ''.'' @ rse_utf8 env rawBody in
      webhookId \<noteq> [] \<and> recent_timestamp (rse_number env timestampText) now
      \<and> list_ex (signature_matches env (rse_hmac env signed)) (split_on CHR '' '' signatures))"

text \<open>The delivery and the status a payload reports; \<open>event.data?.email_id\<close>.\<close>

definition reported_delivery :: "json \<Rightarrow> (string \<times> provider_status) option" where
  "reported_delivery payload =
     (case (resendStatus (field ''type'' payload), json_string (Option.bind (field ''data'' payload) (field ''email_id''))) of
        (Some status, Some messageId) \<Rightarrow> if trim messageId = [] then None else Some (messageId, status)
      | _ \<Rightarrow> None)"

text \<open>The result tells whether a delivery was projected.\<close>

definition processResendWebhook ::
  "resend_env \<Rightarrow> nat list \<Rightarrow> (string \<Rightarrow> string option) \<Rightarrow> int \<Rightarrow> int \<Rightarrow> cloud_db \<Rightarrow> (failure + bool) \<times> cloud_db"
where
  "processResendWebhook env rawBody headers now projectedAt db =
     (if \<not> resend_verified env rawBody headers now
      then (Inl (VerificationError ''resend_webhook_verification_failed''), db)
      else case rse_parse env (rse_utf8 env rawBody) of
        None \<Rightarrow> (Inl (VerificationError ''resend_webhook_verification_failed''), db)
      | Some payload \<Rightarrow>
          (case reported_delivery payload of
             None \<Rightarrow> (Inr False, db)
           | Some (messageId, status) \<Rightarrow>
               thrown (obind (projectEmailDeliveryStatus messageId status projectedAt) (\<lambda>d. oreturn (d \<noteq> None))) db))"

section \<open>Attempts\<close>

text \<open>An event that is registered as a row, and what a counted failure leaves of it.\<close>

definition registered :: "stripe_event_input \<Rightarrow> string \<Rightarrow> stripe_event_row \<Rightarrow> cloud_db \<Rightarrow> bool" where
  "registered inp i row db \<longleftrightarrow>
     requiredStripeText (sei_stripeEventId inp) ''stripeEventId'' 255 = Inr i
     \<and> requiredStripeText (sei_type inp) ''type'' 255 = Inr (se_type row)
     \<and> stripeTimestamp (sei_eventCreatedAt inp) ''eventCreatedAt'' = Inr (se_event_created_at row)
     \<and> (\<exists>received. stripeTimestamp (sei_receivedAt inp) ''receivedAt'' = Inr received)
     \<and> findStripeEvent i db = Some row"

abbreviation events_ok :: "cloud_db \<Rightarrow> bool" where
  "events_ok db \<equiv> schema_ok stripe_event_schema (stripe_events db)"

definition attempt_failed :: "string \<Rightarrow> stripe_event_row \<Rightarrow> db_error \<Rightarrow> cloud_db \<Rightarrow> cloud_db \<Rightarrow> bool" where
  "attempt_failed i row e s t \<longleftrightarrow>
     t = set_stripe_events (stripe_events t) s
     \<and> (\<exists>ms. findStripeEvent i t = Some (completed_event StripeFailed (event_message (error_message e)) ms row))"

lemma registered_again: "registered inp i row u \<Longrightarrow> registerStripeEvent inp u = (Inr (toStripeEvent row, False), u)"
  unfolding registered_def by (elim conjE exE) (rule registerStripeEvent_again)

lemma registered_afterwards:
  assumes "registerStripeEvent inp s = (Inr (event, inserted), u)"
  obtains i row where "registered inp i row u" and "event = toStripeEvent row"
    and "ser_stripeEventId event = i" and "\<forall>x. set_stripe_events x u = set_stripe_events x s"
proof -
  from assms obtain i type created received n row where
    e: "requiredStripeText (sei_stripeEventId inp) ''stripeEventId'' 255 = Inr i"
      "requiredStripeText (sei_type inp) ''type'' 255 = Inr type"
      "stripeTimestamp (sei_eventCreatedAt inp) ''eventCreatedAt'' = Inr created"
    and ins: "insert_stripe_event (new_stripe_event i type created received) s = (Inr n, u)"
    and row: "findStripeEvent i u = Some row" "event = toStripeEvent row"
      "se_type row = type" "se_event_created_at row = created"
    by (rule registerStripeEvent_Inr)
  have "\<exists>received. stripeTimestamp (sei_receivedAt inp) ''receivedAt'' = Inr received"
    using assms by (auto simp: registerStripeEvent_def)
  with e row have "registered inp i row u" by (simp add: registered_def)
  moreover have "ser_stripeEventId event = i" using row findStripeEvent_id by (auto simp: toStripeEvent_def)
  moreover have "\<forall>x. set_stripe_events x u = set_stripe_events x s"
    using insert_stripe_event_Inr [OF ins] by (auto simp: set_stripe_events_def)
  ultimately show ?thesis using row(2) that by blast
qed

lemma registered_getStripeEvent:
  "registered inp i row u \<Longrightarrow> getStripeEvent i u = Inr (Some (toStripeEvent row))"
  "registered inp i row u \<Longrightarrow> getStripeEvent (sei_stripeEventId inp) u = Inr (Some (toStripeEvent row))"
  by (auto simp: registered_def getStripeEvent_def requiredStripeText_again)

lemma registered_id: "registered inp i row u \<Longrightarrow> ser_stripeEventId (toStripeEvent row) = i"
  by (auto simp: registered_def toStripeEvent_def dest: findStripeEvent_id)

lemma completion_of_registered:
  assumes "registered inp i row u" and "events_ok u" and "result \<noteq> StripePending"
  obtains x t where "completeStripeEvent i result message ms u = (Inr x, t)"
    and "t = set_stripe_events (stripe_events t) u"
    and "findStripeEvent i t = Some (completed_event result (event_message message) ms row)"
proof -
  from assms(1) have row: "findStripeEvent i u = Some row" and i: "requiredStripeText i ''stripeEventId'' 255 = Inr i"
    by (auto simp: registered_def requiredStripeText_again)
  from completeStripeEvent_ok [OF assms(2) row assms(3) i] obtain x t
    where run: "completeStripeEvent i result message ms u = (Inr x, t)" by blast
  from run show ?thesis
  proof (rule completeStripeEvent_Inr)
    fix row' assume "findStripeEvent i u = Some row'"
      and "findStripeEvent i t = Some (completed_event result (event_message message) ms row')"
      and "t = set_stripe_events (stripe_events t) u"
    with run row show ?thesis by (intro that) simp_all
  qed
qed

lemma failing_of_registered:
  assumes "registered inp i row u" and "events_ok u" and "\<not> settled (toStripeEvent row)" and "0 \<le> ms" and "ms \<le> MAX_SAFE_INTEGER"
  obtains x t where "failStripeEvent inp (error_message e) (JInt ms) u = (Inr x, t)" and "attempt_failed i row e u t"
proof -
  from completion_of_registered [OF assms(1,2), of StripeFailed "error_message e" ms] obtain x t
    where "completeStripeEvent i StripeFailed (error_message e) ms u = (Inr x, t)"
      and "t = set_stripe_events (stripe_events t) u"
      and "findStripeEvent i t = Some (completed_event StripeFailed (event_message (error_message e)) ms row)"
    by auto
  moreover have "stripeTimestamp (JInt ms) ''processedAt'' = Inr ms" using assms(4,5) by (simp add: stripeTimestamp_Inr)
  ultimately show ?thesis using assms(3)
    by (intro that [of x t])
      (auto simp: failStripeEvent_def registered_again [OF assms(1)] registered_id [OF assms(1)] attempt_failed_def
        obind_def operation_defs)
qed

text \<open>A projection that throws either has not counted the attempt or has counted it as failed.\<close>

lemma billing_projection_throws:
  assumes "applyStripeBillingProjection inp now u = (Inl e, t)" and "registered (bpi_event inp) i row u"
    and "events_ok u" and "\<not> settled (toStripeEvent row)"
  shows "t = u \<or> attempt_failed i row e u t"
proof (cases "stripeTimestamp now ''processedAt''")
  case (Inl x)
  with assms show ?thesis
    by (auto simp: applyStripeBillingProjection_def registered_again obind_def operation_defs)
next
  case (Inr ms)
  with assms obtain e' where "project_event inp (toStripeEvent row) False ms u = (Inl e', u)"
    and handler: "obind (completeStripeEvent i StripeFailed (error_message e') ms) (\<lambda>_. othrow e') u = (Inl e, t)"
    by (auto dest: project_event_Inl simp: applyStripeBillingProjection_def registered_again registered_id obind_def ocatch_def
        operation_defs split: prod.splits sum.splits)
  from completion_of_registered [OF assms(2,3), of StripeFailed "error_message e'" ms] obtain x v
    where "completeStripeEvent i StripeFailed (error_message e') ms u = (Inr x, v)"
      and "v = set_stripe_events (stripe_events v) u"
      and "findStripeEvent i v = Some (completed_event StripeFailed (event_message (error_message e')) ms row)"
    by auto
  with handler show ?thesis by (auto simp: attempt_failed_def obind_def operation_defs)
qed

lemma project_invoice_Inl: "project_invoice inp event inserted ms s = (Inl e, t) \<Longrightarrow> t = s"
  unfolding project_invoice_def by (rule atomic_rolls_back)

lemma invoice_projection_throws:
  assumes "applyStripeInvoiceProjection inp now u = (Inl e, t)" and "registered (invoice_event inp) i row u"
    and "events_ok u" and "\<not> settled (toStripeEvent row)"
  shows "t = u \<or> attempt_failed i row e u t"
proof (cases "getBillingSubscriptionByStripeId (ii_stripeSubscriptionId inp) u")
  case (Inl x)
  with assms show ?thesis
    by (auto simp: applyStripeInvoiceProjection_def registered_again obind_def operation_defs)
next
  case existing: (Inr existing)
  show ?thesis
  proof (cases "stripeTimestamp now ''processedAt''")
    case (Inl x)
    with existing assms show ?thesis
      by (auto simp: applyStripeInvoiceProjection_def registered_again obind_def operation_defs)
  next
    case now: (Inr ms)
    then have "0 \<le> ms" "ms \<le> MAX_SAFE_INTEGER" by (auto simp: stripeTimestamp_Inr)
    note failing = failing_of_registered [OF assms(2-4) this]
    show ?thesis
    proof (cases "project_invoice inp (toStripeEvent row) False ms u")
      case (Pair result v)
      show ?thesis
      proof (cases result)
        case (Inr x)
        with Pair existing now assms show ?thesis
          by (auto simp: applyStripeInvoiceProjection_def registered_again obind_def ocatch_def operation_defs)
      next
        case (Inl e')
        with Pair have failed: "project_invoice inp (toStripeEvent row) False ms u = (Inl e', u)"
          by (auto dest: project_invoice_Inl)
        from failing obtain x w where "failStripeEvent (invoice_event inp) (error_message e') (JInt ms) u = (Inr x, w)"
          and "attempt_failed i row e' u w" .
        with failed existing now assms show ?thesis
          by (auto simp: applyStripeInvoiceProjection_def registered_again registered_id registered_getStripeEvent obind_def
              ocatch_def operation_defs)
      qed
    qed
  qed
qed

lemma ignoring_throws:
  assumes "ignoreStripeEvent inp message now u = (Inl e, t)" and "registered inp i row u" and "events_ok u"
    and "\<not> settled (toStripeEvent row)"
  shows "t = u"
proof (cases "stripeTimestamp now ''processedAt''")
  case (Inl x)
  with assms show ?thesis by (auto simp: ignoreStripeEvent_def registered_again obind_def operation_defs)
next
  case (Inr ms)
  obtain x v where "completeStripeEvent i StripeIgnored message ms u = (Inr x, v)"
    by (rule completion_of_registered [OF assms(2,3), of StripeIgnored message ms]) auto
  with Inr assms show ?thesis
    by (auto simp: ignoreStripeEvent_def registered_again registered_id obind_def operation_defs)
qed

lemma olift_Inl [simp]: "olift r s = (Inl e, t) \<longleftrightarrow> r = Inl e \<and> t = s"
  by (auto simp: operation_defs)

lemma oread_Inl [simp]: "oread g s = (Inl e, t) \<longleftrightarrow> g s = Inl e \<and> t = s"
  by (auto simp: operation_defs)

lemma othrow_Inl [simp]: "othrow x s = (Inl e, t) \<longleftrightarrow> e = x \<and> t = s"
  by (auto simp: operation_defs)

lemma oreturn_Inl [simp]: "oreturn x s = (Inl e, t) \<longleftrightarrow> False"
  by (simp add: operation_defs)

text \<open>The two inputs of a projection name the same event.\<close>

lemma invoice_event_of:
  assumes "sei_type inp = invoice_type_name kind"
  shows "invoice_event \<lparr>ii_stripeEventId = sei_stripeEventId inp, ii_type = kind,
     ii_eventCreatedAt = sei_eventCreatedAt inp, ii_receivedAt = sei_receivedAt inp, ii_stripeSubscriptionId = x\<rparr> = inp"
  using assms by (simp add: invoice_event_def)

lemma project_billing_throws:
  assumes "project_billing inp projection now u = (Inl e, t)" and "registered inp i row u" and "events_ok u"
    and "\<not> settled (toStripeEvent row)"
  shows "t = u \<or> attempt_failed i row e u t"
proof -
  from assms(1) have "t = u \<or> (\<exists>x. applyStripeBillingProjection x now u = (Inl e, t) \<and> bpi_event x = inp)"
    by (auto simp: project_billing_def obind_eq_Inl split: prod.splits)
  with billing_projection_throws [OF _ _ assms(3,4)] assms(2) show ?thesis by blast
qed

lemma project_paid_throws:
  assumes "project_paid inp kind event now u = (Inl e, t)" and "registered inp i row u" and "events_ok u"
    and "\<not> settled (toStripeEvent row)" and "sei_type inp = invoice_type_name kind"
  shows "t = u \<or> attempt_failed i row e u t"
proof -
  from assms(1) have "t = u \<or> (\<exists>x. applyStripeInvoiceProjection x now u = (Inl e, t) \<and> invoice_event x = inp)"
    using invoice_event_of [OF assms(5)] by (auto simp: project_paid_def obind_eq_Inl)
  with invoice_projection_throws [OF _ _ assms(3,4)] assms(2) show ?thesis by blast
qed

lemma project_stripe_event_throws:
  assumes "project_stripe_event event inp now u = (Inl e, t)" and "registered inp i row u" and "events_ok u"
    and "\<not> settled (toStripeEvent row)" and "sei_type inp = sw_type event"
  shows "t = u \<or> attempt_failed i row e u t"
proof (cases "\<exists>fs. sw_object event = Some (JsonObject fs)")
  case True
  then obtain fs where fs: "sw_object event = Some (JsonObject fs)" by blast
  show ?thesis
    using assms(1) unfolding project_stripe_event_def fs option.case json.case Let_def
    by (auto split: if_splits simp: obind_eq_Inl
        dest: project_billing_throws [OF _ assms(2-4)] project_paid_throws [OF _ assms(2-4)] ignoring_throws [OF _ assms(2-4)]
        simp: assms(5) invoice_type_name_def)
next
  case False
  with assms(1) show ?thesis
    by (auto simp: project_stripe_event_def split: option.splits json.splits)
qed

lemma failing_is_counted:
  assumes "fail_once event inp (ser_attemptCount (toStripeEvent row)) (JInt ms) e t = (r, v)"
    and "t = u \<or> attempt_failed i row e u t" and "registered inp i row u" and "events_ok u"
    and "\<not> settled (toStripeEvent row)" and "0 \<le> ms" and "ms \<le> MAX_SAFE_INTEGER" and "sei_stripeEventId inp = sw_id event"
  shows "r = Inl e \<and> attempt_failed i row e u v"
  using assms(2)
proof (elim disjE)
  assume "t = u"
  obtain x w where "failStripeEvent inp (error_message e) (JInt ms) u = (Inr x, w)" and "attempt_failed i row e u w"
    by (rule failing_of_registered [OF assms(3-7)])
  with assms(1) \<open>t = u\<close> registered_getStripeEvent [OF assms(3)] assms(8) show ?thesis
    by (auto simp: fail_once_def obind_def operation_defs)
next
  assume failed: "attempt_failed i row e u t"
  then obtain p where found: "findStripeEvent i t = Some (completed_event StripeFailed (event_message (error_message e)) p row)"
    by (auto simp: attempt_failed_def)
  have i: "requiredStripeText (sw_id event) ''stripeEventId'' 255 = Inr i" using assms(3,8) by (simp add: registered_def)
  have "getStripeEvent (sw_id event) t = Inr (Some (toStripeEvent (completed_event StripeFailed (event_message (error_message e)) p row)))"
    using i found by (simp add: getStripeEvent_def)
  with assms(1) failed show ?thesis
    by (auto simp: fail_once_def obind_def operation_defs toStripeEvent_def)
qed

section \<open>Settled events\<close>

definition settled_as :: "string \<Rightarrow> stripe_event_row \<Rightarrow> stripe_result \<Rightarrow> cloud_db \<Rightarrow> bool" where
  "settled_as i row result t \<longleftrightarrow>
     (\<exists>r. findStripeEvent i t = Some r \<and> se_type r = se_type row \<and> se_event_created_at r = se_event_created_at row
        \<and> se_processing_result r = result) \<and> (result = StripeApplied \<or> result = StripeIgnored)"

lemma completion_settles:
  assumes "completeStripeEvent i result message ms v = (Inr x, t)" and "stripe_events v = stripe_events u"
    and "registered inp i row u" and "result = StripeApplied \<or> result = StripeIgnored"
  shows "settled_as i row result t"
  using assms(1)
proof (rule completeStripeEvent_Inr)
  fix row' assume "findStripeEvent i v = Some row'"
    and "findStripeEvent i t = Some (completed_event result (event_message message) ms row')"
  moreover from this(1) assms(2,3) have "row' = row" by (simp add: registered_def findStripeEvent_def)
  ultimately show ?thesis using assms(4) by (simp add: settled_as_def)
qed

lemma project_invoice_Inr:
  assumes "project_invoice inp event inserted ms s = (Inr r, t)"
  obtains u message x where "stripe_events u = stripe_events s"
    and "completeStripeEvent (ser_stripeEventId event) (pr_processingResult r) message ms u = (Inr x, t)"
    and "pr_processingResult r = StripeApplied \<or> pr_processingResult r = StripeIgnored"
proof -
  have "pr_processingResult r = StripeApplied \<or> (pr_processingResult r = StripeIgnored
      \<and> (\<exists>x. completeStripeEvent (ser_stripeEventId event) StripeIgnored ''stale invoice projection'' ms s = (Inr x, t)))"
    using assms by (auto simp: project_invoice_def Let_def split: option.splits if_splits prod.splits)
  then show ?thesis
  proof (elim disjE conjE exE)
    assume applied: "pr_processingResult r = StripeApplied"
    with assms show ?thesis
    proof (rule project_invoice_applied)
      fix sub u v w n k x message
      assume "update_in subscriptions set_subscriptions subscription_schema (\<lambda>r. su_organization_id r = sub_organizationId sub)
          (invoiced_row (fst (invoice_payment (ii_type inp) event sub ms)) (snd (invoice_payment (ii_type inp) event sub ms))
             event ms) s = (Inr n, v)"
        and "reconcileStripeAssignedEntitlements u ms v = (Inr k, w)"
        and fin: "completeStripeEvent (ser_stripeEventId event) StripeApplied message ms w = (Inr x, t)"
      then have "stripe_events w = stripe_events s"
        using keepsD [OF projections_keep_events(4) refl] keepsD [OF projections_keep_events(3)] by metis
      with fin applied show ?thesis by (intro that) simp_all
    qed
  qed (use that in auto)
qed

lemma billing_projection_returns:
  assumes "applyStripeBillingProjection inp now u = (Inr r, t)" and "registered (bpi_event inp) i row u"
    and "\<not> settled (toStripeEvent row)"
  shows "settled_as i row (pr_processingResult r) t"
proof -
  from assms obtain ms where "project_event inp (toStripeEvent row) False ms u = (Inr r, t)"
    by (auto simp: applyStripeBillingProjection_def registered_again obind_def ocatch_def operation_defs
        split: prod.splits sum.splits)
  then show ?thesis
  proof (rule project_event_Inr)
    fix v message x
    assume "stripe_events v = stripe_events u"
      and "completeStripeEvent (ser_stripeEventId (toStripeEvent row)) (pr_processingResult r) message ms v = (Inr x, t)"
      and "pr_processingResult r = StripeApplied \<or> pr_processingResult r = StripeIgnored"
    then show ?thesis using completion_settles [OF _ _ assms(2)] registered_id [OF assms(2)] by simp
  qed
qed

lemma invoice_projection_returns:
  assumes "applyStripeInvoiceProjection inp now u = (Inr r, t)" and "registered (invoice_event inp) i row u"
    and "\<not> settled (toStripeEvent row)"
  shows "settled_as i row (pr_processingResult r) t"
proof -
  from assms obtain ms where "project_invoice inp (toStripeEvent row) False ms u = (Inr r, t)"
    by (auto simp: applyStripeInvoiceProjection_def registered_again obind_def ocatch_def operation_defs
        split: prod.splits sum.splits)
  then show ?thesis
  proof (rule project_invoice_Inr)
    fix v message x
    assume "stripe_events v = stripe_events u"
      and "completeStripeEvent (ser_stripeEventId (toStripeEvent row)) (pr_processingResult r) message ms v = (Inr x, t)"
      and "pr_processingResult r = StripeApplied \<or> pr_processingResult r = StripeIgnored"
    then show ?thesis using completion_settles [OF _ _ assms(2)] registered_id [OF assms(2)] by simp
  qed
qed

lemma ignoring_returns:
  assumes "ignoreStripeEvent inp message now u = (Inr r, t)" and "registered inp i row u" and "\<not> settled (toStripeEvent row)"
  shows "settled_as i row StripeIgnored t"
proof -
  from assms obtain ms x where "completeStripeEvent i StripeIgnored message ms u = (Inr x, t)"
    by (auto simp: ignoreStripeEvent_def registered_again registered_id obind_def operation_defs split: prod.splits sum.splits)
  from completion_settles [OF this refl assms(2)] show ?thesis by simp
qed

lemma project_stripe_event_returns:
  assumes "project_stripe_event event inp now u = (Inr result, t)" and "registered inp i row u"
    and "\<not> settled (toStripeEvent row)" and "sei_type inp = sw_type event"
  shows "settled_as i row result t"
proof -
  have billing: "settled_as i row result t" if "project_billing inp projection now u = (Inr result, t)" for projection
  proof -
    from that obtain x r where "applyStripeBillingProjection x now u = (Inr r, t)" "bpi_event x = inp"
      and "result = pr_processingResult r"
      by (auto simp: project_billing_def split: prod.splits)
    with billing_projection_returns [OF _ _ assms(3)] assms(2) show ?thesis by blast
  qed
  have paid: "settled_as i row result t"
    if paid: "project_paid inp kind object now u = (Inr result, t)" and kind: "sei_type inp = invoice_type_name kind"
    for kind object
  proof -
    from paid obtain x r where "applyStripeInvoiceProjection x now u = (Inr r, t)" "invoice_event x = inp"
      and "result = pr_processingResult r"
      using invoice_event_of [OF kind] by (auto simp: project_paid_def)
    with invoice_projection_returns [OF _ _ assms(3)] assms(2) show ?thesis by blast
  qed
  from assms(1) obtain fs where fs: "sw_object event = Some (JsonObject fs)"
    by (auto simp: project_stripe_event_def split: option.splits json.splits)
  show ?thesis
    using assms(1) unfolding project_stripe_event_def fs option.case json.case Let_def
    by (auto split: if_splits dest: billing paid ignoring_returns [OF _ assms(2,3)] simp: assms(4) invoice_type_name_def)
qed

section \<open>Properties\<close>

lemma process_event_cases:
  assumes "process_event event created clock s = (r, t)"
    and "registerStripeEvent (webhook_input event created clock) s = (Inr (known, inserted), u)"
  shows "settled known \<Longrightarrow> r = Inr (webhook_result event True (ser_processingResult known)) \<and> t = u"
    and "\<not> settled known \<Longrightarrow>
      (\<exists>result. project_stripe_event event (webhook_input event created clock) (wc_processedAt clock) u = (Inr result, t)
         \<and> r = Inr (webhook_result event (\<not> inserted) result))
      \<or> (\<exists>e v x. project_stripe_event event (webhook_input event created clock) (wc_processedAt clock) u = (Inl e, v)
         \<and> fail_once event (webhook_input event created clock) (ser_attemptCount known) (wc_failedAt clock) e v = (x, t)
         \<and> r = map_sum id (webhook_result event (\<not> inserted)) x)"
  using assms
  by (auto simp: process_event_def Let_def obind_def ocatch_def operation_defs split: prod.splits sum.splits)

lemma fail_once_throws: "fail_once event inp n now e v = (x, t) \<Longrightarrow> \<exists>e'. x = Inl e'"
  by (cases x) (auto simp: fail_once_def)

lemma webhook_input_simps [simp]:
  "sei_stripeEventId (webhook_input event created clock) = sw_id event"
  "sei_type (webhook_input event created clock) = sw_type event"
  "sei_eventCreatedAt (webhook_input event created clock) = JInt created"
  "sei_receivedAt (webhook_input event created clock) = wc_receivedAt clock"
  by (simp_all add: webhook_input_def)

text \<open>C23: A webhook delivery that fails after its event was registered, whether the payload cannot be
  read or the projection throws, rolls everything back but the event, which is marked failed with the
  message of the error and with exactly one more attempt, so that the next delivery tries again.\<close>

theorem failed_delivery_counts_once:
  assumes "process_event event created clock s = (Inl e, t)"
    and "registerStripeEvent (webhook_input event created clock) s = (Inr (known, inserted), u)" and "\<not> settled known"
    and "wc_failedAt clock = JInt ms" and "0 \<le> ms" and "ms \<le> MAX_SAFE_INTEGER" and "events_ok s"
  shows "t = set_stripe_events (stripe_events t) s
    \<and> (\<exists>row. findStripeEvent (ser_stripeEventId known) t = Some row \<and> se_processing_result row = StripeFailed
        \<and> se_attempt_count row = ser_attemptCount known + 1
        \<and> se_processing_message row = event_message (error_message e))"
proof -
  let ?inp = "webhook_input event created clock"
  from assms(2) obtain i row where row: "registered ?inp i row u" and known: "known = toStripeEvent row"
    and i: "ser_stripeEventId known = i" and base: "\<forall>x. set_stripe_events x u = set_stripe_events x s"
    by (rule registered_afterwards)
  have ok: "events_ok u"
    using assms(2) by (rule registerStripeEvent_Inr) (rule keepsD [OF insert_stripe_event_keeps_schema assms(7)])
  from process_event_cases(2) [OF assms(1-3)] obtain e' v x where
    thrown: "project_stripe_event event ?inp (wc_processedAt clock) u = (Inl e', v)"
    and handler: "fail_once event ?inp (ser_attemptCount known) (wc_failedAt clock) e' v = (x, t)"
    and x: "Inl e = map_sum id (webhook_result event (\<not> inserted)) x"
    by auto
  have "v = u \<or> attempt_failed i row e' u v"
    by (rule project_stripe_event_throws [OF thrown row ok]) (use assms(3) known in simp_all)
  with handler have "x = Inl e' \<and> attempt_failed i row e' u t"
    unfolding known assms(4) by (rule failing_is_counted [OF _ _ row ok]) (use assms(3,5,6) known in simp_all)
  with x have "attempt_failed i row e u t" by simp
  with known i base show ?thesis unfolding attempt_failed_def by (auto simp: toStripeEvent_def)
qed

lemma settled_redelivery:
  assumes "settled_as i row result t" and "registered inp i row u"
    and "stripeTimestamp (sei_receivedAt again) ''receivedAt'' = Inr received"
    and "sei_stripeEventId again = sei_stripeEventId inp" and "sei_type again = sei_type inp"
    and "sei_eventCreatedAt again = sei_eventCreatedAt inp"
  obtains known where "registerStripeEvent again t = (Inr (known, False), t)" and "settled known"
    and "ser_processingResult known = result"
proof -
  from assms(1) obtain r where r: "findStripeEvent i t = Some r" "se_type r = se_type row"
      "se_event_created_at r = se_event_created_at row" "se_processing_result r = result"
      "result = StripeApplied \<or> result = StripeIgnored"
    by (auto simp: settled_as_def)
  with assms(2-6) have "registered again i r t" by (simp add: registered_def)
  from registered_again [OF this] r show ?thesis by (intro that) (auto simp: settled_def toStripeEvent_def)
qed

text \<open>C24: An event takes effect once: delivered again, whatever its signature and the clock, a webhook
  that was answered before changes nothing and is answered as a duplicate with the same result,
  whether the event was projected, found stale or not projected at all.\<close>

theorem settled_delivery_is_duplicate:
  assumes "processStripeWebhook constructEvent body signature clock s = (Inr r, t)"
    and "constructEvent body again = constructEvent body signature"
    and "wc_receivedAt later = JInt received" and "0 \<le> received" and "received \<le> MAX_SAFE_INTEGER"
  shows "processStripeWebhook constructEvent body again later t = (Inr (r\<lparr>swr_duplicate := True\<rparr>), t)"
proof -
  from assms(1) obtain event created where event: "constructEvent body signature = Some event"
    and created: "secondsToMilliseconds (sw_created event) ''event creation time'' = Inr (Some created)"
    and run: "process_event event created clock s = (Inr r, t)"
    by (auto simp: processStripeWebhook_def thrown_def obind_def operation_defs split: option.splits sum.splits prod.splits)
  let ?inp = "webhook_input event created clock" and ?later = "webhook_input event created later"
  from run obtain known inserted u where reg: "registerStripeEvent ?inp s = (Inr (known, inserted), u)"
    by (auto simp: process_event_def Let_def)
  from reg obtain i row where row: "registered ?inp i row u" and known: "known = toStripeEvent row"
    by (rule registered_afterwards)
  have "\<exists>result duplicate. settled_as i row result t \<and> r = webhook_result event duplicate result"
  proof (cases "settled known")
    case True
    with process_event_cases(1) [OF run reg] row known show ?thesis
      by (auto simp: settled_as_def settled_def registered_def toStripeEvent_def)
  next
    case False
    with process_event_cases(2) [OF run reg] obtain result where
      "project_stripe_event event ?inp (wc_processedAt clock) u = (Inr result, t)"
      and "r = webhook_result event (\<not> inserted) result"
      by (auto dest!: fail_once_throws)
    moreover from this(1) have "settled_as i row result t"
      by (rule project_stripe_event_returns [OF _ row]) (use False known in simp_all)
    ultimately show ?thesis by blast
  qed
  then obtain result duplicate where settled: "settled_as i row result t" and r: "r = webhook_result event duplicate result"
    by blast
  obtain known' where "registerStripeEvent ?later t = (Inr (known', False), t)" and "settled known'"
    and "ser_processingResult known' = result"
    by (rule settled_redelivery [OF settled row, of ?later received])
      (use assms(3-5) in \<open>simp_all add: stripeTimestamp_Inr\<close>)
  then have "process_event event created later t = (Inr (webhook_result event True result), t)"
    by (simp add: process_event_def Let_def obind_def operation_defs)
  with event created assms(2) r show ?thesis
    by (simp add: processStripeWebhook_def thrown_def obind_def operation_defs webhook_result_def)
qed

lemma signature_matches_iff:
  "signature_matches env expected x \<longleftrightarrow>
     (\<exists>encoded rest. split_on CHR '','' x = ''v1'' # encoded # rest \<and> encoded \<noteq> [] \<and> rse_base64 env encoded = expected)"
  by (cases "split_on CHR '','' x" rule: remdups_adj.cases) (auto simp: signature_matches_def)

text \<open>C25: A Resend webhook changes the database only if it is recent and one of its version 1
  signatures is the keyed digest of its identifier, timestamp and body; then it does nothing but
  report the status its payload names to the delivery its payload names.\<close>

theorem resend_webhook_needs_signature:
  assumes "processResendWebhook env body headers now projectedAt s = (r, t)" and "t \<noteq> s"
  shows "header_text headers ''svix-id'' \<noteq> []
      \<and> recent_timestamp (rse_number env (header_text headers ''svix-timestamp'')) now
      \<and> (\<exists>x encoded rest. x \<in> set (split_on CHR '' '' (header_text headers ''svix-signature''))
           \<and> split_on CHR '','' x = ''v1'' # encoded # rest
           \<and> rse_base64 env encoded = rse_hmac env (header_text headers ''svix-id'' @ ''.''
                @ header_text headers ''svix-timestamp'' @ ''.'' @ rse_utf8 env body))
      \<and> (\<exists>payload m status. rse_parse env (rse_utf8 env body) = Some payload
           \<and> reported_delivery payload = Some (m, status) \<and> t = snd (projectEmailDeliveryStatus m status projectedAt s))"
proof -
  from assms have verified: "resend_verified env body headers now"
    by (auto simp: processResendWebhook_def split: if_splits)
  with assms have "\<exists>payload m status. rse_parse env (rse_utf8 env body) = Some payload
      \<and> reported_delivery payload = Some (m, status) \<and> t = snd (projectEmailDeliveryStatus m status projectedAt s)"
    by (auto simp: processResendWebhook_def thrown_def obind_def operation_defs split: option.splits prod.splits sum.splits)
  with verified show ?thesis
    by (auto simp: resend_verified_def Let_def list_ex_iff signature_matches_iff)
qed

section \<open>The properties on concrete deliveries\<close>

definition sample_clock :: webhook_clock where
  "sample_clock = \<lparr>wc_receivedAt = JInt 8000, wc_processedAt = JInt 8001, wc_failedAt = JInt 8002\<rparr>"

definition sample_webhook :: "string \<Rightarrow> stripe_webhook" where
  "sample_webhook type = \<lparr>sw_id = ''evt_1'', sw_type = type, sw_created = Some (JsonNumber (JInt 7)),
     sw_object = Some (JsonObject [(''id'', JsonString ''cus_1'')])\<rparr>"

lemma sample_registration:
  assumes "trim type = type" and "1 \<le> length type" and "length type \<le> 255"
  shows "\<exists>known u. registerStripeEvent (webhook_input (sample_webhook type) 7000 sample_clock) sample_db = (Inr (known, True), u)
     \<and> ser_stripeEventId known = ''evt_1'' \<and> ser_attemptCount known = 0 \<and> \<not> settled known"
proof -
  have "requiredStripeText type ''type'' 255 = Inr type" using assms by (auto simp: requiredStripeText_Inr)
  with assms(2,3) show ?thesis
    by (simp add: webhook_input_def sample_webhook_def sample_clock_def billing_run sample_run)
qed

theorem failed_delivery_counts_once_witness:
  "\<exists>e t row. process_event (sample_webhook ''customer.created'') 7000 sample_clock sample_db = (Inl e, t)
     \<and> findStripeEvent ''evt_1'' t = Some row \<and> se_processing_result row = StripeFailed \<and> se_attempt_count row = 1"
proof -
  have "case process_event (sample_webhook ''customer.created'') 7000 sample_clock sample_db of
      (Inl e, t) \<Rightarrow> True | _ \<Rightarrow> False"
    by code_simp
  then obtain e t where run: "process_event (sample_webhook ''customer.created'') 7000 sample_clock sample_db = (Inl e, t)"
    by (auto split: prod.splits sum.splits)
  have type: "trim ''customer.created'' = ''customer.created''" by code_simp
  from sample_registration [OF type] obtain known u where
    reg: "registerStripeEvent (webhook_input (sample_webhook ''customer.created'') 7000 sample_clock) sample_db
      = (Inr (known, True), u)" and known: "ser_stripeEventId known = ''evt_1''" "ser_attemptCount known = 0" "\<not> settled known"
    by auto
  have "events_ok sample_db" by (simp add: sample_db_def empty_db_def schema_ok_def distinct_key_def)
  from failed_delivery_counts_once [OF run reg known(3) _ _ _ this, of 8002] known(1,2) run show ?thesis
    by (auto simp: sample_clock_def MAX_SAFE_INTEGER_def)
qed

theorem settled_delivery_is_duplicate_witness:
  "\<exists>r t. processStripeWebhook (\<lambda>_ _. Some (sample_webhook ''plan.created'')) [1] ''t=1,v1=a'' sample_clock sample_db = (Inr r, t)
     \<and> processStripeWebhook (\<lambda>_ _. Some (sample_webhook ''plan.created'')) [1] ''t=2,v1=b''
         (sample_clock\<lparr>wc_receivedAt := JInt 9000\<rparr>) t = (Inr (r\<lparr>swr_duplicate := True\<rparr>), t)"
proof -
  have "case processStripeWebhook (\<lambda>_ _. Some (sample_webhook ''plan.created'')) [1] ''t=1,v1=a'' sample_clock sample_db of
      (Inr r, t) \<Rightarrow> True | _ \<Rightarrow> False"
    by code_simp
  then obtain r t where run:
    "processStripeWebhook (\<lambda>_ _. Some (sample_webhook ''plan.created'')) [1] ''t=1,v1=a'' sample_clock sample_db = (Inr r, t)"
    by (auto split: prod.splits sum.splits)
  from settled_delivery_is_duplicate [OF run, where again = "''t=2,v1=b''"
      and later = "sample_clock\<lparr>wc_receivedAt := JInt 9000\<rparr>" and received = 9000] run
  show ?thesis by (auto simp: MAX_SAFE_INTEGER_def)
qed

definition sample_resend :: resend_env where
  "sample_resend = \<lparr>rse_hmac = (\<lambda>_. [7]), rse_base64 = (\<lambda>_. [7]), rse_utf8 = (\<lambda>_. ''{}''), rse_number = (\<lambda>_. JInt 100),
     rse_parse = (\<lambda>_. Some (JsonObject [(''type'', JsonString ''email.bounced''),
       (''data'', JsonObject [(''email_id'', JsonString ''m1'')])]))\<rparr>"

definition sample_headers :: "string \<Rightarrow> string option" where
  "sample_headers name = map_of [(''svix-id'', ''msg''), (''svix-timestamp'', ''100''), (''svix-signature'', ''v1,abc'')] name"

definition sent_db :: cloud_db where
  "sent_db = bounced_db\<lparr>email_deliveries := map (\<lambda>d. d\<lparr>ed_status := MailSent\<rparr>) (email_deliveries bounced_db)\<rparr>"

theorem resend_webhook_needs_signature_witness:
  "\<exists>t. processResendWebhook sample_resend [1] sample_headers 120000 9 sent_db = (Inr True, t) \<and> t \<noteq> sent_db
     \<and> t = snd (projectEmailDeliveryStatus ''m1'' ReportBounced 9 sent_db)"
proof -
  have "case processResendWebhook sample_resend [1] sample_headers 120000 9 sent_db of
      (Inr True, t) \<Rightarrow> map ed_status (email_deliveries t) = [MailBounced] | _ \<Rightarrow> False"
    by code_simp
  then obtain t where run: "processResendWebhook sample_resend [1] sample_headers 120000 9 sent_db = (Inr True, t)"
    and status: "map ed_status (email_deliveries t) = [MailBounced]"
    by (auto split: prod.splits sum.splits bool.splits)
  have "map ed_status (email_deliveries sent_db) = [MailSent]" by code_simp
  with status have "t \<noteq> sent_db" by auto
  moreover have "reported_delivery (JsonObject [(''type'', JsonString ''email.bounced''),
       (''data'', JsonObject [(''email_id'', JsonString ''m1'')])]) = Some (''m1'', ReportBounced)"
    by code_simp
  ultimately show ?thesis
    using resend_webhook_needs_signature [OF run] run by (auto simp: sample_resend_def)
qed

end
