(* ===== verification/Server.thy ===== *)
theory Server
  imports Webhooks
begin

text \<open>
  The request handler of the control plane (\<open>createControlPlaneHandler\<close> in
  \<open>src/apps/control-plane/src/server.ts\<close>): which operation a request reaches, with which
  arguments and after which checks, and what is answered. \<open>dispatch\<close> goes through the routes in
  the order of the code and ends in a reply or in an operation to perform; \<open>answer\<close> turns the
  operation's result or error into the reply.

  The callbacks of \<open>ControlPlaneHandlerOptions\<close> are the operations of the other theories; what
  the verifying ones (session, authorizers, workspace authentication) say of the request is part of
  the environment. The texts of error messages are left out.
\<close>

section \<open>Requests, operations, replies\<close>

record http_request =
  hq_method :: string
  hq_hostname :: string
  hq_pathname :: string
  hq_search :: string
  hq_query :: "string \<Rightarrow> string option"
  hq_header :: "string \<Rightarrow> string option"
  hq_chunks :: "nat list list"

datatype public_op =
    ServePublished string string
  | StripeEvent "nat list" string
  | ResendEvent "nat list"
  | SubmitContact contact_form
  | Authenticate

record publication_settings =
  pst_port :: int
  pst_protocol :: service_protocol
  pst_visibility :: service_visibility
  pst_ttlSeconds :: "int option"

datatype publication_op = ListPublications | PublishService string publication_settings | RevokeService string

datatype admin_op =
    ListContacts "contact_status option" int "(int \<times> string) option"
  | ExportContacts "contact_status option"
  | UpdateContact string contact_status
  | UpsertEntitlement entitlement_input
  | RevokeEntitlement string string
  | RevokePublications string string string
  | ListControls
  | UpdateControl string bool string string
  | ListWorkers
  | RegisterWorker register_host_request
  | UpdateWorker string update_host_request "string option"

datatype account_op =
    InvitationStatus string string
  | ListPlanAccounts
  | CreatePlanAccount plan_account_type nubols_plan string
  | JoinOrganization string
  | EnsureWorkspace string
  | EnsureRunning string

datatype organization_op =
    GetMembers
  | DisableMember string bool
  | AssignSeat string
  | RevokeSeat string
  | GetOperators
  | GetPublications
  | ConnectPublication string string bool
  | GetDashboard int
  | GetAdmin
  | GetAudit int "int option"
  | RotateJoinCode
  | RenameOrganization string
  | OrganizationUsage int int bool

datatype workspace_op =
    OperatorRuntime string
  | RestartWorkspace string
  | ProxyRuntime string string
  | PersonalUsage int int

text \<open>An account operation carries the user, an organization or workspace operation the user and the organization.\<close>

datatype server_op =
    PublicOp public_op
  | PublicationOp string publication_op
  | AdminOp admin_op
  | AccountOp string account_op
  | OrganizationOp string string organization_op
  | WorkspaceOp string string workspace_op

text \<open>
  \<open>Refused status code retryable\<close> is an error response, \<open>Success status\<close> the result as JSON,
  \<open>Relayed\<close> the response of the callback itself; \<open>Rejected\<close> means that an exception leaves the
  handler.
\<close>

datatype reply = Refused nat string bool | Success nat | Relayed | Rejected

datatype outcome = Reply reply | Perform server_op

datatype admin_scope = ContactScope | EntitlementScope | PlatformScope | WorkerScope

record server_env =
  se_hostnameSuffix :: "string option"
  se_configured :: "string \<Rightarrow> bool"
  se_publicationPaused :: bool
  se_publicationAuth :: "(string \<Rightarrow> bool) option"
  se_authorize :: "admin_scope \<Rightarrow> bool option"
  se_session :: "auth_session option"
  se_contactOrigins :: "string list"
  se_clientAddress :: "string option"
  se_number :: "string \<Rightarrow> js_num"
  se_parseJSON :: "nat list \<Rightarrow> json option"
  se_json :: "nat list \<Rightarrow> json option"
  se_cursor :: "string \<Rightarrow> json option"
  se_now :: int
  se_ready :: bool

abbreviation refuse :: "nat \<Rightarrow> string \<Rightarrow> outcome" where
  "refuse status code \<equiv> Reply (Refused status code False)"

abbreviation retry_later :: "nat \<Rightarrow> string \<Rightarrow> outcome" where
  "retry_later status code \<equiv> Reply (Refused status code True)"

abbreviation invalid :: outcome where
  "invalid \<equiv> refuse 400 ''invalid_request''"

abbreviation no_route :: outcome where
  "no_route \<equiv> refuse 404 ''not_found''"

text \<open>\<open>handler ? perform : unavailable\<close>.\<close>

definition configured :: "server_env \<Rightarrow> string \<Rightarrow> string \<Rightarrow> outcome \<Rightarrow> outcome" where
  "configured env handler code result = (if se_configured env handler then result else retry_later 503 code)"

definition declared_length :: "server_env \<Rightarrow> http_request \<Rightarrow> js_num" where
  "declared_length env req =
     (case hq_header req ''content-length'' of None \<Rightarrow> JInt 0 | Some t \<Rightarrow> se_number env t)"

definition bounded_bytes :: "server_env \<Rightarrow> http_request \<Rightarrow> nat \<Rightarrow> body_error + nat list" where
  "bounded_bytes env req maximum = readBoundedBytes (declared_length env req) (hq_chunks req) maximum"

definition bounded_json :: "server_env \<Rightarrow> http_request \<Rightarrow> nat \<Rightarrow> json option" where
  "bounded_json env req maximum =
     (case readBoundedJSON (se_parseJSON env) (declared_length env req) (hq_chunks req) maximum of
        Inl _ \<Rightarrow> None | Inr v \<Rightarrow> Some v)"

text \<open>\<open>request.json()\<close>.\<close>

definition request_json :: "server_env \<Rightarrow> http_request \<Rightarrow> json option" where
  "request_json env req = se_json env (concat (hq_chunks req))"

text \<open>The path between slashes; a pattern \<open>[^/]+\<close> is a segment that is not empty.\<close>

definition segments :: "string \<Rightarrow> string list" where
  "segments path = split_on CHR ''/'' path"

definition decoded :: "string \<Rightarrow> (string \<Rightarrow> outcome) \<Rightarrow> outcome" where
  "decoded s continue = (case decodeURIComponent s of None \<Rightarrow> invalid | Some x \<Rightarrow> continue x)"

definition decoded_id :: "string \<Rightarrow> (string \<Rightarrow> outcome) \<Rightarrow> outcome" where
  "decoded_id s continue = decoded s (\<lambda>x. if trim x = [] then invalid else continue x)"

section \<open>Public routes\<close>

text \<open>\<open>/^\/p\/([^/]+)(\/.*)?$/\<close>.\<close>

definition published_match :: "string \<Rightarrow> (string \<times> string) option" where
  "published_match path =
     (case segments path of
        e # p # slug # rest \<Rightarrow>
          if e = [] \<and> p = ''p'' \<and> slug \<noteq> [] then Some (slug, concat (map (\<lambda>s. CHR ''/'' # s) rest)) else None
      | _ \<Rightarrow> None)"

definition published_route :: "server_env \<Rightarrow> http_request \<Rightarrow> outcome option" where
  "published_route env req =
     (case (matchPublishedServiceHostname (hq_hostname req) (se_hostnameSuffix env), published_match (hq_pathname req)) of
        (HostInvalid, _) \<Rightarrow> Some no_route
      | (HostNone, None) \<Rightarrow> None
      | (host, path) \<Rightarrow> Some (
          if hq_method req = ''CONNECT'' \<or> hq_method req = ''TRACE'' then refuse 405 ''method_not_allowed''
          else if hq_header req ''upgrade'' \<noteq> None then refuse 426 ''upgrade_not_supported''
          else if se_publicationPaused env then retry_later 503 ''platform_publication_paused''
          else if \<not> se_configured env ''proxyPublishedService'' then no_route
          else
            (case (host, path) of
               (HostService slug, _) \<Rightarrow> Perform (PublicOp (ServePublished slug (hq_pathname req @ hq_search req)))
             | (_, Some (slug, rest)) \<Rightarrow>
                 Perform (PublicOp (ServePublished slug ((if rest = [] then ''/'' else rest) @ hq_search req)))
             | _ \<Rightarrow> no_route)))"

definition stripeWebhookMaximumBytes :: nat where
  "stripeWebhookMaximumBytes = 256 * 1024"

definition stripe_route :: "server_env \<Rightarrow> http_request \<Rightarrow> outcome option" where
  "stripe_route env req =
     (if hq_pathname req \<noteq> ''/api/webhooks/stripe'' then None
      else Some (
        if hq_method req \<noteq> ''POST'' then refuse 405 ''method_not_allowed''
        else configured env ''handleStripeWebhook'' ''stripe_webhook_unavailable'' (
          case trim_or_null (hq_header req ''stripe-signature'') of
            None \<Rightarrow> refuse 400 ''stripe_webhook_verification_failed''
          | Some signature \<Rightarrow>
              if take 16 (toLowerCase (null_text (hq_header req ''content-type''))) \<noteq> ''application/json'' then invalid
              else (case bounded_bytes env req stripeWebhookMaximumBytes of
                 Inl RequestTooLarge \<Rightarrow> refuse 413 ''request_too_large''
               | Inl InvalidJson \<Rightarrow> invalid
               | Inr rawBody \<Rightarrow> if rawBody = [] then invalid else Perform (PublicOp (StripeEvent rawBody signature))))))"

definition resend_route :: "server_env \<Rightarrow> http_request \<Rightarrow> outcome option" where
  "resend_route env req =
     (if hq_pathname req \<noteq> ''/api/webhooks/resend'' then None
      else Some (
        if hq_method req \<noteq> ''POST'' then refuse 405 ''method_not_allowed''
        else configured env ''handleResendWebhook'' ''resend_webhook_unavailable'' (
          case bounded_bytes env req (256 * 1024) of
            Inl RequestTooLarge \<Rightarrow> refuse 413 ''request_too_large''
          | Inl InvalidJson \<Rightarrow> retry_later 503 ''resend_webhook_processing_failed''
          | Inr rawBody \<Rightarrow> Perform (PublicOp (ResendEvent rawBody)))))"

definition contactRequestMaximumBytes :: nat where
  "contactRequestMaximumBytes = 16 * 1024"

text \<open>A robot that fills in the hidden field is told that its request was received.\<close>

definition contact_route :: "server_env \<Rightarrow> http_request \<Rightarrow> outcome option" where
  "contact_route env req =
     (if hq_method req \<noteq> ''POST'' \<or> hq_pathname req \<noteq> ''/api/contact'' then None
      else Some (
        case truthy (hq_header req ''origin'') of
          None \<Rightarrow> refuse 403 ''contact_origin_denied''
        | Some origin \<Rightarrow>
            if origin \<notin> set (se_contactOrigins env) then refuse 403 ''contact_origin_denied''
            else configured env ''submitContact'' ''contact_unavailable'' (
              case readBoundedJSON (se_parseJSON env) (declared_length env req) (hq_chunks req) contactRequestMaximumBytes of
                Inl RequestTooLarge \<Rightarrow> refuse 413 ''request_too_large''
              | Inl InvalidJson \<Rightarrow> invalid
              | Inr parsed \<Rightarrow>
                  (case contactRequest (se_clientAddress env) parsed of
                     None \<Rightarrow> invalid
                   | Some (form, Some website) \<Rightarrow> Reply (Success 202)
                   | Some (form, None) \<Rightarrow> Perform (PublicOp (SubmitContact form))))))"

definition auth_route :: "server_env \<Rightarrow> http_request \<Rightarrow> outcome option" where
  "auth_route env req =
     (if take 10 (hq_pathname req) \<noteq> ''/api/auth/'' then None
      else Some (configured env ''authHandler'' ''auth_unavailable'' (Perform (PublicOp Authenticate))))"

section \<open>Publications of a workspace\<close>

text \<open>\<open>value ?? fallback\<close>.\<close>

definition nullish :: "json option \<Rightarrow> json option" where
  "nullish v = (if v = Some JsonNull then None else v)"

definition publication_protocol :: "json option \<Rightarrow> service_protocol option" where
  "publication_protocol v =
     (case nullish v of
        None \<Rightarrow> Some ProtoHttp
      | Some p \<Rightarrow> if p = JsonString ''http'' then Some ProtoHttp else if p = JsonString ''tcp'' then Some ProtoTcp else None)"

definition publication_visibility :: "json option \<Rightarrow> service_visibility option" where
  "publication_visibility v =
     (case nullish v of
        None \<Rightarrow> Some VisPublic
      | Some p \<Rightarrow> if p = JsonString ''public'' then Some VisPublic
                  else if p = JsonString ''private'' then Some VisPrivate else None)"

text \<open>\<open>Inl ()\<close> for a time to live out of bounds.\<close>

definition publication_ttl :: "json option \<Rightarrow> unit + int option" where
  "publication_ttl v =
     (case nullish v of
        None \<Rightarrow> Inr None
      | Some t \<Rightarrow>
          (case json_number (Some t) of
             None \<Rightarrow> Inl ()
           | Some n \<Rightarrow>
               if is_safe_integer n \<and> publishedServiceMinimumTTLSeconds \<le> int_value n
                  \<and> int_value n \<le> publishedServiceMaximumTTLSeconds
               then Inr (Some (int_value n)) else Inl ()))"

definition publication_settings_of :: "json \<Rightarrow> publication_settings option" where
  "publication_settings_of body =
     (if \<not> isRecord body \<or> \<not> hasOnlyKeys body [''port'', ''protocol'', ''visibility'', ''ttlSeconds'']
         \<or> \<not> isPublishedServicePort (field ''port'' body) then None
      else
        case (publication_protocol (field ''protocol'' body), publication_visibility (field ''visibility'' body),
              publication_ttl (field ''ttlSeconds'' body)) of
          (Some protocol, Some visibility, Inr ttl) \<Rightarrow>
            if protocol = ProtoTcp \<and> visibility \<noteq> VisPublic then None
            else Some \<lparr>pst_port = int_value (number_field ''port'' body), pst_protocol = protocol,
                       pst_visibility = visibility, pst_ttlSeconds = ttl\<rparr>
        | _ \<Rightarrow> None)"

definition publicationRequestMaximumBytes :: nat where
  "publicationRequestMaximumBytes = 1024"

definition publication_request :: "server_env \<Rightarrow> http_request \<Rightarrow> string \<Rightarrow> string option \<Rightarrow> outcome" where
  "publication_request env req workspaceId name =
     (case name of
        None \<Rightarrow>
          if hq_method req = ''GET''
          then configured env ''listWorkspacePublications'' ''workspace_publication_unavailable''
                 (Perform (PublicationOp workspaceId ListPublications))
          else no_route
      | Some n \<Rightarrow>
          if hq_method req = ''PUT''
          then if se_publicationPaused env then retry_later 503 ''platform_publication_paused''
               else configured env ''upsertWorkspacePublication'' ''workspace_publication_unavailable'' (
                 case Option.bind (bounded_json env req publicationRequestMaximumBytes) publication_settings_of of
                   None \<Rightarrow> invalid
                 | Some settings \<Rightarrow> Perform (PublicationOp workspaceId (PublishService n settings)))
          else if hq_method req = ''DELETE''
          then configured env ''revokeWorkspacePublication'' ''workspace_publication_unavailable''
                 (Perform (PublicationOp workspaceId (RevokeService n)))
          else no_route)"

definition publication_match :: "string \<Rightarrow> (string \<times> string option) option" where
  "publication_match path =
     (case segments path of
        [e, a, w, i, p] \<Rightarrow>
          if [e, a, w, p] = [[], ''api'', ''workspaces'', ''publications''] \<and> i \<noteq> [] then Some (i, None) else None
      | [e, a, w, i, p, n] \<Rightarrow>
          if [e, a, w, p] = [[], ''api'', ''workspaces'', ''publications''] \<and> i \<noteq> [] \<and> n \<noteq> [] then Some (i, Some n) else None
      | _ \<Rightarrow> None)"

definition publications_route :: "server_env \<Rightarrow> http_request \<Rightarrow> outcome option" where
  "publications_route env req =
     (case publication_match (hq_pathname req) of
        None \<Rightarrow> None
      | Some (encodedId, encodedName) \<Rightarrow> Some (
          case se_publicationAuth env of
            None \<Rightarrow> retry_later 503 ''workspace_publication_unavailable''
          | Some authenticated \<Rightarrow>
              decoded encodedId (\<lambda>workspaceId.
              case (case encodedName of None \<Rightarrow> Some None
                    | Some n \<Rightarrow> map_option (Some \<circ> toLowerCase) (decodeURIComponent n)) of
                None \<Rightarrow> invalid
              | Some name \<Rightarrow>
                  if trim workspaceId = []
                     \<or> (case name of None \<Rightarrow> False | Some n \<Rightarrow> \<not> isPublishedServiceName n) then invalid
                  else if \<not> authenticated workspaceId then refuse 401 ''workspace_authentication_required''
                  else publication_request env req workspaceId name)))"

section \<open>Administration\<close>

text \<open>The verdict of the authorizer of a scope, if there is one.\<close>

definition administrator :: "server_env \<Rightarrow> admin_scope \<Rightarrow> string \<Rightarrow> string \<Rightarrow> outcome \<Rightarrow> outcome" where
  "administrator env scope missing denied result =
     (case se_authorize env scope of
        None \<Rightarrow> retry_later 503 missing
      | Some authorized \<Rightarrow> if authorized then result else refuse 401 denied)"

definition contact_member :: "string \<Rightarrow> string option" where
  "contact_member path =
     (case segments path of
        [e, a, v, c, i] \<Rightarrow> if [e, a, v, c] = [[], ''internal'', ''v1'', ''contact-requests''] \<and> i \<noteq> [] then Some i else None
      | _ \<Rightarrow> None)"

definition contact_update :: "json \<Rightarrow> contact_status option" where
  "contact_update body =
     (if \<not> isRecord body \<or> \<not> hasOnlyKeys body [''status''] then None
      else case json_string (field ''status'' body) of
        None \<Rightarrow> None
      | Some s \<Rightarrow> (case contactStatus (Some s) of Inl _ \<Rightarrow> None | Inr x \<Rightarrow> x))"

definition contact_admin_request :: "server_env \<Rightarrow> http_request \<Rightarrow> contact_status option \<Rightarrow> outcome" where
  "contact_admin_request env req status =
     (if hq_method req = ''GET'' \<and> hq_pathname req = ''/internal/v1/contact-requests''
      then
        (case (se_number env (case hq_query req ''limit'' of None \<Rightarrow> ''50'' | Some t \<Rightarrow> t),
               decodeContactCursor (se_cursor env) (hq_query req ''cursor'')) of
           (JInt limit, Inr before) \<Rightarrow>
             if 1 \<le> limit \<and> limit \<le> 200 then Perform (AdminOp (ListContacts status limit before)) else invalid
         | _ \<Rightarrow> invalid)
      else if hq_method req = ''GET'' \<and> hq_pathname req = ''/internal/v1/contact-requests/export.csv''
      then Perform (AdminOp (ExportContacts status))
      else
        (case (hq_method req = ''PATCH'', contact_member (hq_pathname req)) of
           (True, Some encoded) \<Rightarrow>
             decoded encoded (\<lambda>requestId.
             case Option.bind (bounded_json env req 1024) contact_update of
               None \<Rightarrow> invalid
             | Some requested \<Rightarrow> Perform (AdminOp (UpdateContact requestId requested)))
         | _ \<Rightarrow> no_route))"

definition contact_admin_route :: "server_env \<Rightarrow> http_request \<Rightarrow> outcome option" where
  "contact_admin_route env req =
     (if hq_pathname req \<noteq> ''/internal/v1/contact-requests'' \<and> hq_pathname req \<noteq> ''/internal/v1/contact-requests/export.csv''
         \<and> contact_member (hq_pathname req) = None then None
      else Some (administrator env ContactScope ''contact_administration_unavailable''
          ''contact_administrator_authentication_required'' (
        if \<not> se_configured env ''listContactRequests'' \<or> \<not> se_configured env ''updateContactRequestStatus''
        then retry_later 503 ''contact_administration_unavailable''
        else case contactStatus (hq_query req ''status'') of
          Inl _ \<Rightarrow> invalid
        | Inr status \<Rightarrow> contact_admin_request env req status)))"

definition entitlement_match :: "string \<Rightarrow> string option" where
  "entitlement_match path =
     (case segments path of
        [e, a, v, t, p, i] \<Rightarrow>
          if [e, a, v, t, p] = [[], ''internal'', ''v1'', ''entitlements'', ''operator''] \<and> i \<noteq> [] then Some i else None
      | _ \<Rightarrow> None)"

definition entitlement_route :: "server_env \<Rightarrow> http_request \<Rightarrow> outcome option" where
  "entitlement_route env req =
     map_option (\<lambda>encoded.
       administrator env EntitlementScope ''entitlement_administration_unavailable''
         ''entitlement_administrator_authentication_required'' (
       decoded_id encoded (\<lambda>membershipId.
       if hq_method req = ''PUT''
       then configured env ''upsertOperatorEntitlement'' ''entitlement_update_unavailable'' (
         case bounded_json env req 1024 of
           None \<Rightarrow> invalid
         | Some body \<Rightarrow>
             if isUpsertOperatorEntitlementRequest body
             then Perform (AdminOp (UpsertEntitlement (entitlement_request membershipId body))) else invalid)
       else if hq_method req = ''DELETE''
       then configured env ''revokeOperatorEntitlement'' ''entitlement_update_unavailable'' (
         case trim_or_null (hq_query req ''organizationId'') of
           None \<Rightarrow> invalid
         | Some organizationId \<Rightarrow> Perform (AdminOp (RevokeEntitlement membershipId organizationId)))
       else no_route)))
     (entitlement_match (hq_pathname req))"

definition with_actor :: "http_request \<Rightarrow> (string \<Rightarrow> outcome) \<Rightarrow> outcome" where
  "with_actor req continue =
     (case platformAdministratorActor (hq_header req ''x-nebula-admin-actor'') of
        None \<Rightarrow> refuse 400 ''platform_administrator_actor_required''
      | Some actor \<Rightarrow> continue actor)"

definition revocation_match :: "string \<Rightarrow> string option" where
  "revocation_match path =
     (case segments path of
        [e, a, v, g, i, p, r] \<Rightarrow>
          if [e, a, v, g, p, r] = [[], ''internal'', ''v1'', ''organizations'', ''publications'', ''revoke''] \<and> i \<noteq> []
          then Some i else None
      | _ \<Rightarrow> None)"

definition revocation_route :: "server_env \<Rightarrow> http_request \<Rightarrow> outcome option" where
  "revocation_route env req =
     map_option (\<lambda>encoded.
       administrator env PlatformScope ''platform_administration_unavailable''
         ''platform_administrator_authentication_required'' (
       if hq_method req \<noteq> ''POST'' then no_route
       else configured env ''revokeOrganizationPublications'' ''organization_publication_revocation_unavailable'' (
         decoded_id encoded (\<lambda>organizationId.
         with_actor req (\<lambda>actor.
         case bounded_json env req 1024 of
           None \<Rightarrow> invalid
         | Some body \<Rightarrow>
             if isRecord body \<and> hasOnlyKeys body [''reason''] \<and> valid_reason (field ''reason'' body)
             then Perform (AdminOp (RevokePublications organizationId actor (text_field ''reason'' body)))
             else invalid)))))
     (revocation_match (hq_pathname req))"

definition control_member :: "string \<Rightarrow> string option" where
  "control_member path =
     (case segments path of
        [e, a, v, c, i] \<Rightarrow> if [e, a, v, c] = [[], ''internal'', ''v1'', ''platform-controls''] \<and> i \<noteq> [] then Some i else None
      | _ \<Rightarrow> None)"

definition control_route :: "server_env \<Rightarrow> http_request \<Rightarrow> outcome option" where
  "control_route env req =
     (if hq_pathname req \<noteq> ''/internal/v1/platform-controls'' \<and> control_member (hq_pathname req) = None then None
      else Some (administrator env PlatformScope ''platform_administration_unavailable''
          ''platform_administrator_authentication_required'' (
        if hq_method req = ''GET'' \<and> hq_pathname req = ''/internal/v1/platform-controls''
        then configured env ''listPlatformControls'' ''platform_controls_unavailable'' (Perform (AdminOp ListControls))
        else
          (case (hq_method req = ''PATCH'', control_member (hq_pathname req)) of
             (True, Some encoded) \<Rightarrow>
               configured env ''updatePlatformControl'' ''platform_control_update_unavailable'' (
               decoded encoded (\<lambda>name.
               if \<not> isPlatformControlName name then invalid
               else with_actor req (\<lambda>actor.
                 case bounded_json env req 1024 of
                   None \<Rightarrow> invalid
                 | Some body \<Rightarrow>
                     if isUpdatePlatformControlRequest body
                     then Perform (AdminOp (UpdateControl name (json_bool (field ''paused'' body) = Some True)
                            (text_field ''reason'' body) actor))
                     else invalid)))
           | _ \<Rightarrow> no_route))))"

definition worker_member :: "string \<Rightarrow> string option" where
  "worker_member path =
     (case segments path of
        [e, a, v, w, i] \<Rightarrow> if [e, a, v, w] = [[], ''internal'', ''v1'', ''workers''] \<and> i \<noteq> [] then Some i else None
      | _ \<Rightarrow> None)"

definition worker_route :: "server_env \<Rightarrow> http_request \<Rightarrow> outcome option" where
  "worker_route env req =
     (if hq_pathname req \<noteq> ''/internal/v1/workers'' \<and> worker_member (hq_pathname req) = None then None
      else Some (administrator env WorkerScope ''worker_administration_unavailable''
          ''worker_administrator_authentication_required'' (
        if hq_method req = ''GET'' \<and> hq_pathname req = ''/internal/v1/workers''
        then configured env ''listWorkerHosts'' ''worker_administration_unavailable'' (Perform (AdminOp ListWorkers))
        else if hq_method req = ''POST'' \<and> hq_pathname req = ''/internal/v1/workers''
        then configured env ''registerWorkerHost'' ''worker_registration_unavailable'' (
          case request_json env req of
            None \<Rightarrow> invalid
          | Some body \<Rightarrow>
              if isRegisterWorkerHostRequest body then Perform (AdminOp (RegisterWorker (register_request body))) else invalid)
        else
          (case (hq_method req = ''PATCH'', worker_member (hq_pathname req)) of
             (True, Some encoded) \<Rightarrow>
               configured env ''updateWorkerHost'' ''worker_update_unavailable'' (
               decoded encoded (\<lambda>workerHostId.
               case request_json env req of
                 None \<Rightarrow> invalid
               | Some body \<Rightarrow>
                   if \<not> isUpdateWorkerHostRequest body then invalid
                   else if field ''action'' body = None
                   then Perform (AdminOp (UpdateWorker workerHostId (update_request body) None))
                   else with_actor req (\<lambda>actor.
                     Perform (AdminOp (UpdateWorker workerHostId (update_request body) (Some actor))))))
           | _ \<Rightarrow> no_route))))"

section \<open>Routes of a signed-in user\<close>

definition signed_in :: "server_env \<Rightarrow> (auth_session \<Rightarrow> outcome) \<Rightarrow> outcome" where
  "signed_in env continue =
     (case se_session env of None \<Rightarrow> refuse 401 ''authentication_required'' | Some s \<Rightarrow> continue s)"

text \<open>The active organization of the session.\<close>

definition with_organization :: "auth_session \<Rightarrow> (string \<Rightarrow> outcome) \<Rightarrow> outcome" where
  "with_organization s continue =
     (case truthy (as_activeOrganizationId s) of
        None \<Rightarrow> refuse 403 ''active_organization_required'' | Some g \<Rightarrow> continue g)"

definition invitation_match :: "string \<Rightarrow> string option" where
  "invitation_match path =
     (case segments path of
        [e, a, i, n, s] \<Rightarrow> if [e, a, i, s] = [[], ''api'', ''invitations'', ''status''] \<and> n \<noteq> [] then Some n else None
      | _ \<Rightarrow> None)"

definition invitation_route :: "server_env \<Rightarrow> http_request \<Rightarrow> outcome option" where
  "invitation_route env req =
     map_option (\<lambda>encoded.
       if hq_method req \<noteq> ''GET'' then refuse 405 ''method_not_allowed''
       else signed_in env (\<lambda>s.
         if as_email s = [] then retry_later 503 ''invitation_status_unavailable''
         else configured env ''getInvitationStatus'' ''invitation_status_unavailable'' (
           decoded_id encoded (\<lambda>i.
           if length i > 256 then invalid
           else Perform (AccountOp (as_userId s) (InvitationStatus i (as_email s)))))))
     (invitation_match (hq_pathname req))"

definition plan_type_of :: "json option \<Rightarrow> plan_account_type option" where
  "plan_type_of v =
     (case json_string v of
        None \<Rightarrow> None
      | Some s \<Rightarrow> if s = ''individual'' then Some AccIndividual else if s = ''organization'' then Some AccOrganization else None)"

definition plan_of :: "json option \<Rightarrow> nubols_plan option" where
  "plan_of v =
     (case json_string v of
        None \<Rightarrow> None
      | Some s \<Rightarrow>
          if s = ''individual'' then Some PlanIndividual else if s = ''team'' then Some PlanTeam
          else if s = ''business'' then Some PlanBusiness else if s = ''enterprise'' then Some PlanEnterprise else None)"

text \<open>
  A body that is read as an object: the properties of \<open>null\<close> cannot be read, which throws outside
  every \<open>try\<close> of the handler; those of every other value can.
\<close>

definition object_body :: "server_env \<Rightarrow> http_request \<Rightarrow> (json \<Rightarrow> outcome) \<Rightarrow> outcome" where
  "object_body env req continue =
     (case request_json env req of
        None \<Rightarrow> invalid
      | Some body \<Rightarrow> if body = JsonNull then Reply Rejected else continue body)"

definition plan_route :: "server_env \<Rightarrow> http_request \<Rightarrow> outcome option" where
  "plan_route env req =
     (if hq_pathname req \<noteq> ''/api/plan-accounts'' then None
      else Some (signed_in env (\<lambda>s.
        if hq_method req = ''GET''
        then configured env ''listPlanAccounts'' ''plan_accounts_unavailable'' (Perform (AccountOp (as_userId s) ListPlanAccounts))
        else if hq_method req = ''POST''
        then configured env ''createPlanAccount'' ''plan_accounts_unavailable'' (
          object_body env req (\<lambda>body.
          case (plan_type_of (field ''accountType'' body), plan_of (field ''plan'' body),
                trim_or_null (json_string (field ''organizationId'' body))) of
            (Some accountType, Some plan, Some organizationId) \<Rightarrow>
              Perform (AccountOp (as_userId s) (CreatePlanAccount accountType plan organizationId))
          | _ \<Rightarrow> invalid))
        else refuse 405 ''method_not_allowed'')))"

definition join_route :: "server_env \<Rightarrow> http_request \<Rightarrow> outcome option" where
  "join_route env req =
     (if hq_method req \<noteq> ''POST'' \<or> hq_pathname req \<noteq> ''/api/organizations/join'' then None
      else Some (signed_in env (\<lambda>s.
        configured env ''joinOrganization'' ''organization_join_unavailable'' (
        object_body env req (\<lambda>body.
        if isNonEmptyString (field ''code'' body)
        then Perform (AccountOp (as_userId s) (JoinOrganization (text_field ''code'' body))) else invalid)))))"

text \<open>\<open>POST /api/workspaces/personal\<close> and \<open>/api/workspaces/personal/ensure-running\<close>.\<close>

definition personal_route :: "server_env \<Rightarrow> http_request \<Rightarrow> outcome option" where
  "personal_route env req =
     (if hq_method req \<noteq> ''POST''
         \<or> hq_pathname req \<notin> {''/api/workspaces/personal'', ''/api/workspaces/personal/ensure-running''} then None
      else
        let running = (hq_pathname req = ''/api/workspaces/personal/ensure-running'') in
        Some (signed_in env (\<lambda>s.
        configured env (if running then ''ensureWorkspaceRunning'' else ''ensurePersonalWorkspace'')
          (if running then ''workspace_provisioning_unavailable'' else ''workspace_resolution_unavailable'') (
        object_body env req (\<lambda>body.
        if isNonEmptyString (field ''organizationId'' body)
        then Perform (AccountOp (as_userId s)
               ((if running then EnsureRunning else EnsureWorkspace) (text_field ''organizationId'' body)))
        else invalid)))))"

section \<open>Routes of an organization\<close>

text \<open>What the eleven patterns of the organization routes match, with the segments they capture.\<close>

datatype organization_path =
    MembersPath | MemberPath string | SeatPath string | OperatorsPath | PublicationsPath
  | PublicationPath string string | DashboardPath | AdminPath | AuditPath | JoinCodePath | OrganizationPath

definition organization_match :: "string \<Rightarrow> (string \<times> organization_path) option" where
  "organization_match path =
     (case segments path of
        e # a # os # g # rest \<Rightarrow>
          if [e, a, os] \<noteq> [[], ''api'', ''organizations''] \<or> g = [] then None
          else map_option (Pair g) (case rest of
            [] \<Rightarrow> Some OrganizationPath
          | [r] \<Rightarrow>
              if r = ''members'' then Some MembersPath else if r = ''operators'' then Some OperatorsPath
              else if r = ''publications'' then Some PublicationsPath else if r = ''dashboard'' then Some DashboardPath
              else if r = ''admin'' then Some AdminPath else if r = ''audit'' then Some AuditPath else None
          | [r, m] \<Rightarrow>
              if r = ''members'' \<and> m \<noteq> [] then Some (MemberPath m)
              else if r = ''admin'' \<and> m = ''join-code'' then Some JoinCodePath else None
          | [r, q, m] \<Rightarrow>
              if r = ''entitlements'' \<and> q = ''operator'' \<and> m \<noteq> [] then Some (SeatPath m)
              else if r = ''publications'' \<and> q \<noteq> [] \<and> m \<noteq> [] then Some (PublicationPath q m) else None
          | _ \<Rightarrow> None)
      | _ \<Rightarrow> None)"

text \<open>A handler that is not configured leaves its route unknown; a body that is no JSON is a failed operation.\<close>

definition operation_failed :: outcome where
  "operation_failed = refuse 500 ''organization_operation_failed''"

definition known :: "server_env \<Rightarrow> http_request \<Rightarrow> string \<Rightarrow> string \<Rightarrow> outcome \<Rightarrow> outcome" where
  "known env req rmethod handler result =
     (if hq_method req = rmethod \<and> se_configured env handler then result else no_route)"

definition audit_page :: "server_env \<Rightarrow> http_request \<Rightarrow> (int \<times> int option) option" where
  "audit_page env req =
     (case (se_number env (case hq_query req ''limit'' of None \<Rightarrow> ''50'' | Some t \<Rightarrow> t),
            map_option (se_number env) (hq_query req ''before'')) of
        (JInt limit, before) \<Rightarrow>
          if \<not> (1 \<le> limit \<and> limit \<le> 200) then None
          else (case before of
             None \<Rightarrow> Some (limit, None)
           | Some b \<Rightarrow> if is_safe_integer b \<and> int_value b \<ge> 1 then Some (limit, Some (int_value b)) else None)
      | _ \<Rightarrow> None)"

definition organization_request ::
  "server_env \<Rightarrow> http_request \<Rightarrow> string \<Rightarrow> string \<Rightarrow> organization_path \<Rightarrow> outcome"
where
  "organization_request env req userId organizationId path =
     (let op = (\<lambda>x. Perform (OrganizationOp userId organizationId x)) in
      case path of
        MembersPath \<Rightarrow> known env req ''GET'' ''getOrganizationMembers'' (op GetMembers)
      | MemberPath m \<Rightarrow> known env req ''PATCH'' ''setOrganizationMemberDisabled'' (
          decoded m (\<lambda>membershipId.
          case request_json env req of
            None \<Rightarrow> operation_failed
          | Some body \<Rightarrow>
              if body = JsonNull then operation_failed
              else (case json_bool (field ''disabled'' body) of
                 None \<Rightarrow> invalid | Some disabled \<Rightarrow> op (DisableMember membershipId disabled))))
      | SeatPath m \<Rightarrow>
          if hq_method req = ''PUT''
          then decoded_id m (\<lambda>membershipId.
            configured env ''assignStripeOperatorSeat'' ''seat_assignment_unavailable'' (op (AssignSeat membershipId)))
          else if hq_method req = ''DELETE''
          then decoded_id m (\<lambda>membershipId.
            configured env ''revokeStripeOperatorSeat'' ''seat_assignment_unavailable'' (op (RevokeSeat membershipId)))
          else no_route
      | OperatorsPath \<Rightarrow> known env req ''GET'' ''getOrganizationOperators'' (op GetOperators)
      | PublicationsPath \<Rightarrow> known env req ''GET'' ''getOrganizationPublications'' (op GetPublications)
      | PublicationPath w n \<Rightarrow> known env req ''PATCH'' ''setOrganizationPublicationConnected'' (
          decoded w (\<lambda>workspaceId. decoded n (\<lambda>encodedName.
          let name = toLowerCase encodedName in
          if trim workspaceId = [] \<or> \<not> isPublishedServiceName name then invalid
          else case bounded_json env req publicationRequestMaximumBytes of
            None \<Rightarrow> invalid
          | Some body \<Rightarrow>
              if \<not> isRecord body \<or> \<not> hasOnlyKeys body [''connected''] then invalid
              else (case json_bool (field ''connected'' body) of
                 None \<Rightarrow> invalid | Some connect \<Rightarrow> op (ConnectPublication workspaceId name connect)))))
      | DashboardPath \<Rightarrow> known env req ''GET'' ''getOrganizationDashboard''
          (op (GetDashboard (se_now env - 30 * 24 * 60 * 60 * 1000)))
      | AdminPath \<Rightarrow> known env req ''GET'' ''getOrganizationAdmin'' (op GetAdmin)
      | AuditPath \<Rightarrow> known env req ''GET'' ''getOrganizationAudit'' (
          case audit_page env req of None \<Rightarrow> invalid | Some (limit, before) \<Rightarrow> op (GetAudit limit before))
      | JoinCodePath \<Rightarrow> known env req ''POST'' ''rotateOrganizationJoinCode'' (op RotateJoinCode)
      | OrganizationPath \<Rightarrow> known env req ''PATCH'' ''updateOrganization'' (
          case request_json env req of
            None \<Rightarrow> operation_failed
          | Some body \<Rightarrow>
              if body = JsonNull then operation_failed
              else (case json_string (field ''name'' body) of
                 None \<Rightarrow> invalid | Some name \<Rightarrow> op (RenameOrganization name))))"

definition organization_route :: "server_env \<Rightarrow> http_request \<Rightarrow> outcome option" where
  "organization_route env req =
     (case organization_match (hq_pathname req) of
        None \<Rightarrow> None
      | Some (encoded, path) \<Rightarrow>
          if path = OrganizationPath \<and> hq_method req \<noteq> ''PATCH'' then None
          else Some (signed_in env (\<lambda>s.
            decoded encoded (\<lambda>organizationId.
            if as_activeOrganizationId s \<noteq> Some organizationId then refuse 403 ''organization_access_denied''
            else organization_request env req (as_userId s) organizationId path))))"

section \<open>Usage and workspace routes\<close>

text \<open>\<open>usageRange\<close>: 7, 30 or 90 days and the time they began.\<close>

definition usageRange :: "server_env \<Rightarrow> http_request \<Rightarrow> (int \<times> int) option" where
  "usageRange env req =
     (case se_number env (case hq_query req ''days'' of None \<Rightarrow> ''30'' | Some t \<Rightarrow> t) of
        JInt days \<Rightarrow> if days \<in> {7, 30, 90} then Some (days, se_now env - days * 24 * 60 * 60 * 1000) else None
      | _ \<Rightarrow> None)"

definition personal_usage_route :: "server_env \<Rightarrow> http_request \<Rightarrow> outcome option" where
  "personal_usage_route env req =
     (if hq_method req \<noteq> ''GET'' \<or> hq_pathname req \<noteq> ''/api/usage/me'' then None
      else Some (case usageRange env req of
        None \<Rightarrow> invalid
      | Some (days, since) \<Rightarrow>
          signed_in env (\<lambda>s. with_organization s (\<lambda>g.
          configured env ''getPersonalUsage'' ''usage_reporting_unavailable''
            (Perform (WorkspaceOp (as_userId s) g (PersonalUsage days since)))))))"

text \<open>The flag tells the CSV export from the report.\<close>

definition usage_match :: "string \<Rightarrow> (string \<times> bool) option" where
  "usage_match path =
     (case segments path of
        [e, a, os, g, u] \<Rightarrow>
          if [e, a, os, u] = [[], ''api'', ''organizations'', ''usage''] \<and> g \<noteq> [] then Some (g, False) else None
      | [e, a, os, g, u, x] \<Rightarrow>
          if [e, a, os, u, x] = [[], ''api'', ''organizations'', ''usage'', ''export.csv''] \<and> g \<noteq> [] then Some (g, True) else None
      | _ \<Rightarrow> None)"

definition organization_usage_route :: "server_env \<Rightarrow> http_request \<Rightarrow> outcome option" where
  "organization_usage_route env req =
     (case usage_match (hq_pathname req) of
        None \<Rightarrow> None
      | Some (encoded, export) \<Rightarrow>
          if hq_method req \<noteq> ''GET'' then None
          else Some (case usageRange env req of
            None \<Rightarrow> invalid
          | Some (days, since) \<Rightarrow>
              signed_in env (\<lambda>s. decoded encoded (\<lambda>organizationId.
              if organizationId = [] \<or> as_activeOrganizationId s \<noteq> Some organizationId then refuse 403 ''usage_access_denied''
              else configured env ''getOrganizationUsage'' ''usage_reporting_unavailable''
                (Perform (OrganizationOp (as_userId s) organizationId (OrganizationUsage days since export)))))))"

definition workspace_match :: "string \<Rightarrow> string \<Rightarrow> string option" where
  "workspace_match leaf path =
     (case segments path of
        [e, a, w, i, l] \<Rightarrow> if [e, a, w, l] = [[], ''api'', ''workspaces'', leaf] \<and> i \<noteq> [] then Some i else None
      | _ \<Rightarrow> None)"

definition operator_route :: "server_env \<Rightarrow> http_request \<Rightarrow> outcome option" where
  "operator_route env req =
     (if hq_method req \<noteq> ''GET'' then None
      else map_option (\<lambda>encoded.
        signed_in env (\<lambda>s.
        case truthy (as_activeOrganizationId s) of
          None \<Rightarrow> retry_later 503 ''operator_metadata_unavailable''
        | Some g \<Rightarrow>
            configured env ''getOperatorRuntime'' ''operator_metadata_unavailable'' (
            decoded encoded (\<lambda>workspaceId. Perform (WorkspaceOp (as_userId s) g (OperatorRuntime workspaceId))))))
        (workspace_match ''operator'' (hq_pathname req)))"

definition restart_route :: "server_env \<Rightarrow> http_request \<Rightarrow> outcome option" where
  "restart_route env req =
     (if hq_method req \<noteq> ''POST'' then None
      else map_option (\<lambda>encoded.
        signed_in env (\<lambda>s. with_organization s (\<lambda>g.
        configured env ''restartWorkspace'' ''workspace_restart_unavailable'' (
        decoded_id encoded (\<lambda>workspaceId. Perform (WorkspaceOp (as_userId s) g (RestartWorkspace workspaceId)))))))
        (workspace_match ''restart'' (hq_pathname req)))"

text \<open>\<open>/^\/api\/workspaces\/([^/]+)\/runtime(?:\/(.*))?$/\<close>.\<close>

definition runtime_match :: "string \<Rightarrow> (string \<times> string) option" where
  "runtime_match path =
     (case segments path of
        e # a # w # i # r # rest \<Rightarrow>
          if [e, a, w, r] = [[], ''api'', ''workspaces'', ''runtime''] \<and> i \<noteq> []
          then Some (i, if rest = [] then ''/'' else concat (map (\<lambda>s. CHR ''/'' # s) rest)) else None
      | _ \<Rightarrow> None)"

definition runtime_route :: "server_env \<Rightarrow> http_request \<Rightarrow> outcome option" where
  "runtime_route env req =
     map_option (\<lambda>(encoded, runtimePath).
       signed_in env (\<lambda>s. with_organization s (\<lambda>g.
       configured env ''proxyRuntime'' ''runtime_gateway_unavailable'' (
       decoded_id encoded (\<lambda>workspaceId.
       Perform (WorkspaceOp (as_userId s) g (ProxyRuntime workspaceId runtimePath)))))))
     (runtime_match (hq_pathname req))"

definition health_route :: "server_env \<Rightarrow> http_request \<Rightarrow> outcome option" where
  "health_route env req =
     (if hq_method req \<noteq> ''GET'' then None
      else if hq_pathname req \<in> {''/health/live'', ''/internal/v1/status''} then Some (Reply (Success 200))
      else if hq_pathname req = ''/health/ready'' then Some (Reply (Success (if se_ready env then 200 else 503)))
      else None)"

section \<open>The handler\<close>

definition routes :: "(server_env \<Rightarrow> http_request \<Rightarrow> outcome option) list" where
  "routes = [published_route, stripe_route, resend_route, publications_route, contact_route, contact_admin_route,
     entitlement_route, revocation_route, control_route, worker_route, auth_route, invitation_route, plan_route,
     join_route, organization_route, operator_route, personal_usage_route, organization_usage_route, personal_route,
     restart_route, runtime_route, health_route]"

fun first_route :: "(server_env \<Rightarrow> http_request \<Rightarrow> outcome option) list \<Rightarrow> server_env \<Rightarrow> http_request \<Rightarrow> outcome" where
  "first_route [] env req = no_route"
| "first_route (r # rs) env req = (case r env req of None \<Rightarrow> first_route rs env req | Some x \<Rightarrow> x)"

definition dispatch :: "server_env \<Rightarrow> http_request \<Rightarrow> outcome" where
  "dispatch env req = first_route routes env req"

text \<open>
  What a callback ends with: an error, or a value; \<open>False\<close> stands for \<open>null\<close> or \<open>false\<close>, nothing
  found.
\<close>

definition limit_codes :: "string set" where
  "limit_codes = {''published_service_limit_reached'', ''organization_published_service_limit_reached'',
     ''published_service_ingress_capacity_reached''}"

definition limit_reached :: "failure \<Rightarrow> string option" where
  "limit_reached e =
     (case e of
        Thrown d \<Rightarrow> (case error_code d of None \<Rightarrow> None | Some c \<Rightarrow> if c \<in> limit_codes then Some c else None)
      | _ \<Rightarrow> None)"

fun answer_public :: "public_op \<Rightarrow> failure + bool \<Rightarrow> reply" where
  "answer_public (ServePublished slug path) r =
     (case r of Inl _ \<Rightarrow> Refused 503 ''published_service_unavailable'' True | Inr _ \<Rightarrow> Relayed)"
| "answer_public (StripeEvent body signature) r =
     (case r of Inr _ \<Rightarrow> Success 200
      | Inl (VerificationError c) \<Rightarrow> Refused 400 c False
      | Inl _ \<Rightarrow> Refused 503 ''stripe_webhook_processing_failed'' True)"
| "answer_public (ResendEvent body) r =
     (case r of Inr _ \<Rightarrow> Success 200
      | Inl (VerificationError c) \<Rightarrow> Refused 400 c False
      | Inl _ \<Rightarrow> Refused 503 ''resend_webhook_processing_failed'' True)"
| "answer_public (SubmitContact form) r =
     (case r of Inr _ \<Rightarrow> Success 202
      | Inl (Thrown ContactRateLimitError) \<Rightarrow> Refused 429 ''contact_rate_limited'' True
      | Inl _ \<Rightarrow> Refused 503 ''contact_delivery_failed'' True)"
| "answer_public Authenticate r = (case r of Inl _ \<Rightarrow> Rejected | Inr _ \<Rightarrow> Relayed)"

definition value_or_rejected :: "nat \<Rightarrow> failure + bool \<Rightarrow> reply" where
  "value_or_rejected status r = (case r of Inl _ \<Rightarrow> Rejected | Inr _ \<Rightarrow> Success status)"

definition found_or :: "string \<Rightarrow> nat \<Rightarrow> bool \<Rightarrow> reply" where
  "found_or code status found = (if found then Success status else Refused 404 code False)"

fun answer_publication :: "publication_op \<Rightarrow> failure + bool \<Rightarrow> reply" where
  "answer_publication ListPublications r = value_or_rejected 200 r"
| "answer_publication (PublishService n settings) r =
     (case r of Inr _ \<Rightarrow> Success 200
      | Inl e \<Rightarrow> (case limit_reached e of Some c \<Rightarrow> Refused 409 c False
                 | None \<Rightarrow> Refused 503 ''workspace_publication_failed'' True))"
| "answer_publication (RevokeService n) r =
     (case r of Inl _ \<Rightarrow> Rejected | Inr found \<Rightarrow> found_or ''not_found'' 204 found)"

definition invalid_reply :: reply where
  "invalid_reply = Refused 400 ''invalid_request'' False"

fun answer_admin :: "admin_op \<Rightarrow> failure + bool \<Rightarrow> reply" where
  "answer_admin (ListContacts status limit before) r = value_or_rejected 200 r"
| "answer_admin (ExportContacts status) r = value_or_rejected 200 r"
| "answer_admin (UpdateContact i status) r = (case r of Inl _ \<Rightarrow> Rejected | Inr found \<Rightarrow> found_or ''not_found'' 200 found)"
| "answer_admin (UpsertEntitlement e) r = (case r of Inl _ \<Rightarrow> invalid_reply | Inr _ \<Rightarrow> Success 200)"
| "answer_admin (RevokeEntitlement m g) r = (case r of Inl _ \<Rightarrow> Rejected | Inr found \<Rightarrow> found_or ''not_found'' 200 found)"
| "answer_admin (RevokePublications g actor reason) r =
     (case r of Inl _ \<Rightarrow> Refused 500 ''organization_publication_revocation_failed'' True | Inr _ \<Rightarrow> Success 200)"
| "answer_admin ListControls r = value_or_rejected 200 r"
| "answer_admin (UpdateControl name paused reason actor) r = (case r of Inl _ \<Rightarrow> invalid_reply | Inr _ \<Rightarrow> Success 200)"
| "answer_admin ListWorkers r = value_or_rejected 200 r"
| "answer_admin (RegisterWorker w) r = (case r of Inl _ \<Rightarrow> invalid_reply | Inr _ \<Rightarrow> Success 201)"
| "answer_admin (UpdateWorker i update actor) r =
     (case r of Inl _ \<Rightarrow> invalid_reply | Inr found \<Rightarrow> found_or ''not_found'' 200 found)"

text \<open>The paused control and the membership error, which both workspace requests answer alike.\<close>

definition start_failure :: "failure \<Rightarrow> string \<Rightarrow> reply" where
  "start_failure e code =
     (case e of
        Thrown (PlatformControlPausedError c) \<Rightarrow> Refused 503 (''platform_'' @ c @ ''_paused'') True
      | Thrown WorkspaceMembershipNotFoundError \<Rightarrow> Refused 403 ''workspace_membership_not_found'' False
      | _ \<Rightarrow> Refused 500 code True)"

fun answer_account :: "account_op \<Rightarrow> failure + bool \<Rightarrow> reply" where
  "answer_account (InvitationStatus i email) r = value_or_rejected 200 r"
| "answer_account ListPlanAccounts r = value_or_rejected 200 r"
| "answer_account (CreatePlanAccount accountType plan g) r =
     (case r of Inr _ \<Rightarrow> Success 201
      | Inl (Thrown (PlanAccountConflictError m)) \<Rightarrow> Refused 409 ''plan_account_conflict'' False
      | Inl (Thrown OrganizationAccessDeniedError) \<Rightarrow> Refused 403 ''organization_access_denied'' False
      | Inl _ \<Rightarrow> invalid_reply)"
| "answer_account (JoinOrganization code) r =
     (case r of Inr _ \<Rightarrow> Success 200
      | Inl (Thrown (OrganizationMemberMutationError c m)) \<Rightarrow> Refused 400 c False
      | Inl _ \<Rightarrow> Refused 500 ''organization_join_failed'' False)"
| "answer_account (EnsureWorkspace g) r =
     (case r of Inr _ \<Rightarrow> Success 200 | Inl e \<Rightarrow> start_failure e ''workspace_resolution_failed'')"
| "answer_account (EnsureRunning g) r =
     (case r of Inr _ \<Rightarrow> Success 200
      | Inl (Thrown OperatorEntitlementRequiredError) \<Rightarrow> Refused 403 ''operator_entitlement_required'' False
      | Inl e \<Rightarrow> start_failure e ''workspace_provisioning_failed'')"

definition organization_failure :: "failure \<Rightarrow> reply" where
  "organization_failure e =
     (case (limit_reached e, e) of
        (Some c, _) \<Rightarrow> Refused 409 c False
      | (None, Thrown (PlatformControlPausedError c)) \<Rightarrow>
          if c = ''publication'' then Refused 503 ''platform_publication_paused'' True
          else Refused 500 ''organization_operation_failed'' False
      | (None, Thrown OrganizationAccessDeniedError) \<Rightarrow> Refused 403 ''organization_access_denied'' False
      | (None, Thrown (OrganizationMemberMutationError c m)) \<Rightarrow> Refused 400 c False
      | (None, Thrown OperatorSeatCapacityError) \<Rightarrow> Refused 409 ''operator_seat_capacity_reached'' False
      | (None, Thrown BillingSubscriptionRequiredError) \<Rightarrow> Refused 409 ''billing_subscription_required'' False
      | _ \<Rightarrow> Refused 500 ''organization_operation_failed'' False)"

fun may_be_missing :: "organization_op \<Rightarrow> bool" where
  "may_be_missing (RevokeSeat m) = True"
| "may_be_missing (ConnectPublication w n c) = True"
| "may_be_missing _ = False"

fun answer_organization :: "organization_op \<Rightarrow> failure + bool \<Rightarrow> reply" where
  "answer_organization (OrganizationUsage days since export) r =
     (case r of Inr _ \<Rightarrow> Success 200
      | Inl (Thrown UsageAccessDeniedError) \<Rightarrow> Refused 403 ''usage_access_denied'' False
      | Inl _ \<Rightarrow> Refused 500 ''usage_summary_failed'' True)"
| "answer_organization op r =
     (case r of Inl e \<Rightarrow> organization_failure e
      | Inr found \<Rightarrow> found_or ''not_found'' 200 (found \<or> \<not> may_be_missing op))"

fun answer_workspace :: "workspace_op \<Rightarrow> failure + bool \<Rightarrow> reply" where
  "answer_workspace (OperatorRuntime w) r =
     (case r of Inl _ \<Rightarrow> Refused 503 ''operator_metadata_failed'' True | Inr found \<Rightarrow> found_or ''operator_not_found'' 200 found)"
| "answer_workspace (RestartWorkspace w) r =
     (case r of Inr found \<Rightarrow> found_or ''workspace_not_found'' 200 found
      | Inl (Thrown (PlatformControlPausedError c)) \<Rightarrow> Refused 503 (''platform_'' @ c @ ''_paused'') True
      | Inl _ \<Rightarrow> Refused 502 ''workspace_restart_failed'' True)"
| "answer_workspace (ProxyRuntime w path) r =
     (case r of Inl _ \<Rightarrow> Refused 502 ''runtime_gateway_failed'' True | Inr _ \<Rightarrow> Relayed)"
| "answer_workspace (PersonalUsage days since) r =
     (case r of Inr _ \<Rightarrow> Success 200
      | Inl (Thrown WorkspaceMembershipNotFoundError) \<Rightarrow> Refused 403 ''workspace_membership_not_found'' False
      | Inl _ \<Rightarrow> Refused 500 ''usage_summary_failed'' True)"

fun answer :: "server_op \<Rightarrow> failure + bool \<Rightarrow> reply" where
  "answer (PublicOp op) r = answer_public op r"
| "answer (PublicationOp w op) r = answer_publication op r"
| "answer (AdminOp op) r = answer_admin op r"
| "answer (AccountOp u op) r = answer_account op r"
| "answer (OrganizationOp u g op) r = answer_organization op r"
| "answer (WorkspaceOp u g op) r = answer_workspace op r"

definition handle_request ::
  "server_env \<Rightarrow> (server_op \<Rightarrow> 's \<Rightarrow> (failure + bool) \<times> 's) \<Rightarrow> http_request \<Rightarrow> 's \<Rightarrow> reply \<times> 's"
where
  "handle_request env perform req s =
     (case dispatch env req of
        Reply r \<Rightarrow> (r, s)
      | Perform op \<Rightarrow> (let (result, t) = perform op s in (answer op result, t)))"

section \<open>What an operation needs\<close>

fun admin_scope_of :: "admin_op \<Rightarrow> admin_scope" where
  "admin_scope_of (ListContacts status limit before) = ContactScope"
| "admin_scope_of (ExportContacts status) = ContactScope"
| "admin_scope_of (UpdateContact i status) = ContactScope"
| "admin_scope_of (UpsertEntitlement e) = EntitlementScope"
| "admin_scope_of (RevokeEntitlement m g) = EntitlementScope"
| "admin_scope_of (RevokePublications g actor reason) = PlatformScope"
| "admin_scope_of ListControls = PlatformScope"
| "admin_scope_of (UpdateControl name paused reason actor) = PlatformScope"
| "admin_scope_of ListWorkers = WorkerScope"
| "admin_scope_of (RegisterWorker w) = WorkerScope"
| "admin_scope_of (UpdateWorker i update actor) = WorkerScope"

fun permitted :: "server_env \<Rightarrow> server_op \<Rightarrow> bool" where
  "permitted env (PublicOp op) \<longleftrightarrow> True"
| "permitted env (PublicationOp w op) \<longleftrightarrow> (\<exists>authenticated. se_publicationAuth env = Some authenticated \<and> authenticated w)"
| "permitted env (AdminOp op) \<longleftrightarrow> se_authorize env (admin_scope_of op) = Some True"
| "permitted env (AccountOp u op) \<longleftrightarrow> (\<exists>s. se_session env = Some s \<and> as_userId s = u)"
| "permitted env (OrganizationOp u g op) \<longleftrightarrow>
     (\<exists>s. se_session env = Some s \<and> as_userId s = u \<and> as_activeOrganizationId s = Some g)"
| "permitted env (WorkspaceOp u g op) \<longleftrightarrow>
     (\<exists>s. se_session env = Some s \<and> as_userId s = u \<and> as_activeOrganizationId s = Some g)"

text \<open>The method of an operation; the relayed requests come with any.\<close>

fun public_method :: "public_op \<Rightarrow> string option" where
  "public_method (ServePublished slug path) = None"
| "public_method Authenticate = None"
| "public_method _ = Some ''POST''"

fun publication_method :: "publication_op \<Rightarrow> string option" where
  "publication_method ListPublications = Some ''GET''"
| "publication_method (PublishService n settings) = Some ''PUT''"
| "publication_method (RevokeService n) = Some ''DELETE''"

fun admin_method :: "admin_op \<Rightarrow> string option" where
  "admin_method (ListContacts status limit before) = Some ''GET''"
| "admin_method (ExportContacts status) = Some ''GET''"
| "admin_method (UpdateContact i status) = Some ''PATCH''"
| "admin_method (UpsertEntitlement e) = Some ''PUT''"
| "admin_method (RevokeEntitlement m g) = Some ''DELETE''"
| "admin_method (RevokePublications g actor reason) = Some ''POST''"
| "admin_method ListControls = Some ''GET''"
| "admin_method (UpdateControl name paused reason actor) = Some ''PATCH''"
| "admin_method ListWorkers = Some ''GET''"
| "admin_method (RegisterWorker w) = Some ''POST''"
| "admin_method (UpdateWorker i update actor) = Some ''PATCH''"

fun account_method :: "account_op \<Rightarrow> string option" where
  "account_method (InvitationStatus i email) = Some ''GET''"
| "account_method ListPlanAccounts = Some ''GET''"
| "account_method _ = Some ''POST''"

fun organization_method :: "organization_op \<Rightarrow> string option" where
  "organization_method (DisableMember m d) = Some ''PATCH''"
| "organization_method (AssignSeat m) = Some ''PUT''"
| "organization_method (RevokeSeat m) = Some ''DELETE''"
| "organization_method (ConnectPublication w n c) = Some ''PATCH''"
| "organization_method RotateJoinCode = Some ''POST''"
| "organization_method (RenameOrganization n) = Some ''PATCH''"
| "organization_method _ = Some ''GET''"

fun workspace_method :: "workspace_op \<Rightarrow> string option" where
  "workspace_method (RestartWorkspace w) = Some ''POST''"
| "workspace_method (ProxyRuntime w path) = None"
| "workspace_method _ = Some ''GET''"

fun op_method :: "server_op \<Rightarrow> string option" where
  "op_method (PublicOp op) = public_method op"
| "op_method (PublicationOp w op) = publication_method op"
| "op_method (AdminOp op) = admin_method op"
| "op_method (AccountOp u op) = account_method op"
| "op_method (OrganizationOp u g op) = organization_method op"
| "op_method (WorkspaceOp u g op) = workspace_method op"

text \<open>
  An outcome is sound if it performs only what the request is permitted to, with the method of the
  operation, and if an exception leaves the handler only for the body \<open>null\<close> of a signed-in user.
\<close>

definition null_bodied :: "server_env \<Rightarrow> http_request \<Rightarrow> bool" where
  "null_bodied env req \<longleftrightarrow>
     hq_method req = ''POST'' \<and> se_session env \<noteq> None \<and> request_json env req = Some JsonNull
     \<and> (\<exists>h. (hq_pathname req, h) \<in> {(''/api/plan-accounts'', ''createPlanAccount''),
               (''/api/organizations/join'', ''joinOrganization''),
               (''/api/workspaces/personal'', ''ensurePersonalWorkspace''),
               (''/api/workspaces/personal/ensure-running'', ''ensureWorkspaceRunning'')}
           \<and> se_configured env h)"

definition sound :: "server_env \<Rightarrow> http_request \<Rightarrow> outcome \<Rightarrow> bool" where
  "sound env req x \<longleftrightarrow>
     (case x of Reply r \<Rightarrow> r = Rejected \<longrightarrow> null_bodied env req
      | Perform op \<Rightarrow> permitted env op \<and> (op_method op = None \<or> op_method op = Some (hq_method req)))"

lemma sound_Reply [simp, intro]: "r \<noteq> Rejected \<Longrightarrow> sound env req (Reply r)"
  by (simp add: sound_def)

lemma sound_Perform: "sound env req (Perform op) \<longleftrightarrow> permitted env op \<and> (op_method op = None \<or> op_method op = Some (hq_method req))"
  by (simp add: sound_def)

named_theorems sound_intro \<open>soundness of the parts of a route\<close>

lemma sound_configured [sound_intro]:
  "(se_configured env h \<Longrightarrow> sound env req x) \<Longrightarrow> sound env req (configured env h c x)"
  by (simp add: configured_def)

lemma sound_decoded [sound_intro]: "(\<And>x. sound env req (k x)) \<Longrightarrow> sound env req (decoded s k)"
  by (simp add: decoded_def split: option.split)

lemma sound_decoded_id [sound_intro]: "(\<And>x. sound env req (k x)) \<Longrightarrow> sound env req (decoded_id s k)"
  by (auto simp: decoded_id_def intro: sound_intro)

lemma sound_administrator [sound_intro]:
  "(se_authorize env scope = Some True \<Longrightarrow> sound env req x) \<Longrightarrow> sound env req (administrator env scope m d x)"
  by (auto simp: administrator_def split: option.split)

lemma sound_with_actor [sound_intro]: "(\<And>a. sound env req (k a)) \<Longrightarrow> sound env req (with_actor req k)"
  by (simp add: with_actor_def split: option.split)

lemma sound_signed_in [sound_intro]: "(\<And>s. se_session env = Some s \<Longrightarrow> sound env req (k s)) \<Longrightarrow> sound env req (signed_in env k)"
  by (simp add: signed_in_def split: option.split)

lemma sound_with_organization [sound_intro]:
  "(\<And>g. as_activeOrganizationId s = Some g \<Longrightarrow> sound env req (k g)) \<Longrightarrow> sound env req (with_organization s k)"
  by (auto simp: with_organization_def truthy_Some split: option.split)

lemma sound_object_body [sound_intro]:
  "(request_json env req = Some JsonNull \<Longrightarrow> null_bodied env req) \<Longrightarrow> (\<And>b. sound env req (k b)) \<Longrightarrow>
     sound env req (object_body env req k)"
  by (simp add: object_body_def sound_def split: option.split)

lemma sound_known [sound_intro]: "(hq_method req = m \<Longrightarrow> sound env req x) \<Longrightarrow> sound env req (known env req m h x)"
  by (simp add: known_def)

lemma sound_if [sound_intro]: "(b \<Longrightarrow> sound env req x) \<Longrightarrow> (\<not> b \<Longrightarrow> sound env req y) \<Longrightarrow> sound env req (if b then x else y)"
  by simp

lemma sound_option [sound_intro]:
  "(v = None \<Longrightarrow> sound env req x) \<Longrightarrow> (\<And>y. v = Some y \<Longrightarrow> sound env req (k y)) \<Longrightarrow>
     sound env req (case v of None \<Rightarrow> x | Some y \<Rightarrow> k y)"
  by (cases v) simp_all

lemma sound_bool [sound_intro]:
  "(b \<Longrightarrow> sound env req x) \<Longrightarrow> (\<not> b \<Longrightarrow> sound env req y) \<Longrightarrow>
     sound env req (case b of True \<Rightarrow> x | False \<Rightarrow> y)"
  by (cases b) simp_all

definition sound_route :: "(server_env \<Rightarrow> http_request \<Rightarrow> outcome option) \<Rightarrow> bool" where
  "sound_route r \<longleftrightarrow> (\<forall>env req. case r env req of None \<Rightarrow> True | Some x \<Rightarrow> sound env req x)"

lemma sound_routeI: "(\<And>env req x. r env req = Some x \<Longrightarrow> sound env req x) \<Longrightarrow> sound_route r"
  by (simp add: sound_route_def split: option.split)

lemma sound_routeD: "sound_route r \<Longrightarrow> r env req = Some x \<Longrightarrow> sound env req x"
  unfolding sound_route_def by (metis option.simps(5))

lemma first_route_sound: "\<forall>r \<in> set rs. sound_route r \<Longrightarrow> sound env req (first_route rs env req)"
  by (induction rs) (auto split: option.split dest: sound_routeD)

lemma public_routes_sound:
  "sound_route published_route" "sound_route stripe_route" "sound_route resend_route" "sound_route contact_route"
  "sound_route auth_route" "sound_route health_route"
  by (rule sound_routeI, auto simp: published_route_def stripe_route_def resend_route_def contact_route_def auth_route_def
      health_route_def sound_Perform intro!: sound_intro split: if_splits option.splits host_match.splits prod.splits sum.splits
      body_error.splits)+

lemma publication_request_sound:
  assumes "se_publicationAuth env = Some f" and "f w"
  shows "sound env req (publication_request env req w name)"
  unfolding publication_request_def by (intro sound_intro) (use assms in \<open>simp_all add: sound_Perform\<close>)

lemma publications_route_sound: "sound_route publications_route"
proof (rule sound_routeI)
  fix env req x
  assume "publications_route env req = Some x"
  then show "sound env req x"
    by (auto simp: publications_route_def split: option.splits intro!: sound_intro publication_request_sound)
qed

lemma contact_admin_request_sound:
  assumes "se_authorize env ContactScope = Some True"
  shows "sound env req (contact_admin_request env req status)"
  using assms by (auto simp: contact_admin_request_def sound_Perform intro!: sound_intro split: js_num.split sum.split option.split)

lemma admin_routes_sound:
  "sound_route contact_admin_route" "sound_route entitlement_route" "sound_route revocation_route"
  "sound_route control_route" "sound_route worker_route"
proof -
  show "sound_route contact_admin_route"
    by (rule sound_routeI)
      (auto simp: contact_admin_route_def split: if_splits sum.split intro!: sound_intro contact_admin_request_sound)
  show "sound_route entitlement_route"
    by (rule sound_routeI) (auto simp: entitlement_route_def sound_Perform intro!: sound_intro)
  show "sound_route revocation_route"
    by (rule sound_routeI) (auto simp: revocation_route_def sound_Perform intro!: sound_intro)
  show "sound_route control_route"
    by (rule sound_routeI)
      (auto simp: control_route_def sound_Perform intro!: sound_intro split: if_splits option.split bool.split)
  show "sound_route worker_route"
    by (rule sound_routeI)
      (auto simp: worker_route_def sound_Perform intro!: sound_intro split: if_splits option.split bool.split)
qed

lemma account_routes_sound:
  "sound_route invitation_route" "sound_route plan_route" "sound_route join_route" "sound_route personal_route"
proof -
  show "sound_route invitation_route"
    by (rule sound_routeI) (auto simp: invitation_route_def sound_Perform intro!: sound_intro)
  show "sound_route plan_route"
    by (rule sound_routeI) (auto simp: plan_route_def null_bodied_def sound_Perform split: if_splits intro!: sound_intro)
  show "sound_route join_route"
    by (rule sound_routeI) (auto simp: join_route_def null_bodied_def sound_Perform split: if_splits intro!: sound_intro)
  show "sound_route personal_route"
    by (rule sound_routeI) (auto simp: personal_route_def null_bodied_def Let_def sound_Perform split: if_splits intro!: sound_intro)
qed

lemma organization_request_sound:
  assumes "se_session env = Some s" and "as_userId s = u" and "as_activeOrganizationId s = Some g"
  shows "sound env req (organization_request env req u g path)"
  by (cases path)
     (auto simp: organization_request_def Let_def operation_failed_def sound_Perform assms intro!: sound_intro split: option.split)

lemma organization_routes_sound:
  "sound_route organization_route" "sound_route organization_usage_route"
proof -
  show "sound_route organization_route"
    by (rule sound_routeI)
      (auto simp: organization_route_def split: option.splits if_splits intro!: sound_intro organization_request_sound)
  show "sound_route organization_usage_route"
    by (rule sound_routeI)
      (auto simp: organization_usage_route_def sound_Perform split: option.splits if_splits intro!: sound_intro)
qed

lemma workspace_routes_sound:
  "sound_route operator_route" "sound_route personal_usage_route" "sound_route restart_route" "sound_route runtime_route"
proof -
  show "sound_route operator_route"
    by (rule sound_routeI)
      (auto simp: operator_route_def sound_Perform truthy_Some split: if_splits option.split intro!: sound_intro)
  show "sound_route personal_usage_route"
    by (rule sound_routeI)
      (auto simp: personal_usage_route_def sound_Perform split: if_splits option.splits intro!: sound_intro)
  show "sound_route restart_route"
    by (rule sound_routeI) (auto simp: restart_route_def sound_Perform split: if_splits intro!: sound_intro)
  show "sound_route runtime_route"
    by (rule sound_routeI) (auto simp: runtime_route_def sound_Perform intro!: sound_intro)
qed

lemma routes_sound: "\<forall>r \<in> set routes. sound_route r"
  by (simp add: routes_def public_routes_sound publications_route_sound admin_routes_sound account_routes_sound
      organization_routes_sound workspace_routes_sound)

lemma dispatch_sound: "sound env req (dispatch env req)"
  unfolding dispatch_def by (rule first_route_sound [OF routes_sound])

section \<open>The properties of the handler\<close>

lemma handled_request:
  assumes "handle_request env perform req s = (r, t)" and "t \<noteq> s"
  obtains op result where "dispatch env req = Perform op" and "perform op s = (result, t)" and "r = answer op result"
proof (cases "dispatch env req")
  case (Reply x)
  with assms show ?thesis by (simp add: handle_request_def)
next
  case (Perform op)
  obtain result u where run: "perform op s = (result, u)" by (cases "perform op s")
  with Perform assms(1) have "u = t" and "r = answer op result" by (simp_all add: handle_request_def)
  with that [OF Perform] run show ?thesis by simp
qed

text \<open>The user and the organization an operation acts for.\<close>

fun acts_in :: "server_op \<Rightarrow> (string \<times> string) option" where
  "acts_in (OrganizationOp u g op) = Some (u, g)"
| "acts_in (WorkspaceOp u g op) = Some (u, g)"
| "acts_in _ = None"

lemma permitted_member:
  assumes "permitted env op" and "acts_in op = Some (u, g)"
  obtains s where "se_session env = Some s" and "as_userId s = u" and "as_activeOrganizationId s = Some g"
  using assms by (cases op) auto


lemma plan_path:
  "published_match ''/api/plan-accounts'' = None" "publication_match ''/api/plan-accounts'' = None"
  "contact_member ''/api/plan-accounts'' = None" "entitlement_match ''/api/plan-accounts'' = None"
  "revocation_match ''/api/plan-accounts'' = None" "control_member ''/api/plan-accounts'' = None"
  "worker_member ''/api/plan-accounts'' = None" "invitation_match ''/api/plan-accounts'' = None"
  by code_simp+

lemma join_path:
  "published_match ''/api/organizations/join'' = None" "publication_match ''/api/organizations/join'' = None"
  "contact_member ''/api/organizations/join'' = None" "entitlement_match ''/api/organizations/join'' = None"
  "revocation_match ''/api/organizations/join'' = None" "control_member ''/api/organizations/join'' = None"
  "worker_member ''/api/organizations/join'' = None" "invitation_match ''/api/organizations/join'' = None"
  by code_simp+

lemma personal_path:
  "published_match ''/api/workspaces/personal'' = None" "publication_match ''/api/workspaces/personal'' = None"
  "contact_member ''/api/workspaces/personal'' = None" "entitlement_match ''/api/workspaces/personal'' = None"
  "revocation_match ''/api/workspaces/personal'' = None" "control_member ''/api/workspaces/personal'' = None"
  "worker_member ''/api/workspaces/personal'' = None" "invitation_match ''/api/workspaces/personal'' = None"
  "organization_match ''/api/workspaces/personal'' = None" "workspace_match leaf ''/api/workspaces/personal'' = None"
  "usage_match ''/api/workspaces/personal'' = None"
  by code_simp+

lemma running_path:
  "published_match ''/api/workspaces/personal/ensure-running'' = None"
  "publication_match ''/api/workspaces/personal/ensure-running'' = None"
  "contact_member ''/api/workspaces/personal/ensure-running'' = None"
  "entitlement_match ''/api/workspaces/personal/ensure-running'' = None"
  "revocation_match ''/api/workspaces/personal/ensure-running'' = None"
  "control_member ''/api/workspaces/personal/ensure-running'' = None"
  "worker_member ''/api/workspaces/personal/ensure-running'' = None"
  "invitation_match ''/api/workspaces/personal/ensure-running'' = None"
  "organization_match ''/api/workspaces/personal/ensure-running'' = None"
  "usage_match ''/api/workspaces/personal/ensure-running'' = None"
  by code_simp+

lemmas early_routes = published_route_def stripe_route_def resend_route_def publications_route_def contact_route_def
  contact_admin_route_def entitlement_route_def revocation_route_def control_route_def worker_route_def auth_route_def
  invitation_route_def

lemma dispatch_to:
  assumes "matchPublishedServiceHostname (hq_hostname req) (se_hostnameSuffix env) = HostNone"
  shows "hq_pathname req = ''/api/plan-accounts'' \<Longrightarrow> Some (dispatch env req) = plan_route env req"
    and "hq_pathname req = ''/api/organizations/join'' \<Longrightarrow> hq_method req = ''POST'' \<Longrightarrow>
           Some (dispatch env req) = join_route env req"
    and "hq_pathname req = ''/api/workspaces/personal'' \<Longrightarrow> hq_method req = ''POST'' \<Longrightarrow>
           Some (dispatch env req) = personal_route env req"
    and "hq_pathname req = ''/api/workspaces/personal/ensure-running'' \<Longrightarrow> hq_method req = ''POST'' \<Longrightarrow>
           Some (dispatch env req) = personal_route env req"
  by (simp_all add: dispatch_def routes_def early_routes assms plan_path join_path personal_path running_path
      plan_route_def join_route_def personal_route_def organization_route_def operator_route_def personal_usage_route_def
      organization_usage_route_def Let_def)


text \<open>The test of the action takes an array of one action, the comparisons that carry it out do not.\<close>

lemma listed_action_accepted:
  assumes "a \<in> {''enable'', ''disable'', ''drain'', ''resume''}" and "valid_reason (Some (JsonString reason))"
    and "body = JsonObject [(''action'', JsonArray [JsonString a]), (''reason'', JsonString reason)]"
  obtains act where "isUpdateWorkerHostRequest body" and "action_text act = a"
    and "update_request body = \<lparr>uh_name = None, uh_provider = None, uh_region = None, uh_baseURL = None,
           uh_credentialKeyId = None, uh_capacity = None, uh_action = Some (ActListed act), uh_reason = Some reason\<rparr>"
  using assms(1) by (elim insertE emptyE)
    (use assms(2,3) in \<open>auto simp: isUpdateWorkerHostRequest_def update_request_def hasOnlyKeys_def\<close>)

lemma worker_action_identifier:
  "a \<in> {''enable'', ''disable'', ''drain'', ''resume''} \<Longrightarrow> trim (''worker.'' @ a) = ''worker.'' @ a"
  by (auto simp: trim_def js_space_def)

text \<open>The action of a worker update in an array of one element passes the validation and is audited
  as carried out, but the worker is left as it is.\<close>

theorem listed_action_is_only_audited:
  assumes "a \<in> {''enable'', ''disable'', ''drain'', ''resume''}" and "valid_reason (Some (JsonString reason))"
    and "body = JsonObject [(''action'', JsonArray [JsonString a]), (''reason'', JsonString reason)]"
    and "updateWorkerHost urlProtocol i (update_request body) (Some actor) now auditAt eventId db = (Inr (Some w), t)"
    and "actor \<noteq> []"
  shows "isUpdateWorkerHostRequest body \<and> worker_hosts t = worker_hosts db
     \<and> (\<exists>row. operation_audits t = operation_audits db @ [row] \<and> oa_action row = ''worker.'' @ a)"
proof -
  obtain act where accepted: "isUpdateWorkerHostRequest body" and act: "action_text act = a"
    and req: "update_request body = \<lparr>uh_name = None, uh_provider = None, uh_region = None, uh_baseURL = None,
           uh_credentialKeyId = None, uh_capacity = None, uh_action = Some (ActListed act), uh_reason = Some reason\<rparr>"
    by (rule listed_action_accepted [OF assms(1-3)])
  have same: "update_host urlProtocol i (update_request body) now db = (Inr (getWorkerHost i db), db)"
    by (simp add: req update_host_def changes_host_def atomic_def operation_defs split: option.split)
  define input where "input = host_audit i (update_request body) actor (ActListed act) w"
  have "recordPlatformOperationAuditEvent input auditAt eventId db = (Inr (), t)"
    using assms(4,5) unfolding updateWorkerHost_def obind_eq_Inr same input_def
    by (auto simp: req truthy_def operation_defs obind_eq_Inr split: option.splits)
  then have "worker_hosts t = worker_hosts db
      \<and> (\<exists>row. operation_audits t = operation_audits db @ [row] \<and> oa_action row = trim (opi_action input))"
    by (auto simp: recordPlatformOperationAuditEvent_def Let_def requireAuditIdentifier_Inr obind_eq_Inr
        operation_defs oa_tbl.insert_Inr set_operation_audits_def)
  moreover have "opi_action input = ''worker.'' @ a" by (simp add: input_def host_audit_def act)
  ultimately show ?thesis using accepted worker_action_identifier [OF assms(1)] by simp
qed

section \<open>The properties on concrete requests\<close>

definition owner_session :: auth_session where
  "owner_session = \<lparr>as_userId = ''u1'', as_email = ''ada@x.io'', as_activeOrganizationId = Some ''o1''\<rparr>"

definition sample_env :: server_env where
  "sample_env = \<lparr>se_hostnameSuffix = None, se_configured = (\<lambda>_. True), se_publicationPaused = False,
     se_publicationAuth = None, se_authorize = (\<lambda>_. None),
     se_session = resolve_session (Some owner_session) sample_db, se_contactOrigins = [], se_clientAddress = None,
     se_number = (\<lambda>_. JNaN), se_parseJSON = (\<lambda>_. Some JsonNull), se_json = (\<lambda>_. Some JsonNull),
     se_cursor = (\<lambda>_. None), se_now = 50, se_ready = True\<rparr>"

definition sample_post :: "string \<Rightarrow> http_request" where
  "sample_post path = \<lparr>hq_method = ''POST'', hq_hostname = ''app.x.io'', hq_pathname = path, hq_search = [],
     hq_query = (\<lambda>_. None), hq_header = (\<lambda>_. None), hq_chunks = []\<rparr>"

lemma sample_session: "resolve_session (Some owner_session) sample_db = Some owner_session"
  by code_simp

lemma code_path:
  "published_match ''/api/organizations/o1/admin/join-code'' = None"
  "publication_match ''/api/organizations/o1/admin/join-code'' = None"
  "contact_member ''/api/organizations/o1/admin/join-code'' = None"
  "entitlement_match ''/api/organizations/o1/admin/join-code'' = None"
  "revocation_match ''/api/organizations/o1/admin/join-code'' = None"
  "control_member ''/api/organizations/o1/admin/join-code'' = None"
  "worker_member ''/api/organizations/o1/admin/join-code'' = None"
  "invitation_match ''/api/organizations/o1/admin/join-code'' = None"
  "organization_match ''/api/organizations/o1/admin/join-code'' = Some (''o1'', JoinCodePath)"
  "decodeURIComponent ''o1'' = Some ''o1''"
  by code_simp+

lemma sample_host: "matchPublishedServiceHostname h None = HostNone"
proof -
  have "normalizeHostname [] = []" by code_simp
  then show ?thesis by (simp add: matchPublishedServiceHostname_def)
qed

lemma owner_facts: "as_userId owner_session = ''u1''" "as_activeOrganizationId owner_session = Some ''o1''"
  by (simp_all add: owner_session_def)

lemma code_request: "dispatch sample_env (sample_post ''/api/organizations/o1/admin/join-code'')
    = Perform (OrganizationOp ''u1'' ''o1'' RotateJoinCode)"
  by (simp add: dispatch_def routes_def early_routes plan_route_def join_route_def organization_route_def
      organization_request_def sample_post_def sample_env_def sample_session code_path sample_host signed_in_def decoded_def
      known_def owner_facts)



definition listed_drain :: json where
  "listed_drain = JsonObject [(''action'', JsonArray [JsonString ''drain'']), (''reason'', JsonString ''maintenance'')]"

theorem listed_action_is_only_audited_witness:
  "\<exists>w t. updateWorkerHost (\<lambda>_. None) ''h1'' (update_request listed_drain) (Some ''ops'') 20 (JInt 20) ''e1'' fleet_db
       = (Inr (Some w), t) \<and> worker_hosts t = worker_hosts fleet_db \<and> length (operation_audits t) = 1"
proof -
  have "\<exists>w t. updateWorkerHost (\<lambda>_. None) ''h1'' (update_request listed_drain) (Some ''ops'') 20 (JInt 20) ''e1'' fleet_db
       = (Inr (Some w), t)"
  proof -
    have "case updateWorkerHost (\<lambda>_. None) ''h1'' (update_request listed_drain) (Some ''ops'') 20 (JInt 20) ''e1'' fleet_db
        of (Inr (Some w), t) \<Rightarrow> True | _ \<Rightarrow> False"
      by code_simp
    then show ?thesis by (auto split: prod.splits sum.splits option.splits)
  qed
  then obtain w t where run: "updateWorkerHost (\<lambda>_. None) ''h1'' (update_request listed_drain) (Some ''ops'') 20 (JInt 20)
      ''e1'' fleet_db = (Inr (Some w), t)" by blast
  have "valid_reason (Some (JsonString ''maintenance''))" by code_simp
  from listed_action_is_only_audited [OF _ this listed_drain_def run]
  have "worker_hosts t = worker_hosts fleet_db" and "\<exists>row. operation_audits t = operation_audits fleet_db @ [row]"
    by auto
  moreover have "operation_audits fleet_db = []" by (simp add: fleet_db_def sample_db_def empty_db_def)
  ultimately show ?thesis using run by auto
qed

end
