(* ===== verification/Runtime.thy ===== *)
theory Runtime
  imports Http
begin

text \<open>
  The runtime gateway (\<open>RuntimeGateway\<close> in \<open>src/apps/control-plane/src/runtimeGateway.ts\<close>): the
  request it forwards to the runtime of a workspace, the body it streams back, and the usage it reads
  from the sessions of the runtime; with the price table of \<open>modelPricing.ts\<close>.

  The prices are doubles: the rounding to a double after each operation is the parameter \<open>fl\<close>.
  Parameters are also the worker's access data, the responses of the runtime, and the parser of the
  address; the reference of a request is resolved as the URL standard does it for \<open>http\<close>.
\<close>

section \<open>Prices\<close>

record token_rates =
  tr_input :: rat
  tr_cachedInput :: rat
  tr_output :: rat

record pricing_rule =
  prl_providers :: "string list"
  prl_fragments :: "string list"
  prl_rates :: token_rates

fun text_includes :: "string \<Rightarrow> string \<Rightarrow> bool" where
  "text_includes [] part \<longleftrightarrow> part = []"
| "text_includes (c # cs) part \<longleftrightarrow> take (length part) (c # cs) = part \<or> text_includes cs part"

definition modelIncludes :: "string list \<Rightarrow> string list \<Rightarrow> string \<Rightarrow> string \<Rightarrow> bool" where
  "modelIncludes providerNames fragments provider model \<longleftrightarrow>
     list_ex (text_includes provider) providerNames \<and> list_ex (text_includes model) fragments"

definition priced :: "string list \<Rightarrow> string list \<Rightarrow> rat \<Rightarrow> rat \<Rightarrow> rat \<Rightarrow> pricing_rule" where
  "priced providers fragments inp cached outp =
     \<lparr>prl_providers = providers, prl_fragments = fragments,
      prl_rates = \<lparr>tr_input = inp, tr_cachedInput = cached, tr_output = outp\<rparr>\<rparr>"

text \<open>The numerals of the source; a rate is the double next to it.\<close>

definition PRICING_RULES :: "pricing_rule list" where
  "PRICING_RULES = [
     priced [''openai'', ''codex''] [''gpt-5.6-sol''] 5 (1/2) 30,
     priced [''openai'', ''codex''] [''gpt-5.6-terra''] 2 (1/5) 12,
     priced [''openai'', ''codex''] [''gpt-5.6-luna''] (1/5) (1/50) (6/5),
     priced [''openai'', ''codex''] [''gpt-5.5''] 5 (1/2) 30,
     priced [''openai'', ''codex''] [''gpt-5.4''] (5/2) (1/4) 15,
     priced [''openai'', ''codex''] [''gpt-5.2''] (7/4) (7/40) 14,
     priced [''openai'', ''codex''] [''gpt-5.1-codex-mini''] (1/4) (1/40) 2,
     priced [''openai'', ''codex''] [''gpt-5.1'', ''gpt-5-codex'', ''gpt-5''] (5/4) (1/8) 10,
     priced [''openai'', ''codex''] [''gpt-4.1-mini''] (2/5) (1/10) (8/5),
     priced [''openai'', ''codex''] [''gpt-4.1-nano''] (1/10) (1/40) (2/5),
     priced [''openai'', ''codex''] [''gpt-4.1''] 2 (1/2) 8,
     priced [''anthropic'', ''claude''] [''fable-5'', ''mythos-5''] 10 1 50,
     priced [''anthropic'', ''claude''] [''opus-5'', ''opus-4.8'', ''opus-4.7'', ''opus-4.6'', ''opus-4.5''] 5 (1/2) 25,
     priced [''anthropic'', ''claude''] [''sonnet-5''] 2 (1/5) 10,
     priced [''anthropic'', ''claude''] [''sonnet-4.6'', ''sonnet-4.5'', ''sonnet-4''] 3 (3/10) 15,
     priced [''anthropic'', ''claude''] [''haiku-4.5''] 1 (1/10) 5,
     priced [''anthropic'', ''claude''] [''haiku-3.5''] (4/5) (2/25) 4,
     priced [''google'', ''gemini''] [''gemini-3.5-flash-lite''] (3/10) (3/100) (5/2),
     priced [''google'', ''gemini''] [''gemini-3.5-flash''] (3/2) (3/20) 9,
     priced [''google'', ''gemini''] [''gemini-3.1-flash-lite''] (1/4) (1/40) (3/2),
     priced [''google'', ''gemini''] [''gemini-3.1-pro''] 2 (1/5) 12,
     priced [''google'', ''gemini''] [''gemini-2.5-flash-lite''] (1/10) (1/40) (2/5),
     priced [''google'', ''gemini''] [''gemini-2.5-flash''] (3/10) (3/100) (5/2),
     priced [''google'', ''gemini''] [''gemini-2.5-pro''] (5/4) (1/8) 10,
     priced [''xai'', ''grok''] [''grok-4.5''] 2 (3/10) 6,
     priced [''xai'', ''grok''] [''grok-4.3''] (5/4) (1/5) (5/2),
     priced [''xai'', ''grok''] [''grok-build-0.1''] 1 (1/5) 2]"

definition modelTokenRates :: "string \<Rightarrow> string \<Rightarrow> token_rates option" where
  "modelTokenRates provider model =
     (let normalizedProvider = toLowerCase (trim provider); normalizedModel = toLowerCase (trim model) in
      map_option prl_rates
        (find (\<lambda>r. modelIncludes (prl_providers r) (prl_fragments r) normalizedProvider normalizedModel) PRICING_RULES))"

text \<open>\<open>Math.round\<close>.\<close>

definition js_round :: "rat \<Rightarrow> int" where
  "js_round x = \<lfloor>x + 1 / 2\<rfloor>"

text \<open>The estimated cost and the savings, in millionths of a dollar.\<close>

definition estimateModelUsageCost :: "(rat \<Rightarrow> rat) \<Rightarrow> string \<Rightarrow> string \<Rightarrow> int \<Rightarrow> int \<Rightarrow> int \<Rightarrow> int \<times> int" where
  "estimateModelUsageCost fl provider model inputTokens outputTokens cachedTokens =
     (case modelTokenRates provider model of
        None \<Rightarrow> (0, 0)
      | Some rates \<Rightarrow>
          let cached = min inputTokens (max 0 cachedTokens);
              uncached = max 0 (inputTokens - cached);
              times = (\<lambda>n r. fl (of_int n * r)) in
          (js_round (fl (fl (times uncached (fl (tr_input rates)) + times cached (fl (tr_cachedInput rates)))
             + times (max 0 outputTokens) (fl (tr_output rates)))),
           js_round (times cached (max 0 (fl (fl (tr_input rates) - fl (tr_cachedInput rates)))))))"

section \<open>Usage of a session\<close>

record runtime_values =
  rnv_fl :: "rat \<Rightarrow> rat"
  rnv_micros :: "js_num \<Rightarrow> int"
  rnv_now :: int

definition usageInteger :: "json option \<Rightarrow> int" where
  "usageInteger value =
     (case json_number value of
        None \<Rightarrow> 0 | Some n \<Rightarrow> if is_safe_integer n \<and> int_value n \<ge> 0 then int_value n else 0)"

fun usageValue :: "json \<Rightarrow> string list \<Rightarrow> int" where
  "usageValue usage [] = 0"
| "usageValue usage (key # keys) =
     (if usageInteger (field key usage) > 0 \<or> json_number (field key usage) = Some (JInt 0)
      then usageInteger (field key usage) else usageValue usage keys)"

text \<open>\<open>typeof value === 'object'\<close> for a value that is not \<open>null\<close>.\<close>

fun is_object :: "json \<Rightarrow> bool" where
  "is_object (JsonObject fs) = True"
| "is_object (JsonArray xs) = True"
| "is_object _ = False"

fun detail_value :: "json \<Rightarrow> string list \<Rightarrow> string \<Rightarrow> int" where
  "detail_value usage [] k = usageInteger (field k usage)"
| "detail_value usage (key # keys) k =
     (case field key usage of
        Some details \<Rightarrow> if is_object details then usageInteger (field k details) else detail_value usage keys k
      | None \<Rightarrow> detail_value usage keys k)"

definition cachedUsageValue :: "json \<Rightarrow> int" where
  "cachedUsageValue usage = detail_value usage [''prompt_tokens_details'', ''input_tokens_details''] ''cached_tokens''"

definition reasoningUsageValue :: "json \<Rightarrow> int" where
  "reasoningUsageValue usage =
     detail_value usage [''completion_tokens_details'', ''output_tokens_details''] ''reasoning_tokens''"

text \<open>\<open>Math.round(value * 1_000_000)\<close> of a finite amount that is not negative.\<close>

definition dollars :: "runtime_values \<Rightarrow> json option \<Rightarrow> int option" where
  "dollars env value =
     (case json_number value of
        Some (JInt n) \<Rightarrow> if n \<ge> 0 then Some (rnv_micros env (JInt n)) else None
      | Some (JFrac n) \<Rightarrow> if n \<ge> 0 then Some (rnv_micros env (JFrac n)) else None
      | _ \<Rightarrow> None)"

definition cacheSavingsMicrousd :: "runtime_values \<Rightarrow> json \<Rightarrow> int \<Rightarrow> int" where
  "cacheSavingsMicrousd env usage fallback =
     (let direct = usageInteger (field ''cache_savings_microusd'' usage) in
      if direct > 0 then direct
      else case dollars env (field ''cache_savings_usd'' usage) of None \<Rightarrow> fallback | Some n \<Rightarrow> n)"

definition estimatedCostMicrousd :: "runtime_values \<Rightarrow> json \<Rightarrow> int \<Rightarrow> int" where
  "estimatedCostMicrousd env usage fallback =
     (let direct = usageInteger (field ''estimated_cost_microusd'' usage) in
      if direct > 0 then direct
      else case dollars env (field ''cost_usd'' usage) of
        Some n \<Rightarrow> n
      | None \<Rightarrow> (case dollars env (field ''total_cost_usd'' usage) of Some n \<Rightarrow> n | None \<Rightarrow> fallback))"

definition colon_join :: "string list \<Rightarrow> string" where
  "colon_join xs = concat (case xs of [] \<Rightarrow> [] | y # ys \<Rightarrow> y # map (\<lambda>x. CHR '':'' # x) ys)"

definition legacyEventId :: "string \<Rightarrow> string \<Rightarrow> json \<Rightarrow> nat \<Rightarrow> string" where
  "legacyEventId workspaceId chatName entry index =
     colon_join [''legacy-runtime-usage'', workspaceId, encodeURIComponent chatName,
       show_int (usageInteger (field ''created_at'' entry)),
       encodeURIComponent (case json_string (field ''purpose'' entry) of None \<Rightarrow> ''unknown'' | Some p \<Rightarrow> p),
       show_int (usageInteger (field ''message_count'' entry)), show_nat index]"

definition usageEventId :: "string \<Rightarrow> string \<Rightarrow> json \<Rightarrow> nat \<Rightarrow> string" where
  "usageEventId workspaceId chatName entry index =
     (case json_string (field ''event_id'' entry) of
        Some i \<Rightarrow> if trim i \<noteq> [] then i else legacyEventId workspaceId chatName entry index
      | None \<Rightarrow> legacyEventId workspaceId chatName entry index)"

section \<open>Synchronizing a session\<close>

definition text_or :: "string \<Rightarrow> json option \<Rightarrow> string" where
  "text_or fallback value =
     (case json_string value of None \<Rightarrow> fallback | Some s \<Rightarrow> if trim s \<noteq> [] then s else fallback)"

definition entry_outcome :: "json option \<Rightarrow> usage_outcome" where
  "entry_outcome status =
     (if json_string status = Some ''success'' then UsageSuccess
      else if json_string status = Some ''cancelled'' then UsageCancelled else UsageError)"

definition entry_usage ::
  "runtime_values \<Rightarrow> personal_workspace \<Rightarrow> string \<Rightarrow> string option \<Rightarrow> json \<Rightarrow> nat \<Rightarrow> json \<Rightarrow> json \<Rightarrow> usage_input"
where
  "entry_usage env workspace chatName displayName state index entry usage =
     (let provider = text_or ''unknown'' (field ''provider'' state);
          model = text_or ''unknown'' (field ''model'' state);
          createdAtSeconds = usageInteger (field ''created_at'' entry);
          inputTokens = usageValue usage [''prompt_tokens'', ''input_tokens''];
          outputTokens = usageValue usage [''completion_tokens'', ''output_tokens''];
          cachedTokens = cachedUsageValue usage;
          estimated = estimateModelUsageCost (rnv_fl env) provider model inputTokens outputTokens cachedTokens in
      \<lparr>uin_eventId = usageEventId (pw_id workspace) chatName entry index,
       uin_organizationId = pw_organizationId workspace, uin_membershipId = pw_memberId workspace,
       uin_workspaceId = pw_id workspace, uin_sessionId = chatName, uin_sessionDisplayName = truthy displayName,
       uin_agentId = (if text_or [] (field ''agent'' state) = [] then None else Some (text_or [] (field ''agent'' state))),
       uin_provider = provider, uin_model = model, uin_inputTokens = JInt inputTokens,
       uin_outputTokens = JInt outputTokens, uin_cachedTokens = Some (JInt cachedTokens),
       uin_reasoningTokens = Some (JInt (reasoningUsageValue usage)),
       uin_estimatedCostMicrousd = Some (JInt (estimatedCostMicrousd env usage (fst estimated))),
       uin_cacheSavingsMicrousd = Some (JInt (cacheSavingsMicrousd env usage (snd estimated))), uin_durationMs = None,
       uin_outcome = Some (entry_outcome (field ''status'' entry)),
       uin_occurredAt = JInt (if createdAtSeconds > 0 then createdAtSeconds * 1000 else rnv_now env),
       uin_receivedAt = None\<rparr>)"

text \<open>The entries of the log; those that are no objects or carry no usage are skipped.\<close>

fun log_usage ::
  "runtime_values \<Rightarrow> personal_workspace \<Rightarrow> string \<Rightarrow> string option \<Rightarrow> json \<Rightarrow> nat \<Rightarrow> json list \<Rightarrow> usage_input list"
where
  "log_usage env workspace chatName displayName state index [] = []"
| "log_usage env workspace chatName displayName state index (entry # entries) =
     (case field ''usage'' entry of
        Some usage \<Rightarrow>
          if is_object entry \<and> is_object usage
          then [entry_usage env workspace chatName displayName state index entry usage] else []
      | None \<Rightarrow> [])
     @ log_usage env workspace chatName displayName state (Suc index) entries"

definition session_usage ::
  "runtime_values \<Rightarrow> personal_workspace \<Rightarrow> string \<Rightarrow> string option \<Rightarrow> json \<Rightarrow> usage_input list"
where
  "session_usage env workspace chatName displayName state =
     (case field ''llm_request_log'' state of
        Some (JsonArray entries) \<Rightarrow> log_usage env workspace chatName displayName state 0 entries
      | _ \<Rightarrow> [])"

fun record_all :: "usage_input list \<Rightarrow> int \<Rightarrow> unit dbop" where
  "record_all [] now = oreturn ()"
| "record_all (inp # inps) now = obind (recordUsageEvent inp (JInt now)) (\<lambda>_. record_all inps now)"

text \<open>
  A reply of the runtime is the error of the request or of the parser, \<open>None\<close> for a status that is
  not a success, or the parsed body; the properties of \<open>null\<close> cannot be read.
\<close>

type_synonym runtime_reply = "db_error + json option"

definition syncChatUsage ::
  "runtime_values \<Rightarrow> personal_workspace \<Rightarrow> string \<Rightarrow> string option \<Rightarrow> runtime_reply \<Rightarrow> unit dbop"
where
  "syncChatUsage env workspace chatName displayName session =
     obind (olift session) (\<lambda>response.
     case response of
       None \<Rightarrow> oreturn ()
     | Some state \<Rightarrow>
         if state = JsonNull then othrow (JsTypeError ''null is not an object'')
         else record_all (session_usage env workspace chatName displayName state) (rnv_now env))"

definition listed_chat :: "json \<Rightarrow> (string \<times> string option) list" where
  "listed_chat chat =
     (if \<not> is_object chat then []
      else case json_string (field ''name'' chat) of
        None \<Rightarrow> []
      | Some name \<Rightarrow>
          if trim name = [] then []
          else [(name, (case json_string (field ''display_name'' chat) of
                   None \<Rightarrow> None | Some d \<Rightarrow> if trim d = [] then None else Some d))])"

definition listed_chats :: "json \<Rightarrow> (string \<times> string option) list" where
  "listed_chats payload =
     (case field ''chats'' payload of Some (JsonArray chats) \<Rightarrow> concat (map listed_chat chats) | _ \<Rightarrow> [])"

text \<open>\<open>Promise.all\<close>: every chat is synchronized, the first error is the error of all.\<close>

fun sync_chats ::
  "runtime_values \<Rightarrow> personal_workspace \<Rightarrow> (string \<Rightarrow> runtime_reply) \<Rightarrow> (string \<times> string option) list
     \<Rightarrow> cloud_db \<Rightarrow> (db_error + unit) \<times> cloud_db"
where
  "sync_chats env workspace sessions [] s = (Inr (), s)"
| "sync_chats env workspace sessions ((name, display) # chats) s =
     (let (r, t) = syncChatUsage env workspace name display (sessions name) s;
          (others, u) = sync_chats env workspace sessions chats t in
      (case r of Inl e \<Rightarrow> Inl e | Inr _ \<Rightarrow> others, u))"

definition reconcileWorkspaceUsage ::
  "runtime_values \<Rightarrow> personal_workspace option \<Rightarrow> runtime_reply \<Rightarrow> (string \<Rightarrow> runtime_reply) \<Rightarrow> unit dbop"
where
  "reconcileWorkspaceUsage env resolved chats sessions =
     (case resolved of
        None \<Rightarrow> oreturn ()
      | Some workspace \<Rightarrow>
          if pw_state workspace \<noteq> WsReady \<or> truthy (pw_workerWorkspaceId workspace) = None then oreturn ()
          else obind (olift chats) (\<lambda>response.
            case response of
              None \<Rightarrow> oreturn ()
            | Some payload \<Rightarrow>
                if payload = JsonNull then othrow (JsTypeError ''null is not an object'')
                else sync_chats env workspace sessions (listed_chats payload)))"

section \<open>Requests to the runtime\<close>

definition requestHeaderBlocklist :: "string list" where
  "requestHeaderBlocklist =
     [''authorization'', ''connection'', ''cookie'', ''forwarded'', ''host'', ''keep-alive'', ''origin'',
      ''proxy-authenticate'', ''proxy-authorization'', ''referer'', ''te'', ''trailer'', ''transfer-encoding'',
      ''upgrade'', ''x-forwarded-for'', ''x-forwarded-host'', ''x-forwarded-proto'']"

definition runtimeResponseBlocklist :: "string list" where
  "runtimeResponseBlocklist =
     [''connection'', ''content-encoding'', ''content-length'', ''keep-alive'', ''proxy-authenticate'',
      ''proxy-authorization'', ''server'', ''set-cookie'', ''te'', ''trailer'', ''transfer-encoding'', ''upgrade'',
      ''www-authenticate'']"

definition without_headers :: "string list \<Rightarrow> string \<Rightarrow> (string \<times> string) list \<Rightarrow> (string \<times> string) list" where
  "without_headers blocked start headers =
     filter (\<lambda>(key, _). \<not> (toLowerCase key \<in> set blocked \<or> take (length start) (toLowerCase key) = start)) headers"

text \<open>\<open>Headers.set\<close> replaces a header of the same name, whatever its case.\<close>

definition set_header :: "string \<Rightarrow> string \<Rightarrow> (string \<times> string) list \<Rightarrow> (string \<times> string) list" where
  "set_header name v headers = filter (\<lambda>(key, _). toLowerCase key \<noteq> name) headers @ [(name, v)]"

definition runtimeRequestHeaders :: "(string \<times> string) list \<Rightarrow> string \<Rightarrow> (string \<times> string) list" where
  "runtimeRequestHeaders headers accessToken =
     set_header ''authorization'' (''Bearer '' @ accessToken) (without_headers requestHeaderBlocklist ''sec-'' headers)"

definition browserResponseHeaders :: "(string \<times> string) list \<Rightarrow> (string \<times> string) list" where
  "browserResponseHeaders headers =
     set_header ''cache-control'' ''no-store'' (without_headers runtimeResponseBlocklist ''access-control-'' headers)"

record runtime_access =
  rac_address :: string
  rac_accessToken :: string

record parsed_base =
  pb_protocol :: string
  pb_hostname :: string
  pb_username :: string
  pb_password :: string

record runtime_target =
  rtg_authority :: string
  rtg_reference :: string

definition is_slash :: "char \<Rightarrow> bool" where
  "is_slash c \<longleftrightarrow> c = CHR ''/'' \<or> c = CHR 0x5C"

text \<open>
  The reference of an \<open>http\<close> URL that begins with two slashes names an authority, which ends at the
  next slash, question mark or number sign; one that begins with a single slash is a path.
\<close>

definition resolve_reference :: "string \<Rightarrow> string \<Rightarrow> runtime_target" where
  "resolve_reference authority reference =
     (let rest = dropWhile is_slash reference;
          part = (\<lambda>c. \<not> is_slash c \<and> c \<noteq> CHR ''?'' \<and> c \<noteq> CHR ''#'') in
      if length (takeWhile is_slash reference) \<ge> 2
      then \<lparr>rtg_authority = takeWhile part rest, rtg_reference = dropWhile part rest\<rparr>
      else \<lparr>rtg_authority = authority, rtg_reference = reference\<rparr>)"

definition privateRuntimeURL ::
  "(string \<Rightarrow> parsed_base option) \<Rightarrow> runtime_access \<Rightarrow> string \<Rightarrow> string \<Rightarrow> runtime_target option"
where
  "privateRuntimeURL parseURL access runtimePath search =
     (case parseURL (''http://'' @ rac_address access) of
        None \<Rightarrow> None
      | Some b \<Rightarrow>
          if pb_protocol b \<noteq> ''http:'' \<or> pb_hostname b = [] \<or> pb_username b \<noteq> [] \<or> pb_password b \<noteq> [] then None
          else
            let path = (if take 1 runtimePath = ''/'' then runtimePath else CHR ''/'' # runtimePath);
                target = resolve_reference (rac_address access) (path @ search) in
            if parseURL (''http://'' @ rtg_authority target) = None then None else Some target)"

definition completedChatName :: "string \<Rightarrow> string \<Rightarrow> string option" where
  "completedChatName rmethod runtimePath =
     (case split_on CHR ''/'' runtimePath of
        [e, c, name] \<Rightarrow>
          if rmethod = ''POST'' \<and> e = [] \<and> c = ''chat'' \<and> name \<noteq> [] then decodeURIComponent name else None
      | _ \<Rightarrow> None)"

record proxied_request =
  prq_method :: string
  prq_path :: string
  prq_search :: string
  prq_headers :: "(string \<times> string) list"
  prq_contentLength :: js_num
  prq_chunks :: "nat list list"
  prq_interrupted :: bool

datatype call_body = NoBody | Buffered "nat list" | Streamed

record upstream_call =
  uc_target :: runtime_target
  uc_method :: string
  uc_headers :: "(string \<times> string) list"
  uc_body :: call_body

datatype access_outcome = AccessAborted | AccessFailed bool | AccessGranted runtime_access
datatype send_outcome = SendAborted | SendFailed | Answered nat "(string \<times> string) list"

text \<open>The last part of a relayed response is the chat whose usage is read when its stream completes.\<close>

datatype proxy_reply =
    RuntimeRefused nat string bool
  | RuntimeRelayed nat "(string \<times> string) list" "string option"

definition maximumUploadBytes :: nat where
  "maximumUploadBytes = 10 * 1024 * 1024"

definition declares_upload :: "js_num \<Rightarrow> bool" where
  "declares_upload n \<longleftrightarrow> n = JPosInf \<or> declares_more n maximumUploadBytes"

definition read_upload :: "proxied_request \<Rightarrow> (string \<times> nat) + nat list" where
  "read_upload req =
     (if declares_upload (prq_contentLength req) then Inl (''upload_too_large'', 413)
      else case read_chunks maximumUploadBytes (prq_chunks req) [] of
        Inl _ \<Rightarrow> Inl (''upload_too_large'', 413)
      | Inr bytes \<Rightarrow> if prq_interrupted req then Inl (''upload_interrupted'', 400) else Inr bytes)"

definition request_body :: "proxied_request \<Rightarrow> (string \<times> nat) + call_body" where
  "request_body req =
     (if prq_path req = ''/files/upload'' \<and> prq_method req = ''POST''
      then map_sum id Buffered (read_upload req)
      else if prq_method req = ''GET'' \<or> prq_method req = ''HEAD'' then Inr NoBody else Inr Streamed)"

definition relay :: "proxied_request \<Rightarrow> send_outcome \<Rightarrow> proxy_reply" where
  "relay req outcome =
     (case outcome of
        SendAborted \<Rightarrow> RuntimeRefused 499 ''client_closed_request'' False
      | SendFailed \<Rightarrow> RuntimeRefused 502 ''runtime_unreachable'' True
      | Answered status headers \<Rightarrow>
          RuntimeRelayed status (browserResponseHeaders headers)
            (if 200 \<le> status \<and> status \<le> 299 then completedChatName (prq_method req) (prq_path req) else None))"

text \<open>\<open>proxy\<close>: the reply, and the call it made.\<close>

definition proxyRuntime ::
  "(string \<Rightarrow> parsed_base option) \<Rightarrow> personal_workspace option \<Rightarrow> (string \<Rightarrow> access_outcome) \<Rightarrow> (upstream_call \<Rightarrow> send_outcome)
     \<Rightarrow> proxied_request \<Rightarrow> proxy_reply \<times> upstream_call option"
where
  "proxyRuntime parseURL resolved getAccess send req =
     (case resolved of
        None \<Rightarrow> (RuntimeRefused 404 ''workspace_not_found'' False, None)
      | Some workspace \<Rightarrow>
          if pw_state workspace \<noteq> WsReady \<or> truthy (pw_workerWorkspaceId workspace) = None
          then (RuntimeRefused 409 ''workspace_not_ready'' True, None)
          else
            (case getAccess (pw_id workspace) of
               AccessAborted \<Rightarrow> (RuntimeRefused 499 ''client_closed_request'' False, None)
             | AccessFailed retryable \<Rightarrow> (RuntimeRefused 503 ''runtime_access_unavailable'' retryable, None)
             | AccessGranted access \<Rightarrow>
                 (case privateRuntimeURL parseURL access (prq_path req) (prq_search req) of
                    None \<Rightarrow> (RuntimeRefused 502 ''runtime_address_invalid'' True, None)
                  | Some target \<Rightarrow>
                      (case request_body req of
                         Inl (code, status) \<Rightarrow> (RuntimeRefused status code False, None)
                       | Inr body \<Rightarrow>
                           let call = \<lparr>uc_target = target, uc_method = prq_method req,
                                uc_headers = runtimeRequestHeaders (prq_headers req) (rac_accessToken access),
                                uc_body = body\<rparr> in
                           (relay req (send call), Some call)))))"

section \<open>The body of a response\<close>

text \<open>
  \<open>forwardRuntimeBody\<close>: \<open>fb_completions\<close> counts the calls of \<open>onComplete\<close>, if there is one,
  \<open>fb_cleanups\<close> those of \<open>cleanup\<close>. A chunk is its decoded text.
\<close>

record forwarded_body =
  fb_tail :: string
  fb_completions :: nat
  fb_cleanups :: nat
  fb_finished :: bool
  fb_aborted :: bool
  fb_delivered :: "string list"

datatype body_event = BodyChunk string | BodyEnd | BodyError | BodyCancel

definition new_body :: forwarded_body where
  "new_body = \<lparr>fb_tail = [], fb_completions = 0, fb_cleanups = 0, fb_finished = False, fb_aborted = False, fb_delivered = []\<rparr>"

definition last_chars :: "nat \<Rightarrow> string \<Rightarrow> string" where
  "last_chars n s = drop (length s - n) s"

definition complete_body :: "bool \<Rightarrow> forwarded_body \<Rightarrow> forwarded_body" where
  "complete_body tracked b = (if tracked \<and> fb_completions b = 0 then b\<lparr>fb_completions := 1\<rparr> else b)"

definition finish_body :: "forwarded_body \<Rightarrow> forwarded_body" where
  "finish_body b = (if fb_finished b then b else b\<lparr>fb_finished := True, fb_cleanups := fb_cleanups b + 1\<rparr>)"

definition done_marker :: string where
  "done_marker = ''data: [DONE]''"

definition body_chunk :: "bool \<Rightarrow> string \<Rightarrow> forwarded_body \<Rightarrow> forwarded_body" where
  "body_chunk tracked chunk b =
     (let seen = (if tracked \<and> fb_completions b = 0
                  then let tail = last_chars 128 (fb_tail b @ chunk); c = b\<lparr>fb_tail := tail\<rparr> in
                       if text_includes tail done_marker then complete_body tracked c else c
                  else b) in
      seen\<lparr>fb_delivered := fb_delivered seen @ [chunk]\<rparr>)"

text \<open>A stream that has ended calls nothing any more.\<close>

fun body_step :: "bool \<Rightarrow> forwarded_body \<Rightarrow> body_event \<Rightarrow> forwarded_body" where
  "body_step tracked b (BodyChunk chunk) = (if fb_finished b then b else body_chunk tracked chunk b)"
| "body_step tracked b BodyEnd = (if fb_finished b then b else finish_body (complete_body tracked b))"
| "body_step tracked b BodyError = (if fb_finished b then b else finish_body b)"
| "body_step tracked b BodyCancel = (if fb_finished b then b else finish_body (b\<lparr>fb_aborted := True\<rparr>))"

section \<open>Repeated synchronization\<close>

text \<open>An event is absorbed if recording it adds nothing.\<close>

definition absorbed :: "usage_event_row \<Rightarrow> cloud_db \<Rightarrow> bool" where
  "absorbed x db \<longleftrightarrow>
     usage_scope db x \<and> find_organization (ue_organization_id x) db \<noteq> None \<and> failed_check usage_event_schema x = None
     \<and> find (\<lambda>e. ue_event_id e = ue_event_id x) (usage_events db) \<noteq> None
     \<and> (\<forall>e \<in> set (usage_events db). ue_event_id e = ue_event_id x \<longrightarrow> \<not> adds_usage x e)"

lemma absorbed_store: "absorbed x db \<Longrightarrow> store_usage x db = (Inr 0, db)"
  by (auto simp: absorbed_def store_usage_def upsert_in_def atomic_def obind_def operation_defs update_in_def
      sql_update_none ue_tbl.put_get)

text \<open>The keys, the name and the amounts two records of one event share.\<close>

definition same_usage :: "usage_event_row \<Rightarrow> usage_event_row \<Rightarrow> bool" where
  "same_usage x y \<longleftrightarrow> ue_event_id y = ue_event_id x \<and> ue_organization_id y = ue_organization_id x
     \<and> ue_membership_id y = ue_membership_id x \<and> ue_workspace_id y = ue_workspace_id x
     \<and> ue_session_display_name y = ue_session_display_name x
     \<and> ue_estimated_cost_microusd y = ue_estimated_cost_microusd x
     \<and> ue_cache_savings_microusd y = ue_cache_savings_microusd x"

lemma stored_is_absorbed:
  assumes "store_usage x s = (Inr n, t)" and "same_usage x y" and "failed_check usage_event_schema y = None"
  shows "absorbed y t"
proof -
  note run = store_usage_Inr [OF assms(1)]
  have "row_ok usage_event_schema x" using run(3) by (simp add: row_ok_def)
  then have pos: "ue_estimated_cost_microusd x \<ge> 0" "ue_cache_savings_microusd x \<ge> 0"
    by (simp_all add: row_ok_iff usage_event_schema_def)
  have same: "adds_usage y e = adds_usage x e" for e
    using assms(2) by (simp add: adds_usage_def same_usage_def)
  have "\<forall>e \<in> set (usage_events t). ue_event_id e = ue_event_id y \<longrightarrow> \<not> adds_usage y e"
    using run(5) assms(2) enriched_adds_nothing [OF pos]
    by (auto simp: same merged_usage_def same_usage_def find_None_iff split: if_splits)
  moreover have "find (\<lambda>e. ue_event_id e = ue_event_id y) (usage_events t) \<noteq> None"
    using run(5) assms(2) by (auto simp: find_None_iff same_usage_def)
  ultimately show ?thesis
    using run(1,2) usage_events_only [OF run(4)] assms(2,3) by (simp add: absorbed_def same_usage_def usage_scope_def)
qed

lemma absorbed_remains:
  assumes "absorbed y s" and "store_usage x s = (Inr n, t)"
    and "ue_session_display_name x = ue_session_display_name y"
  shows "absorbed y t"
proof -
  note run = store_usage_Inr [OF assms(2)]
  have "\<not> adds_usage y (merged_usage x e)" if "\<not> adds_usage y e" for e
    using that assms(3) by (auto simp: merged_usage_def adds_usage_def enriched_row_def split: option.splits)
  with assms(1) run(5) have "\<forall>e \<in> set (usage_events t). ue_event_id e = ue_event_id y \<longrightarrow> \<not> adds_usage y e"
    by (auto simp: absorbed_def find_None_iff)
  moreover have "find (\<lambda>e. ue_event_id e = ue_event_id y) (usage_events t) \<noteq> None"
    using run(5) assms(1) by (auto simp: absorbed_def find_None_iff)
  ultimately show ?thesis
    using assms(1) usage_events_only [OF run(4)] by (simp add: absorbed_def usage_scope_def)
qed

lemma record_all_remains:
  assumes "record_all xs now s = (Inr (), t)" and "absorbed y s"
    and "\<forall>x \<in> set xs. trim_or_null (uin_sessionDisplayName x) = ue_session_display_name y"
  shows "absorbed y t"
  using assms
proof (induction xs arbitrary: s)
  case (Cons x xs)
  then obtain b u where one: "recordUsageEvent x (JInt now) s = (Inr b, u)" and rest: "record_all xs now u = (Inr (), t)"
    by auto
  from one obtain r n where r: "usage_row x (JInt now) = Inr r" and store: "store_usage r s = (Inr n, u)"
    by (rule recordUsageEvent_Inr)
  have "ue_session_display_name r = trim_or_null (uin_sessionDisplayName x)"
    using r by (auto simp: usage_row_def sbind_eq_Inr)
  with Cons.prems have "absorbed y u" by (intro absorbed_remains [OF _ store]) auto
  with Cons.IH [OF rest] Cons.prems(3) show ?case by simp
qed simp

lemma usage_row_later:
  assumes "usage_row x (JInt now) = Inr r" and "uin_receivedAt x = None" and "0 \<le> later" and "later \<le> MAX_SAFE_INTEGER"
    and "y = x \<or> y = x\<lparr>uin_occurredAt := JInt later\<rparr>"
  obtains r' where "usage_row y (JInt later) = Inr r'" and "same_usage r r'"
    and "failed_check usage_event_schema r = None \<Longrightarrow> failed_check usage_event_schema r' = None"
proof -
  have ok: "nonNegativeInteger (JInt later) f = Inr later" for f using assms(3,4) by (rule nonNegativeInteger_JInt)
  define r' where "r' = r\<lparr>ue_occurred_at := (if y = x then ue_occurred_at r else later), ue_received_at := later\<rparr>"
  have "usage_row y (JInt later) = Inr r'"
    using assms(1,2,5) by (auto simp: usage_row_def sbind_eq_Inr ok r'_def)
  moreover have "same_usage r r'" by (simp add: same_usage_def r'_def)
  moreover have "failed_check usage_event_schema r' = None" if "failed_check usage_event_schema r = None"
    using that assms(3) by (auto simp: r'_def failed_check_None usage_event_schema_def)
  ultimately show ?thesis by (rule that)
qed

lemma record_all_again:
  assumes "record_all xs now s = (Inr (), t)" and "0 \<le> later" and "later \<le> MAX_SAFE_INTEGER"
    and "\<forall>x \<in> set xs. uin_receivedAt x = None \<and> uin_sessionDisplayName x = name"
    and "\<forall>y \<in> set ys. \<exists>x \<in> set xs. y = x \<or> y = x\<lparr>uin_occurredAt := JInt later\<rparr>"
  shows "record_all ys later t = (Inr (), t)"
proof -
  have row: "\<exists>r'. usage_row y (JInt later) = Inr r' \<and> absorbed r' t"
    if mem: "x \<in> set xs" and y: "y = x \<or> y = x\<lparr>uin_occurredAt := JInt later\<rparr>" for x y
    using assms(1,4) mem
  proof (induction xs arbitrary: s)
    case (Cons z xs)
    then obtain b u where one: "recordUsageEvent z (JInt now) s = (Inr b, u)" and rest: "record_all xs now u = (Inr (), t)"
      by auto
    show ?case
    proof (cases "x = z")
      case True
      from one obtain r n where r: "usage_row z (JInt now) = Inr r" and store: "store_usage r s = (Inr n, u)"
        by (rule recordUsageEvent_Inr)
      obtain r' where r': "usage_row y (JInt later) = Inr r'" "same_usage r r'"
        and check: "failed_check usage_event_schema r = None \<Longrightarrow> failed_check usage_event_schema r' = None"
        by (rule usage_row_later [OF r _ assms(2,3)]) (use Cons.prems(2) y True in auto)
      have "absorbed r' u"
        by (rule stored_is_absorbed [OF store r'(2) check]) (rule store_usage_Inr(3) [OF store])
      moreover have "\<forall>x \<in> set xs. trim_or_null (uin_sessionDisplayName x) = ue_session_display_name r'"
      proof -
        have "ue_session_display_name r = trim_or_null (uin_sessionDisplayName z)"
          using r by (auto simp: usage_row_def sbind_eq_Inr)
        with r'(2) Cons.prems(2) show ?thesis by (simp add: same_usage_def)
      qed
      ultimately show ?thesis using record_all_remains [OF rest] r'(1) by blast
    next
      case False
      with Cons.prems Cons.IH [OF rest] show ?thesis by simp
    qed
  qed simp
  then have "\<forall>y \<in> set ys. recordUsageEvent y (JInt later) t = (Inr False, t)"
  proof (intro ballI)
    fix y assume y: "y \<in> set ys"
    with assms(5) obtain x where "x \<in> set xs" and "y = x \<or> y = x\<lparr>uin_occurredAt := JInt later\<rparr>" by blast
    from row [OF this] obtain r where "usage_row y (JInt later) = Inr r" and "absorbed r t" by blast
    then show "recordUsageEvent y (JInt later) t = (Inr False, t)"
      by (simp add: recordUsageEvent_def absorbed_store obind_def operation_defs)
  qed
  then show ?thesis by (induction ys) (simp_all add: obind_def operation_defs)
qed

lemma entry_usage_simps [simp]:
  "uin_receivedAt (entry_usage env w c d state n entry usage) = None"
  "uin_sessionDisplayName (entry_usage env w c d state n entry usage) = truthy d"
  unfolding entry_usage_def Let_def by (simp_all only: usage_input.simps)

lemma log_usage_inputs:
  "x \<in> set (log_usage env w c d state n entries) \<Longrightarrow> uin_receivedAt x = None \<and> uin_sessionDisplayName x = truthy d"
  by (induction entries arbitrary: n) (auto split: option.splits if_splits)

lemma amounts_of_clock:
  "estimatedCostMicrousd (env\<lparr>rnv_now := later\<rparr>) usage fallback = estimatedCostMicrousd env usage fallback"
  "cacheSavingsMicrousd (env\<lparr>rnv_now := later\<rparr>) usage fallback = cacheSavingsMicrousd env usage fallback"
proof -
  have "dollars (env\<lparr>rnv_now := later\<rparr>) v = dollars env v" for v
    by (auto simp: dollars_def split: option.split js_num.split)
  then show "estimatedCostMicrousd (env\<lparr>rnv_now := later\<rparr>) usage fallback = estimatedCostMicrousd env usage fallback"
    and "cacheSavingsMicrousd (env\<lparr>rnv_now := later\<rparr>) usage fallback = cacheSavingsMicrousd env usage fallback"
    by (simp_all only: estimatedCostMicrousd_def cacheSavingsMicrousd_def)
qed

lemma clock_only [simp]:
  "rnv_fl (env\<lparr>rnv_now := later\<rparr>) = rnv_fl env" "rnv_now (env\<lparr>rnv_now := later\<rparr>) = later"
  by simp_all

lemma entry_usage_later:
  "entry_usage (env\<lparr>rnv_now := later\<rparr>) w c d state n entry usage = entry_usage env w c d state n entry usage
   \<or> entry_usage (env\<lparr>rnv_now := later\<rparr>) w c d state n entry usage
      = (entry_usage env w c d state n entry usage)\<lparr>uin_occurredAt := JInt later\<rparr>"
proof (cases "usageInteger (field ''created_at'' entry) > 0")
  case True
  then show ?thesis
    unfolding entry_usage_def Let_def amounts_of_clock clock_only by (simp only: if_True simp_thms)
next
  case False
  then show ?thesis
    unfolding entry_usage_def Let_def amounts_of_clock clock_only
    by (simp only: if_False usage_input.simps simp_thms)
qed

lemma log_usage_later:
  "y \<in> set (log_usage (env\<lparr>rnv_now := later\<rparr>) w c d state n entries) \<Longrightarrow>
     \<exists>x \<in> set (log_usage env w c d state n entries). y = x \<or> y = x\<lparr>uin_occurredAt := JInt later\<rparr>"
proof (induction entries arbitrary: n)
  case (Cons entry entries)
  show ?case
  proof (cases "y \<in> set (log_usage (env\<lparr>rnv_now := later\<rparr>) w c d state (Suc n) entries)")
    case True
    with Cons.IH [OF True] show ?thesis by auto
  next
    case False
    with Cons.prems show ?thesis
    proof (cases "field ''usage'' entry")
      case (Some usage)
      with False Cons.prems have "is_object entry" "is_object usage"
        and "y = entry_usage (env\<lparr>rnv_now := later\<rparr>) w c d state n entry usage"
        by (auto split: if_splits)
      with Some entry_usage_later [of later env w c d state n entry usage] show ?thesis by auto
    qed auto
  qed
qed simp

lemma session_inputs:
  "\<forall>x \<in> set (session_usage env w c d state). uin_receivedAt x = None \<and> uin_sessionDisplayName x = truthy d"
  by (auto simp: session_usage_def dest: log_usage_inputs split: option.splits json.splits)

lemma session_usage_later:
  "\<forall>y \<in> set (session_usage (env\<lparr>rnv_now := later\<rparr>) w c d state). \<exists>x \<in> set (session_usage env w c d state).
     y = x \<or> y = x\<lparr>uin_occurredAt := JInt later\<rparr>"
proof (cases "field ''llm_request_log'' state")
  case (Some v)
  then show ?thesis by (cases v) (auto simp: session_usage_def dest: log_usage_later)
qed (simp add: session_usage_def)

text \<open>C28: Reading the usage of a session again, at any later time, adds nothing: whatever the log of the
  session holds, with or without event identifiers, a second synchronization of the same log leaves
  the database as the first one left it.\<close>

theorem usage_sync_repeats_nothing:
  assumes "syncChatUsage env workspace chat display session s = (Inr (), t)"
    and "0 \<le> later" and "later \<le> MAX_SAFE_INTEGER"
  shows "syncChatUsage (env\<lparr>rnv_now := later\<rparr>) workspace chat display session t = (Inr (), t)"
proof (cases session)
  case (Inr response)
  show ?thesis
  proof (cases response)
    case (Some state)
    with assms(1) Inr have state: "state \<noteq> JsonNull"
      and run: "record_all (session_usage env workspace chat display state) (rnv_now env) s = (Inr (), t)"
      by (auto simp: syncChatUsage_def obind_def operation_defs split: if_splits)
    have "record_all (session_usage (env\<lparr>rnv_now := later\<rparr>) workspace chat display state) later t = (Inr (), t)"
      by (rule record_all_again [OF run assms(2,3) session_inputs session_usage_later])
    with Inr Some state show ?thesis by (simp add: syncChatUsage_def obind_def operation_defs)
  qed (use Inr in \<open>simp add: syncChatUsage_def obind_def operation_defs\<close>)
qed (use assms in \<open>simp add: syncChatUsage_def obind_def operation_defs\<close>)

definition ready_workspace :: personal_workspace where
  "ready_workspace = \<lparr>pw_id = ''w1'', pw_memberId = ''m1'', pw_organizationId = ''o1'', pw_workerWorkspaceId = Some ''w1'',
     pw_workerHostId = Some ''h1'', pw_reservedMemoryBytes = 0, pw_reservedCpuMillis = 0, pw_reservedDiskBytes = 0,
     pw_reservedWorkspaceSlots = 1, pw_state = WsReady, pw_createdAt = 0, pw_updatedAt = 0\<rparr>"

definition sample_values :: runtime_values where
  "sample_values = \<lparr>rnv_fl = id, rnv_micros = (\<lambda>n. 0), rnv_now = 5000\<rparr>"

definition sample_session :: runtime_reply where
  "sample_session = Inr (Some (JsonObject [(''provider'', JsonString ''openai''), (''model'', JsonString ''gpt-5.5''),
     (''llm_request_log'', JsonArray [JsonNull, JsonObject [(''usage'', JsonObject [(''prompt_tokens'', JsonNumber (JInt 7))])]])]))"

lemma usage_sync_repeats_nothing_witness:
  "case syncChatUsage sample_values ready_workspace ''c'' None sample_session usage_db of
     (Inr _, t) \<Rightarrow> length (usage_events t) = 1
       \<and> syncChatUsage (sample_values\<lparr>rnv_now := 9000\<rparr>) ready_workspace ''c'' None sample_session t = (Inr (), t)
   | _ \<Rightarrow> False"
proof -
  have "case syncChatUsage sample_values ready_workspace ''c'' None sample_session usage_db of
     (Inr _, t) \<Rightarrow> length (usage_events t) = 1 | _ \<Rightarrow> False" by code_simp
  then obtain t where run: "syncChatUsage sample_values ready_workspace ''c'' None sample_session usage_db = (Inr (), t)"
    and one: "length (usage_events t) = 1" by (auto split: prod.splits sum.splits)
  show ?thesis
    unfolding run using one usage_sync_repeats_nothing [OF run, of 9000] by (simp add: MAX_SAFE_INTEGER_def)
qed

section \<open>The end of a stream\<close>

lemma text_includes_iff: "text_includes s part \<longleftrightarrow> (\<exists>a b. s = a @ part @ b)"
proof (induction s)
  case (Cons c cs)
  have "take (length part) (c # cs) = part \<longleftrightarrow> (\<exists>b. c # cs = part @ b)"
    by (metis append_eq_conv_conj append_take_drop_id)
  moreover have "(\<exists>a b. c # cs = a @ part @ b) \<longleftrightarrow> (\<exists>b. c # cs = part @ b) \<or> (\<exists>a b. cs = a @ part @ b)"
  proof
    assume "\<exists>a b. c # cs = a @ part @ b"
    then obtain a b where "c # cs = a @ part @ b" by blast
    then show "(\<exists>b. c # cs = part @ b) \<or> (\<exists>a b. cs = a @ part @ b)" by (cases a) auto
  next
    assume "(\<exists>b. c # cs = part @ b) \<or> (\<exists>a b. cs = a @ part @ b)"
    then show "\<exists>a b. c # cs = a @ part @ b" by (metis append.simps(1) append.simps(2))
  qed
  ultimately show ?case using Cons by simp
qed simp

lemma last_chars_again: "last_chars n (last_chars n s @ c) = last_chars n (s @ c)"
  by (cases "length s \<le> n") (simp_all add: last_chars_def add.commute)

lemma last_chars_includes:
  assumes "length part + length rest \<le> n"
  shows "text_includes (last_chars n (before @ part @ rest)) part"
proof -
  have "last_chars n (before @ part @ rest) = drop (length before + (length part + length rest) - n) before @ part @ rest"
    using assms by (simp add: last_chars_def)
  then show ?thesis by (auto simp: text_includes_iff)
qed

text \<open>What holds of the body of a tracked stream.\<close>

definition body_inv :: "forwarded_body \<Rightarrow> bool" where
  "body_inv b \<longleftrightarrow> fb_completions b \<le> 1 \<and> (fb_finished b \<longleftrightarrow> fb_cleanups b = 1) \<and> fb_cleanups b \<le> 1
     \<and> (fb_completions b = 0 \<longrightarrow> fb_tail b = last_chars 128 (concat (fb_delivered b))
          \<and> \<not> text_includes (fb_tail b) done_marker)"

lemma body_inv_new: "body_inv new_body"
  by (simp add: body_inv_def new_body_def last_chars_def done_marker_def)

lemma body_inv_step: "body_inv b \<Longrightarrow> body_inv (body_step True b e)"
  by (cases e) (auto simp: body_inv_def body_chunk_def complete_body_def finish_body_def Let_def last_chars_again)

lemma body_inv_run: "body_inv b \<Longrightarrow> body_inv (foldl (body_step True) b es)"
  by (induction es arbitrary: b) (simp_all add: body_inv_step)

lemma completions_mono: "fb_completions b \<le> fb_completions (foldl (body_step tracked) b es)"
proof (induction es arbitrary: b)
  case (Cons e es)
  have "fb_completions b \<le> fb_completions (body_step tracked b e)"
    by (cases e) (auto simp: body_chunk_def complete_body_def finish_body_def Let_def)
  with Cons [of "body_step tracked b e"] show ?case by simp
qed simp

lemma chunks_delivered:
  "\<not> fb_finished b \<Longrightarrow> fb_delivered (foldl (body_step tracked) b (map BodyChunk cs)) = fb_delivered b @ cs
     \<and> \<not> fb_finished (foldl (body_step tracked) b (map BodyChunk cs))"
proof (induction cs arbitrary: b)
  case (Cons c cs)
  have "fb_delivered (body_chunk tracked c b) = fb_delivered b @ [c]" "\<not> fb_finished (body_chunk tracked c b)"
    using Cons.prems by (auto simp: body_chunk_def complete_body_def Let_def)
  with Cons.IH [of "body_chunk tracked c b"] Cons.prems show ?case by simp
qed simp

text \<open>However the body of a chat's answer is cut into chunks: once its text contains the marker
  \<open>data: [DONE]\<close> followed by at most 116 characters, the synchronization of the usage has been
  started, and whatever happens to the stream afterwards it is started once and never again, while
  every chunk is passed on as it came.\<close>

theorem done_marker_found_in_any_chunking:
  assumes "concat cs = before @ done_marker @ rest" and "length rest \<le> 116"
  shows "fb_completions (foldl (body_step True) new_body (map BodyChunk cs @ es)) = 1
    \<and> fb_delivered (foldl (body_step True) new_body (map BodyChunk cs)) = cs"
proof -
  let ?b = "foldl (body_step True) new_body (map BodyChunk cs)"
  have delivered: "fb_delivered ?b = cs" using chunks_delivered [of new_body True cs] by (simp add: new_body_def)
  have inv: "body_inv ?b" by (rule body_inv_run [OF body_inv_new])
  have "fb_completions ?b \<noteq> 0"
  proof
    assume "fb_completions ?b = 0"
    with inv delivered have "\<not> text_includes (last_chars 128 (concat cs)) done_marker" by (auto simp: body_inv_def)
    moreover have "text_includes (last_chars 128 (concat cs)) done_marker"
      unfolding assms(1) by (rule last_chars_includes) (use assms(2) in \<open>simp add: done_marker_def\<close>)
    ultimately show False by contradiction
  qed
  moreover have "fb_completions ?b \<le> fb_completions (foldl (body_step True) ?b es)" by (rule completions_mono)
  moreover have "body_inv (foldl (body_step True) ?b es)" by (rule body_inv_run [OF inv])
  ultimately show ?thesis using delivered by (simp add: body_inv_def)
qed

lemma done_marker_found_in_any_chunking_witness:
  "fb_completions (foldl (body_step True) new_body (map BodyChunk [''data: [DO'', ''NE]'', [CHR 0x0A]] @ [BodyCancel])) = 1"
  using done_marker_found_in_any_chunking [of "[''data: [DO'', ''NE]'', [CHR 0x0A]]" "[]" "[CHR 0x0A]" "[BodyCancel]"]
  by (simp add: done_marker_def)

section \<open>Calls of the runtime\<close>

lemma proxyRuntime_call:
  assumes "proxyRuntime parseURL resolved getAccess send req = (r, Some call)"
  obtains w access target body where "resolved = Some w" and "pw_state w = WsReady"
    and "truthy (pw_workerWorkspaceId w) \<noteq> None" and "getAccess (pw_id w) = AccessGranted access"
    and "privateRuntimeURL parseURL access (prq_path req) (prq_search req) = Some target"
    and "request_body req = Inr body"
    and "call = \<lparr>uc_target = target, uc_method = prq_method req,
           uc_headers = runtimeRequestHeaders (prq_headers req) (rac_accessToken access), uc_body = body\<rparr>"
    and "r = relay req (send call)"
proof -
  from assms obtain w where w: "resolved = Some w" by (cases resolved) (auto simp: proxyRuntime_def)
  with assms have ready: "pw_state w = WsReady" "truthy (pw_workerWorkspaceId w) \<noteq> None"
    by (auto simp: proxyRuntime_def split: if_splits)
  from assms w ready obtain access where access: "getAccess (pw_id w) = AccessGranted access"
    by (cases "getAccess (pw_id w)") (auto simp: proxyRuntime_def)
  from assms w ready access obtain target
    where target: "privateRuntimeURL parseURL access (prq_path req) (prq_search req) = Some target"
    by (cases "privateRuntimeURL parseURL access (prq_path req) (prq_search req)") (auto simp: proxyRuntime_def)
  from assms w ready access target obtain body where body: "request_body req = Inr body"
    by (cases "request_body req") (auto simp: proxyRuntime_def)
  show ?thesis
    by (rule that [OF w ready access target body])
      (use assms w ready access target body in \<open>auto simp: proxyRuntime_def Let_def\<close>)
qed

lemma request_headers_kept:
  assumes "(key, v) \<in> set (runtimeRequestHeaders headers token)"
  shows "key = ''authorization'' \<and> v = ''Bearer '' @ token
    \<or> (key, v) \<in> set headers \<and> toLowerCase key \<notin> set requestHeaderBlocklist \<and> take 4 (toLowerCase key) \<noteq> ''sec-''"
  using assms by (auto simp: runtimeRequestHeaders_def set_header_def without_headers_def eval_nat_numeral)

lemma response_headers_kept:
  assumes "(key, v) \<in> set (browserResponseHeaders headers)"
  shows "key = ''cache-control'' \<and> v = ''no-store''
    \<or> (key, v) \<in> set headers \<and> toLowerCase key \<notin> set runtimeResponseBlocklist
       \<and> take 15 (toLowerCase key) \<noteq> ''access-control-''"
  using assms by (auto simp: browserResponseHeaders_def set_header_def without_headers_def eval_nat_numeral)

lemma upload_read:
  "length read \<le> maximum \<Longrightarrow> read_chunks maximum chunks read =
     (if length (read @ concat chunks) > maximum then Inl RequestTooLarge else Inr (read @ concat chunks))"
  by (induction chunks arbitrary: read) auto

lemma buffered_upload:
  assumes "request_body req = Inr (Buffered bytes)"
  shows "bytes = concat (prq_chunks req) \<and> length bytes \<le> 10 * 1024 * 1024"
proof -
  from assms have "read_chunks maximumUploadBytes (prq_chunks req) [] = Inr bytes"
    by (auto simp: request_body_def read_upload_def split: if_splits sum.splits)
  then show ?thesis by (auto simp: upload_read maximumUploadBytes_def split: if_splits)
qed

definition private_base :: "(string \<Rightarrow> parsed_base option)" where
  "private_base url = Some \<lparr>pb_protocol = ''http:'', pb_hostname = url, pb_username = [], pb_password = []\<rparr>"

definition sample_proxied :: "string \<Rightarrow> proxied_request" where
  "sample_proxied path = \<lparr>prq_method = ''POST'', prq_path = path, prq_search = [],
     prq_headers = [(''Cookie'', ''s=1''), (''Sec-Fetch-Mode'', ''cors''), (''accept'', ''text'')],
     prq_contentLength = JNaN, prq_chunks = [[1, 2], [3]], prq_interrupted = False\<rparr>"

definition granted :: "string \<Rightarrow> access_outcome" where
  "granted w = AccessGranted \<lparr>rac_address = ''10.0.0.5:8080'', rac_accessToken = ''secret''\<rparr>"

definition answered :: "upstream_call \<Rightarrow> send_outcome" where
  "answered c = Answered 200 [(''Set-Cookie'', ''a=b''), (''content-type'', ''text'')]"

text \<open>C26: A request is sent to a runtime only for a workspace of the caller that is ready and placed, with
  the token its worker gave for this workspace; of the browser's headers none of the blocked ones is
  sent, an authorization header is always the gateway's own, an upload is at most 10 MiB and arrives
  whole, and the browser sees no cookie, challenge or CORS header of the runtime.\<close>

theorem runtime_calls_are_filtered:
  assumes "proxyRuntime parseURL resolved getAccess send req = (r, Some call)"
  shows "\<exists>w access. resolved = Some w \<and> pw_state w = WsReady \<and> truthy (pw_workerWorkspaceId w) \<noteq> None
      \<and> getAccess (pw_id w) = AccessGranted access
      \<and> (\<forall>(key, v) \<in> set (uc_headers call). toLowerCase key \<in> set requestHeaderBlocklist \<longrightarrow>
           key = ''authorization'' \<and> v = ''Bearer '' @ rac_accessToken access)
      \<and> (\<forall>(key, v) \<in> set (uc_headers call). take 4 (toLowerCase key) \<noteq> ''sec-'')
      \<and> (\<forall>bytes. uc_body call = Buffered bytes \<longrightarrow> bytes = concat (prq_chunks req) \<and> length bytes \<le> 10 * 1024 * 1024)
      \<and> (\<forall>status headers chat. r = RuntimeRelayed status headers chat \<longrightarrow>
           (\<forall>(key, v) \<in> set headers. toLowerCase key \<notin> set runtimeResponseBlocklist
              \<and> take 15 (toLowerCase key) \<noteq> ''access-control-''))"
proof -
  from assms obtain w access target body where w: "resolved = Some w" "pw_state w = WsReady"
      "truthy (pw_workerWorkspaceId w) \<noteq> None" "getAccess (pw_id w) = AccessGranted access"
    and body: "request_body req = Inr body"
    and call: "call = \<lparr>uc_target = target, uc_method = prq_method req,
           uc_headers = runtimeRequestHeaders (prq_headers req) (rac_accessToken access), uc_body = body\<rparr>"
    and r: "r = relay req (send call)"
    by (rule proxyRuntime_call)
  have sent: "key = ''authorization'' \<and> v = ''Bearer '' @ rac_accessToken access
      \<or> toLowerCase key \<notin> set requestHeaderBlocklist \<and> take 4 (toLowerCase key) \<noteq> ''sec-''"
    if "(key, v) \<in> set (uc_headers call)" for key v
    using request_headers_kept [of key v] that call by auto
  have own: "take 4 (toLowerCase ''authorization'') \<noteq> ''sec-''" by code_simp
  have quiet: "toLowerCase ''cache-control'' \<notin> set runtimeResponseBlocklist
      \<and> take 15 (toLowerCase ''cache-control'') \<noteq> ''access-control-''" by code_simp
  have seen: "toLowerCase key \<notin> set runtimeResponseBlocklist \<and> take 15 (toLowerCase key) \<noteq> ''access-control-''"
    if "r = RuntimeRelayed status headers chat" "(key, v) \<in> set headers" for status headers chat key v
  proof -
    from that(1) r obtain hs where "headers = browserResponseHeaders hs"
      by (auto simp: relay_def split: send_outcome.splits)
    with that(2) response_headers_kept [of key v hs] quiet show ?thesis by auto
  qed
  have upload: "bytes = concat (prq_chunks req) \<and> length bytes \<le> 10 * 1024 * 1024" if "uc_body call = Buffered bytes" for bytes
    by (rule buffered_upload) (use that call body in simp)
  have allowed: "\<forall>(key, v) \<in> set (uc_headers call). toLowerCase key \<in> set requestHeaderBlocklist \<longrightarrow>
      key = ''authorization'' \<and> v = ''Bearer '' @ rac_accessToken access"
    using sent by blast
  have plain: "\<forall>(key, v) \<in> set (uc_headers call). take 4 (toLowerCase key) \<noteq> ''sec-''"
  proof clarify
    fix key v assume "(key, v) \<in> set (uc_headers call)" and "take 4 (toLowerCase key) = ''sec-''"
    with sent [of key v] own show False by metis
  qed
  have cleaned: "\<forall>status headers chat. r = RuntimeRelayed status headers chat \<longrightarrow> (\<forall>(key, v) \<in> set headers.
      toLowerCase key \<notin> set runtimeResponseBlocklist \<and> take 15 (toLowerCase key) \<noteq> ''access-control-'')"
  proof (intro allI impI ballI, clarify)
    fix status headers chat key v assume "r = RuntimeRelayed status headers chat" and "(key, v) \<in> set headers"
    then show "toLowerCase key \<notin> set runtimeResponseBlocklist \<and> take 15 (toLowerCase key) \<noteq> ''access-control-''"
      by (rule seen)
  qed
  have "\<forall>bytes. uc_body call = Buffered bytes \<longrightarrow> bytes = concat (prq_chunks req) \<and> length bytes \<le> 10 * 1024 * 1024"
    using upload by iprover
  then show ?thesis
    by (intro exI [of _ w] exI [of _ access] conjI w allowed plain cleaned)
qed

lemma runtime_calls_are_filtered_witness:
  "case proxyRuntime private_base (Some ready_workspace) granted answered (sample_proxied ''/files/upload'') of
     (r, Some call) \<Rightarrow> uc_body call = Buffered [1, 2, 3] \<and> length [1, 2, 3 :: nat] \<le> 10 * 1024 * 1024 | _ \<Rightarrow> False"
proof -
  have "case proxyRuntime private_base (Some ready_workspace) granted answered (sample_proxied ''/files/upload'') of
     (r, Some call) \<Rightarrow> uc_body call = Buffered [1, 2, 3] | _ \<Rightarrow> False"
    by (simp add: proxyRuntime_def ready_workspace_def truthy_def granted_def privateRuntimeURL_def private_base_def
        request_body_def read_upload_def declares_upload_def maximumUploadBytes_def sample_proxied_def Let_def)
  then obtain r call where run: "proxyRuntime private_base (Some ready_workspace) granted answered
      (sample_proxied ''/files/upload'') = (r, Some call)" and body: "uc_body call = Buffered [1, 2, 3]"
    by (auto split: prod.splits option.splits)
  with runtime_calls_are_filtered [OF run] show ?thesis by auto
qed

text \<open>C27: Only the base address is checked: for a path that begins with two slashes, as
  \<open>/api/workspaces/<id>/runtime//host/path\<close> gives, the reference names the authority, and the request
  with the workspace's access token goes to the host the browser chose.\<close>

theorem runtime_token_leaves_worker:
  assumes "proxyRuntime parseURL (Some w) getAccess send req = (r, Some call)"
    and "getAccess (pw_id w) = AccessGranted access"
    and "prq_path req = ''//'' @ host @ ''/'' @ path" and "host \<noteq> []"
    and "\<forall>c \<in> set host. \<not> is_slash c \<and> c \<noteq> CHR ''?'' \<and> c \<noteq> CHR ''#''"
  shows "rtg_authority (uc_target call) = host
    \<and> (''authorization'', ''Bearer '' @ rac_accessToken access) \<in> set (uc_headers call)"
proof -
  from assms(1) obtain w' access' target body where w': "Some w = Some w'" and "pw_state w' = WsReady"
    and "truthy (pw_workerWorkspaceId w') \<noteq> None" and access': "getAccess (pw_id w') = AccessGranted access'"
    and target: "privateRuntimeURL parseURL access' (prq_path req) (prq_search req) = Some target"
    and "request_body req = Inr body"
    and call: "call = \<lparr>uc_target = target, uc_method = prq_method req,
           uc_headers = runtimeRequestHeaders (prq_headers req) (rac_accessToken access'), uc_body = body\<rparr>"
    and "r = relay req (send call)"
    by (rule proxyRuntime_call)
  with assms(2) have same: "access' = access" by simp
  have slash: "is_slash CHR ''/''" by (simp add: is_slash_def)
  obtain h hs where h: "host = h # hs" "\<not> is_slash h" using assms(4,5) by (cases host) auto
  have "takeWhile is_slash (''//'' @ host @ ''/'' @ path @ search) = ''//''"
    and "dropWhile is_slash (''//'' @ host @ ''/'' @ path @ search) = host @ ''/'' @ path @ search" for search
    using h slash by simp_all
  moreover have "takeWhile (\<lambda>c. \<not> is_slash c \<and> c \<noteq> CHR ''?'' \<and> c \<noteq> CHR ''#'') (host @ ''/'' @ rest) = host" for rest
    using assms(5) slash by (subst takeWhile_append2) auto
  ultimately have "rtg_authority target = host"
    using target assms(3) by (auto simp: privateRuntimeURL_def resolve_reference_def Let_def split: option.splits if_splits)
  with call same show ?thesis by (simp add: runtimeRequestHeaders_def set_header_def)
qed

lemma runtime_token_leaves_worker_witness:
  "case proxyRuntime private_base (Some ready_workspace) granted answered (sample_proxied ''//evil.test/p'') of
     (r, Some call) \<Rightarrow> rtg_authority (uc_target call) = ''evil.test''
        \<and> (''authorization'', ''Bearer secret'') \<in> set (uc_headers call) | _ \<Rightarrow> False"
proof -
  have "case proxyRuntime private_base (Some ready_workspace) granted answered (sample_proxied ''//evil.test/p'') of
     (r, Some call) \<Rightarrow> True | _ \<Rightarrow> False" by code_simp
  then obtain r call where run: "proxyRuntime private_base (Some ready_workspace) granted answered
      (sample_proxied ''//evil.test/p'') = (r, Some call)" by (auto split: prod.splits option.splits)
  show ?thesis
    unfolding run using runtime_token_leaves_worker [OF run, of "\<lparr>rac_address = ''10.0.0.5:8080'', rac_accessToken = ''secret''\<rparr>" "''evil.test''" "''p''"]
    by (simp add: granted_def sample_proxied_def is_slash_def)
qed

end
