(* ===== verification/Client.thy ===== *)
theory Client
  imports Runtime Directory
begin

text \<open>
  The client of a worker (\<open>NebulaWorkerClient\<close> in \<open>src/apps/control-plane/src/workerClient.ts\<close>): the
  signed requests it sends, the checks of the answers, and the classification of failures; with
  the cached clients and the calls of the worker directory (\<open>workerDirectory.ts\<close>) on top of it.

  What a request ends with is the parameter \<open>fetch\<close>. The fields of a worker's error are not checked by
  the code, so a failure carries JSON values. The digest, the clock and the random nonce of a request
  are its \<open>signing\<close>; the URL parser is a parameter.
\<close>

section \<open>Requests and answers\<close>

text \<open>A rejected request is a \<open>DOMException\<close> with its name or another error.\<close>

datatype rejection = DomRejection string | OtherRejection

text \<open>A body that is no JSON is read as \<open>null\<close>.\<close>

datatype worker_answer = FetchRejected rejection | WorkerAnswer nat json

text \<open>
  A failure is an abort, which is passed on, a \<open>WorkerClientError\<close> with its message, code, retryability
  and status, or another error.
\<close>

datatype client_failure = CallAborted | CallFailed json json json nat | CallThrown db_error

record worker_call =
  wca_method :: string
  wca_url :: string
  wca_headers :: "(string \<times> string) list"
  wca_body :: "json option"

record worker_client =
  wcl_baseURL :: string
  wcl_token :: string
  wcl_workspaceImage :: string

record signing =
  sgn_sign :: "string \<Rightarrow> string \<Rightarrow> string"
  sgn_now :: int
  sgn_nonce :: string

text \<open>The constructor: one slash at the end of the base URL is dropped.\<close>

definition newWorkerClient :: "string \<Rightarrow> string \<Rightarrow> string \<Rightarrow> db_error + worker_client" where
  "newWorkerClient baseURL token workspaceImage =
     (let base = (if baseURL \<noteq> [] \<and> last baseURL = CHR ''/'' then butlast baseURL else baseURL) in
      if base = [] then Inl (JsError ''Worker base URL is required'')
      else if length (trim token) < 32
      then Inl (JsError ''Worker service signing secret must contain at least 32 characters'')
      else if trim workspaceImage = [] then Inl (JsError ''Workspace image is required'')
      else Inr \<lparr>wcl_baseURL = base, wcl_token = trim token, wcl_workspaceImage = trim workspaceImage\<rparr>)"

fun truthy_json :: "json \<Rightarrow> bool" where
  "truthy_json JsonNull = False"
| "truthy_json (JsonBool b) = b"
| "truthy_json (JsonNumber n) = (n \<noteq> JInt 0 \<and> n \<noteq> JNaN)"
| "truthy_json (JsonString s) = (s \<noteq> [])"
| "truthy_json _ = True"

text \<open>\<open>value || fallback\<close>.\<close>

definition json_or :: "json option \<Rightarrow> json \<Rightarrow> json" where
  "json_or value fallback = (case value of None \<Rightarrow> fallback | Some v \<Rightarrow> if truthy_json v then v else fallback)"

text \<open>A failure the client itself reports can be retried.\<close>

definition client_error :: "string \<Rightarrow> string \<Rightarrow> nat \<Rightarrow> client_failure" where
  "client_error message code status = CallFailed (JsonString message) (JsonString code) (JsonBool True) status"

definition rejected :: "rejection \<Rightarrow> string \<Rightarrow> client_failure" where
  "rejected r message =
     (if r = DomRejection ''AbortError'' then CallAborted else client_error message ''worker_unreachable'' 503)"

definition ok_status :: "nat \<Rightarrow> bool" where
  "ok_status status \<longleftrightarrow> 200 \<le> status \<and> status \<le> 299"

definition answer_result :: "nat \<Rightarrow> json \<Rightarrow> client_failure + json" where
  "answer_result status payload =
     (if \<not> ok_status status
      then Inl (CallFailed
        (json_or (field ''error'' payload) (JsonString (''Worker request failed ('' @ show_nat status @ '')'')))
        (json_or (field ''code'' payload) (JsonString ''worker_request_failed''))
        (case field ''retryable'' payload of
           Some v \<Rightarrow> if v = JsonNull then JsonBool (status \<ge> 500) else v
         | None \<Rightarrow> JsonBool (status \<ge> 500)) status)
      else if \<not> truthy_json payload
      then Inl (client_error ''Worker returned an invalid response'' ''worker_invalid_response'' 502)
      else Inr payload)"

text \<open>A result with the requests that were sent.\<close>

type_synonym 'a calls = "(client_failure + 'a) \<times> worker_call list"

definition then_call :: "'a calls \<Rightarrow> ('a \<Rightarrow> 'b calls) \<Rightarrow> 'b calls" where
  "then_call m f =
     (case m of
        (Inl e, sent) \<Rightarrow> (Inl e, sent)
      | (Inr x, sent) \<Rightarrow> (let (r, more) = f x in (r, sent @ more)))"

definition actor_header :: "string \<times> string" where
  "actor_header = (''x-nebula-actor-id'', ''nebula-cloud-control-plane'')"

definition worker_request ::
  "worker_client \<Rightarrow> signing \<Rightarrow> (worker_call \<Rightarrow> worker_answer) \<Rightarrow> string \<Rightarrow> string \<Rightarrow> string option \<Rightarrow> json option \<Rightarrow> json calls"
where
  "worker_request c s fetch path rmethod idempotencyKey body =
     (case workerAuthorizationHeader (sgn_sign s) (wcl_token c) rmethod path (sgn_now s) (sgn_nonce s) of
        Inl e \<Rightarrow> (Inl (CallThrown e), [])
      | Inr authorization \<Rightarrow>
          let call = \<lparr>wca_method = rmethod, wca_url = wcl_baseURL c @ path,
                wca_headers = (''authorization'', authorization)
                  # (if body = None then [] else [(''content-type'', ''application/json'')])
                  @ (case truthy idempotencyKey of None \<Rightarrow> [] | Some k \<Rightarrow> [(''idempotency-key'', k)])
                  @ [actor_header],
                wca_body = body\<rparr> in
          (case fetch call of
             FetchRejected r \<Rightarrow> Inl (rejected r ''Worker is unreachable'')
           | WorkerAnswer status payload \<Rightarrow> answer_result status payload, [call]))"

definition workspace_path :: "string \<Rightarrow> string \<Rightarrow> string" where
  "workspace_path workspaceId rest = ''/internal/v1/workspaces/'' @ encodeURIComponent workspaceId @ rest"

section \<open>Status\<close>

record worker_status =
  wst_version :: "json option"
  wst_commit :: "json option"
  wst_ready :: bool
  wst_capabilities :: "json list"
  wst_capacity :: reported_capacity

definition status_keys :: "string list" where
  "status_keys =
     [''total_memory_bytes'', ''reserved_memory_bytes'', ''total_cpu_millis'', ''reserved_cpu_millis'',
      ''total_disk_bytes'', ''reserved_disk_bytes'', ''total_workspace_slots'', ''reserved_workspace_slots'']"

definition capacity_value :: "json \<Rightarrow> string \<Rightarrow> int option" where
  "capacity_value capacity key =
     (case json_number (field key capacity) of
        None \<Rightarrow> None
      | Some n \<Rightarrow> if is_safe_integer n \<and> int_value n \<ge> 0 then Some (int_value n) else None)"

definition status_capacity :: "json \<Rightarrow> reported_capacity option" where
  "status_capacity capacity =
     (case map (capacity_value capacity) status_keys of
        [Some tm, Some rm, Some tc, Some rc, Some td, Some rd, Some ts, Some rs] \<Rightarrow>
          if tm \<le> 0 \<or> tc \<le> 0 \<or> td \<le> 0 \<or> ts \<le> 0 \<or> rm > tm \<or> rc > tc \<or> rd > td \<or> rs > ts then None
          else Some \<lparr>cap_totalMemoryBytes = JInt tm, cap_reservedMemoryBytes = JInt rm,
            cap_totalCpuMillis = JInt tc, cap_reservedCpuMillis = JInt rc,
            cap_totalDiskBytes = JInt td, cap_reservedDiskBytes = JInt rd,
            cap_totalWorkspaceSlots = JInt ts, cap_reservedWorkspaceSlots = JInt rs\<rparr>
      | _ \<Rightarrow> None)"

definition read_status :: "json \<Rightarrow> worker_status option" where
  "read_status payload =
     (case (json_bool (field ''ready'' payload), field ''capabilities'' payload, Option.bind (field ''capacity'' payload) status_capacity) of
        (Some ready, Some (JsonArray capabilities), Some capacity) \<Rightarrow>
          if json_string (field ''service'' payload) = Some ''nebula-worker''
            \<and> json_string (field ''api_version'' payload) = Some ''v1''
          then Some \<lparr>wst_version = field ''version'' payload, wst_commit = field ''commit'' payload, wst_ready = ready,
                 wst_capabilities = capabilities, wst_capacity = capacity\<rparr>
          else None
      | _ \<Rightarrow> None)"

definition client_status :: "worker_client \<Rightarrow> signing \<Rightarrow> (worker_call \<Rightarrow> worker_answer) \<Rightarrow> worker_status calls" where
  "client_status c s fetch =
     then_call (worker_request c s fetch ''/internal/v1/status'' ''GET'' None None) (\<lambda>payload.
       (case read_status payload of
          None \<Rightarrow> Inl (client_error ''Worker returned invalid status or capacity metadata'' ''worker_invalid_status'' 502)
        | Some status \<Rightarrow> Inr status, []))"

section \<open>Workspaces of a worker\<close>

text \<open>The answer to a mutation: the identifier and the state of the workspace.\<close>

definition reported_ready :: "string \<Rightarrow> string \<Rightarrow> json \<Rightarrow> (client_failure + (string \<times> string))" where
  "reported_ready workspaceId message payload =
     (let workspace = field ''workspace'' payload in
      if json_string (Option.bind workspace (field ''id'')) \<noteq> Some workspaceId
        \<or> json_string (Option.bind workspace (field ''observed_state'')) \<noteq> Some ''ready''
      then Inl (client_error message ''worker_workspace_not_ready'' 503)
      else Inr (workspaceId, ''ready''))"

definition create_body :: "worker_client \<Rightarrow> string \<Rightarrow> json" where
  "create_body c workspaceId =
     JsonObject [(''spec'', JsonObject
       [(''id'', JsonString workspaceId), (''image'', JsonString (wcl_workspaceImage c)), (''resources'', JsonObject [])])]"

definition client_ensure_running ::
  "worker_client \<Rightarrow> signing \<Rightarrow> signing \<Rightarrow> (worker_call \<Rightarrow> worker_answer) \<Rightarrow> string \<Rightarrow> string \<Rightarrow> (string \<times> string) calls"
where
  "client_ensure_running c s1 s2 fetch workspaceId jobId =
     then_call (worker_request c s1 fetch (workspace_path workspaceId []) ''PUT'' (Some (jobId @ '':create''))
         (Some (create_body c workspaceId))) (\<lambda>_.
     then_call (worker_request c s2 fetch (workspace_path workspaceId ''/ensure-running'') ''POST''
         (Some (jobId @ '':ensure-running'')) None) (\<lambda>payload.
       (reported_ready workspaceId ''Worker did not report the workspace ready'' payload, [])))"

definition client_restart ::
  "worker_client \<Rightarrow> signing \<Rightarrow> (worker_call \<Rightarrow> worker_answer) \<Rightarrow> string \<Rightarrow> string \<Rightarrow> (string \<times> string) calls"
where
  "client_restart c s fetch workspaceId operationId =
     then_call (worker_request c s fetch (workspace_path workspaceId ''/restart'') ''POST'' (Some operationId)
         (Some (JsonObject [(''timeout_seconds'', JsonNumber (JInt 30)), (''image'', JsonString (wcl_workspaceImage c))])))
       (\<lambda>payload. (reported_ready workspaceId ''Worker did not report the restarted workspace ready'' payload, []))"

record worker_access =
  wac_network :: "json option"
  wac_access :: runtime_access

text \<open>\<open>value?.trim()\<close> of a value that is no string throws.\<close>

definition optional_trim :: "json option \<Rightarrow> string \<Rightarrow> db_error + string" where
  "optional_trim value name =
     (if value = None \<or> value = Some JsonNull then Inr []
      else case json_string value of
        None \<Rightarrow> Inl (JsTypeError (''payload.'' @ name @ ''?.trim is not a function''))
      | Some s \<Rightarrow> Inr (trim s))"

definition read_access :: "string \<Rightarrow> json \<Rightarrow> client_failure + worker_access" where
  "read_access workspaceId payload =
     (let invalid = client_error ''Worker returned invalid runtime access material'' ''worker_invalid_runtime_access'' 502;
          address = field ''address'' payload; token = field ''access_token'' payload in
      if json_string (field ''workspace_id'' payload) \<noteq> Some workspaceId then Inl invalid
      else case optional_trim address ''address'' of
        Inl e \<Rightarrow> Inl (CallThrown e)
      | Inr a \<Rightarrow>
          if a = [] then Inl invalid
          else case optional_trim token ''access_token'' of
            Inl e \<Rightarrow> Inl (CallThrown e)
          | Inr t \<Rightarrow>
              if t = [] then Inl invalid
              else Inr \<lparr>wac_network = field ''network'' payload,
                     wac_access = \<lparr>rac_address = the (json_string address), rac_accessToken = the (json_string token)\<rparr>\<rparr>)"

definition client_runtime_access ::
  "worker_client \<Rightarrow> signing \<Rightarrow> (worker_call \<Rightarrow> worker_answer) \<Rightarrow> string \<Rightarrow> worker_access calls"
where
  "client_runtime_access c s fetch workspaceId =
     then_call (worker_request c s fetch (workspace_path workspaceId ''/runtime-access'') ''GET'' None None)
       (\<lambda>payload. (read_access workspaceId payload, []))"

record worker_workspace =
  wws_observedState :: string
  wws_image :: string
  wws_resources :: json

definition read_workspace :: "string \<Rightarrow> json \<Rightarrow> client_failure + worker_workspace" where
  "read_workspace workspaceId payload =
     (case (json_string (field ''observed_state'' payload), json_string (field ''image'' payload), field ''resources'' payload) of
        (Some state, Some img, Some resources) \<Rightarrow>
          if json_string (field ''id'' payload) \<noteq> Some workspaceId \<or> trim img = [] \<or> \<not> truthy_json resources
          then Inl (client_error ''Worker returned invalid workspace metadata'' ''worker_invalid_workspace_metadata'' 502)
          else Inr \<lparr>wws_observedState = state, wws_image = img, wws_resources = resources\<rparr>
      | _ \<Rightarrow> Inl (client_error ''Worker returned invalid workspace metadata'' ''worker_invalid_workspace_metadata'' 502))"

definition client_workspace ::
  "worker_client \<Rightarrow> signing \<Rightarrow> (worker_call \<Rightarrow> worker_answer) \<Rightarrow> string \<Rightarrow> worker_workspace calls"
where
  "client_workspace c s fetch workspaceId =
     then_call (worker_request c s fetch (workspace_path workspaceId []) ''GET'' None None)
       (\<lambda>payload. (read_workspace workspaceId payload, []))"

section \<open>Published services\<close>

record service_request =
  srq_method :: string
  srq_headers :: "(string \<times> string) list"
  srq_host :: string
  srq_protocol :: string
  srq_body :: "nat list option"

text \<open>The headers of a visitor that are not passed on.\<close>

definition service_blocked :: "string \<Rightarrow> bool" where
  "service_blocked name \<longleftrightarrow>
     name \<in> {''authorization'', ''connection'', ''forwarded'', ''host'', ''keep-alive'', ''proxy-authenticate'',
       ''proxy-authorization'', ''te'', ''trailer'', ''transfer-encoding'', ''upgrade''}
     \<or> take 12 name = ''x-forwarded-'' \<or> take 9 name = ''x-nubols-''"

definition header_value :: "string \<Rightarrow> (string \<times> string) list \<Rightarrow> string option" where
  "header_value name headers = map_option snd (find (\<lambda>(key, _). toLowerCase key = name) headers)"

definition service_headers :: "service_request \<Rightarrow> string \<Rightarrow> (string \<times> string) list" where
  "service_headers req authorization =
     (let kept = filter (\<lambda>(key, _). \<not> service_blocked (toLowerCase key)) (srq_headers req);
          client = (case truthy (header_value ''authorization'' (srq_headers req)) of
                      None \<Rightarrow> kept | Some v \<Rightarrow> set_header ''x-nubols-service-authorization'' v kept) in
      set_header ''x-forwarded-proto'' (butlast (srq_protocol req))
        (set_header ''x-forwarded-host'' (srq_host req)
        (set_header ''x-nebula-actor-id'' ''nebula-cloud-control-plane''
        (set_header ''authorization'' authorization client))))"

record service_call =
  svc_method :: string
  svc_url :: string
  svc_headers :: "(string \<times> string) list"
  svc_body :: "nat list option"

text \<open>
  \<open>parseURL suffix\<close> is the path and the query of \<open>new URL(suffix, 'http://workspace-service.invalid')\<close>;
  \<open>send\<close> ends in a rejection or in the response of the service.
\<close>

definition client_proxy ::
  "(string \<Rightarrow> (string \<times> string) option) \<Rightarrow> worker_client \<Rightarrow> signing \<Rightarrow> (service_call \<Rightarrow> rejection + 'r)
     \<Rightarrow> string \<Rightarrow> int \<Rightarrow> string \<Rightarrow> service_request \<Rightarrow> (client_failure + 'r) \<times> service_call option"
where
  "client_proxy parseURL c s send workspaceId targetPort servicePath req =
     (case parseURL (if take 1 servicePath = ''/'' then servicePath else CHR ''/'' # servicePath) of
        None \<Rightarrow> (Inl (CallThrown (JsTypeError ''Invalid URL'')), None)
      | Some (pathname, search) \<Rightarrow>
          let path = workspace_path workspaceId (''/services/'' @ show_int targetPort @ pathname) in
          (case workerAuthorizationHeader (sgn_sign s) (wcl_token c) (srq_method req) path (sgn_now s) (sgn_nonce s) of
             Inl e \<Rightarrow> (Inl (CallThrown e), None)
           | Inr authorization \<Rightarrow>
               let call = \<lparr>svc_method = srq_method req, svc_url = wcl_baseURL c @ path @ search,
                     svc_headers = service_headers req authorization,
                     svc_body = (if srq_method req = ''GET'' \<or> srq_method req = ''HEAD'' then None else srq_body req)\<rparr> in
               (case send call of
                  Inl r \<Rightarrow> Inl (rejected r ''Worker service gateway is unreachable'')
                | Inr response \<Rightarrow> Inr response, Some call)))"

section \<open>Cached clients\<close>

text \<open>\<open>WorkerClientFactory\<close>: a client is kept with the revision it was made for.\<close>

type_synonym client_cache = "string \<rightharpoonup> string \<times> worker_client"

definition client_revision :: "string \<Rightarrow> worker_host \<Rightarrow> worker_connection \<Rightarrow> string" where
  "client_revision img host c =
     colon_join [show_int (host_updatedAt host), host_baseURL host, host_credentialKeyId host, wcn_token c, img]"

definition fresh_client :: "(string \<Rightarrow> string option) \<Rightarrow> string \<Rightarrow> worker_host \<Rightarrow> db_error + worker_client" where
  "fresh_client secrets img host =
     sbind (connection secrets host) (\<lambda>c. newWorkerClient (wcn_baseURL c) (wcn_token c) img)"

definition factory_client ::
  "(string \<Rightarrow> string option) \<Rightarrow> string \<Rightarrow> worker_host \<Rightarrow> client_cache \<Rightarrow> (db_error + worker_client) \<times> client_cache"
where
  "factory_client secrets img host cache =
     (case connection secrets host of
        Inl e \<Rightarrow> (Inl e, cache)
      | Inr c \<Rightarrow>
          let revision = client_revision img host c in
          (case cache (host_id host) of
             Some (r, kept) \<Rightarrow>
               if r = revision then (Inr kept, cache)
               else (case newWorkerClient (wcn_baseURL c) (wcn_token c) img of
                       Inl e \<Rightarrow> (Inl e, cache)
                     | Inr made \<Rightarrow> (Inr made, cache(host_id host \<mapsto> (revision, made))))
           | None \<Rightarrow>
               (case newWorkerClient (wcn_baseURL c) (wcn_token c) img of
                  Inl e \<Rightarrow> (Inl e, cache)
                | Inr made \<Rightarrow> (Inr made, cache(host_id host \<mapsto> (revision, made))))))"

section \<open>The calls of the directory\<close>

text \<open>A call to the worker a workspace is assigned to, with the worker's name of the workspace.\<close>

definition on_worker ::
  "(string \<Rightarrow> string option) \<Rightarrow> string \<Rightarrow> string \<Rightarrow> (worker_client \<Rightarrow> string \<Rightarrow> 'a calls) \<Rightarrow> client_cache \<Rightarrow> cloud_db
     \<Rightarrow> 'a calls \<times> client_cache"
where
  "on_worker secrets img workspaceId act cache db =
     (case assigned workspaceId db of
        Inl e \<Rightarrow> ((Inl (CallThrown e), []), cache)
      | Inr (host, workerWorkspaceId) \<Rightarrow>
          (case factory_client secrets img host cache of
             (Inl e, cache') \<Rightarrow> ((Inl (CallThrown e), []), cache')
           | (Inr c, cache') \<Rightarrow> (act c workerWorkspaceId, cache')))"

definition directory_runtime_access ::
  "(string \<Rightarrow> string option) \<Rightarrow> string \<Rightarrow> signing \<Rightarrow> (worker_call \<Rightarrow> worker_answer) \<Rightarrow> string \<Rightarrow> client_cache \<Rightarrow> cloud_db
     \<Rightarrow> worker_access calls \<times> client_cache"
where
  "directory_runtime_access secrets img s fetch workspaceId =
     on_worker secrets img workspaceId (\<lambda>c w. client_runtime_access c s fetch w)"

definition directory_workspace ::
  "(string \<Rightarrow> string option) \<Rightarrow> string \<Rightarrow> signing \<Rightarrow> (worker_call \<Rightarrow> worker_answer) \<Rightarrow> string \<Rightarrow> client_cache \<Rightarrow> cloud_db
     \<Rightarrow> worker_workspace calls \<times> client_cache"
where
  "directory_workspace secrets img s fetch workspaceId =
     on_worker secrets img workspaceId (\<lambda>c w. client_workspace c s fetch w)"

definition directory_restart ::
  "(string \<Rightarrow> string option) \<Rightarrow> string \<Rightarrow> signing \<Rightarrow> (worker_call \<Rightarrow> worker_answer) \<Rightarrow> string \<Rightarrow> string \<Rightarrow> client_cache
     \<Rightarrow> cloud_db \<Rightarrow> (string \<times> string) calls \<times> client_cache"
where
  "directory_restart secrets img s fetch workspaceId operationId =
     on_worker secrets img workspaceId (\<lambda>c w. client_restart c s fetch w operationId)"

text \<open>The start of a workspace places it first, if it has no worker.\<close>

definition directory_ensure_running ::
  "(string \<Rightarrow> string option) \<Rightarrow> string \<Rightarrow> placement_requirements \<Rightarrow> int option \<Rightarrow> signing \<Rightarrow> signing
     \<Rightarrow> (worker_call \<Rightarrow> worker_answer) \<Rightarrow> string \<Rightarrow> string \<Rightarrow> int \<Rightarrow> client_cache \<Rightarrow> cloud_db
     \<Rightarrow> (string \<times> string) calls \<times> client_cache \<times> cloud_db"
where
  "directory_ensure_running secrets img req maxAge s1 s2 fetch workspaceId jobId now cache db =
     (case assignWorkspaceWorker workspaceId req maxAge now db of
        (Inl e, db') \<Rightarrow> ((Inl (CallThrown e), []), cache, db')
      | (Inr (_, host), db') \<Rightarrow>
          (case factory_client secrets img host cache of
             (Inl e, cache') \<Rightarrow> ((Inl (CallThrown e), []), cache', db')
           | (Inr c, cache') \<Rightarrow> (client_ensure_running c s1 s2 fetch workspaceId jobId, cache', db')))"

text \<open>A request of a visitor goes to the worker of the workspace, under the worker's name of it.\<close>

definition directory_proxy ::
  "(string \<Rightarrow> string option) \<Rightarrow> string \<Rightarrow> (string \<Rightarrow> (string \<times> string) option) \<Rightarrow> signing \<Rightarrow> (service_call \<Rightarrow> rejection + 'r)
     \<Rightarrow> string \<Rightarrow> int \<Rightarrow> string \<Rightarrow> service_request \<Rightarrow> client_cache \<Rightarrow> cloud_db
     \<Rightarrow> ((client_failure + 'r) \<times> service_call option) \<times> client_cache"
where
  "directory_proxy secrets img parseURL s send workspaceId targetPort servicePath req cache db =
     (case assigned workspaceId db of
        Inl e \<Rightarrow> ((Inl (CallThrown e), None), cache)
      | Inr (host, workerWorkspaceId) \<Rightarrow>
          (case factory_client secrets img host cache of
             (Inl e, cache') \<Rightarrow> ((Inl (CallThrown e), None), cache')
           | (Inr c, cache') \<Rightarrow> (client_proxy parseURL c s send workerWorkspaceId targetPort servicePath req, cache')))"

section \<open>An accepted status\<close>

lemma then_call_Inr:
  assumes "then_call m f = (Inr y, sent)"
  obtains x before after where "m = (Inr x, before)" and "f x = (Inr y, after)" and "sent = before @ after"
  using assms by (auto simp: then_call_def split: prod.splits sum.splits)

lemma capacity_value_Some: "capacity_value capacity key = Some n \<Longrightarrow> 0 \<le> n \<and> n \<le> MAX_SAFE_INTEGER"
  by (auto simp: capacity_value_def is_safe_int_def elim!: is_safe_integer.elims split: option.splits if_splits)

lemma status_capacity_bounds:
  assumes "status_capacity capacity = Some c"
  obtains tm rm tc rc td rd ts rs where "check_capacity c = Inr [tm, rm, tc, rc, td, rd, ts, rs]"
    and "0 < tm" "0 \<le> rm" "rm \<le> tm" "0 < tc" "0 \<le> rc" "rc \<le> tc" "0 < td" "0 \<le> rd" "rd \<le> td" "0 < ts" "0 \<le> rs" "rs \<le> ts"
proof -
  from assms obtain tm rm tc rc td rd ts rs
    where keys: "map (capacity_value capacity) status_keys
        = [Some tm, Some rm, Some tc, Some rc, Some td, Some rd, Some ts, Some rs]"
      and bounds: "0 < tm" "rm \<le> tm" "0 < tc" "rc \<le> tc" "0 < td" "rd \<le> td" "0 < ts" "rs \<le> ts"
      and c: "c = \<lparr>cap_totalMemoryBytes = JInt tm, cap_reservedMemoryBytes = JInt rm,
            cap_totalCpuMillis = JInt tc, cap_reservedCpuMillis = JInt rc,
            cap_totalDiskBytes = JInt td, cap_reservedDiskBytes = JInt rd,
            cap_totalWorkspaceSlots = JInt ts, cap_reservedWorkspaceSlots = JInt rs\<rparr>"
    unfolding status_capacity_def by (auto split: list.splits option.splits if_splits)
  have "\<forall>n \<in> {tm, rm, tc, rc, td, rd, ts, rs}. 0 \<le> n \<and> n \<le> MAX_SAFE_INTEGER"
    using keys by (simp add: capacity_keys_def) (blast dest: capacity_value_Some)
  then have "check_capacity c = Inr [tm, rm, tc, rc, td, rd, ts, rs]"
    by (simp add: c check_capacity_def nonNegativeInteger_JInt)
  moreover have "0 \<le> rm" "0 \<le> rc" "0 \<le> rd" "0 \<le> rs" using \<open>\<forall>n \<in> _. _\<close> by simp_all
  ultimately show ?thesis using bounds that by blast
qed

lemma read_status_capacity: "read_status payload = Some st \<Longrightarrow> \<exists>capacity. status_capacity capacity = Some (wst_capacity st)"
  by (auto simp: read_status_def split: option.splits json.splits if_splits bind_splits)

definition sample_signing :: signing where
  "sample_signing = \<lparr>sgn_sign = (\<lambda>k p. ''digest''), sgn_now = 1000, sgn_nonce = ''0123456789abcdef''\<rparr>"

definition sample_client :: worker_client where
  "sample_client = \<lparr>wcl_baseURL = ''https://w1'', wcl_token = replicate 32 CHR ''k'', wcl_workspaceImage = ''img''\<rparr>"

definition sample_status :: json where
  "sample_status = JsonObject [(''service'', JsonString ''nebula-worker''), (''api_version'', JsonString ''v1''),
     (''ready'', JsonBool True), (''capabilities'', JsonArray []),
     (''capacity'', JsonObject (map (\<lambda>k. (k, JsonNumber (JInt (if take 5 k = ''total'' then 100 else 4)))) status_keys))]"

text \<open>A status the client accepts can always be recorded: its eight figures are safe integers, no
  worker reserves more than it has, and the health report the monitor makes of it is stored for
  every registered host.\<close>

theorem accepted_status_is_recordable:
  assumes "client_status c s fetch = (Inr st, sent)"
    and "hosts_ok db" and "samples_ahead db" and "findWorkerRow i db = Some old"
  shows "(\<exists>tm rm tc rc td rd ts rs. check_capacity (wst_capacity st) = Inr [tm, rm, tc, rc, td, rd, ts, rs]
        \<and> 0 < tm \<and> 0 \<le> rm \<and> rm \<le> tm \<and> 0 < tc \<and> 0 \<le> rc \<and> rc \<le> tc \<and> 0 < td \<and> 0 \<le> rd \<and> rd \<le> td
        \<and> 0 < ts \<and> 0 \<le> rs \<and> rs \<le> ts)
    \<and> (\<exists>t. recordWorkerHealth (healthy_report i (wst_capacity st)) now db
           = (Inr (toWorkerHost (health_row (healthy_report i (wst_capacity st)) now old)), t) \<and> hosts_ok t)"
proof -
  from assms(1) obtain payload where "read_status payload = Some st"
    unfolding client_status_def by (rule then_call_Inr) (auto split: option.splits)
  then obtain capacity where cap: "status_capacity capacity = Some (wst_capacity st)" using read_status_capacity by blast
  obtain tm rm tc rc td rd ts rs where check: "check_capacity (wst_capacity st) = Inr [tm, rm, tc, rc, td, rd, ts, rs]"
    and bounds: "0 < tm" "0 \<le> rm" "rm \<le> tm" "0 < tc" "0 \<le> rc" "rc \<le> tc" "0 < td" "0 \<le> rd" "rd \<le> td" "0 < ts" "0 \<le> rs" "rs \<le> ts"
    by (rule status_capacity_bounds [OF cap])
  have "accepted_report (healthy_report i (wst_capacity st))"
    using check by (simp add: accepted_report_def healthy_report_def)
  moreover have "findWorkerRow (hi_workerHostId (healthy_report i (wst_capacity st))) db = Some old"
    using assms(4) by (simp add: healthy_report_def)
  ultimately obtain t where "recordWorkerHealth (healthy_report i (wst_capacity st)) now db
      = (Inr (toWorkerHost (health_row (healthy_report i (wst_capacity st)) now old)), t)" and "hosts_ok t"
    by (rule recordWorkerHealth_runs [OF assms(2,3)])
  with check bounds show ?thesis by blast
qed

section \<open>Starting a workspace\<close>

text \<open>A request that is signed for its own method and path, to the address of the client.\<close>

definition signed_call :: "worker_client \<Rightarrow> signing \<Rightarrow> string \<Rightarrow> string \<Rightarrow> string option \<Rightarrow> worker_call \<Rightarrow> bool" where
  "signed_call c s rmethod path key call \<longleftrightarrow>
     wca_method call = rmethod \<and> wca_url call = wcl_baseURL c @ path
     \<and> (\<exists>authorization. workerAuthorizationHeader (sgn_sign s) (wcl_token c) rmethod path (sgn_now s) (sgn_nonce s)
            = Inr authorization \<and> (''authorization'', authorization) \<in> set (wca_headers call))
     \<and> map_of (wca_headers call) ''idempotency-key'' = key"

lemma worker_request_sent:
  assumes "worker_request c s fetch path rmethod key body = (r, sent)"
  shows "sent = [] \<and> (\<exists>e. r = Inl (CallThrown e))
    \<or> (\<exists>call. sent = [call] \<and> signed_call c s rmethod path (truthy key) call \<and> wca_body call = body
         \<and> r = (case fetch call of FetchRejected x \<Rightarrow> Inl (rejected x ''Worker is unreachable'')
                | WorkerAnswer status payload \<Rightarrow> answer_result status payload))"
proof (cases "workerAuthorizationHeader (sgn_sign s) (wcl_token c) rmethod path (sgn_now s) (sgn_nonce s)")
  case (Inl e)
  with assms show ?thesis by (auto simp: worker_request_def)
next
  case (Inr authorization)
  with assms show ?thesis
    by (auto simp: worker_request_def signed_call_def actor_header_def Let_def split: option.splits)
qed

lemma answer_result_Inr: "answer_result status payload = Inr p \<Longrightarrow> ok_status status \<and> p = payload \<and> truthy_json payload"
  by (auto simp: answer_result_def split: if_splits)

lemma reported_ready_Inr:
  "reported_ready w message payload = Inr x \<Longrightarrow> x = (w, ''ready'')
     \<and> json_string (Option.bind (field ''workspace'' payload) (field ''id'')) = Some w
     \<and> json_string (Option.bind (field ''workspace'' payload) (field ''observed_state'')) = Some ''ready''"
  by (auto simp: reported_ready_def Let_def split: if_splits)

definition job_call :: "worker_client \<Rightarrow> signing \<Rightarrow> string \<Rightarrow> string \<Rightarrow> worker_call \<Rightarrow> bool" where
  "job_call c s w j call \<longleftrightarrow>
     signed_call c s ''PUT'' (workspace_path w []) (Some (j @ '':create'')) call \<and> wca_body call = Some (create_body c w)"

definition start_call :: "worker_client \<Rightarrow> signing \<Rightarrow> string \<Rightarrow> string \<Rightarrow> worker_call \<Rightarrow> bool" where
  "start_call c s w j call \<longleftrightarrow>
     signed_call c s ''POST'' (workspace_path w ''/ensure-running'') (Some (j @ '':ensure-running'')) call \<and> wca_body call = None"

definition ready_answer :: "string \<Rightarrow> worker_answer \<Rightarrow> bool" where
  "ready_answer w answer \<longleftrightarrow>
     (case answer of
        FetchRejected _ \<Rightarrow> False
      | WorkerAnswer status payload \<Rightarrow> ok_status status
          \<and> json_string (Option.bind (field ''workspace'' payload) (field ''id'')) = Some w
          \<and> json_string (Option.bind (field ''workspace'' payload) (field ''observed_state'')) = Some ''ready'')"

definition success_answer :: "worker_answer \<Rightarrow> bool" where
  "success_answer answer \<longleftrightarrow> (\<exists>status payload. answer = WorkerAnswer status payload \<and> ok_status status \<and> truthy_json payload)"

text \<open>C31: Starting a workspace sends at most two requests, in this order and each signed for its own
  method and path: the creation and the start, both with an idempotency key of the job, so
  that a repeated attempt repeats the same operations. The start is sent only after the creation has
  succeeded, and the result is a success exactly when the worker then reports this workspace ready.\<close>

theorem worker_start_protocol:
  assumes "client_ensure_running c s1 s2 fetch w j = (r, sent)"
  shows "(sent = [] \<or> (\<exists>a. sent = [a] \<and> job_call c s1 w j a)
          \<or> (\<exists>a b. sent = [a, b] \<and> job_call c s1 w j a \<and> start_call c s2 w j b \<and> success_answer (fetch a)))
    \<and> ((\<exists>x. r = Inr x) \<longleftrightarrow> (\<exists>a b. sent = [a, b] \<and> ready_answer w (fetch b)))
    \<and> (\<forall>x. r = Inr x \<longrightarrow> x = (w, ''ready''))"
proof -
  let ?first = "worker_request c s1 fetch (workspace_path w []) ''PUT'' (Some (j @ '':create'')) (Some (create_body c w))"
  let ?second = "worker_request c s2 fetch (workspace_path w ''/ensure-running'') ''POST'' (Some (j @ '':ensure-running'')) None"
  have keys: "truthy (Some (j @ '':create'')) = Some (j @ '':create'')"
    "truthy (Some (j @ '':ensure-running'')) = Some (j @ '':ensure-running'')" by (simp_all add: truthy_def)
  obtain r1 sent1 where first: "?first = (r1, sent1)" by (cases ?first)
  obtain r2 sent2 where second: "?second = (r2, sent2)" by (cases ?second)
  note one = worker_request_sent [OF first, unfolded keys] and two = worker_request_sent [OF second, unfolded keys]
  show ?thesis
  proof (cases r1)
    case (Inl e)
    with assms first have "r = Inl e" "sent = sent1" by (simp_all add: client_ensure_running_def then_call_def)
    with one show ?thesis by (auto simp: job_call_def)
  next
    case (Inr p)
    with one obtain a where a: "sent1 = [a]" "job_call c s1 w j a" "success_answer (fetch a)"
    proof -
      from one Inr obtain call where call: "sent1 = [call]" "job_call c s1 w j call"
        and result: "Inr p = (case fetch call of FetchRejected x \<Rightarrow> Inl (rejected x ''Worker is unreachable'')
            | WorkerAnswer status payload \<Rightarrow> answer_result status payload)"
        by (auto simp: job_call_def)
      from result have "success_answer (fetch call)"
        by (cases "fetch call") (auto simp: success_answer_def dest!: sym [of "Inr p"] answer_result_Inr)
      with call that show thesis by blast
    qed
    have rest: "sent = sent1 @ sent2" "r = (case r2 of Inl e \<Rightarrow> Inl e | Inr payload \<Rightarrow>
        reported_ready w ''Worker did not report the workspace ready'' payload)"
      using assms first second Inr by (auto simp: client_ensure_running_def then_call_def split: sum.splits)
    show ?thesis
    proof (cases sent2)
      case Nil
      with two rest a show ?thesis by auto
    next
      case (Cons b bs)
      with two have b: "sent2 = [b]" "start_call c s2 w j b"
        and r2: "r2 = (case fetch b of FetchRejected x \<Rightarrow> Inl (rejected x ''Worker is unreachable'')
                | WorkerAnswer status payload \<Rightarrow> answer_result status payload)"
        by (auto simp: start_call_def)
      have "(\<exists>x. r = Inr x) \<longleftrightarrow> ready_answer w (fetch b)"
      proof (cases "fetch b")
        case (WorkerAnswer status payload)
        with r2 rest(2) show ?thesis
          by (cases payload) (auto simp: ready_answer_def answer_result_def reported_ready_def Let_def)
      qed (use r2 rest(2) in \<open>simp add: ready_answer_def\<close>)
      moreover have "\<forall>x. r = Inr x \<longrightarrow> x = (w, ''ready'')"
        using rest(2) by (auto split: sum.splits dest: reported_ready_Inr)
      ultimately show ?thesis using a b rest(1) by auto
    qed
  qed
qed

section \<open>The headers of a visitor\<close>

lemma set_header_member:
  "(k, v) \<in> set (set_header n x hs) \<longleftrightarrow> (k, v) \<in> set hs \<and> toLowerCase k \<noteq> n \<or> k = n \<and> v = x"
  by (auto simp: set_header_def)

lemma client_proxy_call:
  assumes "client_proxy parseURL c s send w port p req = (r, Some call)"
  obtains pathname search authorization
  where "parseURL (if take 1 p = ''/'' then p else CHR ''/'' # p) = Some (pathname, search)"
    and "workerAuthorizationHeader (sgn_sign s) (wcl_token c) (srq_method req)
       (workspace_path w (''/services/'' @ show_int port @ pathname)) (sgn_now s) (sgn_nonce s) = Inr authorization"
    and "svc_url call = wcl_baseURL c @ workspace_path w (''/services/'' @ show_int port @ pathname) @ search"
    and "svc_headers call = service_headers req authorization" and "svc_method call = srq_method req"
proof -
  from assms obtain u where u: "parseURL (if take 1 p = ''/'' then p else CHR ''/'' # p) = Some u"
    by (cases "parseURL (if take 1 p = ''/'' then p else CHR ''/'' # p)") (simp_all add: client_proxy_def)
  obtain pathname search where u': "u = (pathname, search)" by (cases u)
  let ?h = "workerAuthorizationHeader (sgn_sign s) (wcl_token c) (srq_method req)
       (workspace_path w (''/services/'' @ show_int port @ pathname)) (sgn_now s) (sgn_nonce s)"
  from assms u u' obtain a where a: "?h = Inr a" by (cases ?h) (simp_all add: client_proxy_def Let_def)
  show ?thesis
    by (rule that [OF _ a]) (use assms u u' a in \<open>auto simp: client_proxy_def Let_def\<close>)
qed

lemma set_headers_member:
  assumes "(k, v) \<in> set (set_header n1 x1 (set_header n2 x2 (set_header n3 x3 (set_header n4 x4 hs))))"
  shows "(k, v) \<in> {(n4, x4), (n3, x3), (n2, x2), (n1, x1)} \<or> (k, v) \<in> set hs \<and> toLowerCase k \<noteq> n3"
  using assms by (auto simp: set_header_member)

lemma passed_header:
  assumes "(key, v) \<in> set (case truthy (header_value ''authorization'' headers) of
      None \<Rightarrow> filter (\<lambda>(key, _). \<not> service_blocked (toLowerCase key)) headers
    | Some a \<Rightarrow> set_header ''x-nubols-service-authorization'' a (filter (\<lambda>(key, _). \<not> service_blocked (toLowerCase key)) headers))"
  shows "\<not> service_blocked (toLowerCase key)
    \<or> key = ''x-nubols-service-authorization'' \<and> header_value ''authorization'' headers = Some v"
proof (cases "truthy (header_value ''authorization'' headers)")
  case None
  with assms show ?thesis by simp
next
  case (Some a)
  then have "header_value ''authorization'' headers = Some a" by (auto simp: truthy_def split: option.splits if_splits)
  with assms Some show ?thesis by (simp only: option.case set_header_member) auto
qed

text \<open>The headers the gateway writes itself.\<close>

definition gateway_header :: "service_request \<Rightarrow> string \<Rightarrow> string \<Rightarrow> string \<Rightarrow> bool" where
  "gateway_header req signature key v \<longleftrightarrow>
     (key, v) \<in> {(''x-nebula-actor-id'', ''nebula-cloud-control-plane''), (''authorization'', signature),
        (''x-forwarded-host'', srq_host req), (''x-forwarded-proto'', butlast (srq_protocol req))}
     \<or> key = ''x-nubols-service-authorization'' \<and> header_value ''authorization'' (srq_headers req) = Some v"

lemma service_header:
  assumes "(key, v) \<in> set (service_headers req signature)"
  shows "gateway_header req signature key v \<or> \<not> service_blocked (toLowerCase key) \<and> toLowerCase key \<noteq> ''x-nebula-actor-id''"
proof -
  let ?client = "case truthy (header_value ''authorization'' (srq_headers req)) of
      None \<Rightarrow> filter (\<lambda>(key, _). \<not> service_blocked (toLowerCase key)) (srq_headers req)
    | Some a \<Rightarrow> set_header ''x-nubols-service-authorization'' a
        (filter (\<lambda>(key, _). \<not> service_blocked (toLowerCase key)) (srq_headers req))"
  have "(key, v) \<in> {(''authorization'', signature), (''x-nebula-actor-id'', ''nebula-cloud-control-plane''),
            (''x-forwarded-host'', srq_host req), (''x-forwarded-proto'', butlast (srq_protocol req))}
    \<or> (key, v) \<in> set ?client \<and> toLowerCase key \<noteq> ''x-nebula-actor-id''"
    using assms unfolding service_headers_def Let_def by (rule set_headers_member)
  with passed_header [of key v "srq_headers req"] show ?thesis
    unfolding gateway_header_def insert_commute [of "(''authorization'', signature)"] by satx
qed

definition parse_plain :: "string \<Rightarrow> (string \<times> string) option" where
  "parse_plain p = Some (p, [])"

definition sample_visit :: service_request where
  "sample_visit = \<lparr>srq_method = ''GET'', srq_headers = [(''Authorization'', ''Basic x''), (''X-Forwarded-For'', ''1.2.3.4''),
     (''x-nubols-user'', ''admin''), (''accept'', ''text'')], srq_host = ''s1.example'', srq_protocol = ''https:'', srq_body = None\<rparr>"


section \<open>The cached clients\<close>

lemma first_colon:
  assumes "a @ CHR '':'' # b = a' @ CHR '':'' # b'" and "CHR '':'' \<notin> set a" and "CHR '':'' \<notin> set a'"
  shows "a = a' \<and> b = b'"
proof -
  have "takeWhile (\<lambda>c. c \<noteq> CHR '':'') (x @ CHR '':'' # y) = x" if "CHR '':'' \<notin> set x" for x y
    using that by (induction x) auto
  from this [OF assms(2), of b] this [OF assms(3), of b'] assms(1) show ?thesis by simp
qed

lemma last_colon:
  assumes "a @ CHR '':'' # b = a' @ CHR '':'' # b'" and "CHR '':'' \<notin> set b" and "CHR '':'' \<notin> set b'"
  shows "a = a' \<and> b = b'"
proof -
  have "rev b @ CHR '':'' # rev a = rev b' @ CHR '':'' # rev a'" using arg_cong [OF assms(1), of rev] by simp
  from first_colon [OF this] assms(2,3) show ?thesis by simp
qed

lemma digit_no_colon:
  assumes "n < 10"
  shows "digit_char n \<noteq> CHR '':''"
proof
  assume "digit_char n = CHR '':''"
  then have "of_char (digit_char n) = (of_char (CHR '':'') :: nat)" by simp
  with assms show False by (simp add: digit_char_def)
qed

lemma show_nat_no_colon: "CHR '':'' \<notin> set (show_nat n)"
proof (induction n rule: less_induct)
  case (less n)
  show ?case
  proof (cases "n < 10")
    case True
    then show ?thesis using digit_no_colon [of n] by (simp add: show_nat.simps [of n])
  next
    case False
    with less [of "n div 10"] show ?thesis using digit_no_colon [of "n mod 10"] by (simp add: show_nat.simps [of n])
  qed
qed

lemma show_int_no_colon: "CHR '':'' \<notin> set (show_int n)"
  by (simp add: show_int_def show_nat_no_colon)

text \<open>Two revisions with the same image are equal only for the same address and token.\<close>

lemma same_revision:
  assumes "client_revision img h c = client_revision img h' c'"
    and "CHR '':'' \<notin> set (wcn_token c)" "CHR '':'' \<notin> set (wcn_token c')"
    and "CHR '':'' \<notin> set (host_credentialKeyId h)" "CHR '':'' \<notin> set (host_credentialKeyId h')"
  shows "host_baseURL h = host_baseURL h' \<and> wcn_token c = wcn_token c'"
proof -
  let ?rest = "\<lambda>h c. (host_baseURL h @ CHR '':'' # host_credentialKeyId h) @ CHR '':'' # wcn_token c"
  have "show_int (host_updatedAt h) @ CHR '':'' # (?rest h c @ CHR '':'' # img)
      = show_int (host_updatedAt h') @ CHR '':'' # (?rest h' c' @ CHR '':'' # img)"
    using assms(1) by (simp add: client_revision_def colon_join_def)
  then have "?rest h c @ CHR '':'' # img = ?rest h' c' @ CHR '':'' # img"
    using first_colon show_int_no_colon by blast
  then have "?rest h c = ?rest h' c'" by simp
  from last_colon [OF this assms(2,3)] have token: "wcn_token c = wcn_token c'"
    and "host_baseURL h @ CHR '':'' # host_credentialKeyId h = host_baseURL h' @ CHR '':'' # host_credentialKeyId h'"
    by blast+
  from last_colon [OF this(2) assms(4,5)] token show ?thesis by blast
qed

definition plain_secrets :: "(string \<Rightarrow> string option) \<Rightarrow> bool" where
  "plain_secrets secrets \<longleftrightarrow> (\<forall>k t. secrets k = Some t \<longrightarrow> CHR '':'' \<notin> set k \<and> CHR '':'' \<notin> set t)"

definition cache_ok :: "(string \<Rightarrow> string option) \<Rightarrow> string \<Rightarrow> client_cache \<Rightarrow> bool" where
  "cache_ok secrets img cache \<longleftrightarrow> (\<forall>i revision kept. cache i = Some (revision, kept) \<longrightarrow>
     (\<exists>host c. connection secrets host = Inr c \<and> revision = client_revision img host c
        \<and> newWorkerClient (wcn_baseURL c) (wcn_token c) img = Inr kept))"

lemma trim_set: "set (trim s) \<subseteq> set s"
proof
  fix x assume "x \<in> set (trim s)"
  then have "x \<in> set (rev (dropWhile js_space s))" by (auto simp: trim_def dest: set_dropWhileD)
  then show "x \<in> set s" by (auto dest: set_dropWhileD)
qed

lemma connection_Inr:
  assumes "connection secrets host = Inr c" and "plain_secrets secrets"
  shows "wcn_baseURL c = host_baseURL host" and "CHR '':'' \<notin> set (wcn_token c)"
    and "CHR '':'' \<notin> set (host_credentialKeyId host)"
  using assms trim_set by (auto simp: connection_def getSecret_def trim_or_null_def plain_secrets_def
      split: option.splits if_splits) blast

lemma factory_client_ok:
  assumes "cache_ok secrets img cache" and "plain_secrets secrets"
  shows "fst (factory_client secrets img host cache) = fresh_client secrets img host"
    and "cache_ok secrets img (snd (factory_client secrets img host cache))"
proof -
  have kept: "newWorkerClient (wcn_baseURL c) (wcn_token c) img = Inr k"
    if "connection secrets host = Inr c" and "cache (host_id host) = Some (client_revision img host c, k)" for c k
  proof -
    from assms(1) that(2) obtain h' c' where c': "connection secrets h' = Inr c'"
      and "client_revision img host c = client_revision img h' c'"
      and new: "newWorkerClient (wcn_baseURL c') (wcn_token c') img = Inr k" unfolding cache_ok_def by blast
    with same_revision [of img host c h' c'] connection_Inr [OF that(1) assms(2)] connection_Inr [OF c' assms(2)]
    show ?thesis by simp
  qed
  show "fst (factory_client secrets img host cache) = fresh_client secrets img host"
    using kept by (cases "connection secrets host")
      (auto simp: factory_client_def fresh_client_def Let_def split: sum.splits option.splits prod.splits)
  show "cache_ok secrets img (snd (factory_client secrets img host cache))"
    using assms(1) unfolding cache_ok_def factory_client_def Let_def
    by (auto split: sum.splits option.splits prod.splits if_splits)
qed

text \<open>The cache after clients for these hosts, in this order, were asked for.\<close>

definition cache_after :: "(string \<Rightarrow> string option) \<Rightarrow> string \<Rightarrow> worker_host list \<Rightarrow> client_cache" where
  "cache_after secrets img hosts = foldl (\<lambda>cache h. snd (factory_client secrets img h cache)) Map.empty hosts"

lemma cache_after_ok: "plain_secrets secrets \<Longrightarrow> cache_ok secrets img (cache_after secrets img hosts)"
  unfolding cache_after_def
  by (induction hosts rule: rev_induct) (simp_all add: factory_client_ok(2) cache_ok_def [of _ _ Map.empty])

text \<open>C32: The cache of clients is invisible: whatever hosts were asked for before, in whatever state they were
  then, the client of a host is the one a new client for its present address and credential would be.\<close>

theorem cached_client_is_current:
  assumes "plain_secrets secrets"
  shows "fst (factory_client secrets img host (cache_after secrets img hosts)) = fresh_client secrets img host"
  by (rule factory_client_ok(1) [OF cache_after_ok [OF assms] assms])

section \<open>The properties on concrete requests\<close>

lemma accepted_status_is_recordable_witness:
  "case client_status sample_client sample_signing (\<lambda>_. WorkerAnswer 200 sample_status) of
     (Inr st, _) \<Rightarrow> wst_ready st
       \<and> (\<exists>t. recordWorkerHealth (healthy_report ''h1'' (wst_capacity st)) 20 (hm_db watched_fleet)
            = (Inr (toWorkerHost (health_row (healthy_report ''h1'' (wst_capacity st)) 20 host_a)), t) \<and> hosts_ok t)
   | _ \<Rightarrow> False"
proof -
  have "case client_status sample_client sample_signing (\<lambda>_. WorkerAnswer 200 sample_status) of
     (Inr st, _) \<Rightarrow> wst_ready st | _ \<Rightarrow> False" by code_simp
  then obtain st sent where run: "client_status sample_client sample_signing (\<lambda>_. WorkerAnswer 200 sample_status) = (Inr st, sent)"
    and ready: "wst_ready st" by (auto split: prod.splits sum.splits)
  show ?thesis
    using accepted_status_is_recordable [OF run watched_facts(1,2,4), of 20] ready unfolding run by simp
qed

definition ready_reply :: "worker_call \<Rightarrow> worker_answer" where
  "ready_reply call = WorkerAnswer 200 (JsonObject [(''workspace'',
     JsonObject [(''id'', JsonString ''w1''), (''observed_state'', JsonString ''ready'')])])"

lemma worker_start_protocol_witness:
  "case client_ensure_running sample_client sample_signing sample_signing ready_reply ''w1'' ''j1'' of
     (r, [a, b]) \<Rightarrow> r = Inr (''w1'', ''ready'') \<and> job_call sample_client sample_signing ''w1'' ''j1'' a
       \<and> start_call sample_client sample_signing ''w1'' ''j1'' b
   | _ \<Rightarrow> False"
proof -
  have "case client_ensure_running sample_client sample_signing sample_signing ready_reply ''w1'' ''j1'' of
     (Inr _, [a, b]) \<Rightarrow> True | _ \<Rightarrow> False" by code_simp
  then obtain x a b where run: "client_ensure_running sample_client sample_signing sample_signing ready_reply ''w1'' ''j1''
      = (Inr x, [a, b])" by (auto split: prod.splits sum.splits list.splits)
  from worker_start_protocol [OF run] have "job_call sample_client sample_signing ''w1'' ''j1'' a"
    and "start_call sample_client sample_signing ''w1'' ''j1'' b" and "x = (''w1'', ''ready'')" by blast+
  then show ?thesis unfolding run by simp
qed

definition silent_service :: "service_call \<Rightarrow> rejection + nat" where
  "silent_service call = Inr 204"


definition sample_secrets :: "string \<Rightarrow> string option" where
  "sample_secrets = [''k'' \<mapsto> replicate 32 CHR ''s'']"

lemma cached_client_is_current_witness:
  "fst (factory_client sample_secrets ''img'' (toWorkerHost host_b) (cache_after sample_secrets ''img'' [toWorkerHost host_a, toWorkerHost host_b]))
     = Inr \<lparr>wcl_baseURL = ''http://b'', wcl_token = replicate 32 CHR ''s'', wcl_workspaceImage = ''img''\<rparr>"
proof -
  have "plain_secrets sample_secrets" by (auto simp: plain_secrets_def sample_secrets_def)
  from cached_client_is_current [OF this]
  have "fst (factory_client sample_secrets ''img'' (toWorkerHost host_b) (cache_after sample_secrets ''img'' [toWorkerHost host_a, toWorkerHost host_b]))
     = fresh_client sample_secrets ''img'' (toWorkerHost host_b)" .
  moreover have "fresh_client sample_secrets ''img'' (toWorkerHost host_b)
      = Inr \<lparr>wcl_baseURL = ''http://b'', wcl_token = replicate 32 CHR ''s'', wcl_workspaceImage = ''img''\<rparr>" by code_simp
  ultimately show ?thesis by simp
qed

end
