(* ===== verification/Wiring.thy ===== *)
theory Wiring
  imports Server Client
begin

text \<open>
  The wiring of \<open>src/apps/control-plane/src/index.ts\<close>: the callbacks \<open>createControlPlaneHandler\<close> is given, so what
  every operation the request handler dispatches to does to the database, the TCP ingress and the
  workers; and the authentication of a workspace that publishes (\<open>workspacePublicationAuth.ts\<close>).

  A request reads the clock once, and finds the cache of worker clients as it is at that moment. The three callbacks
  that only relay a response (the authentication library, the gateway of published services and the runtime
  gateway, which have their own theories) are a parameter.
\<close>

section \<open>The environment of the handlers\<close>

record wiring =
  wi_serving :: serving_config
  wi_urls :: service_urls
  wi_codeHmac :: "string \<Rightarrow> string"
  wi_sourceHmac :: "string \<Rightarrow> string"
  wi_sha256 :: "string \<Rightarrow> string"
  wi_listen :: "int \<Rightarrow> string option"
  wi_retentionDays :: int
  wi_heartbeatStaleMs :: int
  wi_urlProtocol :: "string \<Rightarrow> string option"
  wi_send :: "contact_request \<Rightarrow> db_error + string option"
  wi_stripe :: "nat list \<Rightarrow> string \<Rightarrow> stripe_webhook option"
  wi_resend :: resend_env
  wi_secrets :: "string \<Rightarrow> string option"
  wi_workspaceImage :: string
  wi_relay :: "server_op \<Rightarrow> control_plane \<Rightarrow> (failure + bool) \<times> control_plane"

text \<open>What one request takes from the clock, the random generator, its headers and the workers.\<close>

record moment =
  mo_now :: int
  mo_id :: string
  mo_jobId :: string
  mo_randomHex :: string
  mo_eventId :: string
  mo_fresh :: fresh_values
  mo_webhook :: webhook_clock
  mo_header :: "string \<Rightarrow> string option"
  mo_signing :: signing
  mo_fetch :: "worker_call \<Rightarrow> worker_answer"
  mo_cache :: client_cache
  mo_values :: runtime_values
  mo_chats :: "personal_workspace \<Rightarrow> runtime_reply"
  mo_sessions :: "personal_workspace \<Rightarrow> string \<Rightarrow> runtime_reply"

definition entitlements_required :: "wiring \<Rightarrow> bool" where
  "entitlements_required w = sv_entitlementsRequired (wi_serving w)"

section \<open>Results\<close>

text \<open>An operation whose value does not matter, and one that may find nothing.\<close>

definition valued :: "'a cpop \<Rightarrow> bool cpop" where
  "valued m = obind m (\<lambda>_. oreturn True)"

definition found :: "'a option cpop \<Rightarrow> bool cpop" where
  "found m = obind m (\<lambda>x. oreturn (x \<noteq> None))"

definition read_only :: "(cloud_db \<Rightarrow> db_error + 'a) \<Rightarrow> bool cpop" where
  "read_only f = valued (with_db (oread f))"

definition result_of :: "bool cpop \<Rightarrow> control_plane \<Rightarrow> (failure + bool) \<times> control_plane" where
  "result_of m s = (case m s of (Inl e, t) \<Rightarrow> (Inl (Thrown e), t) | (Inr x, t) \<Rightarrow> (Inr x, t))"

definition webhook_of :: "(cloud_db \<Rightarrow> (failure + 'a) \<times> cloud_db) \<Rightarrow> control_plane \<Rightarrow> (failure + bool) \<times> control_plane" where
  "webhook_of m s =
     (case m (cp_db s) of (Inl e, d) \<Rightarrow> (Inl e, s\<lparr>cp_db := d\<rparr>) | (Inr _, d) \<Rightarrow> (Inr True, s\<lparr>cp_db := d\<rparr>))"

fun each_value :: "('a \<Rightarrow> db_error + 'b) \<Rightarrow> 'a list \<Rightarrow> db_error + 'b list" where
  "each_value f [] = Inr []"
| "each_value f (x # xs) = sbind (f x) (\<lambda>y. sbind (each_value f xs) (\<lambda>ys. Inr (y # ys)))"

text \<open>An error of a worker client, as an error of the handler.\<close>

definition worker_thrown :: "client_failure \<Rightarrow> db_error" where
  "worker_thrown f =
     (case f of
        CallThrown e \<Rightarrow> e
      | CallAborted \<Rightarrow> JsError ''The operation was aborted''
      | CallFailed message code retryable status \<Rightarrow> JsError ''Worker request failed'')"

section \<open>Callbacks\<close>

definition perform_public :: "wiring \<Rightarrow> moment \<Rightarrow> public_op \<Rightarrow> control_plane \<Rightarrow> (failure + bool) \<times> control_plane" where
  "perform_public w m op =
     (case op of
        StripeEvent body signature \<Rightarrow> webhook_of (processStripeWebhook (wi_stripe w) body signature (mo_webhook m))
      | ResendEvent body \<Rightarrow> webhook_of (processResendWebhook (wi_resend w) body (mo_header m) (mo_now m) (mo_now m))
      | SubmitContact form \<Rightarrow>
          result_of (valued (with_db (submit_contact (wi_sourceHmac w) (wi_retentionDays w) (wi_send w) form (mo_now m) (mo_now m))))
      | _ \<Rightarrow> wi_relay w (PublicOp op))"

definition perform_publication :: "wiring \<Rightarrow> moment \<Rightarrow> string \<Rightarrow> publication_op \<Rightarrow> bool cpop" where
  "perform_publication w m workspaceId op =
     (case op of
        ListPublications \<Rightarrow>
          read_only (\<lambda>db. each_value (public_url (wi_urls w)) (listPublishedServices workspaceId (mo_now m) db))
      | PublishService name settings \<Rightarrow>
          valued (obind (publishWorkspaceService (wi_serving w) (wi_sha256 w) (wi_listen w)
            \<lparr>pq_workspaceId = workspaceId, pq_name = name, pq_protocol = pst_protocol settings,
             pq_port = JInt (pst_port settings), pq_visibility = pst_visibility settings,
             pq_ttlSeconds = pst_ttlSeconds settings, pq_preserveAccessPolicy = False\<rparr> (mo_fresh m)) (\<lambda>published.
            olift (public_url (wi_urls w) (fst published))))
      | RevokeService name \<Rightarrow> disconnectWorkspaceService workspaceId name (mo_now m) (mo_eventId m) (mo_now m))"

definition perform_admin :: "wiring \<Rightarrow> moment \<Rightarrow> admin_op \<Rightarrow> bool cpop" where
  "perform_admin w m op =
     (case op of
        ListContacts status limit before \<Rightarrow>
          valued (obind (with_db (purge_expired_contacts (wi_retentionDays w) (mo_now m))) (\<lambda>_.
            with_db (oget (listContactRequests status (Some limit) before))))
      | ExportContacts status \<Rightarrow>
          valued (obind (with_db (purge_expired_contacts (wi_retentionDays w) (mo_now m))) (\<lambda>_.
            with_db (oget (export_pages 25 status None []))))
      | UpdateContact i status \<Rightarrow> found (with_db (updateContactRequestStatus i (contact_status_text status) (mo_now m)))
      | UpsertEntitlement inp \<Rightarrow> valued (with_db (upsertOperatorEntitlement inp (JInt (mo_now m))))
      | RevokeEntitlement membershipId organizationId \<Rightarrow>
          found (with_db (revokeOperatorEntitlement membershipId organizationId (mo_now m)))
      | RevokePublications organizationId actor reason \<Rightarrow>
          valued (revokeOrganizationPublications organizationId actor reason (JInt (mo_now m)) (JInt (mo_now m)) (mo_eventId m))
      | ListControls \<Rightarrow> read_only (\<lambda>db. Inr (listPlatformControls db))
      | UpdateControl name paused reason actor \<Rightarrow>
          valued (with_db (setPlatformControl \<lparr>cti_name = name, cti_paused = paused, cti_reason = reason,
            cti_actor = actor, cti_eventId = None\<rparr> (JInt (mo_now m)) (mo_eventId m)))
      | ListWorkers \<Rightarrow> read_only (\<lambda>db. Inr (listWorkerHosts db))
      | RegisterWorker req \<Rightarrow> valued (with_db (register_host (wi_urlProtocol w) req (mo_now m)))
      | UpdateWorker i update actor \<Rightarrow>
          found (with_db (updateWorkerHost (wi_urlProtocol w) i update actor (mo_now m) (JInt (mo_now m)) (mo_eventId m))))"

definition perform_account :: "wiring \<Rightarrow> moment \<Rightarrow> string \<Rightarrow> account_op \<Rightarrow> bool cpop" where
  "perform_account w m userId op =
     (case op of
        InvitationStatus i email \<Rightarrow> read_only (\<lambda>db. Inr (getOrganizationInvitationStatus i email (mo_now m) db))
      | ListPlanAccounts \<Rightarrow> read_only (listPlanAccountsForUser userId)
      | CreatePlanAccount accountType plan organizationId \<Rightarrow>
          valued (with_db (createPlanAccount \<lparr>pli_userId = userId, pli_accountType = accountType, pli_plan = plan,
            pli_organizationId = organizationId\<rparr> (mo_id m) (mo_now m)))
      | JoinOrganization code \<Rightarrow>
          valued (with_db (join_organization (wi_codeHmac w) userId code (mo_id m) (mo_now m) (mo_eventId m) (mo_now m)))
      | EnsureWorkspace organizationId \<Rightarrow>
          valued (with_db (ensure_personal_workspace userId organizationId (mo_id m) (mo_now m)))
      | EnsureRunning organizationId \<Rightarrow>
          valued (with_db (ensure_workspace_running (entitlements_required w) userId organizationId (mo_id m) (mo_jobId m)
            (mo_now m) (mo_eventId m) (mo_now m))))"

text \<open>
  \<open>reconcileUsage\<close>, and its caller in \<open>server.ts\<close>, which goes on after an error: the workspace is
  resolved, and created if there is none, before the entitlement is asked for.
\<close>

definition reconcile_usage :: "wiring \<Rightarrow> moment \<Rightarrow> string \<Rightarrow> string \<Rightarrow> unit dbop" where
  "reconcile_usage w m userId organizationId =
     obind (ensurePersonalWorkspace userId organizationId (mo_id m) (mo_now m)) (\<lambda>workspace.
     obind (oget (workspaceHasOperatorEntitlement (entitlements_required w) (pw_id workspace) (mo_now m))) (\<lambda>entitled.
     if \<not> entitled then oreturn ()
     else
     obind (oget (resolveEntitledWorkspaceAccess (entitlements_required w) (pw_id workspace) userId organizationId (mo_now m)))
       (\<lambda>resolved. reconcileWorkspaceUsage (mo_values m) resolved (mo_chats m workspace) (mo_sessions m workspace))))"

definition attempt_reconcile :: "wiring \<Rightarrow> moment \<Rightarrow> string \<Rightarrow> string \<Rightarrow> unit dbop" where
  "attempt_reconcile w m userId organizationId = ocatch (reconcile_usage w m userId organizationId) (\<lambda>_. oreturn ())"

definition perform_organization :: "wiring \<Rightarrow> moment \<Rightarrow> string \<Rightarrow> string \<Rightarrow> organization_op \<Rightarrow> bool cpop" where
  "perform_organization w m u g op =
     (case op of
        GetMembers \<Rightarrow> read_only (getOrganizationMembers u g (mo_now m))
      | DisableMember membershipId disabled \<Rightarrow>
          valued (with_db (set_member_disabled u g membershipId disabled (mo_now m) (mo_eventId m) (mo_now m)))
      | AssignSeat membershipId \<Rightarrow>
          valued (with_db (assignStripeOperatorSeat u g membershipId (JInt (mo_now m)) (mo_eventId m)))
      | RevokeSeat membershipId \<Rightarrow>
          found (with_db (revokeStripeOperatorSeat u g membershipId (JInt (mo_now m)) (mo_eventId m)))
      | GetOperators \<Rightarrow> read_only (getOrganizationOperators u g)
      | GetPublications \<Rightarrow>
          read_only (\<lambda>db. sbind (listOrganizationPublishedServices u g db)
            (each_value (organizationPublishedServiceSummary (wi_urls w) (mo_now m))))
      | ConnectPublication workspaceId name connect \<Rightarrow>
          found (setOrganizationPublicationConnected (wi_serving w) (wi_urls w) (wi_sha256 w) (wi_listen w)
            \<lparr>cni_workspaceId = workspaceId, cni_userId = u, cni_organizationId = g, cni_name = name,
             cni_connected = connect\<rparr> (mo_fresh m))
      | GetDashboard since \<Rightarrow>
          read_only (getOrganizationDashboardSummary \<lparr>dao_userId = u, dao_organizationId = g, dao_since = JInt since,
            dao_heartbeatMaxAgeMs = Some (JInt (wi_heartbeatStaleMs w))\<rparr> (mo_now m))
      | GetAdmin \<Rightarrow> read_only (get_organization_admin (wi_codeHmac w) u g (mo_now m))
      | GetAudit limit before \<Rightarrow> read_only (listOrganizationAuditEvents u g (Some limit) before)
      | RotateJoinCode \<Rightarrow>
          valued (with_db (rotate_join_code (wi_codeHmac w) u g (mo_randomHex m) (mo_now m) (mo_eventId m) (mo_now m)))
      | RenameOrganization name \<Rightarrow> valued (with_db (update_organization u g name (mo_eventId m) (mo_now m)))
      | OrganizationUsage days since export \<Rightarrow>
          valued (obind (with_db (attempt_reconcile w m u g)) (\<lambda>_.
            with_db (oread (getOrganizationUsageSummary u g since days)))))"

definition restart_audit :: "string \<Rightarrow> string \<Rightarrow> string \<Rightarrow> string \<Rightarrow> audit_options" where
  "restart_audit u g workspaceId workerWorkspaceId =
     handler_audit u g ''operator.restart_requested'' ''workspace'' workspaceId
       [(''workerWorkspaceId'', MetaString workerWorkspaceId)]"

definition restart_workspace :: "wiring \<Rightarrow> moment \<Rightarrow> string \<Rightarrow> string \<Rightarrow> string \<Rightarrow> bool dbop" where
  "restart_workspace w m u g workspaceId =
     obind (oread (isPlatformControlPaused ''workspace_start'')) (\<lambda>paused.
     if paused then othrow (PlatformControlPausedError ''workspace_start'')
     else
     obind (oget (resolveEntitledWorkspaceAccess (entitlements_required w) workspaceId u g (mo_now m))) (\<lambda>resolved.
     case resolved of
       None \<Rightarrow> oreturn False
     | Some workspace \<Rightarrow>
         (case truthy (pw_workerWorkspaceId workspace) of
            None \<Rightarrow> othrow (JsError ''Workspace has not been assigned to a worker'')
          | Some workerWorkspaceId \<Rightarrow>
              obind (oread (\<lambda>db. map_sum worker_thrown id (fst (fst (directory_restart (wi_secrets w) (wi_workspaceImage w)
                (mo_signing m) (mo_fetch m) (pw_id workspace) (''cloud-restart-'' @ mo_id m) (mo_cache m) db))))) (\<lambda>_.
              obind (recordAuditEvent (restart_audit u g workspaceId workerWorkspaceId) (mo_eventId m) (mo_now m)) (\<lambda>_.
              oreturn True)))))"

definition operator_runtime :: "wiring \<Rightarrow> moment \<Rightarrow> string \<Rightarrow> string \<Rightarrow> string \<Rightarrow> cloud_db \<Rightarrow> db_error + bool" where
  "operator_runtime w m u g workspaceId db =
     (case resolveEntitledWorkspaceAccess (entitlements_required w) workspaceId u g (mo_now m) db of
        None \<Rightarrow> Inr False
      | Some workspace \<Rightarrow>
          if truthy (pw_workerWorkspaceId workspace) = None then Inr False
          else map_sum worker_thrown (\<lambda>_. True) (fst (fst (directory_workspace (wi_secrets w) (wi_workspaceImage w)
            (mo_signing m) (mo_fetch m) (pw_id workspace) (mo_cache m) db))))"

definition perform_workspace ::
  "wiring \<Rightarrow> moment \<Rightarrow> string \<Rightarrow> string \<Rightarrow> workspace_op \<Rightarrow> control_plane \<Rightarrow> (failure + bool) \<times> control_plane"
where
  "perform_workspace w m u g op =
     (case op of
        OperatorRuntime workspaceId \<Rightarrow> result_of (with_db (oread (operator_runtime w m u g workspaceId)))
      | RestartWorkspace workspaceId \<Rightarrow> result_of (with_db (restart_workspace w m u g workspaceId))
      | PersonalUsage days since \<Rightarrow>
          result_of (valued (obind (with_db (attempt_reconcile w m u g)) (\<lambda>_.
            with_db (oread (getPersonalUsageSummary u g since days)))))
      | ProxyRuntime workspaceId path \<Rightarrow> wi_relay w (WorkspaceOp u g op))"

definition perform_op :: "wiring \<Rightarrow> moment \<Rightarrow> server_op \<Rightarrow> control_plane \<Rightarrow> (failure + bool) \<times> control_plane" where
  "perform_op w m op =
     (case op of
        PublicOp x \<Rightarrow> perform_public w m x
      | PublicationOp i x \<Rightarrow> result_of (perform_publication w m i x)
      | AdminOp x \<Rightarrow> result_of (perform_admin w m x)
      | AccountOp u x \<Rightarrow> result_of (perform_account w m u x)
      | OrganizationOp u g x \<Rightarrow> result_of (perform_organization w m u g x)
      | WorkspaceOp u g x \<Rightarrow> perform_workspace w m u g x)"

section \<open>Authentication of a publishing workspace\<close>

text \<open>
  \<open>workspacePublicationAuthenticated\<close>: the bearer token is the one of the runtime of the workspace. The identifier of the
  access is the worker's name of the workspace, which the directory never leaves empty.
\<close>

definition publication_authenticated :: "wiring \<Rightarrow> moment \<Rightarrow> cloud_db \<Rightarrow> string \<Rightarrow> bool" where
  "publication_authenticated w m db workspaceId =
     (let authorization = (case mo_header m ''authorization'' of None \<Rightarrow> [] | Some h \<Rightarrow> h);
          presented = drop (length ''Bearer '') authorization in
      if \<not> starts_with ''Bearer '' authorization \<or> presented = []
        \<or> getWorkspaceOwnerIdentity workspaceId db = None
        \<or> \<not> workspaceHasOperatorEntitlement (entitlements_required w) workspaceId (mo_now m) db
      then False
      else case fst (fst (directory_runtime_access (wi_secrets w) (wi_workspaceImage w) (mo_signing m) (mo_fetch m)
          workspaceId (mo_cache m) db)) of
        Inl _ \<Rightarrow> False
      | Inr access \<Rightarrow> safeEqual presented (rac_accessToken (wac_access access)))"

section \<open>Requests that only read\<close>

text \<open>The effect of a report of usage: a workspace and events.\<close>

definition only_usage :: "cloud_db \<Rightarrow> cloud_db \<Rightarrow> bool" where
  "only_usage s t \<longleftrightarrow> (\<exists>ws es. t = s\<lparr>workspaces := ws, usage_events := es\<rparr>)"

lemma only_usage_refl [simp]: "only_usage s s"
  unfolding only_usage_def by (rule exI [of _ "workspaces s"], rule exI [of _ "usage_events s"]) simp

lemma only_usage_workspaces: "only_usage s t \<Longrightarrow> only_usage s (t\<lparr>workspaces := ws\<rparr>)"
  unfolding only_usage_def
  by (elim exE) (intro exI [of _ ws] exI [of _ "usage_events t"], simp)

lemma only_usage_events: "only_usage s t \<Longrightarrow> only_usage s (set_usage_events es t)"
  unfolding only_usage_def set_usage_events_def by (elim exE) (intro exI [of _ "workspaces t"] exI [of _ es], simp)

lemma ensure_keeps_usage: "keeps (only_usage s) (ensurePersonalWorkspace u g i now)"
proof (rule keepsI)
  fix a r t assume inv: "only_usage s a" and run: "ensurePersonalWorkspace u g i now a = (r, t)"
  show "only_usage s t"
  proof (cases r)
    case (Inl e)
    with run have "t = a" by (auto simp: ensurePersonalWorkspace_def dest: atomic_rolls_back)
    with inv show ?thesis by simp
  next
    case (Inr w)
    with run have "ensurePersonalWorkspace u g i now a = (Inr w, t)" by simp
    then show ?thesis by (rule ensurePersonalWorkspace_Inr) (use inv only_usage_workspaces in auto)
  qed
qed

text \<open>What holds whatever the ledger says is kept by the synchronization.\<close>

definition ledger_blind :: "(cloud_db \<Rightarrow> bool) \<Rightarrow> bool" where
  "ledger_blind I \<longleftrightarrow> (\<forall>s es. I s \<longrightarrow> I (set_usage_events es s))"

lemma ledger_blindI: "ledger_blind (only_usage s)" "ledger_blind (\<lambda>t. workspaces t = ws)"
  by (simp_all add: ledger_blind_def only_usage_events) (simp add: set_usage_events_def)

lemma usage_event_keeps: "ledger_blind I \<Longrightarrow> keeps I (recordUsageEvent inp now)"
proof (rule keepsI)
  fix a r t assume blind: "ledger_blind I" and inv: "I a" and run: "recordUsageEvent inp now a = (r, t)"
  have "t = set_usage_events (usage_events t) a"
    using run by (cases r) (auto simp: set_usage_events_def dest!: recordUsageEvent_Inl
        elim!: recordUsageEvent_Inr dest: store_usage_Inr(4))
  moreover have "I (set_usage_events (usage_events t) a)" using blind inv by (simp add: ledger_blind_def)
  ultimately show "I t" by simp
qed

lemma record_all_keeps: "ledger_blind I \<Longrightarrow> keeps I (record_all inps now)"
  by (induction inps) (simp_all add: keeps_intro usage_event_keeps)

lemma chat_keeps: "ledger_blind I \<Longrightarrow> keeps I (syncChatUsage env w name display session)"
  unfolding syncChatUsage_def by (intro keeps_intro record_all_keeps)

lemma chats_keep:
  assumes blind: "ledger_blind I"
  shows "keeps I (sync_chats env w sessions chats)"
proof (induction chats)
  case Nil
  show ?case by (simp add: keeps_def)
next
  case (Cons c chats)
  obtain name display where c: "c = (name, display)" by (cases c)
  show ?case
  proof (rule keepsI)
    fix a r t assume inv: "I a" and run: "sync_chats env w sessions (c # chats) a = (r, t)"
    obtain r1 x where x: "syncChatUsage env w name display (sessions name) a = (r1, x)"
      by (cases "syncChatUsage env w name display (sessions name) a")
    obtain r2 y where y: "sync_chats env w sessions chats x = (r2, y)" by (cases "sync_chats env w sessions chats x")
    have "I y" by (rule keepsD [OF Cons.IH keepsD [OF chat_keeps [OF blind] inv x] y])
    with run show "I t" by (simp add: c x y)
  qed
qed

lemma reconcile_keeps: "ledger_blind I \<Longrightarrow> keeps I (reconcileWorkspaceUsage env resolved chats sessions)"
  unfolding reconcileWorkspaceUsage_def by (intro keeps_intro chats_keep)

lemma attempt_keeps: "keeps (only_usage s) (attempt_reconcile w m u g)"
  unfolding attempt_reconcile_def reconcile_usage_def
  by (intro keeps_intro ensure_keeps_usage reconcile_keeps ledger_blindI)

text \<open>What an operation that answers a GET may do to the database.\<close>

fun read_effect :: "server_op \<Rightarrow> cloud_db \<Rightarrow> cloud_db \<Rightarrow> bool" where
  "read_effect (AdminOp (ListContacts status limit before)) s t \<longleftrightarrow>
     (\<exists>kept. t = set_contact_requests (filter kept (contact_requests s)) s)"
| "read_effect (AdminOp (ExportContacts status)) s t \<longleftrightarrow>
     (\<exists>kept. t = set_contact_requests (filter kept (contact_requests s)) s)"
| "read_effect (OrganizationOp u g (OrganizationUsage days since export)) s t \<longleftrightarrow> only_usage s t"
| "read_effect (WorkspaceOp u g (PersonalUsage days since)) s t \<longleftrightarrow> only_usage s t"
| "read_effect op s t \<longleftrightarrow> t = s"

text \<open>One operation, and the state it leaves.\<close>

definition leaves :: "(cloud_db \<Rightarrow> cloud_db \<Rightarrow> bool) \<Rightarrow> bool cpop \<Rightarrow> bool" where
  "leaves R m \<longleftrightarrow> (\<forall>s. R (cp_db s) (cp_db (snd (m s))) \<and> snd (m s) = s\<lparr>cp_db := cp_db (snd (m s))\<rparr>)"

lemma valued_state: "snd (valued m s) = snd (m s)"
  by (cases "m s"; cases "fst (m s)") (simp_all add: valued_def obind_def oreturn_def)

lemma with_db_state: "snd (with_db m s) = s\<lparr>cp_db := snd (m (cp_db s))\<rparr>"
  by (simp add: with_db_def split: prod.split)

lemma then_read_state:
  assumes "\<And>s. snd (n s) = s"
  shows "snd (obind (with_db m) (\<lambda>_. with_db n) s) = s\<lparr>cp_db := snd (m (cp_db s))\<rparr>"
proof (cases "m (cp_db s)")
  case (Pair r d)
  moreover have "snd (with_db n x) = x" for x by (simp add: with_db_state assms)
  ultimately show ?thesis by (cases r) (simp_all add: obind_def with_db_def [of m])
qed

lemma leaves_read_only: "(\<And>s. R s s) \<Longrightarrow> leaves R (read_only f)"
  by (simp add: leaves_def read_only_def valued_state with_db_state operation_defs)

lemma leaves_then_read:
  assumes "\<And>s. R s (snd (m s))" and "\<And>s. snd (n s) = s"
  shows "leaves R (valued (obind (with_db m) (\<lambda>_. with_db n)))"
  by (simp add: leaves_def valued_state then_read_state [OF assms(2)] assms(1))

lemma result_of_state: "snd (result_of m s) = snd (m s)"
  by (simp add: result_of_def split: prod.split sum.split)

lemma leaves_result: "leaves R m \<Longrightarrow> result_of m s = (r, t) \<Longrightarrow> R (cp_db s) (cp_db t) \<and> t = s\<lparr>cp_db := cp_db t\<rparr>"
  using result_of_state [of m s] unfolding leaves_def by (metis snd_conv)

lemma purge_effect:
  "\<exists>kept. snd (purge_expired_contacts days now s) = set_contact_requests (filter kept (contact_requests s)) s"
proof -
  have "set_contact_requests (filter (\<lambda>_. True) (contact_requests s)) s = s" by (simp add: set_contact_requests_def)
  then show ?thesis
    unfolding purge_expired_contacts_def deleteContactRequestsCreatedBefore_def othrow_def
    by (cases "\<not> is_safe_integer (JInt (max 0 (now - days * 24 * 60 * 60 * 1000)))
          \<or> int_value (JInt (max 0 (now - days * 24 * 60 * 60 * 1000))) < 0")
      (simp_all only: if_True if_False snd_conv, metis, blast)
qed

lemma attempt_effect: "only_usage s (snd (attempt_reconcile w m u g s))"
  using attempt_keeps [of s w m u g] by (simp add: keeps_def)

lemma oread_state: "snd (oread f s) = s" and oget_state: "snd (oget g s) = s"
  by (simp_all add: operation_defs)

lemma admin_reads: "admin_method op = Some ''GET'' \<Longrightarrow> leaves (read_effect (AdminOp op)) (perform_admin w m op)"
  unfolding perform_admin_def
  by (cases op) (simp_all add: leaves_read_only leaves_then_read purge_effect oget_state)

lemma account_reads: "account_method op = Some ''GET'' \<Longrightarrow> leaves (read_effect (AccountOp u op)) (perform_account w m u op)"
  unfolding perform_account_def by (cases op) (simp_all add: leaves_read_only)

lemma publication_reads:
  "publication_method op = Some ''GET'' \<Longrightarrow> leaves (read_effect (PublicationOp i op)) (perform_publication w m i op)"
  unfolding perform_publication_def by (cases op) (simp_all add: leaves_read_only)

lemma organization_reads:
  "organization_method op = Some ''GET'' \<Longrightarrow> leaves (read_effect (OrganizationOp u g op)) (perform_organization w m u g op)"
  unfolding perform_organization_def
  by (cases op) (simp_all add: leaves_read_only leaves_then_read attempt_effect oread_state)

text \<open>The state an operation leaves, however it ends.\<close>

lemma perform_state:
  "snd (perform_op w m (WorkspaceOp u g (OperatorRuntime i)) s) = s"
  "snd (perform_op w m (WorkspaceOp u g (PersonalUsage days since)) s)
     = s\<lparr>cp_db := snd (attempt_reconcile w m u g (cp_db s))\<rparr>"
  by (simp_all add: perform_op_def perform_workspace_def result_of_state valued_state with_db_state
      then_read_state oread_state)

lemma workspace_reads:
  assumes "workspace_method op = Some ''GET''" and "perform_op w m (WorkspaceOp u g op) s = (r, t)"
  shows "read_effect (WorkspaceOp u g op) (cp_db s) (cp_db t) \<and> t = s\<lparr>cp_db := cp_db t\<rparr>"
proof -
  have t: "t = snd (perform_op w m (WorkspaceOp u g op) s)" by (simp add: assms(2))
  show ?thesis using assms(1) by (cases op) (simp_all add: t perform_state attempt_effect)
qed

lemma reads_only:
  assumes "op_method op = Some ''GET''" and "perform_op w m op s = (r, t)"
  shows "read_effect op (cp_db s) (cp_db t) \<and> t = s\<lparr>cp_db := cp_db t\<rparr>"
proof (cases op)
  case (PublicOp x)
  with assms(1) show ?thesis by (cases x) simp_all
next
  case (PublicationOp i x)
  show ?thesis unfolding PublicationOp
    by (rule leaves_result [OF publication_reads]) (use assms PublicationOp in \<open>simp_all add: perform_op_def\<close>)
next
  case (AdminOp x)
  show ?thesis unfolding AdminOp
    by (rule leaves_result [OF admin_reads]) (use assms AdminOp in \<open>simp_all add: perform_op_def\<close>)
next
  case (AccountOp u x)
  show ?thesis unfolding AccountOp
    by (rule leaves_result [OF account_reads]) (use assms AccountOp in \<open>simp_all add: perform_op_def\<close>)
next
  case (OrganizationOp u g x)
  show ?thesis unfolding OrganizationOp
    by (rule leaves_result [OF organization_reads]) (use assms OrganizationOp in \<open>simp_all add: perform_op_def\<close>)
next
  case (WorkspaceOp u g x)
  show ?thesis unfolding WorkspaceOp by (rule workspace_reads) (use assms WorkspaceOp in simp_all)
qed

section \<open>Properties\<close>


lemma running_dispatch:
  assumes "matchPublishedServiceHostname (hq_hostname req) (se_hostnameSuffix env) = HostNone"
    and "hq_pathname req = ''/api/workspaces/personal/ensure-running''" and "hq_method req = ''POST''"
    and "se_session env = Some session" and "se_configured env ''ensureWorkspaceRunning''"
    and "request_json env req = Some body" and "body \<noteq> JsonNull" and "field ''organizationId'' body = Some (JsonString g)"
    and "trim g \<noteq> []"
  shows "dispatch env req = Perform (AccountOp (as_userId session) (EnsureRunning g))"
  using dispatch_to(4) [OF assms(1-3)]
  by (simp add: personal_route_def assms signed_in_def configured_def object_body_def isNonEmptyString_def text_field_def)

text \<open>A start does not touch the members.\<close>

lemma enabled_other [simp]:
  "isOrganizationMemberEnabled u g (set_provisioning_jobs rows s) = isOrganizationMemberEnabled u g s"
  "isOrganizationMemberEnabled u g (set_workspaces ws s) = isOrganizationMemberEnabled u g s"
  "isOrganizationMemberEnabled u g (s\<lparr>workspaces := ws\<rparr>) = isOrganizationMemberEnabled u g s"
  by (simp_all add: isOrganizationMemberEnabled_def find_membership_def member_disabled_def
      set_provisioning_jobs_def set_workspaces_def cong: option.case_cong)

lemma running_keeps_members: "keeps (\<lambda>t. isOrganizationMemberEnabled v h t = b) (ensureWorkspaceRunning u g i k now)"
proof -
  have "keeps (\<lambda>t. isOrganizationMemberEnabled v h t = b) (ensurePersonalWorkspace u g i now)"
  proof (rule keepsI)
    fix s r t assume inv: "isOrganizationMemberEnabled v h s = b" and run: "ensurePersonalWorkspace u g i now s = (r, t)"
    show "isOrganizationMemberEnabled v h t = b"
    proof (cases r)
      case (Inl e)
      with run have "t = s" by (auto simp: ensurePersonalWorkspace_def dest: atomic_rolls_back)
      with inv show ?thesis by simp
    next
      case (Inr w)
      with run have "ensurePersonalWorkspace u g i now s = (Inr w, t)" by simp
      then show ?thesis by (rule ensurePersonalWorkspace_Inr) (use inv in auto)
    qed
  qed
  then show ?thesis
    unfolding ensureWorkspaceRunning_def requestRunning_def insertJob_def markProvisioning_def
    by (intro keeps_intro pj_tbl.insert_keeps_other ws_tbl.update_keeps_other) simp_all
qed

lemma audit_of_disabled:
  "\<not> isOrganizationMemberEnabled (ao_userId opts) (ao_organizationId opts) s \<Longrightarrow>
     recordAuditEvent opts i now s = (Inl OrganizationAccessDeniedError, s)"
  by (simp add: recordAuditEvent_def requireEnabledOrganizationMember_def obind_def operation_defs)

text \<open>C34: A user whose membership is disabled can still start his existing operator. When the start goes
  through, the audit entry that follows it is refused, so the reply is the error 500; but the job and the state of
  the workspace stay as the start left them.\<close>

theorem disabled_member_starts_workspace:
  assumes "dispatch env req = Perform (AccountOp u (EnsureRunning g))"
    and "\<not> isOrganizationMemberEnabled u g (cp_db s)" and "\<not> entitlements_required w"
    and "getPersonalWorkspace u g (cp_db s) = Some v" and "pw_state v \<noteq> WsReady"
    and "isPlatformControlPaused ''workspace_start'' (cp_db s) = Inr False"
    and "ensureWorkspaceRunning u g (mo_id m) (mo_jobId m) (mo_now m) (cp_db s) = (Inr (started, job), d)"
  shows "handle_request env (perform_op w m) req s
    = (Refused 500 ''workspace_provisioning_failed'' True, s\<lparr>cp_db := d\<rparr>)"
proof -
  have "isOrganizationMemberEnabled u g d = isOrganizationMemberEnabled u g (cp_db s)"
    using running_keeps_members [THEN keepsD, OF refl assms(7)] by simp
  with assms(2) have audit: "recordAuditEvent (running_audit u g started scheduled) (mo_eventId m) (mo_now m) d
      = (Inl OrganizationAccessDeniedError, d)" for scheduled
    by (intro audit_of_disabled) (simp add: running_audit_def handler_audit_def)
  have "workspaceHasOperatorEntitlement False (pw_id v) (mo_now m) (cp_db s)"
    by (simp add: workspaceHasOperatorEntitlement_def)
  then have "ensure_workspace_running (entitlements_required w) u g (mo_id m) (mo_jobId m) (mo_now m) (mo_eventId m) (mo_now m)
      (cp_db s) = (Inl OrganizationAccessDeniedError, d)"
    using assms(3-7) audit
    by (simp add: ensure_workspace_running_def existing_or_new_def obind_def operation_defs)
  then have "perform_op w m (AccountOp u (EnsureRunning g)) s
      = (Inl (Thrown OrganizationAccessDeniedError), s\<lparr>cp_db := d\<rparr>)"
    by (simp add: perform_op_def perform_account_def result_of_def valued_def obind_def with_db_def)
  with assms(1) show ?thesis by (simp add: handle_request_def start_failure_def)
qed

text \<open>C35: The pause of provisioning does not stop a usage report. While it is on, asking for a workspace is refused
  and nothing changes; asking for a usage report creates the same workspace.\<close>

theorem usage_report_ignores_pause:
  assumes "isPlatformControlPaused ''provisioning'' (cp_db s) = Inr True" and "getPersonalWorkspace u g (cp_db s) = None"
    and "ensurePersonalWorkspace u g (mo_id m) (mo_now m) (cp_db s) = (Inr v, d)"
  shows "perform_op w m (AccountOp u (EnsureWorkspace g)) s = (Inl (Thrown (PlatformControlPausedError ''provisioning'')), s)
    \<and> (\<exists>r t. perform_op w m (WorkspaceOp u g (PersonalUsage days since)) s = (r, t) \<and> workspaces (cp_db t) = workspaces d)"
proof
  show "perform_op w m (AccountOp u (EnsureWorkspace g)) s = (Inl (Thrown (PlatformControlPausedError ''provisioning'')), s)"
    using assms(1,2)
    by (simp add: perform_op_def perform_account_def ensure_personal_workspace_def existing_or_new_def result_of_def
        valued_def obind_def with_db_def operation_defs)
  obtain r t where run: "perform_op w m (WorkspaceOp u g (PersonalUsage days since)) s = (r, t)" by fastforce
  define rest where "rest = obind (oget (workspaceHasOperatorEntitlement (entitlements_required w) (pw_id v) (mo_now m))) (\<lambda>entitled.
     if \<not> entitled then oreturn ()
     else
     obind (oget (resolveEntitledWorkspaceAccess (entitlements_required w) (pw_id v) u g (mo_now m)))
       (\<lambda>resolved. reconcileWorkspaceUsage (mo_values m) resolved (mo_chats m v) (mo_sessions m v)))"
  have "keeps (\<lambda>t. workspaces t = workspaces d) rest"
    unfolding rest_def by (intro keeps_intro reconcile_keeps ledger_blindI)
  then have "workspaces (snd (rest d)) = workspaces d" by (simp add: keeps_def)
  moreover have "reconcile_usage w m u g (cp_db s) = rest d"
    using assms(3) by (simp add: reconcile_usage_def rest_def obind_def [of "ensurePersonalWorkspace u g (mo_id m) (mo_now m)"])
  ultimately have "workspaces (snd (attempt_reconcile w m u g (cp_db s))) = workspaces d"
    by (cases "rest d"; cases "fst (rest d)") (simp_all add: attempt_reconcile_def ocatch_def oreturn_def)
  then have "workspaces (cp_db t) = workspaces d"
    using perform_state(2) [of w m u g days since s] run by simp
  with run show "\<exists>r t. perform_op w m (WorkspaceOp u g (PersonalUsage days since)) s = (r, t) \<and> workspaces (cp_db t) = workspaces d"
    by blast
qed

section \<open>The properties on concrete requests\<close>

definition sample_wiring :: wiring where
  "sample_wiring = \<lparr>wi_serving = sample_config,
     wi_urls = \<lparr>su_origin = None, su_publicAppURL = ''https://app.x.io'', su_tcpIngressHost = ''tcp.x.io''\<rparr>,
     wi_codeHmac = sample_hmac, wi_sourceHmac = sample_hmac, wi_sha256 = sample_hmac, wi_listen = (\<lambda>_. None),
     wi_retentionDays = 30, wi_heartbeatStaleMs = 1000, wi_urlProtocol = (\<lambda>_. None), wi_send = (\<lambda>_. Inr None),
     wi_stripe = (\<lambda>_ _. None), wi_resend = sample_resend, wi_secrets = sample_secrets,
     wi_workspaceImage = ''img'', wi_relay = (\<lambda>_ s. (Inr True, s))\<rparr>"

definition sample_moment :: moment where
  "sample_moment = \<lparr>mo_now = 10, mo_id = ''w9'', mo_jobId = ''j9'', mo_randomHex = ''0123456789ab'', mo_eventId = ''e1'',
     mo_fresh = sample_fresh, mo_webhook = sample_clock, mo_header = (\<lambda>_. None), mo_signing = sample_signing,
     mo_fetch = (\<lambda>_. FetchRejected OtherRejection), mo_cache = (\<lambda>_. None), mo_values = sample_values,
     mo_chats = (\<lambda>_. Inr None), mo_sessions = (\<lambda>_ _. Inr None)\<rparr>"

definition started_db :: cloud_db where
  "started_db = sample_db\<lparr>member_states := [\<lparr>ms_member_id = ''m2'', ms_disabled = 1, ms_disabled_by = Some ''u1'', ms_disabled_at = Some 4, ms_updated_at = 4\<rparr>],
     workspaces := [new_workspace ''w1'' ''m2'' ''o1'' 5]\<rparr>"

definition member_env :: server_env where
  "member_env = sample_env\<lparr>se_session := Some \<lparr>as_userId = ''u2'', as_email = ''bob@x.io'', as_activeOrganizationId = None\<rparr>,
     se_json := (\<lambda>_. Some (JsonObject [(''organizationId'', JsonString ''o1'')]))\<rparr>"

definition plane_of :: "cloud_db \<Rightarrow> control_plane" where
  "plane_of db = \<lparr>cp_db = db, cp_ingress = None\<rparr>"

lemma members_path:
  "published_match ''/api/organizations/o1/members'' = None"
  "publication_match ''/api/organizations/o1/members'' = None"
  "contact_member ''/api/organizations/o1/members'' = None"
  "entitlement_match ''/api/organizations/o1/members'' = None"
  "revocation_match ''/api/organizations/o1/members'' = None"
  "control_member ''/api/organizations/o1/members'' = None"
  "worker_member ''/api/organizations/o1/members'' = None"
  "invitation_match ''/api/organizations/o1/members'' = None"
  "organization_match ''/api/organizations/o1/members'' = Some (''o1'', MembersPath)"
  "decodeURIComponent ''o1'' = Some ''o1''"
  by code_simp+

definition members_request :: http_request where
  "members_request = (sample_post ''/api/organizations/o1/members'')\<lparr>hq_method := ''GET''\<rparr>"

lemma members_dispatch: "dispatch sample_env members_request = Perform (OrganizationOp ''u1'' ''o1'' GetMembers)"
  by (simp add: dispatch_def routes_def early_routes plan_route_def join_route_def organization_route_def
      organization_request_def members_request_def sample_post_def sample_env_def sample_session members_path sample_host
      signed_in_def decoded_def known_def owner_facts)


lemma started_facts:
  "\<not> isOrganizationMemberEnabled ''u2'' ''o1'' started_db"
  "isPlatformControlPaused ''workspace_start'' started_db = Inr False"
  "\<not> entitlements_required sample_wiring"
  by code_simp+

lemma starts:
  "\<exists>v job d. ensureWorkspaceRunning ''u2'' ''o1'' ''w9'' ''j9'' 10 started_db = (Inr (v, job), d)
     \<and> map pj_id (provisioning_jobs d) = [''j9'']"
proof -
  have "case ensureWorkspaceRunning ''u2'' ''o1'' ''w9'' ''j9'' 10 started_db of
      (Inr (v, job), d) \<Rightarrow> map pj_id (provisioning_jobs d) = [''j9''] | _ \<Rightarrow> False"
    by code_simp
  then show ?thesis by (auto split: prod.splits sum.splits)
qed

lemma started_workspace: "\<exists>v. getPersonalWorkspace ''u2'' ''o1'' started_db = Some v \<and> pw_state v \<noteq> WsReady"
proof -
  have "case getPersonalWorkspace ''u2'' ''o1'' started_db of Some v \<Rightarrow> pw_state v \<noteq> WsReady | None \<Rightarrow> False" by code_simp
  then show ?thesis by (auto split: option.splits)
qed

theorem disabled_member_starts_workspace_witness:
  "\<exists>d. handle_request member_env (perform_op sample_wiring sample_moment)
        (sample_post ''/api/workspaces/personal/ensure-running'') (plane_of started_db)
      = (Refused 500 ''workspace_provisioning_failed'' True, plane_of d) \<and> map pj_id (provisioning_jobs d) = [''j9'']"
proof -
  let ?req = "sample_post ''/api/workspaces/personal/ensure-running''"
  have "dispatch member_env ?req = Perform (AccountOp ''u2'' (EnsureRunning ''o1''))"
    using running_dispatch [of ?req member_env _ _ "''o1''"]
    by (simp add: sample_host sample_env_def sample_post_def member_env_def request_json_def trim_def js_space_def)
  moreover obtain v job d where run: "ensureWorkspaceRunning ''u2'' ''o1'' ''w9'' ''j9'' 10 started_db = (Inr (v, job), d)"
    "map pj_id (provisioning_jobs d) = [''j9'']" using starts by (elim exE conjE)
  moreover obtain w where "getPersonalWorkspace ''u2'' ''o1'' started_db = Some w" "pw_state w \<noteq> WsReady"
    using started_workspace by blast
  ultimately show ?thesis
    using disabled_member_starts_workspace [of member_env ?req "''u2''" "''o1''" "plane_of started_db" sample_wiring w
      sample_moment v job d] started_facts by (simp add: plane_of_def sample_moment_def)
qed

lemma created_workspace:
  "\<exists>v d. ensurePersonalWorkspace ''u2'' ''o1'' ''w9'' 10 paused_db = (Inr v, d)
     \<and> map ws_id (workspaces d) = [''w1'', ''w9'']"
proof -
  have "case ensurePersonalWorkspace ''u2'' ''o1'' ''w9'' 10 paused_db of
      (Inr v, d) \<Rightarrow> map ws_id (workspaces d) = [''w1'', ''w9''] | _ \<Rightarrow> False"
    by code_simp
  then show ?thesis by (auto split: prod.splits sum.splits)
qed

lemma no_workspace_yet: "getPersonalWorkspace ''u2'' ''o1'' paused_db = None"
  by code_simp

theorem usage_report_ignores_pause_witness:
  "\<exists>r t. perform_op sample_wiring sample_moment (WorkspaceOp ''u2'' ''o1'' (PersonalUsage 7 0)) (plane_of paused_db) = (r, t)
     \<and> map ws_id (workspaces (cp_db t)) = [''w1'', ''w9'']"
proof -
  obtain v d where run: "ensurePersonalWorkspace ''u2'' ''o1'' ''w9'' 10 paused_db = (Inr v, d)"
    "map ws_id (workspaces d) = [''w1'', ''w9'']" using created_workspace by (elim exE conjE)
  from usage_report_ignores_pause [of "plane_of paused_db" "''u2''" "''o1''" sample_moment v d sample_wiring 7 0]
    run paused_db_facts(3) no_workspace_yet
  show ?thesis by (auto simp: plane_of_def sample_moment_def)
qed

end
