(* ===== verification/Startup.thy ===== *)
theory Startup
  imports Server Client
begin

text \<open>
  The browser's side of starting an Operator: the calls of \<open>apps/web/src/runtime/personalWorkspace.ts\<close>, the flag of an
  expired session (\<open>auth/sessionLifecycle.ts\<close>) and the loop that takes a user from sign-in to a ready runtime
  (\<open>workspaceStartup.ts\<close>).

  The network, the clock and the abort signal are a world of any type; a run logs every call with its answer.
\<close>

section \<open>Calls of the API\<close>

datatype startup_stage = StageResolving | StageProvisioning | StageStarting | StageReady

text \<open>
  What may be thrown: the abort of the user, a \<open>WorkspaceStartupError\<close>, another \<open>Error\<close>, both with the value
  whose text is the message, or any other value.
\<close>

datatype thrown_value = ThrownAbort | ThrownStartup startup_stage json bool | ThrownError json | ThrownOther

type_synonym 'a fetched = "thrown_value + 'a"

text \<open>A response: its status and its body, which parsing may refuse.\<close>

record web_response =
  wrs_status :: nat
  wrs_body :: "json fetched"

definition observeAuthenticationResponse :: "web_response \<Rightarrow> bool" where
  "observeAuthenticationResponse response \<longleftrightarrow> wrs_status response = 401"

definition reply_error :: "string \<Rightarrow> web_response \<Rightarrow> thrown_value" where
  "reply_error what response =
     (let body = (case wrs_body response of Inl _ \<Rightarrow> JsonNull | Inr v \<Rightarrow> v) in
      ThrownError (json_or (field ''error'' body)
        (JsonString (what @ '' ('' @ show_nat (wrs_status response) @ '')''))))"

definition thrown_text :: "string \<Rightarrow> thrown_value" where
  "thrown_text message = ThrownError (JsonString message)"

text \<open>The properties of \<open>null\<close> cannot be read.\<close>

definition reply_payload :: "string \<Rightarrow> web_response \<Rightarrow> json fetched" where
  "reply_payload what response =
     (if \<not> ok_status (wrs_status response) then Inl (reply_error what response)
      else case wrs_body response of
        Inl e \<Rightarrow> Inl e
      | Inr payload \<Rightarrow> if payload = JsonNull then Inl (thrown_text ''null is not an object'') else Inr payload)"

record startup_workspace =
  sup_id :: json
  sup_state :: "json option"

definition in_state :: "string \<Rightarrow> startup_workspace \<Rightarrow> bool" where
  "in_state state w \<longleftrightarrow> sup_state w = Some (JsonString state)"

definition truthy_field :: "json option \<Rightarrow> json option" where
  "truthy_field value = (case value of None \<Rightarrow> None | Some v \<Rightarrow> if truthy_json v then Some v else None)"

definition reported_workspace :: "json \<Rightarrow> startup_workspace option" where
  "reported_workspace payload =
     (case field ''workspace'' payload of
        None \<Rightarrow> None
      | Some w \<Rightarrow> map_option (\<lambda>i. \<lparr>sup_id = i, sup_state = field ''state'' w\<rparr>) (truthy_field (field ''id'' w)))"

definition web_personal_workspace :: "web_response \<Rightarrow> startup_workspace fetched" where
  "web_personal_workspace response =
     sbind (reply_payload ''Personal workspace request failed'' response) (\<lambda>payload.
     case reported_workspace payload of
       None \<Rightarrow> Inl (thrown_text ''Control plane returned an invalid personal workspace'')
     | Some w \<Rightarrow> Inr w)"

definition web_ensure_running :: "web_response \<Rightarrow> startup_workspace fetched" where
  "web_ensure_running response =
     sbind (reply_payload ''Workspace startup request failed'' response) (\<lambda>payload.
     case reported_workspace payload of
       None \<Rightarrow> Inl (thrown_text ''Control plane returned an invalid workspace startup response'')
     | Some w \<Rightarrow>
         if truthy_field (sup_state w) = None
         then Inl (thrown_text ''Control plane returned an invalid workspace startup response'')
         else Inr w)"

definition web_restart :: "string \<Rightarrow> web_response \<Rightarrow> json fetched" where
  "web_restart workspaceId response =
     sbind (reply_payload ''Operator restart failed'' response) (\<lambda>payload.
     if json_string (field ''workspaceId'' payload) \<noteq> Some workspaceId
       \<or> json_string (field ''state'' payload) \<noteq> Some ''ready''
     then Inl (thrown_text ''Control plane returned an invalid restart response'')
     else Inr payload)"

definition web_operator_runtime :: "web_response \<Rightarrow> json fetched" where
  "web_operator_runtime response =
     sbind (reply_payload ''Operator metadata request failed'' response) (\<lambda>payload.
     if truthy_field (field ''workspaceId'' payload) = None \<or> truthy_field (field ''resources'' payload) = None
     then Inl (thrown_text ''Control plane returned invalid operator metadata'')
     else Inr payload)"

text \<open>The requests the browser sends; the path is the one the server finds in the URL.\<close>

record web_request =
  wrq_method :: string
  wrq_path :: string
  wrq_body :: "json option"

definition organization_body :: "string \<Rightarrow> json" where
  "organization_body organizationId = JsonObject [(''organizationId'', JsonString organizationId)]"

definition personal_request :: "string \<Rightarrow> web_request" where
  "personal_request organizationId =
     \<lparr>wrq_method = ''POST'', wrq_path = ''/api/workspaces/personal'', wrq_body = Some (organization_body organizationId)\<rparr>"

definition running_request :: "string \<Rightarrow> web_request" where
  "running_request organizationId =
     \<lparr>wrq_method = ''POST'', wrq_path = ''/api/workspaces/personal/ensure-running'',
      wrq_body = Some (organization_body organizationId)\<rparr>"

definition restart_request :: "string \<Rightarrow> web_request" where
  "restart_request workspaceId =
     \<lparr>wrq_method = ''POST'', wrq_path = ''/api/workspaces/'' @ encodeURIComponent workspaceId @ ''/restart'', wrq_body = None\<rparr>"

definition operator_request :: "string \<Rightarrow> web_request" where
  "operator_request workspaceId =
     \<lparr>wrq_method = ''GET'', wrq_path = ''/api/workspaces/'' @ encodeURIComponent workspaceId @ ''/operator'', wrq_body = None\<rparr>"

section \<open>The flag of an expired session\<close>

text \<open>The storage of the browser, if there is one, maps keys to texts.\<close>

type_synonym session_storage = "(string \<rightharpoonup> string) option"

definition sessionExpiredStorageKey :: string where
  "sessionExpiredStorageKey = ''nebula.cloud.session-expired''"

definition rememberSessionExpired :: "session_storage \<Rightarrow> session_storage" where
  "rememberSessionExpired = map_option (\<lambda>m. m(sessionExpiredStorageKey \<mapsto> ''true''))"

definition clearSessionExpired :: "session_storage \<Rightarrow> session_storage" where
  "clearSessionExpired = map_option (\<lambda>m. m(sessionExpiredStorageKey := None))"

definition consumeSessionExpired :: "session_storage \<Rightarrow> bool \<times> session_storage" where
  "consumeSessionExpired storage =
     ((case storage of None \<Rightarrow> False | Some m \<Rightarrow> m sessionExpiredStorageKey = Some ''true''), clearSessionExpired storage)"

definition after_response :: "web_response \<Rightarrow> session_storage \<Rightarrow> session_storage" where
  "after_response response storage =
     (if observeAuthenticationResponse response then rememberSessionExpired storage else storage)"

lemma expiry_noticed_once:
  "consumeSessionExpired (after_response r (Some (\<lambda>_. None))) = (wrs_status r = 401, Some (\<lambda>_. None))"
  by (auto simp: consumeSessionExpired_def after_response_def observeAuthenticationResponse_def
      rememberSessionExpired_def clearSessionExpired_def)

section \<open>The start of a workspace\<close>

text \<open>Every call and every notification of a run, with the answer.\<close>

datatype startup_event =
    Resolved "startup_workspace fetched"
  | Ensured "startup_workspace fetched"
  | Probed json "bool fetched"
  | Waited int "unit fetched"
  | Progress startup_stage "json option"

record 'w startup_world =
  suw_aborted :: "'w \<Rightarrow> bool"
  suw_resolve :: "'w \<Rightarrow> startup_workspace fetched \<times> 'w"
  suw_ensure :: "'w \<Rightarrow> startup_workspace fetched \<times> 'w"
  suw_ready :: "json \<Rightarrow> 'w \<Rightarrow> bool fetched \<times> 'w"
  suw_wait :: "int \<Rightarrow> 'w \<Rightarrow> unit fetched \<times> 'w"

record startup_options =
  suo_provisioningPollMs :: int
  suo_provisioningAttempts :: nat
  suo_runtimePollMs :: int
  suo_runtimeAttempts :: nat

definition default_options :: startup_options where
  "default_options = \<lparr>suo_provisioningPollMs = 1000, suo_provisioningAttempts = 90, suo_runtimePollMs = 500,
     suo_runtimeAttempts = 30\<rparr>"

type_synonym ('w, 'a) startup = "('w \<times> startup_event list, thrown_value, 'a) operation"

definition startup_failed :: "startup_stage \<Rightarrow> string \<Rightarrow> thrown_value" where
  "startup_failed stage message = ThrownStartup stage (JsonString message) True"

definition startupError :: "startup_stage \<Rightarrow> string \<Rightarrow> thrown_value \<Rightarrow> thrown_value" where
  "startupError stage fallback e =
     (case e of
        ThrownError message \<Rightarrow> ThrownStartup stage message True
      | ThrownOther \<Rightarrow> ThrownStartup stage (JsonString fallback) True
      | _ \<Rightarrow> e)"

text \<open>A call that is logged, and whose error is thrown as \<open>convert\<close> makes of it.\<close>

definition logged_call ::
  "('a fetched \<Rightarrow> startup_event) \<Rightarrow> (thrown_value \<Rightarrow> thrown_value) \<Rightarrow> ('w \<Rightarrow> 'a fetched \<times> 'w) \<Rightarrow> ('w, 'a) startup"
where
  "logged_call event convert act s =
     (let (a, w) = act (fst s) in (map_sum convert id a, (w, snd s @ [event a])))"

definition report_progress :: "startup_stage \<Rightarrow> json option \<Rightarrow> ('w, unit) startup" where
  "report_progress stage workspaceId s = (Inr (), (fst s, snd s @ [Progress stage workspaceId]))"

definition throwIfAborted :: "'w startup_world \<Rightarrow> ('w, unit) startup" where
  "throwIfAborted W s = ((if suw_aborted W (fst s) then Inl ThrownAbort else Inr ()), s)"

definition resolve_call :: "'w startup_world \<Rightarrow> startup_stage \<Rightarrow> string \<Rightarrow> ('w, startup_workspace) startup" where
  "resolve_call W stage fallback = logged_call Resolved (startupError stage fallback) (suw_resolve W)"

definition wait_call :: "'w startup_world \<Rightarrow> int \<Rightarrow> ('w, unit) startup" where
  "wait_call W ms = logged_call (Waited ms) id (suw_wait W ms)"

text \<open>The first loop, with the refreshes that are left.\<close>

definition unless_failed :: "'w startup_world \<Rightarrow> startup_workspace \<Rightarrow> ('w, 'a) startup \<Rightarrow> ('w, 'a) startup" where
  "unless_failed W workspace continue =
     obind (throwIfAborted W) (\<lambda>_.
     if in_state ''failed'' workspace
     then othrow (startup_failed StageProvisioning ''Provisioning failed. Retry to schedule a fresh attempt.'')
     else continue)"

fun await_provisioned :: "'w startup_world \<Rightarrow> int \<Rightarrow> nat \<Rightarrow> startup_workspace \<Rightarrow> ('w, startup_workspace) startup" where
  "await_provisioned W ms 0 workspace =
     (if in_state ''ready'' workspace then oreturn workspace
      else unless_failed W workspace (othrow (startup_failed StageProvisioning
             ''Provisioning is taking longer than expected. Retry to check again.'')))"
| "await_provisioned W ms (Suc n) workspace =
     (if in_state ''ready'' workspace then oreturn workspace
      else unless_failed W workspace (
        obind (wait_call W ms) (\<lambda>_.
        obind (resolve_call W StageProvisioning ''Workspace provisioning status could not be refreshed.'') (\<lambda>w.
        await_provisioned W ms n w))))"

text \<open>The second loop: an error of a probe that is no abort counts as not ready.\<close>

definition probe_runtime :: "'w startup_world \<Rightarrow> json \<Rightarrow> ('w, bool) startup" where
  "probe_runtime W workspaceId =
     ocatch (logged_call (Probed workspaceId) id (suw_ready W workspaceId))
       (\<lambda>e. if e = ThrownAbort then othrow e else oreturn False)"

fun await_runtime :: "'w startup_world \<Rightarrow> int \<Rightarrow> nat \<Rightarrow> json \<Rightarrow> ('w, json) startup" where
  "await_runtime W ms 0 workspaceId = othrow (startup_failed StageStarting
     ''Nebula was provisioned, but its runtime did not become ready. Retry to reconnect.'')"
| "await_runtime W ms (Suc n) workspaceId =
     obind (throwIfAborted W) (\<lambda>_.
     obind (probe_runtime W workspaceId) (\<lambda>answer.
     if answer
     then obind (report_progress StageReady (Some workspaceId)) (\<lambda>_. oreturn workspaceId)
     else
     obind (if n > 0 then wait_call W ms else oreturn ()) (\<lambda>_.
     await_runtime W ms n workspaceId)))"

definition provision :: "'w startup_world \<Rightarrow> startup_options \<Rightarrow> startup_workspace \<Rightarrow> ('w, startup_workspace) startup" where
  "provision W opts workspace =
     (if in_state ''ready'' workspace then oreturn workspace
      else
      obind (report_progress StageProvisioning (Some (sup_id workspace))) (\<lambda>_.
      obind (logged_call Ensured (startupError StageProvisioning ''Your personal workspace could not be provisioned.'')
        (suw_ensure W)) (\<lambda>scheduled.
      await_provisioned W (suo_provisioningPollMs opts) (suo_provisioningAttempts opts) scheduled)))"

definition startPersonalWorkspace :: "'w startup_world \<Rightarrow> startup_options \<Rightarrow> ('w, json) startup" where
  "startPersonalWorkspace W opts =
     obind (throwIfAborted W) (\<lambda>_.
     obind (report_progress StageResolving None) (\<lambda>_.
     obind (resolve_call W StageResolving ''Your personal workspace could not be resolved.'') (\<lambda>found.
     obind (throwIfAborted W) (\<lambda>_.
     obind (provision W opts found) (\<lambda>workspace.
     obind (report_progress StageStarting (Some (sup_id workspace))) (\<lambda>_.
     await_runtime W (suo_runtimePollMs opts) (suo_runtimeAttempts opts) (sup_id workspace)))))))"

section \<open>How often the server is asked\<close>

definition tally :: "(startup_event \<Rightarrow> bool) \<Rightarrow> startup_event list \<Rightarrow> nat" where
  "tally P es = length (filter P es)"

fun is_resolved :: "startup_event \<Rightarrow> bool" where
  "is_resolved (Resolved a) = True" | "is_resolved _ = False"

fun is_ensured :: "startup_event \<Rightarrow> bool" where
  "is_ensured (Ensured a) = True" | "is_ensured _ = False"

fun is_probed :: "startup_event \<Rightarrow> bool" where
  "is_probed (Probed i a) = True" | "is_probed _ = False"

fun is_waited :: "startup_event \<Rightarrow> bool" where
  "is_waited (Waited ms a) = True" | "is_waited _ = False"

text \<open>An operation that only appends to the log, at most so many events of one kind.\<close>

definition spends :: "(startup_event \<Rightarrow> bool) \<Rightarrow> nat \<Rightarrow> ('w, 'a) startup \<Rightarrow> bool" where
  "spends P n m \<longleftrightarrow> (\<forall>s. \<exists>es. snd (snd (m s)) = snd s @ es \<and> tally P es \<le> n)"

lemma spends_pure [simp]: "spends P n (oreturn x)" "spends P n (othrow e)" "spends P n (throwIfAborted W)"
  by (simp_all add: spends_def oreturn_def othrow_def throwIfAborted_def tally_def)

lemma spends_progress: "(\<And>stage i. \<not> P (Progress stage i)) \<Longrightarrow> spends P n (report_progress stage i)"
  by (simp add: spends_def report_progress_def tally_def)

lemma spends_call: "(\<And>a. P (event a) \<Longrightarrow> 1 \<le> n) \<Longrightarrow> spends P n (logged_call event convert act)"
  by (auto simp: spends_def logged_call_def tally_def split: prod.splits)

lemma spends_mono: "spends P n m \<Longrightarrow> n \<le> k \<Longrightarrow> spends P k m"
  unfolding spends_def by (meson le_trans)

lemma spends_obind:
  assumes "spends P a m" and "\<And>x. spends P b (f x)"
  shows "spends P (a + b) (obind m f)"
  unfolding spends_def
proof
  fix s
  obtain r t where m: "m s = (r, t)" by (cases "m s")
  obtain es where es: "snd t = snd s @ es" "tally P es \<le> a" using assms(1) m unfolding spends_def by (metis snd_conv)
  show "\<exists>es. snd (snd (obind m f s)) = snd s @ es \<and> tally P es \<le> a + b"
  proof (cases r)
    case (Inl e)
    with m es show ?thesis by (intro exI [of _ es]) (simp add: obind_def)
  next
    case (Inr x)
    obtain fs where "snd (snd (f x t)) = snd t @ fs" "tally P fs \<le> b" using assms(2) [of x] unfolding spends_def by blast
    with m es Inr show ?thesis by (intro exI [of _ "es @ fs"]) (simp add: obind_def tally_def)
  qed
qed

lemma spends_ocatch:
  assumes "spends P a m" and "\<And>e. spends P 0 (h e)"
  shows "spends P a (ocatch m h)"
  unfolding spends_def
proof
  fix s
  obtain r t where m: "m s = (r, t)" by (cases "m s")
  obtain es where es: "snd t = snd s @ es" "tally P es \<le> a" using assms(1) m unfolding spends_def by (metis snd_conv)
  show "\<exists>es. snd (snd (ocatch m h s)) = snd s @ es \<and> tally P es \<le> a"
  proof (cases r)
    case (Inl e)
    obtain fs where "snd (snd (h e t)) = snd t @ fs" "tally P fs \<le> 0" using assms(2) [of e] unfolding spends_def by blast
    with m es Inl show ?thesis by (intro exI [of _ "es @ fs"]) (simp add: ocatch_def tally_def)
  next
    case (Inr x)
    with m es show ?thesis by (intro exI [of _ es]) (simp add: ocatch_def)
  qed
qed

text \<open>The price of the two loops, from the price of a wait, a refresh and a probe.\<close>

lemma spends_unless: "spends P n m \<Longrightarrow> spends P n (unless_failed W w m)"
  unfolding unless_failed_def by (rule spends_obind [where a = 0, simplified]) simp_all

lemma spends_provisioned:
  assumes wait: "\<And>ms. spends P a (wait_call W ms)"
    and resolve: "\<And>stage fallback. spends P b (resolve_call W stage fallback)"
  shows "spends P (n * (a + b)) (await_provisioned W ms n w)"
proof (induction n arbitrary: w)
  case 0
  show ?case by (simp add: spends_unless)
next
  case (Suc n)
  have "spends P (a + (b + n * (a + b))) (obind (wait_call W ms) (\<lambda>_. obind (resolve_call W StageProvisioning
      ''Workspace provisioning status could not be refreshed.'') (await_provisioned W ms n)))"
    by (intro spends_obind wait resolve Suc.IH)
  then show ?case by (simp add: spends_unless algebra_simps)
qed

lemma spends_runtime:
  assumes wait: "\<And>ms. spends P a (wait_call W ms)" and probe: "\<And>i. spends P b (probe_runtime W i)"
    and progress: "\<And>stage i. \<not> P (Progress stage i)"
  shows "spends P (n * b + (n - 1) * a) (await_runtime W ms n i)"
proof (induction n)
  case 0
  show ?case by simp
next
  case (Suc n)
  have waiting: "spends P (if n > 0 then a else 0) (if n > 0 then wait_call W ms else oreturn ())"
    by (simp add: wait)
  have ready: "spends P (0 + 0) (obind (report_progress StageReady (Some i)) (\<lambda>_. oreturn i))"
    by (intro spends_obind spends_progress progress) simp
  have again: "spends P ((if n > 0 then a else 0) + (n * b + (n - 1) * a))
      (obind (if n > 0 then wait_call W ms else oreturn ()) (\<lambda>_. await_runtime W ms n i))"
    by (intro spends_obind waiting Suc.IH)
  have branch: "spends P ((if n > 0 then a else 0) + (n * b + (n - 1) * a))
      (if answer then obind (report_progress StageReady (Some i)) (\<lambda>_. oreturn i)
       else obind (if n > 0 then wait_call W ms else oreturn ()) (\<lambda>_. await_runtime W ms n i))" for answer
    by (cases answer; simp only: if_True if_False; (rule again | rule spends_mono [OF ready]; simp))
  have "spends P (0 + (b + ((if n > 0 then a else 0) + (n * b + (n - 1) * a)))) (await_runtime W ms (Suc n) i)"
    unfolding await_runtime.simps by (intro spends_obind probe branch) simp
  then show ?case by (cases n) (simp_all add: algebra_simps)
qed

lemma spends_start:
  assumes wait: "\<And>ms. spends P a (wait_call W ms)"
    and resolve: "\<And>stage fallback. spends P b (resolve_call W stage fallback)"
    and ensure: "\<And>convert. spends P c (logged_call Ensured convert (suw_ensure W))"
    and probe: "\<And>i. spends P d (probe_runtime W i)"
    and progress: "\<And>stage i. \<not> P (Progress stage i)"
  shows "spends P (b + (c + suo_provisioningAttempts opts * (a + b))
      + (suo_runtimeAttempts opts * d + (suo_runtimeAttempts opts - 1) * a)) (startPersonalWorkspace W opts)"
proof -
  let ?n = "suo_provisioningAttempts opts"
  have "spends P (0 + (c + ?n * (a + b))) (obind (report_progress StageProvisioning i) (\<lambda>_.
      obind (logged_call Ensured convert (suw_ensure W)) (await_provisioned W ms ?n)))" for i convert ms
    by (intro spends_obind spends_progress progress ensure spends_provisioned wait resolve)
  then have provision: "spends P (c + ?n * (a + b)) (provision W opts w)" for w
    by (simp add: provision_def)
  have "spends P (0 + (0 + (b + (0 + ((c + ?n * (a + b)) + (0 + (suo_runtimeAttempts opts * d + (suo_runtimeAttempts opts - 1) * a)))))))
      (startPersonalWorkspace W opts)"
    unfolding startPersonalWorkspace_def
    by (intro spends_obind spends_progress progress resolve provision spends_runtime wait probe spends_pure)
  then show ?thesis by (simp add: add.assoc)
qed

lemma spends_run:
  assumes "spends P n m" and "m (w, []) = (r, (w', es))"
  shows "tally P es \<le> n"
  using assms unfolding spends_def by (metis append_Nil snd_conv)

lemma spends_probe: "(\<And>i a. P (Probed i a) \<Longrightarrow> 1 \<le> n) \<Longrightarrow> spends P n (probe_runtime W i)"
  unfolding probe_runtime_def by (intro spends_ocatch spends_call) simp_all

lemma spends_wait: "(\<And>a. P (Waited ms a) \<Longrightarrow> 1 \<le> n) \<Longrightarrow> spends P n (wait_call W ms)"
  and spends_resolve: "(\<And>a. P (Resolved a) \<Longrightarrow> 1 \<le> n) \<Longrightarrow> spends P n (resolve_call W stage fallback)"
  unfolding wait_call_def resolve_call_def by (rule spends_call, simp)+

lemmas spends_calls = spends_wait spends_resolve spends_probe spends_call

section \<open>What a successful start has seen\<close>

text \<open>The workspaces the server reported.\<close>

fun reports :: "startup_event \<Rightarrow> startup_workspace list" where
  "reports (Resolved (Inr w)) = [w]"
| "reports (Ensured (Inr w)) = [w]"
| "reports _ = []"

definition reported :: "startup_event list \<Rightarrow> startup_workspace list" where
  "reported es = concat (map reports es)"

lemma reported_simps [simp]:
  "reported [] = []" "reported (e # es) = reports e @ reported es" "reported (es @ fs) = reported es @ reported fs"
  by (simp_all add: reported_def)

lemma logged_call_Inr:
  assumes "logged_call event convert act s = (Inr x, t)"
  shows "snd t = snd s @ [event (Inr x)]"
proof -
  obtain a w where act: "act (fst s) = (a, w)" by fastforce
  with assms have "a = Inr x" by (cases a) (simp_all add: logged_call_def)
  with act assms show ?thesis by (auto simp: logged_call_def)
qed

lemma unless_failed_Inr:
  assumes "unless_failed W w m s = (Inr x, t)"
  shows "m s = (Inr x, t)"
  using assms by (auto simp: unless_failed_def throwIfAborted_def split: if_splits)

lemma report_progress_Inr: "report_progress stage i s = (Inr x, t) \<longleftrightarrow> t = (fst s, snd s @ [Progress stage i])"
  by (auto simp: report_progress_def)

lemma provisioned_Inr:
  assumes "await_provisioned W ms n w s = (Inr v, t)"
  shows "in_state ''ready'' v \<and> (\<exists>es. snd t = snd s @ es \<and> last (w # reported es) = v)"
  using assms
proof (induction n arbitrary: w s)
  case 0
  have ready: "in_state ''ready'' w"
  proof (rule ccontr)
    assume "\<not> in_state ''ready'' w"
    with 0 have "unless_failed W w (othrow (startup_failed StageProvisioning
        ''Provisioning is taking longer than expected. Retry to check again.'')) s = (Inr v, t)" by simp
    then show False by (auto dest!: unless_failed_Inr simp: othrow_def)
  qed
  with 0 have "v = w" "t = s" by simp_all
  with ready show ?case by (intro conjI exI [of _ "[]"]) simp_all
next
  case (Suc n)
  show ?case
  proof (cases "in_state ''ready'' w")
    case True
    with Suc.prems show ?thesis by simp
  next
    case False
    with Suc.prems have "unless_failed W w (obind (wait_call W ms) (\<lambda>_.
        obind (resolve_call W StageProvisioning ''Workspace provisioning status could not be refreshed.'')
          (await_provisioned W ms n))) s = (Inr v, t)" by simp
    then obtain s1 s2 u where s1: "wait_call W ms s = (Inr (), s1)"
      and s2: "resolve_call W StageProvisioning ''Workspace provisioning status could not be refreshed.'' s1 = (Inr u, s2)"
      and rest: "await_provisioned W ms n u s2 = (Inr v, t)"
      by (auto dest!: unless_failed_Inr)
    have "snd s1 = snd s @ [Waited ms (Inr ())]" using logged_call_Inr [OF s1 [unfolded wait_call_def]] .
    moreover have "snd s2 = snd s1 @ [Resolved (Inr u)]" using logged_call_Inr [OF s2 [unfolded resolve_call_def]] .
    moreover obtain es where "snd t = snd s2 @ es" "last (u # reported es) = v" "in_state ''ready'' v"
      using Suc.IH [OF rest] by blast
    ultimately show ?thesis
      by (intro conjI exI [of _ "[Waited ms (Inr ()), Resolved (Inr u)] @ es"]) simp_all
  qed
qed

lemma probe_runtime_event:
  assumes "probe_runtime W i s = (Inr b, t)"
  shows "\<exists>a. snd t = snd s @ [Probed i a] \<and> (b \<longrightarrow> a = Inr True)"
proof -
  obtain a w where act: "suw_ready W i (fst s) = (a, w)" by fastforce
  with assms show ?thesis
    by (cases a) (auto simp: probe_runtime_def ocatch_def logged_call_def operation_defs split: if_splits)
qed

lemma runtime_Inr:
  assumes "await_runtime W ms n i s = (Inr j, t)"
  shows "j = i \<and> (\<exists>es. snd t = snd s @ es @ [Probed i (Inr True), Progress StageReady (Some i)] \<and> reported es = [])"
  using assms
proof (induction n arbitrary: s)
  case 0
  then show ?case by simp
next
  case (Suc n)
  then obtain s1 b where s1: "probe_runtime W i s = (Inr b, s1)"
    and rest: "(if b then obind (report_progress StageReady (Some i)) (\<lambda>_. oreturn i)
        else obind (if n > 0 then wait_call W ms else oreturn ()) (\<lambda>_. await_runtime W ms n i)) s1 = (Inr j, t)"
    by (auto simp: throwIfAborted_def split: if_split_asm)
  obtain a where a: "snd s1 = snd s @ [Probed i a]" "b \<longrightarrow> a = Inr True" using probe_runtime_event [OF s1] by blast
  show ?case
  proof (cases b)
    case True
    with rest a show ?thesis by (auto simp: report_progress_Inr intro: exI [of _ "[]"])
  next
    case False
    with rest obtain s2 u where s2: "(if n > 0 then wait_call W ms else oreturn ()) s1 = (Inr u, s2)"
      and more: "await_runtime W ms n i s2 = (Inr j, t)" by (auto simp del: operation_eq_Inr)
    have "\<exists>ws. snd s2 = snd s1 @ ws \<and> reported ws = []"
      using s2 logged_call_Inr [of "Waited ms" id "suw_wait W ms" s1 u s2]
      by (cases "n > 0") (auto simp: wait_call_def)
    then obtain ws where "snd s2 = snd s1 @ ws" "reported ws = []" by blast
    moreover obtain es where "j = i" "snd t = snd s2 @ es @ [Probed i (Inr True), Progress StageReady (Some i)]"
      "reported es = []" using Suc.IH [OF more] by blast
    ultimately show ?thesis using a(1)
      by (intro conjI exI [of _ "Probed i a # ws @ es"]) simp_all
  qed
qed

lemma provision_Inr:
  assumes "provision W opts w s = (Inr v, t)"
  shows "in_state ''ready'' v \<and> (\<exists>es. snd t = snd s @ es \<and> last (w # reported es) = v)"
proof (cases "in_state ''ready'' w")
  case True
  with assms show ?thesis by (auto simp: provision_def)
next
  case False
  with assms obtain u s1 where
    s1: "logged_call Ensured (startupError StageProvisioning ''Your personal workspace could not be provisioned.'')
        (suw_ensure W) (fst s, snd s @ [Progress StageProvisioning (Some (sup_id w))]) = (Inr u, s1)"
    and rest: "await_provisioned W (suo_provisioningPollMs opts) (suo_provisioningAttempts opts) u s1 = (Inr v, t)"
    by (auto simp: provision_def report_progress_Inr)
  obtain es where "snd t = snd s1 @ es" "last (u # reported es) = v" "in_state ''ready'' v"
    using provisioned_Inr [OF rest] by blast
  moreover have "snd s1 = snd s @ [Progress StageProvisioning (Some (sup_id w)), Ensured (Inr u)]"
    using logged_call_Inr [OF s1] by simp
  ultimately show ?thesis
    by (intro conjI exI [of _ "[Progress StageProvisioning (Some (sup_id w)), Ensured (Inr u)] @ es"]) simp_all
qed

section \<open>Properties\<close>

text \<open>C38: Starting a workspace ends, and asks the server a bounded number of times: the workspace is looked up at most
  once and then once per provisioning attempt, its start is requested at most once, the runtime is probed at most once
  per attempt, and there is at most one wait per attempt.\<close>

theorem startup_calls_bounded:
  assumes "startPersonalWorkspace W opts (w, []) = (r, (w', es))"
  shows "tally is_resolved es \<le> 1 + suo_provisioningAttempts opts \<and> tally is_ensured es \<le> 1
    \<and> tally is_probed es \<le> suo_runtimeAttempts opts
    \<and> tally is_waited es \<le> suo_provisioningAttempts opts + (suo_runtimeAttempts opts - 1)"
proof -
  have "spends is_resolved (1 + (0 + suo_provisioningAttempts opts * (0 + 1))
      + (suo_runtimeAttempts opts * 0 + (suo_runtimeAttempts opts - 1) * 0)) (startPersonalWorkspace W opts)"
    by (rule spends_start; (rule spends_calls)?; simp)
  moreover have "spends is_ensured (0 + (1 + suo_provisioningAttempts opts * (0 + 0))
      + (suo_runtimeAttempts opts * 0 + (suo_runtimeAttempts opts - 1) * 0)) (startPersonalWorkspace W opts)"
    by (rule spends_start; (rule spends_calls)?; simp)
  moreover have "spends is_probed (0 + (0 + suo_provisioningAttempts opts * (0 + 0))
      + (suo_runtimeAttempts opts * 1 + (suo_runtimeAttempts opts - 1) * 0)) (startPersonalWorkspace W opts)"
    by (rule spends_start; (rule spends_calls)?; simp)
  moreover have "spends is_waited (0 + (0 + suo_provisioningAttempts opts * (1 + 0))
      + (suo_runtimeAttempts opts * 0 + (suo_runtimeAttempts opts - 1) * 1)) (startPersonalWorkspace W opts)"
    by (rule spends_start; (rule spends_calls)?; simp)
  moreover have "tally P es \<le> n" if "spends P n (startPersonalWorkspace W opts)" for P n
    using that assms by (rule spends_run)
  ultimately show ?thesis by fastforce
qed

text \<open>C37: A start succeeds only with what the user may use: the returned workspace is the one the server reported last,
  that report said it is ready, and the last thing that happened is that its own runtime answered ready.\<close>

theorem started_workspace_answers:
  assumes "startPersonalWorkspace W opts (w, []) = (Inr i, (w', es))"
  shows "\<exists>before v. es = before @ [Probed i (Inr True), Progress StageReady (Some i)]
    \<and> reported before \<noteq> [] \<and> last (reported before) = v \<and> sup_id v = i \<and> in_state ''ready'' v"
proof -
  obtain found s1 v s2 where
    s1: "resolve_call W StageResolving ''Your personal workspace could not be resolved.'' (w, [Progress StageResolving None])
      = (Inr found, s1)"
    and s2: "provision W opts found s1 = (Inr v, s2)"
    and rest: "await_runtime W (suo_runtimePollMs opts) (suo_runtimeAttempts opts) (sup_id v)
        (fst s2, snd s2 @ [Progress StageStarting (Some (sup_id v))]) = (Inr i, (w', es))"
    using assms by (auto simp: startPersonalWorkspace_def throwIfAborted_def report_progress_Inr split: if_split_asm)
  have "snd s1 = [Progress StageResolving None, Resolved (Inr found)]"
    using logged_call_Inr [OF s1 [unfolded resolve_call_def]] by simp
  moreover obtain fs where "in_state ''ready'' v" "snd s2 = snd s1 @ fs" "last (found # reported fs) = v"
    using provision_Inr [OF s2] by blast
  moreover obtain gs where "i = sup_id v" "reported gs = []"
    "es = snd s2 @ [Progress StageStarting (Some (sup_id v))] @ gs @ [Probed i (Inr True), Progress StageReady (Some i)]"
    using runtime_Inr [OF rest] by auto
  ultimately show ?thesis
    by (intro exI [of _ "snd s2 @ [Progress StageStarting (Some (sup_id v))] @ gs"] exI [of _ v]) simp
qed

section \<open>A world that comes up\<close>

text \<open>
  The server reports the workspace \<open>i\<close> ready from its \<open>k\<close>-th lookup on, counted from 0, and its runtime answers from
  the \<open>m\<close>-th probe on; nothing fails and nobody aborts. The state counts lookups and probes.
\<close>

definition rising_world :: "json \<Rightarrow> nat \<Rightarrow> nat \<Rightarrow> (nat \<times> nat) startup_world" where
  "rising_world i k m =
     \<lparr>suw_aborted = (\<lambda>_. False),
      suw_resolve = (\<lambda>(c, p). (Inr \<lparr>sup_id = i, sup_state = Some (JsonString (if k \<le> c then ''ready'' else ''provisioning''))\<rparr>,
        (Suc c, p))),
      suw_ensure = (\<lambda>w. (Inr \<lparr>sup_id = i, sup_state = Some (JsonString ''provisioning'')\<rparr>, w)),
      suw_ready = (\<lambda>_ (c, p). (Inr (m \<le> p), (c, Suc p))),
      suw_wait = (\<lambda>_ w. (Inr (), w))\<rparr>"

definition risen :: "json \<Rightarrow> bool \<Rightarrow> startup_workspace" where
  "risen i up = \<lparr>sup_id = i, sup_state = Some (JsonString (if up then ''ready'' else ''provisioning''))\<rparr>"

lemma risen_state [simp]: "in_state ''ready'' (risen i up) = up" "in_state ''failed'' (risen i up) = False" "sup_id (risen i up) = i"
  by (simp_all add: risen_def in_state_def)

lemma rising_calls:
  "throwIfAborted (rising_world i k m) s = (Inr (), s)"
  "resolve_call (rising_world i k m) stage fallback ((c, p), es) = (Inr (risen i (k \<le> c)), ((Suc c, p), es @ [Resolved (Inr (risen i (k \<le> c)))]))"
  "wait_call (rising_world i k m) ms s = (Inr (), (fst s, snd s @ [Waited ms (Inr ())]))"
  "logged_call Ensured convert (suw_ensure (rising_world i k m)) s
     = (Inr (risen i False), (fst s, snd s @ [Ensured (Inr (risen i False))]))"
  "probe_runtime (rising_world i k m) j ((c, p), es) = (Inr (m \<le> p), ((c, Suc p), es @ [Probed j (Inr (m \<le> p))]))"
  by (simp_all add: rising_world_def risen_def throwIfAborted_def resolve_call_def wait_call_def logged_call_def
      probe_runtime_def ocatch_def)

lemma rising_provisioned:
  assumes "c \<le> k" and "k < c + n"
  shows "\<exists>es'. await_provisioned (rising_world i k m) ms n (risen i False) ((c, p), es) = (Inr (risen i True), ((Suc k, p), es'))"
  using assms
proof (induction n arbitrary: c es)
  case (Suc n)
  show ?case
  proof (cases "k = c")
    case True
    then show ?thesis by (cases n) (simp_all add: unless_failed_def obind_def rising_calls oreturn_def)
  next
    case False
    with Suc.IH [of "Suc c"] Suc.prems show ?thesis by (simp add: unless_failed_def obind_def rising_calls)
  qed
qed simp

lemma rising_runtime:
  assumes "p \<le> m" and "m < p + n"
  shows "\<exists>t. await_runtime (rising_world i k m) ms n j ((c, p), es) = (Inr j, t)"
  using assms
proof (induction n arbitrary: p es)
  case (Suc n)
  show ?case
  proof (cases "m = p")
    case True
    then show ?thesis by (simp add: obind_def rising_calls report_progress_def oreturn_def)
  next
    case False
    with Suc.prems have "0 < n" by simp
    with Suc.IH [of "Suc p"] Suc.prems False show ?thesis by (simp add: obind_def rising_calls)
  qed
qed simp

text \<open>When the workspace becomes ready within the provisioning attempts and its runtime answers within the runtime
  attempts, the start succeeds.\<close>

theorem startup_succeeds_in_time:
  assumes "k \<le> suo_provisioningAttempts opts" and "m < suo_runtimeAttempts opts"
  shows "fst (startPersonalWorkspace (rising_world i k m) opts ((0, 0), [])) = Inr i"
proof -
  have runtime: "\<exists>t. await_runtime (rising_world i k m) (suo_runtimePollMs opts) (suo_runtimeAttempts opts) i ((c, 0), es)
      = (Inr i, t)" for c es
    using rising_runtime [of 0 m] assms(2) by simp
  have "\<exists>c es'. provision (rising_world i k m) opts (risen i (k \<le> 0)) ((Suc 0, 0), es) = (Inr (risen i True), ((c, 0), es'))" for es
  proof (cases k)
    case 0
    then show ?thesis by (simp add: provision_def oreturn_def)
  next
    case (Suc d)
    obtain es' where "await_provisioned (rising_world i k m) (suo_provisioningPollMs opts) (suo_provisioningAttempts opts)
        (risen i False) ((Suc 0, 0), es @ [Progress StageProvisioning (Some i), Ensured (Inr (risen i False))])
        = (Inr (risen i True), ((Suc k, 0), es'))"
      using rising_provisioned [of "Suc 0" k "suo_provisioningAttempts opts" i m "suo_provisioningPollMs opts" 0] assms(1) Suc
      by auto
    then show ?thesis using Suc by (simp add: provision_def obind_def rising_calls report_progress_def)
  qed
  then obtain c es' where "provision (rising_world i k m) opts (risen i (k \<le> 0))
      ((Suc 0, 0), [Progress StageResolving None, Resolved (Inr (risen i (k \<le> 0)))]) = (Inr (risen i True), ((c, 0), es'))"
    by blast
  moreover obtain t where "await_runtime (rising_world i k m) (suo_runtimePollMs opts) (suo_runtimeAttempts opts) i
      ((c, 0), es' @ [Progress StageStarting (Some i)]) = (Inr i, t)" using runtime by blast
  ultimately show ?thesis
    by (simp add: startPersonalWorkspace_def obind_def rising_calls report_progress_def)
qed

section \<open>The browser and the server\<close>

lemma split_on_append:
  "c \<notin> set e \<Longrightarrow> split_on c (e @ c # xs) = e # split_on c xs"
  by (induction e) auto

lemma split_on_fresh: "c \<notin> set e \<Longrightarrow> split_on c e = [e]"
  by (induction e) auto

lemma hex_digit_no_slash:
  assumes "n < 16"
  shows "hex_digit n \<noteq> CHR ''/''"
proof
  assume "hex_digit n = CHR ''/''"
  then have "(of_char (hex_digit n) :: nat) = 47" by simp
  with assms show False by (simp add: hex_digit_def split: if_splits)
qed

lemma utf8_bytes_small: "b \<in> set (utf8_bytes c) \<Longrightarrow> b < 256"
proof -
  assume b: "b \<in> set (utf8_bytes c)"
  have "(of_char c :: nat) < 256" by (rule nat_of_char_less_256)
  then have "(of_char c :: nat) div 64 < 4" by linarith
  with b show ?thesis by (auto simp: utf8_bytes_def Let_def split: if_splits)
qed

lemma encoded_no_slash: "CHR ''/'' \<notin> set (encodeURIComponent s)"
proof
  assume "CHR ''/'' \<in> set (encodeURIComponent s)"
  moreover have "\<not> uri_unreserved CHR ''/''" by code_simp
  ultimately obtain c b where "b \<in> set (utf8_bytes c)" "CHR ''/'' \<in> {CHR ''%'', hex_digit (b div 16), hex_digit (b mod 16)}"
    by (auto simp: encodeURIComponent_def split: if_splits)
  moreover from this have "b div 16 < 16" "b mod 16 < 16" using utf8_bytes_small [of b c] by simp_all
  ultimately show False using hex_digit_no_slash [of "b div 16"] hex_digit_no_slash [of "b mod 16"] by auto
qed

definition workspace_call :: "string \<Rightarrow> string \<Rightarrow> string" where
  "workspace_call i leaf = ''/api/workspaces/'' @ encodeURIComponent i @ CHR ''/'' # leaf"

lemma workspace_call_segments:
  assumes "CHR ''/'' \<notin> set leaf"
  shows "segments (workspace_call i leaf) = [[], ''api'', ''workspaces'', encodeURIComponent i, leaf]"
  using assms encoded_no_slash [of i]
  by (simp add: segments_def workspace_call_def split_on_append split_on_fresh)

lemma workspace_call_routes:
  assumes "leaf = ''restart'' \<or> leaf = ''operator''" and "encodeURIComponent i \<noteq> []"
  shows "published_match (workspace_call i leaf) = None" "publication_match (workspace_call i leaf) = None"
    "contact_member (workspace_call i leaf) = None" "entitlement_match (workspace_call i leaf) = None"
    "revocation_match (workspace_call i leaf) = None" "control_member (workspace_call i leaf) = None"
    "worker_member (workspace_call i leaf) = None" "invitation_match (workspace_call i leaf) = None"
    "organization_match (workspace_call i leaf) = None" "usage_match (workspace_call i leaf) = None"
    "workspace_match leaf (workspace_call i leaf) = Some (encodeURIComponent i)"
    "leaf = ''restart'' \<Longrightarrow> workspace_match ''operator'' (workspace_call i leaf) = None"
proof -
  have "CHR ''/'' \<notin> set leaf" using assms(1) by auto
  note seg = workspace_call_segments [OF this, of i]
  show "published_match (workspace_call i leaf) = None" by (simp add: published_match_def seg)
  show "publication_match (workspace_call i leaf) = None" using assms(1) by (auto simp: publication_match_def seg)
  show "contact_member (workspace_call i leaf) = None" by (simp add: contact_member_def seg)
  show "entitlement_match (workspace_call i leaf) = None" by (simp add: entitlement_match_def seg)
  show "revocation_match (workspace_call i leaf) = None" by (simp add: revocation_match_def seg)
  show "control_member (workspace_call i leaf) = None" by (simp add: control_member_def seg)
  show "worker_member (workspace_call i leaf) = None" by (simp add: worker_member_def seg)
  show "invitation_match (workspace_call i leaf) = None" by (simp add: invitation_match_def seg)
  show "organization_match (workspace_call i leaf) = None" by (simp add: organization_match_def seg)
  show "usage_match (workspace_call i leaf) = None" by (simp add: usage_match_def seg)
  show "workspace_match leaf (workspace_call i leaf) = Some (encodeURIComponent i)"
    using assms(2) by (simp add: workspace_match_def seg)
  show "leaf = ''restart'' \<Longrightarrow> workspace_match ''operator'' (workspace_call i leaf) = None"
    using seg by (auto simp: workspace_match_def)
qed

lemma workspace_call_differs:
  "workspace_call i leaf \<noteq> ''/api/webhooks/stripe''" "workspace_call i leaf \<noteq> ''/api/webhooks/resend''"
  "workspace_call i leaf \<noteq> ''/api/contact''" "workspace_call i leaf \<noteq> ''/internal/v1/contact-requests''"
  "workspace_call i leaf \<noteq> ''/internal/v1/contact-requests/export.csv''"
  "workspace_call i leaf \<noteq> ''/internal/v1/platform-controls''" "workspace_call i leaf \<noteq> ''/internal/v1/workers''"
  "take 10 (workspace_call i leaf) \<noteq> ''/api/auth/''" "workspace_call i leaf \<noteq> ''/api/plan-accounts''"
  "workspace_call i leaf \<noteq> ''/api/organizations/join''" "workspace_call i leaf \<noteq> ''/api/usage''"
  by (simp_all add: workspace_call_def)

lemma personal_differs:
  assumes "leaf = ''restart'' \<or> leaf = ''operator''"
  shows "workspace_call i leaf \<notin> {''/api/workspaces/personal'', ''/api/workspaces/personal/ensure-running''}"
proof -
  have "CHR ''/'' \<notin> set leaf" using assms by auto
  note seg = workspace_call_segments [OF this, of i]
  have "segments ''/api/workspaces/personal'' = [[], ''api'', ''workspaces'', ''personal'']"
    "segments ''/api/workspaces/personal/ensure-running'' = [[], ''api'', ''workspaces'', ''personal'', ''ensure-running'']"
    by code_simp+
  with seg assms show ?thesis by auto
qed


section \<open>The properties on concrete runs\<close>

definition quick_options :: startup_options where
  "quick_options = \<lparr>suo_provisioningPollMs = 10, suo_provisioningAttempts = 2, suo_runtimePollMs = 5, suo_runtimeAttempts = 2\<rparr>"

definition quick_world :: "(nat \<times> nat) startup_world" where
  "quick_world = rising_world (JsonString ''w1'') 1 1"

lemma quick_run:
  "fst (startPersonalWorkspace quick_world quick_options ((0, 0), [])) = Inr (JsonString ''w1'')"
  "tally is_resolved (snd (snd (startPersonalWorkspace quick_world quick_options ((0, 0), [])))) = 2"
  by code_simp+

theorem startup_calls_bounded_witness:
  "\<exists>r w es. startPersonalWorkspace quick_world quick_options ((0, 0), []) = (r, (w, es))
     \<and> tally is_resolved es = 2 \<and> tally is_ensured es \<le> 1 \<and> tally is_probed es \<le> 2"
proof -
  obtain r w es where run: "startPersonalWorkspace quick_world quick_options ((0, 0), []) = (r, (w, es))"
    using prod.exhaust by metis
  with startup_calls_bounded [OF run] quick_run(2) show ?thesis by (simp add: quick_options_def)
qed

theorem started_workspace_answers_witness:
  "\<exists>w es. startPersonalWorkspace quick_world quick_options ((0, 0), []) = (Inr (JsonString ''w1''), (w, es))
     \<and> (\<exists>before. es = before @ [Probed (JsonString ''w1'') (Inr True), Progress StageReady (Some (JsonString ''w1''))])"
proof -
  obtain w es where run: "startPersonalWorkspace quick_world quick_options ((0, 0), []) = (Inr (JsonString ''w1''), (w, es))"
    using quick_run(1) by (metis prod.collapse)
  with started_workspace_answers [OF run] show ?thesis by blast
qed

theorem startup_succeeds_in_time_witness:
  "fst (startPersonalWorkspace (rising_world (JsonString ''w1'') 90 29) default_options ((0, 0), [])) = Inr (JsonString ''w1'')"
  by (rule startup_succeeds_in_time) (simp_all add: default_options_def)

definition restart_post :: http_request where
  "restart_post = (sample_post (wrq_path (restart_request ''w 1/2'')))"


end
