(* ===== verification/Mail.thy ===== *)
theory Mail
  imports Server Emails
begin

text \<open>
  The mails of the system: the templates and the Resend transport of \<open>packages/auth/src/index.ts\<close>, the sender
  that keeps the diagnostics (\<open>diagnosticEmailSender.ts\<close>), and who may sign up (\<open>signUpPolicy.ts\<close> and the hook of
  \<open>createCloudAuth\<close>).

  The network and the keyed digest are parameters; the text of an HTML mail is composed line by line.
\<close>

section \<open>HTML\<close>

text \<open>\<open>replaceAll\<close> of one character.\<close>

definition replace_char :: "char \<Rightarrow> string \<Rightarrow> string \<Rightarrow> string" where
  "replace_char c replacement s = concat (map (\<lambda>x. if x = c then replacement else [x]) s)"

definition double_quote :: char where
  "double_quote = CHR 0x22"

definition single_quote :: char where
  "single_quote = CHR 0x27"

definition escapeHTML :: "string \<Rightarrow> string" where
  "escapeHTML value =
     replace_char single_quote ''&#039;'' (replace_char double_quote ''&quot;''
       (replace_char CHR ''>'' ''&gt;'' (replace_char CHR ''<'' ''&lt;'' (replace_char CHR ''&'' ''&amp;'' value))))"

definition attribute :: "string \<Rightarrow> string \<Rightarrow> string" where
  "attribute name value = '' '' @ name @ ''='' @ [double_quote] @ value @ [double_quote]"

definition new_line :: string where
  "new_line = [CHR 0x0A]"

record email_document =
  edc_preview :: string
  edc_heading :: string
  edc_body :: string
  edc_action :: string
  edc_url :: string

definition emailDocument :: "email_document \<Rightarrow> string" where
  "emailDocument d =
     (let preview = escapeHTML (edc_preview d); heading = escapeHTML (edc_heading d); body = escapeHTML (edc_body d);
          action = escapeHTML (edc_action d); url = escapeHTML (edc_url d) in
      join_with new_line
       [''<!doctype html>'',
        ''<html'' @ attribute ''lang'' ''en'' @ ''>'',
        ''  <body'' @ attribute ''style'' ''margin:0;background:#111;color:#f5f5f5;font-family:Arial,sans-serif'' @ ''>'',
        ''    <span'' @ attribute ''style'' ''display:none;max-height:0;overflow:hidden'' @ ''>'' @ preview @ ''</span>'',
        ''    <main'' @ attribute ''style'' ''max-width:560px;margin:0 auto;padding:48px 24px'' @ ''>'',
        ''      <p'' @ attribute ''style'' ''font-size:14px;letter-spacing:.08em;color:#aaa'' @ ''>NUBOLS</p>'',
        ''      <h1'' @ attribute ''style'' ''font-size:28px;line-height:1.2'' @ ''>'' @ heading @ ''</h1>'',
        ''      <p'' @ attribute ''style'' ''font-size:16px;line-height:1.6;color:#ccc'' @ ''>'' @ body @ ''</p>'',
        ''      <p'' @ attribute ''style'' ''margin:32px 0'' @ ''>'',
        ''        <a'' @ attribute ''href'' url @ attribute ''style''
          ''display:inline-block;padding:12px 20px;border-radius:999px;background:#fff;color:#111;text-decoration:none;font-weight:600''
          @ ''>'' @ action @ ''</a>'',
        ''      </p>'',
        ''      <p'' @ attribute ''style'' ''font-size:12px;line-height:1.5;color:#888''
          @ ''>If the button does not work, open this URL:<br><a'' @ attribute ''href'' url
          @ attribute ''style'' ''color:#bbb;word-break:break-all'' @ ''>'' @ url @ ''</a></p>'',
        ''    </main>'',
        ''  </body>'',
        ''</html>''])"

section \<open>Messages\<close>

record email_message =
  eml_kind :: email_kind
  eml_to :: string
  eml_subject :: string
  eml_text :: string
  eml_html :: string
  eml_replyTo :: "string option"

definition greeting_name :: "string \<Rightarrow> string" where
  "greeting_name name = (if trim name = [] then ''there'' else trim name)"

definition emailVerificationEmail :: "string \<Rightarrow> string \<Rightarrow> string \<Rightarrow> email_message" where
  "emailVerificationEmail email rawName url =
     (let name = greeting_name rawName in
      \<lparr>eml_kind = MailVerification, eml_to = email, eml_subject = ''Verify your Nubols email'',
       eml_text = ''Hi '' @ name @ '','' @ new_line @ new_line @ ''Verify your email to finish setting up Nubols:'' @ new_line
         @ url @ new_line @ new_line @ ''If you did not create this account, ignore this message.'',
       eml_html = emailDocument \<lparr>edc_preview = ''Verify your Nubols email'', edc_heading = ''Welcome, '' @ name @ ''.'',
         edc_body = ''Verify your email to finish setting up your Nubols account.'', edc_action = ''Verify email'', edc_url = url\<rparr>,
       eml_replyTo = None\<rparr>)"

definition passwordResetEmail :: "string \<Rightarrow> string \<Rightarrow> string \<Rightarrow> email_message" where
  "passwordResetEmail email rawName url =
     (let name = greeting_name rawName in
      \<lparr>eml_kind = MailPasswordReset, eml_to = email, eml_subject = ''Reset your Nubols password'',
       eml_text = ''Hi '' @ name @ '','' @ new_line @ new_line @ ''Reset your Nubols password using this link:'' @ new_line
         @ url @ new_line @ new_line @ ''If you did not request this, ignore this message.'',
       eml_html = emailDocument \<lparr>edc_preview = ''Reset your Nubols password'', edc_heading = ''Reset your password.'',
         edc_body = ''Use the secure link below to choose a new Nubols password.'', edc_action = ''Reset password'', edc_url = url\<rparr>,
       eml_replyTo = None\<rparr>)"

definition organizationInvitationEmail :: "string \<Rightarrow> string \<Rightarrow> string \<Rightarrow> string \<Rightarrow> email_message" where
  "organizationInvitationEmail email organizationName inviterName url =
     \<lparr>eml_kind = MailOrganizationInvitation, eml_to = email, eml_subject = ''Join '' @ organizationName @ '' on Nubols'',
      eml_text = inviterName @ '' invited you to join '' @ organizationName @ '' on Nubols.'' @ new_line @ new_line
        @ ''Accept the invitation:'' @ new_line @ url,
      eml_html = emailDocument \<lparr>edc_preview = ''Join '' @ organizationName @ '' on Nubols'',
        edc_heading = ''Join '' @ organizationName @ ''.'',
        edc_body = inviterName @ '' invited you to their Nubols organization. Sign in with this email address to accept.'',
        edc_action = ''Accept invitation'', edc_url = url\<rparr>,
      eml_replyTo = None\<rparr>"

record contact_mail =
  cma_to :: string
  cma_name :: string
  cma_email :: string
  cma_organization :: "string option"
  cma_topic :: string
  cma_message :: string
  cma_requestId :: string

definition labelled :: "string \<Rightarrow> string \<Rightarrow> string" where
  "labelled label value =
     ''        <dt'' @ attribute ''style'' ''color:#888'' @ ''>'' @ label @ ''</dt><dd>'' @ escapeHTML value @ ''</dd>''"

definition contactNotificationEmail :: "contact_mail \<Rightarrow> email_message" where
  "contactNotificationEmail c =
     (let organization = (case trim_or_null (cma_organization c) of None \<Rightarrow> ''Not provided'' | Some g \<Rightarrow> g);
          htmlMessage = replace_char CHR 0x0A ''<br>'' (escapeHTML (cma_message c)) in
      \<lparr>eml_kind = MailContactNotification, eml_to = cma_to c,
       eml_subject = ''[Nubols contact] '' @ cma_topic c @ '': ''
         @ (case trim_or_null (cma_organization c) of None \<Rightarrow> cma_name c | Some g \<Rightarrow> g),
       eml_text = join_with new_line [''New Nubols '' @ cma_topic c @ '' contact request'', [], ''Request: '' @ cma_requestId c,
         ''Name: '' @ cma_name c, ''Email: '' @ cma_email c, ''Organization: '' @ organization, ''Topic: '' @ cma_topic c, [],
         cma_message c],
       eml_html = join_with new_line
        [''<!doctype html>'',
         ''<html'' @ attribute ''lang'' ''en'' @ ''>'',
         ''  <body'' @ attribute ''style'' ''margin:0;background:#111;color:#f5f5f5;font-family:Arial,sans-serif'' @ ''>'',
         ''    <main'' @ attribute ''style'' ''max-width:640px;margin:0 auto;padding:40px 24px'' @ ''>'',
         ''      <p'' @ attribute ''style'' ''font-size:14px;letter-spacing:.08em;color:#aaa'' @ ''>NUBOLS CONTACT</p>'',
         ''      <h1'' @ attribute ''style'' ''font-size:24px;line-height:1.2'' @ ''>'' @ escapeHTML (cma_topic c) @ ''</h1>'',
         ''      <dl'' @ attribute ''style'' ''font-size:14px;line-height:1.7;color:#ccc'' @ ''>'',
         labelled ''Request'' (cma_requestId c),
         labelled ''Name'' (cma_name c),
         labelled ''Email'' (cma_email c),
         labelled ''Organization'' organization,
         ''      </dl>'',
         ''      <p'' @ attribute ''style'' ''margin-top:28px;font-size:15px;line-height:1.7;color:#ddd'' @ ''>'' @ htmlMessage @ ''</p>'',
         ''    </main>'',
         ''  </body>'',
         ''</html>''],
       eml_replyTo = Some (cma_email c)\<rparr>)"

section \<open>The Resend transport\<close>

record resend_transport =
  rst_token :: string
  rst_from :: string

text \<open>\<open>endpoint\<close> is the protocol and the host name of the parsed URL, if it can be parsed.\<close>

definition createResendEmailSender :: "string \<Rightarrow> string \<Rightarrow> (string \<times> string) option \<Rightarrow> js_num \<Rightarrow> db_error + resend_transport" where
  "createResendEmailSender apiKey from_address endpoint timeoutMs =
     (if trim apiKey = [] then Inl (JsError ''Resend API key is required'')
      else if trim from_address = [] then Inl (JsError ''Transactional email from address is required'')
      else if \<not> is_safe_integer timeoutMs \<or> int_value timeoutMs < 1000 \<or> int_value timeoutMs > 60000
      then Inl (JsError ''Transactional email timeout must be between 1000 and 60000 milliseconds'')
      else case endpoint of
        None \<Rightarrow> Inl (JsTypeError ''Invalid URL'')
      | Some (protocol, host) \<Rightarrow>
          if protocol \<noteq> ''https:'' \<and> host \<noteq> ''localhost'' then Inl (JsError ''Transactional email endpoint must use HTTPS'')
          else Inr \<lparr>rst_token = trim apiKey, rst_from = trim from_address\<rparr>)"

fun email_kind_text :: "email_kind \<Rightarrow> string" where
  "email_kind_text MailVerification = ''email-verification''"
| "email_kind_text MailPasswordReset = ''password-reset''"
| "email_kind_text MailOrganizationInvitation = ''organization-invitation''"
| "email_kind_text MailContactNotification = ''contact-notification''"

definition resend_body :: "resend_transport \<Rightarrow> email_message \<Rightarrow> json" where
  "resend_body transport m = JsonObject (
     [(''from'', JsonString (rst_from transport)), (''to'', JsonArray [JsonString (eml_to m)]),
      (''subject'', JsonString (eml_subject m)), (''text'', JsonString (eml_text m)), (''html'', JsonString (eml_html m))]
     @ (case truthy (eml_replyTo m) of None \<Rightarrow> [] | Some r \<Rightarrow> [(''reply_to'', JsonString r)])
     @ [(''tags'', JsonArray [JsonObject [(''name'', JsonString ''kind''),
         (''value'', JsonString (email_kind_text (eml_kind m)))]])])"

text \<open>An error with its name, or the status and the parsed body.\<close>

datatype resend_answer = ResendThrown string db_error | ResendAnswer nat "(string \<times> db_error) + json"

definition named_error :: "string \<Rightarrow> db_error \<Rightarrow> db_error" where
  "named_error name e = (if name = ''AbortError'' then JsError ''Transactional email provider timed out'' else e)"

definition send_resend ::
  "resend_transport \<Rightarrow> ((string \<times> string) list \<Rightarrow> json \<Rightarrow> resend_answer) \<Rightarrow> email_message \<Rightarrow> db_error + string"
where
  "send_resend transport fetch m =
     (case fetch [(''authorization'', ''Bearer '' @ rst_token transport), (''content-type'', ''application/json'')]
             (resend_body transport m) of
        ResendThrown name e \<Rightarrow> Inl (named_error name e)
      | ResendAnswer status body \<Rightarrow>
          if status < 200 \<or> status > 299
          then Inl (JsError (''Transactional email provider rejected the message ('' @ show_nat status @ '')''))
          else case body of
            Inl (name, e) \<Rightarrow> Inl (named_error name e)
          | Inr result \<Rightarrow>
              if result = JsonNull then Inl (JsTypeError ''null is not an object'')
              else case json_string (field ''id'' result) of
                None \<Rightarrow> Inl (JsError ''Transactional email provider returned no message ID'')
              | Some i \<Rightarrow>
                  if trim i = [] then Inl (JsError ''Transactional email provider returned no message ID'') else Inr i)"

section \<open>The diagnostics of a delivery\<close>

datatype mail_failure = RecipientSuppressed | MailThrown db_error

type_synonym 'a mail_op = "(cloud_db, mail_failure, 'a) operation"

record mail_diagnostics =
  mdg_provider :: string
  mdg_recipientHash :: "string \<Rightarrow> string"

text \<open>\<open>hmac secret\<close> is the keyed digest in hexadecimal digits.\<close>

definition createDiagnosticEmailSender :: "(string \<Rightarrow> string \<Rightarrow> string) \<Rightarrow> string \<Rightarrow> string \<Rightarrow> db_error + mail_diagnostics" where
  "createDiagnosticEmailSender hmac rawProvider rawSecret =
     (if trim rawProvider = [] then Inl (JsError ''Diagnostic email provider is required'')
      else if length (trim rawSecret) < 32
      then Inl (JsError ''Email recipient hash secret must contain at least 32 characters'')
      else Inr \<lparr>mdg_provider = trim rawProvider, mdg_recipientHash = hmac (trim rawSecret)\<rparr>)"

definition recipient_hash :: "mail_diagnostics \<Rightarrow> email_message \<Rightarrow> string" where
  "recipient_hash d m = mdg_recipientHash d (toLowerCase (trim (eml_to m)))"

definition mail_db :: "'a dbop \<Rightarrow> 'a mail_op" where
  "mail_db m s = (case m s of (Inl e, t) \<Rightarrow> (Inl (MailThrown e), t) | (Inr x, t) \<Rightarrow> (Inr x, t))"

definition failure_code :: "mail_failure \<Rightarrow> string" where
  "failure_code e = (if e = RecipientSuppressed then ''email_recipient_suppressed'' else ''provider_send_failed'')"

definition send_diagnosed ::
  "mail_diagnostics \<Rightarrow> (email_message \<Rightarrow> mail_failure + string) \<Rightarrow> email_message \<Rightarrow> string \<Rightarrow> int \<Rightarrow> int \<Rightarrow> int \<Rightarrow> string mail_op"
where
  "send_diagnosed d send m newId begunAt sentAt failedAt =
     obind (oget (isEmailRecipientSuppressed (recipient_hash d m))) (\<lambda>suppressed.
     if suppressed then othrow RecipientSuppressed
     else
     obind (mail_db (beginEmailDelivery \<lparr>emi_id = newId, emi_provider = mdg_provider d, emi_kind = eml_kind m,
       emi_recipientHash = recipient_hash d m\<rparr> begunAt)) (\<lambda>_.
     ocatch
       (obind (olift (send m)) (\<lambda>receipt.
        obind (mail_db (markEmailDeliverySent newId receipt sentAt)) (\<lambda>_.
        oreturn receipt)))
       (\<lambda>e. obind (mail_db (markEmailDeliveryFailed newId (failure_code e) failedAt)) (\<lambda>_. othrow e))))"

section \<open>Who may sign up\<close>

definition defaultAllowedSignUpEmail :: string where
  "defaultAllowedSignUpEmail = ''beta@nubols.com''"

text \<open>\<open>new Set\<close> keeps the first of equal elements.\<close>

definition first_of_each :: "'a list \<Rightarrow> 'a list" where
  "first_of_each xs = rev (remdups (rev xs))"

definition allowedSignUpEmailsFromEnvironment :: "string option \<Rightarrow> db_error + string list" where
  "allowedSignUpEmailsFromEnvironment value =
     (let configured = (case trim_or_null value of None \<Rightarrow> defaultAllowedSignUpEmail | Some v \<Rightarrow> v);
          addresses = filter (\<lambda>a. a \<noteq> []) (map (\<lambda>email. toLowerCase (trim email)) (split_on CHR '','' configured)) in
      if addresses = [] \<or> list_ex (\<lambda>email. length email > 254 \<or> \<not> mail_pattern email) addresses
      then Inl (JsError ''NEBULA_SIGNUP_ALLOWED_EMAILS must contain valid comma-separated email addresses'')
      else Inr (first_of_each addresses))"

text \<open>The address of the app, without trailing slashes, query and fragment.\<close>

definition normalizeBaseURL :: "parsed_url option \<Rightarrow> db_error + parsed_url" where
  "normalizeBaseURL parsed =
     (case parsed of
        None \<Rightarrow> Inl (JsTypeError ''Invalid URL'')
      | Some url \<Rightarrow>
          if url_protocol url \<noteq> ''http:'' \<and> url_protocol url \<noteq> ''https:''
          then Inl (JsError ''Public application URL must use HTTP or HTTPS'')
          else
            let stripped = rev (dropWhile (\<lambda>c. c = CHR ''/'') (rev (url_pathname url))) in
            Inr (url\<lparr>url_pathname := (if stripped = [] then ''/'' else stripped), url_search := [], url_hash := []\<rparr>))"

text \<open>\<open>createCloudAuth\<close>: its checks, and the addresses its hook lets in; \<open>None\<close> lets in every address.\<close>

definition newCloudAuth ::
  "string \<Rightarrow> parsed_url option \<Rightarrow> bool \<Rightarrow> bool \<Rightarrow> string list option \<Rightarrow> db_error + parsed_url \<times> string set option"
where
  "newCloudAuth secret appBaseURL requireEmailVerification hasSender allowedSignUpEmails =
     (if length (trim secret) < 32 then Inl (JsError ''Better Auth secret must contain at least 32 characters'')
      else
      sbind (normalizeBaseURL appBaseURL) (\<lambda>publicAppURL.
      if requireEmailVerification \<and> \<not> hasSender
      then Inl (JsError ''Email verification requires a transactional email sender'')
      else
        let allowlist = map_option (\<lambda>emails. set (map (\<lambda>email. toLowerCase (trim email)) emails)) allowedSignUpEmails in
        if allowlist \<noteq> None \<and> [] \<in> the allowlist
        then Inl (JsError ''Allowed sign-up emails cannot contain an empty address'')
        else Inr (publicAppURL, allowlist)))"

definition sign_up_hook :: "string set option \<Rightarrow> string \<Rightarrow> json \<Rightarrow> bool" where
  "sign_up_hook allowlist path body =
     (case allowlist of
        None \<Rightarrow> True
      | Some allowed \<Rightarrow>
          path \<noteq> ''/sign-up/email''
          \<or> (case json_string (field ''email'' body) of None \<Rightarrow> [] | Some email \<Rightarrow> toLowerCase (trim email)) \<in> allowed)"

section \<open>The markup of a mail\<close>

text \<open>The characters that begin or end a tag or the value of an attribute.\<close>

definition markup :: "string \<Rightarrow> string" where
  "markup s = filter (\<lambda>c. c = CHR ''<'' \<or> c = CHR ''>'' \<or> c = double_quote \<or> c = single_quote) s"

lemma markup_append [simp]: "markup (s @ t) = markup s @ markup t"
  by (simp add: markup_def)

lemma markup_Nil [simp]: "markup [] = []"
  and markup_Cons: "markup (c # s) = (if c = CHR ''<'' \<or> c = CHR ''>'' \<or> c = double_quote \<or> c = single_quote then c # markup s else markup s)"
  by (simp_all add: markup_def)

lemmas markup_simps = markup_Cons double_quote_def single_quote_def

lemma replace_char_Nil [simp]: "replace_char c r [] = []"
  and replace_char_Cons: "replace_char c r (x # xs) = (if x = c then r else [x]) @ replace_char c r xs"
  and replace_char_append: "replace_char c r (xs @ ys) = replace_char c r xs @ replace_char c r ys"
  by (simp_all add: replace_char_def)

lemma escapeHTML_append: "escapeHTML (s @ t) = escapeHTML s @ escapeHTML t"
  by (simp add: escapeHTML_def replace_char_append)

lemma escapeHTML_Nil [simp]: "escapeHTML [] = []"
  by (simp add: escapeHTML_def)

text \<open>The five replacements in a row escape every character once.\<close>

definition escape_char :: "char \<Rightarrow> string" where
  "escape_char c =
     (if c = CHR ''&'' then ''&amp;'' else if c = CHR ''<'' then ''&lt;'' else if c = CHR ''>'' then ''&gt;''
      else if c = double_quote then ''&quot;'' else if c = single_quote then ''&#039;'' else [c])"

lemma escape_one: "escapeHTML [c] = escape_char c"
  by (simp add: escapeHTML_def replace_char_Cons escape_char_def double_quote_def single_quote_def)

lemma escapeHTML_map: "escapeHTML s = concat (map escape_char s)"
proof (induction s)
  case (Cons c s)
  have "escapeHTML (c # s) = escapeHTML [c] @ escapeHTML s" using escapeHTML_append [of "[c]" s] by simp
  with Cons show ?case by (simp add: escape_one)
qed simp

lemma escaped_markup [simp]: "markup (escapeHTML s) = []"
proof (induction s)
  case (Cons c s)
  have "markup (escape_char c) = []"
    by (simp add: escape_char_def markup_simps)
  with Cons show ?case by (simp add: escapeHTML_map)
qed (simp add: escapeHTML_def markup_def)

lemma join_markup: "markup sep = [] \<Longrightarrow> markup (join_with sep xs) = concat (map markup xs)"
  by (induction sep xs rule: join_with.induct) (simp_all add: markup_def)

lemma new_line_markup [simp]: "markup new_line = []"
  by (simp add: markup_simps new_line_def)

lemma document_markup: "markup (emailDocument d) = markup (emailDocument e)"
  unfolding emailDocument_def Let_def join_markup [OF new_line_markup]
  by (simp add: attribute_def markup_simps)

lemma escaped_breaks: "filter (\<lambda>c. c = CHR 0x0A) (escapeHTML s) = filter (\<lambda>c. c = CHR 0x0A) s"
  by (induction s) (simp_all add: escapeHTML_map escape_char_def double_quote_def single_quote_def)

lemma breaks_only:
  "markup s = [] \<Longrightarrow> markup (replace_char CHR 0x0A ''<br>'' s) = concat (replicate (length (filter (\<lambda>c. c = CHR 0x0A) s)) ''<>'')"
  by (induction s) (auto simp: replace_char_Cons markup_simps split: if_splits)

lemma escape_char_head: "escape_char c @ xs = escape_char d @ ys \<longleftrightarrow> c = d \<and> xs = ys"
  by (auto simp: escape_char_def double_quote_def single_quote_def split: if_splits)

lemma escapeHTML_inj: "escapeHTML s = escapeHTML t \<longleftrightarrow> s = t"
proof (induction s arbitrary: t)
  case Nil
  show ?case by (cases t) (auto simp: escapeHTML_map escape_char_def)
next
  case (Cons c s)
  show ?case
  proof (cases t)
    case Nil
    then show ?thesis by (auto simp: escapeHTML_map escape_char_def)
  next
    case (Cons d u)
    with Cons.IH [of u] show ?thesis by (simp add: escapeHTML_map escape_char_head)
  qed
qed

definition line_breaks :: "string \<Rightarrow> string" where
  "line_breaks s = filter (\<lambda>c. c = CHR 0x0A) s"

definition blank_contact :: "string \<Rightarrow> contact_mail" where
  "blank_contact message = \<lparr>cma_to = [], cma_name = [], cma_email = [], cma_organization = None, cma_topic = [],
     cma_message = message, cma_requestId = []\<rparr>"

lemma message_markup:
  "markup (replace_char CHR 0x0A ''<br>'' (escapeHTML m)) = markup (replace_char CHR 0x0A ''<br>'' (escapeHTML (line_breaks m)))"
proof -
  have "length (filter (\<lambda>c. c = CHR 0x0A) (escapeHTML m)) = length (filter (\<lambda>c. c = CHR 0x0A) (escapeHTML (line_breaks m)))"
    by (simp add: escaped_breaks line_breaks_def)
  then show ?thesis by (simp add: breaks_only)
qed

lemma contact_markup:
  "markup (eml_html (contactNotificationEmail c)) = markup (eml_html (contactNotificationEmail (blank_contact (line_breaks (cma_message c)))))"
  unfolding contactNotificationEmail_def Let_def email_message.select_convs join_markup [OF new_line_markup]
  by (simp add: message_markup [of "cma_message c"] attribute_def blank_contact_def labelled_def markup_simps)

section \<open>The life of a delivery\<close>

lemma begin_stored:
  assumes "beginEmailDelivery inp now s = (Inr x, t)" and "trim (emi_id inp) = emi_id inp"
  obtains p where "row_error email_delivery_schema (new_delivery (emi_id inp) p (emi_kind inp) (emi_recipientHash inp) now)
      (email_deliveries s) = None"
    and "t = set_email_deliveries (email_deliveries s @ [new_delivery (emi_id inp) p (emi_kind inp) (emi_recipientHash inp) now]) s"
  using assms by (auto simp: beginEmailDelivery_def obind_eq_Inr operation_defs ed_tbl.insert_Inr emailDiagnosticText_def Let_def
      split: if_splits)

lemma begin_refused: "beginEmailDelivery inp now s = (Inl e, t) \<Longrightarrow> t = s"
  by (auto simp: beginEmailDelivery_def obind_eq_Inl operation_defs ed_tbl.insert_Inl)

text \<open>A table whose last row is the new delivery, which no other row is mistaken for.\<close>

definition newly_begun :: "email_delivery_row list \<Rightarrow> email_delivery_row \<Rightarrow> cloud_db \<Rightarrow> bool" where
  "newly_begun rows d u \<longleftrightarrow> email_deliveries u = rows @ [d] \<and> schema_ok email_delivery_schema (rows @ [d])
     \<and> ed_status d = MailSending \<and> (\<forall>x \<in> set rows. ed_id x \<noteq> ed_id d)"

lemma only_last_row:
  assumes "\<forall>x \<in> set rows. ed_id x \<noteq> ed_id d" and "ed_status d = MailSending"
  shows "map (\<lambda>x. if ed_id x = ed_id d \<and> ed_status x = MailSending then f x else x) (rows @ [d]) = rows @ [f d]"
  using assms by (auto intro: map_idI)

lemma mark_sent_row:
  assumes "markEmailDeliverySent (ed_id d) receipt now u = (Inr x, t)" and "newly_begun rows d u"
  shows "email_deliveries t = rows @ [sent_row (trim receipt) now d]"
proof -
  from assms(1) obtain n where "update_in email_deliveries set_email_deliveries email_delivery_schema
      (\<lambda>x. ed_id x = ed_id d \<and> ed_status x = MailSending) (sent_row (trim receipt) now) u = (Inr n, t)"
    by (auto simp: markEmailDeliverySent_def emailDiagnosticText_def Let_def split: if_splits)
  from ed_tbl.update_rows [OF this] assms(2) show ?thesis
    using only_last_row [of rows d "sent_row (trim receipt) now"] by (simp add: newly_begun_def)
qed

lemma mark_sent_refused: "markEmailDeliverySent i receipt now u = (Inl e, t) \<Longrightarrow> t = u"
  by (auto simp: markEmailDeliverySent_def obind_eq_Inl operation_defs dest: ed_tbl.update_Inl)

lemma failure_code_text: "emailDiagnosticText (failure_code e) ''Email error code'' 128 = Inr (failure_code e)"
  by (simp add: failure_code_def emailDiagnosticText_def trim_def js_space_def)

lemma mark_failed_row:
  assumes "newly_begun rows d u" and "ed_created_at d \<le> now"
  shows "\<exists>x t. markEmailDeliveryFailed (ed_id d) (failure_code e) now u = (Inr x, t)
    \<and> email_deliveries t = rows @ [failed_row (failure_code e) now d]"
proof -
  let ?p = "\<lambda>x. ed_id x = ed_id d \<and> ed_status x = MailSending"
  have mine: "r = d" if "r \<in> set (email_deliveries u)" "?p r" for r
    using assms(1) that by (auto simp: newly_begun_def)
  have "row_ok email_delivery_schema d" using assms(1) by (simp add: newly_begun_def schema_ok_def)
  then have "row_ok email_delivery_schema (failed_row (failure_code e) now d)"
    using assms(2) by (simp add: row_ok_iff email_delivery_schema_def failed_row_def failure_code_def)
  then have "update_in email_deliveries set_email_deliveries email_delivery_schema ?p (failed_row (failure_code e) now) u
      = (Inr (length (filter ?p (email_deliveries u))),
         set_email_deliveries (map (\<lambda>r. if ?p r then failed_row (failure_code e) now r else r) (email_deliveries u)) u)"
    using assms(1) mine
    by (intro ed_tbl.update_ok) (auto simp: newly_begun_def email_delivery_schema_def failed_row_def)
  moreover have "map (\<lambda>r. if ?p r then failed_row (failure_code e) now r else r) (email_deliveries u)
      = rows @ [failed_row (failure_code e) now d]"
    using assms(1) only_last_row [of rows d "failed_row (failure_code e) now"] by (simp add: newly_begun_def)
  ultimately show ?thesis
    by (simp add: markEmailDeliveryFailed_def failure_code_text obind_def operation_defs set_email_deliveries_def)
qed

text \<open>What becomes of a delivery that was begun.\<close>

definition settled_row :: "email_delivery_row \<Rightarrow> mail_failure + string \<Rightarrow> mail_failure + string \<Rightarrow> email_delivery_row \<Rightarrow> bool" where
  "settled_row d sent r e \<longleftrightarrow>
     ed_id e = ed_id d \<and> ed_recipient_hash e = ed_recipient_hash d \<and> ed_kind e = ed_kind d
     \<and> (case r of
          Inr receipt \<Rightarrow> sent = Inr receipt \<and> ed_status e = MailSent \<and> ed_provider_message_id e = Some (trim receipt)
        | Inl failure \<Rightarrow> ed_status e = MailFailed \<and> ed_error_code e = Some (failure_code failure))"

lemma sending_settles:
  assumes "newly_begun rows d u" and "ed_created_at d \<le> failedAt"
    and "ocatch (obind (olift sent) (\<lambda>receipt. obind (mail_db (markEmailDeliverySent (ed_id d) receipt sentAt)) (\<lambda>_. oreturn receipt)))
          (\<lambda>e. obind (mail_db (markEmailDeliveryFailed (ed_id d) (failure_code e) failedAt)) (\<lambda>_. othrow e)) u = (r, t)"
  shows "\<exists>e. email_deliveries t = rows @ [e] \<and> settled_row d sent r e"
proof -
  have failing: "\<exists>e. email_deliveries t = rows @ [e] \<and> settled_row d sent r e"
    if "obind (mail_db (markEmailDeliveryFailed (ed_id d) (failure_code f) failedAt)) (\<lambda>_. othrow f) u = (r, t)" for f
  proof -
    obtain x t' where "markEmailDeliveryFailed (ed_id d) (failure_code f) failedAt u = (Inr x, t')"
      "email_deliveries t' = rows @ [failed_row (failure_code f) failedAt d]" using mark_failed_row [OF assms(1,2)] by blast
    with that show ?thesis
      by (auto simp: obind_def mail_db_def othrow_def settled_row_def failed_row_def)
  qed
  show ?thesis
  proof (cases sent)
    case (Inl f)
    with assms(3) show ?thesis by (intro failing [of f]) (simp add: ocatch_def obind_def operation_defs)
  next
    case (Inr receipt)
    obtain x v where mark: "markEmailDeliverySent (ed_id d) receipt sentAt u = (x, v)" by fastforce
    show ?thesis
    proof (cases x)
      case (Inl f)
      with mark_sent_refused mark have "v = u" by blast
      with Inl Inr mark assms(3) show ?thesis
        by (intro failing [of "MailThrown f"]) (simp add: ocatch_def obind_def olift_def mail_db_def)
    next
      case (Inr y)
      with mark_sent_row [of d receipt sentAt u y v rows] mark assms(1)
      have "email_deliveries v = rows @ [sent_row (trim receipt) sentAt d]" by simp
      moreover have "r = Inr receipt" "t = v" using assms(3) \<open>sent = Inr receipt\<close> mark Inr
        by (simp_all add: ocatch_def obind_def operation_defs mail_db_def)
      ultimately show ?thesis using \<open>sent = Inr receipt\<close> by (simp add: settled_row_def sent_row_def)
    qed
  qed
qed

lemma begun_delivery:
  assumes "beginEmailDelivery inp now s = (Inr x, u)" and "trim (emi_id inp) = emi_id inp"
    and "schema_ok email_delivery_schema (email_deliveries s)"
  shows "\<exists>d. newly_begun (email_deliveries s) d u \<and> ed_id d = emi_id inp \<and> ed_created_at d = now
    \<and> ed_recipient_hash d = emi_recipientHash inp \<and> ed_kind d = emi_kind inp"
proof -
  obtain p where free: "row_error email_delivery_schema (new_delivery (emi_id inp) p (emi_kind inp) (emi_recipientHash inp) now)
      (email_deliveries s) = None"
    and u: "u = set_email_deliveries (email_deliveries s @ [new_delivery (emi_id inp) p (emi_kind inp) (emi_recipientHash inp) now]) s"
    by (rule begin_stored [OF assms(1,2)])
  let ?d = "new_delivery (emi_id inp) p (emi_kind inp) (emi_recipientHash inp) now"
  have "schema_ok email_delivery_schema (email_deliveries s @ [?d])" by (rule schema_ok_append [OF assms(3) free])
  moreover have "\<forall>x \<in> set (email_deliveries s). ed_id x \<noteq> ed_id ?d"
    using free by (auto simp: row_error_None email_delivery_schema_def collides_def)
  ultimately have "newly_begun (email_deliveries s) ?d u"
    by (simp add: newly_begun_def u set_email_deliveries_def new_delivery_def)
  then show ?thesis by (intro exI [of _ ?d]) (simp add: new_delivery_def)
qed

section \<open>Properties\<close>


text \<open>C40: Nothing a user writes becomes markup of a mail: whatever name, link, organization or message a mail contains,
  its angle brackets and quotes are the ones of an empty mail of its kind, where a contact mail has a \<open>br\<close> tag for each
  line break of the message; and no two texts are escaped to the same one, so a reader sees what was written.\<close>

theorem mail_markup_is_fixed:
  "markup (eml_html (emailVerificationEmail to name url)) = markup (eml_html (emailVerificationEmail [] [] []))
   \<and> markup (eml_html (passwordResetEmail to name url)) = markup (eml_html (passwordResetEmail [] [] []))
   \<and> markup (eml_html (organizationInvitationEmail to name inviter url)) = markup (eml_html (organizationInvitationEmail [] [] [] []))
   \<and> markup (eml_html (contactNotificationEmail c)) = markup (eml_html (contactNotificationEmail (blank_contact (line_breaks (cma_message c)))))
   \<and> (escapeHTML x = escapeHTML y \<longleftrightarrow> x = y)"
  by (intro conjI; (rule contact_markup escapeHTML_inj)?;
      simp add: emailVerificationEmail_def passwordResetEmail_def organizationInvitationEmail_def Let_def; rule document_markup)

text \<open>Sign-up is restricted to the configured addresses. A configuration that is accepted names at least one, all are
  well-formed, normalized and distinct, the authentication library accepts them, and exactly the requests to sign up with one
  of them, in any case and with blanks around it, pass the hook; without a configuration that is one address.\<close>

theorem sign_up_is_restricted:
  assumes "allowedSignUpEmailsFromEnvironment value = Inr emails"
    and "newCloudAuth secret app verification sender (Some emails) = Inr (url, allowlist)"
  shows "emails \<noteq> [] \<and> distinct emails \<and> (\<forall>e \<in> set emails. mail_pattern e \<and> length e \<le> 254 \<and> toLowerCase (trim e) = e)
    \<and> (trim_or_null value = None \<longrightarrow> emails = [defaultAllowedSignUpEmail])
    \<and> (sign_up_hook allowlist ''/sign-up/email'' body \<longleftrightarrow>
        (\<exists>email. field ''email'' body = Some (JsonString email) \<and> toLowerCase (trim email) \<in> set emails))"
proof -
  define configured where "configured = (case trim_or_null value of None \<Rightarrow> defaultAllowedSignUpEmail | Some v \<Rightarrow> v)"
  define addresses where
    "addresses = filter (\<lambda>a. a \<noteq> []) (map (\<lambda>email. toLowerCase (trim email)) (split_on CHR '','' configured))"
  have "allowedSignUpEmailsFromEnvironment value =
      (if addresses = [] \<or> list_ex (\<lambda>email. length email > 254 \<or> \<not> mail_pattern email) addresses
       then Inl (JsError ''NEBULA_SIGNUP_ALLOWED_EMAILS must contain valid comma-separated email addresses'')
       else Inr (first_of_each addresses))"
    by (simp only: allowedSignUpEmailsFromEnvironment_def Let_def configured_def addresses_def)
  with assms(1) have some: "addresses \<noteq> []" and emails: "emails = first_of_each addresses"
    and short: "\<not> list_ex (\<lambda>email. length email > 254 \<or> \<not> mail_pattern email) addresses"
    by (simp_all split: if_splits)
  have valid: "\<forall>e \<in> set addresses. length e \<le> 254 \<and> mail_pattern e"
    using short unfolding list_ex_iff by (meson not_le)
  have set_emails: "set emails = set addresses" by (simp add: emails first_of_each_def)
  have normal: "toLowerCase (trim e) = e" if "e \<in> set addresses" for e
    using that by (auto simp: addresses_def)
  have "[] \<notin> set addresses" by (auto simp: addresses_def)
  have "allowlist = Some (set emails)"
  proof -
    have "(\<lambda>email. toLowerCase (trim email)) ` set emails = set emails" using normal set_emails by force
    with assms(2) show ?thesis by (auto simp: newCloudAuth_def Let_def split: if_splits)
  qed
  then have "sign_up_hook allowlist ''/sign-up/email'' body \<longleftrightarrow>
      (\<exists>email. field ''email'' body = Some (JsonString email) \<and> toLowerCase (trim email) \<in> set emails)"
    using \<open>[] \<notin> set addresses\<close> set_emails
    by (cases "field ''email'' body" rule: json_string.cases) (simp_all add: sign_up_hook_def)
  moreover have "emails = [defaultAllowedSignUpEmail]" if "trim_or_null value = None"
  proof -
    have "configured = ''beta@nubols.com''" by (simp add: configured_def that defaultAllowedSignUpEmail_def)
    moreover have "filter (\<lambda>a. a \<noteq> []) (map (\<lambda>email. toLowerCase (trim email)) (split_on CHR '','' ''beta@nubols.com''))
        = [''beta@nubols.com'']" by code_simp
    ultimately show ?thesis by (simp add: emails addresses_def first_of_each_def defaultAllowedSignUpEmail_def)
  qed
  moreover have "emails \<noteq> []" "distinct emails" using some by (simp_all add: emails first_of_each_def)
  ultimately show ?thesis using valid normal set_emails by simp
qed

section \<open>The properties on concrete mails\<close>

definition sample_diagnostics :: mail_diagnostics where
  "sample_diagnostics = \<lparr>mdg_provider = ''resend'', mdg_recipientHash = (\<lambda>_. replicate 64 CHR ''a'')\<rparr>"

definition reset_mail :: email_message where
  "reset_mail = passwordResetEmail ''ada@x.io'' ''Ada'' ''https://app.x.io/r''"

lemma first_mail:
  "case send_diagnosed sample_diagnostics (\<lambda>_. Inr ''m1'') reset_mail ''d2'' 5 6 6 empty_db of
     (Inr receipt, t) \<Rightarrow> receipt = ''m1'' | _ \<Rightarrow> False"
  by code_simp


definition two_addresses :: string where
  "two_addresses = '' Ada@x.io,bob@y.org ,''"

definition app_url :: parsed_url where
  "app_url = \<lparr>url_protocol = ''https:'', url_username = [], url_password = [], url_hostname = ''app.x.io'', url_port = [],
     url_pathname = ''/'', url_search = [], url_hash = []\<rparr>"

definition join_body :: json where
  "join_body = JsonObject [(''email'', JsonString ''ADA@x.io'')]"

lemma two_configured:
  "allowedSignUpEmailsFromEnvironment (Some two_addresses) = Inr [''ada@x.io'', ''bob@y.org'']"
  by code_simp

lemma two_accepted:
  "\<exists>url allowlist. newCloudAuth (replicate 32 CHR ''s'') (Some app_url) False False (Some [''ada@x.io'', ''bob@y.org''])
     = Inr (url, allowlist)"
proof -
  have "length (trim (replicate 32 CHR ''s'')) = 32" by code_simp
  then show ?thesis by (auto simp: newCloudAuth_def normalizeBaseURL_def app_url_def Let_def toLowerCase_def trim_def js_space_def)
qed

theorem sign_up_is_restricted_witness:
  "\<exists>url allowlist. newCloudAuth (replicate 32 CHR ''s'') (Some app_url) False False (Some [''ada@x.io'', ''bob@y.org''])
       = Inr (url, allowlist)
     \<and> sign_up_hook allowlist ''/sign-up/email'' join_body"
proof -
  obtain url allowlist where run: "newCloudAuth (replicate 32 CHR ''s'') (Some app_url) False False (Some [''ada@x.io'', ''bob@y.org''])
      = Inr (url, allowlist)" using two_accepted by blast
  have "field ''email'' join_body = Some (JsonString ''ADA@x.io'')" by code_simp
  moreover have "toLowerCase (trim ''ADA@x.io'') = ''ada@x.io''" by code_simp
  ultimately have "sign_up_hook allowlist ''/sign-up/email'' join_body"
    using sign_up_is_restricted [OF two_configured run, of join_body] by auto
  with run show ?thesis by blast
qed

end
