(* ===== verification/Spec2Isabelle.thy ===== *)
theory Spec2Isabelle
  imports AuthLimits Usage Console Wiring Startup Mail
begin

text \<open>
  The control plane of Nebula Cloud (a TypeScript monorepo): the database package
  (\<open>src/packages/database/src/index.ts\<close>, SQLite) and the server around it
  (\<open>src/apps/control-plane/src/\<close>). A browser talks to the request handler (\<open>server.ts\<close>), which checks
  the session or the administrator, calls an operation that \<open>index.ts\<close> composes from the database package and
  the gateways, and answers. Workspaces run on worker machines, which the control plane registers, watches,
  fills and reaches over signed requests. The authentication library, Stripe's library and the workers
  themselves are not part of the repository.

  \<^bold>\<open>Foundations.\<close>
  \<^item> \<open>Prelude\<close>: JavaScript numbers and strings, results with errors, operations over a state
    (\<open>dbop\<close>, \<open>obind\<close>, \<open>atomic\<close> for a transaction), and three locales: \<open>invariant_system\<close> (a step relation
    and what every step keeps), \<open>monotone_system\<close> (a relation between a state and all later ones) and
    \<open>versioned_register\<close> (a value that follows the newest of its versions in any order of arrival).
  \<^item> \<open>Errors\<close>: the error classes. \<open>Sqlite\<close>: tables with CHECK and UNIQUE constraints, statements, the locale
    \<open>sql_table\<close>. \<open>Schema\<close>: the tables, the triggers and the record \<open>cloud_db\<close> of all of them.
  Every table is an interpretation of \<open>sql_table\<close>, every step relation one of \<open>invariant_system\<close>.

  \<^bold>\<open>The database package.\<close>
  \<^item> \<open>Members\<close>: memberships, roles, disabling, the audit log of an organization. \<open>Workspaces\<close>: personal workspaces.
    \<open>Organizations\<close>: plan accounts, members, join codes, summaries.
  \<^item> \<open>Provisioning\<close>: the job queue with its leases, and \<open>provisioningProcessor.ts\<close>; the locale \<open>lease_queue\<close> is the
    contract between claiming and finishing. \<open>Workers\<close>: hosts, health samples, placement and reservations.
  \<^item> \<open>Entitlements\<close>, \<open>Billing\<close>: who may run an Operator; the projection of Stripe's events and the paid seats.
  \<^item> \<open>Platform\<close>: kill switches and their audit trails. \<open>Publications\<close>: published services and quotas.
    \<open>Usage\<close>: the usage ledger. \<open>Contacts\<close>: the contact inbox. \<open>Emails\<close>: deliveries and invitations.

  \<^bold>\<open>The gateways and limits.\<close>
  \<^item> \<open>Quotas\<close>: connection and bandwidth limiters. \<open>Ingress\<close>: the TCP ingress and its reconciler (the locale
    \<open>reconciled_ingress\<close> is what the reconciler needs of an ingress). \<open>AuthLimits\<close>: the limits of sign-in.
  \<^item> \<open>Routing\<close>, \<open>Gateway\<close>: host names and the HTTP gateway of published services. \<open>Serving\<close>: publishing and
    disconnecting with their ingress and routes. \<open>Console\<close>: the browser console and its bridge.
  \<^item> \<open>Runtime\<close>: the runtime gateway with the usage it collects and the price table (\<open>modelPricing.ts\<close>).

  \<^bold>\<open>The server.\<close>
  \<^item> \<open>Control\<close>: the handlers of \<open>index.ts\<close> for join codes, members, workspaces and the contact form.
    \<open>Directory\<close>: worker directory, administration and health monitor. \<open>Client\<close>: the signed requests to a worker
    and what is made of its answers, the cached clients and the calls of the directory (\<open>workerClient.ts\<close>).
  \<^item> \<open>Http\<close>: bodies, the validators and exports of \<open>server.ts\<close>. \<open>Webhooks\<close>: the Stripe and Resend processors.
    \<open>Server\<close>: \<open>dispatch\<close>, every route in the order of the handler, and \<open>answer\<close>, the reply to every result.
    \<open>Wiring\<close>: \<open>perform_op\<close>, what each dispatched operation does to the database, the ingress and the workers,
    so that \<open>handle_request env (perform_op w m)\<close> is one request from its path to its reply.

  \<^bold>\<open>Around the server.\<close>
  \<^item> \<open>Mail\<close>: the mails of \<open>packages/auth\<close> and their transport, the sender that keeps the diagnostics of a delivery, and
    who may sign up. \<open>Startup\<close>: the browser's start of an Operator (\<open>apps/web/src/runtime\<close>), as a loop over any
    network and clock that logs its calls; the requests it sends are those the server dispatches.
  \<^item> This theory: the properties that span the components.

  \<^bold>\<open>What the lemmas show.\<close> For each table, the operations keep its schema (\<open>schema_ok\<close>) and write the columns
  they are meant to (\<open>_Inr\<close> lemmas: what holds of a run that did not throw). Over the step relations, invariants
  of all reachable states: leases are exclusive, reservations add up to at most the capacity, seats
  fit the purchase, an organization keeps an enabled owner, counters match the open connections. Abstract
  specifications: the connection limiter refines a multiset of connections, the handshake and the bodies a function
  of the concatenated chunks, the projections the newest version. Findings are theorems where the code does
  not do what it means to.

  \<^bold>\<open>Conventions and bounds.\<close> The clock, new identifiers and random values are arguments. A number a caller passes is
  a \<open>js_num\<close>; an accepted one is an \<open>int\<close> within \<open>MAX_SAFE_INTEGER\<close>. Strings are lists of Latin-1 characters, so
  characters beyond and the length of their encoding are not covered. Reading the inbox has as much fuel as there are
  requests and one more; the export reads 25 pages of 200, the 5000 rows it is limited to; the retries of a job end
  at the attempt limit. A fixed window may admit twice its limit in an interval of one window length, which is the
  bound proved. Parameters are: keyed digests and random tokens, base64 and UTF-8, the URL parser, \<open>Number\<close> of a
  text, the JSON parser, ISO dates, the rounding of doubles, Stripe's signature check, the answers of workers
  and of the mail provider.

  \<^bold>\<open>Not modelled\<close>: sockets, timers and the event loop (their callbacks are steps), the configuration read at
  start-up, the texts of replies, logging, backups, the migrations of old databases (the resulting schema is
  modelled), the authentication library (its session is an argument), mails written to files, the React pages of
  \<open>src/apps/web\<close>, the scripts
  and the tools, which hold no state of the system.
\<close>

section \<open>Access across the components\<close>

text \<open>A disabled membership is read by four components: the member checks, the entitlements, the owner
  lookup of the runtime gateway and the lookups of the publication gateways.\<close>

lemma disabled_owner_not_serving:
  assumes "workspaces_ok t" and "w \<in> set (workspaces t)" and "member_disabled (ws_member_id w) t = 1"
  shows "\<not> serving_workspace (ws_id w) t" and "trim i = ws_id w \<Longrightarrow> getWorkspaceOwnerIdentity i t = None"
proof -
  have own: "v = w" if "v \<in> set (workspaces t)" and "ws_id v = ws_id w" for v
    using workspaces_ok_same_id [OF assms(1) that(1) assms(2) that(2)] .
  show "\<not> serving_workspace (ws_id w) t"
    using assms(3) by (auto simp: serving_workspace_def list_ex_iff dest: own)
  have "enabled_owner w t = None"
    using assms(3) by (auto simp: enabled_owner_def find_None_iff)
  then show "trim i = ws_id w \<Longrightarrow> getWorkspaceOwnerIdentity i t = None"
    by (auto simp: getWorkspaceOwnerIdentity_def split: option.splits dest!: find_SomeD own)
qed

lemma disabled_not_entitled:
  "member_disabled (trim m) t = 1 \<Longrightarrow> \<not> hasActiveOperatorEntitlement m g moment t"
  by (auto simp: hasActiveOperatorEntitlement_def list_ex_iff split: if_splits)

lemma member_states_only:
  "t = set_member_states rows s \<Longrightarrow> members t = members s"
  "t = set_member_states rows s \<Longrightarrow> workspaces t = workspaces s"
  "t = set_member_states rows s \<Longrightarrow> find_membership u g t = find_membership u g s"
  by (simp_all add: set_member_states_def find_membership_def)

text \<open>C10: Disabling a membership takes effect everywhere at once: the member is no longer enabled and
  administers nothing, his entitlement counts at no time, the gateway no longer finds the owner of his workspace,
  and none of the workspace's published services is reachable by slug or by port.\<close>

theorem disabled_member_loses_access:
  assumes "setOrganizationMemberDisabled u g (mb_id m) True now s = (Inr c, t)"
    and "find_membership v g s = Some m" and "trim mid = mb_id m"
    and "workspaces_ok s" and "w \<in> set (workspaces s)" and "ws_member_id w = mb_id m"
    and "trim wid = ws_id w"
  shows "\<not> isOrganizationMemberEnabled v g t \<and> requireOrganizationAdmin v g t = Inl OrganizationAccessDeniedError
    \<and> \<not> hasActiveOperatorEntitlement mid g later t
    \<and> getWorkspaceOwnerIdentity wid t = None
    \<and> \<not> (\<exists>sv. getPublishedServiceBySlug slug moment t = Some sv \<and> psv_workspaceId sv = ws_id w)
    \<and> \<not> (\<exists>sv. getPublishedServiceByIngressPort port moment t = Some sv \<and> psv_workspaceId sv = ws_id w)"
proof -
  note run = setOrganizationMemberDisabled_Inr [OF assms(1)]
  have off: "member_disabled (mb_id m) t = 1" using run(1) by simp
  have "workspaces_ok t" "w \<in> set (workspaces t)" "find_membership v g t = Some m"
    using assms(2,4,5) member_states_only [OF run(2)] by (simp_all add: workspaces_ok_def)
  with off assms(3,6,7) show ?thesis
    using disabled_owner_not_serving [of t w] disabled_not_entitled [of mid t]
    by (auto simp: isOrganizationMemberEnabled_def requireOrganizationAdmin_def toPublishedService_def
        elim!: served_service served_port)
qed

definition disabling_db :: cloud_db where
  "disabling_db = sample_db
     \<lparr>workspaces := [(new_workspace ''w2'' ''m2'' ''o1'' 5)\<lparr>ws_state := WsReady\<rparr>],
      published_services :=
        [service_row ''p2'' ''w2'' ''web'' ''s2'' ProtoHttp 8080 None (VisPublic, AuthNone) None None 5]\<rparr>"

theorem disabled_member_loses_access_witness:
  "\<exists>c t. setOrganizationMemberDisabled ''u1'' ''o1'' ''m2'' True 9 disabling_db = (Inr c, t)
     \<and> getPublishedServiceBySlug ''s2'' 9 disabling_db \<noteq> None \<and> getWorkspaceOwnerIdentity ''w2'' disabling_db \<noteq> None
     \<and> \<not> isOrganizationMemberEnabled ''u2'' ''o1'' t \<and> getWorkspaceOwnerIdentity ''w2'' t = None"
proof -
  let ?m = "\<lparr>mb_id = ''m2'', mb_organizationId = ''o1'', mb_userId = ''u2'', mb_role = ''member'', mb_createdAt = 2\<rparr>"
  let ?w = "(new_workspace ''w2'' ''m2'' ''o1'' 5)\<lparr>ws_state := WsReady\<rparr>"
  have "\<exists>c t. setOrganizationMemberDisabled ''u1'' ''o1'' ''m2'' True 9 disabling_db = (Inr c, t)"
    by (simp add: setOrganizationMemberDisabled_def organization_run disabling_db_def requireOrganizationAdmin_def
        member_disabled_def upsert_in_def member_state_schema_def set_member_states_def disabled_state_def flag_ok_def
        getOrganizationMembers_def organization_roster_def member_summary_of_def Let_def)
  then obtain c t where run: "setOrganizationMemberDisabled ''u1'' ''o1'' (mb_id ?m) True 9 disabling_db = (Inr c, t)"
    by auto
  have "find_membership ''u2'' ''o1'' disabling_db = Some ?m" "?w \<in> set (workspaces disabling_db)"
    "workspaces_ok disabling_db"
    by (simp_all add: disabling_db_def sample_db_def empty_db_def find_membership_def workspaces_ok_def row_ok_iff
        workspace_schema_def new_workspace_def)
  moreover have "trim ''m2'' = mb_id ?m" "ws_member_id ?w = mb_id ?m" "trim ''w2'' = ws_id ?w"
    by (simp_all add: new_workspace_def trim_def js_space_def)
  moreover have "getPublishedServiceBySlug ''s2'' 9 disabling_db \<noteq> None" "getWorkspaceOwnerIdentity ''w2'' disabling_db \<noteq> None"
    by (simp_all add: getPublishedServiceBySlug_def getWorkspaceOwnerIdentity_def enabled_owner_def disabling_db_def
        organization_run member_disabled_def live_service_def serving_workspace_def new_workspace_def service_row_def)
  ultimately show ?thesis
    using disabled_member_loses_access [OF run, of "''u2''" "''m2''" ?w "''w2''"] run by auto
qed

end
